(* ===== verification/Prelude.thy ===== *)
theory Prelude
  imports Main "HOL-Library.Word"
begin

text \<open>
  Shared vocabulary of the development: the byte and machine-word types of the C++ code,
  little- and big-endian byte lists with their round trips, the \<open>named_theorems\<close>
  collections the component theories feed, and a few generic facts on lists and options.
\<close>

type_synonym u8 = "8 word"
type_synonym u16 = "16 word"
type_synonym u32 = "32 word"
type_synonym u64 = "64 word"
type_synonym bytes = "u8 list"

named_theorems codec_simps "round trips and lengths of the byte codecs"
named_theorems step_simps "how one operation changes the fields of a component's state"
named_theorems inv_intros "an operation preserves its component's invariant"

text \<open>The bytes of a text, and division as C++ rounds it.\<close>

definition ascii :: "string \<Rightarrow> bytes" where
  "ascii s = map of_char s"

definition trunc_div :: "int \<Rightarrow> int \<Rightarrow> int" where
  "trunc_div a b = sgn a * sgn b * (\<bar>a\<bar> div \<bar>b\<bar>)"

text \<open>\<open>std::isspace\<close> and \<open>std::isdigit\<close> of the C locale, and Boost's \<open>trim\<close>.\<close>

definition is_space :: "u8 \<Rightarrow> bool" where
  "is_space c \<longleftrightarrow> c = 0x20 \<or> 0x09 \<le> c \<and> c \<le> 0x0D"

definition is_digit :: "u8 \<Rightarrow> bool" where
  "is_digit c \<longleftrightarrow> 0x30 \<le> c \<and> c \<le> 0x39"

definition trim :: "bytes \<Rightarrow> bytes" where
  "trim t = rev (dropWhile is_space (rev (dropWhile is_space t)))"

section \<open>Byte lists of a number\<close>

fun le_bytes :: "nat \<Rightarrow> nat \<Rightarrow> bytes" where
  "le_bytes 0 x = []"
| "le_bytes (Suc n) x = word_of_nat x # le_bytes n (x div 256)"

fun le_nat :: "bytes \<Rightarrow> nat" where
  "le_nat [] = 0"
| "le_nat (b # bs) = unat b + 256 * le_nat bs"

definition be_bytes :: "nat \<Rightarrow> nat \<Rightarrow> bytes" where
  "be_bytes n x = rev (le_bytes n x)"

definition be_nat :: "bytes \<Rightarrow> nat" where
  "be_nat bs = le_nat (rev bs)"

lemma unat_byte [simp]: "unat (word_of_nat x :: u8) = x mod 256"
  by (simp add: unat_of_nat)

lemma unat_byte_less: "unat (b :: u8) < 256"
  using unsigned_less [of b] by simp

lemma length_le_bytes [simp, codec_simps]: "length (le_bytes n x) = n"
  by (induction n arbitrary: x) auto

lemma length_be_bytes [simp, codec_simps]: "length (be_bytes n x) = n"
  by (simp add: be_bytes_def)

lemma le_nat_le_bytes [codec_simps]: "le_nat (le_bytes n x) = x mod 256 ^ n"
proof (induction n arbitrary: x)
  case (Suc n)
  have "x mod (256 * 256 ^ n) = 256 * (x div 256 mod 256 ^ n) + x mod 256"
    by (rule mod_mult2_eq)
  with Suc show ?case by simp
qed simp

lemma be_nat_be_bytes [codec_simps]: "be_nat (be_bytes n x) = x mod 256 ^ n"
  by (simp add: be_nat_def be_bytes_def le_nat_le_bytes)

lemma le_nat_bound: "le_nat bs < 256 ^ length bs"
proof (induction bs)
  case (Cons b bs)
  have "unat b < 256" by (rule unat_byte_less)
  with Cons show ?case by simp
qed simp

lemma le_bytes_le_nat [codec_simps]: "le_bytes (length bs) (le_nat bs) = bs"
proof (induction bs)
  case (Cons b bs)
  have "unat b < 256" by (rule unat_byte_less)
  moreover from this have "(unat b + 256 * le_nat bs) div 256 = le_nat bs" by simp
  moreover have "(word_of_nat (unat b + 256 * le_nat bs) :: u8) = b"
    using \<open>unat b < 256\<close> by (subst word_unat_eq_iff, subst unat_byte) simp
  ultimately show ?case using Cons by simp
qed simp

lemma le_bytes_inj:
  "x < 256 ^ n \<Longrightarrow> y < 256 ^ n \<Longrightarrow> le_bytes n x = le_bytes n y \<Longrightarrow> x = y"
  by (metis le_nat_le_bytes mod_less)

lemma be_bytes_inj:
  "x < 256 ^ n \<Longrightarrow> y < 256 ^ n \<Longrightarrow> be_bytes n x = be_bytes n y \<Longrightarrow> x = y"
  by (metis be_nat_be_bytes mod_less)

lemma of_char_byte_eq: "(of_char c :: u8) = of_char d \<longleftrightarrow> c = d"
proof -
  have "unat (of_char c :: u8) = of_char c" for c
  proof -
    have "(of_char c :: u8) = word_of_nat (of_char c)" by (rule of_nat_of_char [symmetric])
    moreover have "(of_char c :: nat) < 256" by (cases c) (simp add: of_char_def split: bool.split)
    ultimately show ?thesis by simp
  qed
  then show ?thesis by (metis of_char_eq_iff)
qed

lemma ascii_eq [simp]: "ascii s = ascii t \<longleftrightarrow> s = t"
proof -
  have "inj (of_char :: char \<Rightarrow> u8)" by (rule injI) (simp only: of_char_byte_eq)
  then show ?thesis by (simp add: ascii_def inj_map_eq_map)
qed

section \<open>Lists and options\<close>

text \<open>\<open>resize\<close> of a vector, and a copy to the start of a buffer.\<close>

definition resize :: "nat \<Rightarrow> bytes \<Rightarrow> bytes" where
  "resize n xs = take n xs @ replicate (n - length xs) 0"

definition overwrite :: "bytes \<Rightarrow> bytes \<Rightarrow> bytes" where
  "overwrite new buf = new @ drop (length new) buf"

lemma map_option_eq_Some_conv: "map_option f x = Some y \<longleftrightarrow> (\<exists>z. x = Some z \<and> y = f z)"
  by (cases x) auto

section \<open>Bits of natural numbers\<close>

lemma bit_nat_less:
  fixes n :: nat
  assumes "n < 2 ^ k" and "bit n i"
  shows "i < k"
proof (rule ccontr)
  assume "\<not> i < k"
  then have "(2 :: nat) ^ k \<le> 2 ^ i" by (intro power_increasing) simp_all
  with assms show False by (simp add: bit_iff_odd)
qed

lemma bit_word_of_nat:
  "bit (word_of_nat n :: 'a :: len word) i \<longleftrightarrow> i < LENGTH('a) \<and> bit n i"
proof -
  have "bit (unat (word_of_nat n :: 'a word)) i = bit (take_bit LENGTH('a) n) i"
    by (simp only: unsigned_of_nat of_nat_id)
  then show ?thesis by (simp add: bit_unsigned_iff bit_take_bit_iff)
qed

lemma unat_eq_if_bits:
  fixes w :: "'a :: len word"
  assumes "\<And>i. bit w i \<longleftrightarrow> i < LENGTH('a) \<and> bit n i" and "n < 2 ^ LENGTH('a)"
  shows "unat w = n"
proof (rule bit_eqI)
  fix i
  have "bit (unat w) i \<longleftrightarrow> bit w i" by (simp add: bit_unsigned_iff)
  with assms bit_nat_less [OF assms(2), of i] show "bit (unat w) i \<longleftrightarrow> bit n i" by blast
qed

section \<open>Invariants of step relations\<close>

text \<open>
  The interface between a component's step relation and what is proved of its reachable
  states: \<open>ok\<close> is kept by every step, so it holds after any number of them.
\<close>

locale invariant_system =
  fixes step :: "'s \<Rightarrow> 's \<Rightarrow> bool"
    and ok :: "'s \<Rightarrow> bool"
  assumes step_ok: "step s t \<Longrightarrow> ok s \<Longrightarrow> ok t"
begin

lemma steps_ok: "step\<^sup>*\<^sup>* s t \<Longrightarrow> ok s \<Longrightarrow> ok t"
  by (induction rule: rtranclp_induct) (auto intro: step_ok)

lemma steps_ok_iff_start: "step\<^sup>*\<^sup>* s t \<Longrightarrow> \<not> ok t \<Longrightarrow> \<not> ok s"
  using steps_ok by blast

end

end
