(* ===== verification/Thread_Safe.thy ===== *)
theory Thread_Safe
  imports Prelude
begin

text \<open>
  \<open>src/thread_safe.h\<close>: the blocking event, the bounded queue and the alarm, each a
  record of the fields the class keeps, one definition per method as it runs while it
  holds the object's mutex. A method that would sleep on the condition variable answers
  \<open>None\<close>; the condition variable itself is the monitor of the last section, whose steps
  are the atomic sections of any number of threads.
\<close>

section \<open>event_t\<close>

text \<open>
  The status is an \<open>optional_t\<close>: for \<open>bool\<close> the code stores the value itself and
  \<open>false\<close> is the empty status, for any other type it stores an optional.
\<close>

record 'a event_t =
  ev_continue :: bool
  ev_status :: "'a option"

definition status_of_bool :: "bool \<Rightarrow> bool option" where
  "status_of_bool v = (if v then Some v else None)"

definition event_new :: "'a event_t" where
  "event_new = \<lparr>ev_continue = True, ev_status = None\<rparr>"

definition event_raise_status :: "'a option \<Rightarrow> 'a event_t \<Rightarrow> 'a event_t" where
  "event_raise_status v e = (if \<not> ev_continue e then e else e\<lparr>ev_status := v\<rparr>)"

definition event_raise :: "'a \<Rightarrow> 'a event_t \<Rightarrow> 'a event_t" where
  "event_raise v = event_raise_status (Some v)"

definition event_raise_bool :: "bool \<Rightarrow> bool event_t \<Rightarrow> bool event_t" where
  "event_raise_bool v = event_raise_status (status_of_bool v)"

definition event_try_pop :: "'a event_t \<Rightarrow> 'a option \<times> 'a event_t" where
  "event_try_pop e =
     (case ev_status e of
        None \<Rightarrow> (None, e)
      | Some v \<Rightarrow> (Some v, e\<lparr>ev_status := None\<rparr>))"

text \<open>
  \<open>pop\<close> and \<open>view\<close> run the same test on entry and after every wake-up: stopped first,
  then the status. \<open>None\<close> is a thread that (again) waits.
\<close>

definition event_pop :: "'a event_t \<Rightarrow> ('a option \<times> 'a event_t) option" where
  "event_pop e =
     (if \<not> ev_continue e then Some (None, e)
      else case ev_status e of
        None \<Rightarrow> None
      | Some v \<Rightarrow> Some (Some v, e\<lparr>ev_status := None\<rparr>))"

definition event_view :: "'a event_t \<Rightarrow> ('a option \<times> 'a event_t) option" where
  "event_view e =
     (if \<not> ev_continue e then Some (None, e)
      else case ev_status e of
        None \<Rightarrow> None
      | Some v \<Rightarrow> Some (Some v, e))"

text \<open>
  \<open>pop(delay)\<close>: \<open>wait_for\<close> evaluates its predicate at every wake-up and once more when
  the time is up (\<open>timed_out\<close>).
\<close>

definition event_pop_for :: "bool \<Rightarrow> 'a event_t \<Rightarrow> ('a option \<times> 'a event_t) option" where
  "event_pop_for timed_out e =
     (let success = (ev_status e \<noteq> None \<or> \<not> ev_continue e) in
      if \<not> success \<and> \<not> timed_out then None
      else if \<not> success \<or> \<not> ev_continue e then Some (None, e)
      else Some (ev_status e, e\<lparr>ev_status := None\<rparr>))"

text \<open>
  \<open>view(delay)\<close> tests the stop flag on entry, then loops: the status is tested first, and
  only an empty status makes it look at the flag or wait. \<open>timed_out\<close> is the answer of
  the \<open>wait_for\<close> that just returned.
\<close>

definition event_view_loop :: "'a event_t \<Rightarrow> ('a option \<times> 'a event_t) option" where
  "event_view_loop e =
     (case ev_status e of
        None \<Rightarrow> if \<not> ev_continue e then Some (None, e) else None
      | Some v \<Rightarrow> Some (Some v, e))"

definition event_view_for_entry :: "'a event_t \<Rightarrow> ('a option \<times> 'a event_t) option" where
  "event_view_for_entry e =
     (if \<not> ev_continue e then Some (None, e) else event_view_loop e)"

definition event_view_for_wake :: "bool \<Rightarrow> 'a event_t \<Rightarrow> ('a option \<times> 'a event_t) option" where
  "event_view_for_wake timed_out e =
     (if timed_out then Some (None, e) else event_view_loop e)"

definition event_peek :: "'a event_t \<Rightarrow> bool" where
  "event_peek e \<longleftrightarrow> ev_continue e \<and> ev_status e \<noteq> None"

definition event_stop :: "'a event_t \<Rightarrow> 'a event_t" where
  "event_stop e = e\<lparr>ev_continue := False\<rparr>"

definition event_reset :: "'a event_t \<Rightarrow> 'a event_t" where
  "event_reset e = e\<lparr>ev_continue := True, ev_status := None\<rparr>"

definition event_running :: "'a event_t \<Rightarrow> bool" where
  "event_running e \<longleftrightarrow> ev_continue e"

lemmas event_defs =
  event_new_def event_raise_def event_raise_status_def event_raise_bool_def status_of_bool_def
  event_try_pop_def event_pop_def event_view_def event_pop_for_def event_view_loop_def
  event_view_for_entry_def event_view_for_wake_def event_peek_def event_stop_def
  event_reset_def event_running_def

section \<open>queue_t\<close>

record 'a queue_t =
  q_continue :: bool
  q_max :: nat
  q_items :: "'a list"

definition queue_new :: "nat \<Rightarrow> 'a queue_t" where
  "queue_new max_elements = \<lparr>q_continue = True, q_max = max_elements, q_items = []\<rparr>"

definition queue_default :: "'a queue_t" where
  "queue_default = queue_new 32"

text \<open>A full queue is emptied before the new item is appended.\<close>

definition queue_raise :: "'a \<Rightarrow> 'a queue_t \<Rightarrow> 'a queue_t" where
  "queue_raise x q =
     (if \<not> q_continue q then q
      else
        let items = (if length (q_items q) = q_max q then [] else q_items q)
        in q\<lparr>q_items := items @ [x]\<rparr>)"

definition queue_peek :: "'a queue_t \<Rightarrow> bool" where
  "queue_peek q \<longleftrightarrow> q_continue q \<and> q_items q \<noteq> []"

definition queue_take_front :: "'a queue_t \<Rightarrow> 'a option \<times> 'a queue_t" where
  "queue_take_front q =
     (case q_items q of
        [] \<Rightarrow> (None, q)
      | x # xs \<Rightarrow> (Some x, q\<lparr>q_items := xs\<rparr>))"

definition queue_pop :: "'a queue_t \<Rightarrow> ('a option \<times> 'a queue_t) option" where
  "queue_pop q =
     (if \<not> q_continue q then Some (None, q)
      else if q_items q = [] then None
      else Some (queue_take_front q))"

definition queue_pop_loop :: "'a queue_t \<Rightarrow> ('a option \<times> 'a queue_t) option" where
  "queue_pop_loop q =
     (if q_items q = [] then (if \<not> q_continue q then Some (None, q) else None)
      else Some (queue_take_front q))"

definition queue_pop_for_entry :: "'a queue_t \<Rightarrow> ('a option \<times> 'a queue_t) option" where
  "queue_pop_for_entry q =
     (if \<not> q_continue q then Some (None, q) else queue_pop_loop q)"

definition queue_pop_for_wake :: "bool \<Rightarrow> 'a queue_t \<Rightarrow> ('a option \<times> 'a queue_t) option" where
  "queue_pop_for_wake timed_out q =
     (if timed_out then Some (None, q) else queue_pop_loop q)"

definition queue_unsafe :: "'a queue_t \<Rightarrow> 'a list" where
  "queue_unsafe q = q_items q"

definition queue_stop :: "'a queue_t \<Rightarrow> 'a queue_t" where
  "queue_stop q = q\<lparr>q_continue := False\<rparr>"

definition queue_running :: "'a queue_t \<Rightarrow> bool" where
  "queue_running q \<longleftrightarrow> q_continue q"

lemmas queue_defs =
  queue_new_def queue_default_def queue_raise_def queue_peek_def queue_take_front_def
  queue_pop_def queue_pop_loop_def queue_pop_for_entry_def queue_pop_for_wake_def
  queue_unsafe_def queue_stop_def queue_running_def

definition queue_wf :: "'a queue_t \<Rightarrow> bool" where
  "queue_wf q \<longleftrightarrow> 0 < q_max q \<and> length (q_items q) \<le> q_max q"

lemma queue_new_wf [inv_intros]: "0 < n \<Longrightarrow> queue_wf (queue_new n)"
  by (simp add: queue_wf_def queue_new_def)

lemma queue_raise_wf [inv_intros]: "queue_wf q \<Longrightarrow> queue_wf (queue_raise x q)"
  by (auto simp: queue_wf_def queue_raise_def Let_def)

lemma queue_pop_wf [inv_intros]:
  "queue_wf q \<Longrightarrow> queue_pop q = Some (r, q') \<Longrightarrow> queue_wf q'"
  by (auto simp: queue_wf_def queue_pop_def queue_take_front_def split: if_splits list.splits)

lemma queue_stop_wf [inv_intros]: "queue_wf q \<Longrightarrow> queue_wf (queue_stop q)"
  by (simp add: queue_wf_def queue_stop_def)

section \<open>Threads on a condition variable\<close>

text \<open>
  Any number of threads share one object. \<open>mo_ready\<close> are the threads inside a take that
  hold or compete for the mutex, \<open>mo_asleep\<close> those sleeping on the condition variable,
  \<open>mo_returned\<close> what finished takes answered. A put on a running object and a stop end in
  \<open>notify_all\<close>; a put on a stopped object returns before it. The operations of \<open>quiet\<close>
  change the object under the mutex and notify nobody.
\<close>

record ('c, 'r) monitor =
  mo_obj :: 'c
  mo_asleep :: "nat set"
  mo_ready :: "nat set"
  mo_returned :: "(nat \<times> 'r) list"

definition monitor_init :: "'c \<Rightarrow> ('c, 'r) monitor" where
  "monitor_init c = \<lparr>mo_obj = c, mo_asleep = {}, mo_ready = {}, mo_returned = []\<rparr>"

definition monitor_notify_all :: "('c, 'r) monitor \<Rightarrow> ('c, 'r) monitor" where
  "monitor_notify_all m = m\<lparr>mo_ready := mo_ready m \<union> mo_asleep m, mo_asleep := {}\<rparr>"

inductive mon_step ::
  "('a \<Rightarrow> 'c \<Rightarrow> 'c) \<Rightarrow> ('c \<Rightarrow> ('r \<times> 'c) option) \<Rightarrow> ('c \<Rightarrow> 'c) \<Rightarrow> ('c \<Rightarrow> bool) \<Rightarrow> ('c \<Rightarrow> 'c) set \<Rightarrow>
   ('c, 'r) monitor \<Rightarrow> ('c, 'r) monitor \<Rightarrow> bool"
  for put take stop running quiet where
  call: "t \<notin> mo_asleep m \<Longrightarrow> t \<notin> mo_ready m \<Longrightarrow>
     mon_step put take stop running quiet m (m\<lparr>mo_ready := insert t (mo_ready m)\<rparr>)"
| wait: "t \<in> mo_ready m \<Longrightarrow> take (mo_obj m) = None \<Longrightarrow>
     mon_step put take stop running quiet m
       (m\<lparr>mo_ready := mo_ready m - {t}, mo_asleep := insert t (mo_asleep m)\<rparr>)"
| return: "t \<in> mo_ready m \<Longrightarrow> take (mo_obj m) = Some (r, c') \<Longrightarrow>
     mon_step put take stop running quiet m
       (m\<lparr>mo_obj := c', mo_ready := mo_ready m - {t}, mo_returned := mo_returned m @ [(t, r)]\<rparr>)"
| put_notify: "running (mo_obj m) \<Longrightarrow>
     mon_step put take stop running quiet m
       (monitor_notify_all (m\<lparr>mo_obj := put x (mo_obj m)\<rparr>))"
| put_ignored: "\<not> running (mo_obj m) \<Longrightarrow>
     mon_step put take stop running quiet m (m\<lparr>mo_obj := put x (mo_obj m)\<rparr>)"
| stop: "mon_step put take stop running quiet m
       (monitor_notify_all (m\<lparr>mo_obj := stop (mo_obj m)\<rparr>))"
| quiet: "f \<in> quiet \<Longrightarrow>
     mon_step put take stop running quiet m (m\<lparr>mo_obj := f (mo_obj m)\<rparr>)"
| spurious: "t \<in> mo_asleep m \<Longrightarrow>
     mon_step put take stop running quiet m
       (m\<lparr>mo_asleep := mo_asleep m - {t}, mo_ready := insert t (mo_ready m)\<rparr>)"

inductive mon_reach ::
  "('a \<Rightarrow> 'c \<Rightarrow> 'c) \<Rightarrow> ('c \<Rightarrow> ('r \<times> 'c) option) \<Rightarrow> ('c \<Rightarrow> 'c) \<Rightarrow> ('c \<Rightarrow> bool) \<Rightarrow> ('c \<Rightarrow> 'c) set \<Rightarrow>
   'c \<Rightarrow> ('c, 'r) monitor \<Rightarrow> bool"
  for put take stop running quiet c0 where
  start: "mon_reach put take stop running quiet c0 (monitor_init c0)"
| step: "mon_reach put take stop running quiet c0 m \<Longrightarrow>
     mon_step put take stop running quiet m m' \<Longrightarrow>
     mon_reach put take stop running quiet c0 m'"

section \<open>A contract for blocking channels\<close>

text \<open>
  What the code that shares an event or a queue between threads relies on: when a take
  waits, what a put does to a running and to a stopped channel, and that a stop is seen by
  every pending and later take.
\<close>

locale channel =
  fixes put :: "'a \<Rightarrow> 'c \<Rightarrow> 'c"
    and take :: "'c \<Rightarrow> ('b option \<times> 'c) option"
    and stop :: "'c \<Rightarrow> 'c"
    and running :: "'c \<Rightarrow> bool"
    and peek :: "'c \<Rightarrow> bool"
    and quiet :: "('c \<Rightarrow> 'c) set"
  assumes take_waits: "take c = None \<longleftrightarrow> running c \<and> \<not> peek c"
    and take_stopped: "\<not> running c \<Longrightarrow> take c = Some (None, c)"
    and take_some: "running c \<Longrightarrow> take c = Some (r, c') \<Longrightarrow> r \<noteq> None \<and> running c'"
    and put_running: "running c \<Longrightarrow> running (put x c) \<and> peek (put x c)"
    and put_stopped: "\<not> running c \<Longrightarrow> put x c = c"
    and stop_running: "\<not> running (stop c)"
    and quiet_waits: "f \<in> quiet \<Longrightarrow> take c = None \<Longrightarrow> take (f c) = None"
begin

lemma take_after_put:
  assumes "running c"
  shows "\<exists>v c'. take (put x c) = Some (Some v, c')"
proof -
  from assms have r: "running (put x c)" "peek (put x c)" using put_running by blast+
  then obtain v c' where t: "take (put x c) = Some (v, c')"
    using take_waits [of "put x c"] by (cases "take (put x c)") auto
  from take_some [OF r(1) t] obtain w where "v = Some w" by blast
  with t show ?thesis by blast
qed

lemma take_after_stop: "take (stop c) = Some (None, stop c)"
  by (rule take_stopped) (rule stop_running)

lemma put_after_stop: "put x (stop c) = stop c"
  by (rule put_stopped) (rule stop_running)

text \<open>A thread sleeps only while a take would wait: no wake-up is lost.\<close>

lemma step_keeps_sleepers:
  assumes "mon_step put take stop running quiet m m'"
    and "mo_asleep m \<noteq> {} \<Longrightarrow> take (mo_obj m) = None"
    and "mo_asleep m' \<noteq> {}"
  shows "take (mo_obj m') = None"
  using assms
proof (induction rule: mon_step.induct)
  case (put_ignored m x)
  then show ?case using take_waits by auto
next
  case (quiet f m)
  then show ?case using quiet_waits [of f "mo_obj m"] by simp
next
  case (spurious t m)
  from spurious.hyps have "mo_asleep m \<noteq> {}" by auto
  then show ?case using spurious.prems(1) by simp
qed (auto simp: monitor_notify_all_def)

lemma sleepers_wait:
  assumes "mon_reach put take stop running quiet c0 m"
  shows "mo_asleep m \<noteq> {} \<Longrightarrow> take (mo_obj m) = None"
  using assms
proof (induction rule: mon_reach.induct)
  case start
  then show ?case by (simp add: monitor_init_def)
next
  case (step m m')
  then show ?case using step_keeps_sleepers [of m m'] by blast
qed

lemma no_lost_wakeup:
  assumes "mon_reach put take stop running quiet c0 m" and "t \<in> mo_asleep m"
  shows "running (mo_obj m) \<and> \<not> peek (mo_obj m)"
  using sleepers_wait [OF assms(1)] assms(2) take_waits by blast

text \<open>Once the channel is stopped, a thread inside a take can return, and returns empty.\<close>

lemma stopped_returns:
  assumes "mon_reach put take stop running quiet c0 m" and "\<not> running (mo_obj m)"
  shows "mo_asleep m = {} \<and>
    (\<forall>t \<in> mo_ready m. mon_step put take stop running quiet m
       (m\<lparr>mo_ready := mo_ready m - {t}, mo_returned := mo_returned m @ [(t, None)]\<rparr>))"
proof
  show "mo_asleep m = {}" using no_lost_wakeup [OF assms(1)] assms(2) by blast
next
  show "\<forall>t \<in> mo_ready m. mon_step put take stop running quiet m
       (m\<lparr>mo_ready := mo_ready m - {t}, mo_returned := mo_returned m @ [(t, None)]\<rparr>)"
  proof
    fix t
    assume t: "t \<in> mo_ready m"
    from mon_step.return [where t = t and m = m and c' = "mo_obj m" and take = take
        and r = None and put = put and stop = stop and running = running and quiet = quiet,
        OF t take_stopped [OF assms(2)]]
    show "mon_step put take stop running quiet m
       (m\<lparr>mo_ready := mo_ready m - {t}, mo_returned := mo_returned m @ [(t, None)]\<rparr>)"
      by simp
  qed
qed

end

definition event_quiet :: "('a event_t \<Rightarrow> 'a event_t) set" where
  "event_quiet = {event_reset, snd \<circ> event_try_pop}"

interpretation ev: channel event_raise event_pop event_stop event_running event_peek event_quiet
  by unfold_locales
    (auto simp: event_defs event_quiet_def split: if_splits option.splits dest: sym)

interpretation evs: channel event_raise event_view event_stop event_running event_peek event_quiet
  by unfold_locales
    (auto simp: event_defs event_quiet_def split: if_splits option.splits dest: sym)

interpretation qu: channel queue_raise queue_pop queue_stop queue_running queue_peek "{}"
  by unfold_locales (auto simp: queue_defs Let_def split: if_splits list.splits)

section \<open>What a flooded queue keeps\<close>

text \<open>
  Items raised while nobody pops: whole batches of \<open>q_max\<close> items are discarded, each when
  the first item of the next batch arrives.
\<close>

lemma queue_raise_snoc:
  assumes "0 < n"
  shows "fold queue_raise xs (queue_new n) =
    \<lparr>q_continue = True, q_max = n, q_items = drop ((length xs - 1) div n * n) xs\<rparr>"
proof (induction xs rule: rev_induct)
  case Nil
  show ?case by (simp add: queue_new_def)
next
  case (snoc x xs)
  let ?k = "(length xs - 1) div n * n"
  show ?case
  proof (cases "length (drop ?k xs) = n")
    case True
    then have l: "length xs = ?k + n" using assms by simp
    then have "length xs = ((length xs - 1) div n + 1) * n" by simp
    then have "length xs div n * n = length xs" using assms by (metis nonzero_mult_div_cancel_right less_not_refl2)
    with True snoc show ?thesis by (simp add: queue_raise_def)
  next
    case False
    have "?k \<le> length xs" using div_times_less_eq_dividend [of "length xs - 1" n] by linarith
    have "length xs div n = (length xs - 1) div n"
    proof (cases "xs = []")
      case False
      then obtain m where m: "length xs = Suc m" by (cases xs) auto
      have "\<not> n dvd Suc m"
      proof
        assume "n dvd Suc m"
        then obtain j where j: "Suc m = n * j" by blast
        then have "0 < j" by (cases j) auto
        then have "m = n * (j - 1) + (n - 1)" using j assms
          by (cases j) (auto simp: algebra_simps)
        moreover have "(n * (j - 1) + (n - 1)) div n = j - 1"
          using assms by (subst div_mult_self4) auto
        ultimately have "m div n = j - 1" by simp
        moreover have "length xs - 1 = m" using m by simp
        ultimately have "?k = (j - 1) * n" by (simp only:)
        moreover have "(j - 1) * n + n = length xs"
          using m j \<open>0 < j\<close> by (cases j) (simp_all add: algebra_simps)
        ultimately have "?k + n = length xs" by (simp only:)
        then have "length (drop ?k xs) = n" by (simp only: length_drop)
        with \<open>length (drop ?k xs) \<noteq> n\<close> show False by simp
      qed
      with m show ?thesis by (simp add: div_Suc dvd_eq_mod_eq_0)
    qed simp
    with False snoc \<open>?k \<le> length xs\<close> show ?thesis by (simp add: queue_raise_def)
  qed
qed

section \<open>Properties\<close>

text \<open>
  (C8) No wake-up of a queue is lost: in any interleaving of pops, raises, stops and spurious
  wake-ups, a thread asleep in \<open>pop\<close> means the queue still runs and is empty.
\<close>
theorem queue_no_lost_wakeup:
  assumes "mon_reach queue_raise queue_pop queue_stop queue_running {} (queue_new n) m"
    and "t \<in> mo_asleep m"
  shows "q_continue (mo_obj m) \<and> q_items (mo_obj m) = []"
  using qu.no_lost_wakeup [OF assms] by (auto simp: queue_defs)

theorem queue_no_lost_wakeup_witness:
  "mon_reach queue_raise queue_pop queue_stop queue_running {} (queue_new 32 :: nat queue_t)
     \<lparr>mo_obj = queue_new 32, mo_asleep = {5}, mo_ready = {}, mo_returned = []\<rparr> \<and>
   q_items (queue_new 32 :: nat queue_t) = []"
proof -
  let ?R = "mon_reach queue_raise queue_pop queue_stop queue_running {} (queue_new 32 :: nat queue_t)"
  have "?R \<lparr>mo_obj = queue_new 32, mo_asleep = {}, mo_ready = {5}, mo_returned = []\<rparr>"
    using mon_reach.step [OF mon_reach.start mon_step.call, of 5 "queue_new 32"]
    by (simp add: monitor_init_def)
  from mon_reach.step [OF this mon_step.wait, of 5]
  have r: "?R \<lparr>mo_obj = queue_new 32, mo_asleep = {5}, mo_ready = {}, mo_returned = []\<rparr>"
    by (simp add: queue_defs)
  from queue_no_lost_wakeup [OF r, of 5] r show ?thesis by simp
qed

text \<open>
  No wake-up of an event is lost either, with \<open>try_pop\<close> and \<open>reset\<close> running between the
  waits; and once the event is stopped nobody sleeps and every thread inside \<open>pop\<close> can
  return with an empty status.
\<close>
theorem event_no_lost_wakeup:
  assumes "mon_reach event_raise event_pop event_stop event_running event_quiet event_new m"
  shows "(\<forall>t \<in> mo_asleep m. ev_continue (mo_obj m) \<and> ev_status (mo_obj m) = None) \<and>
    (\<not> ev_continue (mo_obj m) \<longrightarrow> mo_asleep m = {} \<and>
      (\<forall>t \<in> mo_ready m. mon_step event_raise event_pop event_stop event_running event_quiet m
        (m\<lparr>mo_ready := mo_ready m - {t}, mo_returned := mo_returned m @ [(t, None)]\<rparr>)))"
  using ev.no_lost_wakeup [OF assms] ev.stopped_returns [OF assms]
  by (auto simp: event_running_def event_peek_def)

theorem event_no_lost_wakeup_witness:
  "mon_reach event_raise event_pop event_stop event_running event_quiet
     (event_new :: nat event_t) (monitor_init event_new) \<and>
   mo_asleep (monitor_init (event_new :: nat event_t) :: (nat event_t, nat option) monitor) = {}"
  using event_no_lost_wakeup [OF mon_reach.start] mon_reach.start
  by (simp add: monitor_init_def event_new_def)

text \<open>
  Raising \<open>xs\<close> into an unread queue of capacity \<open>n\<close> leaves a non-empty suffix of \<open>xs\<close> of
  at most \<open>n\<close> items, namely \<open>xs\<close> without its complete earlier batches, and popping then
  returns the oldest kept item first.
\<close>
theorem queue_flood:
  assumes "0 < n" and "xs \<noteq> []"
  shows "q_items (fold queue_raise xs (queue_new n)) = drop ((length xs - 1) div n * n) xs \<and>
    length (q_items (fold queue_raise xs (queue_new n))) \<in> {1..n} \<and>
    map_option fst (queue_pop (fold queue_raise xs (queue_new n))) =
      Some (Some (xs ! ((length xs - 1) div n * n)))"
proof -
  let ?k = "(length xs - 1) div n * n"
  have k: "?k < length xs" using assms(2) div_times_less_eq_dividend [of "length xs - 1" n]
    by (cases xs) (simp, simp add: less_Suc_eq_le)
  have "length xs - 1 < ?k + n" using dividend_less_div_times [OF assms(1), of "length xs - 1"] by simp
  then have "length xs - ?k \<le> n" by linarith
  moreover have "drop ?k xs = xs ! ?k # drop (Suc ?k) xs" using k by (rule Cons_nth_drop_Suc [symmetric])
  ultimately show ?thesis using k assms(1)
    by (simp add: queue_raise_snoc queue_pop_def queue_take_front_def)
qed

theorem queue_flood_witness:
  "q_items (fold queue_raise [1, 2, 3, 4, 5 :: nat] (queue_new 2)) = [5]"
  using queue_flood [of 2 "[1, 2, 3, 4, 5 :: nat]"] by simp

end
