(* ===== verification/Alarm.thy ===== *)
theory Alarm
  imports Thread_Safe
begin

text \<open>
  \<open>alarm_raw_t\<close> of \<open>src/thread_safe.h\<close>: a status that is rung once and read by a waiting
  thread. Unlike the event and the queue it wakes one sleeper per ring, so its monitor has
  steps of its own.
\<close>

record 'a alarm_t =
  al_status :: "'a option"
  al_rang :: bool

definition alarm_new :: "'a alarm_t" where
  "alarm_new = \<lparr>al_status = None, al_rang = False\<rparr>"

definition alarm_ring :: "'a option \<Rightarrow> 'a alarm_t \<Rightarrow> 'a alarm_t" where
  "alarm_ring st a = a\<lparr>al_status := st, al_rang := True\<rparr>"

definition alarm_reset :: "'a alarm_t \<Rightarrow> 'a alarm_t" where
  "alarm_reset a = a\<lparr>al_status := None, al_rang := False\<rparr>"

text \<open>The four waits: with or without a deadline, with or without a caller's predicate.\<close>

definition alarm_wait_pred :: "bool \<Rightarrow> 'a alarm_t \<Rightarrow> (unit \<times> 'a alarm_t) option" where
  "alarm_wait_pred p a = (if al_rang a \<or> p then Some ((), a) else None)"

definition alarm_wait :: "'a alarm_t \<Rightarrow> (unit \<times> 'a alarm_t) option" where
  "alarm_wait a = (if al_rang a then Some ((), a) else None)"

definition alarm_wait_for_pred :: "bool \<Rightarrow> bool \<Rightarrow> 'a alarm_t \<Rightarrow> bool option" where
  "alarm_wait_for_pred timed_out p a =
     (if al_rang a \<or> p then Some True else if timed_out then Some False else None)"

definition alarm_wait_for :: "bool \<Rightarrow> 'a alarm_t \<Rightarrow> bool option" where
  "alarm_wait_for timed_out a =
     (if al_rang a then Some True else if timed_out then Some False else None)"

lemmas alarm_defs = alarm_new_def alarm_ring_def alarm_reset_def alarm_wait_pred_def
  alarm_wait_def alarm_wait_for_pred_def alarm_wait_for_def

text \<open>
  Threads calling \<open>wait()\<close>. \<open>notify_one\<close> moves one sleeper, if there is one.
\<close>

inductive alarm_step ::
  "('a alarm_t, unit) monitor \<Rightarrow> ('a alarm_t, unit) monitor \<Rightarrow> bool" where
  call: "t \<notin> mo_asleep m \<Longrightarrow> t \<notin> mo_ready m \<Longrightarrow>
     alarm_step m (m\<lparr>mo_ready := insert t (mo_ready m)\<rparr>)"
| wait: "t \<in> mo_ready m \<Longrightarrow> alarm_wait (mo_obj m) = None \<Longrightarrow>
     alarm_step m (m\<lparr>mo_ready := mo_ready m - {t}, mo_asleep := insert t (mo_asleep m)\<rparr>)"
| return: "t \<in> mo_ready m \<Longrightarrow> alarm_wait (mo_obj m) = Some (r, a') \<Longrightarrow>
     alarm_step m (m\<lparr>mo_obj := a', mo_ready := mo_ready m - {t},
       mo_returned := mo_returned m @ [(t, r)]\<rparr>)"
| ring_one: "t \<in> mo_asleep m \<Longrightarrow>
     alarm_step m (m\<lparr>mo_obj := alarm_ring st (mo_obj m), mo_asleep := mo_asleep m - {t},
       mo_ready := insert t (mo_ready m)\<rparr>)"
| ring_nobody: "mo_asleep m = {} \<Longrightarrow>
     alarm_step m (m\<lparr>mo_obj := alarm_ring st (mo_obj m)\<rparr>)"
| reset: "alarm_step m (m\<lparr>mo_obj := alarm_reset (mo_obj m)\<rparr>)"
| spurious: "t \<in> mo_asleep m \<Longrightarrow>
     alarm_step m (m\<lparr>mo_asleep := mo_asleep m - {t}, mo_ready := insert t (mo_ready m)\<rparr>)"

inductive alarm_reach :: "('a alarm_t, unit) monitor \<Rightarrow> bool" where
  start: "alarm_reach (monitor_init alarm_new)"
| step: "alarm_reach m \<Longrightarrow> alarm_step m m' \<Longrightarrow> alarm_reach m'"

text \<open>With one waiting thread, as every caller in the repository has it, no ring is lost.\<close>

lemma alarm_step_single:
  assumes "alarm_step m m'" and "mo_asleep m \<union> mo_ready m \<subseteq> {t}"
    and "mo_asleep m' \<union> mo_ready m' \<subseteq> {t}"
    and "mo_asleep m \<noteq> {} \<Longrightarrow> \<not> al_rang (mo_obj m)" and "mo_asleep m' \<noteq> {}"
  shows "\<not> al_rang (mo_obj m')"
  using assms by (induction rule: alarm_step.induct) (auto simp: alarm_defs split: if_splits)

text \<open>Runs in which only thread \<open>t\<close> ever calls \<open>wait\<close>.\<close>

inductive alarm_run_of :: "nat \<Rightarrow> ('a alarm_t, unit) monitor \<Rightarrow> bool" for t where
  start: "alarm_run_of t (monitor_init alarm_new)"
| step: "alarm_run_of t m \<Longrightarrow> alarm_step m m' \<Longrightarrow>
     mo_asleep m' \<union> mo_ready m' \<subseteq> {t} \<Longrightarrow> alarm_run_of t m'"

lemma alarm_run_of_threads: "alarm_run_of t m \<Longrightarrow> mo_asleep m \<union> mo_ready m \<subseteq> {t}"
  by (induction rule: alarm_run_of.induct) (auto simp: monitor_init_def)

lemma alarm_single_waiter:
  assumes "alarm_run_of t m" and "mo_asleep m \<noteq> {}"
  shows "\<not> al_rang (mo_obj m)"
  using assms
proof (induction rule: alarm_run_of.induct)
  case start
  then show ?case by (simp add: monitor_init_def)
next
  case (step m m')
  show ?case
    by (rule alarm_step_single [OF step.hyps(2) alarm_run_of_threads [OF step.hyps(1)]
          step.hyps(3) step.IH step.prems])
qed

text \<open>Two waiting threads: after one ring and the return of the woken thread, the other
  still sleeps although the alarm rang.\<close>

lemma alarm_two_sleepers:
  "\<exists>m :: (nat alarm_t, unit) monitor.
     alarm_reach m \<and> al_rang (mo_obj m) \<and> mo_asleep m \<noteq> {} \<and> mo_ready m = {}"
proof -
  let ?m0 = "monitor_init alarm_new :: (nat alarm_t, unit) monitor"
  have "alarm_reach ?m0" by (rule alarm_reach.start)
  from alarm_reach.step [OF this alarm_step.call [of 1]]
  have r1: "alarm_reach \<lparr>mo_obj = alarm_new :: nat alarm_t, mo_asleep = {}, mo_ready = {1},
      mo_returned = []\<rparr>" (is "alarm_reach ?m1") by (simp add: monitor_init_def)
  from alarm_reach.step [OF r1 alarm_step.wait [of 1]]
  have r2: "alarm_reach \<lparr>mo_obj = alarm_new :: nat alarm_t, mo_asleep = {1}, mo_ready = {},
      mo_returned = []\<rparr>" (is "alarm_reach ?m2") by (simp add: alarm_defs)
  from alarm_reach.step [OF r2 alarm_step.call [of 2]]
  have r3: "alarm_reach \<lparr>mo_obj = alarm_new :: nat alarm_t, mo_asleep = {1}, mo_ready = {2},
      mo_returned = []\<rparr>" (is "alarm_reach ?m3") by simp
  from alarm_reach.step [OF r3 alarm_step.wait [of 2]]
  have r4: "alarm_reach \<lparr>mo_obj = alarm_new :: nat alarm_t, mo_asleep = {2, 1}, mo_ready = {},
      mo_returned = []\<rparr>" (is "alarm_reach ?m4") by (simp add: alarm_defs)
  from alarm_reach.step [OF r4 alarm_step.ring_one [of 2 _ "Some 7"]]
  have r5: "alarm_reach \<lparr>mo_obj = alarm_ring (Some (7::nat)) alarm_new, mo_asleep = {1},
      mo_ready = {2}, mo_returned = []\<rparr>" (is "alarm_reach ?m5") by simp
  from alarm_reach.step [OF r5 alarm_step.return [of 2 _ "()" "alarm_ring (Some 7) alarm_new"]]
  have "alarm_reach \<lparr>mo_obj = alarm_ring (Some (7::nat)) alarm_new, mo_asleep = {1}, mo_ready = {},
      mo_returned = [(2, ())]\<rparr>" by (simp add: alarm_defs)
  then show ?thesis by (intro exI conjI) (assumption, simp_all add: alarm_defs)
qed

end
