(* ===== verification/Mailbox.thy ===== *)
theory Mailbox
  imports Thread_Safe "HOL-Library.List_Lexorder" "HOL-Library.Char_ord"
begin

text \<open>
  The two shared-ownership classes of \<open>src/thread_safe.h\<close>: \<open>shared_t\<close> with its counted
  handles \<open>ptr_t\<close>, and \<open>mail_raw_t\<close>, the registry that hands the same event or queue to
  every caller that names it while at least one of them holds it.
\<close>

section \<open>shared_t and ptr_t\<close>

text \<open>
  The counted cell. \<open>sc_constructs\<close> and \<open>sc_destructs\<close> count the successful runs of the
  construction hook and the runs of the destruction hook, \<open>sc_failures\<close> the runs of the
  construction hook that answered nonzero. The count starts at zero: the class leaves it
  to the zero-initialisation of the static object it is used for.
\<close>

record shared_cell =
  sc_count :: u32
  sc_constructs :: nat
  sc_destructs :: nat
  sc_failures :: nat

definition shared_new :: shared_cell where
  "shared_new = \<lparr>sc_count = 0, sc_constructs = 0, sc_destructs = 0, sc_failures = 0\<rparr>"

text \<open>\<open>ref()\<close>: whether the handle is non-null, and the cell. \<open>rc\<close> is the hook's answer.\<close>

definition shared_ref :: "int \<Rightarrow> shared_cell \<Rightarrow> bool \<times> shared_cell" where
  "shared_ref rc c =
     (if sc_count c = 0 then
        (if rc \<noteq> 0 then (False, c\<lparr>sc_failures := sc_failures c + 1\<rparr>)
         else (True, c\<lparr>sc_constructs := sc_constructs c + 1, sc_count := sc_count c + 1\<rparr>))
      else (True, c\<lparr>sc_count := sc_count c + 1\<rparr>))"

definition shared_release :: "shared_cell \<Rightarrow> shared_cell" where
  "shared_release c =
     (let n = sc_count c - 1; c' = c\<lparr>sc_count := n\<rparr> in
      if n = 0 then c'\<lparr>sc_destructs := sc_destructs c' + 1\<rparr> else c')"

text \<open>The cell and the handles on it; a handle is \<open>True\<close> while its owner is non-null.\<close>

record shared_state =
  ss_cell :: shared_cell
  ss_handles :: "bool list"

definition ptr_construct :: "int \<Rightarrow> shared_state \<Rightarrow> shared_state" where
  "ptr_construct rc s =
     (case shared_ref rc (ss_cell s) of
        (ok, c) \<Rightarrow> s\<lparr>ss_cell := c, ss_handles := ss_handles s @ [ok]\<rparr>)"

definition ptr_copy :: "int \<Rightarrow> nat \<Rightarrow> shared_state \<Rightarrow> shared_state" where
  "ptr_copy rc i s =
     (if \<not> ss_handles s ! i then s\<lparr>ss_handles := ss_handles s @ [False]\<rparr>
      else s\<lparr>ss_cell := snd (shared_ref rc (ss_cell s)), ss_handles := ss_handles s @ [True]\<rparr>)"

definition ptr_move :: "nat \<Rightarrow> shared_state \<Rightarrow> shared_state" where
  "ptr_move i s = s\<lparr>ss_handles := (ss_handles s)[i := False] @ [ss_handles s ! i]\<rparr>"

definition ptr_release :: "nat \<Rightarrow> shared_state \<Rightarrow> shared_state" where
  "ptr_release i s =
     s\<lparr>ss_cell := shared_release (ss_cell s), ss_handles := (ss_handles s)[i := False]\<rparr>"

definition ptr_assign_move :: "nat \<Rightarrow> nat \<Rightarrow> shared_state \<Rightarrow> shared_state" where
  "ptr_assign_move i j s =
     (let s1 = (if ss_handles s ! i then ptr_release i s else s); h = ss_handles s1
      in s1\<lparr>ss_handles := h[i := h ! j, j := h ! i]\<rparr>)"

definition ptr_destroy :: "nat \<Rightarrow> shared_state \<Rightarrow> shared_state" where
  "ptr_destroy i s =
     (let s1 = (if ss_handles s ! i then ptr_release i s else s)
      in s1\<lparr>ss_handles := take i (ss_handles s1) @ drop (Suc i) (ss_handles s1)\<rparr>)"

text \<open>
  \<open>release()\<close> dereferences the owner, so its callers hold a live handle. Fewer than
  \<open>2^32\<close> handles exist at any time.
\<close>

inductive shared_step :: "shared_state \<Rightarrow> shared_state \<Rightarrow> bool" where
  construct: "length (ss_handles s) < 2 ^ 32 - 1 \<Longrightarrow> shared_step s (ptr_construct rc s)"
| copy: "i < length (ss_handles s) \<Longrightarrow> length (ss_handles s) < 2 ^ 32 - 1 \<Longrightarrow>
     shared_step s (ptr_copy rc i s)"
| move: "i < length (ss_handles s) \<Longrightarrow> length (ss_handles s) < 2 ^ 32 - 1 \<Longrightarrow>
     shared_step s (ptr_move i s)"
| release: "i < length (ss_handles s) \<Longrightarrow> ss_handles s ! i \<Longrightarrow> shared_step s (ptr_release i s)"
| assign: "i < length (ss_handles s) \<Longrightarrow> j < length (ss_handles s) \<Longrightarrow>
     shared_step s (ptr_assign_move i j s)"
| destroy: "i < length (ss_handles s) \<Longrightarrow> shared_step s (ptr_destroy i s)"

inductive shared_reach :: "shared_state \<Rightarrow> bool" where
  start: "shared_reach \<lparr>ss_cell = shared_new, ss_handles = []\<rparr>"
| step: "shared_reach s \<Longrightarrow> shared_step s s' \<Longrightarrow> shared_reach s'"

text \<open>
  The count is the number of live handles, and the object is constructed exactly while
  there is one: constructions and destructions alternate.
\<close>

definition live_handles :: "bool list \<Rightarrow> nat" where
  "live_handles hs = length (filter id hs)"

definition shared_inv :: "shared_state \<Rightarrow> bool" where
  "shared_inv s \<longleftrightarrow>
     length (ss_handles s) < 2 ^ 32 \<and>
     unat (sc_count (ss_cell s)) = live_handles (ss_handles s) \<and>
     sc_constructs (ss_cell s) =
       sc_destructs (ss_cell s) + (if live_handles (ss_handles s) = 0 then 0 else 1)"

lemma live_handles_simps [simp]:
  "live_handles [] = 0"
  "live_handles (h # hs) = (if h then 1 else 0) + live_handles hs"
  "live_handles (hs @ hs') = live_handles hs + live_handles hs'"
  by (auto simp: live_handles_def)

lemma live_handles_le: "live_handles hs \<le> length hs"
  by (simp add: live_handles_def)

lemma live_handles_update:
  "i < length hs \<Longrightarrow>
   live_handles (hs[i := b]) + (if hs ! i then 1 else 0) = live_handles hs + (if b then 1 else 0)"
proof (induction hs arbitrary: i)
  case (Cons h hs)
  show ?case
  proof (cases i)
    case (Suc j)
    with Cons.prems Cons.IH [of j] show ?thesis by simp
  qed simp
qed simp

lemma live_handles_pos: "i < length hs \<Longrightarrow> hs ! i \<Longrightarrow> 0 < live_handles hs"
  by (auto simp: live_handles_def filter_empty_conv intro: nth_mem)

lemma live_handles_drop:
  "i < length hs \<Longrightarrow>
   live_handles (take i hs @ drop (Suc i) hs) + (if hs ! i then 1 else 0) = live_handles hs"
  using arg_cong [OF id_take_nth_drop, of i hs live_handles] by simp

lemma unat_suc_word: "unat w < 2 ^ 32 - 1 \<Longrightarrow> unat (w + 1 :: u32) = Suc (unat w)"
  by (subst unat_word_ariths) simp

lemma unat_pred_word: "0 < unat (w :: u32) \<Longrightarrow> unat (w - 1) = unat w - 1"
  by (metis unat_minus_one unat_eq_zero less_numeral_extra(3))

lemma shared_ref_count:
  assumes "unat (sc_count c) < 2 ^ 32 - 1" and "shared_ref rc c = (ok, c')"
  shows "unat (sc_count c') = unat (sc_count c) + (if ok then 1 else 0)"
    and "unat (sc_count c) \<noteq> 0 \<Longrightarrow> ok"
    and "sc_constructs c' = sc_constructs c + (if ok \<and> unat (sc_count c) = 0 then 1 else 0)"
    and "sc_destructs c' = sc_destructs c"
  using assms unat_suc_word [of "sc_count c"]
  by (auto simp: shared_ref_def unat_eq_zero split: if_splits)

lemma shared_release_count:
  assumes "0 < unat (sc_count c)"
  shows "unat (sc_count (shared_release c)) = unat (sc_count c) - 1"
    and "sc_constructs (shared_release c) = sc_constructs c"
    and "sc_destructs (shared_release c) = sc_destructs c + (if unat (sc_count c) = 1 then 1 else 0)"
  using assms unat_pred_word [of "sc_count c"]
  by (auto simp: shared_release_def Let_def unat_eq_zero [symmetric])

lemma ptr_release_inv [inv_intros]:
  assumes "shared_inv s" and "i < length (ss_handles s)" and "ss_handles s ! i"
  shows "shared_inv (ptr_release i s)"
  using assms live_handles_update [of i "ss_handles s" False] live_handles_pos [of i "ss_handles s"]
    shared_release_count [of "ss_cell s"]
  by (auto simp: shared_inv_def ptr_release_def)

lemma ptr_construct_inv [inv_intros]:
  assumes "shared_inv s" and "length (ss_handles s) < 2 ^ 32 - 1"
  shows "shared_inv (ptr_construct rc s)"
proof -
  obtain ok c where r: "shared_ref rc (ss_cell s) = (ok, c)" by fastforce
  from assms have "unat (sc_count (ss_cell s)) < 2 ^ 32 - 1"
    using live_handles_le [of "ss_handles s"] by (simp add: shared_inv_def)
  from shared_ref_count [OF this r] assms r show ?thesis
    by (auto simp: shared_inv_def ptr_construct_def)
qed

lemma ptr_copy_inv [inv_intros]:
  assumes "shared_inv s" and "i < length (ss_handles s)" and "length (ss_handles s) < 2 ^ 32 - 1"
  shows "shared_inv (ptr_copy rc i s)"
proof -
  obtain ok c where r: "shared_ref rc (ss_cell s) = (ok, c)" by fastforce
  from assms have "unat (sc_count (ss_cell s)) < 2 ^ 32 - 1"
    using live_handles_le [of "ss_handles s"] by (simp add: shared_inv_def)
  from shared_ref_count [OF this r] assms r live_handles_pos [of i "ss_handles s"] show ?thesis
    by (auto simp: shared_inv_def ptr_copy_def)
qed

lemma ptr_move_inv [inv_intros]:
  assumes "shared_inv s" and "i < length (ss_handles s)" and "length (ss_handles s) < 2 ^ 32 - 1"
  shows "shared_inv (ptr_move i s)"
  using assms live_handles_update [of i "ss_handles s" False]
  by (auto simp: shared_inv_def ptr_move_def split: if_splits)

lemma live_handles_swap:
  assumes "i < length hs" and "j < length hs"
  shows "live_handles (hs[i := hs ! j, j := hs ! i]) = live_handles hs"
  using assms live_handles_update [of i hs "hs ! j"] live_handles_update [of j "hs[i := hs ! j]" "hs ! i"]
  by (cases "i = j") (auto split: if_splits)

lemma ptr_assign_move_inv [inv_intros]:
  assumes "shared_inv s" and "i < length (ss_handles s)" and "j < length (ss_handles s)"
  shows "shared_inv (ptr_assign_move i j s)"
proof -
  let ?s1 = "if ss_handles s ! i then ptr_release i s else s"
  have 1: "shared_inv ?s1" using assms by (auto intro: ptr_release_inv)
  have l: "length (ss_handles ?s1) = length (ss_handles s)" by (simp add: ptr_release_def)
  show ?thesis using 1 l assms(2,3) live_handles_swap [of i "ss_handles ?s1" j]
    by (simp add: shared_inv_def ptr_assign_move_def Let_def split del: if_split)
qed

lemma ptr_destroy_inv [inv_intros]:
  assumes "shared_inv s" and "i < length (ss_handles s)"
  shows "shared_inv (ptr_destroy i s)"
proof -
  let ?s1 = "if ss_handles s ! i then ptr_release i s else s"
  have 1: "shared_inv ?s1" using assms by (auto intro: ptr_release_inv)
  have l: "length (ss_handles ?s1) = length (ss_handles s)" by (simp add: ptr_release_def)
  have n: "\<not> ss_handles ?s1 ! i" using assms(2) by (simp add: ptr_release_def)
  show ?thesis using 1 l assms(2) n live_handles_drop [of i "ss_handles ?s1"]
    by (simp add: shared_inv_def ptr_destroy_def Let_def less_imp_diff_less split del: if_split)
qed

lemma shared_step_inv: "shared_step s s' \<Longrightarrow> shared_inv s \<Longrightarrow> shared_inv s'"
  by (induction rule: shared_step.induct) (auto intro: inv_intros)

lemma shared_reach_inv: "shared_reach s \<Longrightarrow> shared_inv s"
proof (induction rule: shared_reach.induct)
  case start
  show ?case by (simp add: shared_inv_def shared_new_def)
next
  case (step s s')
  then show ?case by (blast intro: shared_step_inv)
qed

section \<open>mail_raw_t\<close>

text \<open>
  The registry. Objects are numbered as they are made; \<open>ml_alive\<close> are those some caller
  still holds, \<open>ml_dying\<close> counts those whose last holder is gone (so that every weak
  pointer to them has expired) and whose destructor has not called \<open>cleanup\<close> yet. The map
  is a \<open>std::map\<close>: sorted by its keys, compared byte by byte.
\<close>

record mail_raw =
  ml_posts :: "(string \<times> nat) list"
  ml_alive :: "nat set"
  ml_dying :: nat
  ml_next :: nat

definition mail_new :: mail_raw where
  "mail_new = \<lparr>ml_posts = [], ml_alive = {}, ml_dying = 0, ml_next = 0\<rparr>"

definition weak_lock :: "mail_raw \<Rightarrow> nat \<Rightarrow> nat option" where
  "weak_lock m ob = (if ob \<in> ml_alive m then Some ob else None)"

text \<open>\<open>event\<close> and \<open>queue\<close> differ in the type of the object they make, not in the lookup.\<close>

definition mail_event :: "string \<Rightarrow> mail_raw \<Rightarrow> nat option \<times> mail_raw" where
  "mail_event key m =
     (case map_of (ml_posts m) key of
        Some ob \<Rightarrow> (weak_lock m ob, m)
      | None \<Rightarrow>
          let post = ml_next m in
          (Some post,
           m\<lparr>ml_posts := insort_key fst (key, post) (ml_posts m),
             ml_alive := insert post (ml_alive m), ml_next := Suc post\<rparr>))"

definition mail_queue :: "string \<Rightarrow> mail_raw \<Rightarrow> nat option \<times> mail_raw" where
  "mail_queue key m =
     (case map_of (ml_posts m) key of
        Some ob \<Rightarrow> (weak_lock m ob, m)
      | None \<Rightarrow>
          let post = ml_next m in
          (Some post,
           m\<lparr>ml_posts := insort_key fst (key, post) (ml_posts m),
             ml_alive := insert post (ml_alive m), ml_next := Suc post\<rparr>))"

fun erase_first_expired :: "nat set \<Rightarrow> (string \<times> nat) list \<Rightarrow> (string \<times> nat) list" where
  "erase_first_expired alive [] = []"
| "erase_first_expired alive (p # ps) =
     (if snd p \<notin> alive then ps else p # erase_first_expired alive ps)"

definition mail_cleanup :: "mail_raw \<Rightarrow> mail_raw" where
  "mail_cleanup m = m\<lparr>ml_posts := erase_first_expired (ml_alive m) (ml_posts m)\<rparr>"

text \<open>The last holder lets go: the object expires, its destructor has yet to run.\<close>

definition mail_last_holder_gone :: "nat \<Rightarrow> mail_raw \<Rightarrow> mail_raw" where
  "mail_last_holder_gone ob m =
     m\<lparr>ml_alive := ml_alive m - {ob}, ml_dying := Suc (ml_dying m)\<rparr>"

text \<open>The destructor of \<open>post_t\<close>.\<close>

definition post_destructor :: "mail_raw \<Rightarrow> mail_raw" where
  "post_destructor m = (mail_cleanup m)\<lparr>ml_dying := ml_dying m - 1\<rparr>"

inductive mail_step :: "mail_raw \<Rightarrow> mail_raw \<Rightarrow> bool" where
  event: "mail_step m (snd (mail_event key m))"
| queue: "mail_step m (snd (mail_queue key m))"
| drop: "ob \<in> ml_alive m \<Longrightarrow> mail_step m (mail_last_holder_gone ob m)"
| destroyed: "0 < ml_dying m \<Longrightarrow> mail_step m (post_destructor m)"

inductive mail_reach :: "mail_raw \<Rightarrow> bool" where
  start: "mail_reach mail_new"
| step: "mail_reach m \<Longrightarrow> mail_step m m' \<Longrightarrow> mail_reach m'"

definition expired_posts :: "nat set \<Rightarrow> (string \<times> nat) list \<Rightarrow> (string \<times> nat) list" where
  "expired_posts alive ps = filter (\<lambda>p. snd p \<notin> alive) ps"

text \<open>
  Every live object has its one entry, and there are as many expired entries as
  destructors still to run, although a destructor may erase the entry of another one.
\<close>

definition mail_inv :: "mail_raw \<Rightarrow> bool" where
  "mail_inv m \<longleftrightarrow>
     distinct (map fst (ml_posts m)) \<and> distinct (map snd (ml_posts m)) \<and>
     sorted (map fst (ml_posts m)) \<and>
     ml_alive m \<subseteq> snd ` set (ml_posts m) \<and>
     (\<forall>p \<in> set (ml_posts m). snd p < ml_next m) \<and>
     length (expired_posts (ml_alive m) (ml_posts m)) = ml_dying m"

lemma erase_first_expired_filter:
  "expired_posts alive (erase_first_expired alive ps) = tl (expired_posts alive ps)"
  by (induction ps) (auto simp: expired_posts_def)

lemma erase_first_expired_subset: "set (erase_first_expired alive ps) \<subseteq> set ps"
  by (induction ps) auto

lemma erase_first_expired_distinct:
  "distinct (map f ps) \<Longrightarrow> distinct (map f (erase_first_expired alive ps))"
  by (induction ps) (use erase_first_expired_subset in fastforce)+

lemma erase_first_expired_sorted:
  "sorted (map fst ps) \<Longrightarrow> sorted (map fst (erase_first_expired alive ps))"
  by (induction ps) (use erase_first_expired_subset in fastforce)+

lemmas erase_first_expired_subseq =
  erase_first_expired_subset erase_first_expired_distinct erase_first_expired_sorted

lemma erase_first_expired_keeps:
  "p \<in> set ps \<Longrightarrow> snd p \<in> alive \<Longrightarrow> p \<in> set (erase_first_expired alive ps)"
  by (induction ps) auto

lemma expired_insort:
  "ob \<in> alive \<Longrightarrow>
   expired_posts alive (insort_key fst (key, ob) ps) = expired_posts alive ps"
  by (induction ps) (auto simp: expired_posts_def)

lemma expired_posts_cong:
  "(\<And>p. p \<in> set ps \<Longrightarrow> snd p \<in> A \<longleftrightarrow> snd p \<in> B) \<Longrightarrow> expired_posts A ps = expired_posts B ps"
  unfolding expired_posts_def by (rule filter_cong) auto

lemma length_expired_drop:
  assumes "distinct (map snd ps)" and "ob \<in> alive" and "ob \<in> snd ` set ps"
  shows "length (expired_posts (alive - {ob}) ps) = Suc (length (expired_posts alive ps))"
  using assms
proof (induction ps)
  case (Cons p ps)
  show ?case
  proof (cases "snd p = ob")
    case True
    with Cons.prems have "expired_posts (alive - {ob}) ps = expired_posts alive ps"
      by (intro expired_posts_cong) (force simp: image_iff)
    with True Cons.prems show ?thesis by (simp add: expired_posts_def)
  next
    case False
    with Cons show ?thesis by (auto simp: expired_posts_def)
  qed
qed simp

lemma distinct_map_insort:
  "distinct (map f (insort_key g x xs)) \<longleftrightarrow> f x \<notin> f ` set xs \<and> distinct (map f xs)"
  by (induction xs) (auto simp: set_insort_key)

lemma mail_event_new_inv:
  assumes "mail_inv m" and "map_of (ml_posts m) key = None"
  shows "mail_inv (m\<lparr>ml_posts := insort_key fst (key, ml_next m) (ml_posts m),
    ml_alive := insert (ml_next m) (ml_alive m), ml_next := Suc (ml_next m)\<rparr>)"
proof -
  have new: "ml_next m \<notin> snd ` set (ml_posts m)" using assms(1) by (auto simp: mail_inv_def)
  then have "expired_posts (insert (ml_next m) (ml_alive m)) (ml_posts m) =
      expired_posts (ml_alive m) (ml_posts m)"
    by (intro expired_posts_cong) (force simp: image_iff)
  then have e: "expired_posts (insert (ml_next m) (ml_alive m))
      (insort_key fst (key, ml_next m) (ml_posts m)) = expired_posts (ml_alive m) (ml_posts m)"
    by (simp add: expired_insort)
  have k: "key \<notin> fst ` set (ml_posts m)" using assms(2) by (simp add: map_of_eq_None_iff)
  show ?thesis
    using assms(1) e k new
    by (auto simp: mail_inv_def distinct_map_insort sorted_insort_key set_insort_key less_Suc_eq)
qed

lemma mail_event_inv [inv_intros]: "mail_inv m \<Longrightarrow> mail_inv (snd (mail_event key m))"
  by (auto simp: mail_event_def Let_def intro: mail_event_new_inv split: option.splits)

lemma mail_queue_event: "mail_queue key m = mail_event key m"
  by (simp add: mail_queue_def mail_event_def)

lemma mail_drop_inv [inv_intros]:
  assumes "mail_inv m" and "ob \<in> ml_alive m"
  shows "mail_inv (mail_last_holder_gone ob m)"
  using assms length_expired_drop [of "ml_posts m" ob "ml_alive m"]
  by (auto simp: mail_inv_def mail_last_holder_gone_def)

lemma post_destructor_inv [inv_intros]:
  assumes "mail_inv m"
  shows "mail_inv (post_destructor m)"
proof -
  have "ml_alive m \<subseteq> snd ` set (erase_first_expired (ml_alive m) (ml_posts m))"
  proof
    fix ob
    assume "ob \<in> ml_alive m"
    with assms obtain p where "p \<in> set (ml_posts m)" "snd p = ob" by (auto simp: mail_inv_def)
    with \<open>ob \<in> ml_alive m\<close> erase_first_expired_keeps [of p "ml_posts m" "ml_alive m"]
    show "ob \<in> snd ` set (erase_first_expired (ml_alive m) (ml_posts m))" by force
  qed
  with assms erase_first_expired_subset [of "ml_alive m" "ml_posts m"] show ?thesis
    by (auto simp: mail_inv_def post_destructor_def mail_cleanup_def erase_first_expired_filter
        erase_first_expired_distinct erase_first_expired_sorted)
qed

lemma mail_step_inv: "mail_step m m' \<Longrightarrow> mail_inv m \<Longrightarrow> mail_inv m'"
  by (induction rule: mail_step.induct) (auto simp: mail_queue_event intro: inv_intros)

lemma mail_reach_inv: "mail_reach m \<Longrightarrow> mail_inv m"
proof (induction rule: mail_reach.induct)
  case start
  show ?case by (simp add: mail_inv_def mail_new_def expired_posts_def)
next
  case (step m m')
  then show ?case by (blast intro: mail_step_inv)
qed

lemma mail_event_None_iff:
  "fst (mail_event key m) = None \<longleftrightarrow>
   (\<exists>ob. map_of (ml_posts m) key = Some ob \<and> ob \<notin> ml_alive m)"
  by (auto simp: mail_event_def weak_lock_def Let_def split: option.splits)

lemma mail_event_again:
  assumes "mail_inv m" and "mail_event key m = (Some ob, m')"
  shows "mail_event key m' = (Some ob, m')"
proof (cases "map_of (ml_posts m) key")
  case (Some ob')
  with assms(2) show ?thesis by (auto simp: mail_event_def split: if_splits)
next
  case None
  from assms(2) None have m': "ob = ml_next m"
    "m' = m\<lparr>ml_posts := insort_key fst (key, ml_next m) (ml_posts m),
       ml_alive := insert (ml_next m) (ml_alive m), ml_next := Suc (ml_next m)\<rparr>"
    by (auto simp: mail_event_def Let_def)
  from mail_event_new_inv [OF assms(1) None] have "distinct (map fst (ml_posts m'))"
    by (simp add: mail_inv_def m')
  then have "map_of (ml_posts m') key = Some ob"
    by (rule map_of_is_SomeI) (simp add: m' set_insort_key)
  then show ?thesis by (simp add: mail_event_def weak_lock_def m')
qed

section \<open>Properties\<close>

text \<open>
  Whatever sequence of handle constructions, copies, moves, assignments, releases and
  destructions runs, the count equals the number of live handles; the object has been
  constructed once more than destroyed while a handle lives, and equally often otherwise.
\<close>
theorem shared_count_is_live_handles:
  assumes "shared_reach s"
  shows "unat (sc_count (ss_cell s)) = length (filter id (ss_handles s)) \<and>
    sc_constructs (ss_cell s) =
      sc_destructs (ss_cell s) + (if True \<in> set (ss_handles s) then 1 else 0)"
  using shared_reach_inv [OF assms]
  by (auto simp: shared_inv_def live_handles_def filter_empty_conv)

theorem shared_count_is_live_handles_witness:
  "shared_reach (ptr_construct 0 \<lparr>ss_cell = shared_new, ss_handles = []\<rparr>) \<and>
   unat (sc_count (ss_cell (ptr_construct 0 \<lparr>ss_cell = shared_new, ss_handles = []\<rparr>))) = 1"
proof -
  have r: "shared_reach (ptr_construct 0 \<lparr>ss_cell = shared_new, ss_handles = []\<rparr>)"
    by (rule shared_reach.step [OF shared_reach.start shared_step.construct]) simp
  from shared_count_is_live_handles [OF r] r show ?thesis
    by (simp add: ptr_construct_def shared_ref_def shared_new_def)
qed

text \<open>
  In every reachable mailbox a lookup answers an object unless that object has expired
  and no destructor has erased its entry yet: with no destructor outstanding a lookup never
  answers null, and a second lookup of the same name answers the same object and changes
  nothing.
\<close>
theorem mail_lookup_shares:
  assumes "mail_reach m"
  shows "(ml_dying m = 0 \<longrightarrow> fst (mail_event key m) \<noteq> None) \<and>
    (fst (mail_event key m) = None \<longleftrightarrow>
      (\<exists>ob. map_of (ml_posts m) key = Some ob \<and> ob \<notin> ml_alive m)) \<and>
    (\<forall>ob m'. mail_event key m = (Some ob, m') \<longrightarrow>
      mail_queue key m' = (Some ob, m') \<and> mail_event key m' = (Some ob, m'))"
proof -
  have inv: "mail_inv m" using assms by (rule mail_reach_inv)
  show ?thesis
  proof (intro conjI impI allI)
    assume d: "ml_dying m = 0"
    show "fst (mail_event key m) \<noteq> None"
    proof
      assume "fst (mail_event key m) = None"
      then obtain ob where ob: "map_of (ml_posts m) key = Some ob" "ob \<notin> ml_alive m"
        by (auto simp only: mail_event_None_iff)
      then have "(key, ob) \<in> set (expired_posts (ml_alive m) (ml_posts m))"
        by (simp add: expired_posts_def map_of_SomeD)
      with inv d show False by (auto simp: mail_inv_def)
    qed
  next
    show "(fst (mail_event key m) = None) =
        (\<exists>ob. map_of (ml_posts m) key = Some ob \<and> ob \<notin> ml_alive m)"
      by (rule mail_event_None_iff)
  next
    fix ob m'
    assume "mail_event key m = (Some ob, m')"
    then show "mail_event key m' = (Some ob, m')" by (rule mail_event_again [OF inv])
    then show "mail_queue key m' = (Some ob, m')" by (simp only: mail_queue_event)
  qed
qed

theorem mail_lookup_shares_witness:
  "mail_reach mail_new \<and> ml_dying mail_new = 0 \<and> fst (mail_event ''shutdown'' mail_new) \<noteq> None"
  using mail_lookup_shares [OF mail_reach.start, THEN conjunct1, of "''shutdown''"]
    mail_reach.start by (simp add: mail_new_def)

text \<open>
  The window the lookup leaves open: between the moment the last holder of an event lets
  go and the moment its destructor runs \<open>cleanup\<close>, a lookup of the same name answers a null
  pointer.
\<close>
theorem mail_lookup_null_window:
  "\<exists>m. mail_reach m \<and> mail_event key m = (None, m)"
proof -
  let ?m1 = "snd (mail_event key mail_new)"
  have r1: "mail_reach ?m1"
    by (rule mail_reach.step [OF mail_reach.start mail_step.event])
  have a: "0 \<in> ml_alive ?m1" by (simp add: mail_event_def mail_new_def)
  have "mail_reach (mail_last_holder_gone 0 ?m1)"
    by (rule mail_reach.step [OF r1 mail_step.drop [OF a]])
  moreover have "mail_event key (mail_last_holder_gone 0 ?m1) = (None, mail_last_holder_gone 0 ?m1)"
    by (simp add: mail_event_def mail_new_def mail_last_holder_gone_def weak_lock_def)
  ultimately show ?thesis by blast
qed

end
