(* ===== verification/Task_Pool.thy ===== *)
theory Task_Pool
  imports Prelude "HOL-Library.Multiset"
begin

text \<open>
  \<open>src/task_pool.h\<close>: the queue of immediate tasks and the vector of timer tasks, kept with
  the latest deadline first so that the next one to run is at the back. A task is the
  number of its \<open>_ImplBase\<close> object; the pointer of a timer entry can be null after
  \<open>pop(task_id)\<close> has moved it out. Times are ticks of the steady clock.
\<close>

type_synonym task_id = nat
type_synonym timer = "int \<times> task_id option"

record task_pool =
  tp_tasks :: "task_id list"
  tp_timers :: "timer list"

definition task_pool_new :: task_pool where
  "task_pool_new = \<lparr>tp_tasks = [], tp_timers = []\<rparr>"

definition pool_push :: "task_id \<Rightarrow> task_pool \<Rightarrow> task_pool" where
  "pool_push t p = p\<lparr>tp_tasks := tp_tasks p @ [t]\<rparr>"

text \<open>The new entry goes before the first one with an earlier deadline.\<close>

fun insert_timer :: "timer \<Rightarrow> timer list \<Rightarrow> timer list" where
  "insert_timer e [] = [e]"
| "insert_timer e (x # xs) = (if fst x < fst e then e # x # xs else x # insert_timer e xs)"

definition pool_push_delayed :: "timer \<Rightarrow> task_pool \<Rightarrow> task_pool" where
  "pool_push_delayed e p = p\<lparr>tp_timers := insert_timer e (tp_timers p)\<rparr>"

definition pool_push_delayed_fn :: "int \<Rightarrow> int \<Rightarrow> task_id \<Rightarrow> task_pool \<Rightarrow> task_id \<times> task_pool" where
  "pool_push_delayed_fn now duration t p = (t, pool_push_delayed (now + duration, Some t) p)"

fun timer_index :: "task_id \<Rightarrow> timer list \<Rightarrow> nat option" where
  "timer_index t [] = None"
| "timer_index t (x # xs) = (if snd x = Some t then Some 0 else map_option Suc (timer_index t xs))"

text \<open>
  The loop of \<open>delay\<close>: from position \<open>i\<close> to the front, an entry with a later deadline than
  the one before it changes places with it.
\<close>

fun bubble_timer :: "nat \<Rightarrow> timer list \<Rightarrow> timer list" where
  "bubble_timer 0 xs = xs"
| "bubble_timer (Suc i) xs =
     bubble_timer i
       (if fst (xs ! i) < fst (xs ! Suc i) then xs[Suc i := xs ! i, i := xs ! Suc i] else xs)"

definition pool_delay :: "int \<Rightarrow> task_id \<Rightarrow> int \<Rightarrow> task_pool \<Rightarrow> task_pool" where
  "pool_delay now t duration p =
     (case timer_index t (tp_timers p) of
        None \<Rightarrow> p
      | Some i \<Rightarrow>
          p\<lparr>tp_timers := bubble_timer i
              ((tp_timers p)[i := (now + duration, snd (tp_timers p ! i))])\<rparr>)"

definition pool_cancel :: "task_id \<Rightarrow> task_pool \<Rightarrow> bool \<times> task_pool" where
  "pool_cancel t p =
     (case timer_index t (tp_timers p) of
        None \<Rightarrow> (False, p)
      | Some i \<Rightarrow>
          (True, p\<lparr>tp_timers := take i (tp_timers p) @ drop (Suc i) (tp_timers p)\<rparr>))"

text \<open>\<open>pop(task_id)\<close> moves the pair out of the vector and leaves the moved-from entry there.\<close>

definition pool_pop_id :: "task_id \<Rightarrow> task_pool \<Rightarrow> timer option \<times> task_pool" where
  "pool_pop_id t p =
     (case timer_index t (tp_timers p) of
        None \<Rightarrow> (None, p)
      | Some i \<Rightarrow>
          (Some (tp_timers p ! i),
           p\<lparr>tp_timers := (tp_timers p)[i := (fst (tp_timers p ! i), None)]\<rparr>))"

text \<open>\<open>Some None\<close> is a task pointer that is present and null.\<close>

definition pool_pop :: "int \<Rightarrow> task_pool \<Rightarrow> task_id option option \<times> task_pool" where
  "pool_pop now p =
     (case tp_tasks p of
        t # ts \<Rightarrow> (Some (Some t), p\<lparr>tp_tasks := ts\<rparr>)
      | [] \<Rightarrow>
          if tp_timers p \<noteq> [] \<and> fst (last (tp_timers p)) \<le> now
          then (Some (snd (last (tp_timers p))), p\<lparr>tp_timers := butlast (tp_timers p)\<rparr>)
          else (None, p))"

definition pool_ready :: "int \<Rightarrow> task_pool \<Rightarrow> bool" where
  "pool_ready now p \<longleftrightarrow>
     tp_tasks p \<noteq> [] \<or> (tp_timers p \<noteq> [] \<and> fst (last (tp_timers p)) \<le> now)"

definition pool_next :: "task_pool \<Rightarrow> int option" where
  "pool_next p = (if tp_timers p = [] then None else Some (fst (last (tp_timers p))))"

section \<open>The order of the timers\<close>

definition latest_first :: "timer list \<Rightarrow> bool" where
  "latest_first xs \<longleftrightarrow> sorted_wrt (\<lambda>a b. fst b \<le> fst a) xs"

definition pool_wf :: "task_pool \<Rightarrow> bool" where
  "pool_wf p \<longleftrightarrow> latest_first (tp_timers p)"

lemma latest_first_simps [simp]:
  "latest_first []"
  "latest_first (x # xs) \<longleftrightarrow> (\<forall>y \<in> set xs. fst y \<le> fst x) \<and> latest_first xs"
  "latest_first (xs @ ys) \<longleftrightarrow>
     latest_first xs \<and> latest_first ys \<and> (\<forall>x \<in> set xs. \<forall>y \<in> set ys. fst y \<le> fst x)"
  by (auto simp: latest_first_def sorted_wrt_append)

lemma set_insert_timer: "set (insert_timer e xs) = insert e (set xs)"
  by (induction xs) auto

lemma mset_insert_timer: "mset (insert_timer e xs) = add_mset e (mset xs)"
  by (induction xs) auto

lemma latest_first_insert_timer: "latest_first xs \<Longrightarrow> latest_first (insert_timer e xs)"
  by (induction xs) (auto simp: set_insert_timer)

lemma timer_index_Some:
  "timer_index t xs = Some i \<Longrightarrow> i < length xs \<and> snd (xs ! i) = Some t"
  by (induction xs arbitrary: i) (auto split: if_splits)

lemma timer_index_None: "timer_index t xs = None \<longleftrightarrow> Some t \<notin> snd ` set xs"
  by (induction xs) (auto simp: image_iff)

lemma length_bubble_timer [simp]: "length (bubble_timer i xs) = length xs"
  by (induction i arbitrary: xs) auto

lemma mset_bubble_timer: "i < length xs \<Longrightarrow> mset (bubble_timer i xs) = mset xs"
  by (induction i arbitrary: xs) (auto simp: mset_swap)

lemma bubble_timer_id: "latest_first (take (Suc i) xs) \<Longrightarrow> i < length xs \<Longrightarrow> bubble_timer i xs = xs"
proof (induction i)
  case (Suc i)
  from Suc.prems have "take (Suc (Suc i)) xs = take i xs @ [xs ! i, xs ! Suc i]"
    by (simp add: take_Suc_conv_app_nth)
  with Suc.prems have "fst (xs ! Suc i) \<le> fst (xs ! i)" "latest_first (take (Suc i) xs)"
    by (simp_all add: take_Suc_conv_app_nth)
  with Suc show ?case by simp
qed simp

text \<open>
  Where everything before position \<open>i\<close> is in order, the loop inserts the entry at \<open>i\<close>
  before the first one with an earlier deadline.
\<close>

lemma bubble_timer_insert:
  assumes "latest_first (take i xs)" and "i < length xs"
  shows "bubble_timer i xs = insert_timer (xs ! i) (take i xs) @ drop (Suc i) xs"
  using assms
proof (induction i arbitrary: xs)
  case 0
  then show ?case by (cases xs) auto
next
  case (Suc i)
  let ?a = "xs ! i" and ?e = "xs ! Suc i"
  have t: "take (Suc i) xs = take i xs @ [?a]" using Suc.prems(2) by (simp add: take_Suc_conv_app_nth)
  have d: "drop i xs = ?a # ?e # drop (Suc (Suc i)) xs"
    using Suc.prems(2) by (simp add: Cons_nth_drop_Suc)
  have append: "insert_timer e (ys @ [a]) =
      (if fst a < fst e then insert_timer e ys @ [a] else ys @ [a, e])"
    if "latest_first (ys @ [a])" for e a :: timer and ys
    using that by (induction ys) auto
  show ?case
  proof (cases "fst ?a < fst ?e")
    case True
    let ?ys = "xs[Suc i := ?a, i := ?e]"
    have y: "?ys ! i = ?e" "take i ?ys = take i xs" "drop (Suc i) ?ys = ?a # drop (Suc (Suc i)) xs"
      using Suc.prems(2) by (simp_all add: drop_update_swap Cons_nth_drop_Suc [symmetric] drop_Suc_Cons)
    from Suc.IH [of ?ys] Suc.prems y t
    have "bubble_timer i ?ys = insert_timer ?e (take i xs) @ ?a # drop (Suc (Suc i)) xs"
      by simp
    moreover have "insert_timer ?e (take (Suc i) xs) = insert_timer ?e (take i xs) @ [?a]"
      using append [of "take i xs" ?a ?e] True Suc.prems(1) t by simp
    ultimately show ?thesis using True by simp
  next
    case False
    have "bubble_timer (Suc i) xs = bubble_timer i xs" using False by simp
    also have "\<dots> = xs" by (rule bubble_timer_id) (use Suc.prems in auto)
    also have "\<dots> = take i xs @ [?a, ?e] @ drop (Suc (Suc i)) xs"
      using d append_take_drop_id [of i xs] by simp
    also have "\<dots> = insert_timer ?e (take (Suc i) xs) @ drop (Suc (Suc i)) xs"
      using append [of "take i xs" ?a ?e] False Suc.prems(1) t by simp
    finally show ?thesis .
  qed
qed

lemma pool_push_wf [inv_intros]: "pool_wf p \<Longrightarrow> pool_wf (pool_push t p)"
  by (simp add: pool_wf_def pool_push_def)

lemma pool_push_delayed_wf [inv_intros]: "pool_wf p \<Longrightarrow> pool_wf (pool_push_delayed e p)"
  by (simp add: pool_wf_def pool_push_delayed_def latest_first_insert_timer)

lemma latest_first_sub:
  "latest_first (xs @ ys @ zs) \<Longrightarrow> latest_first (xs @ zs)"
  by auto

lemma pool_cancel_wf [inv_intros]: "pool_wf p \<Longrightarrow> pool_wf (snd (pool_cancel t p))"
proof -
  assume "pool_wf p"
  moreover have "latest_first (take i xs @ drop (Suc i) xs)" if "latest_first xs" for i xs
    using that latest_first_sub [of "take i xs" "take 1 (drop i xs)" "drop (Suc i) xs"]
    by (metis append_take_drop_id drop_drop plus_1_eq_Suc)
  ultimately show ?thesis by (auto simp: pool_wf_def pool_cancel_def split: option.splits)
qed

lemma latest_first_map_fst:
  "map fst xs = map fst ys \<Longrightarrow> latest_first xs = latest_first ys"
  unfolding latest_first_def
  using sorted_wrt_map [of "\<lambda>a b. b \<le> a" fst xs] sorted_wrt_map [of "\<lambda>a b. b \<le> a" fst ys]
  by simp

lemma map_fst_clear_timer:
  "map fst (xs[i := (fst (xs ! i), None)]) = map fst (xs :: timer list)"
  by (cases "i < length xs") (simp_all add: map_update list_update_beyond, metis list_update_id nth_map)

lemma pool_pop_id_wf [inv_intros]: "pool_wf p \<Longrightarrow> pool_wf (snd (pool_pop_id t p))"
  using latest_first_map_fst [OF map_fst_clear_timer]
  by (auto simp: pool_wf_def pool_pop_id_def split: option.splits)

lemma latest_first_last:
  "latest_first xs \<Longrightarrow> e \<in> set xs \<Longrightarrow> fst (last xs) \<le> fst e"
  by (cases xs rule: rev_cases) auto

lemma latest_first_butlast: "latest_first xs \<Longrightarrow> latest_first (butlast xs)"
  by (cases xs rule: rev_cases) auto

lemma pool_pop_wf [inv_intros]: "pool_wf p \<Longrightarrow> pool_wf (snd (pool_pop now p))"
  by (auto simp: pool_wf_def pool_pop_def latest_first_butlast split: list.splits)

lemma pool_ready_iff: "pool_ready now p \<longleftrightarrow> fst (pool_pop now p) \<noteq> None"
  by (auto simp: pool_ready_def pool_pop_def split: list.splits)

text \<open>Postponing a timer keeps the order; so does any deadline no earlier than the old one.\<close>

lemma delayed_timers:
  assumes "latest_first xs" and "i < length xs" and "fst (xs ! i) \<le> d"
  shows "latest_first (bubble_timer i (xs[i := (d, x)]))"
    and "mset (bubble_timer i (xs[i := (d, x)])) = add_mset (d, x) (mset xs - {#xs ! i#})"
proof -
  let ?ys = "xs[i := (d, x)]"
  have xs: "xs = take i xs @ xs ! i # drop (Suc i) xs" using assms(2) by (rule id_take_nth_drop)
  then have l: "latest_first (take i xs @ xs ! i # drop (Suc i) xs)" using assms(1) by simp
  then have "bubble_timer i ?ys = insert_timer (d, x) (take i xs) @ drop (Suc i) xs"
    using bubble_timer_insert [of i ?ys] assms(2) by simp
  moreover have "\<forall>y \<in> set (drop (Suc i) xs). fst y \<le> d"
    using l assms(3) by fastforce
  ultimately show "latest_first (bubble_timer i ?ys)"
    using l by (auto simp: latest_first_insert_timer set_insert_timer)
  show "mset (bubble_timer i ?ys) = add_mset (d, x) (mset xs - {#xs ! i#})"
    using assms(2) by (simp add: mset_bubble_timer mset_update)
qed

lemma pool_delay_wf:
  assumes "pool_wf p" and "timer_index t (tp_timers p) = Some i"
    and "fst (tp_timers p ! i) \<le> now + duration"
  shows "pool_wf (pool_delay now t duration p)"
  using assms delayed_timers(1) [of "tp_timers p" i] timer_index_Some [OF assms(2)]
  by (simp add: pool_wf_def pool_delay_def)

section \<open>The pool as an abstract scheduler\<close>

text \<open>
  The promise of the pool, with the order of the vector forgotten: immediate tasks first in,
  first out; then a timer with the least deadline, if that deadline has passed.
\<close>

type_synonym abs_pool = "task_id list \<times> timer multiset"

definition abs_pool :: "task_pool \<Rightarrow> abs_pool" where
  "abs_pool p = (tp_tasks p, mset (tp_timers p))"

definition spec_pop :: "int \<Rightarrow> abs_pool \<Rightarrow> task_id option option \<Rightarrow> abs_pool \<Rightarrow> bool" where
  "spec_pop now a r a' \<longleftrightarrow>
     (case fst a of
        t # ts \<Rightarrow> r = Some (Some t) \<and> a' = (ts, snd a)
      | [] \<Rightarrow>
          if \<exists>e \<in># snd a. fst e \<le> now
          then \<exists>e \<in># snd a. (\<forall>e' \<in># snd a. fst e \<le> fst e') \<and> r = Some (snd e) \<and>
                 a' = ([], snd a - {#e#})
          else r = None \<and> a' = a)"

lemma mset_butlast: "xs \<noteq> [] \<Longrightarrow> mset (butlast xs) = mset xs - {#last xs#}"
  by (cases xs rule: rev_cases) auto

lemma pool_pop_refines:
  assumes "pool_wf p"
  shows "spec_pop now (abs_pool p) (fst (pool_pop now p)) (abs_pool (snd (pool_pop now p)))"
proof (cases "tp_tasks p")
  case Nil
  show ?thesis
  proof (cases "\<exists>e \<in> set (tp_timers p). fst e \<le> now")
    case True
    then have ne: "tp_timers p \<noteq> []" by auto
    have least: "\<forall>e \<in> set (tp_timers p). fst (last (tp_timers p)) \<le> fst e"
      using assms latest_first_last by (auto simp: pool_wf_def)
    with True have "fst (last (tp_timers p)) \<le> now" by force
    with True Nil ne least show ?thesis
      by (auto simp: spec_pop_def abs_pool_def pool_pop_def mset_butlast
          intro!: bexI [of _ "last (tp_timers p)"])
  next
    case False
    then have "\<not> (tp_timers p \<noteq> [] \<and> fst (last (tp_timers p)) \<le> now)" by auto
    with False Nil show ?thesis by (auto simp: spec_pop_def abs_pool_def pool_pop_def)
  qed
qed (simp add: spec_pop_def abs_pool_def pool_pop_def)

section \<open>Running what is left\<close>

text \<open>
  The last loop of a worker: pop until nothing is ready, here with the clock standing
  still at \<open>now\<close>.
\<close>

function pool_drain :: "int \<Rightarrow> task_pool \<Rightarrow> task_id option list \<times> task_pool" where
  "pool_drain now p =
     (case pool_pop now p of
        (None, p') \<Rightarrow> ([], p')
      | (Some t, p') \<Rightarrow> (case pool_drain now p' of (ts, p'') \<Rightarrow> (t # ts, p'')))"
  by pat_completeness auto
termination
  by (relation "measure (\<lambda>(now, p). length (tp_tasks p) + length (tp_timers p))")
    (auto simp: pool_pop_def split: list.splits if_splits)

declare pool_drain.simps [simp del]

lemma pool_drain_timers:
  assumes "latest_first xs"
  shows "pool_drain now \<lparr>tp_tasks = [], tp_timers = xs\<rparr> =
    (map snd (rev (filter (\<lambda>e. fst e \<le> now) xs)),
     \<lparr>tp_tasks = [], tp_timers = filter (\<lambda>e. now < fst e) xs\<rparr>)"
  using assms
proof (induction xs rule: rev_induct)
  case Nil
  show ?case by (simp add: pool_drain.simps [of now] pool_pop_def)
next
  case (snoc x xs)
  show ?case
  proof (cases "fst x \<le> now")
    case True
    with snoc show ?thesis by (simp add: pool_drain.simps [of now "\<lparr>tp_tasks = [], tp_timers = xs @ [x]\<rparr>"] pool_pop_def)
  next
    case False
    with snoc.prems have "\<forall>e \<in> set xs. now < fst e" by force
    then have "filter (\<lambda>e. fst e \<le> now) xs = []" "filter (\<lambda>e. now < fst e) xs = xs"
      by (auto simp: filter_empty_conv filter_id_conv)
    with False show ?thesis
      by (simp add: pool_drain.simps [of now "\<lparr>tp_tasks = [], tp_timers = xs @ [x]\<rparr>"] pool_pop_def)
  qed
qed

lemma pool_drain_eq:
  assumes "latest_first xs"
  shows "pool_drain now \<lparr>tp_tasks = ts, tp_timers = xs\<rparr> =
    (map Some ts @ map snd (rev (filter (\<lambda>e. fst e \<le> now) xs)),
     \<lparr>tp_tasks = [], tp_timers = filter (\<lambda>e. now < fst e) xs\<rparr>)"
proof (induction ts)
  case Nil
  show ?case using pool_drain_timers [OF assms] by simp
next
  case (Cons t ts)
  then show ?case
    by (simp add: pool_drain.simps [of now "\<lparr>tp_tasks = t # ts, tp_timers = xs\<rparr>"] pool_pop_def)
qed

end
