(* ===== verification/Thread_Pool.thy ===== *)
theory Thread_Pool
  imports Task_Pool
begin

text \<open>
  \<open>src/thread_pool.h\<close>: workers that pop tasks of a \<open>TaskPool\<close> and sleep on a condition
  variable between them. A worker is at the head of its loop, between its failed \<open>pop\<close> and
  the mutex, asleep (with the deadline of its \<open>wait_until\<close>, if it has one), running the
  tasks left after a stop, or gone. Each step is one atomic section of one thread.
\<close>

datatype worker = Loop | Locking | Sleeping "int option" | Draining | Exited

record thread_pool =
  th_pool :: task_pool
  th_continue :: bool
  th_now :: int
  th_workers :: "nat \<Rightarrow> worker"
  th_log :: "task_id option list"

definition is_sleeping :: "worker \<Rightarrow> bool" where
  "is_sleeping w = (case w of Sleeping _ \<Rightarrow> True | _ \<Rightarrow> False)"

definition wake_all :: "(nat \<Rightarrow> worker) \<Rightarrow> nat \<Rightarrow> worker" where
  "wake_all ws = (\<lambda>w. if is_sleeping (ws w) then Loop else ws w)"

text \<open>\<open>ThreadPool(threads)\<close> and \<open>start(threads)\<close>.\<close>

definition thread_pool_start :: "int \<Rightarrow> task_pool \<Rightarrow> thread_pool" where
  "thread_pool_start now p =
     \<lparr>th_pool = p, th_continue = True, th_now = now, th_workers = (\<lambda>_. Loop), th_log = []\<rparr>"

definition thread_push :: "task_id \<Rightarrow> nat option \<Rightarrow> thread_pool \<Rightarrow> thread_pool" where
  "thread_push t woken s =
     s\<lparr>th_pool := pool_push t (th_pool s),
       th_workers := (case woken of None \<Rightarrow> th_workers s | Some w \<Rightarrow> (th_workers s)(w := Loop))\<rparr>"

text \<open>The overload that takes a pair inserts it and notifies nobody.\<close>

definition thread_push_delayed_pair :: "timer \<Rightarrow> thread_pool \<Rightarrow> thread_pool" where
  "thread_push_delayed_pair e s = s\<lparr>th_pool := pool_push_delayed e (th_pool s)\<rparr>"

definition thread_push_delayed :: "int \<Rightarrow> task_id \<Rightarrow> thread_pool \<Rightarrow> thread_pool" where
  "thread_push_delayed duration t s =
     s\<lparr>th_pool := snd (pool_push_delayed_fn (th_now s) duration t (th_pool s)),
       th_workers := wake_all (th_workers s)\<rparr>"

definition thread_stop :: "thread_pool \<Rightarrow> thread_pool" where
  "thread_stop s = s\<lparr>th_continue := False, th_workers := wake_all (th_workers s)\<rparr>"

definition thread_running :: "thread_pool \<Rightarrow> bool" where
  "thread_running s \<longleftrightarrow> th_continue s"

text \<open>
  One step of \<open>_main\<close> for worker \<open>w\<close>. A sleeping worker that is scheduled was woken
  (its deadline passed, or spuriously) and starts over at the head of the loop.
\<close>

definition worker_main :: "nat \<Rightarrow> thread_pool \<Rightarrow> thread_pool" where
  "worker_main w s =
     (case th_workers s w of
        Loop \<Rightarrow>
          if th_continue s then
            (case pool_pop (th_now s) (th_pool s) of
               (Some t, p') \<Rightarrow> s\<lparr>th_pool := p', th_log := th_log s @ [t]\<rparr>
             | (None, p') \<Rightarrow> s\<lparr>th_pool := p', th_workers := (th_workers s)(w := Locking)\<rparr>)
          else s\<lparr>th_workers := (th_workers s)(w := Draining)\<rparr>
      | Locking \<Rightarrow>
          if pool_ready (th_now s) (th_pool s) then s\<lparr>th_workers := (th_workers s)(w := Loop)\<rparr>
          else if \<not> th_continue s then s\<lparr>th_workers := (th_workers s)(w := Draining)\<rparr>
          else s\<lparr>th_workers := (th_workers s)(w := Sleeping (pool_next (th_pool s)))\<rparr>
      | Sleeping _ \<Rightarrow> s\<lparr>th_workers := (th_workers s)(w := Loop)\<rparr>
      | Draining \<Rightarrow>
          (case pool_pop (th_now s) (th_pool s) of
             (Some t, p') \<Rightarrow> s\<lparr>th_pool := p', th_log := th_log s @ [t]\<rparr>
           | (None, p') \<Rightarrow> s\<lparr>th_pool := p', th_workers := (th_workers s)(w := Exited)\<rparr>)
      | Exited \<Rightarrow> s)"

text \<open>
  The system with \<open>n\<close> workers. \<open>notify_one\<close> wakes one sleeper when there is one.
\<close>

inductive pool_step :: "nat \<Rightarrow> thread_pool \<Rightarrow> thread_pool \<Rightarrow> bool" for n where
  tick: "th_now s \<le> now' \<Longrightarrow> pool_step n s (s\<lparr>th_now := now'\<rparr>)"
| push_wakes: "w < n \<Longrightarrow> is_sleeping (th_workers s w) \<Longrightarrow> pool_step n s (thread_push t (Some w) s)"
| push_quiet: "(\<And>w. w < n \<Longrightarrow> \<not> is_sleeping (th_workers s w)) \<Longrightarrow>
     pool_step n s (thread_push t None s)"
| push_delayed: "pool_step n s (thread_push_delayed duration t s)"
| cancel: "pool_step n s (s\<lparr>th_pool := snd (pool_cancel t (th_pool s))\<rparr>)"
| stop: "pool_step n s (thread_stop s)"
| worker: "w < n \<Longrightarrow> pool_step n s (worker_main w s)"

inductive pool_run :: "nat \<Rightarrow> thread_pool \<Rightarrow> bool" for n where
  start: "pool_run n (thread_pool_start now task_pool_new)"
| step: "pool_run n s \<Longrightarrow> pool_step n s s' \<Longrightarrow> pool_run n s'"

section \<open>No task is stranded\<close>

definition sleep_bound :: "int option \<Rightarrow> task_pool \<Rightarrow> bool" where
  "sleep_bound d p \<longleftrightarrow> (\<forall>e \<in> set (tp_timers p). \<exists>tp. d = Some tp \<and> tp \<le> fst e)"

text \<open>
  While the pool runs no worker drains or is gone; every sleeper's deadline is at most the
  first timer's; and immediate tasks have a worker awake.
\<close>

definition pool_inv :: "nat \<Rightarrow> thread_pool \<Rightarrow> bool" where
  "pool_inv n s \<longleftrightarrow>
     pool_wf (th_pool s) \<and>
     (\<forall>w < n. \<forall>d. th_workers s w = Sleeping d \<longrightarrow> sleep_bound d (th_pool s)) \<and>
     (th_continue s \<longrightarrow>
        (\<forall>w < n. th_workers s w = Loop \<or> th_workers s w = Locking \<or> is_sleeping (th_workers s w)) \<and>
        (tp_tasks (th_pool s) \<noteq> [] \<longrightarrow> (\<exists>w < n. th_workers s w = Loop \<or> th_workers s w = Locking)))"

lemma is_sleeping_iff: "is_sleeping w \<longleftrightarrow> (\<exists>d. w = Sleeping d)"
  by (cases w) (auto simp: is_sleeping_def)

lemma wake_all_simps:
  "wake_all ws w \<noteq> Sleeping d" "is_sleeping (wake_all ws w) = False"
  by (auto simp: wake_all_def is_sleeping_iff)

lemma pool_push_fields [simp, step_simps]:
  "tp_timers (pool_push t p) = tp_timers p" "tp_tasks (pool_push t p) = tp_tasks p @ [t]"
  by (simp_all add: pool_push_def)

lemma sleep_bound_push [simp]: "sleep_bound d (pool_push t p) = sleep_bound d p"
  by (simp add: sleep_bound_def)

lemma cancel_tasks [simp]: "tp_tasks (snd (pool_cancel t p)) = tp_tasks p"
  by (simp add: pool_cancel_def split: option.splits)

lemma cancel_timers: "set (tp_timers (snd (pool_cancel t p))) \<subseteq> set (tp_timers p)"
  by (auto simp: pool_cancel_def split: option.splits dest: in_set_takeD in_set_dropD)

lemma sleep_bound_mono: "sleep_bound d p \<Longrightarrow> set (tp_timers q) \<subseteq> set (tp_timers p) \<Longrightarrow> sleep_bound d q"
  by (auto simp: sleep_bound_def)

lemma pop_timers: "set (tp_timers (snd (pool_pop now p))) \<subseteq> set (tp_timers p)"
  by (auto simp: pool_pop_def split: list.splits dest: in_set_butlastD)

lemma pop_tasks: "tp_tasks p = [] \<Longrightarrow> tp_tasks (snd (pool_pop now p)) = []"
  by (auto simp: pool_pop_def)

lemma next_sleep_bound: "pool_wf p \<Longrightarrow> sleep_bound (pool_next p) p"
  using latest_first_last by (auto simp: sleep_bound_def pool_next_def pool_wf_def)

lemma pop_None: "fst (pool_pop now p) = None \<Longrightarrow> snd (pool_pop now p) = p"
  by (auto simp: pool_pop_def split: list.splits if_splits)

lemma worker_main_inv:
  assumes inv: "pool_inv n s" and w: "w < n"
  shows "pool_inv n (worker_main w s)"
proof -
  obtain r p' where pop: "pool_pop (th_now s) (th_pool s) = (r, p')" by fastforce
  have p': "pool_wf p'" "set (tp_timers p') \<subseteq> set (tp_timers (th_pool s))"
    using inv pop pool_pop_wf [of "th_pool s" "th_now s"] pop_timers [of "th_now s" "th_pool s"]
    by (auto simp: pool_inv_def)
  have none: "p' = th_pool s" if "r = None" using pop_None [of "th_now s" "th_pool s"] pop that by simp
  have bound: "sleep_bound d p'" if "v < n" "th_workers s v = Sleeping d" for v d
    by (rule sleep_bound_mono [OF _ p'(2)]) (use that inv in \<open>simp add: pool_inv_def\<close>)
  show ?thesis
  proof (cases "th_workers s w")
    case Loop
    with inv w p' bound none show ?thesis
      by (cases r) (auto simp: pool_inv_def worker_main_def pop is_sleeping_def)
  next
    case Locking
    have "tp_tasks (th_pool s) = []" if "\<not> pool_ready (th_now s) (th_pool s)"
      using that by (simp add: pool_ready_def)
    with Locking inv w next_sleep_bound [of "th_pool s"] show ?thesis
      by (auto simp: pool_inv_def worker_main_def is_sleeping_def)
  next
    case (Sleeping d)
    with inv w show ?thesis by (auto simp: pool_inv_def worker_main_def is_sleeping_def)
  next
    case Draining
    with inv w p' bound none show ?thesis
      by (cases r) (auto simp: pool_inv_def worker_main_def pop is_sleeping_def)
  next
    case Exited
    with inv show ?thesis by (simp add: worker_main_def)
  qed
qed

lemma pool_step_inv:
  assumes "pool_step n s s'" and "0 < n" and "pool_inv n s"
  shows "pool_inv n s'"
  using assms
proof (induction rule: pool_step.induct)
  case (tick s now')
  then show ?case by (simp add: pool_inv_def)
next
  case (push_wakes w s t)
  then show ?case
    by (auto simp: pool_inv_def thread_push_def pool_push_wf is_sleeping_iff)
next
  case (push_quiet s t)
  then show ?case
    by (auto simp: pool_inv_def thread_push_def pool_push_wf)
next
  case (push_delayed s duration t)
  then have "th_continue s \<Longrightarrow> w < n \<Longrightarrow> wake_all (th_workers s) w = Loop \<or>
      wake_all (th_workers s) w = Locking" for w
    by (auto simp: pool_inv_def wake_all_def)
  with push_delayed show ?case
    by (auto simp: pool_inv_def thread_push_delayed_def pool_push_delayed_fn_def
        pool_push_delayed_wf wake_all_simps)
next
  case (cancel s t)
  then show ?case
    using sleep_bound_mono [OF _ cancel_timers [of t "th_pool s"]]
    by (auto simp: pool_inv_def pool_cancel_wf)
next
  case (stop s)
  then show ?case by (auto simp: pool_inv_def thread_stop_def wake_all_simps)
next
  case (worker w s)
  then show ?case by (blast intro: worker_main_inv)
qed

lemma pool_run_inv: "pool_run n s \<Longrightarrow> 0 < n \<Longrightarrow> pool_inv n s"
proof (induction rule: pool_run.induct)
  case (start now)
  then show ?case
    by (auto simp: pool_inv_def thread_pool_start_def task_pool_new_def pool_wf_def)
next
  case (step s s')
  then show ?case by (blast intro: pool_step_inv)
qed

section \<open>Properties\<close>

text \<open>
  (C18) \<open>TaskPool::pop\<close> implements the abstract scheduler: immediate tasks in the order they
  were pushed, then a timer of least deadline once that deadline has passed, and nothing
  before that.
\<close>
theorem task_pool_pop_refines:
  assumes "pool_wf p"
  shows "spec_pop now (abs_pool p) (fst (pool_pop now p)) (abs_pool (snd (pool_pop now p))) \<and>
    pool_wf (snd (pool_pop now p)) \<and> (pool_ready now p \<longleftrightarrow> fst (pool_pop now p) \<noteq> None)"
  using pool_pop_refines [OF assms] pool_pop_wf [OF assms] pool_ready_iff by blast

theorem task_pool_pop_refines_witness:
  "pool_wf \<lparr>tp_tasks = [], tp_timers = [(30, Some 1), (10, Some 2)]\<rparr> \<and>
   pool_ready 15 \<lparr>tp_tasks = [], tp_timers = [(30, Some 1), (10, Some 2)]\<rparr>"
  using task_pool_pop_refines [of "\<lparr>tp_tasks = [], tp_timers = [(30, Some 1), (10, Some 2)]\<rparr>" 15]
  by (simp add: pool_wf_def pool_pop_def)

text \<open>
  \<open>delay\<close> to a deadline no earlier than the old one keeps the timers in order and changes
  exactly that timer's deadline, and an unknown task changes nothing.
\<close>
theorem task_pool_delay_later:
  assumes "pool_wf p"
    and "\<And>i. timer_index t (tp_timers p) = Some i \<Longrightarrow> fst (tp_timers p ! i) \<le> now + duration"
  shows "pool_wf (pool_delay now t duration p) \<and>
    tp_tasks (pool_delay now t duration p) = tp_tasks p \<and>
    mset (tp_timers (pool_delay now t duration p)) =
      (case timer_index t (tp_timers p) of
         None \<Rightarrow> mset (tp_timers p)
       | Some i \<Rightarrow> add_mset (now + duration, Some t) (mset (tp_timers p) - {#tp_timers p ! i#}))"
proof (cases "timer_index t (tp_timers p)")
  case None
  with assms(1) show ?thesis by (simp add: pool_delay_def)
next
  case (Some i)
  with assms timer_index_Some [OF Some] delayed_timers [of "tp_timers p" i "now + duration" "Some t"]
  show ?thesis by (simp add: pool_delay_def pool_wf_def)
qed

theorem task_pool_delay_later_witness:
  "pool_wf (pool_delay 5 2 50 \<lparr>tp_tasks = [], tp_timers = [(30, Some 1), (10, Some 2)]\<rparr>) \<and>
   (10::int) \<le> 5 + 50"
  using task_pool_delay_later [of "\<lparr>tp_tasks = [], tp_timers = [(30, Some 1), (10, Some 2)]\<rparr>" 2 5 50]
  by (simp add: pool_wf_def)

text \<open>
  \<open>delay\<close> to an earlier deadline does not move the timer towards the back: a timer whose
  deadline has passed can stay behind one that is not due, and \<open>pop\<close> answers nothing.
\<close>
theorem task_pool_delay_earlier_blocks:
  "\<exists>p t duration now. pool_wf p \<and> \<not> pool_wf (pool_delay now t duration p) \<and>
     (\<exists>e \<in> set (tp_timers (pool_delay now t duration p)). fst e \<le> now) \<and>
     fst (pool_pop now (pool_delay now t duration p)) = None"
  by (rule exI [of _ "\<lparr>tp_tasks = [], tp_timers = [(30, Some 1), (10, Some 2)]\<rparr>"],
      rule exI [of _ 1], rule exI [of _ 0], rule exI [of _ 5])
    (simp add: pool_wf_def pool_delay_def pool_pop_def)

text \<open>
  \<open>pop(task_id)\<close> hands the entry over but leaves a null task with the same deadline in
  the vector, which a later \<open>pop()\<close> hands to a worker.
\<close>
theorem task_pool_pop_id_leaves_null:
  assumes "pool_pop_id t p = (Some e, p')"
  shows "snd e = Some t \<and> length (tp_timers p') = length (tp_timers p) \<and>
    (fst e, None) \<in> set (tp_timers p') \<and>
    (tp_tasks p = [] \<and> tp_timers p = [e] \<longrightarrow> fst (pool_pop (fst e) p') = Some None)"
proof -
  from assms obtain i where i: "timer_index t (tp_timers p) = Some i" "e = tp_timers p ! i"
      "p' = p\<lparr>tp_timers := (tp_timers p)[i := (fst e, None)]\<rparr>"
    by (auto simp: pool_pop_id_def split: option.splits)
  have "tp_timers p' = [(fst e, None)]" if "tp_timers p = [e]"
    using that timer_index_Some [OF i(1)] i(3) by simp
  moreover have "tp_tasks p' = tp_tasks p" using i(3) by simp
  moreover have "(fst e, None) \<in> set (tp_timers p')"
    using timer_index_Some [OF i(1)] i(3) by (simp add: set_update_memI)
  ultimately show ?thesis using i timer_index_Some [OF i(1)] by (simp add: pool_pop_def)
qed

theorem task_pool_pop_id_leaves_null_witness:
  "pool_pop_id 4 \<lparr>tp_tasks = [], tp_timers = [(10, Some 4)]\<rparr> =
     (Some (10, Some 4), \<lparr>tp_tasks = [], tp_timers = [(10, None)]\<rparr>) \<and>
   fst (pool_pop 10 \<lparr>tp_tasks = [], tp_timers = [(10, None)]\<rparr>) = Some None"
proof -
  have h: "pool_pop_id 4 \<lparr>tp_tasks = [], tp_timers = [(10, Some 4)]\<rparr> =
     (Some (10, Some 4), \<lparr>tp_tasks = [], tp_timers = [(10, None)]\<rparr>)"
    by (simp add: pool_pop_id_def)
  from task_pool_pop_id_leaves_null [OF h] h show ?thesis by simp
qed

text \<open>
  (C7) In every interleaving of pushes, delayed pushes, cancellations and worker steps, while
  the thread pool runs and a task is ready, some worker is awake or its timed sleep has
  expired: no ready task waits for a push that never comes.
\<close>
theorem thread_pool_no_stranded_task:
  assumes "pool_run n s" and "0 < n" and "th_continue s" and "pool_ready (th_now s) (th_pool s)"
  shows "\<exists>w < n. th_workers s w = Loop \<or> th_workers s w = Locking \<or>
    (\<exists>tp. th_workers s w = Sleeping (Some tp) \<and> tp \<le> th_now s)"
proof -
  have inv: "pool_inv n s" using assms(1,2) by (rule pool_run_inv)
  show ?thesis
  proof (cases "tp_tasks (th_pool s) = []")
    case True
    with assms(4) have ne: "tp_timers (th_pool s) \<noteq> []"
      and due: "fst (last (tp_timers (th_pool s))) \<le> th_now s" by (auto simp: pool_ready_def)
    from inv assms(2,3) consider "th_workers s 0 = Loop" | "th_workers s 0 = Locking"
      | d where "th_workers s 0 = Sleeping d"
      by (auto simp: pool_inv_def is_sleeping_iff)
    then show ?thesis
    proof cases
      case (3 d)
      with inv assms(2) have "sleep_bound d (th_pool s)" by (auto simp: pool_inv_def)
      with ne obtain tp where "d = Some tp" "tp \<le> fst (last (tp_timers (th_pool s)))"
        by (auto simp: sleep_bound_def dest: bspec [OF _ last_in_set])
      with due 3 assms(2) show ?thesis by force
    qed (use assms(2) in blast)+
  next
    case False
    with inv assms(3) show ?thesis by (auto simp: pool_inv_def)
  qed
qed

theorem thread_pool_no_stranded_task_witness:
  "\<exists>s. pool_run 2 s \<and> pool_ready (th_now s) (th_pool s) \<and>
     (\<exists>w < 2. th_workers s w = Loop \<or> th_workers s w = Locking \<or>
       (\<exists>tp. th_workers s w = Sleeping (Some tp) \<and> tp \<le> th_now s))"
proof -
  let ?s = "thread_push 9 None (thread_pool_start 0 task_pool_new)"
  have r: "pool_run 2 ?s"
    by (rule pool_run.step [OF pool_run.start pool_step.push_quiet])
      (simp add: thread_pool_start_def is_sleeping_def)
  have d: "th_continue ?s" "pool_ready (th_now ?s) (th_pool ?s)"
    by (simp_all add: thread_push_def thread_pool_start_def pool_ready_def pool_push_def)
  from thread_pool_no_stranded_task [OF r _ d] r d show ?thesis by force
qed

text \<open>
  After a stop a worker runs, in this order, every immediate task and every timer whose
  deadline has passed, earliest first; timers that are not due are never run.
\<close>
theorem thread_pool_drain_runs_due:
  assumes "pool_wf p"
  shows "pool_drain now p =
    (map Some (tp_tasks p) @ map snd (rev (filter (\<lambda>e. fst e \<le> now) (tp_timers p))),
     p\<lparr>tp_tasks := [], tp_timers := filter (\<lambda>e. now < fst e) (tp_timers p)\<rparr>)"
  using assms pool_drain_eq [of "tp_timers p" now "tp_tasks p"]
  by (cases p) (simp add: pool_wf_def)

theorem thread_pool_drain_runs_due_witness:
  "fst (pool_drain 20 \<lparr>tp_tasks = [7], tp_timers = [(30, Some 1), (15, Some 2), (10, Some 3)]\<rparr>) =
     [Some 7, Some 3, Some 2]"
  using thread_pool_drain_runs_due
    [of "\<lparr>tp_tasks = [7], tp_timers = [(30, Some 1), (15, Some 2), (10, Some 3)]\<rparr>" 20]
  by (simp add: pool_wf_def)

end
