(* ===== verification/Video_Packets.thy ===== *)
theory Video_Packets
  imports Prelude
begin

text \<open>
  How \<open>src/stream.cpp\<close> turns an encoded frame into packets: the short frame header, the
  payload cut into slices with room for a packet header before each
  (\<open>concat_and_insert\<close>), the split of the result into at most four FEC blocks, and
  \<open>fec::encode\<close>. Lengths are \<open>size_t\<close> values as naturals; a division by zero or an
  exception of the standard library is \<open>None\<close>. The sizes of the packet structs of
  moonlight-common-c, the shard limit of the Reed-Solomon library and its encoder are
  arguments.
\<close>

section \<open>Cutting a list into pieces\<close>

fun chunks :: "nat \<Rightarrow> 'a list \<Rightarrow> 'a list list" where
  "chunks n xs = (if n = 0 \<or> xs = [] then [] else take n xs # chunks n (drop n xs))"

declare chunks.simps [simp del]

lemma chunks_Nil [simp]: "chunks n [] = []"
  by (simp add: chunks.simps)

lemma chunks_step: "0 < n \<Longrightarrow> xs \<noteq> [] \<Longrightarrow> chunks n xs = take n xs # chunks n (drop n xs)"
  by (subst chunks.simps) simp

lemma concat_chunks: "0 < n \<Longrightarrow> concat (chunks n xs) = xs"
proof (induction n xs rule: chunks.induct)
  case (1 n xs)
  then show ?case by (cases "xs = []") (simp_all add: chunks_step)
qed

definition ceil_div :: "nat \<Rightarrow> nat \<Rightarrow> nat" where
  "ceil_div a b = (a + (b - 1)) div b"

text \<open>The quotient plus one for a remainder, as the code writes it elsewhere.\<close>

definition div_pad :: "nat \<Rightarrow> nat \<Rightarrow> nat" where
  "div_pad a b = a div b + (if a mod b \<noteq> 0 then 1 else 0)"

lemma ceil_div_le: "0 < b \<Longrightarrow> ceil_div a b \<le> n \<longleftrightarrow> a \<le> n * b"
proof -
  assume b: "0 < b"
  then have "ceil_div a b < Suc n \<longleftrightarrow> a + (b - 1) < Suc n * b"
    unfolding ceil_div_def by (rule div_less_iff_less_mult)
  with b show ?thesis by auto
qed

lemma div_pad_le: "0 < b \<Longrightarrow> div_pad a b \<le> n \<longleftrightarrow> a \<le> n * b"
proof (cases "a mod b = 0")
  case True
  assume b: "0 < b"
  from True have a: "a = a div b * b" using div_mult_mod_eq [of a b] by simp
  then have "a \<le> n * b \<longleftrightarrow> a div b * b \<le> n * b" by simp
  also have "\<dots> \<longleftrightarrow> a div b \<le> n" using b by simp
  finally show ?thesis using True by (simp add: div_pad_def)
next
  case False
  assume b: "0 < b"
  from False have "a \<noteq> n * b" by auto
  with False div_less_iff_less_mult [OF b, of a n] show ?thesis by (auto simp: div_pad_def)
qed

lemma div_pad_ceil_div: "0 < b \<Longrightarrow> div_pad a b = ceil_div a b"
  by (meson ceil_div_le div_pad_le le_antisym order_refl)

lemma ceil_div_mult: "0 < b \<Longrightarrow> a \<le> ceil_div a b * b"
  using ceil_div_le [of b a "ceil_div a b"] by simp

lemma ceil_div_mult_less: "0 < b \<Longrightarrow> ceil_div a b * b < a + b"
  using div_times_less_eq_dividend [of "a + (b - 1)" b] unfolding ceil_div_def by linarith

lemma ceil_div_exact: "0 < b \<Longrightarrow> ceil_div (n * b) b = n"
  by (meson ceil_div_le le_antisym mult_le_cancel2 order_refl)

lemma length_chunks: "0 < n \<Longrightarrow> length (chunks n xs) = ceil_div (length xs) n"
proof (induction n xs rule: chunks.induct)
  case (1 n xs)
  show ?case
  proof (cases "xs = []")
    case True
    with 1 show ?thesis by (simp add: ceil_div_def)
  next
    case False
    have "ceil_div (length xs) n = Suc (ceil_div (length xs - n) n)"
    proof (cases "length xs \<le> n")
      case True
      then have "ceil_div (length xs) n \<le> 1" using "1.prems" by (simp add: ceil_div_le)
      moreover have "\<not> ceil_div (length xs) n \<le> 0"
        using "1.prems" False by (simp only: ceil_div_le) simp
      ultimately show ?thesis using True "1.prems" by (simp add: ceil_div_def)
    next
      case False
      then have "length xs + (n - 1) = length xs - n + (n - 1) + n" by simp
      then show ?thesis using "1.prems" by (simp only: ceil_div_def div_add_self2)
    qed
    with False 1 show ?thesis by (simp add: chunks_step)
  qed
qed

lemma chunks_nth:
  "0 < n \<Longrightarrow> i < length (chunks n xs) \<Longrightarrow> chunks n xs ! i = take n (drop (i * n) xs)"
proof (induction n xs arbitrary: i rule: chunks.induct)
  case (1 n xs)
  show ?case
  proof (cases "xs = []")
    case False
    with 1 show ?thesis by (cases i) (auto simp: chunks_step add.commute)
  qed (use 1 in simp)
qed

section \<open>concat_and_insert\<close>

text \<open>
  The loop of \<open>concat_and_insert\<close> for slice \<open>x\<close>: \<open>cur\<close> is what is left of the buffer
  \<open>next\<close> points into. The result buffer is zero-filled and each slice lands behind
  \<open>insert_size\<close> bytes of it.
\<close>

function concat_and_insert_loop ::
  "nat \<Rightarrow> nat \<Rightarrow> nat \<Rightarrow> nat \<Rightarrow> bytes \<Rightarrow> bytes \<Rightarrow> nat \<Rightarrow> bytes" where
  "concat_and_insert_loop insert_size slice_size data_size elements data2 cur x =
     (if x < elements then
        let n = (if x = elements - 1 then data_size - x * slice_size else slice_size);
            (out, cur') =
              (if length cur < n
               then (cur @ take (n - length cur) data2, drop (n - length cur) data2)
               else (take n cur, drop n cur))
        in replicate insert_size 0 @ out @
           concat_and_insert_loop insert_size slice_size data_size elements data2 cur' (Suc x)
      else [])"
  by pat_completeness auto
termination
  by (relation "measure (\<lambda>(_, _, _, elements, _, _, x). elements - x)") auto

declare concat_and_insert_loop.simps [simp del]

definition concat_and_insert :: "nat \<Rightarrow> nat \<Rightarrow> bytes \<Rightarrow> bytes \<Rightarrow> bytes option" where
  "concat_and_insert insert_size slice_size data1 data2 =
     (if slice_size = 0 then None
      else
        let data_size = length data1 + length data2;
            elements = div_pad data_size slice_size
        in Some (concat_and_insert_loop insert_size slice_size data_size elements data2 data1 0))"

definition with_headers :: "nat \<Rightarrow> bytes list \<Rightarrow> bytes" where
  "with_headers n ss = concat (map (\<lambda>s. replicate n 0 @ s) ss)"

lemma concat_and_insert_loop_chunks:
  assumes "0 < sl" and "data = data1 @ data2" and "els = ceil_div (length data) sl"
    and "cur @ data2 = drop (x * sl) data \<or> cur = drop (x * sl) data"
  shows "concat_and_insert_loop ins sl (length data) els data2 cur x =
    with_headers ins (chunks sl (drop (x * sl) data))"
  using assms
proof (induction "els - x" arbitrary: x cur)
  case 0
  then have "length data \<le> x * sl" by (simp add: ceil_div_le [symmetric])
  moreover have "\<not> x < els" using 0 by simp
  ultimately show ?case by (subst concat_and_insert_loop.simps) (simp add: with_headers_def)
next
  case (Suc k)
  then have x: "x < els" by simp
  then have "\<not> ceil_div (length data) sl \<le> x" using Suc.prems(3) by simp
  then have rest: "x * sl < length data" using Suc.prems(1) by (simp add: ceil_div_le)
  let ?rest = "drop (x * sl) data"
  let ?n = "if x = els - 1 then length data - x * sl else sl"
  have last: "length data - x * sl \<le> sl" if "x = els - 1"
  proof -
    from that x have "els = Suc x" by simp
    then have "length data \<le> Suc x * sl" using Suc.prems(1,3) by (metis ceil_div_mult)
    then show ?thesis by simp
  qed
  have full: "sl \<le> length data - x * sl" if "x \<noteq> els - 1"
  proof -
    from that x have "\<not> ceil_div (length data) sl \<le> Suc x" using Suc.prems(3) by simp
    then show ?thesis using Suc.prems(1) by (simp add: ceil_div_le)
  qed
  have n: "take ?n ?rest = take sl ?rest" "?n \<le> length ?rest"
    "drop ?n ?rest = drop (Suc x * sl) data"
    using last full by (auto simp: add.commute)
  have "(cur' @ data2 = drop (Suc x * sl) data \<or> cur' = drop (Suc x * sl) data) \<and>
      out = take sl ?rest"
    if "(out, cur') = (if length cur < ?n
          then (cur @ take (?n - length cur) data2, drop (?n - length cur) data2)
          else (take ?n cur, drop ?n cur))" for out cur'
    using Suc.prems(4)
  proof
    assume c: "cur @ data2 = ?rest"
    then have "take ?n (cur @ data2) = take sl ?rest"
      "drop ?n (cur @ data2) = drop (Suc x * sl) data" using n by simp_all
    with that show ?thesis by (auto split: if_splits)
  next
    assume c: "cur = ?rest"
    then have "\<not> length cur < ?n" using n(2) by simp
    with that c n show ?thesis by (simp split del: if_split)
  qed
  note step = this
  obtain out cur' where oc: "(out, cur') = (if length cur < ?n
          then (cur @ take (?n - length cur) data2, drop (?n - length cur) data2)
          else (take ?n cur, drop ?n cur))" by (metis surj_pair)
  have "concat_and_insert_loop ins sl (length data) els data2 cur' (Suc x) =
      with_headers ins (chunks sl (drop (Suc x * sl) data))"
    using Suc.hyps(2) step [OF oc] Suc.prems(2,3) by (intro Suc.hyps(1)) (auto simp: Suc.prems(1))
  moreover have "chunks sl ?rest = take sl ?rest # chunks sl (drop (Suc x * sl) data)"
    using rest Suc.prems(1) by (simp add: chunks_step add.commute)
  ultimately show ?case
    using x step [OF oc]
    by (subst concat_and_insert_loop.simps)
      (simp only: Let_def oc [symmetric] if_True prod.case, simp add: with_headers_def)
qed

lemma concat_and_insert_eq:
  assumes "0 < sl"
  shows "concat_and_insert ins sl d1 d2 = Some (with_headers ins (chunks sl (d1 @ d2)))"
  using assms concat_and_insert_loop_chunks [of sl "d1 @ d2" d1 d2 _ d1 0 ins]
  by (simp add: concat_and_insert_def Let_def div_pad_ceil_div)

section \<open>Replacing a byte sequence\<close>

text \<open>\<open>std::search\<close>: what is before and after the first occurrence.\<close>

fun search_split :: "bytes \<Rightarrow> bytes \<Rightarrow> (bytes \<times> bytes) option" where
  "search_split pat [] = (if pat = [] then Some ([], []) else None)"
| "search_split pat (x # xs) =
     (if take (length pat) (x # xs) = pat then Some ([], drop (length pat) (x # xs))
      else map_option (\<lambda>(a, b). (x # a, b)) (search_split pat xs))"

text \<open>
  The capacity asked for is an unsigned difference: when it is negative \<open>reserve\<close> throws.
\<close>

definition replace_bytes :: "bytes \<Rightarrow> bytes \<Rightarrow> bytes \<Rightarrow> bytes option" where
  "replace_bytes original old new =
     (if length original + length new < length old then None
      else Some (case search_split old original of
          None \<Rightarrow> original
        | Some (before, after) \<Rightarrow> before @ new @ after))"

lemma search_split_Some:
  "search_split pat xs = Some (a, b) \<Longrightarrow>
   xs = a @ pat @ b \<and> (\<forall>c d. length c < length a \<longrightarrow> xs \<noteq> c @ pat @ d)"
proof (induction pat xs arbitrary: a b rule: search_split.induct)
  case (2 pat x xs)
  show ?case
  proof (cases "take (length pat) (x # xs) = pat")
    case True
    with "2.prems" show ?thesis
      using append_take_drop_id [of "length pat" "x # xs"] by auto
  next
    case False
    with "2.prems" obtain a' where a: "a = x # a'" "search_split pat xs = Some (a', b)" by auto
    have "x # xs \<noteq> c @ pat @ d" if "length c < length a" for c d
    proof (cases c)
      case Nil
      with False show ?thesis by (metis append_Nil append_eq_conv_conj)
    next
      case (Cons y c')
      with that a "2.IH" [OF False a(2)] show ?thesis by auto
    qed
    with a "2.IH" [OF False a(2)] show ?thesis by simp
  qed
qed (auto split: if_splits)

lemma search_split_None: "search_split pat xs = None \<Longrightarrow> xs \<noteq> a @ pat @ b"
proof (induction pat xs arbitrary: a rule: search_split.induct)
  case (2 pat x xs)
  then have n: "take (length pat) (x # xs) \<noteq> pat" "search_split pat xs = None"
    by (auto split: if_splits)
  show ?case
  proof (cases a)
    case Nil
    with n(1) show ?thesis by (metis append_Nil append_eq_conv_conj)
  next
    case (Cons y a')
    with "2.IH" [OF n] show ?thesis by auto
  qed
qed (auto split: if_splits)

section \<open>The frame and its FEC blocks\<close>

text \<open>
  The constants of the two libraries: the sizes of \<open>RTP_PACKET\<close> and \<open>NV_VIDEO_PACKET\<close>,
  \<open>MAX_RTP_HEADER_SIZE\<close>, \<open>DATA_SHARDS_MAX\<close> and the flag bits.
\<close>

record video_protocol =
  vp_rtp_size :: nat
  vp_nv_size :: nat
  vp_max_rtp_header :: nat
  vp_data_shards_max :: nat
  vp_flag_pic_data :: u8
  vp_flag_sof :: u8
  vp_flag_eof :: u8
  vp_flag_extension :: u8

definition video_packet_raw_size :: "video_protocol \<Rightarrow> nat" where
  "video_packet_raw_size pr = vp_rtp_size pr + 4 + vp_nv_size pr"

text \<open>\<open>size_t\<close> subtraction.\<close>

definition size_sub :: "nat \<Rightarrow> nat \<Rightarrow> nat" where
  "size_sub a b = nat ((int a - int b) mod 2 ^ 64)"

lemma size_sub_ge: "b \<le> a \<Longrightarrow> a < 2 ^ 64 \<Longrightarrow> size_sub a b = a - b"
proof -
  assume "b \<le> a" and "a < 2 ^ 64"
  then have "int a < 2 ^ 64" by (metis of_nat_less_iff of_nat_numeral of_nat_power)
  with \<open>b \<le> a\<close> have "(int a - int b) mod 2 ^ 64 = int a - int b"
    by (intro mod_pos_pos_trivial) auto
  with \<open>b \<le> a\<close> show ?thesis by (simp add: size_sub_def)
qed

definition duration_to_latency :: "int \<Rightarrow> nat" where
  "duration_to_latency duration_us = nat (max 0 (min 65535 ((duration_us + 50) div 100)))"

text \<open>The length of the last slice, kept in 16 bits.\<close>

definition last_payload_len :: "video_protocol \<Rightarrow> nat \<Rightarrow> nat \<Rightarrow> nat option" where
  "last_payload_len pr packetsize payload_size =
     (let m = size_sub packetsize (vp_nv_size pr) in
      if m = 0 then None
      else let n = (payload_size + 8) mod m mod 2 ^ 16
           in Some (if n = 0 then m mod 2 ^ 16 else n))"

definition video_frame_header ::
  "video_protocol \<Rightarrow> bool \<Rightarrow> bool \<Rightarrow> int option \<Rightarrow> nat \<Rightarrow> nat \<Rightarrow> bytes option" where
  "video_frame_header pr idr after_rfi duration_us packetsize payload_size =
     map_option
       (\<lambda>last.
          [1] @
          le_bytes 2 (case duration_us of None \<Rightarrow> 0 | Some d \<Rightarrow> duration_to_latency d) @
          [if idr then 2 else if after_rfi then 5 else 1] @
          le_bytes 2 last @ [0, 0])
       (last_payload_len pr packetsize payload_size)"

definition max_fec_blocks :: nat where
  "max_fec_blocks = 4"

definition max_data_shards_per_fec_block :: "nat \<Rightarrow> nat \<Rightarrow> nat" where
  "max_data_shards_per_fec_block shards_max fec_percentage = (shards_max * 100) div (100 + fec_percentage)"

text \<open>
  The split of the payload, with the FEC percentage that is left for the frame.
  \<open>substr\<close> throws when it starts behind the end.
\<close>

definition fec_block :: "bytes \<Rightarrow> nat \<Rightarrow> nat \<Rightarrow> nat \<Rightarrow> bytes option" where
  "fec_block payload aligned_size needed x =
     (if length payload < x * aligned_size then None
      else if x = needed - 1 then Some (drop (x * aligned_size) payload)
      else Some (take aligned_size (drop (x * aligned_size) payload)))"

fun option_list :: "'a option list \<Rightarrow> 'a list option" where
  "option_list [] = Some []"
| "option_list (x # xs) =
     (case x of None \<Rightarrow> None | Some y \<Rightarrow> map_option (Cons y) (option_list xs))"

definition fec_split :: "nat \<Rightarrow> nat \<Rightarrow> nat \<Rightarrow> bytes \<Rightarrow> (nat \<times> bytes list) option" where
  "fec_split shards_max fec_percentage blocksize payload =
     (let max_data_per_fec_block =
            max_data_shards_per_fec_block shards_max fec_percentage * blocksize in
      if max_data_per_fec_block = 0 then None
      else
        let fec_blocks_needed =
              (length payload + (max_data_per_fec_block - 1)) div max_data_per_fec_block;
            (fec, needed) =
              (if max_fec_blocks < fec_blocks_needed then (0, max_fec_blocks)
               else (fec_percentage, fec_blocks_needed))
        in if needed = 0 then None
           else
             let unaligned_size = length payload div needed;
                 aligned_size = (unaligned_size + (blocksize - 1)) div blocksize * blocksize
             in map_option (Pair fec)
                  (option_list (map (fec_block payload aligned_size needed) [0..<needed])))"

lemma option_list_map_Some: "(\<And>x. x \<in> set xs \<Longrightarrow> f x = Some (g x)) \<Longrightarrow> option_list (map f xs) = Some (map g xs)"
  by (induction xs) auto

lemma concat_blocks:
  "m * a \<le> length xs \<Longrightarrow>
   concat (map (\<lambda>x. take a (drop (x * a) xs)) [0..<m]) = take (m * a) xs"
proof (induction m)
  case (Suc m)
  have "take (Suc m * a) xs = take (m * a) xs @ take a (drop (m * a) xs)"
    by (metis add.commute mult_Suc take_add)
  with Suc show ?case by simp
qed simp

text \<open>Block boundaries stay inside the payload, and no block is longer than the limit.\<close>

lemma aligned_size_bounds:
  fixes bs m n len :: nat
  assumes "0 < bs" and "0 < m" and "0 < n" and "len \<le> n * (m * bs)" and "(n - 1) * (m * bs) < len"
  defines "a \<equiv> (len div n + (bs - 1)) div bs * bs"
  shows "a \<le> m * bs" and "(n - 1) * a \<le> len"
proof -
  from assms(4) have "len div n \<le> m * bs"
    by (metis assms(3) div_le_mono nonzero_mult_div_cancel_left less_not_refl2)
  then have "ceil_div (len div n) bs \<le> m" using assms(1) by (simp add: ceil_div_le)
  then show a: "a \<le> m * bs" unfolding a_def ceil_div_def by (rule mult_le_mono1)
  have "(n - 1) * a \<le> (n - 1) * (m * bs)" using a by (rule mult_le_mono2)
  with assms(5) show "(n - 1) * a \<le> len" by linarith
qed

lemma last_block_bound:
  fixes bs n len :: nat
  assumes "0 < bs" and "0 < n" and "n \<le> 4" and "4 \<le> bs" and "len mod bs = 0 \<or> 4 \<le> len mod bs"
  defines "a \<equiv> (len div n + (bs - 1)) div bs * bs"
  shows "len - (n - 1) * a \<le> a"
proof -
  let ?q = "len div n"
  have q: "?q \<le> a" using ceil_div_mult [OF assms(1), of ?q] by (simp add: a_def ceil_div_def)
  have len: "len = n * ?q + len mod n" by simp
  have r: "len mod n < n" using assms(2) by simp
  have "len \<le> n * a"
  proof (rule ccontr)
    assume "\<not> len \<le> n * a"
    have "a = ?q"
    proof (rule ccontr)
      assume "a \<noteq> ?q"
      with q have "Suc ?q \<le> a" by simp
      then have "n * Suc ?q \<le> n * a" by (rule mult_le_mono2)
      then have "n * ?q + n \<le> n * a" by simp
      with len r \<open>\<not> len \<le> n * a\<close> show False by linarith
    qed
    have "0 < len mod n"
    proof (rule ccontr)
      assume "\<not> 0 < len mod n"
      with len have "len = n * ?q" by linarith
      with \<open>\<not> len \<le> n * a\<close> \<open>a = ?q\<close> show False by simp
    qed
    have "bs dvd n * ?q" using \<open>a = ?q\<close> by (metis a_def dvd_mult dvd_triv_right)
    then have "len mod bs = len mod n mod bs"
      by (metis len dvd_eq_mod_eq_0 add.left_neutral mod_add_left_eq)
    also have "\<dots> = len mod n" using r assms(3,4) by simp
    finally show False using assms(5) r assms(3) \<open>0 < len mod n\<close> by simp
  qed
  moreover have "n * a = (n - 1) * a + a" using assms(2) by (cases n) simp_all
  ultimately show ?thesis by simp
qed

lemma fec_limit:
  assumes "D \<le> max_data_shards_per_fec_block shards_max fec"
  shows "D + ceil_div (D * fec) 100 \<le> shards_max"
proof -
  have "D * (100 + fec) \<le> shards_max * 100"
    using assms unfolding max_data_shards_per_fec_block_def
    by (metis div_times_less_eq_dividend le_trans mult_le_mono1)
  then have "D * fec + D * 100 \<le> shards_max * 100" by (simp add: algebra_simps)
  moreover from this have "D \<le> shards_max" by simp
  ultimately have "D * fec \<le> (shards_max - D) * 100" by (simp add: diff_mult_distrib)
  then have "ceil_div (D * fec) 100 \<le> shards_max - D" by (simp add: ceil_div_le)
  with \<open>D \<le> shards_max\<close> show ?thesis by simp
qed

lemma fec_split_blocks:
  assumes "0 < n" and "a = (length payload div n + (bs - 1)) div bs * bs"
    and "(n - 1) * a \<le> length payload"
  shows "\<exists>blocks. option_list (map (fec_block payload a n) [0..<n]) = Some blocks \<and>
    concat blocks = payload \<and> length blocks = n \<and>
    (\<forall>b \<in> set (butlast blocks). length b = a) \<and>
    length (last blocks) = length payload - (n - 1) * a"
proof -
  let ?g = "\<lambda>x. if x = n - 1 then drop (x * a) payload else take a (drop (x * a) payload)"
  obtain m where n: "n = Suc m" using assms(1) by (cases n) auto
  have le: "x * a \<le> length payload" if "x < n" for x
  proof -
    from that n have "x * a \<le> (n - 1) * a" by (intro mult_le_mono1) simp
    then show ?thesis using assms(3) by (rule order_trans)
  qed
  then have some: "option_list (map (fec_block payload a n) [0..<n]) = Some (map ?g [0..<n])"
    by (intro option_list_map_Some) (auto simp: fec_block_def not_less)
  have split: "map ?g [0..<n] =
      map (\<lambda>x. take a (drop (x * a) payload)) [0..<m] @ [drop (m * a) payload]"
    by (simp add: n)
  have "concat (map ?g [0..<n]) = take (m * a) payload @ drop (m * a) payload"
    unfolding split using assms(3) n by (simp add: concat_blocks)
  moreover have "length (take a (drop (x * a) payload)) = a" if "x < m" for x
  proof -
    from that have "Suc x * a \<le> m * a" by (intro mult_le_mono1) simp
    with assms(3) n show ?thesis by simp
  qed
  ultimately show ?thesis unfolding some split using n by auto
qed

lemma fec_split_result:
  assumes bs: "4 \<le> bs" and fec: "fec \<le> 255" and smax: "255 \<le> shards_max"
    and ne: "payload \<noteq> []"
  shows "\<exists>fec' blocks a. fec_split shards_max fec bs payload = Some (fec', blocks) \<and>
    concat blocks = payload \<and> blocks \<noteq> [] \<and> length blocks \<le> 4 \<and>
    (\<forall>b \<in> set (butlast blocks). length b = a) \<and>
    length (last blocks) = length payload - (length blocks - 1) * a \<and>
    a = (length payload div length blocks + (bs - 1)) div bs * bs \<and>
    (length blocks - 1) * a < length payload \<and> length blocks \<le> length payload \<and>
    (fec' = fec \<and> a \<le> max_data_shards_per_fec_block shards_max fec * bs \<or> fec' = 0)"
proof -
  let ?m = "max_data_shards_per_fec_block shards_max fec" and ?len = "length payload"
  have "71 * (100 + fec) \<le> shards_max * 100" using fec smax by simp
  then have m: "71 \<le> ?m"
    unfolding max_data_shards_per_fec_block_def
    by (metis add_gr_0 less_eq_div_iff_mult_less_eq zero_less_numeral)
  then have mb: "0 < ?m * bs" using bs by simp
  let ?k = "ceil_div ?len (?m * bs)"
  have k0: "0 < ?k" using ne mb ceil_div_le [OF mb, of ?len 0] by simp
  show ?thesis
  proof (cases "4 < ?k")
    case True
    let ?a = "(?len div 4 + (bs - 1)) div bs * bs"
    have "\<not> ?len \<le> 4 * (?m * bs)" using True by (simp add: ceil_div_le [OF mb, symmetric])
    then have big: "4 * (71 * bs) < ?len"
      using m by (metis mult_le_mono1 mult_le_mono2 not_less order.strict_trans1 not_le)
    have "?a < ?len div 4 + bs"
      using ceil_div_mult_less [of bs "?len div 4"] bs by (simp add: ceil_div_def)
    with big have lt: "(4 - 1) * ?a < ?len" by simp
    have "4 \<le> ?len" using big bs by simp
    with fec_split_blocks [OF _ refl less_imp_le [OF lt]] lt True mb ne m show ?thesis
      by (fastforce simp: fec_split_def Let_def ceil_div_def max_fec_blocks_def)
  next
    case False
    let ?a = "(?len div ?k + (bs - 1)) div bs * bs"
    have "?len \<le> ?k * (?m * bs)" by (rule ceil_div_mult [OF mb])
    moreover have lt: "(?k - 1) * (?m * bs) < ?len"
    proof (rule ccontr)
      assume "\<not> (?k - 1) * (?m * bs) < ?len"
      then have "?k \<le> ?k - 1" by (subst ceil_div_le [OF mb]) simp
      with k0 show False by linarith
    qed
    ultimately have a: "?a \<le> ?m * bs" "(?k - 1) * ?a \<le> ?len"
      using aligned_size_bounds [of bs ?m ?k ?len] k0 m bs by simp_all
    have "(?k - 1) * ?a \<le> (?k - 1) * (?m * bs)" using a(1) by (rule mult_le_mono2)
    with lt have lt': "(?k - 1) * ?a < ?len" by linarith
    have "(?k - 1) * 1 \<le> (?k - 1) * (?m * bs)" using mb by (intro mult_le_mono2) simp
    with lt have le: "?k \<le> ?len" unfolding mult_1_right by linarith
    have "fec_split shards_max fec bs payload =
        map_option (Pair fec) (option_list (map (fec_block payload ?a ?k) [0..<?k]))"
      using False mb k0 by (simp add: fec_split_def Let_def ceil_div_def max_fec_blocks_def)
    with fec_split_blocks [OF k0 refl a(2)] a(1) lt' le False k0 show ?thesis by fastforce
  qed
qed

lemma fec_split_not_Nil:
  assumes "0 < bs" and "length blocks \<le> len" and "(length blocks - 1) * a < len"
    and "\<forall>b \<in> set (butlast blocks). length b = a"
    and "length (last blocks) = len - (length blocks - 1) * a"
    and "a = (len div length blocks + (bs - 1)) div bs * bs"
  shows "[] \<notin> set blocks"
proof
  assume mem: "[] \<in> set blocks"
  then have n: "0 < length blocks" and ne: "blocks \<noteq> []" by (cases blocks; simp)+
  have "len div length blocks \<le> a"
    using ceil_div_mult [OF assms(1), of "len div length blocks"] by (simp add: assms(6) ceil_div_def)
  moreover have "0 < len div length blocks" using n assms(2) by (simp add: div_greater_zero_iff)
  ultimately have "[] \<notin> set (butlast blocks)" using assms(4) by force
  moreover have "last blocks \<noteq> []" using assms(3,5) by (metis list.size(3) not_less_zero zero_less_diff)
  ultimately show False using mem append_butlast_last_id [OF ne]
    by (metis Un_iff empty_iff empty_set set_ConsD set_append)
qed

lemma div_pad_shards: "0 < bs \<Longrightarrow> length b \<le> n * bs \<Longrightarrow> div_pad (length b) bs \<le> n"
  by (simp add: div_pad_le)

section \<open>fec::encode\<close>

text \<open>
  The shards are the bytes the pointer table points at, \<open>None\<close> for a pointer never set.
  \<open>rs D P shards\<close> are the parity shards of the Reed-Solomon library.
\<close>

record fec_t =
  fe_data_shards :: nat
  fe_nr_shards :: nat
  fe_percentage :: nat
  fe_blocksize :: nat
  fe_prefixsize :: nat
  fe_shards :: "bytes option list"

definition parity_shards_of :: "nat \<Rightarrow> nat \<Rightarrow> nat" where
  "parity_shards_of data_shards percentage = (data_shards * percentage + 99) div 100"

definition fec_encode ::
  "(nat \<Rightarrow> nat \<Rightarrow> bytes list \<Rightarrow> bytes list) \<Rightarrow> bytes \<Rightarrow> nat \<Rightarrow> nat \<Rightarrow> nat \<Rightarrow> nat \<Rightarrow> fec_t option" where
  "fec_encode rs payload blocksize fecpercentage minparityshards prefixsize =
     (if blocksize = 0 then None
      else
        let pad = (length payload mod blocksize \<noteq> 0);
            aligned_data_shards = length payload div blocksize;
            data_shards = aligned_data_shards + (if pad then 1 else 0);
            parity0 = parity_shards_of data_shards fecpercentage;
            raised = (parity0 < minparityshards \<and> fecpercentage \<noteq> 0)
        in if raised \<and> data_shards = 0 then None
           else
             let parity_shards = (if raised then minparityshards else parity0);
                 percentage =
                   (if raised then (100 * parity_shards) div data_shards else fecpercentage);
                 nr_shards = data_shards + parity_shards;
                 aligned = map (\<lambda>x. take blocksize (drop (x * blocksize) payload))
                             [0..<aligned_data_shards];
                 rest = drop (aligned_data_shards * blocksize) payload;
                 copy_len = min blocksize (length rest);
                 padded = (if pad then [take copy_len rest @ replicate (blocksize - copy_len) 0]
                           else []);
                 shards = aligned @ padded
             in Some \<lparr>fe_data_shards = data_shards, fe_nr_shards = nr_shards,
                  fe_percentage = percentage, fe_blocksize = blocksize, fe_prefixsize = prefixsize,
                  fe_shards = map Some shards @
                    (if percentage \<noteq> 0 then map Some (rs data_shards parity_shards shards)
                     else replicate parity_shards None)\<rparr>)"

lemma parity_shards_of_ceil: "parity_shards_of d p = ceil_div (d * p) 100"
  by (simp add: parity_shards_of_def ceil_div_def)

text \<open>Raising the parity to its minimum never announces a percentage of zero.\<close>

lemma raised_percentage_pos:
  assumes "parity_shards_of d p < mn" and "p \<noteq> 0" and "0 < d"
  shows "0 < (100 * mn) div d"
proof -
  have "d * 1 \<le> d * p" using assms(2) by (intro mult_le_mono2) simp
  also have "\<dots> \<le> parity_shards_of d p * 100"
    unfolding parity_shards_of_ceil by (rule ceil_div_mult) simp
  also have "\<dots> \<le> mn * 100" using assms(1) by simp
  finally show ?thesis using assms(3) by (simp add: div_greater_zero_iff)
qed

lemma raised_percentage_parity:
  assumes "0 < d" and "d \<le> 100"
  shows "parity_shards_of d ((100 * mn) div d) = mn"
proof -
  define q where "q = (100 * mn) div d"
  have "d * q \<le> 100 * mn" unfolding q_def by (metis div_times_less_eq_dividend mult.commute)
  moreover have "100 * mn < d * q + d"
    using dividend_less_div_times [OF assms(1), of "100 * mn"] by (simp add: q_def mult.commute)
  ultimately have "(d * q + 99) div 100 = mn"
    using assms(2) by (intro div_nat_eqI) (linarith, simp)
  then show ?thesis by (simp add: parity_shards_of_def q_def)
qed

lemma data_shards_padded:
  fixes payload :: bytes and bs :: nat
  assumes "0 < bs"
  defines "k \<equiv> length payload div bs"
  defines "rest \<equiv> drop (k * bs) payload"
  defines "shards \<equiv> map (\<lambda>x. take bs (drop (x * bs) payload)) [0..<k] @
    (if length payload mod bs \<noteq> 0
     then [take (min bs (length rest)) rest @ replicate (bs - min bs (length rest)) 0] else [])"
  shows "\<forall>sh \<in> set shards. length sh = bs"
    and "concat shards = payload @ replicate (div_pad (length payload) bs * bs - length payload) 0"
    and "length shards = div_pad (length payload) bs"
proof -
  have kb: "k * bs \<le> length payload" unfolding k_def by simp
  have l: "length (take bs (drop (x * bs) payload)) = bs" if "x < k" for x
  proof -
    from that have "Suc x * bs \<le> k * bs" by (intro mult_le_mono1) simp
    with kb show ?thesis by simp
  qed
  have r: "length rest = length payload mod bs"
    unfolding rest_def k_def by (simp add: minus_div_mult_eq_mod)
  then have r_less: "length rest < bs" using assms(1) by simp
  show "\<forall>sh \<in> set shards. length sh = bs" using l r_less unfolding shards_def by auto
  have c: "concat (map (\<lambda>x. take bs (drop (x * bs) payload)) [0..<k]) = take (k * bs) payload"
    using kb by (rule concat_blocks)
  have len: "length payload = k * bs + length rest" using r unfolding k_def by simp
  show "concat shards = payload @ replicate (div_pad (length payload) bs * bs - length payload) 0"
  proof (cases "length payload mod bs = 0")
    case True
    with r have "rest = []" by simp
    with True c len show ?thesis
      by (simp add: shards_def div_pad_def k_def [symmetric])
  next
    case False
    have "div_pad (length payload) bs * bs - length payload = bs - length rest"
    proof -
      have "div_pad (length payload) bs * bs = k * bs + bs"
        using False by (simp add: div_pad_def k_def algebra_simps)
      with len show ?thesis by simp
    qed
    moreover have "payload = take (k * bs) payload @ rest" by (simp add: rest_def)
    ultimately show ?thesis using False c r_less
      by (simp add: shards_def min_absorb2 less_imp_le)
  qed
  show "length shards = div_pad (length payload) bs"
    by (simp add: shards_def div_pad_def k_def)
qed

lemma fec_encode_shape:
  assumes "0 < bs" and "payload \<noteq> []"
  defines "d \<equiv> div_pad (length payload) bs"
  shows "\<exists>e data. fec_encode rs payload bs fec mn pre = Some e \<and> fe_data_shards e = d \<and>
    fe_blocksize e = bs \<and> fe_prefixsize e = pre \<and>
    fe_nr_shards e = d + (if fec = 0 then 0 else max mn (parity_shards_of d fec)) \<and>
    fe_percentage e = (if fec \<noteq> 0 \<and> parity_shards_of d fec < mn then (100 * mn) div d else fec) \<and>
    length data = d \<and> (\<forall>sh \<in> set data. length sh = bs) \<and>
    concat data = payload @ replicate (d * bs - length payload) 0 \<and>
    fe_shards e = map Some data @
      (if fec = 0 then [] else map Some (rs d (max mn (parity_shards_of d fec)) data))"
proof -
  let ?k = "length payload div bs"
  let ?rest = "drop (?k * bs) payload"
  let ?data = "map (\<lambda>x. take bs (drop (x * bs) payload)) [0..<?k] @
    (if length payload mod bs \<noteq> 0
     then [take (min bs (length ?rest)) ?rest @ replicate (bs - min bs (length ?rest)) 0] else [])"
  have d: "0 < d" using assms(2) div_pad_le [OF assms(1), of "length payload" 0]
    unfolding d_def by (metis bot_nat_0.not_eq_extremum length_0_conv le_zero_eq mult_0)
  have dd: "length payload div bs + (if length payload mod bs \<noteq> 0 then 1 else 0) = d"
    by (simp add: d_def div_pad_def)
  have p0: "parity_shards_of d 0 = 0" by (simp add: parity_shards_of_def)
  define data where "data = ?data"
  note sh = data_shards_padded [OF assms(1), of payload, folded d_def, folded data_def]
  have enc: "fec_encode rs payload bs fec mn pre = Some \<lparr>fe_data_shards = d,
      fe_nr_shards = d + (if fec = 0 then 0 else max mn (parity_shards_of d fec)),
      fe_percentage = (if fec \<noteq> 0 \<and> parity_shards_of d fec < mn then (100 * mn) div d else fec),
      fe_blocksize = bs, fe_prefixsize = pre,
      fe_shards = map Some data @
        (if fec = 0 then [] else map Some (rs d (max mn (parity_shards_of d fec)) data))\<rparr>"
    using d raised_percentage_pos [of d fec mn] assms(1)
    unfolding fec_encode_def Let_def dd data_def [symmetric]
    by (cases "fec = 0"; cases "parity_shards_of d fec < mn") (simp_all add: p0 max_def)
  have ex: "\<exists>e data. Some x = Some e \<and> P e data" if "P x data" for x :: fec_t and P
    using that by blast
  show ?thesis unfolding enc by (rule ex) (simp add: sh)
qed

section \<open>Properties\<close>

lemma length_with_headers: "length (with_headers n ss) = n * length ss + length (concat ss)"
  by (induction ss) (simp_all add: with_headers_def)

lemma with_headers_mod:
  assumes "ins < bs"
  shows "length (with_headers ins (chunks (bs - ins) xs)) mod bs = 0 \<or>
    ins < length (with_headers ins (chunks (bs - ins) xs)) mod bs"
proof -
  define n where "n = bs - ins"
  define q where "q = length xs div n"
  define r where "r = length xs mod n"
  have n: "0 < n" "bs = n + ins" using assms by (auto simp: n_def)
  have r: "r < n" using n(1) by (simp add: r_def)
  have len: "length xs = q * n + r" by (simp add: q_def r_def)
  have "length (with_headers ins (chunks n xs)) =
      (q + (if r \<noteq> 0 then 1 else 0)) * ins + (q * n + r)"
    using n(1) by (simp add: length_with_headers length_chunks concat_chunks
        div_pad_ceil_div [symmetric] div_pad_def q_def r_def mult.commute)
  also have "\<dots> = q * bs + (if r \<noteq> 0 then ins + r else 0)" by (simp add: n(2) algebra_simps)
  finally have "length (with_headers ins (chunks n xs)) mod bs = (if r \<noteq> 0 then ins + r else 0)"
    using r n(2) by simp
  then show ?thesis unfolding n_def by simp
qed

lemma with_headers_not_Nil: "0 < n \<Longrightarrow> xs \<noteq> [] \<Longrightarrow> with_headers ins (chunks n xs) \<noteq> []"
  by (simp add: chunks_step with_headers_def)

lemma block_shards_le:
  assumes "0 < bs" and "length b \<le> a" and "a \<le> m * bs"
  shows "div_pad (length b) bs \<le> m"
  using assms by (simp add: div_pad_le)



text \<open>
  Slicing: the frame header followed by the encoded data is cut every \<open>slice_size\<close> bytes
  and each slice is preceded by a zeroed packet header, so that the packets minus their
  headers are the frame again, each full packet is exactly one block long, and only the last
  one may be shorter.
\<close>
theorem concat_and_insert_slices:
  assumes "0 < slice_size"
  shows "\<exists>payload slices. concat_and_insert insert_size slice_size header data = Some payload \<and>
    payload = concat (map (\<lambda>s. replicate insert_size 0 @ s) slices) \<and>
    concat slices = header @ data \<and>
    length slices = (length header + length data + (slice_size - 1)) div slice_size \<and>
    (\<forall>i < length slices. slices ! i = take slice_size (drop (i * slice_size) (header @ data)))"
proof -
  let ?s = "chunks slice_size (header @ data)"
  have "length ?s = (length header + length data + (slice_size - 1)) div slice_size"
    using length_chunks [OF assms, of "header @ data"] by (simp add: ceil_div_def)
  then show ?thesis
    using assms concat_and_insert_eq [OF assms, of insert_size header data]
    by (intro exI [of _ "with_headers insert_size ?s"] exI [of _ ?s])
      (auto simp: with_headers_def concat_chunks chunks_nth)
qed

theorem concat_and_insert_slices_witness:
  "\<exists>payload slices. concat_and_insert 2 3 [1] [2, 3, 4] = Some payload \<and>
    payload = [0, 0, 1, 2, 3, 0, 0, 4] \<and> concat slices = [1, 2, 3, 4 :: u8]"
proof -
  obtain payload slices where p: "concat_and_insert 2 3 [1] [2, 3, 4] = Some payload"
      "concat slices = [1, 2, 3, 4 :: u8]"
    using concat_and_insert_slices [of 3 2 "[1]" "[2, 3, 4]"] by auto
  have "concat_and_insert 2 3 [1] [2, 3, 4] = Some [0, 0, 1, 2, 3, 0, 0, 4]"
    by code_simp
  with p show ?thesis by auto
qed



text \<open>
  Replacing a byte sequence in a frame rewrites the first occurrence only, wherever it
  is, and leaves a frame without one as it is; it fails, with an exception, exactly when the
  old sequence is longer than the frame and the new one together.
\<close>
theorem replace_first_occurrence:
  "(case replace_bytes original old new of
     None \<Rightarrow> length original + length new < length old
   | Some result \<Rightarrow>
       (\<exists>a b. original = a @ old @ b \<and> result = a @ new @ b \<and>
          \<not> (\<exists>c d. length c < length a \<and> original = c @ old @ d)) \<or>
       result = original \<and> \<not> (\<exists>a b. original = a @ old @ b))"
proof (cases "length original + length new < length old")
  case True
  then show ?thesis by (simp add: replace_bytes_def)
next
  case False
  show ?thesis
  proof (cases "search_split old original")
    case None
    with False search_split_None [OF None] show ?thesis by (auto simp: replace_bytes_def)
  next
    case (Some p)
    obtain a b where p: "p = (a, b)" by (cases p)
    have r: "replace_bytes original old new = Some (a @ new @ b)"
      using False Some p by (simp add: replace_bytes_def)
    show ?thesis unfolding r option.case(2)
      using search_split_Some [OF Some [unfolded p]]
      by (intro disjI1 exI [of _ a] exI [of _ b]) blast
  qed
qed

end
