(* ===== verification/Video_Frames.thy ===== *)
theory Video_Frames
  imports Video_Packets
begin

text \<open>
  The send loop of \<open>videoBroadcastThread\<close> in \<open>src/stream.cpp\<close>: the header fields written
  into each packet before and after FEC encoding, the optional encryption of a shard, and the
  batches a block is sent in. The layouts of \<open>RTP_PACKET\<close> and \<open>NV_VIDEO_PACKET\<close> belong to
  moonlight-common-c: the fields are records and \<open>put_data\<close>, \<open>put_shard\<close> store them into a
  packet. \<open>rs\<close> is the Reed-Solomon encoder and \<open>gcm iv plaintext\<close> the authenticated cipher
  under the session key, with its tag.
\<close>

unbundle bit_operations_syntax

section \<open>Packet fields\<close>

text \<open>What the code stores in a packet of the payload before FEC encoding.\<close>

record data_fields =
  df_frame_index :: u32
  df_stream_packet_index :: u32
  df_multi_fec_flags :: u8
  df_multi_fec_blocks :: u8
  df_flags :: u8

text \<open>What it stores in every shard after FEC encoding; the RTP fields are big endian.\<close>

record shard_fields =
  sf_fec_info :: u32
  sf_rtp_header :: u8
  sf_rtp_seq :: bytes
  sf_rtp_timestamp :: bytes
  sf_multi_fec_blocks :: u8
  sf_frame_index :: u32

definition stream_packet_index :: "u32 \<Rightarrow> nat \<Rightarrow> u32" where
  "stream_packet_index lowseq x = push_bit 8 (lowseq + word_of_nat x)"

definition multi_fec_blocks :: "nat \<Rightarrow> nat \<Rightarrow> u8" where
  "multi_fec_blocks block needed =
     ucast (push_bit 4 (word_of_nat block :: u64) OR push_bit 6 (word_of_nat needed - 1))"

text \<open>The operands are \<open>size_t\<close>; the cast keeps the low 32 bits.\<close>

definition fec_info :: "nat \<Rightarrow> nat \<Rightarrow> nat \<Rightarrow> u32" where
  "fec_info x data_shards percentage =
     ucast (push_bit 12 (word_of_nat x :: u64) OR push_bit 22 (word_of_nat data_shards) OR
            push_bit 4 (word_of_nat percentage))"

definition data_fields_of ::
  "video_protocol \<Rightarrow> u32 \<Rightarrow> u32 \<Rightarrow> nat \<Rightarrow> nat \<Rightarrow> nat \<Rightarrow> nat \<Rightarrow> data_fields" where
  "data_fields_of pr frame_index lowseq block needed packets x =
     \<lparr>df_frame_index = frame_index,
      df_stream_packet_index = stream_packet_index lowseq x,
      df_multi_fec_flags = 0x10,
      df_multi_fec_blocks = multi_fec_blocks block needed,
      df_flags =
        vp_flag_pic_data pr OR (if x = 0 then vp_flag_sof pr else 0) OR
        (if x + 1 = packets then vp_flag_eof pr else 0)\<rparr>"

definition shard_fields_of ::
  "video_protocol \<Rightarrow> u32 \<Rightarrow> u32 \<Rightarrow> u32 \<Rightarrow> nat \<Rightarrow> nat \<Rightarrow> fec_t \<Rightarrow> nat \<Rightarrow> shard_fields" where
  "shard_fields_of pr frame_index timestamp lowseq block needed shards x =
     \<lparr>sf_fec_info = fec_info x (fe_data_shards shards) (fe_percentage shards),
      sf_rtp_header = 0x80 OR vp_flag_extension pr,
      sf_rtp_seq = be_bytes 2 (unat (ucast (lowseq + word_of_nat x) :: u16)),
      sf_rtp_timestamp = be_bytes 4 (unat timestamp),
      sf_multi_fec_blocks = multi_fec_blocks block needed,
      sf_frame_index = frame_index\<rparr>"

section \<open>Encryption of a shard\<close>

text \<open>
  The IV is the 64 bit counter in memory order (little endian), three bytes never written and
  the letter V; the counter wraps around.
\<close>

definition video_iv :: "u64 \<Rightarrow> bytes" where
  "video_iv counter = le_bytes 8 (unat counter) @ [0, 0, 0, 0x56]"

record datagram =
  dg_prefix :: bytes
  dg_data :: bytes

definition enc_prefix :: "bytes \<Rightarrow> u32 \<Rightarrow> bytes \<Rightarrow> bytes" where
  "enc_prefix iv frame_index tag = iv @ le_bytes 4 (unat frame_index) @ tag"

definition finish_shard ::
  "(bytes \<Rightarrow> bytes \<Rightarrow> bytes \<times> bytes) option \<Rightarrow> u32 \<Rightarrow> u64 \<Rightarrow> bytes \<Rightarrow> datagram \<times> u64" where
  "finish_shard cipher frame_index counter shard =
     (case cipher of
        None \<Rightarrow> (\<lparr>dg_prefix = [], dg_data = shard\<rparr>, counter)
      | Some gcm \<Rightarrow>
          let iv = video_iv counter; (cipher_text, tag) = gcm iv shard
          in (\<lparr>dg_prefix = enc_prefix iv frame_index tag, dg_data = cipher_text\<rparr>, counter + 1))"

section \<open>One FEC block\<close>

record video_state =
  vs_lowseq :: u32
  vs_iv_counter :: u64

text \<open>The parts of the program the send loop does not own.\<close>

record video_env =
  ve_protocol :: video_protocol
  ve_put_data :: "data_fields \<Rightarrow> bytes \<Rightarrow> bytes"
  ve_put_shard :: "shard_fields \<Rightarrow> bytes \<Rightarrow> bytes"
  ve_rs :: "nat \<Rightarrow> nat \<Rightarrow> bytes list \<Rightarrow> bytes list"
  ve_cipher :: "(bytes \<Rightarrow> bytes \<Rightarrow> bytes \<times> bytes) option"

definition stamp_block :: "video_env \<Rightarrow> u32 \<Rightarrow> u32 \<Rightarrow> nat \<Rightarrow> nat \<Rightarrow> nat \<Rightarrow> bytes \<Rightarrow> bytes" where
  "stamp_block env frame_index lowseq block needed blocksize payload =
     (let packets = (length payload + (blocksize - 1)) div blocksize in
      concat (map (\<lambda>x. ve_put_data env
                 (data_fields_of (ve_protocol env) frame_index lowseq block needed packets x)
                 (take blocksize (drop (x * blocksize) payload)))
               [0..<packets]))"

text \<open>
  The loop over the shards of a block. A shard pointer that was never set would be written
  through: that is no result.
\<close>

fun send_shards ::
  "video_env \<Rightarrow> u32 \<Rightarrow> u32 \<Rightarrow> u32 \<Rightarrow> nat \<Rightarrow> nat \<Rightarrow> fec_t \<Rightarrow> bytes option list \<Rightarrow> nat \<Rightarrow> u64 \<Rightarrow>
   (datagram list \<times> u64) option" where
  "send_shards env frame_index timestamp lowseq block needed shards [] x counter =
     Some ([], counter)"
| "send_shards env frame_index timestamp lowseq block needed shards (sh # rest) x counter =
     (case sh of
        None \<Rightarrow> None
      | Some d \<Rightarrow>
          let d' = ve_put_shard env
                (shard_fields_of (ve_protocol env) frame_index timestamp lowseq block needed
                   shards x) d;
              (dg, counter') = finish_shard (ve_cipher env) frame_index counter d'
          in map_option (\<lambda>(dgs, c). (dg # dgs, c))
               (send_shards env frame_index timestamp lowseq block needed shards rest (Suc x)
                  counter'))"

definition enc_prefix_size :: nat where
  "enc_prefix_size = 32"

definition send_block ::
  "video_env \<Rightarrow> nat \<Rightarrow> nat \<Rightarrow> nat \<Rightarrow> u32 \<Rightarrow> u32 \<Rightarrow> nat \<Rightarrow> nat \<Rightarrow> bytes \<Rightarrow> video_state \<Rightarrow>
   (datagram list \<times> video_state) option" where
  "send_block env blocksize fec_percentage min_fec frame_index timestamp needed block payload st =
     (case fec_encode (ve_rs env)
             (stamp_block env frame_index (vs_lowseq st) block needed blocksize payload)
             blocksize fec_percentage min_fec
             (if ve_cipher env = None then 0 else enc_prefix_size) of
        None \<Rightarrow> None
      | Some shards \<Rightarrow>
          map_option
            (\<lambda>(dgs, counter). (dgs,
               \<lparr>vs_lowseq = vs_lowseq st + word_of_nat (fe_nr_shards shards),
                vs_iv_counter = counter\<rparr>))
            (send_shards env frame_index timestamp (vs_lowseq st) block needed shards
               (fe_shards shards) 0 (vs_iv_counter st)))"

fun send_blocks ::
  "video_env \<Rightarrow> nat \<Rightarrow> nat \<Rightarrow> nat \<Rightarrow> u32 \<Rightarrow> u32 \<Rightarrow> nat \<Rightarrow> nat \<Rightarrow> bytes list \<Rightarrow> video_state \<Rightarrow>
   (datagram list list \<times> video_state) option" where
  "send_blocks env blocksize fec min_fec frame_index timestamp needed block [] st = Some ([], st)"
| "send_blocks env blocksize fec min_fec frame_index timestamp needed block (b # bs) st =
     (case send_block env blocksize fec min_fec frame_index timestamp needed block b st of
        None \<Rightarrow> None
      | Some (dgs, st') \<Rightarrow>
          map_option (\<lambda>(r, s). (dgs # r, s))
            (send_blocks env blocksize fec min_fec frame_index timestamp needed (Suc block) bs st'))"

section \<open>One frame\<close>

record video_frame =
  vf_data :: bytes
  vf_idr :: bool
  vf_after_rfi :: bool
  vf_index :: u32
  vf_replacements :: "(bytes \<times> bytes) list option"

record video_session_config =
  vc_packetsize :: nat
  vc_min_fec :: nat

fun apply_replacements :: "(bytes \<times> bytes) list \<Rightarrow> bytes \<Rightarrow> bytes option" where
  "apply_replacements [] payload = Some payload"
| "apply_replacements ((frame_old, frame_new) # rs) payload =
     (case replace_bytes payload frame_old frame_new of
        None \<Rightarrow> None
      | Some p \<Rightarrow> apply_replacements rs p)"

definition frame_payload :: "video_frame \<Rightarrow> bytes option" where
  "frame_payload f =
     (case vf_replacements f of
        Some rs \<Rightarrow> if vf_idr f then apply_replacements rs (vf_data f) else Some (vf_data f)
      | None \<Rightarrow> Some (vf_data f))"

definition video_blocksize :: "video_env \<Rightarrow> video_session_config \<Rightarrow> nat" where
  "video_blocksize env c = vc_packetsize c + vp_max_rtp_header (ve_protocol env)"

text \<open>
  The frame as the thread sends it: one list of datagrams per FEC block, and the session's
  counters afterwards. \<open>duration_us\<close> is the processing time when the frame has a timestamp.
\<close>

definition send_frame ::
  "video_env \<Rightarrow> video_session_config \<Rightarrow> nat \<Rightarrow> video_frame \<Rightarrow> int option \<Rightarrow> u32 \<Rightarrow> video_state \<Rightarrow>
   (datagram list list \<times> video_state) option" where
  "send_frame env c fec_percentage f duration_us timestamp st =
     (let pr = ve_protocol env; blocksize = video_blocksize env c in
      case frame_payload f of
        None \<Rightarrow> None
      | Some payload \<Rightarrow>
          case video_frame_header pr (vf_idr f) (vf_after_rfi f) duration_us (vc_packetsize c)
                 (length payload) of
            None \<Rightarrow> None
          | Some header \<Rightarrow>
              case concat_and_insert (video_packet_raw_size pr)
                     (size_sub blocksize (video_packet_raw_size pr)) header payload of
                None \<Rightarrow> None
              | Some payload' \<Rightarrow>
                  case fec_split (vp_data_shards_max pr) fec_percentage blocksize payload' of
                    None \<Rightarrow> None
                  | Some (fec, blocks) \<Rightarrow>
                      send_blocks env blocksize fec (vc_min_fec c) (vf_index f) timestamp
                        (length blocks) 0 blocks st)"

section \<open>Batches and pacing\<close>

definition send_batch_size :: "nat \<Rightarrow> nat" where
  "send_batch_size blocksize = min 64 (64 * 1024 div blocksize)"

definition ratecontrol_packets_in_1ms :: "nat \<Rightarrow> nat" where
  "ratecontrol_packets_in_1ms blocksize = 1000000000 * 80 div 100 div 1000 div blocksize div 8"

text \<open>
  One batch: where it starts, how many shards, and how many nanoseconds after the start of
  the frame it is due when the pacing looks at the clock before it. The pacing divides by the
  packets of a millisecond, which must not be zero there.
\<close>

record batch =
  ba_offset :: nat
  ba_count :: nat
  ba_due :: "nat option"

record pacing =
  pa_frame_sent :: nat
  pa_group_sent :: nat

definition send_one_batch :: "nat \<Rightarrow> nat \<Rightarrow> nat \<Rightarrow> pacing \<Rightarrow> (batch \<times> pacing) option" where
  "send_one_batch per_ms next_shard count pa =
     (if per_ms \<le> pa_group_sent pa \<or> pa_frame_sent pa = 0 then
        if per_ms = 0 then None
        else Some
          (\<lparr>ba_offset = next_shard, ba_count = count,
            ba_due = Some (1000000 * pa_frame_sent pa div per_ms)\<rparr>,
           \<lparr>pa_frame_sent = pa_frame_sent pa + count, pa_group_sent = count\<rparr>)
      else Some
        (\<lparr>ba_offset = next_shard, ba_count = count, ba_due = None\<rparr>,
         \<lparr>pa_frame_sent = pa_frame_sent pa + count, pa_group_sent = pa_group_sent pa + count\<rparr>))"

function batch_loop ::
  "nat \<Rightarrow> nat \<Rightarrow> nat \<Rightarrow> nat \<Rightarrow> nat \<Rightarrow> pacing \<Rightarrow> (batch list \<times> pacing) option" where
  "batch_loop per_ms per_batch shards next_shard x pa =
     (if x < shards then
        if per_batch \<le> x - next_shard + 1 \<or> x + 1 = shards then
          case send_one_batch per_ms next_shard (x - next_shard + 1) pa of
            None \<Rightarrow> None
          | Some (b, pa') \<Rightarrow>
              map_option (\<lambda>(bs, p). (b # bs, p))
                (batch_loop per_ms per_batch shards (Suc x) (Suc x) pa')
        else batch_loop per_ms per_batch shards next_shard (Suc x) pa
      else Some ([], pa))"
  by pat_completeness auto
termination by (relation "measure (\<lambda>(_, _, shards, _, x, _). shards - x)") auto

declare batch_loop.simps [simp del]

definition send_batches :: "nat \<Rightarrow> nat \<Rightarrow> pacing \<Rightarrow> (batch list \<times> pacing) option" where
  "send_batches blocksize shards pa =
     batch_loop (ratecontrol_packets_in_1ms blocksize) (send_batch_size blocksize) shards 0 0 pa"

section \<open>The FEC fields\<close>

lemma bit_fec_info:
  "bit (fec_info x d p) i \<longleftrightarrow> i < 32 \<and>
     ((12 \<le> i \<and> bit x (i - 12)) \<or> (22 \<le> i \<and> bit d (i - 22)) \<or> (4 \<le> i \<and> bit p (i - 4)))"
  by (auto simp: fec_info_def bit_ucast_iff bit_or_iff bit_push_bit_iff bit_word_of_nat)

lemma fec_info_index: "x < 1024 \<Longrightarrow> p < 256 \<Longrightarrow> unat (take_bit 10 (drop_bit 12 (fec_info x d p))) = x"
  using bit_nat_less [of x 10] bit_nat_less [of p 8]
  by (intro unat_eq_if_bits) (fastforce simp: bit_take_bit_iff bit_drop_bit_eq bit_fec_info)+

lemma fec_info_data_shards:
  "x < 1024 \<Longrightarrow> p < 256 \<Longrightarrow> d < 1024 \<Longrightarrow> unat (drop_bit 22 (fec_info x d p)) = d"
  using bit_nat_less [of x 10] bit_nat_less [of p 8] bit_nat_less [of d 10]
  by (intro unat_eq_if_bits) (fastforce simp: bit_drop_bit_eq bit_fec_info)+

lemma fec_info_percentage: "p < 256 \<Longrightarrow> unat (take_bit 8 (drop_bit 4 (fec_info x d p))) = p"
  using bit_nat_less [of p 8]
  by (intro unat_eq_if_bits) (fastforce simp: bit_take_bit_iff bit_drop_bit_eq bit_fec_info)+

text \<open>
  The FEC fields of a packet header: with at most 1024 packets in a block and a
  percentage below 256, packet index, number of data packets and percentage are all recovered
  from \<open>fecInfo\<close>, and block number and number of blocks from \<open>multiFecBlocks\<close>.
\<close>
theorem fec_fields_recovered:
  assumes "x < 1024" and "d < 1024" and "p < 256" and "block < needed" and "needed \<le> max_fec_blocks"
  shows "unat (take_bit 10 (drop_bit 12 (fec_info x d p))) = x \<and>
    unat (drop_bit 22 (fec_info x d p)) = d \<and>
    unat (take_bit 8 (drop_bit 4 (fec_info x d p))) = p \<and>
    unat (take_bit 2 (drop_bit 4 (multi_fec_blocks block needed))) = block \<and>
    unat (drop_bit 6 (multi_fec_blocks block needed)) = needed - 1"
proof -
  have "block \<in> {0, 1, 2, 3}" "needed \<in> {1, 2, 3, 4}"
    using assms(4,5) by (auto simp: max_fec_blocks_def)
  then have "unat (take_bit 2 (drop_bit 4 (multi_fec_blocks block needed))) = block \<and>
    unat (drop_bit 6 (multi_fec_blocks block needed)) = needed - 1"
    by (auto simp: multi_fec_blocks_def)
  then show ?thesis
    using assms fec_info_index fec_info_data_shards fec_info_percentage by blast
qed

theorem fec_fields_recovered_witness:
  "unat (drop_bit 22 (fec_info 3 170 20)) = 170 \<and>
   unat (take_bit 2 (drop_bit 4 (multi_fec_blocks 1 3))) = 1"
  using fec_fields_recovered [of 3 170 20 1 3] by (simp add: max_fec_blocks_def)

text \<open>
  The percentage raised to meet a client's minimum of recovery packets is not bounded by
  its field: for a frame of one packet and a minimum of three, the block announces 300 percent
  and the packet index and percentage that a client reads from the first packet are wrong.
\<close>
theorem raised_percentage_overflows:
  assumes "payload \<noteq> []" and "length payload \<le> bs" and "fec \<in> {1 .. 100}"
  shows "\<exists>e. fec_encode rs payload bs fec 3 pre = Some e \<and> fe_data_shards e = 1 \<and>
    fe_percentage e = 300 \<and>
    unat (take_bit 10 (drop_bit 12 (fec_info 0 (fe_data_shards e) (fe_percentage e)))) = 1 \<and>
    unat (take_bit 8 (drop_bit 4 (fec_info 0 (fe_data_shards e) (fe_percentage e)))) = 44"
proof -
  have bs: "0 < bs" using assms(1,2) by (cases bs) auto
  have d: "div_pad (length payload) bs = 1"
    using assms(1,2) bs div_pad_le [OF bs, of "length payload" 0]
      div_pad_le [OF bs, of "length payload" 1]
    by (metis One_nat_def le_antisym length_0_conv le_zero_eq mult_0 mult_1 not_less_eq_eq)
  have "parity_shards_of 1 fec < 3"
    unfolding parity_shards_of_def using assms(3) by (simp add: less_mult_imp_div_less)
  then obtain e where e: "fec_encode rs payload bs fec 3 pre = Some e" "fe_data_shards e = 1"
      "fe_percentage e = 300"
    using fec_encode_shape [OF bs assms(1), of rs fec 3 pre] d assms(3) by auto
  have "unat (take_bit 10 (drop_bit 12 (fec_info 0 1 300))) = 1"
    "unat (take_bit 8 (drop_bit 4 (fec_info 0 1 300))) = 44"
    by (simp_all add: fec_info_def)
  with e show ?thesis by auto
qed

theorem raised_percentage_overflows_witness:
  "\<exists>e. fec_encode (\<lambda>d p ss. replicate p []) [1, 2] 4 20 3 0 = Some e \<and> fe_percentage e = 300"
  using raised_percentage_overflows [of "[1, 2]" 4 20 "\<lambda>d p ss. replicate p []" 0] by auto

section \<open>Numbering and initialisation vectors\<close>

definition counter_after :: "video_env \<Rightarrow> u64 \<Rightarrow> nat \<Rightarrow> u64" where
  "counter_after env c n = (if ve_cipher env = None then c else c + word_of_nat n)"

lemma finish_shard_counter:
  "snd (finish_shard (ve_cipher env) fi c d) = counter_after env c 1"
  by (simp add: finish_shard_def counter_after_def Let_def split: option.split prod.split)

lemma counter_after_add: "counter_after env (counter_after env c a) b = counter_after env c (a + b)"
  by (simp add: counter_after_def)

lemma counter_after_0 [simp]: "counter_after env c 0 = c"
  by (simp add: counter_after_def)

lemma send_shards_eq:
  "send_shards env fi ts ls block needed shards (map Some ds) x c =
     Some (map (\<lambda>i. fst (finish_shard (ve_cipher env) fi (counter_after env c i)
              (ve_put_shard env (shard_fields_of (ve_protocol env) fi ts ls block needed shards (x + i))
                 (ds ! i)))) [0..<length ds],
           counter_after env c (length ds))"
proof (induction ds arbitrary: x c)
  case (Cons d ds)
  obtain dg c' where f: "finish_shard (ve_cipher env) fi c (ve_put_shard env
      (shard_fields_of (ve_protocol env) fi ts ls block needed shards x) d) = (dg, c')"
    by fastforce
  then have c': "c' = counter_after env c 1" using finish_shard_counter by (metis snd_conv)
  then show ?case using Cons.IH [of "Suc x" c'] f
    by (simp add: c' counter_after_add map_upt_Suc del: upt_Suc)
qed simp

lemma fec_encode_all_set:
  assumes "\<And>d p ss. length ss = d \<Longrightarrow> length (rs d p ss) = p" and "0 < bs"
    and "fec_encode rs payload bs fec mn pre = Some e"
  shows "\<exists>ds. fe_shards e = map Some ds \<and> length ds = fe_nr_shards e"
proof (cases "payload = []")
  case True
  moreover have "rs 0 0 [] = []" using assms(1) [of "[]" 0 0] by simp
  ultimately show ?thesis using assms(2,3)
    by (intro exI [of _ "[]"])
      (auto simp: fec_encode_def Let_def parity_shards_of_def assms(1) split: if_splits)
next
  case False
  let ?d = "div_pad (length payload) bs"
  from fec_encode_shape [OF assms(2) False, of rs fec mn pre] assms(3) obtain data where
    d: "length data = ?d"
      "fe_nr_shards e = ?d + (if fec = 0 then 0 else max mn (parity_shards_of ?d fec))"
      "fe_shards e = map Some data @ (if fec = 0 then []
         else map Some (rs ?d (max mn (parity_shards_of ?d fec)) data))"
    by (metis option.inject)
  then show ?thesis
    by (intro exI [of _ "data @ (if fec = 0 then []
         else rs ?d (max mn (parity_shards_of ?d fec)) data)"])
      (simp add: assms(1))
qed

text \<open>
  The packets \<open>dgs\<close> carry consecutive sequence numbers from \<open>ls\<close> and, encrypted, consecutive
  IV counters from \<open>c\<close>.
\<close>

definition numbered :: "video_env \<Rightarrow> u32 \<Rightarrow> u64 \<Rightarrow> datagram list \<Rightarrow> bool" where
  "numbered env ls c dgs \<longleftrightarrow>
     (\<forall>i < length dgs. \<exists>fields d.
        dgs ! i = fst (finish_shard (ve_cipher env) (sf_frame_index fields) (counter_after env c i)
                         (ve_put_shard env fields d)) \<and>
        sf_rtp_seq fields = be_bytes 2 (unat (ucast (ls + word_of_nat i) :: u16)))"

lemma numbered_Nil [simp]: "numbered env ls c []"
  by (simp add: numbered_def)

lemma numbered_append:
  assumes "numbered env ls c a"
    and "numbered env (ls + word_of_nat (length a)) (counter_after env c (length a)) b"
  shows "numbered env ls c (a @ b)"
  unfolding numbered_def
proof (intro allI impI)
  fix i assume i: "i < length (a @ b)"
  let ?goal = "\<lambda>dg i. \<exists>fields d.
        dg = fst (finish_shard (ve_cipher env) (sf_frame_index fields) (counter_after env c i)
                         (ve_put_shard env fields d)) \<and>
        sf_rtp_seq fields = be_bytes 2 (unat (ucast (ls + word_of_nat i) :: u16))"
  show "?goal ((a @ b) ! i) i"
  proof (cases "i < length a")
    case True
    with assms(1) show ?thesis by (simp add: numbered_def nth_append)
  next
    case False
    then obtain j where j: "i = length a + j" by (metis le_iff_add not_less)
    with i have "j < length b" by simp
    with assms(2) show ?thesis
      unfolding numbered_def j nth_append_length_plus
      by (simp add: counter_after_add add.assoc)
  qed
qed

lemma send_block_numbered:
  assumes "\<And>d p ss. length ss = d \<Longrightarrow> length (ve_rs env d p ss) = p" and "0 < bs"
    and "send_block env bs fec mn fi ts needed block payload st = Some (dgs, st')"
  shows "numbered env (vs_lowseq st) (vs_iv_counter st) dgs \<and>
    st' = \<lparr>vs_lowseq = vs_lowseq st + word_of_nat (length dgs),
      vs_iv_counter = counter_after env (vs_iv_counter st) (length dgs)\<rparr>"
proof -
  let ?pre = "if ve_cipher env = None then 0 else enc_prefix_size"
  let ?stamped = "stamp_block env fi (vs_lowseq st) block needed bs payload"
  from assms(3) obtain e where e: "fec_encode (ve_rs env) ?stamped bs fec mn ?pre = Some e"
    by (auto simp: send_block_def split: option.splits)
  with fec_encode_all_set [where rs = "ve_rs env", OF assms(1,2)] obtain ds where
    ds: "fe_shards e = map Some ds" "length ds = fe_nr_shards e" by blast
  let ?f = "\<lambda>i. shard_fields_of (ve_protocol env) fi ts (vs_lowseq st) block needed e i"
  have f: "sf_frame_index (?f i) = fi"
    "sf_rtp_seq (?f i) = be_bytes 2 (unat (ucast (vs_lowseq st + word_of_nat i) :: u16))" for i
    by (simp_all add: shard_fields_of_def)
  from assms(3) e ds have
    "dgs = map (\<lambda>i. fst (finish_shard (ve_cipher env) fi (counter_after env (vs_iv_counter st) i)
       (ve_put_shard env (?f i) (ds ! i)))) [0..<length ds]"
    "st' = \<lparr>vs_lowseq = vs_lowseq st + word_of_nat (length ds),
      vs_iv_counter = counter_after env (vs_iv_counter st) (length ds)\<rparr>"
    by (auto simp: send_block_def send_shards_eq)
  note r = this
  have "numbered env (vs_lowseq st) (vs_iv_counter st) dgs" unfolding numbered_def
  proof (intro allI impI)
    fix i assume "i < length dgs"
    then show "\<exists>fields d. dgs ! i = fst (finish_shard (ve_cipher env) (sf_frame_index fields)
        (counter_after env (vs_iv_counter st) i) (ve_put_shard env fields d)) \<and>
        sf_rtp_seq fields = be_bytes 2 (unat (ucast (vs_lowseq st + word_of_nat i) :: u16))"
      by (intro exI [of _ "?f i"] exI [of _ "ds ! i"]) (simp add: r(1) f)
  qed
  with r show ?thesis by simp
qed

lemma send_blocks_numbered:
  assumes "\<And>d p ss. length ss = d \<Longrightarrow> length (ve_rs env d p ss) = p" and "0 < bs"
    and "send_blocks env bs fec mn fi ts needed block blocks st = Some (dgss, st')"
  shows "numbered env (vs_lowseq st) (vs_iv_counter st) (concat dgss) \<and>
    st' = \<lparr>vs_lowseq = vs_lowseq st + word_of_nat (length (concat dgss)),
      vs_iv_counter = counter_after env (vs_iv_counter st) (length (concat dgss))\<rparr>"
  using assms(3)
proof (induction blocks arbitrary: block st dgss)
  case (Cons b bs')
  then obtain dgs st1 rest where
    s: "send_block env bs fec mn fi ts needed block b st = Some (dgs, st1)"
      "send_blocks env bs fec mn fi ts needed (Suc block) bs' st1 = Some (rest, st')"
      "dgss = dgs # rest"
    by (auto split: option.splits)
  from send_block_numbered [where env = env, OF assms(1,2) s(1)] Cons.IH [OF s(2)] s(3)
  show ?case by (auto simp: counter_after_add add.assoc intro!: numbered_append)
qed (auto intro: video_state.equality)

section \<open>A session\<close>

text \<open>The frames of a session in the order the thread takes them from the packet queue.\<close>

fun send_frames ::
  "video_env \<Rightarrow> video_session_config \<Rightarrow> nat \<Rightarrow> (video_frame \<times> int option \<times> u32) list \<Rightarrow>
   video_state \<Rightarrow> (datagram list \<times> video_state) option" where
  "send_frames env c fec [] st = Some ([], st)"
| "send_frames env c fec ((f, duration_us, timestamp) # fs) st =
     (case send_frame env c fec f duration_us timestamp st of
        None \<Rightarrow> None
      | Some (dgss, st') \<Rightarrow>
          map_option (\<lambda>(r, s). (concat dgss @ r, s)) (send_frames env c fec fs st'))"

lemma send_frame_numbered:
  assumes "\<And>d p ss. length ss = d \<Longrightarrow> length (ve_rs env d p ss) = p"
    and "0 < video_blocksize env c"
    and "send_frame env c fec f duration ts st = Some (dgss, st')"
  shows "numbered env (vs_lowseq st) (vs_iv_counter st) (concat dgss) \<and>
    st' = \<lparr>vs_lowseq = vs_lowseq st + word_of_nat (length (concat dgss)),
      vs_iv_counter = counter_after env (vs_iv_counter st) (length (concat dgss))\<rparr>"
proof -
  from assms(3) obtain fec' blocks where
    "send_blocks env (video_blocksize env c) fec' (vc_min_fec c) (vf_index f) ts (length blocks) 0
       blocks st = Some (dgss, st')"
    by (auto simp: send_frame_def Let_def split: option.splits)
  with send_blocks_numbered [of env "video_blocksize env c"] assms(1,2) show ?thesis by blast
qed

text \<open>
  Packet numbering of a video session: through all its frames and FEC blocks the packets
  carry consecutive 16 bit RTP sequence numbers, each encrypted packet is encrypted with the
  IV of the next counter value, and the session's counters advance by the packets sent.
\<close>
theorem video_session_numbering:
  assumes "\<And>d p ss. length ss = d \<Longrightarrow> length (ve_rs env d p ss) = p"
    and "0 < video_blocksize env c"
    and "send_frames env c fec frames st = Some (dgs, st')"
  shows "numbered env (vs_lowseq st) (vs_iv_counter st) dgs \<and>
    vs_lowseq st' = vs_lowseq st + word_of_nat (length dgs) \<and>
    vs_iv_counter st' = counter_after env (vs_iv_counter st) (length dgs)"
  using assms(3)
proof (induction frames arbitrary: st dgs)
  case (Cons x frames)
  obtain f d ts where x: "x = (f, d, ts)" by (cases x)
  with Cons.prems obtain dgss st1 rest where
    s: "send_frame env c fec f d ts st = Some (dgss, st1)"
      "send_frames env c fec frames st1 = Some (rest, st')" "dgs = concat dgss @ rest"
    by (auto split: option.splits)
  from send_frame_numbered [where env = env, OF assms(1,2) s(1)] Cons.IH [OF s(2)] s(3)
  show ?case by (auto simp: counter_after_add add.assoc intro!: numbered_append)
qed simp

lemma video_iv_inj: "video_iv a = video_iv b \<Longrightarrow> a = b"
proof -
  have b: "unat x < 256 ^ 8" for x :: u64 using unsigned_less [of x, where 'a = nat] by simp
  assume "video_iv a = video_iv b"
  then have "le_bytes 8 (unat a) = le_bytes 8 (unat b)" by (simp add: video_iv_def)
  then have "unat a = unat b" by (rule le_bytes_inj [OF b b])
  then show "a = b" by (rule unsigned_word_eqI)
qed

lemma length_video_iv [simp]: "length (video_iv c) = 12"
  by (simp add: video_iv_def)

lemma numbered_iv:
  assumes "numbered env ls c dgs" and "ve_cipher env = Some gcm" and "i < length dgs"
  shows "take 12 (dg_prefix (dgs ! i)) = video_iv (c + word_of_nat i)"
proof -
  from assms obtain fields d where
    "dgs ! i = fst (finish_shard (ve_cipher env) (sf_frame_index fields) (counter_after env c i)
                     (ve_put_shard env fields d))"
    unfolding numbered_def by blast
  with assms(2) show ?thesis
    by (simp add: finish_shard_def Let_def enc_prefix_def counter_after_def split: prod.split)
qed

text \<open>
  (C4) No two packets of an encrypted video session are encrypted with the same IV, up to
  \<open>2 ^ 64\<close> packets, and every IV ends in the letter that separates the video stream from the
  control stream's uses of the key.
\<close>
theorem video_iv_unique:
  assumes "\<And>d p ss. length ss = d \<Longrightarrow> length (ve_rs env d p ss) = p"
    and "0 < video_blocksize env c" and "ve_cipher env = Some gcm"
    and "send_frames env c fec frames st = Some (dgs, st')"
  shows "distinct (map (\<lambda>dg. take 12 (dg_prefix dg)) (take (2 ^ 64) dgs)) \<and>
    (\<forall>dg \<in> set dgs. dg_prefix dg ! 11 = 0x56)"
proof -
  have "numbered env (vs_lowseq st) (vs_iv_counter st) dgs"
    using video_session_numbering [of env c fec frames st dgs st'] assms(1,2,4) by blast
  note iv = numbered_iv [OF this assms(3)]
  define n :: nat where "n = min (2 ^ 64) (length dgs)"
  have n: "n \<le> 2 ^ 64" "n \<le> length dgs" "length (take (2 ^ 64) dgs) = n"
    by (simp_all add: n_def)
  have "map (\<lambda>dg. take 12 (dg_prefix dg)) (take (2 ^ 64) dgs) =
      map (\<lambda>i. video_iv (vs_iv_counter st + word_of_nat i)) [0..<n]"
    using iv n by (intro nth_equalityI) simp_all
  moreover have "inj_on (\<lambda>i. video_iv (vs_iv_counter st + word_of_nat i)) {0..<n}"
  proof (rule inj_onI)
    fix i j assume i: "i \<in> {0..<n}" and j: "j \<in> {0..<n}"
      and "video_iv (vs_iv_counter st + word_of_nat i) = video_iv (vs_iv_counter st + word_of_nat j)"
    then have "(word_of_nat i :: u64) = word_of_nat j" using video_iv_inj by fastforce
    with i j n(1) show "i = j"
      by (simp add: word_of_nat_eq_iff take_bit_nat_eq_self)
  qed
  moreover have "dg_prefix dg ! 11 = 0x56" if "dg \<in> set dgs" for dg
  proof -
    from that obtain i where "i < length dgs" "dg = dgs ! i" by (metis in_set_conv_nth)
    with iv have "take 12 (dg_prefix dg) ! 11 = 0x56" by (simp add: video_iv_def nth_append)
    then show ?thesis by simp
  qed
  ultimately show ?thesis by (simp add: distinct_map)
qed

section \<open>Every frame is sent\<close>
lemma map_concat_length:
  "(\<And>x. x \<in> set xs \<Longrightarrow> length (f x) = length (g x)) \<Longrightarrow>
   length (concat (map f xs)) = length (concat (map g xs))"
  by (induction xs) auto

lemma stamp_block_length:
  assumes "\<And>fields d. length (ve_put_data env fields d) = length d" and "0 < bs"
  shows "length (stamp_block env fi ls block needed bs payload) = length payload"
proof -
  let ?n = "(length payload + (bs - 1)) div bs"
  have "length (stamp_block env fi ls block needed bs payload) =
      length (concat (map (\<lambda>x. take bs (drop (x * bs) payload)) [0..<?n]))"
    unfolding stamp_block_def Let_def by (rule map_concat_length) (simp add: assms(1))
  also have "map (\<lambda>x. take bs (drop (x * bs) payload)) [0..<?n] = chunks bs payload"
    using assms(2) by (intro nth_equalityI) (simp_all add: length_chunks ceil_div_def chunks_nth)
  finally show ?thesis using assms(2) by (simp add: concat_chunks)
qed

lemma send_block_Some:
  assumes "\<And>d p ss. length ss = d \<Longrightarrow> length (ve_rs env d p ss) = p"
    and "\<And>fields d. length (ve_put_data env fields d) = length d"
    and "0 < bs" and "payload \<noteq> []"
  shows "\<exists>dgs st'. send_block env bs fec mn fi ts needed block payload st = Some (dgs, st') \<and> dgs \<noteq> []"
proof -
  let ?s = "stamp_block env fi (vs_lowseq st) block needed bs payload"
  let ?pre = "if ve_cipher env = None then 0 else enc_prefix_size"
  have "?s \<noteq> []"
    using stamp_block_length [of env bs, OF assms(2,3)] assms(4) by (metis length_0_conv)
  then obtain e data rest where
    e: "fec_encode (ve_rs env) ?s bs fec mn ?pre = Some e" "fe_shards e = map Some data @ rest"
      "length data = div_pad (length ?s) bs"
    using fec_encode_shape [OF assms(3), of ?s "ve_rs env" fec mn ?pre] by blast
  have "data \<noteq> []"
    using e(3) \<open>?s \<noteq> []\<close> div_pad_le [OF assms(3), of "length ?s" 0]
    by (metis length_0_conv le_zero_eq mult_0)
  moreover obtain ds where "fe_shards e = map Some ds"
    using fec_encode_all_set [of "ve_rs env" bs ?s fec mn ?pre e] e(1) assms(1,3) by blast
  moreover from this calculation e(2) have "ds \<noteq> []" by auto
  ultimately show ?thesis using e(1) by (simp add: send_block_def send_shards_eq)
qed

lemma send_blocks_Some:
  assumes "\<And>d p ss. length ss = d \<Longrightarrow> length (ve_rs env d p ss) = p"
    and "\<And>fields d. length (ve_put_data env fields d) = length d"
    and "0 < bs" and "[] \<notin> set blocks"
  shows "\<exists>dgss st'. send_blocks env bs fec mn fi ts needed block blocks st = Some (dgss, st') \<and>
    length dgss = length blocks \<and> (blocks \<noteq> [] \<longrightarrow> concat dgss \<noteq> [])"
  using assms(4)
proof (induction blocks arbitrary: block st)
  case (Cons b blocks)
  then obtain dgs st1 where "send_block env bs fec mn fi ts needed block b st = Some (dgs, st1)"
      "dgs \<noteq> []"
    using send_block_Some [of env bs b fec mn fi ts needed block st] assms(1,2,3) by auto
  with Cons.IH [of "Suc block" st1] Cons.prems show ?case by auto
qed simp

lemma video_frame_header_Some:
  assumes "vp_nv_size pr < packetsize" and "packetsize < 2 ^ 64"
  shows "\<exists>h. video_frame_header pr idr rfi d packetsize n = Some h \<and> length h = 8"
  using assms by (simp add: video_frame_header_def last_payload_len_def size_sub_ge Let_def)

lemma send_frame_Some:
  assumes "\<And>d p ss. length ss = d \<Longrightarrow> length (ve_rs env d p ss) = p"
    and "\<And>fields d. length (ve_put_data env fields d) = length d"
    and "vp_nv_size (ve_protocol env) < vc_packetsize c"
    and "video_packet_raw_size (ve_protocol env) < video_blocksize env c"
    and "video_blocksize env c < 2 ^ 64"
    and "fec \<le> 255" and "255 \<le> vp_data_shards_max (ve_protocol env)"
    and "frame_payload f \<noteq> None"
  shows "\<exists>dgss st'. send_frame env c fec f duration ts st = Some (dgss, st') \<and>
    1 \<le> length dgss \<and> length dgss \<le> max_fec_blocks \<and> concat dgss \<noteq> []"
proof -
  let ?pr = "ve_protocol env" and ?bs = "video_blocksize env c"
  let ?ins = "video_packet_raw_size ?pr"
  have bs: "4 \<le> ?bs" "?ins < ?bs" "vc_packetsize c < 2 ^ 64" "0 < ?bs"
    using assms(4,5) by (auto simp: video_packet_raw_size_def video_blocksize_def)
  obtain payload where p: "frame_payload f = Some payload" using assms(8) by blast
  obtain h where h: "video_frame_header ?pr (vf_idr f) (vf_after_rfi f) duration (vc_packetsize c)
      (length payload) = Some h" "length h = 8"
    using video_frame_header_Some [OF assms(3) bs(3)] by blast
  let ?payload = "with_headers ?ins (chunks (?bs - ?ins) (h @ payload))"
  have c: "concat_and_insert ?ins (size_sub ?bs ?ins) h payload = Some ?payload"
    using bs assms(5) by (simp add: size_sub_ge concat_and_insert_eq)
  have "h \<noteq> []" using h(2) by auto
  then have ne: "?payload \<noteq> []" using bs by (intro with_headers_not_Nil) simp_all
  obtain fec' blocks a where s:
    "fec_split (vp_data_shards_max ?pr) fec ?bs ?payload = Some (fec', blocks)"
    "blocks \<noteq> []" "length blocks \<le> 4" "\<forall>b \<in> set (butlast blocks). length b = a"
    "length (last blocks) = length ?payload - (length blocks - 1) * a"
    "a = (length ?payload div length blocks + (?bs - 1)) div ?bs * ?bs"
    "(length blocks - 1) * a < length ?payload" "length blocks \<le> length ?payload"
    using fec_split_result [OF bs(1) assms(6,7) ne] by blast
  have "[] \<notin> set blocks" by (rule fec_split_not_Nil [OF bs(4) s(8,7,4,5,6)])
  then obtain dgss st' where "send_blocks env ?bs fec' (vc_min_fec c) (vf_index f) ts
      (length blocks) 0 blocks st = Some (dgss, st')" "length dgss = length blocks"
      "concat dgss \<noteq> []"
    using send_blocks_Some [of env ?bs blocks] assms(1,2) bs(4) s(2) by blast
  with s(2,3) show ?thesis
    by (auto simp: send_frame_def Let_def p h(1) c s(1) max_fec_blocks_def Suc_le_eq)
qed


section \<open>Batches\<close>
lemma send_one_batch_result:
  assumes "0 < per_ms"
  shows "\<exists>b pa1. send_one_batch per_ms next_shard n pa = Some (b, pa1) \<and>
    ba_offset b = next_shard \<and> ba_count b = n \<and>
    (\<forall>t. ba_due b = Some t \<longrightarrow> t = 1000000 * pa_frame_sent pa div per_ms) \<and>
    pa_frame_sent pa1 = pa_frame_sent pa + n"
  using assms by (cases "per_ms \<le> pa_group_sent pa \<or> pa_frame_sent pa = 0")
    (simp_all add: send_one_batch_def)

lemma batch_loop_result:
  assumes "0 < per_ms" and "next_shard \<le> x" and "x \<le> shards" and "x - next_shard < max 1 per_batch"
    and "x = shards \<longrightarrow> next_shard = x"
  shows "\<exists>bs pa'. batch_loop per_ms per_batch shards next_shard x pa = Some (bs, pa') \<and>
    concat (map (\<lambda>b. [ba_offset b ..< ba_offset b + ba_count b]) bs) = [next_shard..<shards] \<and>
    (\<forall>b \<in> set bs. 1 \<le> ba_count b \<and> ba_count b \<le> max 1 per_batch) \<and>
    (\<forall>b \<in> set bs. \<forall>t. ba_due b = Some t \<longrightarrow>
       t = 1000000 * (pa_frame_sent pa + (ba_offset b - next_shard)) div per_ms \<and>
       next_shard \<le> ba_offset b) \<and>
    pa_frame_sent pa' = pa_frame_sent pa + (shards - next_shard)"
  using assms
proof (induction per_ms per_batch shards next_shard x pa rule: batch_loop.induct)
  case (1 per_ms per_batch shards next_shard x pa)
  show ?case
  proof (cases "x < shards")
    case False
    with "1.prems" show ?thesis by (simp add: batch_loop.simps)
  next
    case x: True
    let ?n = "x - next_shard + 1"
    show ?thesis
    proof (cases "per_batch \<le> ?n \<or> x + 1 = shards")
      case False
      then have "x + 1 < shards" "?n < per_batch" using x by auto
      then have "Suc x - next_shard < max 1 per_batch" using "1.prems"(2) by auto
      with "1.IH"(2) [OF x] False "1.prems" \<open>x + 1 < shards\<close>
      show ?thesis by (subst batch_loop.simps) (simp add: x)
    next
      case True
      obtain b pa1 where b: "send_one_batch per_ms next_shard ?n pa = Some (b, pa1)"
        "ba_offset b = next_shard" "ba_count b = ?n"
        "\<forall>t. ba_due b = Some t \<longrightarrow> t = 1000000 * pa_frame_sent pa div per_ms"
        "pa_frame_sent pa1 = pa_frame_sent pa + ?n"
        using send_one_batch_result [OF "1.prems"(1)] by blast
      have "\<exists>bs pa'. batch_loop per_ms per_batch shards (Suc x) (Suc x) pa1 = Some (bs, pa') \<and>
        concat (map (\<lambda>b. [ba_offset b ..< ba_offset b + ba_count b]) bs) = [Suc x..<shards] \<and>
        (\<forall>b \<in> set bs. 1 \<le> ba_count b \<and> ba_count b \<le> max 1 per_batch) \<and>
        (\<forall>b \<in> set bs. \<forall>t. ba_due b = Some t \<longrightarrow>
           t = 1000000 * (pa_frame_sent pa1 + (ba_offset b - Suc x)) div per_ms \<and>
           Suc x \<le> ba_offset b) \<and>
        pa_frame_sent pa' = pa_frame_sent pa1 + (shards - Suc x)"
        using "1.IH"(1) [OF x True b(1) refl] "1.prems"(1) x by (simp add: Suc_le_eq)
      then obtain bs pa' where r: "batch_loop per_ms per_batch shards (Suc x) (Suc x) pa1 = Some (bs, pa')"
        "concat (map (\<lambda>b. [ba_offset b ..< ba_offset b + ba_count b]) bs) = [Suc x..<shards]"
        "\<forall>b \<in> set bs. 1 \<le> ba_count b \<and> ba_count b \<le> max 1 per_batch"
        "\<forall>b \<in> set bs. \<forall>t. ba_due b = Some t \<longrightarrow>
           t = 1000000 * (pa_frame_sent pa1 + (ba_offset b - Suc x)) div per_ms \<and>
           Suc x \<le> ba_offset b"
        "pa_frame_sent pa' = pa_frame_sent pa1 + (shards - Suc x)"
        by blast
      have l: "batch_loop per_ms per_batch shards next_shard x pa = Some (b # bs, pa')"
        using x True b(1) r(1) by (subst batch_loop.simps) simp
      have k1: "[next_shard..<next_shard + ?n] @ [Suc x..<shards] = [next_shard..<shards]"
        using "1.prems"(2) x upt_add_eq_append [of next_shard "Suc x" "shards - Suc x"] by simp
      have k2: "pa_frame_sent pa1 + (k - Suc x) = pa_frame_sent pa + (k - next_shard)"
        if "Suc x \<le> k" for k
        using that b(5) "1.prems"(2) by simp
      have due: "t = 1000000 * (pa_frame_sent pa + (ba_offset b' - next_shard)) div per_ms \<and>
           next_shard \<le> ba_offset b'" if "b' \<in> set bs" "ba_due b' = Some t" for b' t
      proof -
        from r(4) that have t: "t = 1000000 * (pa_frame_sent pa1 + (ba_offset b' - Suc x)) div per_ms"
          and le: "Suc x \<le> ba_offset b'" by blast+
        show ?thesis using t unfolding k2 [OF le] using le "1.prems"(2) by simp
      qed
      have sent: "pa_frame_sent pa' = pa_frame_sent pa + (shards - next_shard)"
        unfolding r(5) using x by (intro k2) simp
      have n: "1 \<le> ?n" "?n \<le> max 1 per_batch" using "1.prems"(4) by simp_all
      show ?thesis
      proof (intro exI conjI)
        show "batch_loop per_ms per_batch shards next_shard x pa = Some (b # bs, pa')" by (rule l)
        show "concat (map (\<lambda>b. [ba_offset b ..< ba_offset b + ba_count b]) (b # bs)) =
            [next_shard..<shards]"
          unfolding list.map concat.simps r(2) b(2,3) by (rule k1)
        show "\<forall>b' \<in> set (b # bs). 1 \<le> ba_count b' \<and> ba_count b' \<le> max 1 per_batch"
          unfolding list.set ball_simps b(3) using r(3) n by blast
        show "\<forall>b' \<in> set (b # bs). \<forall>t. ba_due b' = Some t \<longrightarrow>
            t = 1000000 * (pa_frame_sent pa + (ba_offset b' - next_shard)) div per_ms \<and>
            next_shard \<le> ba_offset b'"
          using b(2,4) due by simp
        show "pa_frame_sent pa' = pa_frame_sent pa + (shards - next_shard)" by (rule sent)
      qed
    qed
  qed
qed

text \<open>
  Batched sending of a block of FEC packets sends every packet exactly once and in
  order, in batches of at most 64 packets and at most 64 KiB, and the pacing before a batch
  waits for the time the packets sent so far take at 80 percent of one gigabit per second.
\<close>
theorem send_batches_partition:
  assumes "0 < blocksize" and "blocksize \<le> 65536"
  shows "\<exists>bs pa'. send_batches blocksize shards pa = Some (bs, pa') \<and>
    concat (map (\<lambda>b. [ba_offset b ..< ba_offset b + ba_count b]) bs) = [0..<shards] \<and>
    (\<forall>b \<in> set bs. 1 \<le> ba_count b \<and> ba_count b \<le> 64 \<and> ba_count b * blocksize \<le> 65536) \<and>
    (\<forall>b \<in> set bs. \<forall>t. ba_due b = Some t \<longrightarrow>
       t = 1000000 * (pa_frame_sent pa + ba_offset b) div ratecontrol_packets_in_1ms blocksize) \<and>
    pa_frame_sent pa' = pa_frame_sent pa + shards"
proof -
  have per: "0 < ratecontrol_packets_in_1ms blocksize"
    using assms by (simp add: ratecontrol_packets_in_1ms_def div_greater_zero_iff less_eq_div_iff_mult_less_eq)
  have one: "1 \<le> 65536 div blocksize" using assms by (simp add: less_eq_div_iff_mult_less_eq)
  then have size: "max 1 (send_batch_size blocksize) = send_batch_size blocksize"
    by (simp add: send_batch_size_def)
  have fits: "n \<le> 64 \<and> n * blocksize \<le> 65536" if "n \<le> send_batch_size blocksize" for n
  proof -
    from that have "n \<le> 64" "n \<le> 65536 div blocksize" by (simp_all add: send_batch_size_def)
    with assms(1) show ?thesis by (simp add: less_eq_div_iff_mult_less_eq)
  qed
  from batch_loop_result [OF per, of 0 0 shards "send_batch_size blocksize" pa] size fits
  show ?thesis unfolding send_batches_def by fastforce
qed

theorem send_batches_partition_witness:
  "\<exists>bs pa'. send_batches 1392 100 \<lparr>pa_frame_sent = 0, pa_group_sent = 0\<rparr> = Some (bs, pa') \<and>
    concat (map (\<lambda>b. [ba_offset b ..< ba_offset b + ba_count b]) bs) = [0..<100] \<and>
    pa_frame_sent pa' = 100"
  using send_batches_partition [of 1392 100 "\<lparr>pa_frame_sent = 0, pa_group_sent = 0\<rparr>"] by auto

section \<open>The hypotheses at a concrete instance\<close>

text \<open>A protocol with header sizes of 16, 12 and 16 bytes and an encoder that repeats zeros.\<close>

definition sample_protocol :: video_protocol where
  "sample_protocol = \<lparr>vp_rtp_size = 12, vp_nv_size = 16, vp_max_rtp_header = 16,
     vp_data_shards_max = 255, vp_flag_pic_data = 1, vp_flag_sof = 4, vp_flag_eof = 2,
     vp_flag_extension = 16\<rparr>"

definition sample_env :: video_env where
  "sample_env = \<lparr>ve_protocol = sample_protocol, ve_put_data = (\<lambda>_ d. d),
     ve_put_shard = (\<lambda>_ d. d), ve_rs = (\<lambda>_ p _. replicate p []),
     ve_cipher = Some (\<lambda>iv d. (d, replicate 16 0))\<rparr>"

definition sample_frame :: "video_frame \<times> int option \<times> u32" where
  "sample_frame = (\<lparr>vf_data = [1, 2, 3], vf_idr = False, vf_after_rfi = False, vf_index = 1,
     vf_replacements = None\<rparr>, None, 0)"

definition sample_state :: video_state where
  "sample_state = \<lparr>vs_lowseq = 0, vs_iv_counter = 0\<rparr>"

definition sample_config :: video_session_config where
  "sample_config = \<lparr>vc_packetsize = 32, vc_min_fec = 2\<rparr>"

lemmas sample_defs = sample_protocol_def sample_env_def sample_frame_def sample_state_def
  sample_config_def video_blocksize_def video_packet_raw_size_def

lemma sample_frame_sent:
  "\<exists>dgs st'. send_frames sample_env sample_config 20 [sample_frame] sample_state = Some (dgs, st') \<and>
     dgs \<noteq> []"
proof -
  have "\<exists>dgss st'. send_frame sample_env sample_config 20 (fst sample_frame) None 0 sample_state
      = Some (dgss, st') \<and> 1 \<le> length dgss \<and> length dgss \<le> max_fec_blocks \<and> concat dgss \<noteq> []"
    by (rule send_frame_Some) (simp_all add: sample_defs frame_payload_def)
  then show ?thesis by (auto simp: sample_frame_def)
qed


lemma sample_laws:
  "length ss = d \<Longrightarrow> length (ve_rs sample_env d p ss) = p"
  "0 < video_blocksize sample_env sample_config"
  by (simp_all add: sample_defs)

theorem video_session_numbering_witness:
  "\<exists>dgs st'. send_frames sample_env sample_config 20 [sample_frame] sample_state = Some (dgs, st') \<and>
     dgs \<noteq> [] \<and> numbered sample_env 0 0 dgs"
proof -
  obtain dgs st' where s: "send_frames sample_env sample_config 20 [sample_frame] sample_state
      = Some (dgs, st')" "dgs \<noteq> []" using sample_frame_sent by blast
  from video_session_numbering [where env = sample_env, OF sample_laws(1,2) s(1)] s show ?thesis
    by (simp add: sample_state_def)
qed

theorem video_iv_unique_witness:
  "\<exists>dgs st'. send_frames sample_env sample_config 20 [sample_frame] sample_state = Some (dgs, st') \<and>
     dgs \<noteq> [] \<and> (\<forall>dg \<in> set dgs. dg_prefix dg ! 11 = 0x56)"
proof -
  obtain dgs st' where s: "send_frames sample_env sample_config 20 [sample_frame] sample_state
      = Some (dgs, st')" "dgs \<noteq> []" using sample_frame_sent by blast
  have "ve_cipher sample_env = Some (\<lambda>iv d. (d, replicate 16 0))" by (simp add: sample_env_def)
  from video_iv_unique [where env = sample_env, OF sample_laws(1,2) this s(1)] s show ?thesis
    by simp
qed

end
