(* ===== verification/Audio_Packets.thy ===== *)
theory Audio_Packets
  imports Prelude
begin

text \<open>
  The audio sender of \<open>src/stream.cpp\<close>: \<open>encode_audio\<close> and the loop of
  \<open>audioBroadcastThread\<close> on one session, with the FEC block that spans several packets. The
  shard counts \<open>RTPA_DATA_SHARDS\<close> and \<open>RTPA_FEC_SHARDS\<close>, the Reed-Solomon encoder with the
  parity matrix the code installs, and the CBC cipher under the session key are arguments.
\<close>

section \<open>State\<close>

text \<open>
  \<open>session_t::audio\<close>: the shard buffers hold what was last written into them, and the FEC
  header keeps the base of the block it was last initialised for.
\<close>

record audio_session =
  au_seq :: u16
  au_timestamp :: u32
  au_shards :: "bytes list"
  au_base_seq :: bytes
  au_base_timestamp :: bytes

record audio_env =
  ae_data_shards :: nat
  ae_fec_shards :: nat
  ae_rs :: "nat \<Rightarrow> bytes list \<Rightarrow> bytes list"
  ae_cbc :: "(bytes \<Rightarrow> bytes \<Rightarrow> bytes option) option"
  ae_av_ri_key_id :: u32
  ae_packet_duration :: u32

text \<open>What a packet carries: header fields in network order and the payload.\<close>

datatype audio_out =
  Audio_Data (ad_seq: bytes) (ad_timestamp: bytes) (ad_payload: bytes)
| Audio_Fec (af_seq: bytes) (af_base_seq: bytes) (af_base_timestamp: bytes) (af_index: nat)
    (af_payload: bytes)

definition audio_block_size :: nat where
  "audio_block_size = (2048 + 15) div 16 * 16"

definition audio_session_new :: "audio_env \<Rightarrow> audio_session" where
  "audio_session_new env =
     \<lparr>au_seq = 0, au_timestamp = 0,
      au_shards = replicate (ae_data_shards env + ae_fec_shards env) (replicate audio_block_size 0),
      au_base_seq = [0, 0], au_base_timestamp = [0, 0, 0, 0]\<rparr>"

section \<open>One packet\<close>

text \<open>The IV: the key id plus the 16 bit sequence number in network order, then zeros.\<close>

definition audio_iv :: "u32 \<Rightarrow> u16 \<Rightarrow> bytes" where
  "audio_iv key_id seq = be_bytes 4 (unat (key_id + ucast seq)) @ replicate 12 0"

definition encode_audio :: "(bytes \<Rightarrow> bytes \<Rightarrow> bytes option) option \<Rightarrow> bytes \<Rightarrow> bytes \<Rightarrow> bytes option" where
  "encode_audio cbc plaintext iv =
     (case cbc of None \<Rightarrow> Some plaintext | Some encrypt \<Rightarrow> encrypt iv plaintext)"

text \<open>
  The body of the loop. A payload longer than its shard buffer would be written behind it:
  that, like a failed encryption, which ends the thread, is no result.
\<close>

definition audio_send :: "audio_env \<Rightarrow> bytes \<Rightarrow> audio_session \<Rightarrow> (audio_out list \<times> audio_session) option" where
  "audio_send env packet st =
     (let seq = au_seq st; ts = au_timestamp st; n = ae_data_shards env;
          slot = unat seq mod n in
      case encode_audio (ae_cbc env) packet (audio_iv (ae_av_ri_key_id env) seq) of
        None \<Rightarrow> None
      | Some payload \<Rightarrow>
          if audio_block_size < length payload \<or> n = 0 then None
          else
            let bytes = length payload;
                shards = (au_shards st)[slot := overwrite payload (au_shards st ! slot)];
                data = Audio_Data (be_bytes 2 (unat seq)) (be_bytes 4 (unat ts)) payload;
                first = (slot = 0);
                base_seq = (if first then be_bytes 2 (unat seq) else au_base_seq st);
                base_ts = (if first then be_bytes 4 (unat ts) else au_base_timestamp st);
                full = ((unat seq + 1) mod n = 0);
                parity = (if full then ae_rs env (ae_fec_shards env) (map (take bytes) (take n shards))
                          else []);
                shards' = (if full
                           then take n shards @
                             map (\<lambda>(p, b). overwrite p b) (zip parity (drop n shards))
                           else shards);
                fec = (if full
                       then map (\<lambda>x. Audio_Fec (be_bytes 2 (unat (seq + word_of_nat x + 1)))
                                   base_seq base_ts x (take bytes (shards' ! (n + x))))
                              [0..<ae_fec_shards env]
                       else [])
            in Some (data # fec,
                 \<lparr>au_seq = seq + 1, au_timestamp = ts + ae_packet_duration env,
                  au_shards = shards', au_base_seq = base_seq, au_base_timestamp = base_ts\<rparr>))"

fun audio_send_all ::
  "audio_env \<Rightarrow> bytes list \<Rightarrow> audio_session \<Rightarrow> (audio_out list list \<times> audio_session) option" where
  "audio_send_all env [] st = Some ([], st)"
| "audio_send_all env (p # ps) st =
     (case audio_send env p st of
        None \<Rightarrow> None
      | Some (out, st') \<Rightarrow> map_option (\<lambda>(r, s). (out # r, s)) (audio_send_all env ps st'))"

section \<open>What a client receives\<close>

text \<open>
  \<open>pay\<close> are the payloads of the session's packets in order. The specification of the packets
  sent for packet \<open>k\<close>: itself, and at the end of a block the recovery packets over the block's
  payloads, headed by the block's first sequence number and timestamp.
\<close>

definition audio_timestamp :: "audio_env \<Rightarrow> nat \<Rightarrow> bytes" where
  "audio_timestamp env k = be_bytes 4 (unat (word_of_nat k * ae_packet_duration env))"

definition audio_seq :: "nat \<Rightarrow> bytes" where
  "audio_seq k = be_bytes 2 (k mod 2 ^ 16)"

definition audio_block_base :: "audio_env \<Rightarrow> nat \<Rightarrow> nat" where
  "audio_block_base env k = k div ae_data_shards env * ae_data_shards env"

definition audio_expected :: "audio_env \<Rightarrow> (nat \<Rightarrow> bytes) \<Rightarrow> nat \<Rightarrow> audio_out list" where
  "audio_expected env pay k =
     (let n = ae_data_shards env; b = audio_block_base env k in
      Audio_Data (audio_seq k) (audio_timestamp env k) (pay k) #
      (if Suc k mod n = 0
       then map (\<lambda>x. Audio_Fec (audio_seq (k + x + 1)) (audio_seq b) (audio_timestamp env b) x
                       (ae_rs env (ae_fec_shards env) (map pay [b..<b + n]) ! x))
              [0..<ae_fec_shards env]
       else []))"

text \<open>
  The shard counts divide the range of the sequence number and the encoder answers the
  requested number of shards of the length of the data shards.
\<close>

definition audio_env_ok :: "audio_env \<Rightarrow> bool" where
  "audio_env_ok env \<longleftrightarrow>
     0 < ae_data_shards env \<and> ae_data_shards env dvd 2 ^ 16 \<and>
     (\<forall>m ss n. ss \<noteq> [] \<and> (\<forall>s \<in> set ss. length s = n) \<longrightarrow>
        length (ae_rs env m ss) = m \<and> (\<forall>s \<in> set (ae_rs env m ss). length s = n))"

definition audio_inv :: "audio_env \<Rightarrow> nat \<Rightarrow> (nat \<Rightarrow> bytes) \<Rightarrow> nat \<Rightarrow> audio_session \<Rightarrow> bool" where
  "audio_inv env len pay k st \<longleftrightarrow>
     au_seq st = word_of_nat k \<and>
     au_timestamp st = word_of_nat k * ae_packet_duration env \<and>
     length (au_shards st) = ae_data_shards env + ae_fec_shards env \<and>
     (\<forall>b \<in> set (au_shards st). length b = audio_block_size) \<and>
     (\<forall>i < k mod ae_data_shards env. take len (au_shards st ! i) = pay (audio_block_base env k + i)) \<and>
     (k mod ae_data_shards env \<noteq> 0 \<longrightarrow>
        au_base_seq st = audio_seq (audio_block_base env k) \<and>
        au_base_timestamp st = audio_timestamp env (audio_block_base env k))"

lemma unat_seq_mod:
  assumes "n dvd 2 ^ 16"
  shows "unat (word_of_nat k :: u16) mod n = k mod n"
  using assms by (simp add: unsigned_of_nat take_bit_eq_mod mod_mod_cancel)

lemma unat_seq: "unat (word_of_nat k :: u16) = k mod 2 ^ 16"
  by (simp add: unsigned_of_nat take_bit_eq_mod)

lemma unat_seq_Suc: "unat (word_of_nat k + 1 :: u16) = Suc k mod 2 ^ 16"
  by (metis of_nat_Suc add.commute unat_seq)

lemma audio_inv_new: "audio_inv env len pay 0 (audio_session_new env)"
  by (simp add: audio_inv_def audio_session_new_def)

lemma length_overwrite: "length new \<le> length buf \<Longrightarrow> length (overwrite new buf) = length buf"
  by (simp add: overwrite_def)

lemma overwrite_all_length:
  assumes "\<forall>p \<in> set ps. length p = l" and "\<forall>b \<in> set bs. length b = s" and "l \<le> s"
  shows "\<forall>x \<in> set (map (\<lambda>(p, b). overwrite p b) (zip ps bs)). length x = s"
proof
  fix x assume "x \<in> set (map (\<lambda>(p, b). overwrite p b) (zip ps bs))"
  then obtain p b where x: "x = overwrite p b" "(p, b) \<in> set (zip ps bs)" by auto
  then have "length p = l" "length b = s" using assms(1,2) set_zip_leftD set_zip_rightD by metis+
  with x assms(3) show "length x = s" by (simp add: length_overwrite)
qed

lemma audio_block_base_Suc:
  assumes "0 < ae_data_shards env" and "Suc k mod ae_data_shards env \<noteq> 0"
  shows "audio_block_base env (Suc k) = audio_block_base env k"
    and "Suc k mod ae_data_shards env = Suc (k mod ae_data_shards env)"
  using assms by (auto simp: audio_block_base_def div_Suc mod_Suc split: if_splits)

lemma audio_block_full:
  assumes "0 < ae_data_shards env" and "Suc k mod ae_data_shards env = 0"
  shows "Suc (k mod ae_data_shards env) = ae_data_shards env"
  using assms by (auto simp: mod_Suc split: if_splits)

lemma audio_send_step:
  assumes ok: "audio_env_ok env" and inv: "audio_inv env len pay k st"
    and pay: "encode_audio (ae_cbc env) packet (audio_iv (ae_av_ri_key_id env) (word_of_nat k))
      = Some (pay k)"
    and len: "\<And>j. length (pay j) = len" "len \<le> audio_block_size"
  shows "\<exists>st'. audio_send env packet st = Some (audio_expected env pay k, st') \<and>
    audio_inv env len pay (Suc k) st'"
proof -
  define n m where "n = ae_data_shards env" and "m = ae_fec_shards env"
  have n: "0 < n" "n dvd 2 ^ 16" using ok by (simp_all add: audio_env_ok_def n_def)
  let ?slot = "k mod n" and ?b = "audio_block_base env k"
  have slot: "?slot < n" using n(1) by simp
  have k: "?b + ?slot = k" by (simp add: audio_block_base_def n_def)
  have first: "?slot = 0 \<Longrightarrow> ?b = k" using k by simp
  define shards where "shards = (au_shards st)[?slot := overwrite (pay k) (au_shards st ! ?slot)]"
  have sh: "length shards = n + m" "\<forall>b \<in> set shards. length b = audio_block_size"
    using inv len slot
    by (auto simp: shards_def audio_inv_def n_def m_def length_overwrite dest!: set_update_subset_insert [THEN subsetD])
  have filled: "take len (shards ! i) = pay (?b + i)" if "i \<le> ?slot" for i
    using that inv len slot k
    by (cases "i = ?slot")
      (auto simp: shards_def audio_inv_def n_def m_def overwrite_def nth_list_update)
  let ?base_seq = "if ?slot = 0 then audio_seq k else au_base_seq st"
  let ?base_ts = "if ?slot = 0 then audio_timestamp env k else au_base_timestamp st"
  have base: "?base_seq = audio_seq ?b" "?base_ts = audio_timestamp env ?b"
    using inv first by (auto simp: audio_inv_def n_def)
  define full where "full \<longleftrightarrow> Suc k mod n = 0"
  define parity where "parity = ae_rs env m (map (take len) (take n shards))"
  define shards' where "shards' = (if full then take n shards @
      map (\<lambda>(p, b). overwrite p b) (zip parity (drop n shards)) else shards)"
  have data: "map (take len) (take n shards) = map pay [?b..<?b + n]" if full
    using that filled sh(1) audio_block_full [of env k] n(1)
    by (intro nth_equalityI) (auto simp: full_def n_def less_Suc_eq_le)
  have par: "length parity = m" "\<forall>p \<in> set parity. length p = len" if full
  proof -
    have "\<forall>s \<in> set (map (take len) (take n shards)). length s = len"
      unfolding data [OF that] by (simp add: len)
    moreover have "map (take len) (take n shards) \<noteq> []" using n(1) sh(1) by auto
    ultimately show "length parity = m" "\<forall>p \<in> set parity. length p = len"
      using ok unfolding audio_env_ok_def parity_def by blast+
  qed
  have sent: "take len (shards' ! (n + x)) = parity ! x" if "full" "x < m" for x
    using that sh par by (simp add: shards'_def nth_append overwrite_def)
  have sh': "length shards' = n + m" using sh(1) par(1) by (simp add: shards'_def)
  have drop_all: "\<forall>b \<in> set (drop n shards). length b = audio_block_size"
    using sh(2) by (meson in_set_dropD)
  have sh2': "\<forall>b \<in> set shards'. length b = audio_block_size"
    using sh(2) overwrite_all_length [OF par(2) drop_all len(2)]
    unfolding shards'_def by (cases full) (auto dest: in_set_takeD)
  let ?st = "\<lparr>au_seq = au_seq st + 1, au_timestamp = au_timestamp st + ae_packet_duration env,
    au_shards = shards', au_base_seq = ?base_seq, au_base_timestamp = ?base_ts\<rparr>"
  have seq: "au_seq st = word_of_nat k" and ts: "au_timestamp st = word_of_nat k * ae_packet_duration env"
    using inv by (simp_all add: audio_inv_def)
  have slot_eq: "unat (au_seq st) mod n = ?slot" using n(2) by (simp add: seq unat_seq_mod)
  have full_eq: "((unat (au_seq st) + 1) mod n = 0) = full"
    unfolding full_def by (metis Suc_eq_plus1 mod_Suc_eq slot_eq)
  have seqs: "be_bytes 2 (unat (au_seq st)) = audio_seq k"
      "be_bytes 2 (unat (au_seq st + word_of_nat x + 1)) = audio_seq (k + x + 1)" for x
    by (simp_all add: seq audio_seq_def unat_seq unat_seq_Suc flip: of_nat_add)
  have tss: "be_bytes 4 (unat (au_timestamp st)) = audio_timestamp env k"
    by (simp add: ts audio_timestamp_def)
  have enc: "encode_audio (ae_cbc env) packet (audio_iv (ae_av_ri_key_id env) (au_seq st)) = Some (pay k)"
    using pay by (simp add: seq)
  have "audio_send env packet st = Some (Audio_Data (audio_seq k) (audio_timestamp env k) (pay k) #
      (if full then map (\<lambda>x. Audio_Fec (audio_seq (k + x + 1)) ?base_seq ?base_ts x
                   (take len (shards' ! (n + x)))) [0..<m] else []), ?st)"
    unfolding audio_send_def Let_def n_def [symmetric] m_def [symmetric] slot_eq full_eq enc
      option.case(2) len(1) shards_def [symmetric] parity_def [symmetric]
    using len(2) n(1) seqs tss by (auto simp: shards'_def parity_def)
  moreover have "audio_inv env len pay (Suc k) ?st"
  proof (cases full)
    case True
    then show ?thesis using sh' sh2' unfolding audio_inv_def n_def [symmetric] m_def [symmetric]
      by (simp add: full_def seq ts algebra_simps)
  next
    case False
    then have nz: "Suc k mod ae_data_shards env \<noteq> 0" by (simp add: full_def n_def)
    note b = audio_block_base_Suc [OF n(1) [unfolded n_def] nz]
    show ?thesis
      using sh' sh2' base filled False
      unfolding audio_inv_def n_def [symmetric] m_def [symmetric] b [folded n_def]
      by (auto simp: seq ts algebra_simps shards'_def less_Suc_eq_le)
  qed
  moreover have "map (\<lambda>x. Audio_Fec (audio_seq (k + x + 1)) ?base_seq ?base_ts x
        (take len (shards' ! (n + x)))) [0..<m] =
      map (\<lambda>x. Audio_Fec (audio_seq (k + x + 1)) (audio_seq ?b) (audio_timestamp env ?b) x
        (ae_rs env m (map pay [?b..<?b + n]) ! x)) [0..<m]" if full
    using sent [OF that] base by (auto simp: parity_def data [OF that])
  ultimately show ?thesis
    unfolding audio_expected_def Let_def n_def [symmetric] m_def [symmetric]
    by (cases full) (simp_all add: full_def)
qed

lemma audio_send_all_from:
  assumes ok: "audio_env_ok env" and inv: "audio_inv env len pay k st"
    and pay: "\<And>i. i < length packets \<Longrightarrow>
      encode_audio (ae_cbc env) (packets ! i) (audio_iv (ae_av_ri_key_id env) (word_of_nat (k + i)))
        = Some (pay (k + i))"
    and len: "\<And>j. length (pay j) = len" "len \<le> audio_block_size"
  shows "\<exists>st'. audio_send_all env packets st =
    Some (map (audio_expected env pay) [k..<k + length packets], st')"
  using inv pay
proof (induction packets arbitrary: k st)
  case (Cons p packets)
  from Cons.prems(2) [of 0] have "encode_audio (ae_cbc env) p
      (audio_iv (ae_av_ri_key_id env) (word_of_nat k)) = Some (pay k)" by simp
  then obtain st1 where s: "audio_send env p st = Some (audio_expected env pay k, st1)"
    "audio_inv env len pay (Suc k) st1"
    using audio_send_step [OF ok Cons.prems(1) _ len] by blast
  have "encode_audio (ae_cbc env) (packets ! i)
      (audio_iv (ae_av_ri_key_id env) (word_of_nat (Suc k + i))) = Some (pay (Suc k + i))"
    if "i < length packets" for i
    using Cons.prems(2) [of "Suc i"] that by simp
  from Cons.IH [OF s(2) this] obtain st' where
    "audio_send_all env packets st1 =
      Some (map (audio_expected env pay) [Suc k..<Suc k + length packets], st')" by blast
  with s(1) show ?case by (simp add: upt_conv_Cons del: upt_Suc)
qed simp

section \<open>Properties\<close>

text \<open>
  (C29) The audio stream of a session: the packets leave with consecutive sequence numbers and
  timestamps, and after every full block, and only there, the recovery packets follow, computed
  over exactly that block's payloads and labelled with the block's first sequence number and
  timestamp, also when the 16 bit sequence number wraps around.
\<close>
theorem audio_stream_blocks:
  assumes "audio_env_ok env"
    and "\<And>i. i < length packets \<Longrightarrow>
      encode_audio (ae_cbc env) (packets ! i) (audio_iv (ae_av_ri_key_id env) (word_of_nat i))
        = Some (pay i)"
    and "\<And>j. length (pay j) = len" and "len \<le> audio_block_size"
  shows "\<exists>st'. audio_send_all env packets (audio_session_new env) =
    Some (map (audio_expected env pay) [0..<length packets], st')"
  using audio_send_all_from [OF assms(1) audio_inv_new _ assms(3,4), of packets] assms(2) by simp

definition sample_audio :: audio_env where
  "sample_audio = \<lparr>ae_data_shards = 4, ae_fec_shards = 2,
     ae_rs = (\<lambda>m ss. replicate m (case ss of [] \<Rightarrow> [] | s # _ \<Rightarrow> s)), ae_cbc = None,
     ae_av_ri_key_id = 7, ae_packet_duration = 5\<rparr>"

theorem audio_stream_blocks_witness:
  "\<exists>st'. audio_send_all sample_audio [[1], [2], [3], [4], [5]] (audio_session_new sample_audio) =
    Some (map (audio_expected sample_audio (\<lambda>i. if i < 5 then [word_of_nat (i + 1)] else [0])) [0..<5], st')"
proof -
  let ?pay = "\<lambda>i :: nat. if i < 5 then [word_of_nat (i + 1) :: u8] else [0]"
  have ok: "audio_env_ok sample_audio"
    by (auto simp: audio_env_ok_def sample_audio_def split: list.split)
  have pay: "encode_audio (ae_cbc sample_audio) ([[1], [2], [3], [4], [5]] ! i)
      (audio_iv (ae_av_ri_key_id sample_audio) (word_of_nat i)) = Some (?pay i)"
    if "i < length [[1], [2], [3], [4], [5] :: bytes]" for i
  proof -
    from that have "i \<in> {0, 1, 2, 3, 4}" by auto
    then show ?thesis by (auto simp: encode_audio_def sample_audio_def)
  qed
  have five: "length [[1], [2], [3], [4], [5] :: bytes] = 5" by simp
  show ?thesis
    using audio_stream_blocks [OF ok pay, of 1, unfolded five]
    by (simp add: audio_block_size_def del: audio_send_all.simps upt_Suc upt_rec_numeral)
qed

text \<open>
  The audio IV is the key id plus a 16 bit sequence number: it is different for any two
  of 65536 consecutive packets of a session and repeats exactly after that many, within less
  than six minutes of 5 ms packets.
\<close>
theorem audio_iv_period:
  "audio_iv key_id (word_of_nat i) = audio_iv key_id (word_of_nat j) \<longleftrightarrow>
   i mod 2 ^ 16 = j mod 2 ^ 16"
proof
  have b: "unat x < 256 ^ 4" for x :: u32 using unsigned_less [of x, where 'a = nat] by simp
  assume "audio_iv key_id (word_of_nat i) = audio_iv key_id (word_of_nat j)"
  then have "be_bytes 4 (unat (key_id + ucast (word_of_nat i :: u16))) =
      be_bytes 4 (unat (key_id + ucast (word_of_nat j :: u16)))" by (simp add: audio_iv_def)
  then have "unat (key_id + ucast (word_of_nat i :: u16)) = unat (key_id + ucast (word_of_nat j :: u16))"
    by (rule be_bytes_inj [OF b b])
  then have "(ucast (word_of_nat i :: u16) :: u32) = ucast (word_of_nat j :: u16)"
    by (metis add_left_cancel unsigned_word_eqI)
  then have "unat (ucast (word_of_nat i :: u16) :: u32) = unat (ucast (word_of_nat j :: u16) :: u32)"
    by simp
  then show "i mod 2 ^ 16 = j mod 2 ^ 16"
    by (simp add: unsigned_ucast_eq unsigned_of_nat take_bit_eq_mod)
next
  assume "i mod 2 ^ 16 = j mod 2 ^ 16"
  then have "(word_of_nat i :: u16) = word_of_nat j"
    by (simp add: word_of_nat_eq_iff take_bit_eq_mod)
  then show "audio_iv key_id (word_of_nat i) = audio_iv key_id (word_of_nat j)" by simp
qed

end
