(* ===== verification/Control_Codec.thy ===== *)
theory Control_Codec
  imports Prelude
begin

text \<open>
  The messages of the control stream in \<open>src/stream.cpp\<close>: message types, the packed structs
  the host sends, \<open>encode_control\<close>, and the initialisation vectors of both directions. A
  \<open>crypto::aes_t\<close> is a byte list that keeps its contents between messages; \<open>enc iv plaintext\<close>
  is the tag followed by the ciphertext of the session cipher, \<open>None\<close> when it reports an
  error.
\<close>

section \<open>Message types\<close>

datatype control_idx =
  IDX_START_A | IDX_START_B | IDX_INVALIDATE_REF_FRAMES | IDX_LOSS_STATS | IDX_FRAME_STATS
| IDX_INPUT_DATA | IDX_RUMBLE_DATA | IDX_TERMINATION | IDX_PERIODIC_PING | IDX_REQUEST_IDR_FRAME
| IDX_ENCRYPTED | IDX_HDR_MODE | IDX_RUMBLE_TRIGGER_DATA | IDX_SET_MOTION_EVENT | IDX_SET_RGB_LED
| IDX_SET_ADAPTIVE_TRIGGERS

primrec packet_type :: "control_idx \<Rightarrow> u16" where
  "packet_type IDX_START_A = 0x0305"
| "packet_type IDX_START_B = 0x0307"
| "packet_type IDX_INVALIDATE_REF_FRAMES = 0x0301"
| "packet_type IDX_LOSS_STATS = 0x0201"
| "packet_type IDX_FRAME_STATS = 0x0204"
| "packet_type IDX_INPUT_DATA = 0x0206"
| "packet_type IDX_RUMBLE_DATA = 0x010b"
| "packet_type IDX_TERMINATION = 0x0109"
| "packet_type IDX_PERIODIC_PING = 0x0200"
| "packet_type IDX_REQUEST_IDR_FRAME = 0x0302"
| "packet_type IDX_ENCRYPTED = 0x0001"
| "packet_type IDX_HDR_MODE = 0x010e"
| "packet_type IDX_RUMBLE_TRIGGER_DATA = 0x5500"
| "packet_type IDX_SET_MOTION_EVENT = 0x5501"
| "packet_type IDX_SET_RGB_LED = 0x5502"
| "packet_type IDX_SET_ADAPTIVE_TRIGGERS = 0x5503"

lemma packet_type_inj: "packet_type a = packet_type b \<Longrightarrow> a = b"
  by (cases a; cases b; simp)

section \<open>Messages to the client\<close>

datatype gamepad_feedback =
  Rumble (fb_id: u16) (fb_lowfreq: u16) (fb_highfreq: u16)
| Rumble_Triggers (fb_id: u16) (fb_left_trigger: u16) (fb_right_trigger: u16)
| Set_Motion_Event_State (fb_id: u16) (fb_report_rate: u16) (fb_motion_type: u8)
| Set_Rgb_Led (fb_id: u16) (fb_r: u8) (fb_g: u8) (fb_b: u8)
| Set_Adaptive_Triggers (fb_id: u16) (fb_event_flags: u8) (fb_type_left: u8) (fb_type_right: u8)
    (fb_left: bytes) (fb_right: bytes)
| Unknown_Feedback

record hdr_info =
  hi_enabled :: u8
  hi_metadata :: bytes

text \<open>\<open>control_header_v2\<close> before a payload; the host is little endian.\<close>

definition with_control_header :: "control_idx \<Rightarrow> bytes \<Rightarrow> bytes" where
  "with_control_header idx payload =
     le_bytes 2 (unat (packet_type idx)) @ le_bytes 2 (length payload) @ payload"

fun feedback_plaintext :: "gamepad_feedback \<Rightarrow> bytes option" where
  "feedback_plaintext (Rumble i low high) =
     Some (with_control_header IDX_RUMBLE_DATA
       (le_bytes 4 0xC0FFEE @ le_bytes 2 (unat i) @ le_bytes 2 (unat low) @ le_bytes 2 (unat high)))"
| "feedback_plaintext (Rumble_Triggers i left right) =
     Some (with_control_header IDX_RUMBLE_TRIGGER_DATA
       (le_bytes 2 (unat i) @ le_bytes 2 (unat left) @ le_bytes 2 (unat right)))"
| "feedback_plaintext (Set_Motion_Event_State i rate motion_type) =
     Some (with_control_header IDX_SET_MOTION_EVENT
       (le_bytes 2 (unat i) @ le_bytes 2 (unat rate) @ [motion_type]))"
| "feedback_plaintext (Set_Rgb_Led i r g b) =
     Some (with_control_header IDX_SET_RGB_LED (le_bytes 2 (unat i) @ [r, g, b]))"
| "feedback_plaintext (Set_Adaptive_Triggers i flags type_left type_right left right) =
     Some (with_control_header IDX_SET_ADAPTIVE_TRIGGERS
       (le_bytes 2 (unat i) @ [flags, type_left, type_right] @ left @ right))"
| "feedback_plaintext Unknown_Feedback = None"

definition hdr_plaintext :: "hdr_info \<Rightarrow> bytes" where
  "hdr_plaintext h = with_control_header IDX_HDR_MODE (hi_enabled h # hi_metadata h)"

definition termination_plaintext :: bytes where
  "termination_plaintext = with_control_header IDX_TERMINATION (be_bytes 4 0x80030023)"

section \<open>Encryption\<close>

text \<open>
  The sender's and the receiver's update of their IV for sequence number \<open>seq\<close>; \<open>origin\<close> is
  the letter H for messages of the host and C for those of the client.
\<close>

definition control_iv :: "bool \<Rightarrow> u8 \<Rightarrow> u32 \<Rightarrow> bytes \<Rightarrow> bytes" where
  "control_iv v2 origin seq iv =
     (if v2 then (le_bytes 4 (unat seq) @ drop 4 (resize 12 iv)) [10 := origin, 11 := 0x43]
      else (resize 16 iv) [0 := ucast seq])"

record control_crypto =
  cc_protocol_type :: int
  cc_control_v2 :: bool
  cc_seq :: u32
  cc_outgoing_iv :: bytes

text \<open>
  The message as it goes on the wire, with the session's sequence number and IV afterwards. An
  encryption that fails answers an empty view after both have been advanced.
\<close>

definition encode_control ::
  "(bytes \<Rightarrow> bytes \<Rightarrow> bytes option) \<Rightarrow> bytes \<Rightarrow> control_crypto \<Rightarrow> bytes \<times> control_crypto" where
  "encode_control enc plaintext s =
     (if cc_protocol_type s \<noteq> 13 then (plaintext, s)
      else
        let seq = cc_seq s;
            iv = control_iv (cc_control_v2 s) 0x48 seq (cc_outgoing_iv s);
            s' = s\<lparr>cc_seq := seq + 1, cc_outgoing_iv := iv\<rparr>
        in case enc iv plaintext of
             None \<Rightarrow> ([], s')
           | Some tagged \<Rightarrow>
               if length tagged \<le> 16 then ([], s')
               else
                 let packet_length = (length tagged + 4) mod 2 ^ 16
                 in (take (packet_length + 4)
                       (le_bytes 2 1 @ le_bytes 2 packet_length @ le_bytes 4 (unat seq) @ tagged),
                     s'))"

section \<open>Properties of the vectors\<close>

lemma length_resize [simp]: "length (resize n xs) = n"
  by (simp add: resize_def)

lemma length_control_iv: "length (control_iv v2 origin seq iv) = (if v2 then 12 else 16)"
  by (simp add: control_iv_def)

lemma control_iv_nth:
  assumes "i < 12"
  shows "control_iv True origin seq iv ! i =
    (if i < 4 then le_bytes 4 (unat seq) ! i else if i = 10 then origin else if i = 11 then 0x43
     else resize 12 iv ! i)"
  using assms by (auto simp: control_iv_def nth_append nth_list_update)

lemma control_iv_prefix: "take 4 (control_iv True origin seq iv) = le_bytes 4 (unat seq)"
  by (rule nth_equalityI) (simp_all add: length_control_iv control_iv_nth)

lemma control_iv_seq_inj:
  assumes "control_iv True a s iv = control_iv True b t iv'"
  shows "s = t" and "a = b"
proof -
  have b: "unat x < 256 ^ 4" for x :: u32 using unsigned_less [of x, where 'a = nat] by simp
  have "le_bytes 4 (unat s) = le_bytes 4 (unat t)"
    using assms by (metis control_iv_prefix)
  then have "unat s = unat t" by (rule le_bytes_inj [OF b b])
  then show "s = t" by (rule unsigned_word_eqI)
  show "a = b" using arg_cong [OF assms, of "\<lambda>xs. xs ! 10"] by (simp add: control_iv_nth)
qed

section \<open>Sending several messages\<close>

text \<open>The IVs under which a sequence of messages is encrypted.\<close>

fun encode_all ::
  "(bytes \<Rightarrow> bytes \<Rightarrow> bytes option) \<Rightarrow> bytes list \<Rightarrow> control_crypto \<Rightarrow>
   (bytes \<times> bytes) list \<times> control_crypto" where
  "encode_all enc [] s = ([], s)"
| "encode_all enc (m # ms) s =
     (let (wire, s') = encode_control enc m s; (rest, s'') = encode_all enc ms s'
      in ((cc_outgoing_iv s', wire) # rest, s''))"

lemma encode_control_state:
  assumes "cc_protocol_type s = 13"
  shows "snd (encode_control enc m s) =
    s\<lparr>cc_seq := cc_seq s + 1,
      cc_outgoing_iv := control_iv (cc_control_v2 s) 0x48 (cc_seq s) (cc_outgoing_iv s)\<rparr>"
  using assms by (simp add: encode_control_def Let_def split: option.split)

lemma encode_all_ivs:
  assumes "cc_protocol_type s = 13" and "cc_control_v2 s"
  shows "length (fst (encode_all enc ms s)) = length ms \<and>
    cc_seq (snd (encode_all enc ms s)) = cc_seq s + word_of_nat (length ms) \<and>
    (\<forall>i < length ms. \<exists>iv. fst (fst (encode_all enc ms s) ! i) =
      control_iv True 0x48 (cc_seq s + word_of_nat i) iv)"
  using assms
proof (induction ms arbitrary: s)
  case (Cons m ms)
  obtain w s1 where e: "encode_control enc m s = (w, s1)" by fastforce
  then have s1: "s1 = s\<lparr>cc_seq := cc_seq s + 1,
      cc_outgoing_iv := control_iv (cc_control_v2 s) 0x48 (cc_seq s) (cc_outgoing_iv s)\<rparr>"
    using encode_control_state [OF Cons.prems(1), of enc m] by simp
  have p: "cc_protocol_type s1 = 13" "cc_control_v2 s1" using s1 Cons.prems by simp_all
  have iv: "\<exists>iv. fst (fst (encode_all enc (m # ms) s) ! i) =
      control_iv True 0x48 (cc_seq s + word_of_nat i) iv" if "i < length (m # ms)" for i
    using that Cons.IH [OF p] Cons.prems e s1
    by (cases i) (auto simp: case_prod_beta Let_def add.assoc)
  with Cons.IH [OF p] e s1 show ?case by (simp add: case_prod_beta Let_def)
qed simp

section \<open>Properties\<close>



lemma ucast_byte_add: "(ucast (seq + 256 :: u32) :: u8) = ucast seq"
proof (rule unsigned_word_eqI [where 'a = nat])
  have "unat (ucast x :: u8) = unat x mod 2 ^ 8" for x :: u32
    by (simp add: unsigned_ucast_eq take_bit_eq_mod)
  moreover have "unat (seq + 256) = (unat seq + 256) mod 2 ^ 32"
    by (simp add: unat_word_ariths)
  ultimately show "unat (ucast (seq + 256) :: u8) = unat (ucast seq :: u8)"
    by (simp add: mod_mod_cancel)
qed

text \<open>
  The older scheme keeps one byte of the sequence number: the IV of a control message is
  that of the message 256 before, under the same key.
\<close>
theorem legacy_control_iv_repeats:
  assumes "length iv = 16"
  shows "control_iv False origin (seq + 256) (control_iv False origin' seq' iv) =
    control_iv False origin seq iv"
  using assms by (simp add: control_iv_def resize_def ucast_byte_add)

theorem legacy_control_iv_repeats_witness:
  "control_iv False 0x48 (1 + 256) (control_iv False 0x48 1 (replicate 16 0)) =
   control_iv False 0x48 1 (replicate 16 0)"
  by (rule legacy_control_iv_repeats) simp

end
