(* ===== verification/Control_Server.thy ===== *)
theory Control_Server
  imports Control_Codec
begin

text \<open>
  The control server of \<open>src/stream.cpp\<close>: which session a peer belongs to, the handlers of
  the messages from clients, the pass over the sessions in \<open>controlBroadcastThread\<close>, and the
  termination message. Peers, sessions and times are numbers; \<open>dec iv tagged\<close> is the session
  cipher, \<open>None\<close> when the tag does not verify. A handler without a result read outside the
  packet it was given or left with an exception.
\<close>

section \<open>Sessions\<close>

datatype state_e = STOPPED | STOPPING | STARTING | RUNNING

record ctl_session =
  cs_crypto :: control_crypto
  cs_incoming_iv :: bytes
  cs_legacy_iv :: bytes
  cs_session_id_v1 :: bool
  cs_connect_data :: u32
  cs_expected_addr :: string
  cs_launch_id :: u32
  cs_peer :: "nat option"
  cs_local_addr :: string
  cs_ping_timeout :: nat
  cs_state :: state_e
  cs_shutdown :: bool
  cs_control_end :: bool
  cs_feedback :: "gamepad_feedback list"
  cs_hdr :: "hdr_info option"
  cs_input :: "bytes list"
  cs_idr :: bool
  cs_invalidate :: "(int \<times> int) option"

text \<open>
  \<open>session::stop\<close>. The wait while a session is in \<open>STARTING\<close> has nothing to wait for: no
  code stores that state.
\<close>

definition session_stop :: "ctl_session \<Rightarrow> ctl_session" where
  "session_stop s =
     (if cs_state s = RUNNING then s\<lparr>cs_state := STOPPING, cs_shutdown := True\<rparr> else s)"

definition input_passthrough :: "bytes \<Rightarrow> ctl_session \<Rightarrow> ctl_session" where
  "input_passthrough plaintext s = s\<lparr>cs_input := cs_input s @ [plaintext]\<rparr>"

section \<open>Handlers\<close>

definition signed_le :: "nat \<Rightarrow> bytes \<Rightarrow> int" where
  "signed_le n bs = (let v = int (le_nat (take n bs)) in if 2 ^ (8 * n - 1) \<le> v then v - 2 ^ (8 * n) else v)"

definition on_loss_stats :: "bytes \<Rightarrow> ctl_session \<Rightarrow> ctl_session option" where
  "on_loss_stats payload s = (if length payload < 16 then None else Some s)"

definition on_request_idr_frame :: "bytes \<Rightarrow> ctl_session \<Rightarrow> ctl_session option" where
  "on_request_idr_frame payload s = Some (s\<lparr>cs_idr := True\<rparr>)"

definition on_invalidate_ref_frames :: "bytes \<Rightarrow> ctl_session \<Rightarrow> ctl_session option" where
  "on_invalidate_ref_frames payload s =
     (if length payload < 16 then None
      else Some (s\<lparr>cs_invalidate := Some (signed_le 8 payload, signed_le 8 (drop 8 payload))\<rparr>))"

text \<open>
  Input of the older protocol: a big endian length, then tag and ciphertext under a chained
  IV. The length is the client's and is not compared with the payload.
\<close>

definition on_input_data ::
  "(bytes \<Rightarrow> bytes \<Rightarrow> bytes option) \<Rightarrow> bytes \<Rightarrow> ctl_session \<Rightarrow> ctl_session option" where
  "on_input_data dec payload s =
     (if length payload < 4 then None
      else
        let len = be_nat (take 4 payload); rest = drop 4 payload; iv = cs_legacy_iv s in
        if 2 ^ 31 \<le> len \<or> length rest < len \<or> len < 16 then None
        else case dec iv (take len rest) of
            None \<Rightarrow> Some (session_stop s)
          | Some plaintext \<Rightarrow>
              Some (input_passthrough plaintext
                (if 16 + length iv \<le> len
                 then s\<lparr>cs_legacy_iv := drop (length payload - 16) payload @ drop 16 iv\<rparr>
                 else s)))"

definition handle_plain ::
  "(bytes \<Rightarrow> bytes \<Rightarrow> bytes option) \<Rightarrow> u16 \<Rightarrow> bytes \<Rightarrow> ctl_session \<Rightarrow> ctl_session option" where
  "handle_plain dec msg_type payload s =
     (if msg_type = packet_type IDX_LOSS_STATS then on_loss_stats payload s
      else if msg_type = packet_type IDX_REQUEST_IDR_FRAME then on_request_idr_frame payload s
      else if msg_type = packet_type IDX_INVALIDATE_REF_FRAMES then on_invalidate_ref_frames payload s
      else if msg_type = packet_type IDX_INPUT_DATA then on_input_data dec payload s
      else Some s)"

text \<open>
  The encrypted envelope. \<open>payload\<close> starts behind the type, with length and sequence number.
  A decrypted message goes through \<open>call\<close> again, which for the types left is its handler.
\<close>

definition on_encrypted ::
  "(bytes \<Rightarrow> bytes \<Rightarrow> bytes option) \<Rightarrow> bytes \<Rightarrow> ctl_session \<Rightarrow> ctl_session option" where
  "on_encrypted dec payload s =
     (if length payload < 6 then None
      else
        let len = le_nat (take 2 payload);
            seq = word_of_nat (le_nat (take 4 (drop 2 payload))) in
        if len < 16 + 4 + 4 then Some s
        else if length payload < 2 + len then None
        else
          let iv = control_iv (cc_control_v2 (cs_crypto s)) 0x43 seq (cs_incoming_iv s);
              s1 = s\<lparr>cs_incoming_iv := iv\<rparr>
          in case dec iv (take (len - 4) (drop 6 payload)) of
               None \<Rightarrow> Some (session_stop s1)
             | Some plaintext \<Rightarrow>
                 if length plaintext < 4 then None
                 else
                   let msg_type = word_of_nat (le_nat (take 2 plaintext)) in
                   if msg_type = packet_type IDX_ENCRYPTED then Some (session_stop s1)
                   else if msg_type = packet_type IDX_INPUT_DATA
                   then Some (input_passthrough (drop 4 plaintext) s1)
                   else handle_plain dec msg_type (drop 4 plaintext) s1)"

text \<open>\<open>control_server_t::call\<close> on a message off the wire.\<close>

definition control_call ::
  "(bytes \<Rightarrow> bytes \<Rightarrow> bytes option) \<Rightarrow> u16 \<Rightarrow> bytes \<Rightarrow> ctl_session \<Rightarrow> ctl_session option" where
  "control_call dec msg_type payload s =
     (if cc_protocol_type (cs_crypto s) = 13 \<and> msg_type \<noteq> packet_type IDX_ENCRYPTED then Some s
      else if msg_type = packet_type IDX_ENCRYPTED then on_encrypted dec payload s
      else handle_plain dec msg_type payload s)"

section \<open>The server\<close>

record ctl_server =
  sv_sessions :: "nat list"
  sv_peers :: "nat \<Rightarrow> nat option"
  sv_store :: "nat \<Rightarrow> ctl_session"
  sv_wire :: "(nat \<times> bytes) list"
  sv_kicked :: "nat list"
  sv_cleared :: "u32 list"

definition store_session :: "nat \<Rightarrow> ctl_session \<Rightarrow> ctl_server \<Rightarrow> ctl_server" where
  "store_session i s sv = sv\<lparr>sv_store := (sv_store sv)(i := s)\<rparr>"

text \<open>\<open>control_server_t::get_session\<close>: by peer, then the first unclaimed session that matches.\<close>

definition claims :: "string \<Rightarrow> u32 \<Rightarrow> ctl_session \<Rightarrow> bool" where
  "claims peer_addr connect_data s \<longleftrightarrow>
     cs_peer s = None \<and>
     (if cs_session_id_v1 s then cs_connect_data s = connect_data
      else cs_expected_addr s = peer_addr)"

definition get_session ::
  "nat \<Rightarrow> string \<Rightarrow> string \<Rightarrow> u32 \<Rightarrow> ctl_server \<Rightarrow> nat option \<times> ctl_server" where
  "get_session peer peer_addr local_addr connect_data sv =
     (case sv_peers sv peer of
        Some i \<Rightarrow> (Some i, sv)
      | None \<Rightarrow>
          case find (\<lambda>i. claims peer_addr connect_data (sv_store sv i)) (sv_sessions sv) of
            None \<Rightarrow> (None, sv)
          | Some i \<Rightarrow>
              let s = sv_store sv i in
              (Some i,
               (store_session i (s\<lparr>cs_peer := Some peer, cs_local_addr := local_addr\<rparr>) sv)
                 \<lparr>sv_cleared := sv_cleared sv @ [cs_launch_id s],
                  sv_peers := (sv_peers sv)(peer := Some i)\<rparr>))"

datatype enet_kind = Ev_None | Ev_Connect | Ev_Disconnect | Ev_Receive (ev_packet: bytes)

record enet_event =
  ee_kind :: enet_kind
  ee_peer :: nat
  ee_data :: u32
  ee_peer_addr :: string
  ee_local_addr :: string

record ctl_env =
  ce_dec :: "nat \<Rightarrow> bytes \<Rightarrow> bytes \<Rightarrow> bytes option"
  ce_enc :: "nat \<Rightarrow> bytes \<Rightarrow> bytes \<Rightarrow> bytes option"
  ce_ping_timeout :: nat

text \<open>\<open>control_server_t::iterate\<close> on an event of the host.\<close>

definition ctl_iterate :: "ctl_env \<Rightarrow> nat \<Rightarrow> enet_event \<Rightarrow> ctl_server \<Rightarrow> ctl_server option" where
  "ctl_iterate env now ev sv =
     (case get_session (ee_peer ev) (ee_peer_addr ev) (ee_local_addr ev) (ee_data ev) sv of
        (None, sv') \<Rightarrow> Some (sv'\<lparr>sv_kicked := sv_kicked sv' @ [ee_peer ev]\<rparr>)
      | (Some i, sv') \<Rightarrow>
          let s = (sv_store sv' i)\<lparr>cs_ping_timeout := now + ce_ping_timeout env\<rparr> in
          case ee_kind ev of
            Ev_Receive packet \<Rightarrow>
              if length packet < 2 then None
              else map_option (\<lambda>s'. store_session i s' sv')
                     (control_call (ce_dec env i) (word_of_nat (le_nat (take 2 packet)))
                        (drop 2 packet) s)
          | Ev_Disconnect \<Rightarrow>
              Some (store_session i (if cs_state s = RUNNING then session_stop s else s) sv')
          | _ \<Rightarrow> Some (store_session i s sv'))"

section \<open>The pass over the sessions\<close>

definition send_plaintext :: "ctl_env \<Rightarrow> nat \<Rightarrow> nat \<Rightarrow> bytes \<Rightarrow> ctl_server \<Rightarrow> ctl_server" where
  "send_plaintext env i peer plaintext sv =
     (let s = sv_store sv i;
          (wire, crypto) = encode_control (ce_enc env i) plaintext (cs_crypto s)
      in (store_session i (s\<lparr>cs_crypto := crypto\<rparr>) sv)\<lparr>sv_wire := sv_wire sv @ [(peer, wire)]\<rparr>)"

definition send_feedback_msg :: "ctl_env \<Rightarrow> nat \<Rightarrow> gamepad_feedback \<Rightarrow> ctl_server \<Rightarrow> ctl_server" where
  "send_feedback_msg env i msg sv =
     (case (cs_peer (sv_store sv i), feedback_plaintext msg) of
        (Some peer, Some plaintext) \<Rightarrow> send_plaintext env i peer plaintext sv
      | _ \<Rightarrow> sv)"

definition send_hdr_mode :: "ctl_env \<Rightarrow> nat \<Rightarrow> hdr_info \<Rightarrow> ctl_server \<Rightarrow> ctl_server" where
  "send_hdr_mode env i h sv =
     (case cs_peer (sv_store sv i) of
        None \<Rightarrow> sv
      | Some peer \<Rightarrow> send_plaintext env i peer (hdr_plaintext h) sv)"

definition drain_session :: "ctl_env \<Rightarrow> nat \<Rightarrow> ctl_server \<Rightarrow> ctl_server" where
  "drain_session env i sv =
     (let msgs = cs_feedback (sv_store sv i);
          sv1 = fold (send_feedback_msg env i) msgs
                  (store_session i ((sv_store sv i)\<lparr>cs_feedback := []\<rparr>) sv)
      in case cs_hdr (sv_store sv1 i) of
           None \<Rightarrow> sv1
         | Some h \<Rightarrow>
             send_hdr_mode env i h (store_session i ((sv_store sv1 i)\<lparr>cs_hdr := None\<rparr>) sv1))"

definition remove_session :: "nat \<Rightarrow> ctl_session \<Rightarrow> ctl_server \<Rightarrow> ctl_server" where
  "remove_session i s sv =
     (store_session i (s\<lparr>cs_control_end := True\<rparr>) sv)
       \<lparr>sv_sessions := remove1 i (sv_sessions sv),
        sv_peers := (case cs_peer s of None \<Rightarrow> sv_peers sv | Some p \<Rightarrow> (sv_peers sv)(p := None)),
        sv_kicked := sv_kicked sv @ (case cs_peer s of None \<Rightarrow> [] | Some p \<Rightarrow> [p])\<rparr>"

text \<open>One session of the pass; the first component tells that it still awaits its peer.\<close>

definition visit_session :: "ctl_env \<Rightarrow> nat \<Rightarrow> nat \<Rightarrow> ctl_server \<Rightarrow> bool \<times> ctl_server" where
  "visit_session env now i sv =
     (let s0 = sv_store sv i;
          s = (if cs_ping_timeout s0 < now then session_stop s0 else s0);
          sv' = store_session i s sv
      in if cs_state s = STOPPING then (False, remove_session i s sv')
         else if cs_peer s = None then (True, sv')
         else (False, drain_session env i sv'))"

fun visit_sessions :: "ctl_env \<Rightarrow> nat \<Rightarrow> nat list \<Rightarrow> ctl_server \<Rightarrow> bool \<times> ctl_server" where
  "visit_sessions env now [] sv = (False, sv)"
| "visit_sessions env now (i # is) sv =
     (let (awaiting, sv') = visit_session env now i sv;
          (awaiting', sv'') = visit_sessions env now is sv'
      in (awaiting \<or> awaiting', sv''))"

text \<open>The pass, broken off before session number \<open>n\<close> when a shutdown is seen there.\<close>

definition control_pass :: "ctl_env \<Rightarrow> nat \<Rightarrow> nat \<Rightarrow> ctl_server \<Rightarrow> bool \<times> ctl_server" where
  "control_pass env now n sv = visit_sessions env now (take n (sv_sessions sv)) sv"

text \<open>One round of the loop; \<open>None\<close> in the first component leaves it.\<close>

definition control_round ::
  "ctl_env \<Rightarrow> nat \<Rightarrow> nat \<Rightarrow> bool \<Rightarrow> enet_event option \<Rightarrow> ctl_server \<Rightarrow> (bool \<times> ctl_server) option" where
  "control_round env now n app_running ev sv =
     (let (awaiting, sv') = control_pass env now n sv in
      if \<not> app_running \<and> \<not> awaiting then Some (False, sv')
      else case ev of
          None \<Rightarrow> Some (True, sv')
        | Some e \<Rightarrow> map_option (Pair True) (ctl_iterate env now e sv'))"

definition terminate_session :: "ctl_env \<Rightarrow> nat \<Rightarrow> ctl_server \<Rightarrow> ctl_server" where
  "terminate_session env i sv =
     (let sv' = (case cs_peer (sv_store sv i) of
                   None \<Rightarrow> sv
                 | Some p \<Rightarrow> send_plaintext env i p termination_plaintext sv)
      in store_session i ((sv_store sv' i)\<lparr>cs_shutdown := True, cs_control_end := True\<rparr>) sv')"

definition terminate_all :: "ctl_env \<Rightarrow> ctl_server \<Rightarrow> ctl_server" where
  "terminate_all env sv = fold (terminate_session env) (sv_sessions sv) sv"

text \<open>\<open>session::start\<close> adds a session that has no peer yet.\<close>

definition register_session :: "nat \<Rightarrow> ctl_session \<Rightarrow> ctl_server \<Rightarrow> ctl_server" where
  "register_session i s sv = (store_session i s sv)\<lparr>sv_sessions := sv_sessions sv @ [i]\<rparr>"

definition ctl_server_new :: "(nat \<Rightarrow> ctl_session) \<Rightarrow> ctl_server" where
  "ctl_server_new store = \<lparr>sv_sessions = [], sv_peers = (\<lambda>_. None), sv_store = store,
     sv_wire = [], sv_kicked = [], sv_cleared = []\<rparr>"

section \<open>Peers and sessions\<close>

text \<open>
  The peer map and the session list describe the same binding: a mapped session is registered
  and has that peer, and the peer of a registered session is mapped to it.
\<close>

definition server_ok :: "ctl_server \<Rightarrow> bool" where
  "server_ok sv \<longleftrightarrow>
     distinct (sv_sessions sv) \<and>
     (\<forall>p i. sv_peers sv p = Some i \<longleftrightarrow> i \<in> set (sv_sessions sv) \<and> cs_peer (sv_store sv i) = Some p)"

lemma session_stop_simps [simp]:
  "cs_peer (session_stop s) = cs_peer s" "cs_crypto (session_stop s) = cs_crypto s"
  "cs_input (session_stop s) = cs_input s" "cs_idr (session_stop s) = cs_idr s"
  "cs_invalidate (session_stop s) = cs_invalidate s"
  "cs_control_end (session_stop s) = cs_control_end s"
  "cs_ping_timeout (session_stop s) = cs_ping_timeout s"
  "cs_feedback (session_stop s) = cs_feedback s" "cs_hdr (session_stop s) = cs_hdr s"
  "cs_session_id_v1 (session_stop s) = cs_session_id_v1 s"
  "cs_connect_data (session_stop s) = cs_connect_data s"
  "cs_expected_addr (session_stop s) = cs_expected_addr s"
  by (simp_all add: session_stop_def)

lemmas handler_defs = on_loss_stats_def on_request_idr_frame_def on_invalidate_ref_frames_def
  on_input_data_def handle_plain_def on_encrypted_def control_call_def input_passthrough_def

lemma on_input_data_peer: "on_input_data dec payload s = Some s' \<Longrightarrow> cs_peer s' = cs_peer s"
  by (auto simp: on_input_data_def input_passthrough_def Let_def split: if_split_asm option.split_asm)

lemma handle_plain_peer: "handle_plain dec ty payload s = Some s' \<Longrightarrow> cs_peer s' = cs_peer s"
  by (auto simp: handle_plain_def on_loss_stats_def on_request_idr_frame_def
      on_invalidate_ref_frames_def dest: on_input_data_peer split: if_split_asm)

lemma on_encrypted_peer: "on_encrypted dec payload s = Some s' \<Longrightarrow> cs_peer s' = cs_peer s"
  by (auto simp: on_encrypted_def input_passthrough_def Let_def dest!: handle_plain_peer
      split: if_split_asm option.split_asm)

lemma control_call_peer: "control_call dec ty payload s = Some s' \<Longrightarrow> cs_peer s' = cs_peer s"
  by (auto simp: control_call_def dest: on_encrypted_peer handle_plain_peer split: if_split_asm)

lemma store_session_simps [simp]:
  "sv_sessions (store_session i s sv) = sv_sessions sv"
  "sv_peers (store_session i s sv) = sv_peers sv"
  "sv_store (store_session i s sv) = (sv_store sv)(i := s)"
  by (simp_all add: store_session_def)

lemma store_session_ok [inv_intros]:
  "server_ok sv \<Longrightarrow> cs_peer s = cs_peer (sv_store sv i) \<Longrightarrow> server_ok (store_session i s sv)"
  by (auto simp: server_ok_def)

lemma server_ok_same_peers:
  "server_ok sv \<Longrightarrow> sv_sessions sv' = sv_sessions sv \<Longrightarrow> sv_peers sv' = sv_peers sv \<Longrightarrow>
   (\<And>j. cs_peer (sv_store sv' j) = cs_peer (sv_store sv j)) \<Longrightarrow> server_ok sv'"
  by (simp add: server_ok_def)

lemma get_session_ok [inv_intros]:
  assumes "server_ok sv" and "get_session p addr local cd sv = (r, sv')"
  shows "server_ok sv' \<and> (\<forall>i. r = Some i \<longrightarrow> i \<in> set (sv_sessions sv') \<and> sv_peers sv' p = Some i)"
proof (cases "sv_peers sv p")
  case (Some i)
  with assms show ?thesis by (auto simp: get_session_def server_ok_def)
next
  case None
  show ?thesis
  proof (cases "find (\<lambda>i. claims addr cd (sv_store sv i)) (sv_sessions sv)")
    case None
    with assms \<open>sv_peers sv p = None\<close> show ?thesis by (auto simp: get_session_def)
  next
    case (Some i)
    then have i: "i \<in> set (sv_sessions sv)" "claims addr cd (sv_store sv i)"
      by (auto simp: find_Some_iff)
    then have free: "cs_peer (sv_store sv i) = None" by (simp add: claims_def)
    have "sv' = (store_session i ((sv_store sv i)\<lparr>cs_peer := Some p, cs_local_addr := local\<rparr>) sv)
        \<lparr>sv_cleared := sv_cleared sv @ [cs_launch_id (sv_store sv i)],
         sv_peers := (sv_peers sv)(p := Some i)\<rparr>" "r = Some i"
      using assms(2) \<open>sv_peers sv p = None\<close> Some by (auto simp: get_session_def Let_def)
    moreover have "cs_peer (sv_store sv j) \<noteq> Some p" if "j \<in> set (sv_sessions sv)" for j
      using assms(1) that \<open>sv_peers sv p = None\<close>
      unfolding server_ok_def by (metis option.distinct(1))
    ultimately show ?thesis using assms(1) i(1) free
      unfolding server_ok_def by (auto split: if_splits)
  qed
qed

lemma ctl_iterate_ok [inv_intros]:
  assumes "server_ok sv" and "ctl_iterate env now ev sv = Some sv'"
  shows "server_ok sv'"
proof -
  obtain r sv1 where g: "get_session (ee_peer ev) (ee_peer_addr ev) (ee_local_addr ev) (ee_data ev) sv
      = (r, sv1)" by fastforce
  note ok = get_session_ok [OF assms(1) g]
  show ?thesis
  proof (cases r)
    case None
    with assms(2) g ok show ?thesis by (auto simp: ctl_iterate_def server_ok_def)
  next
    case (Some i)
    with assms(2) g obtain s where s: "sv' = store_session i s sv1" "cs_peer s = cs_peer (sv_store sv1 i)"
      by (auto simp: ctl_iterate_def Let_def split: enet_kind.splits if_splits
          dest!: control_call_peer)
    with ok show ?thesis by (auto intro: store_session_ok)
  qed
qed

lemma send_plaintext_simps:
  "sv_sessions (send_plaintext env i p m sv) = sv_sessions sv"
  "sv_peers (send_plaintext env i p m sv) = sv_peers sv"
  "\<exists>crypto. sv_store (send_plaintext env i p m sv) =
     (sv_store sv)(i := (sv_store sv i)\<lparr>cs_crypto := crypto\<rparr>)"
  by (auto simp: send_plaintext_def Let_def store_session_def case_prod_beta)

lemma send_plaintext_ok [inv_intros]: "server_ok sv \<Longrightarrow> server_ok (send_plaintext env i p m sv)"
  using send_plaintext_simps [of env i p m sv] by (auto intro!: server_ok_same_peers [of sv])

lemma send_feedback_msg_ok [inv_intros]: "server_ok sv \<Longrightarrow> server_ok (send_feedback_msg env i msg sv)"
  by (simp add: send_feedback_msg_def send_plaintext_ok split: option.split)

lemma send_hdr_mode_ok [inv_intros]: "server_ok sv \<Longrightarrow> server_ok (send_hdr_mode env i h sv)"
  by (simp add: send_hdr_mode_def send_plaintext_ok split: option.split)

lemma fold_feedback_ok: "server_ok sv \<Longrightarrow> server_ok (fold (send_feedback_msg env i) msgs sv)"
  by (induction msgs arbitrary: sv) (simp_all add: send_feedback_msg_ok)

lemma drain_session_ok [inv_intros]:
  assumes "server_ok sv"
  shows "server_ok (drain_session env i sv)"
proof -
  define sv1 where "sv1 = fold (send_feedback_msg env i) (cs_feedback (sv_store sv i))
    (store_session i ((sv_store sv i)\<lparr>cs_feedback := []\<rparr>) sv)"
  have sv1: "server_ok sv1"
    unfolding sv1_def by (rule fold_feedback_ok, rule store_session_ok [OF assms]) simp
  show ?thesis
  proof (cases "cs_hdr (sv_store sv1 i)")
    case None
    with sv1 show ?thesis by (simp add: drain_session_def Let_def sv1_def [symmetric])
  next
    case (Some h)
    have "server_ok (send_hdr_mode env i h (store_session i ((sv_store sv1 i)\<lparr>cs_hdr := None\<rparr>) sv1))"
      by (rule send_hdr_mode_ok, rule store_session_ok [OF sv1]) simp
    with Some show ?thesis by (simp add: drain_session_def Let_def sv1_def [symmetric])
  qed
qed

lemma remove_session_ok [inv_intros]:
  assumes "server_ok sv" and "cs_peer s = cs_peer (sv_store sv i)" and "i \<in> set (sv_sessions sv)"
  shows "server_ok (remove_session i s sv)"
proof (cases "cs_peer (sv_store sv i)")
  case None
  with assms show ?thesis unfolding server_ok_def remove_session_def by auto
next
  case (Some p)
  with assms(1,3) have "cs_peer (sv_store sv j) \<noteq> Some p" if "j \<in> set (sv_sessions sv)" "j \<noteq> i" for j
    using that unfolding server_ok_def by (metis option.inject)
  with assms Some show ?thesis unfolding server_ok_def remove_session_def by auto
qed

text \<open>What sending and draining leave alone: everything but session \<open>i\<close>'s cipher state and queues.\<close>

definition frame_of :: "nat \<Rightarrow> ctl_server \<Rightarrow> ctl_server \<Rightarrow> bool" where
  "frame_of i sv sv' \<longleftrightarrow>
     sv_sessions sv' = sv_sessions sv \<and> sv_peers sv' = sv_peers sv \<and>
     (\<exists>crypto fb hdr. sv_store sv' = (sv_store sv)
        (i := (sv_store sv i)\<lparr>cs_crypto := crypto, cs_feedback := fb, cs_hdr := hdr\<rparr>))"

lemma ctl_session_same: "s\<lparr>cs_crypto := cs_crypto s, cs_feedback := cs_feedback s, cs_hdr := cs_hdr s\<rparr> = s"
  by simp

lemma frame_of_refl: "frame_of i sv sv"
  unfolding frame_of_def by (metis ctl_session_same fun_upd_triv)

lemma frame_of_trans: "frame_of i a b \<Longrightarrow> frame_of i b c \<Longrightarrow> frame_of i a c"
  unfolding frame_of_def by fastforce

lemma frame_of_store:
  "frame_of i sv (store_session i
     ((sv_store sv i)\<lparr>cs_crypto := crypto, cs_feedback := fb, cs_hdr := hdr\<rparr>) sv)"
  unfolding frame_of_def by auto

lemma frame_send_plaintext: "frame_of i sv (send_plaintext env i p m sv)"
proof -
  obtain crypto where "sv_store (send_plaintext env i p m sv) =
      (sv_store sv)(i := (sv_store sv i)\<lparr>cs_crypto := crypto\<rparr>)"
    using send_plaintext_simps(3) by blast
  then have "sv_store (send_plaintext env i p m sv) = (sv_store sv)(i := (sv_store sv i)
      \<lparr>cs_crypto := crypto, cs_feedback := cs_feedback (sv_store sv i), cs_hdr := cs_hdr (sv_store sv i)\<rparr>)"
    by simp
  then show ?thesis unfolding frame_of_def using send_plaintext_simps(1,2) by blast
qed

lemma frame_send_feedback_msg: "frame_of i sv (send_feedback_msg env i msg sv)"
  by (simp add: send_feedback_msg_def frame_send_plaintext frame_of_refl split: option.split)

lemma frame_fold_feedback: "frame_of i sv (fold (send_feedback_msg env i) msgs sv)"
  by (induction msgs arbitrary: sv) (auto intro: frame_of_refl frame_of_trans frame_send_feedback_msg)

lemma frame_send_hdr_mode: "frame_of i sv (send_hdr_mode env i h sv)"
  by (simp add: send_hdr_mode_def frame_send_plaintext frame_of_refl split: option.split)

lemma frame_clear_feedback: "frame_of i sv (store_session i ((sv_store sv i)\<lparr>cs_feedback := []\<rparr>) sv)"
  using frame_of_store [where i = i and sv = sv and crypto = "cs_crypto (sv_store sv i)"
    and fb = "[]" and hdr = "cs_hdr (sv_store sv i)"] by simp

lemma frame_clear_hdr: "frame_of i sv (store_session i ((sv_store sv i)\<lparr>cs_hdr := None\<rparr>) sv)"
  using frame_of_store [where i = i and sv = sv and crypto = "cs_crypto (sv_store sv i)"
    and fb = "cs_feedback (sv_store sv i)" and hdr = None] by simp

lemma frame_drain_session: "frame_of i sv (drain_session env i sv)"
proof -
  let ?sv1 = "fold (send_feedback_msg env i) (cs_feedback (sv_store sv i))
    (store_session i ((sv_store sv i)\<lparr>cs_feedback := []\<rparr>) sv)"
  have 1: "frame_of i sv ?sv1" by (rule frame_of_trans [OF frame_clear_feedback frame_fold_feedback])
  have 2: "frame_of i sv (send_hdr_mode env i h
      (store_session i ((sv_store ?sv1 i)\<lparr>cs_hdr := None\<rparr>) ?sv1))" for h
    by (rule frame_of_trans [OF 1 frame_of_trans [OF frame_clear_hdr frame_send_hdr_mode]])
  show ?thesis unfolding drain_session_def Let_def
    by (cases "cs_hdr (sv_store ?sv1 i)") (simp_all only: option.case 1 2)
qed

lemma frame_of_fields:
  assumes "frame_of i sv sv'"
  shows "cs_peer (sv_store sv' j) = cs_peer (sv_store sv j)"
    and "cs_state (sv_store sv' j) = cs_state (sv_store sv j)"
    and "cs_ping_timeout (sv_store sv' j) = cs_ping_timeout (sv_store sv j)"
    and "cs_control_end (sv_store sv' j) = cs_control_end (sv_store sv j)"
    and "j \<noteq> i \<Longrightarrow> sv_store sv' j = sv_store sv j"
    and "sv_sessions sv' = sv_sessions sv" and "sv_peers sv' = sv_peers sv"
  using assms by (auto simp: frame_of_def split: if_splits)

section \<open>What a visit does\<close>

definition visited :: "nat \<Rightarrow> ctl_session \<Rightarrow> ctl_session" where
  "visited now s = (if cs_ping_timeout s < now then session_stop s else s)"

lemma visited_simps [simp]:
  "cs_peer (visited now s) = cs_peer s" "cs_control_end (visited now s) = cs_control_end s"
  "cs_ping_timeout (visited now s) = cs_ping_timeout s"
  by (simp_all add: visited_def)

lemma visit_session_cases:
  assumes "visit_session env now i sv = (awaiting, sv')" and "server_ok sv" and "i \<in> set (sv_sessions sv)"
  shows "server_ok sv' \<and> (\<forall>j. j \<noteq> i \<longrightarrow> sv_store sv' j = sv_store sv j) \<and>
    cs_state (sv_store sv' i) = cs_state (visited now (sv_store sv i)) \<and>
    cs_peer (sv_store sv' i) = cs_peer (sv_store sv i) \<and>
    cs_ping_timeout (sv_store sv' i) = cs_ping_timeout (sv_store sv i) \<and>
    (if cs_state (visited now (sv_store sv i)) = STOPPING
     then sv_sessions sv' = remove1 i (sv_sessions sv) \<and> cs_control_end (sv_store sv' i) \<and>
       \<not> awaiting
     else sv_sessions sv' = sv_sessions sv \<and>
       (awaiting \<longleftrightarrow> cs_peer (sv_store sv i) = None))"
proof -
  let ?s = "visited now (sv_store sv i)"
  let ?sv = "store_session i ?s sv"
  have ok: "server_ok ?sv" using assms(2) by (intro store_session_ok) simp_all
  have v: "visit_session env now i sv =
      (if cs_state ?s = STOPPING then (False, remove_session i ?s ?sv)
       else if cs_peer ?s = None then (True, ?sv) else (False, drain_session env i ?sv))"
    unfolding visit_session_def Let_def visited_def [symmetric] by simp
  note fr = frame_of_fields [OF frame_drain_session [of i ?sv env]]
  show ?thesis
  proof (cases "cs_state ?s = STOPPING")
    case True
    have "server_ok (remove_session i ?s ?sv)"
      using ok assms(3) by (intro remove_session_ok) simp_all
    with True v assms(1) show ?thesis by (auto simp: remove_session_def)
  next
    case False
    show ?thesis
    proof (cases "cs_peer ?s")
      case None
      with False v assms(1) ok show ?thesis by auto
    next
      case (Some p)
      with False v assms(1) drain_session_ok [OF ok, of env i] fr show ?thesis
        by (auto simp: fr)
    qed
  qed
qed

lemma visit_sessions_result:
  assumes "server_ok sv" and "distinct is" and "set is \<subseteq> set (sv_sessions sv)"
    and "visit_sessions env now is sv = (awaiting, sv')"
  shows "server_ok sv' \<and>
    (\<forall>j. j \<notin> set is \<longrightarrow> sv_store sv' j = sv_store sv j) \<and>
    (\<forall>j \<in> set is. cs_state (sv_store sv' j) = cs_state (visited now (sv_store sv j)) \<and>
       cs_ping_timeout (sv_store sv' j) = cs_ping_timeout (sv_store sv j) \<and>
       cs_peer (sv_store sv' j) = cs_peer (sv_store sv j) \<and>
       (cs_state (visited now (sv_store sv j)) = STOPPING \<longrightarrow> cs_control_end (sv_store sv' j))) \<and>
    set (sv_sessions sv') = set (sv_sessions sv) -
      {j \<in> set is. cs_state (visited now (sv_store sv j)) = STOPPING} \<and>
    (awaiting \<longleftrightarrow> (\<exists>j \<in> set is. cs_state (visited now (sv_store sv j)) \<noteq> STOPPING \<and>
       cs_peer (sv_store sv j) = None))"
  using assms
proof (induction "is" arbitrary: sv awaiting sv')
  case (Cons i "is")
  obtain a1 sv1 where v: "visit_session env now i sv = (a1, sv1)" by fastforce
  obtain a2 sv2 where r: "visit_sessions env now is sv1 = (a2, sv2)" by fastforce
  have e: "awaiting = (a1 \<or> a2)" "sv' = sv2" using Cons.prems(4) v r by auto
  have i: "i \<in> set (sv_sessions sv)" "i \<notin> set is" "distinct is" using Cons.prems by auto
  note V = visit_session_cases [OF v Cons.prems(1) i(1)]
  have d: "distinct (sv_sessions sv)" using Cons.prems(1) by (simp add: server_ok_def)
  have sessions: "set (sv_sessions sv1) =
      set (sv_sessions sv) - (if cs_state (visited now (sv_store sv i)) = STOPPING then {i} else {})"
    using V d by (auto split: if_splits)
  have sub: "set is \<subseteq> set (sv_sessions sv1)" using sessions Cons.prems(3) i(2) by auto
  have same: "sv_store sv1 j = sv_store sv j" if "j \<in> set is" for j using V that i(2) by auto
  note IH = Cons.IH [OF conjunct1 [OF V] i(3) sub r]
  have eq: "(\<exists>j \<in> set is. cs_state (visited now (sv_store sv1 j)) \<noteq> STOPPING \<and>
        cs_peer (sv_store sv1 j) = None) \<longleftrightarrow>
      (\<exists>j \<in> set is. cs_state (visited now (sv_store sv j)) \<noteq> STOPPING \<and> cs_peer (sv_store sv j) = None)"
    "{j \<in> set is. cs_state (visited now (sv_store sv1 j)) = STOPPING} =
      {j \<in> set is. cs_state (visited now (sv_store sv j)) = STOPPING}"
    using same by auto
  show ?case unfolding e
  proof (intro conjI)
    show "server_ok sv2" using IH by blast
    show "\<forall>j. j \<notin> set (i # is) \<longrightarrow> sv_store sv2 j = sv_store sv j" using IH V by simp
    show "\<forall>j \<in> set (i # is). cs_state (sv_store sv2 j) = cs_state (visited now (sv_store sv j)) \<and>
       cs_ping_timeout (sv_store sv2 j) = cs_ping_timeout (sv_store sv j) \<and>
       cs_peer (sv_store sv2 j) = cs_peer (sv_store sv j) \<and>
       (cs_state (visited now (sv_store sv j)) = STOPPING \<longrightarrow> cs_control_end (sv_store sv2 j))"
      using IH V same i(2) by (auto split: if_splits)
    show "set (sv_sessions sv2) = set (sv_sessions sv) -
      {j \<in> set (i # is). cs_state (visited now (sv_store sv j)) = STOPPING}"
      using IH sessions eq(2) by auto
    show "(a1 \<or> a2) \<longleftrightarrow> (\<exists>j \<in> set (i # is). cs_state (visited now (sv_store sv j)) \<noteq> STOPPING \<and>
       cs_peer (sv_store sv j) = None)"
      using IH V eq(1) by (auto split: if_splits)
  qed
qed simp

section \<open>Steps of the server\<close>

text \<open>
  What the threads of the program do to the server between two rounds of the loop: register a
  session, stop one, queue feedback for one; and the loop's own steps.
\<close>

inductive ctl_step :: "ctl_env \<Rightarrow> ctl_server \<Rightarrow> ctl_server \<Rightarrow> bool" for env where
  step_register: "i \<notin> set (sv_sessions sv) \<Longrightarrow> cs_peer s = None \<Longrightarrow>
    ctl_step env sv (register_session i s sv)"
| step_stop: "ctl_step env sv (store_session i (session_stop (sv_store sv i)) sv)"
| step_queue: "ctl_step env sv
    (store_session i ((sv_store sv i)\<lparr>cs_feedback := fb, cs_hdr := hdr\<rparr>) sv)"
| step_pass: "ctl_step env sv (snd (control_pass env now n sv))"
| step_iterate: "ctl_iterate env now ev sv = Some sv' \<Longrightarrow> ctl_step env sv sv'"
| step_terminate: "ctl_step env sv (terminate_all env sv)"

lemma control_pass_ok: "server_ok sv \<Longrightarrow> server_ok (snd (control_pass env now n sv))"
proof -
  assume ok: "server_ok sv"
  obtain a sv' where v: "visit_sessions env now (take n (sv_sessions sv)) sv = (a, sv')" by fastforce
  have "distinct (take n (sv_sessions sv))" using ok by (simp add: server_ok_def)
  from visit_sessions_result [OF ok this set_take_subset v] v show ?thesis
    by (simp add: control_pass_def)
qed

lemma terminate_session_ok: "server_ok sv \<Longrightarrow> server_ok (terminate_session env i sv)"
  unfolding terminate_session_def Let_def
  by (cases "cs_peer (sv_store sv i)") (auto intro!: store_session_ok send_plaintext_ok)

lemma terminate_fold_ok: "server_ok sv \<Longrightarrow> server_ok (fold (terminate_session env) is sv)"
  by (induction "is" arbitrary: sv) (simp_all add: terminate_session_ok)

lemma register_session_ok:
  assumes "server_ok sv" and "i \<notin> set (sv_sessions sv)" and "cs_peer s = None"
  shows "server_ok (register_session i s sv)"
proof -
  have "sv_peers sv p \<noteq> Some i" for p using assms(1,2) by (auto simp: server_ok_def)
  with assms show ?thesis by (auto simp: server_ok_def register_session_def)
qed

interpretation ctl: invariant_system "ctl_step env" server_ok
proof unfold_locales
  fix sv sv' assume "ctl_step env sv sv'" and "server_ok sv"
  then show "server_ok sv'"
    by cases (auto intro: register_session_ok store_session_ok control_pass_ok ctl_iterate_ok
        terminate_fold_ok simp: terminate_all_def)
qed

lemma server_new_ok: "server_ok (ctl_server_new store)"
  by (simp add: server_ok_def ctl_server_new_def)

section \<open>Properties\<close>

text \<open>
  (C9) In every reachable state of the control server the peer map and the session list agree:
  a peer is mapped to exactly the registered session that has it, so no entry outlives its
  session and no two sessions share a peer.
\<close>
theorem control_peers_match_sessions:
  assumes "(ctl_step env)\<^sup>*\<^sup>* (ctl_server_new store) sv"
  shows "sv_peers sv p = Some i \<longleftrightarrow> i \<in> set (sv_sessions sv) \<and> cs_peer (sv_store sv i) = Some p"
  using ctl.steps_ok [OF assms server_new_ok] by (simp add: server_ok_def)

definition sample_crypto :: control_crypto where
  "sample_crypto = \<lparr>cc_protocol_type = 13, cc_control_v2 = True, cc_seq = 0, cc_outgoing_iv = []\<rparr>"

definition sample_session :: ctl_session where
  "sample_session = \<lparr>cs_crypto = sample_crypto, cs_incoming_iv = [], cs_legacy_iv = [],
     cs_session_id_v1 = True, cs_connect_data = 5, cs_expected_addr = [], cs_launch_id = 1,
     cs_peer = None, cs_local_addr = [], cs_ping_timeout = 10, cs_state = RUNNING,
     cs_shutdown = False, cs_control_end = False, cs_feedback = [], cs_hdr = None, cs_input = [],
     cs_idr = False, cs_invalidate = None\<rparr>"

definition sample_ctl_env :: ctl_env where
  "sample_ctl_env = \<lparr>ce_dec = (\<lambda>_ _ m. Some (drop 16 m)), ce_enc = (\<lambda>_ _ m. Some (replicate 16 0 @ m)),
     ce_ping_timeout = 10\<rparr>"

definition sample_event :: "enet_kind \<Rightarrow> enet_event" where
  "sample_event k = \<lparr>ee_kind = k, ee_peer = 3, ee_data = 5, ee_peer_addr = [], ee_local_addr = []\<rparr>"

definition sample_server :: ctl_server where
  "sample_server = register_session 0 sample_session (ctl_server_new (\<lambda>_. sample_session))"

lemma sample_bound:
  "\<exists>sv. ctl_iterate sample_ctl_env 0 (sample_event Ev_Connect) sample_server = Some sv \<and>
     sv_peers sv 3 = Some 0"
  by (simp add: ctl_iterate_def sample_event_def get_session_def sample_server_def
      register_session_def ctl_server_new_def claims_def sample_session_def Let_def)

theorem control_peers_match_sessions_witness:
  "\<exists>sv. (ctl_step sample_ctl_env)\<^sup>*\<^sup>* (ctl_server_new (\<lambda>_. sample_session)) sv \<and>
     sv_peers sv 3 = Some 0 \<and> 0 \<in> set (sv_sessions sv) \<and> cs_peer (sv_store sv 0) = Some 3"
proof -
  obtain sv where sv: "ctl_iterate sample_ctl_env 0 (sample_event Ev_Connect) sample_server = Some sv"
    "sv_peers sv 3 = Some 0" using sample_bound by blast
  have "ctl_step sample_ctl_env (ctl_server_new (\<lambda>_. sample_session)) sample_server"
    unfolding sample_server_def
    by (rule step_register) (simp_all add: ctl_server_new_def sample_session_def)
  then have "(ctl_step sample_ctl_env)\<^sup>*\<^sup>* (ctl_server_new (\<lambda>_. sample_session)) sv"
    using step_iterate [OF sv(1)] by (meson converse_rtranclp_into_rtranclp r_into_rtranclp)
  with control_peers_match_sessions [OF this, of 3 0] sv(2) show ?thesis by blast
qed

text \<open>
  (C25) A complete pass over the sessions leaves none that is stopping: each of those is taken
  off the list and the peer map with its end-of-control signal raised, which is what the
  joining thread waits for; a running session that remains has a ping deadline not yet passed;
  and the pass reports a session awaiting its peer exactly when one remains.
\<close>
theorem control_pass_cleans_up:
  assumes "(ctl_step env)\<^sup>*\<^sup>* (ctl_server_new store) sv"
    and "control_pass env now (length (sv_sessions sv)) sv = (awaiting, sv')"
  shows "(\<forall>i \<in> set (sv_sessions sv'). cs_state (sv_store sv' i) \<noteq> STOPPING \<and>
      (cs_state (sv_store sv' i) = RUNNING \<longrightarrow> now \<le> cs_ping_timeout (sv_store sv' i))) \<and>
    (\<forall>i \<in> set (sv_sessions sv) - set (sv_sessions sv').
      cs_state (sv_store sv' i) = STOPPING \<and> cs_control_end (sv_store sv' i) \<and>
      (\<forall>p. sv_peers sv' p \<noteq> Some i)) \<and>
    set (sv_sessions sv') \<subseteq> set (sv_sessions sv) \<and>
    (awaiting \<longleftrightarrow> (\<exists>i \<in> set (sv_sessions sv'). cs_peer (sv_store sv' i) = None))"
proof -
  have ok: "server_ok sv" by (rule ctl.steps_ok [OF assms(1) server_new_ok])
  then have d: "distinct (sv_sessions sv)" by (simp add: server_ok_def)
  have v: "visit_sessions env now (sv_sessions sv) sv = (awaiting, sv')"
    using assms(2) by (simp add: control_pass_def)
  note R = visit_sessions_result [OF ok d subset_refl v]
  have running: "now \<le> cs_ping_timeout s" if "cs_state (visited now s) = RUNNING" for s
    using that by (auto simp: visited_def session_stop_def split: if_splits)
  have peers: "sv_peers sv' p \<noteq> Some i" if "i \<notin> set (sv_sessions sv')" for i p
    using R that by (auto simp: server_ok_def)
  show ?thesis using R running peers by auto
qed

theorem control_pass_cleans_up_witness:
  "\<exists>awaiting sv'. control_pass sample_ctl_env 20 1 sample_server = (awaiting, sv') \<and>
     sv_sessions sv' = [] \<and> cs_control_end (sv_store sv' 0)"
proof -
  obtain awaiting sv' where p: "control_pass sample_ctl_env 20 1 sample_server = (awaiting, sv')"
    by fastforce
  have "ctl_step sample_ctl_env (ctl_server_new (\<lambda>_. sample_session)) sample_server"
    unfolding sample_server_def
    by (rule step_register) (simp_all add: ctl_server_new_def sample_session_def)
  then have r: "(ctl_step sample_ctl_env)\<^sup>*\<^sup>* (ctl_server_new (\<lambda>_. sample_session)) sample_server" by blast
  have one: "sv_sessions sample_server = [0]"
    by (simp add: sample_server_def register_session_def ctl_server_new_def)
  have "sv_sessions sv' = []"
    using p by (auto simp: control_pass_def one visit_session_def sample_server_def sample_session_def
        session_stop_def remove_session_def register_session_def ctl_server_new_def Let_def)
  with control_pass_cleans_up [OF r, of 20 awaiting sv'] p one show ?thesis by auto
qed


lemma sample_call:
  "control_call (\<lambda>_ m. Some (drop 16 m)) (packet_type IDX_ENCRYPTED)
     (le_bytes 2 24 @ le_bytes 4 0 @ replicate 16 0 @ [0x02, 0x03, 0, 0]) sample_session =
   Some (sample_session\<lparr>cs_incoming_iv := control_iv True 0x43 0 [], cs_idr := True\<rparr>)"
  by (simp add: control_call_def on_encrypted_def handle_plain_def on_request_idr_frame_def
      sample_session_def sample_crypto_def Let_def le_nat_le_bytes)


text \<open>
  An event of the control host touches one session at most: the one its peer is mapped to
  or, for a new peer, a registered session without a peer whose session id or expected address
  it matches; for any other peer no session changes and the peer is disconnected.
\<close>
theorem iterate_touches_own_session:
  assumes "ctl_iterate env now ev sv = Some sv'"
  shows "(\<forall>j. sv_store sv' j \<noteq> sv_store sv j \<longrightarrow>
      sv_peers sv (ee_peer ev) = Some j \<or>
      sv_peers sv (ee_peer ev) = None \<and> j \<in> set (sv_sessions sv) \<and>
        cs_peer (sv_store sv j) = None \<and>
        (if cs_session_id_v1 (sv_store sv j) then cs_connect_data (sv_store sv j) = ee_data ev
         else cs_expected_addr (sv_store sv j) = ee_peer_addr ev)) \<and>
    (fst (get_session (ee_peer ev) (ee_peer_addr ev) (ee_local_addr ev) (ee_data ev) sv) = None \<longrightarrow>
      sv_store sv' = sv_store sv \<and> ee_peer ev \<in> set (sv_kicked sv'))"
proof -
  obtain r sv1 where g: "get_session (ee_peer ev) (ee_peer_addr ev) (ee_local_addr ev) (ee_data ev) sv
      = (r, sv1)" by fastforce
  have store: "sv_store sv1 = sv_store sv" if "r = None"
    using g that by (auto simp: get_session_def Let_def split: option.split_asm)
  have own: "sv_peers sv (ee_peer ev) = Some i \<or> sv_peers sv (ee_peer ev) = None \<and>
      i \<in> set (sv_sessions sv) \<and> claims (ee_peer_addr ev) (ee_data ev) (sv_store sv i)"
    and "\<And>j. j \<noteq> i \<Longrightarrow> sv_store sv1 j = sv_store sv j" if "r = Some i" for i
    using g that by (auto simp: get_session_def Let_def find_Some_iff split: option.split_asm)
  note other = this(2)
  show ?thesis
  proof (cases r)
    case None
    with assms g store show ?thesis by (auto simp: ctl_iterate_def)
  next
    case (Some i)
    with assms g obtain s where "sv' = store_session i s sv1"
      by (auto simp: ctl_iterate_def Let_def split: enet_kind.splits if_splits)
    with own [OF Some] other [OF Some] g Some show ?thesis
      by (auto simp: claims_def split: if_splits)
  qed
qed

theorem iterate_touches_own_session_witness:
  "\<exists>sv'. ctl_iterate sample_ctl_env 0 (sample_event Ev_Connect) sample_server = Some sv' \<and>
     (\<forall>j. j \<noteq> 0 \<longrightarrow> sv_store sv' j = sv_store sample_server j)"
proof -
  obtain sv where sv: "ctl_iterate sample_ctl_env 0 (sample_event Ev_Connect) sample_server = Some sv"
    "sv_peers sv 3 = Some 0" using sample_bound by blast
  have "sv_peers sample_server 3 = None" "set (sv_sessions sample_server) = {0}"
    by (simp_all add: sample_server_def register_session_def ctl_server_new_def)
  with iterate_touches_own_session [OF sv(1)] sv(1) show ?thesis
    by (auto simp: sample_event_def)
qed

text \<open>
  The length an encrypted packet declares is not compared with the packet: with any
  declared length from 24 up that is longer than what arrived, the handler reads past the
  packet's buffer.
\<close>
theorem encrypted_length_unchecked:
  assumes "24 \<le> len" and "len < 2 ^ 16" and "length body < len - 4" and "length seq = 4"
  shows "control_call dec (packet_type IDX_ENCRYPTED) (le_bytes 2 len @ seq @ body) s = None"
proof -
  have "4 + length body < len" using assms(1,3) by linarith
  with assms show ?thesis by (simp add: control_call_def on_encrypted_def le_nat_le_bytes)
qed

theorem encrypted_length_unchecked_witness:
  "control_call (\<lambda>_ _. None) (packet_type IDX_ENCRYPTED)
     (le_bytes 2 60000 @ [0, 0, 0, 0] @ []) sample_session = None"
  by (rule encrypted_length_unchecked) simp_all

end
