(* ===== verification/Session_Life.thy ===== *)
theory Session_Life
  imports Control_Server "HOL-Library.Sublist"
begin

text \<open>
  The life of a streaming session in \<open>src/stream.cpp\<close>: \<open>session::start\<close>, \<open>stop\<close> and \<open>join\<close>
  interleaved with the video and audio threads and the control thread, the count of running
  sessions with its platform callbacks, and the routing of the first ping of each stream
  (\<open>recvThread\<close> and \<open>recv_ping\<close>).
\<close>

section \<open>Start, workers and stop\<close>

text \<open>
  Where the thread in \<open>start\<close> is: before the session list, after it, after each worker it
  launches, and after the store of \<open>RUNNING\<close>. A worker waits for its ping and captures until
  it returns; its guard then calls \<open>session::stop\<close>.
\<close>

datatype start_pc = Allocated | Registered | Audio_Launched | Video_Launched | Started

datatype worker_pc = Not_Launched | Working | Returned

record life =
  li_start :: start_pc
  li_audio :: worker_pc
  li_video :: worker_pc
  li_state :: state_e
  li_shutdown :: bool
  li_control_end :: bool
  li_joined :: bool

definition life_alloc :: life where
  "life_alloc = \<lparr>li_start = Allocated, li_audio = Not_Launched, li_video = Not_Launched,
     li_state = STOPPED, li_shutdown = False, li_control_end = False, li_joined = False\<rparr>"

definition life_stop :: "life \<Rightarrow> life" where
  "life_stop l =
     (if li_state l = RUNNING then l\<lparr>li_state := STOPPING, li_shutdown := True\<rparr> else l)"

text \<open>
  \<open>step_audio_returns\<close>, \<open>step_video_returns\<close>: a ping timeout or the end of the capture, at
  any time. \<open>step_control_stops\<close>: ping timeout, bad tag or disconnect seen by the control
  thread on a registered session. \<open>step_control_ends\<close>: the control thread's pass.
\<close>

inductive life_step :: "life \<Rightarrow> life \<Rightarrow> bool" where
  step_register_session: "li_start l = Allocated \<Longrightarrow> life_step l (l\<lparr>li_start := Registered\<rparr>)"
| step_launch_audio: "li_start l = Registered \<Longrightarrow>
    life_step l (l\<lparr>li_start := Audio_Launched, li_audio := Working\<rparr>)"
| step_launch_video: "li_start l = Audio_Launched \<Longrightarrow>
    life_step l (l\<lparr>li_start := Video_Launched, li_video := Working\<rparr>)"
| step_store_running: "li_start l = Video_Launched \<Longrightarrow>
    life_step l (l\<lparr>li_start := Started, li_state := RUNNING\<rparr>)"
| step_audio_returns: "li_audio l = Working \<Longrightarrow> li_state l \<noteq> STARTING \<Longrightarrow>
    life_step l (life_stop (l\<lparr>li_audio := Returned\<rparr>))"
| step_video_returns: "li_video l = Working \<Longrightarrow> li_state l \<noteq> STARTING \<Longrightarrow>
    life_step l (life_stop (l\<lparr>li_video := Returned\<rparr>))"
| step_control_stops: "li_start l \<noteq> Allocated \<Longrightarrow> \<not> li_control_end l \<Longrightarrow> li_state l \<noteq> STARTING \<Longrightarrow>
    life_step l (life_stop l)"
| step_control_ends: "li_start l \<noteq> Allocated \<Longrightarrow> li_state l = STOPPING \<Longrightarrow>
    life_step l (l\<lparr>li_control_end := True\<rparr>)"
| step_join: "li_start l = Started \<Longrightarrow> li_audio l = Returned \<Longrightarrow> li_video l = Returned \<Longrightarrow>
    li_control_end l \<Longrightarrow> life_step l (l\<lparr>li_joined := True\<rparr>)"

inductive_cases life_step_cases: "life_step l l'"

definition life_ok :: "life \<Rightarrow> bool" where
  "life_ok l \<longleftrightarrow>
     li_state l \<noteq> STARTING \<and>
     (li_state l = STOPPED \<longleftrightarrow> li_start l \<noteq> Started) \<and>
     (li_shutdown l \<longleftrightarrow> li_state l = STOPPING) \<and>
     (li_control_end l \<longrightarrow> li_state l = STOPPING) \<and>
     (li_joined l \<longrightarrow> li_control_end l \<and> li_audio l = Returned \<and> li_video l = Returned) \<and>
     (li_audio l = Not_Launched \<longleftrightarrow> li_start l \<in> {Allocated, Registered}) \<and>
     (li_video l = Not_Launched \<longleftrightarrow> li_start l \<in> {Allocated, Registered, Audio_Launched})"

interpretation lif: invariant_system life_step life_ok
proof unfold_locales
  fix l l' assume "life_step l l'" and "life_ok l"
  then show "life_ok l'"
    by (cases rule: life_step.cases) (auto simp: life_ok_def life_stop_def split: if_splits)
qed

lemma life_alloc_ok: "life_ok life_alloc"
  by (simp add: life_ok_def life_alloc_def)

section \<open>The running sessions\<close>

datatype platform_call = Streaming_Will_Start | Streaming_Will_Stop

definition session_started :: "nat \<times> platform_call list \<Rightarrow> nat \<times> platform_call list" where
  "session_started r = (let n = fst r + 1 in (n, snd r @ (if n = 1 then [Streaming_Will_Start] else [])))"

definition session_joined :: "nat \<times> platform_call list \<Rightarrow> nat \<times> platform_call list" where
  "session_joined r = (let n = fst r - 1 in (n, snd r @ (if n = 0 then [Streaming_Will_Stop] else [])))"

section \<open>Pings\<close>

text \<open>What identifies a session to the UDP sockets: a peer address or its ping payload.\<close>

datatype av_session_id = By_Address string | By_Payload bytes

datatype socket_e = Video_Socket | Audio_Socket

text \<open>
  The maps of \<open>recvThread\<close>: session ids to message queues, here numbers. \<open>emplace\<close> keeps an
  entry that is there.
\<close>

record recv_maps =
  rm_video :: "av_session_id \<Rightarrow> nat option"
  rm_audio :: "av_session_id \<Rightarrow> nat option"

definition emplace :: "'k \<Rightarrow> 'v \<Rightarrow> ('k \<Rightarrow> 'v option) \<Rightarrow> 'k \<Rightarrow> 'v option" where
  "emplace k v m = (case m k of None \<Rightarrow> m(k := Some v) | Some _ \<Rightarrow> m)"

fun populate_one :: "socket_e \<times> av_session_id \<times> nat option \<Rightarrow> recv_maps \<Rightarrow> recv_maps" where
  "populate_one (Video_Socket, sid, Some q) m = m\<lparr>rm_video := emplace sid q (rm_video m)\<rparr>"
| "populate_one (Video_Socket, sid, None) m = m\<lparr>rm_video := (rm_video m)(sid := None)\<rparr>"
| "populate_one (Audio_Socket, sid, Some q) m = m\<lparr>rm_audio := emplace sid q (rm_audio m)\<rparr>"
| "populate_one (Audio_Socket, sid, None) m = m\<lparr>rm_audio := (rm_audio m)(sid := None)\<rparr>"

definition populate_peer_to_session ::
  "(socket_e \<times> av_session_id \<times> nat option) list \<Rightarrow> recv_maps \<Rightarrow> recv_maps" where
  "populate_peer_to_session msgs m = fold populate_one msgs m"

text \<open>
  The queue a datagram goes to. \<open>ping_size\<close> and \<open>payload_size\<close> are the sizes of \<open>SS_PING\<close> and
  of its payload, which comes first.
\<close>

definition route_ping ::
  "nat \<Rightarrow> nat \<Rightarrow> (av_session_id \<Rightarrow> nat option) \<Rightarrow> string \<Rightarrow> bytes \<Rightarrow> nat option" where
  "route_ping ping_size payload_size m peer_addr datagram =
     (if datagram = [] then None
      else if length datagram = 4 then m (By_Address peer_addr)
      else if ping_size \<le> length datagram then m (By_Payload (take payload_size datagram))
      else None)"

definition legacy_ping :: bytes where
  "legacy_ping = [0x50, 0x49, 0x4e, 0x47]"

definition contains :: "bytes \<Rightarrow> bytes \<Rightarrow> bool" where
  "contains msg pat \<longleftrightarrow> sublist pat msg"

definition accepts_ping :: "bool \<Rightarrow> bytes \<Rightarrow> bytes \<Rightarrow> bool" where
  "accepts_ping session_id_v1 expected msg \<longleftrightarrow>
     contains msg expected \<or> \<not> session_id_v1 \<and> msg = legacy_ping"

text \<open>
  \<open>recv_ping\<close>: each message arrives with its peer at a time; the pop waits what is left of
  the timeout. A message that is no ping only moves the clock.
\<close>

fun recv_ping_loop ::
  "bool \<Rightarrow> bytes \<Rightarrow> nat \<Rightarrow> nat \<Rightarrow> nat \<Rightarrow> (nat \<times> 'p \<times> bytes) list \<Rightarrow> 'p option" where
  "recv_ping_loop v1 expected timeout start now [] = None"
| "recv_ping_loop v1 expected timeout start now ((t, peer, msg) # msgs) =
     (if now - start < timeout then
        if start + timeout < t then None
        else if accepts_ping v1 expected msg then Some peer
        else recv_ping_loop v1 expected timeout start (max now t) msgs
      else None)"

definition recv_ping :: "bool \<Rightarrow> bytes \<Rightarrow> nat \<Rightarrow> nat \<Rightarrow> (nat \<times> 'p \<times> bytes) list \<Rightarrow> 'p option" where
  "recv_ping v1 expected timeout start msgs = recv_ping_loop v1 expected timeout start start msgs"

text \<open>What a session puts into and takes out of the maps around its wait.\<close>

definition ping_registrations ::
  "bool \<Rightarrow> socket_e \<Rightarrow> string \<Rightarrow> bytes \<Rightarrow> nat option \<Rightarrow> (socket_e \<times> av_session_id \<times> nat option) list" where
  "ping_registrations v1 sock peer_addr expected q =
     (if v1 then [] else [(sock, By_Address peer_addr, q)]) @ [(sock, By_Payload expected, q)]"

section \<open>Properties\<close>


definition life_running :: life where
  "life_running = \<lparr>li_start = Started, li_audio = Working, li_video = Working,
     li_state = RUNNING, li_shutdown = False, li_control_end = False, li_joined = False\<rparr>"

definition life_launched :: life where
  "life_launched = \<lparr>li_start = Video_Launched, li_audio = Working, li_video = Working,
     li_state = STOPPED, li_shutdown = False, li_control_end = False, li_joined = False\<rparr>"

lemma life_launched_reached: "life_step\<^sup>*\<^sup>* life_alloc life_launched"
proof -
  let ?a = "life_alloc\<lparr>li_start := Registered\<rparr>"
  let ?b = "?a\<lparr>li_start := Audio_Launched, li_audio := Working\<rparr>"
  let ?c = "?b\<lparr>li_start := Video_Launched, li_video := Working\<rparr>"
  have "life_step life_alloc ?a" by (rule step_register_session) (simp add: life_alloc_def)
  moreover have "life_step ?a ?b" by (rule step_launch_audio) simp
  moreover have "life_step ?b ?c" by (rule step_launch_video) simp
  moreover have "?c = life_launched" by (simp add: life_alloc_def life_launched_def)
  ultimately show ?thesis by (metis converse_rtranclp_into_rtranclp r_into_rtranclp)
qed

lemma life_running_reached: "life_step\<^sup>*\<^sup>* life_alloc life_running"
proof -
  have "life_step life_launched (life_launched\<lparr>li_start := Started, li_state := RUNNING\<rparr>)"
    by (rule step_store_running) (simp add: life_launched_def)
  then have "life_step life_launched life_running" by (simp add: life_launched_def life_running_def)
  with life_launched_reached show ?thesis by (rule rtranclp.rtrancl_into_rtrancl)
qed


text \<open>
  A session that has been stopped can always be joined: from every reachable state in
  which it is stopping, the workers' return, the control thread's pass and the join lead to a
  joined session.
\<close>
theorem stopped_session_can_be_joined:
  assumes "life_step\<^sup>*\<^sup>* life_alloc l" and "li_state l = STOPPING"
  shows "\<exists>l'. life_step\<^sup>*\<^sup>* l l' \<and> li_joined l' \<and> li_state l' = STOPPING"
proof -
  have ok: "life_ok l" by (rule lif.steps_ok [OF assms(1) life_alloc_ok])
  with assms(2) have st: "li_start l = Started" "li_audio l \<noteq> Not_Launched" "li_video l \<noteq> Not_Launched"
    by (auto simp: life_ok_def)
  let ?a = "l\<lparr>li_audio := Returned\<rparr>" and ?v = "l\<lparr>li_audio := Returned, li_video := Returned\<rparr>"
  let ?c = "?v\<lparr>li_control_end := True\<rparr>"
  have "life_step\<^sup>*\<^sup>* l ?a"
  proof (cases "li_audio l")
    case Working
    then have "life_step l (life_stop ?a)" using assms(2) by (intro step_audio_returns) simp_all
    then show ?thesis using assms(2) by (auto simp: life_stop_def)
  next
    case Returned
    then have "?a = l" by simp
    then show ?thesis by simp
  qed (use st in simp)
  also have "life_step\<^sup>*\<^sup>* ?a ?v"
  proof (cases "li_video l")
    case Working
    then have "life_step ?a (life_stop ?v)"
      using step_video_returns [of ?a] assms(2) by simp
    then show ?thesis using assms(2) by (auto simp: life_stop_def)
  next
    case Returned
    then have "?v = ?a" by simp
    then show ?thesis by simp
  qed (use st in simp)
  also have "life_step\<^sup>*\<^sup>* ?v ?c"
    using step_control_ends [of ?v] assms(2) st(1) by auto
  also have "life_step\<^sup>*\<^sup>* ?c (?c\<lparr>li_joined := True\<rparr>)"
    using step_join [of ?c] st(1) by auto
  finally show ?thesis using assms(2) by (intro exI [of _ "?c\<lparr>li_joined := True\<rparr>"]) simp
qed

lemma life_stopping_reached: "life_step\<^sup>*\<^sup>* life_alloc (life_stop life_running)"
proof -
  have "life_step life_running (life_stop life_running)"
    by (rule step_control_stops) (simp_all add: life_running_def)
  with life_running_reached show ?thesis by (rule rtranclp.rtrancl_into_rtrancl)
qed

theorem stopped_session_can_be_joined_witness:
  "\<exists>l'. life_step\<^sup>*\<^sup>* (life_stop life_running) l' \<and> li_joined l'"
proof -
  have "li_state (life_stop life_running) = STOPPING" by (simp add: life_stop_def life_running_def)
  from stopped_session_can_be_joined [OF life_stopping_reached this] show ?thesis by blast
qed

text \<open>
  A stop before \<open>start\<close> has stored \<open>RUNNING\<close> is lost: both workers can return, on a ping
  timeout, while the state is still \<open>STOPPED\<close>, and the session then runs with neither worker
  and without its shutdown event.
\<close>
theorem early_stop_is_lost:
  "\<exists>l. life_step\<^sup>*\<^sup>* life_alloc l \<and> li_state l = RUNNING \<and> \<not> li_shutdown l \<and>
     li_audio l = Returned \<and> li_video l = Returned"
proof -
  let ?a = "life_launched\<lparr>li_audio := Returned\<rparr>"
  let ?v = "?a\<lparr>li_video := Returned\<rparr>"
  let ?r = "?v\<lparr>li_start := Started, li_state := RUNNING\<rparr>"
  have "life_step life_launched (life_stop ?a)"
    by (rule step_audio_returns) (simp_all add: life_launched_def)
  then have 1: "life_step life_launched ?a" by (simp add: life_stop_def life_launched_def)
  have "life_step ?a (life_stop ?v)" by (rule step_video_returns) (simp_all add: life_launched_def)
  then have 2: "life_step ?a ?v" by (simp add: life_stop_def life_launched_def)
  have 3: "life_step ?v ?r" by (rule step_store_running) (simp add: life_launched_def)
  have "life_step\<^sup>*\<^sup>* life_alloc ?r"
    using life_launched_reached 1 2 3 by (meson rtranclp.rtrancl_into_rtrancl)
  then show ?thesis by (intro exI [of _ ?r]) (simp add: life_launched_def)
qed

text \<open>The platform is told of the first session's start and the last one's end, alternately.\<close>

definition calls_ok :: "nat \<Rightarrow> platform_call list \<Rightarrow> bool" where
  "calls_ok n cs \<longleftrightarrow> (\<exists>k. cs = concat (replicate k [Streaming_Will_Start, Streaming_Will_Stop]) @
     (if n = 0 then [] else [Streaming_Will_Start]))"

lemma session_started_calls:
  "calls_ok n cs \<Longrightarrow> case session_started (n, cs) of (n', cs') \<Rightarrow> calls_ok n' cs'"
  by (auto simp: calls_ok_def session_started_def Let_def)

lemma session_joined_calls:
  assumes "calls_ok n cs" and "0 < n"
  shows "case session_joined (n, cs) of (n', cs') \<Rightarrow> calls_ok n' cs'"
proof -
  from assms obtain k where cs: "cs = concat (replicate k [Streaming_Will_Start, Streaming_Will_Stop]) @
      [Streaming_Will_Start]" by (auto simp: calls_ok_def)
  show ?thesis
  proof (cases "n = 1")
    case True
    have "cs @ [Streaming_Will_Stop] =
        concat (replicate k [Streaming_Will_Start, Streaming_Will_Stop] @
          [[Streaming_Will_Start, Streaming_Will_Stop]])" by (simp add: cs)
    also have "\<dots> = concat (replicate (Suc k) [Streaming_Will_Start, Streaming_Will_Stop])"
      by (simp only: replicate_append_same replicate_Suc)
    finally show ?thesis using True
      by (auto simp: session_joined_def calls_ok_def Let_def intro!: exI [of _ "Suc k"])
  next
    case False
    with assms(2) cs show ?thesis
      by (auto simp: session_joined_def calls_ok_def Let_def)
  qed
qed

section \<open>Properties of the pings\<close>

text \<open>
  A session's ping reaches it and nobody else: once its payload is registered, a datagram
  that starts with it goes to the session's queue and is accepted there; a client that knows
  session ids accepts no datagram without the payload; and after the wait the entries are gone.
\<close>
theorem ping_reaches_its_session:
  fixes q :: nat and peer_addr :: string and v1 :: bool and m :: recv_maps
  assumes "length expected = payload_size" and "payload_size \<le> ping_size"
    and "ping_size \<le> length datagram" and "4 < ping_size"
    and "take payload_size datagram = expected" and "rm_video m (By_Payload expected) = None"
  defines "m' \<equiv> populate_peer_to_session (ping_registrations v1 Video_Socket peer_addr expected (Some q)) m"
  defines "m'' \<equiv> populate_peer_to_session (ping_registrations v1 Video_Socket peer_addr expected None) m'"
  shows "route_ping ping_size payload_size (rm_video m') addr datagram = Some q \<and>
    accepts_ping v1 expected datagram \<and>
    (\<forall>msg. accepts_ping True expected msg \<longrightarrow> sublist expected msg) \<and>
    route_ping ping_size payload_size (rm_video m'') addr datagram = None \<and>
    rm_audio m'' = rm_audio m"
proof -
  have d: "datagram \<noteq> []" "length datagram \<noteq> 4" using assms(3,4) by auto
  have "sublist expected datagram"
    using assms(5) by (metis append_take_drop_id prefix_imp_sublist prefixI)
  then show ?thesis using assms(3,5,6) d
    unfolding m'_def m''_def
    by (auto simp: route_ping_def populate_peer_to_session_def ping_registrations_def emplace_def
        accepts_ping_def contains_def split: option.split)
qed

theorem ping_reaches_its_session_witness:
  "route_ping 20 16 (rm_video (populate_peer_to_session
     (ping_registrations True Video_Socket [] (replicate 16 7) (Some 4))
     \<lparr>rm_video = (\<lambda>_. None), rm_audio = (\<lambda>_. None)\<rparr>)) [] (replicate 16 7 @ [0, 0, 0, 1]) = Some 4"
  using ping_reaches_its_session [of "replicate 16 7" 16 20 "replicate 16 7 @ [0, 0, 0, 1]"
    "\<lparr>rm_video = (\<lambda>_. None), rm_audio = (\<lambda>_. None)\<rparr>" True "[]" 4] by simp

text \<open>
  The wait for the first ping accepts the earliest message that carries the session's
  payload, or for clients without session ids the fixed one, and gives up after the timeout:
  the peer it answers sent an accepted message no later than that.
\<close>
theorem recv_ping_accepts:
  assumes "recv_ping v1 expected timeout start msgs = Some peer"
  shows "\<exists>before t msg after. msgs = before @ (t, peer, msg) # after \<and> accepts_ping v1 expected msg \<and>
    t \<le> start + timeout \<and> (\<forall>(t', p, m) \<in> set before. \<not> accepts_ping v1 expected m)"
proof -
  have "recv_ping_loop v1 expected timeout start now msgs = Some peer \<Longrightarrow> ?thesis" for now
  proof (induction msgs arbitrary: now)
    case (Cons x msgs)
    obtain t p msg where x: "x = (t, p, msg)" by (cases x)
    show ?case
    proof (cases "accepts_ping v1 expected msg")
      case True
      with Cons.prems x show ?thesis
        by (intro exI [of _ "[]"] exI [of _ t] exI [of _ msg] exI [of _ msgs])
          (auto split: if_split_asm)
    next
      case False
      with Cons.prems x have "recv_ping_loop v1 expected timeout start (max now t) msgs = Some peer"
        by (auto split: if_split_asm)
      from Cons.IH [OF this] obtain before t' msg' after where
        "msgs = before @ (t', peer, msg') # after" "accepts_ping v1 expected msg'"
        "t' \<le> start + timeout" "\<forall>(t', p, m) \<in> set before. \<not> accepts_ping v1 expected m" by blast
      with False x show ?thesis
        by (intro exI [of _ "x # before"] exI [of _ t'] exI [of _ msg'] exI [of _ after]) auto
    qed
  qed simp
  with assms show ?thesis by (auto simp: recv_ping_def)
qed

theorem recv_ping_accepts_witness:
  "\<exists>before t msg after. [(3 :: nat, 8 :: nat, [1, 2]), (4, 9, [0, 7, 7])] = before @ (t, 9, msg) # after \<and>
     accepts_ping True [7, 7] msg \<and> t \<le> 0 + 10"
proof -
  have "recv_ping True [7, 7] 10 0 [(3, 8 :: nat, [1, 2]), (4, 9, [0, 7, 7])] = Some 9"
    by code_simp
  from recv_ping_accepts [OF this] show ?thesis by blast
qed

end
