(* ===== verification/Codec.thy ===== *)
theory Codec
  imports Prelude
begin

text \<open>
  The text codecs of \<open>src/utility.h\<close>: \<open>append_struct\<close>, \<open>Hex\<close> and \<open>hex_vec\<close>, \<open>from_hex\<close> into
  an object of a fixed size, \<open>from_hex_vec\<close>, and \<open>from_chars\<close>. Text is a list of bytes, a
  \<open>char\<close> being signed where the code does arithmetic on it; an
  object is its bytes in memory, low byte first. A write behind the buffer of \<open>from_hex\<close> is no
  result. \<open>from_chars\<close> computes without the bound of \<open>int64_t\<close>.
\<close>

unbundle bit_operations_syntax

section \<open>Writing\<close>

definition append_struct :: "bytes \<Rightarrow> bytes \<Rightarrow> bytes" where
  "append_struct buf mem = fold (\<lambda>b acc. acc @ [b]) mem buf"

definition hex_bits :: bytes where
  "hex_bits = [0x30, 0x31, 0x32, 0x33, 0x34, 0x35, 0x36, 0x37, 0x38, 0x39,
     0x41, 0x42, 0x43, 0x44, 0x45, 0x46]"

fun hex_digits :: "bytes \<Rightarrow> bytes" where
  "hex_digits [] = []"
| "hex_digits (b # bs) = hex_bits ! (unat b div 16) # hex_bits ! (unat b mod 16) # hex_digits bs"

text \<open>\<open>Hex\<close> and \<open>hex_vec\<close> walk the bytes forwards when \<open>rev\<close> is set and backwards otherwise.\<close>

definition hex_vec :: "bytes \<Rightarrow> bool \<Rightarrow> bytes" where
  "hex_vec mem reversed = hex_digits (if reversed then mem else rev mem)"

section \<open>Reading\<close>

definition is_convertable :: "u8 \<Rightarrow> bool" where
  "is_convertable ch \<longleftrightarrow>
     (0x30 \<le> ch \<and> ch \<le> 0x39) \<or> (0x61 \<le> ch OR 0x20 \<and> ch OR 0x20 \<le> 0x7a)"

definition hex_convert :: "u8 \<Rightarrow> u8" where
  "hex_convert ch = (if 0x30 \<le> ch \<and> ch \<le> 0x39 then ch - 0x30 else (ch OR 32) - 0x61 + 10)"

text \<open>
  The walk from the end of the text: \<open>back\<close> is the text before the pointer, backwards. Every
  element skips to a convertible character twice.
\<close>

definition next_convertable :: "bytes \<Rightarrow> bytes" where
  "next_convertable back = dropWhile (\<lambda>ch. \<not> is_convertable ch) back"

fun hex_pairs :: "nat \<Rightarrow> bytes \<Rightarrow> bytes" where
  "hex_pairs 0 back = []"
| "hex_pairs (Suc n) back =
     (let back1 = next_convertable back;
          ch_r = hex_convert (hd back1);
          back2 = next_convertable (tl back1);
          ch_l = hex_convert (hd back2)
      in (push_bit 4 ch_l OR ch_r) # hex_pairs n (tl back2))"

definition hex_buf_size :: "bytes \<Rightarrow> nat" where
  "hex_buf_size hex = length (filter is_convertable hex) div 2"

definition from_hex_vec :: "bytes \<Rightarrow> bool \<Rightarrow> bytes" where
  "from_hex_vec hex reversed =
     (let buf = hex_pairs (hex_buf_size hex) (rev hex) in if reversed then rev buf else buf)"

text \<open>\<open>n\<close> is the size of the object.\<close>

definition from_hex :: "nat \<Rightarrow> bytes \<Rightarrow> bool \<Rightarrow> bytes option" where
  "from_hex n hex reversed =
     (let size = hex_buf_size hex in
      if n < size then None
      else
        let buf = hex_pairs size (rev hex) @ replicate (n - size) 0
        in Some (if reversed then rev buf else buf))"

section \<open>Decimal numbers\<close>

fun from_chars_loop :: "bytes \<Rightarrow> int \<Rightarrow> int \<Rightarrow> int \<times> int" where
  "from_chars_loop [] res mul = (res, mul)"
| "from_chars_loop (d # ds) res mul =
     from_chars_loop ds (res + (sint d - 0x30) * mul) (mul * 10)"

definition from_chars :: "bytes \<Rightarrow> int" where
  "from_chars text =
     (case text of
        [] \<Rightarrow> 0
      | b # rest \<Rightarrow>
          let (res, mul) = from_chars_loop (rev rest) 0 1
          in if b \<noteq> 0x2d then res + (sint b - 0x30) * mul else - res)"

section \<open>Hexadecimal round trips\<close>

lemma append_struct_eq: "append_struct buf mem = buf @ mem"
  unfolding append_struct_def by (induction mem arbitrary: buf) auto

lemma nibble_cases:
  "(i :: nat) < 16 \<Longrightarrow> i \<in> {0, 1, 2, 3, 4, 5, 6, 7, 8, 9, 10, 11, 12, 13, 14, 15}"
  by (simp only: insert_iff empty_iff) presburger

lemma hex_bits_all:
  "i < 16 \<Longrightarrow> is_convertable (hex_bits ! i) \<and> hex_convert (hex_bits ! i) = word_of_nat i"
  using nibble_cases [of i] by (auto simp: hex_bits_def is_convertable_def hex_convert_def)

lemma byte_from_nibbles: "(push_bit 4 (word_of_nat (unat b div 16)) OR word_of_nat (unat b mod 16) :: u8) = b"
proof (rule bit_word_eqI)
  fix n assume n: "n < LENGTH(8)"
  have "bit (unat b div 16) (n - 4) = bit (unat b) n" if "4 \<le> n"
    using that bit_drop_bit_eq [of 4 "unat b"] by (simp add: drop_bit_eq_div)
  moreover have "bit (unat b mod 16) n = (n < 4 \<and> bit (unat b) n)"
    using bit_take_bit_iff [of 4 "unat b" n] by (simp add: take_bit_eq_mod)
  ultimately show "bit (push_bit 4 (word_of_nat (unat b div 16)) OR word_of_nat (unat b mod 16) :: u8) n = bit b n"
    using n by (auto simp: bit_or_iff bit_push_bit_iff bit_word_of_nat bit_unsigned_iff)
qed

lemma hex_digits_convertable: "\<forall>ch \<in> set (hex_digits bs). is_convertable ch"
proof (induction bs)
  case (Cons b bs)
  have "unat b div 16 < 16" using unat_byte_less [of b] by (simp add: less_mult_imp_div_less)
  with Cons show ?case using hex_bits_all by simp
qed simp

lemma length_hex_digits: "length (hex_digits bs) = 2 * length bs"
  by (induction bs) simp_all

lemma hex_buf_size_digits: "hex_buf_size (hex_digits bs) = length bs"
proof -
  have "filter is_convertable (hex_digits bs) = hex_digits bs"
    using hex_digits_convertable by (simp add: filter_id_conv)
  then show ?thesis by (simp add: hex_buf_size_def length_hex_digits)
qed

lemma hex_digits_append: "hex_digits (xs @ ys) = hex_digits xs @ hex_digits ys"
  by (induction xs) simp_all

lemma hex_pairs_digits: "hex_pairs (length bs) (rev (hex_digits bs) @ tail) = rev bs"
proof (induction bs arbitrary: tail rule: rev_induct)
  case (snoc b bs)
  have "unat b div 16 < 16" using unat_byte_less [of b] by (simp add: less_mult_imp_div_less)
  then have "is_convertable (hex_bits ! (unat b div 16))" "is_convertable (hex_bits ! (unat b mod 16))"
    "hex_convert (hex_bits ! (unat b div 16)) = word_of_nat (unat b div 16)"
    "hex_convert (hex_bits ! (unat b mod 16)) = word_of_nat (unat b mod 16)"
    using hex_bits_all by simp_all
  with snoc byte_from_nibbles [of b] show ?case
    by (simp add: hex_digits_append next_convertable_def Let_def)
qed simp

lemma hex_pairs_text: "hex_pairs (length bs) (rev (hex_digits bs)) = rev bs"
  using hex_pairs_digits [of bs "[]"] by simp

lemma from_hex_vec_hex_vec: "from_hex_vec (hex_vec mem reversed) reversed = mem"
  using hex_pairs_text [of mem] hex_pairs_text [of "rev mem"]
  by (cases reversed) (simp_all add: from_hex_vec_def hex_vec_def hex_buf_size_digits Let_def)

section \<open>Properties\<close>

text \<open>
  Hexadecimal text round trips: decoding what \<open>hex_vec\<close> wrote, in either byte order,
  gives back the bytes, and into an object of at least that size the bytes padded with zeros.
\<close>
theorem hex_round_trip:
  "from_hex_vec (hex_vec mem reversed) reversed = mem \<and>
   (length mem \<le> n \<longrightarrow> from_hex n (hex_vec mem False) False = Some (mem @ replicate (n - length mem) 0) \<and>
      from_hex n (hex_vec mem True) True = Some (replicate (n - length mem) 0 @ mem))"
  using hex_pairs_text [of mem] hex_pairs_text [of "rev mem"]
  from_hex_vec_hex_vec [of mem reversed]
  by (simp add: from_hex_def hex_vec_def hex_buf_size_digits Let_def)

text \<open>Three bytes in an object of four.\<close>

theorem hex_round_trip_witness:
  "from_hex_vec (hex_vec [1, 0xab, 3] False) False = [1, 0xab, 3] \<and>
   from_hex 4 (hex_vec [1, 0xab, 3] True) True = Some [0, 1, 0xab, 3]"
  using hex_round_trip [of "[1, 0xab, 3]" False 4] by simp

text \<open>
  \<open>from_hex\<close> writes behind its object exactly when the text has more digits than the
  object has nibbles, rounded down to pairs; a text of at most twice the object's size in
  characters is always safe.
\<close>
theorem from_hex_overflow:
  "(from_hex n hex reversed = None \<longleftrightarrow> 2 * n + 2 \<le> length (filter is_convertable hex)) \<and>
   (length hex \<le> 2 * n \<longrightarrow> from_hex n hex reversed \<noteq> None)"
proof -
  have less: "n < length (filter is_convertable hex) div 2 \<longleftrightarrow> 2 * n + 2 \<le> length (filter is_convertable hex)"
    by linarith
  then have none: "from_hex n hex reversed = None \<longleftrightarrow> 2 * n + 2 \<le> length (filter is_convertable hex)"
    by (simp add: from_hex_def hex_buf_size_def Let_def)
  have "length (filter is_convertable hex) \<le> length hex" by (rule length_filter_le)
  with none show ?thesis by linarith
qed

text \<open>The address of a four-byte object as a text of ten digits.\<close>

theorem from_hex_overflow_witness:
  "from_hex 4 (replicate 10 0x46) False = None \<and> from_hex 4 (replicate 8 0x46) False \<noteq> None"
  using from_hex_overflow [of 4 "replicate 10 0x46" False] from_hex_overflow [of 4 "replicate 8 0x46" False]
  by (simp add: is_convertable_def)

lemma length_hex_pairs: "length (hex_pairs n b) = n"
  by (induction n arbitrary: b) (simp_all add: Let_def)

lemma from_hex_length: "from_hex n hex reversed = Some mem \<Longrightarrow> length mem = n"
  by (auto simp: from_hex_def Let_def length_hex_pairs split: if_splits)

text \<open>Decimal text.\<close>

fun digits_value :: "nat list \<Rightarrow> nat" where
  "digits_value [] = 0"
| "digits_value (d # ds) = d * 10 ^ length ds + digits_value ds"

definition digit_bytes :: "nat list \<Rightarrow> bytes" where
  "digit_bytes ds = map (\<lambda>d. word_of_nat (d + 0x30)) ds"

lemma digit_byte: "d < 10 \<Longrightarrow> sint (word_of_nat d + 0x30 :: u8) = int d + 0x30"
  using nibble_cases [of d] by auto

lemma digit_byte_not_minus: "d < 10 \<Longrightarrow> (word_of_nat d + 0x30 :: u8) \<noteq> 0x2d"
  using nibble_cases [of d] by auto

lemma from_chars_loop_eq:
  assumes "\<forall>d \<in> set ds. d < 10"
  shows "from_chars_loop (rev (digit_bytes ds)) res mul =
    (res + int (digits_value ds) * mul, mul * 10 ^ length ds)"
  using assms
proof (induction ds arbitrary: res mul rule: rev_induct)
  case (snoc d ds)
  have v: "digits_value (ds @ [d]) = digits_value ds * 10 + d"
    by (induction ds) simp_all
  from snoc show ?case by (simp add: digit_bytes_def v digit_byte algebra_simps)
qed (simp add: digit_bytes_def)

text \<open>
  Decimal parsing: the text of a decimal numeral, with or without a leading minus sign,
  is read as its value.
\<close>
theorem from_chars_value:
  assumes "\<forall>d \<in> set ds. d < 10" and "ds \<noteq> []"
  shows "from_chars (digit_bytes ds) = int (digits_value ds) \<and>
    from_chars (0x2d # digit_bytes ds) = - int (digits_value ds)"
proof -
  obtain d rest where ds: "ds = d # rest" using assms(2) by (cases ds) auto
  with assms(1) have d: "d < 10" "\<forall>d \<in> set rest. d < 10" by simp_all
  have "from_chars (digit_bytes ds) = int (digits_value ds)"
    using from_chars_loop_eq [OF d(2), of 0 1] d(1)
    by (simp add: ds from_chars_def digit_bytes_def digit_byte digit_byte_not_minus)
  moreover have "from_chars (0x2d # digit_bytes ds) = - int (digits_value ds)"
    using from_chars_loop_eq [OF assms(1), of 0 1] by (simp add: from_chars_def)
  ultimately show ?thesis ..
qed

text \<open>The text of minus forty-two and of seven hundred.\<close>

theorem from_chars_value_witness:
  "from_chars [0x2d, 0x34, 0x32] = -42 \<and> from_chars [0x37, 0x30, 0x30] = 700"
  using from_chars_value [of "[4, 2]"] from_chars_value [of "[7, 0, 0]"]
  by (simp add: digit_bytes_def)

end
