(* ===== verification/Crypto.thy ===== *)
theory Crypto
  imports Prelude
begin

text \<open>
  \<open>src/crypto.cpp\<close>: the certificate chain of paired clients, the GCM, CBC and ECB wrappers with
  the contexts they keep between calls, and the small helpers over the digest and the random
  generator. OpenSSL is a parameter: a record of the results its calls have during one
  operation, so a call may fail at one operation and succeed at the next. What the theorems need
  of it are named laws.
\<close>

section \<open>The certificate chain\<close>

text \<open>
  OpenSSL checks a certificate against a store that holds one paired certificate. \<open>issues\<close> are
  the problems it meets on the way, in order; each goes through the verify callback, and the
  first one the callback refuses ends the check with that code. A check that refuses nothing
  returns 1, and its code is not read.
\<close>

datatype x509_err = V_OK | Cert_Not_Yet_Valid | Cert_Has_Expired | Depth_Zero_Self_Signed_Cert
  | Invalid_CA | Other_Err nat

type_synonym 'c x509_lib = "'c \<Rightarrow> 'c \<Rightarrow> x509_err list"

definition chain_add :: "'c list \<Rightarrow> 'c \<Rightarrow> 'c list" where
  "chain_add certs cert = certs @ [cert]"

definition chain_clear :: "'c list \<Rightarrow> 'c list" where
  "chain_clear certs = []"

fun openssl_verify_cb :: "int \<Rightarrow> x509_err \<Rightarrow> int" where
  "openssl_verify_cb ok Cert_Not_Yet_Valid = 1"
| "openssl_verify_cb ok Cert_Has_Expired = 1"
| "openssl_verify_cb ok _ = ok"

fun verify_cert :: "x509_err list \<Rightarrow> int \<times> x509_err" where
  "verify_cert [] = (1, V_OK)"
| "verify_cert (e # es) =
     (if openssl_verify_cb 0 e = 1 then verify_cert es else (0, e))"

text \<open>No error text means the certificate is valid. \<open>err_code\<close> starts as 0, \<open>X509_V_OK\<close>.\<close>

fun chain_verify_loop :: "'c x509_lib \<Rightarrow> 'c list \<Rightarrow> 'c \<Rightarrow> x509_err \<Rightarrow> x509_err option" where
  "chain_verify_loop lib [] cert err_code = Some err_code"
| "chain_verify_loop lib (store # stores) cert err_code =
     (let (err, code) = verify_cert (lib store cert) in
      if err = 1 then None
      else if code \<noteq> Depth_Zero_Self_Signed_Cert \<and> code \<noteq> Invalid_CA then Some code
      else chain_verify_loop lib stores cert code)"

definition chain_verify :: "'c x509_lib \<Rightarrow> 'c list \<Rightarrow> 'c \<Rightarrow> x509_err option" where
  "chain_verify lib certs cert = chain_verify_loop lib certs cert V_OK"

section \<open>Cipher contexts\<close>

text \<open>
  What the calls of the EVP interface answer during one operation. An update or a final returns
  its output or fails. The IV a context uses is its first \<open>c_ivlen\<close> bytes.
\<close>

record evp =
  evp_new :: bool
  evp_set_cipher :: bool
  evp_set_ivlen :: "nat \<Rightarrow> bool"
  evp_set_key :: "bytes \<Rightarrow> bytes \<Rightarrow> bool"
  evp_set_iv :: "bytes \<Rightarrow> bool"
  evp_set_tag :: "bytes \<Rightarrow> bool"
  gcm_dec_update :: "bytes \<Rightarrow> bytes \<Rightarrow> bytes \<Rightarrow> bytes option"
  gcm_dec_final :: "bytes \<Rightarrow> bytes \<Rightarrow> bytes \<Rightarrow> bytes \<Rightarrow> bytes option"
  gcm_enc_update :: "bytes \<Rightarrow> bytes \<Rightarrow> bytes \<Rightarrow> bytes option"
  gcm_enc_final :: "bytes \<Rightarrow> bytes \<Rightarrow> bytes \<Rightarrow> bytes option"
  gcm_get_tag :: "bytes \<Rightarrow> bytes \<Rightarrow> bytes \<Rightarrow> bytes option"
  cbc_update :: "bytes \<Rightarrow> bytes \<Rightarrow> bool \<Rightarrow> bytes \<Rightarrow> bytes option"
  cbc_final :: "bytes \<Rightarrow> bytes \<Rightarrow> bool \<Rightarrow> bytes \<Rightarrow> bytes option"
  ecb_dec_update :: "bytes \<Rightarrow> bool \<Rightarrow> bytes \<Rightarrow> bytes option"
  ecb_dec_final :: "bytes \<Rightarrow> bool \<Rightarrow> bytes \<Rightarrow> bytes option"
  ecb_enc_update :: "bytes \<Rightarrow> bool \<Rightarrow> bytes \<Rightarrow> bytes option"
  ecb_enc_final :: "bytes \<Rightarrow> bool \<Rightarrow> bytes \<Rightarrow> bytes option"

record evp_ctx =
  c_cipher :: bool
  c_key :: "bytes option"
  c_ivlen :: nat

definition blank_ctx :: evp_ctx where
  "blank_ctx = \<lparr> c_cipher = False, c_key = None, c_ivlen = 0 \<rparr>"

record cipher_t =
  decrypt_ctx :: "evp_ctx option"
  encrypt_ctx :: "evp_ctx option"
  cipher_key :: bytes
  padding :: bool

definition new_gcm :: "bytes \<Rightarrow> bool \<Rightarrow> cipher_t" where
  "new_gcm key pad = \<lparr> decrypt_ctx = None, encrypt_ctx = None, cipher_key = key, padding = pad \<rparr>"

definition new_cbc :: "bytes \<Rightarrow> bool \<Rightarrow> cipher_t" where
  "new_cbc key pad = \<lparr> decrypt_ctx = None, encrypt_ctx = None, cipher_key = key, padding = pad \<rparr>"

definition round_to_pkcs7_padded :: "nat \<Rightarrow> nat" where
  "round_to_pkcs7_padded n = ((n + 15) div 16) * 16"

text \<open>Every initialisation leaves the context allocated, also when it fails later.\<close>

definition init_decrypt_gcm :: "evp \<Rightarrow> bytes \<Rightarrow> bytes \<Rightarrow> int \<times> evp_ctx option" where
  "init_decrypt_gcm lib key iv =
     (if \<not> evp_new lib then (-1, None)
      else if \<not> evp_set_cipher lib then (-1, Some blank_ctx)
      else if \<not> evp_set_ivlen lib (length iv) then (-1, Some (blank_ctx\<lparr> c_cipher := True \<rparr>))
      else if \<not> evp_set_key lib key iv
      then (-1, Some (blank_ctx\<lparr> c_cipher := True, c_ivlen := length iv \<rparr>))
      else (0, Some \<lparr> c_cipher = True, c_key = Some key, c_ivlen = length iv \<rparr>))"

text \<open>The encrypting twin does not look at the result of the allocation.\<close>

definition init_encrypt_gcm :: "evp \<Rightarrow> bytes \<Rightarrow> bytes \<Rightarrow> int \<times> evp_ctx option" where
  "init_encrypt_gcm lib key iv =
     (if \<not> evp_set_cipher lib then (-1, Some blank_ctx)
      else if \<not> evp_set_ivlen lib (length iv) then (-1, Some (blank_ctx\<lparr> c_cipher := True \<rparr>))
      else if \<not> evp_set_key lib key iv
      then (-1, Some (blank_ctx\<lparr> c_cipher := True, c_ivlen := length iv \<rparr>))
      else (0, Some \<lparr> c_cipher = True, c_key = Some key, c_ivlen = length iv \<rparr>))"

definition init_encrypt_cbc :: "evp \<Rightarrow> bytes \<Rightarrow> bytes \<Rightarrow> int \<times> evp_ctx option" where
  "init_encrypt_cbc lib key iv =
     (if \<not> evp_set_key lib key iv then (-1, Some blank_ctx)
      else (0, Some \<lparr> c_cipher = True, c_key = Some key, c_ivlen = 16 \<rparr>))"

text \<open>Setting the IV of a context needs its cipher, processing data its key.\<close>

definition ctx_set_iv :: "evp \<Rightarrow> evp_ctx \<Rightarrow> bytes \<Rightarrow> bool" where
  "ctx_set_iv lib c iv \<longleftrightarrow> c_cipher c \<and> evp_set_iv lib (take (c_ivlen c) iv)"

definition with_key :: "evp_ctx \<Rightarrow> (bytes \<Rightarrow> bytes option) \<Rightarrow> bytes option" where
  "with_key c f = (case c_key c of None \<Rightarrow> None | Some k \<Rightarrow> f k)"

section \<open>The wrappers\<close>

text \<open>
  The result is the returned code, the output buffer and the wrapper; no code is the exception
  of \<open>substr\<close>.
\<close>

definition tag_size :: nat where
  "tag_size = 16"

definition gcm_decrypt_ready ::
  "evp \<Rightarrow> evp_ctx \<Rightarrow> bytes \<Rightarrow> bytes \<Rightarrow> bytes \<Rightarrow> int option \<times> bytes" where
  "gcm_decrypt_ready lib c tagged plaintext iv =
     (if \<not> ctx_set_iv lib c iv then (Some 0, plaintext)
      else if length tagged < tag_size then (None, plaintext)
      else
        let cipher = drop tag_size tagged;
            tag = take tag_size tagged;
            iv' = take (c_ivlen c) iv;
            buf = resize (round_to_pkcs7_padded (length cipher)) plaintext
        in case with_key c (\<lambda>k. gcm_dec_update lib k iv' cipher) of
             None \<Rightarrow> (Some (-1), buf)
           | Some out \<Rightarrow>
               if \<not> evp_set_tag lib tag then (Some (-1), overwrite out buf)
               else case with_key c (\<lambda>k. gcm_dec_final lib k iv' cipher tag) of
                   None \<Rightarrow> (Some (-1), overwrite out buf)
                 | Some fin \<Rightarrow>
                     (Some 0, resize (length out + length fin) (overwrite (out @ fin) buf)))"

definition gcm_decrypt ::
  "evp \<Rightarrow> cipher_t \<Rightarrow> bytes \<Rightarrow> bytes \<Rightarrow> bytes \<Rightarrow> int option \<times> bytes \<times> cipher_t" where
  "gcm_decrypt lib g tagged plaintext iv =
     (case decrypt_ctx g of
        Some c \<Rightarrow>
          let (r, buf) = gcm_decrypt_ready lib c tagged plaintext iv in (r, buf, g)
      | None \<Rightarrow>
          let (rc, ctx) = init_decrypt_gcm lib (cipher_key g) iv;
              g' = g\<lparr> decrypt_ctx := ctx \<rparr>
          in case ctx of
               None \<Rightarrow> (Some (-1), plaintext, g')
             | Some c \<Rightarrow>
                 if rc \<noteq> 0 then (Some (-1), plaintext, g')
                 else let (r, buf) = gcm_decrypt_ready lib c tagged plaintext iv in (r, buf, g'))"

text \<open>The encrypting side: the code, what was written as ciphertext and as tag.\<close>

definition gcm_encrypt_ready ::
  "evp \<Rightarrow> evp_ctx \<Rightarrow> bytes \<Rightarrow> bytes \<Rightarrow> int \<times> bytes \<times> bytes" where
  "gcm_encrypt_ready lib c plaintext iv =
     (if \<not> ctx_set_iv lib c iv then (-1, [], [])
      else
        let iv' = take (c_ivlen c) iv
        in case with_key c (\<lambda>k. gcm_enc_update lib k iv' plaintext) of
             None \<Rightarrow> (-1, [], [])
           | Some out \<Rightarrow>
               case with_key c (\<lambda>k. gcm_enc_final lib k iv' plaintext) of
                 None \<Rightarrow> (-1, out, [])
               | Some fin \<Rightarrow>
                   case with_key c (\<lambda>k. gcm_get_tag lib k iv' plaintext) of
                     None \<Rightarrow> (-1, out @ fin, [])
                   | Some tag \<Rightarrow> (int (length out) + int (length fin), out @ fin, tag))"

definition gcm_encrypt ::
  "evp \<Rightarrow> cipher_t \<Rightarrow> bytes \<Rightarrow> bytes \<Rightarrow> (int \<times> bytes \<times> bytes) \<times> cipher_t" where
  "gcm_encrypt lib g plaintext iv =
     (case encrypt_ctx g of
        Some c \<Rightarrow> (gcm_encrypt_ready lib c plaintext iv, g)
      | None \<Rightarrow>
          let (rc, ctx) = init_encrypt_gcm lib (cipher_key g) iv;
              g' = g\<lparr> encrypt_ctx := ctx \<rparr>
          in case ctx of
               None \<Rightarrow> ((-1, [], []), g')
             | Some c \<Rightarrow>
                 if rc \<noteq> 0 then ((-1, [], []), g')
                 else (gcm_encrypt_ready lib c plaintext iv, g'))"

text \<open>The overload with one buffer puts the tag in front of the ciphertext.\<close>

definition gcm_encrypt_tagged ::
  "evp \<Rightarrow> cipher_t \<Rightarrow> bytes \<Rightarrow> bytes \<Rightarrow> (int \<times> bytes) \<times> cipher_t" where
  "gcm_encrypt_tagged lib g plaintext iv =
     (let ((n, c, tag), g') = gcm_encrypt lib g plaintext iv in ((n, tag @ c), g'))"

definition cbc_encrypt_ready :: "evp \<Rightarrow> evp_ctx \<Rightarrow> bool \<Rightarrow> bytes \<Rightarrow> bytes \<Rightarrow> int \<times> bytes" where
  "cbc_encrypt_ready lib c pad plaintext iv =
     (if \<not> ctx_set_iv lib c iv then (0, [])
      else
        let iv' = take (c_ivlen c) iv
        in case with_key c (\<lambda>k. cbc_update lib k iv' pad plaintext) of
             None \<Rightarrow> (-1, [])
           | Some out \<Rightarrow>
               case with_key c (\<lambda>k. cbc_final lib k iv' pad plaintext) of
                 None \<Rightarrow> (-1, out)
               | Some fin \<Rightarrow> (int (length out) + int (length fin), out @ fin))"

definition cbc_encrypt :: "evp \<Rightarrow> cipher_t \<Rightarrow> bytes \<Rightarrow> bytes \<Rightarrow> (int \<times> bytes) \<times> cipher_t" where
  "cbc_encrypt lib g plaintext iv =
     (case encrypt_ctx g of
        Some c \<Rightarrow> (cbc_encrypt_ready lib c (padding g) plaintext iv, g)
      | None \<Rightarrow>
          let (rc, ctx) = init_encrypt_cbc lib (cipher_key g) iv;
              g' = g\<lparr> encrypt_ctx := ctx \<rparr>
          in case ctx of
               None \<Rightarrow> ((-1, []), g')
             | Some c \<Rightarrow>
                 if rc \<noteq> 0 then ((-1, []), g')
                 else (cbc_encrypt_ready lib c (padding g) plaintext iv, g'))"

text \<open>ECB resets its context after every call, so nothing is kept.\<close>

definition ecb_decrypt :: "evp \<Rightarrow> bytes \<Rightarrow> bool \<Rightarrow> bytes \<Rightarrow> bytes \<Rightarrow> int \<times> bytes" where
  "ecb_decrypt lib key pad cipher plaintext =
     (if \<not> evp_set_key lib key [] then (-1, plaintext)
      else
        let buf = resize (round_to_pkcs7_padded (length cipher)) plaintext
        in case ecb_dec_update lib key pad cipher of
             None \<Rightarrow> (-1, buf)
           | Some out \<Rightarrow>
               case ecb_dec_final lib key pad cipher of
                 None \<Rightarrow> (-1, overwrite out buf)
               | Some fin \<Rightarrow> (0, resize (length out + length fin) (overwrite (out @ fin) buf)))"

definition ecb_encrypt :: "evp \<Rightarrow> bytes \<Rightarrow> bool \<Rightarrow> bytes \<Rightarrow> bytes \<Rightarrow> int \<times> bytes" where
  "ecb_encrypt lib key pad plaintext cipher =
     (if \<not> evp_set_key lib key [] then (-1, cipher)
      else
        let buf = resize (round_to_pkcs7_padded (length plaintext)) cipher
        in case ecb_enc_update lib key pad plaintext of
             None \<Rightarrow> (-1, buf)
           | Some out \<Rightarrow>
               case ecb_enc_final lib key pad plaintext of
                 None \<Rightarrow> (-1, overwrite out buf)
               | Some fin \<Rightarrow> (0, resize (length out + length fin) (overwrite (out @ fin) buf)))"

section \<open>Keys and random text\<close>

definition gen_aes_key :: "(bytes \<Rightarrow> bytes) \<Rightarrow> bytes \<Rightarrow> bytes \<Rightarrow> bytes" where
  "gen_aes_key sha256 salt pin = take 16 (sha256 (salt @ pin))"

text \<open>A character of the random text is a signed \<open>char\<close> widened to the 64 bits of the length.\<close>

definition rand_alphabet :: "bytes \<Rightarrow> bytes \<Rightarrow> bytes" where
  "rand_alphabet rnd alphabet =
     map (\<lambda>v. alphabet ! nat (uint (word_of_int (sint v) :: u64) mod int (length alphabet))) rnd"

section \<open>Facts about the certificate chain\<close>

text \<open>
  \<open>tolerated\<close>: the problems the callback lets pass. \<open>refusal\<close>: the first problem it does not.
\<close>

definition tolerated :: "x509_err \<Rightarrow> bool" where
  "tolerated e \<longleftrightarrow> e = Cert_Not_Yet_Valid \<or> e = Cert_Has_Expired"

definition refusal :: "'c x509_lib \<Rightarrow> 'c \<Rightarrow> 'c \<Rightarrow> x509_err option" where
  "refusal lib store cert = find (\<lambda>e. \<not> tolerated e) (lib store cert)"

definition passes_on :: "x509_err option \<Rightarrow> bool" where
  "passes_on r \<longleftrightarrow> r = Some Depth_Zero_Self_Signed_Cert \<or> r = Some Invalid_CA"

lemma openssl_verify_cb_eq: "openssl_verify_cb 0 e = (if tolerated e then 1 else 0)"
  by (cases e) (simp_all add: tolerated_def)

lemma verify_cert_eq:
  "verify_cert es = (case find (\<lambda>e. \<not> tolerated e) es of None \<Rightarrow> (1, V_OK) | Some e \<Rightarrow> (0, e))"
  by (induction es) (simp_all add: openssl_verify_cb_eq)

lemma chain_verify_loop_None:
  "chain_verify_loop lib certs cert code = None \<longleftrightarrow>
     (\<exists>i < length certs. refusal lib (certs ! i) cert = None \<and>
        (\<forall>j < i. passes_on (refusal lib (certs ! j) cert)))"
proof (induction certs arbitrary: code)
  case (Cons c certs)
  have step: "(\<exists>i < length (c # certs). refusal lib ((c # certs) ! i) cert = None \<and>
        (\<forall>j < i. passes_on (refusal lib ((c # certs) ! j) cert))) \<longleftrightarrow>
      refusal lib c cert = None \<or> passes_on (refusal lib c cert) \<and>
        (\<exists>i < length certs. refusal lib (certs ! i) cert = None \<and>
          (\<forall>j < i. passes_on (refusal lib (certs ! j) cert)))"
    unfolding length_Cons Ex_less_Suc2 by (auto simp: All_less_Suc2)
  show ?case
    unfolding step using Cons.IH
    by (simp add: verify_cert_eq passes_on_def split: option.split)
      (auto simp: refusal_def)
qed simp

text \<open>
  (C20) The chain accepts a certificate exactly when some paired certificate vouches for it and
  every one paired before that refused it for one of the two reasons the loop skips. So pairing
  another client never locks out one that was accepted, and where refusals are only of the
  skipped kinds the order of pairing does not matter.
\<close>
theorem chain_verify_accepts:
  "(chain_verify lib certs cert = None \<longleftrightarrow>
     (\<exists>i < length certs. refusal lib (certs ! i) cert = None \<and>
        (\<forall>j < i. passes_on (refusal lib (certs ! j) cert)))) \<and>
   (chain_verify lib certs cert = None \<longrightarrow> chain_verify lib (chain_add certs c) cert = None) \<and>
   ((\<forall>s \<in> set certs. refusal lib s cert \<noteq> None \<longrightarrow> passes_on (refusal lib s cert)) \<longrightarrow>
      (chain_verify lib certs cert = None \<longleftrightarrow> (\<exists>s \<in> set certs. refusal lib s cert = None)))"
proof (intro conjI impI)
  show accept: "chain_verify lib certs cert = None \<longleftrightarrow>
     (\<exists>i < length certs. refusal lib (certs ! i) cert = None \<and>
        (\<forall>j < i. passes_on (refusal lib (certs ! j) cert)))" for certs
    unfolding chain_verify_def by (rule chain_verify_loop_None)
  show "chain_verify lib (chain_add certs c) cert = None" if "chain_verify lib certs cert = None"
    using that unfolding accept chain_add_def
    by (metis length_append less_imp_le_nat less_trans nth_append trans_less_add1)
  assume only: "\<forall>s \<in> set certs. refusal lib s cert \<noteq> None \<longrightarrow> passes_on (refusal lib s cert)"
  show "chain_verify lib certs cert = None \<longleftrightarrow> (\<exists>s \<in> set certs. refusal lib s cert = None)"
  proof
    assume "\<exists>s \<in> set certs. refusal lib s cert = None"
    then have ex: "\<exists>i. i < length certs \<and> refusal lib (certs ! i) cert = None"
      by (auto simp: in_set_conv_nth)
    define k where "k = (LEAST i. i < length certs \<and> refusal lib (certs ! i) cert = None)"
    have k: "k < length certs" "refusal lib (certs ! k) cert = None"
      using LeastI_ex [OF ex] by (simp_all add: k_def)
    have "passes_on (refusal lib (certs ! j) cert)" if "j < k" for j
      using not_less_Least [of j "\<lambda>i. i < length certs \<and> refusal lib (certs ! i) cert = None"]
        that k(1) only by (auto simp: k_def)
    with k show "chain_verify lib certs cert = None" unfolding accept by blast
  qed (auto simp: accept)
qed

text \<open>Two clients, each of which only vouches for itself.\<close>

definition two_clients :: "nat x509_lib" where
  "two_clients store cert =
     (if store = cert then [Cert_Has_Expired] else [Depth_Zero_Self_Signed_Cert])"

theorem chain_verify_accepts_witness:
  "chain_verify two_clients [1, 2] 2 = None \<and> chain_verify two_clients (chain_add [1, 2] 3) 2 = None \<and>
   chain_verify two_clients [1, 2] 4 \<noteq> None"
proof -
  have r: "refusal two_clients s c = (if s = c then None else Some Depth_Zero_Self_Signed_Cert)" for s c
    by (simp add: refusal_def two_clients_def tolerated_def)
  have "chain_verify two_clients [1, 2] 2 = None"
    using chain_verify_accepts [of two_clients "[1, 2]" 2 3] by (simp add: r passes_on_def)
  moreover have "chain_verify two_clients [1, 2] 4 \<noteq> None"
    by (simp add: chain_verify_def two_clients_def)
  ultimately show ?thesis using chain_verify_accepts [of two_clients "[1, 2]" 2 3] by blast
qed

text \<open>
  A refusal of any other kind ends the loop: a certificate that a later pairing vouches for
  is denied when an earlier one refuses it for another reason.
\<close>
theorem chain_verify_order_matters:
  "\<exists>(lib :: nat x509_lib) c1 c2. chain_verify lib [c2] c2 = None \<and>
     chain_verify lib (chain_add (chain_add [] c2) c1) c2 = None \<and>
     chain_verify lib (chain_add (chain_add [] c1) c2) c2 \<noteq> None"
proof -
  let ?lib = "\<lambda>store cert. if store = cert then [] else [Other_Err 20] :: x509_err list"
  have "chain_verify ?lib [2 :: nat] 2 = None \<and>
     chain_verify ?lib (chain_add (chain_add [] 2) (1 :: nat)) 2 = None \<and>
     chain_verify ?lib (chain_add (chain_add [] (1 :: nat)) 2) 2 \<noteq> None"
    by (simp add: chain_verify_def chain_add_def)
  then show ?thesis by (intro exI)
qed

section \<open>Facts about the ciphers\<close>

lemma take_overwrite: "length out = n \<Longrightarrow> resize n (overwrite out v) = out"
  by (simp add: resize_def overwrite_def)

lemma gcm_decrypt_ready_zero:
  "gcm_decrypt_ready lib c tagged plaintext iv = (Some 0, out) \<Longrightarrow>
     (\<not> ctx_set_iv lib c iv \<and> out = plaintext) \<or>
     (\<exists>k u f. c_key c = Some k \<and> length tagged \<ge> tag_size \<and>
        gcm_dec_update lib k (take (c_ivlen c) iv) (drop tag_size tagged) = Some u \<and>
        gcm_dec_final lib k (take (c_ivlen c) iv) (drop tag_size tagged) (take tag_size tagged) = Some f \<and>
        out = u @ f)"
  by (auto simp: gcm_decrypt_ready_def Let_def with_key_def take_overwrite
      split: if_splits option.splits)

text \<open>The contexts a wrapper can hold after any number of operations.\<close>

definition ctx_ok :: "cipher_t \<Rightarrow> evp_ctx option \<Rightarrow> bool" where
  "ctx_ok g ctx = (case ctx of None \<Rightarrow> True
     | Some c \<Rightarrow> c_key c = None \<or> (c_key c = Some (cipher_key g) \<and> c_cipher c))"

lemma init_decrypt_gcm_ok:
  "init_decrypt_gcm lib (cipher_key g) iv = (rc, ctx) \<Longrightarrow>
     ctx_ok g ctx \<and> (rc = 0 \<longrightarrow> ctx \<noteq> None)"
  by (auto simp: init_decrypt_gcm_def ctx_ok_def blank_ctx_def split: if_splits)

lemma gcm_decrypt_keeps_ctx_ok:
  assumes "ctx_ok g (decrypt_ctx g)"
  shows "ctx_ok (snd (snd (gcm_decrypt lib g tagged p iv))) (decrypt_ctx (snd (snd (gcm_decrypt lib g tagged p iv))))
    \<and> cipher_key (snd (snd (gcm_decrypt lib g tagged p iv))) = cipher_key g"
  using assms init_decrypt_gcm_ok [of lib g iv]
  by (auto simp: gcm_decrypt_def Let_def ctx_ok_def split: option.splits prod.splits)

text \<open>
  A decryption that answers 0 either authenticated the packet under the wrapper's key and
  answers exactly the opened bytes, or OpenSSL refused the IV: then the answer is 0 as well and
  the output buffer is the caller's, unverified. A context whose initialisation failed once
  refuses every IV, so after one failure with a cipher that was not set every packet is
  answered with 0.
\<close>
theorem gcm_decrypt_zero:
  assumes "ctx_ok g (decrypt_ctx g)"
  shows "(gcm_decrypt lib g tagged p iv = (Some 0, out, g') \<longrightarrow>
     (\<exists>c. decrypt_ctx g' = Some c \<and>
        ((\<not> ctx_set_iv lib c iv \<and> out = p) \<or>
         (\<exists>u f. gcm_dec_update lib (cipher_key g) (take (c_ivlen c) iv) (drop tag_size tagged) = Some u \<and>
            gcm_dec_final lib (cipher_key g) (take (c_ivlen c) iv) (drop tag_size tagged)
              (take tag_size tagged) = Some f \<and> out = u @ f)))) \<and>
    (decrypt_ctx g = None \<and> evp_new lib \<and> \<not> evp_set_cipher lib \<longrightarrow>
      fst (gcm_decrypt lib g tagged p iv) = Some (-1) \<and>
      (let g1 = snd (snd (gcm_decrypt lib g tagged p iv)) in
       \<forall>lib' tagged' p' iv'. gcm_decrypt lib' g1 tagged' p' iv' = (Some 0, p', g1)))"
proof (intro conjI impI)
  assume d: "gcm_decrypt lib g tagged p iv = (Some 0, out, g')"
  obtain c where c: "decrypt_ctx g' = Some c" "ctx_ok g (Some c)"
    "gcm_decrypt_ready lib c tagged p iv = (Some 0, out)"
    using d assms init_decrypt_gcm_ok [of lib g iv]
    by (auto simp: gcm_decrypt_def Let_def split: option.splits prod.splits if_splits)
  from gcm_decrypt_ready_zero [OF c(3)] c(1,2) show "\<exists>c. decrypt_ctx g' = Some c \<and>
        ((\<not> ctx_set_iv lib c iv \<and> out = p) \<or>
         (\<exists>u f. gcm_dec_update lib (cipher_key g) (take (c_ivlen c) iv) (drop tag_size tagged) = Some u \<and>
            gcm_dec_final lib (cipher_key g) (take (c_ivlen c) iv) (drop tag_size tagged)
              (take tag_size tagged) = Some f \<and> out = u @ f))"
    by (auto simp: ctx_ok_def)
next
  assume a: "decrypt_ctx g = None \<and> evp_new lib \<and> \<not> evp_set_cipher lib"
  then show "fst (gcm_decrypt lib g tagged p iv) = Some (-1)"
    by (simp add: gcm_decrypt_def init_decrypt_gcm_def blank_ctx_def)
  from a show "let g1 = snd (snd (gcm_decrypt lib g tagged p iv)) in
       \<forall>lib' tagged' p' iv'. gcm_decrypt lib' g1 tagged' p' iv' = (Some 0, p', g1)"
    by (simp add: gcm_decrypt_def init_decrypt_gcm_def blank_ctx_def gcm_decrypt_ready_def
        ctx_set_iv_def Let_def)
qed

text \<open>
  A library whose cipher adds the first byte of the IV to every byte and whose tag is sixteen
  times the sum of the ciphertext.
\<close>

definition toy_tag :: "bytes \<Rightarrow> bytes" where
  "toy_tag c = replicate 16 (sum_list c)"

definition toy_pad :: "bytes \<Rightarrow> bytes" where
  "toy_pad p = replicate (16 - length p mod 16) (word_of_nat (16 - length p mod 16))"

definition toy_evp :: evp where
  "toy_evp = \<lparr> evp_new = True, evp_set_cipher = True, evp_set_ivlen = (\<lambda>n. n = 12),
     evp_set_key = (\<lambda>k iv. length k = 16), evp_set_iv = (\<lambda>iv. True), evp_set_tag = (\<lambda>t. True),
     gcm_dec_update = (\<lambda>k iv c. Some (map (\<lambda>x. x - hd iv) c)),
     gcm_dec_final = (\<lambda>k iv c tag. if tag = toy_tag c then Some [] else None),
     gcm_enc_update = (\<lambda>k iv p. Some (map (\<lambda>x. x + hd iv) p)),
     gcm_enc_final = (\<lambda>k iv p. Some []),
     gcm_get_tag = (\<lambda>k iv p. Some (toy_tag (map (\<lambda>x. x + hd iv) p))),
     cbc_update = (\<lambda>k iv pad p. Some (take (length p - length p mod 16) p)),
     cbc_final = (\<lambda>k iv pad p. if pad then Some (drop (length p - length p mod 16) p @ toy_pad p)
        else if length p mod 16 = 0 then Some [] else None),
     ecb_dec_update = (\<lambda>k pad c. Some (take (length c - length c mod 16) c)),
     ecb_dec_final = (\<lambda>k pad c. if length c mod 16 = 0 then Some [] else None),
     ecb_enc_update = (\<lambda>k pad p. Some (take (length p - length p mod 16) p)),
     ecb_enc_final = (\<lambda>k pad p. if length p mod 16 = 0 then Some [] else None) \<rparr>"

theorem gcm_decrypt_zero_witness:
  "fst (gcm_decrypt (toy_evp\<lparr> evp_set_cipher := False \<rparr>) (new_gcm (replicate 16 7) False) [] [9] []) = Some (-1) \<and>
   (let g1 = snd (snd (gcm_decrypt (toy_evp\<lparr> evp_set_cipher := False \<rparr>) (new_gcm (replicate 16 7) False) [] [9] []))
    in gcm_decrypt toy_evp g1 [1, 2, 3] [9] (replicate 12 5) = (Some 0, [9], g1))"
  using gcm_decrypt_zero [of "new_gcm (replicate 16 7) False" "toy_evp\<lparr> evp_set_cipher := False \<rparr>" "[]" "[9]" "[]" "[]"]
  by (simp add: ctx_ok_def new_gcm_def toy_evp_def Let_def)

text \<open>
  The laws of the library: what one side seals under a key and an IV the other opens, and
  without failures the calls succeed. CBC with padding adds 1 to 16 bytes.
\<close>

definition gcm_laws :: "evp \<Rightarrow> bytes \<Rightarrow> nat \<Rightarrow> bool" where
  "gcm_laws lib key n \<longleftrightarrow> evp_new lib \<and> evp_set_cipher lib \<and> evp_set_ivlen lib n \<and>
     (\<forall>iv. length iv = n \<longrightarrow> evp_set_key lib key iv \<and> evp_set_iv lib iv) \<and>
     (\<forall>t. length t = tag_size \<longrightarrow> evp_set_tag lib t) \<and>
     (\<forall>iv p. length iv = n \<longrightarrow> (\<exists>u f tag.
        gcm_enc_update lib key iv p = Some u \<and> gcm_enc_final lib key iv p = Some f \<and>
        gcm_get_tag lib key iv p = Some tag \<and> length tag = tag_size \<and> length (u @ f) = length p \<and>
        (\<exists>u' f'. gcm_dec_update lib key iv (u @ f) = Some u' \<and>
           gcm_dec_final lib key iv (u @ f) tag = Some f' \<and> u' @ f' = p)))"

definition ctx_fits :: "cipher_t \<Rightarrow> nat \<Rightarrow> evp_ctx option \<Rightarrow> bool" where
  "ctx_fits g n ctx = (case ctx of None \<Rightarrow> True
     | Some c \<Rightarrow> c_cipher c \<and> c_key c = Some (cipher_key g) \<and> c_ivlen c = n)"

lemma gcm_seal_open:
  assumes "gcm_laws lib (cipher_key g) (length iv)" and "cipher_key h = cipher_key g"
    and "ctx_fits g (length iv) (encrypt_ctx g)" and "ctx_fits h (length iv) (decrypt_ctx h)"
    and "gcm_encrypt_tagged lib g p iv = ((n, tagged), g')"
  shows "n = int (length p) \<and> length tagged = tag_size + length p \<and>
    (\<exists>h'. gcm_decrypt lib h tagged buf iv = (Some 0, p, h') \<and>
       ctx_fits h (length iv) (decrypt_ctx h')) \<and> ctx_fits g (length iv) (encrypt_ctx g')"
proof -
  obtain u f tag u' f' where l: "gcm_enc_update lib (cipher_key g) iv p = Some u"
    "gcm_enc_final lib (cipher_key g) iv p = Some f" "gcm_get_tag lib (cipher_key g) iv p = Some tag"
    "length tag = tag_size" "length (u @ f) = length p"
    "gcm_dec_update lib (cipher_key g) iv (u @ f) = Some u'"
    "gcm_dec_final lib (cipher_key g) iv (u @ f) tag = Some f'" "u' @ f' = p"
    using assms(1) unfolding gcm_laws_def by blast
  have ok: "evp_new lib" "evp_set_cipher lib" "evp_set_ivlen lib (length iv)"
    "evp_set_key lib (cipher_key g) iv" "evp_set_iv lib iv" "evp_set_tag lib tag"
    using assms(1) l(4) by (simp_all add: gcm_laws_def)
  have enc: "gcm_encrypt_ready lib c p iv = (int (length p), u @ f, tag)"
    if "c_cipher c" "c_key c = Some (cipher_key g)" "c_ivlen c = length iv" for c
    using that l ok by (auto simp: gcm_encrypt_ready_def ctx_set_iv_def with_key_def)
  have "(n, tagged) = (int (length p), tag @ u @ f) \<and> ctx_fits g (length iv) (encrypt_ctx g')"
    using assms(3,5) ok enc
    by (auto simp: gcm_encrypt_tagged_def gcm_encrypt_def init_encrypt_gcm_def ctx_fits_def
        split: option.splits prod.splits)
  moreover have dec: "gcm_decrypt_ready lib c (tag @ u @ f) buf iv = (Some 0, p)"
    if "c_cipher c" "c_key c = Some (cipher_key g)" "c_ivlen c = length iv" for c
    using that l ok by (auto simp: gcm_decrypt_ready_def ctx_set_iv_def with_key_def Let_def take_overwrite)
  have "\<exists>h'. gcm_decrypt lib h (tag @ u @ f) buf iv = (Some 0, p, h') \<and>
       ctx_fits h (length iv) (decrypt_ctx h')"
    using assms(2,4) ok dec
    by (auto simp: gcm_decrypt_def init_decrypt_gcm_def ctx_fits_def split: option.splits)
  ultimately show ?thesis using l(4,5) by auto
qed

text \<open>
  What one end of a session encrypts into a tagged buffer the other end decrypts to the
  same bytes, whether the contexts are fresh or reused; the answered length is that of the
  ciphertext without the tag, which equals the plaintext's.
\<close>
theorem gcm_round_trip:
  assumes "gcm_laws lib (cipher_key g) (length iv)" and "cipher_key h = cipher_key g"
    and "ctx_fits g (length iv) (encrypt_ctx g)" and "ctx_fits h (length iv) (decrypt_ctx h)"
    and "gcm_encrypt_tagged lib g p iv = ((n, tagged), g')"
  shows "n = int (length p) \<and> length tagged = tag_size + length p \<and>
    (\<exists>h'. gcm_decrypt lib h tagged buf iv = (Some 0, p, h') \<and>
       ctx_fits h (length iv) (decrypt_ctx h')) \<and> ctx_fits g (length iv) (encrypt_ctx g')"
  using gcm_seal_open [OF assms] .

lemma toy_gcm_laws: "length key = 16 \<Longrightarrow> gcm_laws toy_evp key 12"
  by (simp add: gcm_laws_def toy_evp_def tag_size_def toy_tag_def comp_def)

theorem gcm_round_trip_witness:
  "\<exists>h'. gcm_decrypt toy_evp (new_gcm (replicate 16 7) False)
      (snd (fst (gcm_encrypt_tagged toy_evp (new_gcm (replicate 16 7) True) [1, 2, 3] (replicate 12 5))))
      [] (replicate 12 5) = (Some 0, [1, 2, 3], h')"
  using gcm_round_trip [of toy_evp "new_gcm (replicate 16 7) True" "replicate 12 5"
      "new_gcm (replicate 16 7) False" "[1, 2, 3]"
      "fst (fst (gcm_encrypt_tagged toy_evp (new_gcm (replicate 16 7) True) [1, 2, 3] (replicate 12 5)))"
      "snd (fst (gcm_encrypt_tagged toy_evp (new_gcm (replicate 16 7) True) [1, 2, 3] (replicate 12 5)))"
      "snd (gcm_encrypt_tagged toy_evp (new_gcm (replicate 16 7) True) [1, 2, 3] (replicate 12 5))" "[]"]
    toy_gcm_laws [of "replicate 16 7"]
  by (auto simp add: new_gcm_def ctx_fits_def)

text \<open>
  PKCS7 padding fills up to the next multiple of 16 and adds a whole block to a multiple of 16;
  the size the callers reserve does not count that block.
\<close>

definition cbc_pads :: "evp \<Rightarrow> bool" where
  "cbc_pads lib \<longleftrightarrow> (\<forall>k iv p u f. cbc_update lib k iv True p = Some u \<longrightarrow> cbc_final lib k iv True p = Some f \<longrightarrow>
     length u + length f = 16 * (length p div 16 + 1))"

lemma round_to_pkcs7_padded_eq:
  "round_to_pkcs7_padded n = (if n mod 16 = 0 then n else 16 * (n div 16 + 1))"
proof -
  have "n + 15 = 16 * (n div 16) + (n mod 16 + 15)" by simp
  then have "(n + 15) div 16 = n div 16 + (n mod 16 + 15) div 16"
    by (metis div_mult_self2 add.commute zero_neq_numeral)
  moreover have "(n mod 16 + 15) div 16 = (if n mod 16 = 0 then 0 else 1)"
    using mod_less_divisor [of 16 n] by auto
  ultimately show ?thesis using mult_div_mod_eq [of 16 n] by (auto simp: round_to_pkcs7_padded_def)
qed

text \<open>
  What the CBC wrapper writes with padding: the rounded size that its documentation asks
  callers to reserve, except for a plaintext of a multiple of 16 bytes, which takes 16 bytes
  more than that.
\<close>
theorem cbc_output_size:
  assumes "cbc_pads lib" and "padding g"
    and "cbc_encrypt lib g p iv = ((n, out), g')" and "n > 0"
  shows "int (length out) = n \<and>
    length out = round_to_pkcs7_padded (length p) + (if length p mod 16 = 0 then 16 else 0)"
proof -
  obtain c where "cbc_encrypt_ready lib c True p iv = (n, out)"
    using assms(2-4) by (auto simp: cbc_encrypt_def init_encrypt_cbc_def split: option.splits if_splits)
  then obtain k iv' u f where "cbc_update lib k iv' True p = Some u" "cbc_final lib k iv' True p = Some f"
    "out = u @ f" "n = int (length u) + int (length f)"
    using assms(4) by (auto simp: cbc_encrypt_ready_def with_key_def Let_def split: if_splits option.splits)
  moreover from this assms(1) have "length u + length f = 16 * (length p div 16 + 1)"
    unfolding cbc_pads_def by blast
  ultimately have "length out = 16 * (length p div 16 + 1)" "n = int (length out)" by simp_all
  moreover have "length p = 16 * (length p div 16)" if "length p mod 16 = 0"
    using that by (metis add.right_neutral mult_div_mod_eq)
  ultimately show ?thesis by (auto simp: round_to_pkcs7_padded_eq)
qed

lemma toy_cbc_pads: "cbc_pads toy_evp"
  by (auto simp: cbc_pads_def toy_evp_def toy_pad_def minus_mod_eq_mult_div)

theorem cbc_output_size_witness:
  "length (snd (fst (cbc_encrypt toy_evp (new_cbc (replicate 16 7) True) (replicate 32 1) (replicate 16 5)))) = 48"
  using cbc_output_size [OF toy_cbc_pads, of "new_cbc (replicate 16 7) True" "replicate 32 1" "replicate 16 5" 48
      "snd (fst (cbc_encrypt toy_evp (new_cbc (replicate 16 7) True) (replicate 32 1) (replicate 16 5)))"
      "snd (cbc_encrypt toy_evp (new_cbc (replicate 16 7) True) (replicate 32 1) (replicate 16 5))"]
  by (simp add: new_cbc_def cbc_encrypt_def init_encrypt_cbc_def cbc_encrypt_ready_def toy_evp_def
      ctx_set_iv_def with_key_def toy_pad_def round_to_pkcs7_padded_def)

end
