(* ===== verification/Pairing.thy ===== *)
theory Pairing
  imports Codec Crypto Thread_Safe
begin

text \<open>
  Pairing and the database of paired clients, \<open>src/nvhttp.cpp\<close>: the four phases of the
  handshake over the map of pairing sessions, the entry of the PIN, the persisted clients, and
  the check the TLS server makes of a client's certificate. Texts are byte lists. Random bytes
  and new UUIDs are arguments of the operations; OpenSSL, the digest and the certificates are a
  record of functions.
\<close>

section \<open>State\<close>

datatype pair_phase = PHASE_NONE | GETSERVERCERT | CLIENTCHALLENGE | SERVERCHALLENGERESP
  | CLIENTPAIRINGSECRET

record pair_session =
  p_unique_id :: bytes
  p_cert :: bytes
  p_name :: bytes
  p_cipher_key :: "bytes option"
  p_clienthash :: bytes
  p_serversecret :: bytes
  p_serverchallenge :: bytes
  p_response :: bool
  p_salt :: bytes
  p_last_phase :: pair_phase

definition new_pair_session :: pair_session where
  "new_pair_session = \<lparr> p_unique_id = [], p_cert = [], p_name = [], p_cipher_key = None,
     p_clienthash = [], p_serversecret = [], p_serverchallenge = [], p_response = False,
     p_salt = [], p_last_phase = PHASE_NONE \<rparr>"

record named_cert =
  nc_name :: bytes
  nc_uuid :: bytes
  nc_cert :: bytes
  nc_enabled :: bool

text \<open>
  The state file: what other parts keep in it, the unique id, the clients of the old format and
  those of the new one, whose \<open>enabled\<close> may be missing.
\<close>

record saved_cert =
  sc_name :: bytes
  sc_cert :: bytes
  sc_uuid :: bytes
  sc_enabled :: "bool option"

record saved_state =
  sv_other :: bytes
  sv_unique_id :: "bytes option"
  sv_old_certs :: "bytes list"
  sv_named :: "saved_cert list"

text \<open>
  The map of pairing sessions, the clients, the chain of certificates the TLS server checks
  against with the queue that feeds it, and the globals. The iteration order of the map is not
  part of the state.
\<close>

record 'c nv =
  map_id_sess :: "bytes \<Rightarrow> pair_session option"
  client_root :: "named_cert list"
  cert_chain :: "'c list"
  add_cert :: "'c queue_t"
  state_file :: "saved_state option"
  unique_id :: bytes
  last_verified :: bytes
  conf_servercert :: bytes
  conf_pkey :: bytes
  fresh_state :: bool

text \<open>The XML answer, by the nodes that are put into it.\<close>

record reply =
  r_paired :: "nat option"
  r_status :: "nat option"
  r_message :: "string option"
  r_plaincert :: "bytes option"
  r_challengeresponse :: "bytes option"
  r_pairingsecret :: "bytes option"

definition no_reply :: reply where
  "no_reply = \<lparr> r_paired = None, r_status = None, r_message = None, r_plaincert = None,
     r_challengeresponse = None, r_pairingsecret = None \<rparr>"

text \<open>The library: ciphers, digest, certificates (the null certificate among them) and trust.\<close>

record 'c pair_lib =
  l_evp :: evp
  l_sha256 :: "bytes \<Rightarrow> bytes"
  l_x509 :: "bytes \<Rightarrow> 'c"
  l_null :: "'c \<Rightarrow> bool"
  l_signature :: "'c \<Rightarrow> bytes"
  l_pem :: "'c \<Rightarrow> bytes"
  l_sign256 :: "bytes \<Rightarrow> bytes \<Rightarrow> bytes"
  l_verify256 :: "'c \<Rightarrow> bytes \<Rightarrow> bytes \<Rightarrow> bool"
  l_trust :: "'c x509_lib"

section \<open>The client database\<close>

text \<open>Whether reading and writing the state file work, and the UUIDs generated on the way.\<close>

record io =
  io_read :: bool
  io_write :: bool
  io_uuid :: "nat \<Rightarrow> bytes"

definition save_cert :: "named_cert \<Rightarrow> saved_cert" where
  "save_cert c = \<lparr> sc_name = nc_name c, sc_cert = nc_cert c, sc_uuid = nc_uuid c,
     sc_enabled = Some (nc_enabled c) \<rparr>"

definition save_state :: "io \<Rightarrow> 'c nv \<Rightarrow> 'c nv" where
  "save_state io st =
     (if state_file st \<noteq> None \<and> \<not> io_read io then st
      else
        let other = (case state_file st of None \<Rightarrow> [] | Some f \<Rightarrow> sv_other f);
            root = \<lparr> sv_other = other, sv_unique_id = Some (unique_id st), sv_old_certs = [],
              sv_named = map save_cert (client_root st) \<rparr>
        in if io_write io then st\<lparr> state_file := Some root \<rparr> else st)"

definition load_cert :: "saved_cert \<Rightarrow> named_cert" where
  "load_cert c = \<lparr> nc_name = sc_name c, nc_uuid = sc_uuid c, nc_cert = sc_cert c,
     nc_enabled = (case sc_enabled c of None \<Rightarrow> True | Some e \<Rightarrow> e) \<rparr>"

definition load_state :: "'c pair_lib \<Rightarrow> io \<Rightarrow> 'c nv \<Rightarrow> 'c nv" where
  "load_state lib io st =
     (case state_file st of
        None \<Rightarrow> st\<lparr> unique_id := io_uuid io 0 \<rparr>
      | Some f \<Rightarrow>
          if \<not> io_read io then st
          else case sv_unique_id f of
              None \<Rightarrow> st\<lparr> unique_id := io_uuid io 0 \<rparr>
            | Some uid \<Rightarrow>
                let old = map (\<lambda>(i, cert). \<lparr> nc_name = [], nc_uuid = io_uuid io i, nc_cert = cert,
                      nc_enabled = True \<rparr>) (enumerate 1 (sv_old_certs f));
                    client = old @ map load_cert (sv_named f);
                    chain = foldl (\<lambda>ch nc. chain_add ch (l_x509 lib (nc_cert nc)))
                      (chain_clear (cert_chain st)) client
                in st\<lparr> unique_id := uid, cert_chain := chain, client_root := client \<rparr>)"

definition add_authorized_client :: "io \<Rightarrow> bytes \<Rightarrow> bytes \<Rightarrow> 'c nv \<Rightarrow> 'c nv" where
  "add_authorized_client io name cert st =
     (let named_cert = \<lparr> nc_name = name, nc_uuid = io_uuid io 0, nc_cert = cert, nc_enabled = True \<rparr>;
          st1 = st\<lparr> client_root := client_root st @ [named_cert] \<rparr>
      in if \<not> fresh_state st then save_state io st1 else st1)"

definition erase_all_clients :: "io \<Rightarrow> 'c nv \<Rightarrow> 'c nv" where
  "erase_all_clients io st =
     save_state io (st\<lparr> client_root := [], cert_chain := chain_clear (cert_chain st) \<rparr>)"

definition unpair_client :: "'c pair_lib \<Rightarrow> io \<Rightarrow> io \<Rightarrow> bytes \<Rightarrow> 'c nv \<Rightarrow> bool \<times> 'c nv" where
  "unpair_client lib io_s io_l uuid st =
     (let removed = (\<exists>nc \<in> set (client_root st). nc_uuid nc = uuid);
          st1 = st\<lparr> client_root := filter (\<lambda>nc. nc_uuid nc \<noteq> uuid) (client_root st) \<rparr>;
          st2 = save_state io_s st1
      in (removed, load_state lib io_l st2))"

fun enable_first :: "bytes \<Rightarrow> bool \<Rightarrow> named_cert list \<Rightarrow> named_cert list option" where
  "enable_first uuid e [] = None"
| "enable_first uuid e (nc # ncs) =
     (if nc_uuid nc = uuid then Some (nc\<lparr> nc_enabled := e \<rparr> # ncs)
      else map_option (\<lambda>r. nc # r) (enable_first uuid e ncs))"

definition set_client_enabled :: "io \<Rightarrow> bytes \<Rightarrow> bool \<Rightarrow> 'c nv \<Rightarrow> bool \<times> 'c nv" where
  "set_client_enabled io uuid enabled st =
     (case enable_first uuid enabled (client_root st) of
        None \<Rightarrow> (False, st)
      | Some cl \<Rightarrow> (True, save_state io (st\<lparr> client_root := cl \<rparr>)))"

definition get_cert_by_uuid :: "bytes \<Rightarrow> 'c nv \<Rightarrow> bytes" where
  "get_cert_by_uuid uuid st =
     (case find (\<lambda>nc. nc_uuid nc = uuid) (client_root st) of None \<Rightarrow> [] | Some nc \<Rightarrow> nc_cert nc)"

definition is_client_enabled :: "bytes \<Rightarrow> 'c nv \<Rightarrow> bool" where
  "is_client_enabled cert_pem st =
     (case find (\<lambda>nc. nc_cert nc = cert_pem) (client_root st) of None \<Rightarrow> True | Some nc \<Rightarrow> nc_enabled nc)"

definition get_all_clients :: "'c nv \<Rightarrow> (bytes \<times> bytes \<times> bool) list" where
  "get_all_clients st = map (\<lambda>nc. (nc_name nc, nc_uuid nc, nc_enabled nc)) (client_root st)"

section \<open>The TLS check\<close>

function add_pending :: "'c queue_t \<Rightarrow> 'c list \<Rightarrow> 'c queue_t \<times> 'c list" where
  "add_pending q ch =
     (if queue_peek q then
        (case queue_pop q of
           Some (Some cert, q') \<Rightarrow> add_pending q' (chain_add ch cert)
         | _ \<Rightarrow> (q, ch))
      else (q, ch))"
  by pat_completeness auto

termination
  by (relation "measure (\<lambda>(q, ch). length (q_items q))")
    (auto simp: queue_peek_def queue_pop_def queue_take_front_def split: if_splits list.splits)

declare add_pending.simps [simp del]

definition tls_verify :: "'c pair_lib \<Rightarrow> 'c \<Rightarrow> 'c nv \<Rightarrow> bool \<times> 'c nv" where
  "tls_verify lib cert st =
     (if l_null lib cert then (False, st)
      else
        let (q, ch) = add_pending (add_cert st) (cert_chain st);
            st1 = st\<lparr> add_cert := q, cert_chain := ch \<rparr>
        in case chain_verify (l_trust lib) (cert_chain st1) cert of
             Some err \<Rightarrow> (False, st1)
           | None \<Rightarrow>
               let pem = l_pem lib cert in
               if \<not> is_client_enabled pem st1 then (False, st1)
               else (True, st1\<lparr> last_verified := pem \<rparr>))"

section \<open>The handshake\<close>

text \<open>
  A handler works on the session the map holds at \<open>k\<close>, here \<open>s\<close>, and writes it back; removing a
  session erases the key the session itself names.
\<close>

definition sess_put :: "bytes \<Rightarrow> pair_session \<Rightarrow> 'c nv \<Rightarrow> 'c nv" where
  "sess_put k s st = st\<lparr> map_id_sess := (map_id_sess st)(k \<mapsto> s) \<rparr>"

definition remove_pair_session :: "pair_session \<Rightarrow> 'c nv \<Rightarrow> 'c nv" where
  "remove_pair_session s st = st\<lparr> map_id_sess := (map_id_sess st)(p_unique_id s := None) \<rparr>"

definition fail_pair :: "pair_session \<Rightarrow> reply \<Rightarrow> string \<Rightarrow> 'c nv \<Rightarrow> reply \<times> 'c nv" where
  "fail_pair s tree msg st =
     (tree\<lparr> r_paired := Some 0, r_status := Some 400, r_message := Some msg \<rparr>, remove_pair_session s st)"

text \<open>The 32 characters of the salt fit the 16 bytes they are read into.\<close>

definition salt_bytes :: "bytes \<Rightarrow> bytes" where
  "salt_bytes text = (case from_hex 16 (take 32 text) True of None \<Rightarrow> [] | Some salt \<Rightarrow> salt)"

definition getservercert ::
  "'c pair_lib \<Rightarrow> bytes \<Rightarrow> pair_session \<Rightarrow> reply \<Rightarrow> bytes \<Rightarrow> 'c nv \<Rightarrow> reply \<times> 'c nv" where
  "getservercert lib k s tree pin st =
     (if p_last_phase s \<noteq> PHASE_NONE
      then fail_pair s tree ''Out of order call to getservercert'' st
      else
        let s1 = s\<lparr> p_last_phase := GETSERVERCERT \<rparr>;
            st1 = sess_put k s1 st
        in if length (p_salt s1) < 32 then fail_pair s1 tree ''Salt too short'' st1
           else
             let key = gen_aes_key (l_sha256 lib) (salt_bytes (p_salt s1)) pin
             in (tree\<lparr> r_paired := Some 1, r_plaincert := Some (hex_vec (conf_servercert st1) True),
                   r_status := Some 200 \<rparr>,
                 sess_put k (s1\<lparr> p_cipher_key := Some key \<rparr>) st1))"

text \<open>\<open>rnd_secret\<close> and \<open>rnd_challenge\<close> are the two draws of 16 random bytes.\<close>

definition clientchallenge ::
  "'c pair_lib \<Rightarrow> bytes \<Rightarrow> bytes \<Rightarrow> bytes \<Rightarrow> pair_session \<Rightarrow> reply \<Rightarrow> bytes \<Rightarrow> 'c nv \<Rightarrow> reply \<times> 'c nv" where
  "clientchallenge lib rnd_secret rnd_challenge k s tree challenge st =
     (if p_last_phase s \<noteq> GETSERVERCERT
      then fail_pair s tree ''Out of order call to clientchallenge'' st
      else
        let s1 = s\<lparr> p_last_phase := CLIENTCHALLENGE \<rparr>;
            st1 = sess_put k s1 st
        in case p_cipher_key s1 of
             None \<Rightarrow> fail_pair s1 tree ''Cipher key not set'' st1
           | Some key \<Rightarrow>
               let decrypted = snd (ecb_decrypt (l_evp lib) key False challenge []);
                   sgn = l_signature lib (l_x509 lib (conf_servercert st1));
                   hsh = l_sha256 lib (decrypted @ sgn @ rnd_secret);
                   plaintext = hsh @ rnd_challenge;
                   encrypted = snd (ecb_encrypt (l_evp lib) key False plaintext [])
               in (tree\<lparr> r_paired := Some 1, r_challengeresponse := Some (hex_vec encrypted True),
                     r_status := Some 200 \<rparr>,
                   sess_put k (s1\<lparr> p_serversecret := rnd_secret, p_serverchallenge := rnd_challenge \<rparr>) st1))"

definition serverchallengeresp ::
  "'c pair_lib \<Rightarrow> bytes \<Rightarrow> pair_session \<Rightarrow> reply \<Rightarrow> bytes \<Rightarrow> 'c nv \<Rightarrow> reply \<times> 'c nv" where
  "serverchallengeresp lib k s tree encrypted_response st =
     (if p_last_phase s \<noteq> CLIENTCHALLENGE
      then fail_pair s tree ''Out of order call to serverchallengeresp'' st
      else
        let s1 = s\<lparr> p_last_phase := SERVERCHALLENGERESP \<rparr>;
            st1 = sess_put k s1 st
        in case p_cipher_key s1 of
             None \<Rightarrow> fail_pair s1 tree ''Cipher key or serversecret not set'' st1
           | Some key \<Rightarrow>
               if p_serversecret s1 = []
               then fail_pair s1 tree ''Cipher key or serversecret not set'' st1
               else
                 let decrypted = snd (ecb_decrypt (l_evp lib) key False encrypted_response []);
                     sgn = l_sign256 lib (conf_pkey st1) (p_serversecret s1)
                 in (tree\<lparr> r_pairingsecret := Some (hex_vec (p_serversecret s1 @ sgn) True),
                       r_paired := Some 1, r_status := Some 200 \<rparr>,
                     sess_put k (s1\<lparr> p_clienthash := decrypted \<rparr>) st1))"

definition clientpairingsecret ::
  "'c pair_lib \<Rightarrow> io \<Rightarrow> bytes \<Rightarrow> pair_session \<Rightarrow> reply \<Rightarrow> bytes \<Rightarrow> 'c nv \<Rightarrow> reply \<times> 'c nv" where
  "clientpairingsecret lib io k s tree client_pairing_secret st =
     (if p_last_phase s \<noteq> SERVERCHALLENGERESP
      then fail_pair s tree ''Out of order call to clientpairingsecret'' st
      else
        let s1 = s\<lparr> p_last_phase := CLIENTPAIRINGSECRET \<rparr>;
            st1 = sess_put k s1 st
        in if length client_pairing_secret \<le> 16
           then fail_pair s1 tree ''Client pairing secret too short'' st1
           else
             let secret = take 16 client_pairing_secret;
                 sgn = drop 16 client_pairing_secret;
                 x509 = l_x509 lib (p_cert s1)
             in if l_null lib x509 then fail_pair s1 tree ''Invalid client certificate'' st1
                else
                  let hsh = l_sha256 lib (p_serverchallenge s1 @ l_signature lib x509 @ secret);
                      same_hash = (length hsh = length (p_clienthash s1) \<and> hsh = p_clienthash s1);
                      verified = l_verify256 lib (l_x509 lib (p_cert s1)) secret sgn
                  in if same_hash \<and> verified
                     then
                       let st2 = st1\<lparr> add_cert := queue_raise (l_x509 lib (p_cert s1)) (add_cert st1) \<rparr>;
                           st3 = add_authorized_client io (p_name s1) (p_cert s1) st2
                       in (tree\<lparr> r_paired := Some 1, r_status := Some 200 \<rparr>, remove_pair_session s1 st3)
                     else (tree\<lparr> r_paired := Some 0, r_status := Some 200 \<rparr>, remove_pair_session s1 st1))"

section \<open>Requests\<close>

text \<open>
  Query arguments by name. An argument that is asked for and missing throws; a request for the
  PIN is answered later.
\<close>

type_synonym args = "string \<Rightarrow> bytes option"

datatype pair_out = Reply reply | Deferred | Out_Of_Range

definition get_arg :: "args \<Rightarrow> string \<Rightarrow> bytes option \<Rightarrow> bytes option" where
  "get_arg args name fallback =
     (case args name of Some v \<Rightarrow> Some v | None \<Rightarrow> fallback)"

definition pair_getservercert ::
  "'c pair_lib \<Rightarrow> bytes option \<Rightarrow> args \<Rightarrow> bytes \<Rightarrow> 'c nv \<Rightarrow> pair_out \<times> 'c nv" where
  "pair_getservercert lib stdin_pin args uniq st =
     (case get_arg args ''clientcert'' None of
        None \<Rightarrow> (Out_Of_Range, st)
      | Some certhex \<Rightarrow>
          let sess = new_pair_session\<lparr> p_unique_id := uniq, p_cert := from_hex_vec certhex True \<rparr>;
              cur = (case map_id_sess st uniq of Some s \<Rightarrow> s | None \<Rightarrow> sess);
              st1 = sess_put uniq cur st
          in case get_arg args ''salt'' None of
               None \<Rightarrow> (Out_Of_Range, st1)
             | Some salt \<Rightarrow>
                 let cur1 = cur\<lparr> p_salt := salt \<rparr>;
                     st2 = sess_put uniq cur1 st1
                 in case stdin_pin of
                      Some pin \<Rightarrow>
                        let (tree, st3) = getservercert lib uniq cur1 no_reply pin st2 in (Reply tree, st3)
                    | None \<Rightarrow> (Deferred, sess_put uniq (cur1\<lparr> p_response := True \<rparr>) st2))"

definition pair_session_request ::
  "'c pair_lib \<Rightarrow> io \<Rightarrow> bytes \<Rightarrow> bytes \<Rightarrow> args \<Rightarrow> bytes \<Rightarrow> 'c nv \<Rightarrow> reply \<times> 'c nv" where
  "pair_session_request lib io rnd1 rnd2 args uniq st =
     (case map_id_sess st uniq of
        None \<Rightarrow> (no_reply\<lparr> r_status := Some 400, r_message := Some ''Invalid uniqueid'' \<rparr>, st)
      | Some s \<Rightarrow>
          (case args ''clientchallenge'' of
             Some v \<Rightarrow> clientchallenge lib rnd1 rnd2 uniq s no_reply (from_hex_vec v True) st
           | None \<Rightarrow>
          (case args ''serverchallengeresp'' of
             Some v \<Rightarrow> serverchallengeresp lib uniq s no_reply (from_hex_vec v True) st
           | None \<Rightarrow>
          (case args ''clientpairingsecret'' of
             Some v \<Rightarrow> clientpairingsecret lib io uniq s no_reply (from_hex_vec v True) st
           | None \<Rightarrow>
               (no_reply\<lparr> r_status := Some 404, r_message := Some ''Invalid pairing request'' \<rparr>, st)))))"

definition pair ::
  "'c pair_lib \<Rightarrow> io \<Rightarrow> bytes \<Rightarrow> bytes \<Rightarrow> bytes option \<Rightarrow> args \<Rightarrow> 'c nv \<Rightarrow> pair_out \<times> 'c nv" where
  "pair lib io rnd1 rnd2 stdin_pin args st =
     (case args ''uniqueid'' of
        None \<Rightarrow> (Reply (no_reply\<lparr> r_status := Some 400, r_message := Some ''Missing uniqueid parameter'' \<rparr>), st)
      | Some uniq \<Rightarrow>
          let rest = (let (tree, st') = pair_session_request lib io rnd1 rnd2 args uniq st in (Reply tree, st'))
          in case args ''phrase'' of
               None \<Rightarrow> rest
             | Some phrase \<Rightarrow>
                 if phrase = ascii ''getservercert''
                 then pair_getservercert lib stdin_pin args uniq st
                 else if phrase = ascii ''pairchallenge''
                 then (Reply (no_reply\<lparr> r_paired := Some 1, r_status := Some 200 \<rparr>), st)
                 else rest)"

text \<open>
  The PIN the user enters goes to the first session of the map, \<open>first\<close>. When its handler
  removed that session the write of the name goes to freed memory. The last component is what
  the waiting request is answered.
\<close>

datatype pin_out = Pin_Result bool | Use_After_Free

definition pin_digits :: "bytes \<Rightarrow> bool" where
  "pin_digits p \<longleftrightarrow> (\<forall>ch \<in> set p. 0x30 \<le> ch \<and> ch \<le> 0x39)"

definition pin ::
  "'c pair_lib \<Rightarrow> bytes \<Rightarrow> bytes \<Rightarrow> bytes \<Rightarrow> 'c nv \<Rightarrow> pin_out \<times> 'c nv \<times> reply option" where
  "pin lib first p name st =
     (case map_id_sess st first of
        None \<Rightarrow> (Pin_Result False, st, None)
      | Some s \<Rightarrow>
          if length p \<noteq> 4 then (Pin_Result False, st, None)
          else if \<not> pin_digits p then (Pin_Result False, st, None)
          else
            let (tree, st1) = getservercert lib first s no_reply p st
            in case map_id_sess st1 first of
                 None \<Rightarrow> (Use_After_Free, st1, None)
               | Some s1 \<Rightarrow>
                   let s2 = s1\<lparr> p_name := name \<rparr>
                   in if p_response s2
                      then (Pin_Result True, sess_put first (s2\<lparr> p_response := False \<rparr>) st1, Some tree)
                      else (Pin_Result False, sess_put first s2 st1, None))"

section \<open>Invariant of the pairing sessions\<close>

text \<open>
  Every session lies at the key it names. From the second phase on it has a key derived from a
  salt and a PIN that was entered; in the fourth it holds what it decrypted under that key.
\<close>

definition pin_key :: "'c pair_lib \<Rightarrow> bytes set \<Rightarrow> bytes \<Rightarrow> bool" where
  "pin_key lib pins k \<longleftrightarrow> (\<exists>p \<in> pins. \<exists>salt. k = gen_aes_key (l_sha256 lib) (salt_bytes salt) p)"

definition sess_ok :: "'c pair_lib \<Rightarrow> bytes set \<Rightarrow> bytes \<Rightarrow> pair_session \<Rightarrow> bool" where
  "sess_ok lib pins k s \<longleftrightarrow> p_unique_id s = k \<and> p_last_phase s \<noteq> CLIENTPAIRINGSECRET \<and>
     (p_last_phase s \<noteq> PHASE_NONE \<longrightarrow> (\<exists>key. p_cipher_key s = Some key \<and> pin_key lib pins key)) \<and>
     (p_last_phase s \<in> {CLIENTCHALLENGE, SERVERCHALLENGERESP} \<longrightarrow>
        length (p_serversecret s) = 16 \<and> length (p_serverchallenge s) = 16) \<and>
     (p_last_phase s = SERVERCHALLENGERESP \<longrightarrow> (\<exists>key enc. p_cipher_key s = Some key \<and>
        p_clienthash s = snd (ecb_decrypt (l_evp lib) key False enc [])))"

definition nv_ok :: "'c pair_lib \<Rightarrow> bytes set \<Rightarrow> 'c nv \<Rightarrow> bool" where
  "nv_ok lib pins st \<longleftrightarrow> (\<forall>k s. map_id_sess st k = Some s \<longrightarrow> sess_ok lib pins k s)"

lemma nv_okD: "nv_ok lib pins st \<Longrightarrow> map_id_sess st k = Some s \<Longrightarrow> sess_ok lib pins k s"
  by (simp add: nv_ok_def)

lemma nv_ok_put [inv_intros]:
  "nv_ok lib pins st \<Longrightarrow> sess_ok lib pins k s \<Longrightarrow> nv_ok lib pins (sess_put k s st)"
  by (simp add: nv_ok_def sess_put_def)

lemma nv_ok_remove [inv_intros]: "nv_ok lib pins st \<Longrightarrow> nv_ok lib pins (remove_pair_session s st)"
  by (simp add: nv_ok_def remove_pair_session_def)

lemma remove_pair_session_put [simp]:
  "p_unique_id s' = k \<Longrightarrow> remove_pair_session s' (sess_put k s st) = remove_pair_session s' st"
  by (simp add: remove_pair_session_def sess_put_def)

lemma fail_pair_put [simp]:
  "p_unique_id s' = k \<Longrightarrow> fail_pair s' tree msg (sess_put k s st) = fail_pair s' tree msg st"
  by (simp add: fail_pair_def)

lemma sessions_remove [simp]:
  "map_id_sess (remove_pair_session s st) = (map_id_sess st)(p_unique_id s := None)"
  by (simp add: remove_pair_session_def)

lemma sessions_put [simp]: "map_id_sess (sess_put k s st) = (map_id_sess st)(k \<mapsto> s)"
  by (simp add: sess_put_def)

lemma nv_ok_cong: "map_id_sess st' = map_id_sess st \<Longrightarrow> nv_ok lib pins st' = nv_ok lib pins st"
  by (simp add: nv_ok_def)

lemma nv_ok_mono: "nv_ok lib pins st \<Longrightarrow> pins \<subseteq> pins' \<Longrightarrow> nv_ok lib pins' st"
  unfolding nv_ok_def sess_ok_def pin_key_def by blast

lemma sessions_save_state [simp]: "map_id_sess (save_state io st) = map_id_sess st"
  by (simp add: save_state_def Let_def)

lemma sessions_load_state [simp]: "map_id_sess (load_state lib io st) = map_id_sess st"
  by (simp add: load_state_def Let_def split: option.split)

lemma sessions_add_authorized_client [simp]:
  "map_id_sess (add_authorized_client io n c st) = map_id_sess st"
  by (simp add: add_authorized_client_def Let_def)

lemma sess_ok_id: "sess_ok lib pins k s \<Longrightarrow> p_unique_id s = k"
  by (simp add: sess_ok_def)

text \<open>Each handler.\<close>

lemma nv_ok_fail [inv_intros]:
  "nv_ok lib pins st \<Longrightarrow> nv_ok lib pins (snd (fail_pair s tree msg st))"
  by (simp add: fail_pair_def nv_ok_remove)

lemma sess_put_fields [simp]:
  "client_root (sess_put k s st) = client_root st" "add_cert (sess_put k s st) = add_cert st"
  "cert_chain (sess_put k s st) = cert_chain st" "state_file (sess_put k s st) = state_file st"
  by (simp_all add: sess_put_def)

lemma sess_put_twice [simp]: "sess_put k s' (sess_put k s st) = sess_put k s' st"
  by (simp add: sess_put_def)

lemma getservercert_ok:
  assumes "nv_ok lib pins st" and "p_unique_id s = k" and "p \<in> pins"
  shows "nv_ok lib pins (snd (getservercert lib k s tree p st))"
proof -
  have "pin_key lib pins (gen_aes_key (l_sha256 lib) (salt_bytes (p_salt s)) p)"
    using assms(3) by (auto simp: pin_key_def)
  with assms show ?thesis
    by (auto simp: getservercert_def Let_def sess_ok_def intro!: inv_intros)
qed

lemma clientchallenge_ok:
  assumes "nv_ok lib pins st" and "sess_ok lib pins k s" and "length r1 = 16" and "length r2 = 16"
  shows "nv_ok lib pins (snd (clientchallenge lib r1 r2 k s tree ch st))"
  using assms
  by (auto simp: clientchallenge_def Let_def sess_ok_def intro!: inv_intros split: option.split)

lemma serverchallengeresp_ok:
  assumes "nv_ok lib pins st" and "sess_ok lib pins k s"
  shows "nv_ok lib pins (snd (serverchallengeresp lib k s tree resp st))"
  using assms
  by (auto simp: serverchallengeresp_def Let_def sess_ok_def intro!: inv_intros split: option.split)

lemma clientpairingsecret_ok:
  assumes "nv_ok lib pins st" and "sess_ok lib pins k s"
  shows "nv_ok lib pins (snd (clientpairingsecret lib io k s tree sec st))"
  using assms(1) sess_ok_id [OF assms(2)]
  by (simp add: clientpairingsecret_def Let_def nv_ok_def fail_pair_def)

lemma pair_session_request_ok:
  assumes "nv_ok lib pins st" and "length r1 = 16" and "length r2 = 16"
  shows "nv_ok lib pins (snd (pair_session_request lib io r1 r2 args uniq st))"
  using assms nv_okD [OF assms(1), of uniq]
  by (auto simp: pair_session_request_def split: option.split
      intro!: clientchallenge_ok serverchallengeresp_ok clientpairingsecret_ok)

lemma pair_getservercert_ok:
  assumes "nv_ok lib pins st" and "\<And>p. stdin_pin = Some p \<Longrightarrow> p \<in> pins"
  shows "nv_ok lib pins (snd (pair_getservercert lib stdin_pin args uniq st))"
proof -
  define cur where "cur certhex = (case map_id_sess st uniq of Some s \<Rightarrow> s
    | None \<Rightarrow> new_pair_session\<lparr> p_unique_id := uniq, p_cert := from_hex_vec certhex True \<rparr>)" for certhex
  have c: "sess_ok lib pins uniq (cur h)" for h
    using nv_okD [OF assms(1), of uniq]
    by (auto simp: cur_def sess_ok_def new_pair_session_def split: option.split)
  have c1: "sess_ok lib pins uniq (cur h\<lparr> p_salt := salt \<rparr>)"
    "sess_ok lib pins uniq (cur h\<lparr> p_salt := salt, p_response := True \<rparr>)" for h salt
    using c [of h] by (simp_all add: sess_ok_def)
  show ?thesis
    using assms c c1 sess_ok_id [OF c]
    by (auto simp: pair_getservercert_def Let_def cur_def [symmetric] split: option.split prod.split
        intro!: nv_ok_put)
      (metis (no_types, lifting) getservercert_ok nv_ok_put pair_session.simps sess_ok_id snd_conv)
qed

lemma pair_ok:
  assumes "nv_ok lib pins st" and "length r1 = 16" and "length r2 = 16"
    and "\<And>p. stdin_pin = Some p \<Longrightarrow> p \<in> pins"
  shows "nv_ok lib pins (snd (pair lib io r1 r2 stdin_pin args st))"
proof -
  have "snd (let (tree, st') = pair_session_request lib io r1 r2 args u st in (Reply tree, st')) =
    snd (pair_session_request lib io r1 r2 args u st)" for u
    by (simp split: prod.split)
  then show ?thesis
    using assms(1) pair_session_request_ok [OF assms(1-3)] pair_getservercert_ok [OF assms(1,4)]
    by (simp add: pair_def Let_def split: option.split)
qed

lemma pin_ok:
  assumes "nv_ok lib pins st" and "p \<in> pins"
  shows "nv_ok lib pins (fst (snd (pin lib first p name st)))"
proof (cases "map_id_sess st first")
  case (Some s)
  have ok: "nv_ok lib pins (snd (getservercert lib first s no_reply p st))"
    using getservercert_ok [OF assms(1) sess_ok_id [OF nv_okD [OF assms(1) Some]] assms(2)] .
  have "sess_ok lib pins first (s1\<lparr> p_name := n \<rparr>)" "sess_ok lib pins first (s1\<lparr> p_name := n, p_response := False \<rparr>)"
    if "sess_ok lib pins first s1" for s1 n
    using that by (simp_all add: sess_ok_def)
  with ok assms(1) Some nv_okD [OF ok] show ?thesis
    by (auto simp: pin_def Let_def split: option.split prod.split intro!: nv_ok_put)
qed (use assms in \<open>simp add: pin_def\<close>)

section \<open>What the handlers change\<close>

text \<open>All of a state but the sessions.\<close>

definition same_db :: "'c nv \<Rightarrow> 'c nv \<Rightarrow> bool" where
  "same_db st st' \<longleftrightarrow> client_root st' = client_root st \<and> cert_chain st' = cert_chain st \<and>
     add_cert st' = add_cert st \<and> state_file st' = state_file st"

lemma same_db_refl [simp]: "same_db st st"
  by (simp add: same_db_def)

lemma same_db_put [simp]: "same_db st (sess_put k s st') = same_db st st'"
  by (simp add: same_db_def sess_put_def)

lemma same_db_remove [simp]: "same_db st (remove_pair_session s st') = same_db st st'"
  by (simp add: same_db_def remove_pair_session_def)

lemma same_db_fail [simp]: "same_db st (snd (fail_pair s tree msg st')) = same_db st st'"
  by (simp add: fail_pair_def)

lemma getservercert_db [simp]: "same_db st (snd (getservercert lib k s tree p st)) "
  by (simp add: getservercert_def Let_def)

lemma clientchallenge_db [simp]: "same_db st (snd (clientchallenge lib r1 r2 k s tree ch st))"
  by (simp add: clientchallenge_def Let_def split: option.split)

lemma serverchallengeresp_db [simp]: "same_db st (snd (serverchallengeresp lib k s tree resp st))"
  by (simp add: serverchallengeresp_def Let_def split: option.split)

text \<open>When the last phase accepts: what the client has shown.\<close>

definition proof_shown :: "'c pair_lib \<Rightarrow> pair_session \<Rightarrow> bytes \<Rightarrow> bool" where
  "proof_shown lib s sec \<longleftrightarrow> p_last_phase s = SERVERCHALLENGERESP \<and> 16 < length sec \<and>
     \<not> l_null lib (l_x509 lib (p_cert s)) \<and>
     l_sha256 lib (p_serverchallenge s @ l_signature lib (l_x509 lib (p_cert s)) @ take 16 sec) = p_clienthash s \<and>
     l_verify256 lib (l_x509 lib (p_cert s)) (take 16 sec) (drop 16 sec)"

lemma clientpairingsecret_accepts:
  "proof_shown lib s sec \<Longrightarrow> p_unique_id s = k \<Longrightarrow>
     clientpairingsecret lib io k s tree sec st =
       (tree\<lparr> r_paired := Some 1, r_status := Some 200 \<rparr>,
        remove_pair_session s (add_authorized_client io (p_name s) (p_cert s)
          ((sess_put k (s\<lparr> p_last_phase := CLIENTPAIRINGSECRET \<rparr>) st)
            \<lparr> add_cert := queue_raise (l_x509 lib (p_cert s)) (add_cert st) \<rparr>)))"
  by (simp add: clientpairingsecret_def proof_shown_def Let_def remove_pair_session_def sess_put_def)

lemma clientpairingsecret_refuses:
  "\<not> proof_shown lib s sec \<Longrightarrow> p_unique_id s = k \<Longrightarrow>
     same_db st (snd (clientpairingsecret lib io k s tree sec st)) \<and>
     map_id_sess (snd (clientpairingsecret lib io k s tree sec st)) = (map_id_sess st)(k := None) \<and>
     r_paired (fst (clientpairingsecret lib io k s tree sec st)) = Some 0"
  by (auto simp: clientpairingsecret_def proof_shown_def Let_def fail_pair_def)

lemma clientpairingsecret_db:
  "\<not> same_db st (snd (clientpairingsecret lib io k s tree sec st)) \<Longrightarrow> p_unique_id s = k \<Longrightarrow>
     proof_shown lib s sec"
  using clientpairingsecret_refuses by blast

text \<open>A request changes the client database only by a session whose proof is shown.\<close>

lemma pair_session_request_db:
  assumes "nv_ok lib pins st"
    and "\<not> same_db st (snd (pair_session_request lib io r1 r2 args uniq st))"
  shows "\<exists>s v. map_id_sess st uniq = Some s \<and> args ''clientpairingsecret'' = Some v \<and>
    proof_shown lib s (from_hex_vec v True) \<and>
    snd (pair_session_request lib io r1 r2 args uniq st) =
      snd (clientpairingsecret lib io uniq s no_reply (from_hex_vec v True) st)"
proof -
  obtain s where s: "map_id_sess st uniq = Some s"
    using assms(2) by (auto simp: pair_session_request_def split: option.splits)
  with assms(2) obtain v where v: "args ''clientchallenge'' = None" "args ''serverchallengeresp'' = None"
    "args ''clientpairingsecret'' = Some v"
    by (auto simp: pair_session_request_def split: option.splits)
  have "pair_session_request lib io r1 r2 args uniq st =
    clientpairingsecret lib io uniq s no_reply (from_hex_vec v True) st"
    by (simp add: pair_session_request_def s v)
  with assms(2) clientpairingsecret_db [OF _ sess_ok_id [OF nv_okD [OF assms(1) s]]] s v
  show ?thesis by metis
qed

lemma getservercert_db': "getservercert lib k s tree p (sess_put k' s' st) = (t, st1) \<Longrightarrow> same_db st st1"
  using getservercert_db [of "sess_put k' s' st" lib k s tree p]
  by (simp add: same_db_def sess_put_def)

lemma pair_getservercert_db: "same_db st (snd (pair_getservercert lib stdin_pin args uniq st))"
  by (auto simp: pair_getservercert_def Let_def dest: getservercert_db' split: option.split prod.split)

lemma pair_db:
  assumes "nv_ok lib pins st" and "\<not> same_db st (snd (pair lib io r1 r2 stdin_pin args st))"
  shows "\<exists>uniq s v. args ''uniqueid'' = Some uniq \<and> map_id_sess st uniq = Some s \<and>
    args ''clientpairingsecret'' = Some v \<and> proof_shown lib s (from_hex_vec v True) \<and>
    snd (pair lib io r1 r2 stdin_pin args st) =
      snd (clientpairingsecret lib io uniq s no_reply (from_hex_vec v True) st)"
proof -
  have "snd (let (tree, st') = pair_session_request lib io r1 r2 args u st in (Reply tree, st')) =
    snd (pair_session_request lib io r1 r2 args u st)" for u
    by (simp split: prod.split)
  then show ?thesis
    using assms(2) pair_session_request_db [OF assms(1)] pair_getservercert_db [of st lib stdin_pin args]
    by (auto simp: pair_def Let_def split: option.splits if_splits)
qed

lemma pin_db: "same_db st (fst (snd (pin lib first p name st)))"
proof -
  have "same_db st st1" if "getservercert lib k s tree p st = (t, st1)" for k s tree t st1
    using getservercert_db [of st lib k s tree p] that by simp
  then show ?thesis by (auto simp: pin_def Let_def split: option.split prod.split)
qed

section \<open>Runs\<close>

text \<open>
  The requests, the PINs and the calls of the configuration page, in any order, with the PINs
  entered so far.
\<close>

definition pin_wf :: "bytes \<Rightarrow> bool" where
  "pin_wf p \<longleftrightarrow> length p = 4 \<and> pin_digits p"

inductive nv_step :: "'c pair_lib \<Rightarrow> bytes set \<times> 'c nv \<Rightarrow> bytes set \<times> 'c nv \<Rightarrow> bool" for lib where
  Pair: "length r1 = 16 \<Longrightarrow> length r2 = 16 \<Longrightarrow>
    nv_step lib (pins, st) (pins, snd (pair lib io r1 r2 None args st))"
| Pin: "(map_id_sess st first = None \<longleftrightarrow> map_id_sess st = Map.empty) \<Longrightarrow>
    nv_step lib (pins, st) (if pin_wf p then insert p pins else pins, fst (snd (pin lib first p name st)))"
| Tls: "nv_step lib (pins, st) (pins, snd (tls_verify lib cert st))"
| Unpair: "nv_step lib (pins, st) (pins, snd (unpair_client lib io io' uuid st))"
| Erase: "nv_step lib (pins, st) (pins, erase_all_clients io st)"
| Enable: "nv_step lib (pins, st) (pins, snd (set_client_enabled io uuid b st))"

lemma pin_bad_format: "\<not> pin_wf p \<Longrightarrow> pin lib first p name st = (Pin_Result False, st, None)"
  by (simp add: pin_def pin_wf_def split: option.split)

lemma sessions_tls [simp]: "map_id_sess (snd (tls_verify lib cert st)) = map_id_sess st"
  by (simp add: tls_verify_def Let_def split: prod.split option.split)

lemma sessions_unpair [simp]: "map_id_sess (snd (unpair_client lib io io' uuid st)) = map_id_sess st"
  by (simp add: unpair_client_def Let_def)

lemma sessions_erase [simp]: "map_id_sess (erase_all_clients io st) = map_id_sess st"
  by (simp add: erase_all_clients_def)

lemma sessions_enable [simp]: "map_id_sess (snd (set_client_enabled io uuid b st)) = map_id_sess st"
  by (simp add: set_client_enabled_def split: option.split)

interpretation nvs: invariant_system "nv_step lib"
  "\<lambda>(pins, st). nv_ok lib pins st \<and> (\<forall>p \<in> pins. pin_wf p)" for lib :: "'c pair_lib"
proof (unfold_locales, clarify)
  fix pins :: "bytes set" and st :: "'c nv" and pins' st'
  assume "nv_step lib (pins, st) (pins', st')" "nv_ok lib pins st" "\<forall>p \<in> pins. pin_wf p"
  then show "nv_ok lib pins' st' \<and> (\<forall>p \<in> pins'. pin_wf p)"
  proof cases
    case (Pin first p name)
    with \<open>nv_ok lib pins st\<close> \<open>\<forall>p \<in> pins. pin_wf p\<close> show ?thesis
      using pin_ok [of lib "insert p pins" st p first name] nv_ok_mono [of lib pins st "insert p pins"]
      by (auto simp: pin_bad_format)
  next
    case (Pair r1 r2 io args)
    with \<open>nv_ok lib pins st\<close> \<open>\<forall>p \<in> pins. pin_wf p\<close> show ?thesis
      using pair_ok [of lib pins st r1 r2 None io args] by simp
  qed (use \<open>nv_ok lib pins st\<close> \<open>\<forall>p \<in> pins. pin_wf p\<close> in \<open>simp_all add: nv_ok_def\<close>)
qed

section \<open>Safety of pairing\<close>

text \<open>
  (C1) From an empty map of sessions, a request adds a client only when all of this happened:
  a PIN of four digits was entered on the host and, with some salt, gave the session its key; the
  session went through the phases to the last one; the client sent the hash of the host's fresh
  challenge, of its own certificate's signature and of its secret encrypted under that key; and
  the secret is signed by the certificate. The client is added with that certificate, which is
  queued for the TLS check.
\<close>
theorem client_added_needs_handshake:
  assumes "(nv_step lib)\<^sup>*\<^sup>* ({}, st0) (pins, st)" and "map_id_sess st0 = Map.empty"
    and "client_root (snd (pair lib io r1 r2 None args st)) \<noteq> client_root st"
  shows "\<exists>uniq s v key p salt enc. args ''uniqueid'' = Some uniq \<and> map_id_sess st uniq = Some s \<and>
    args ''clientpairingsecret'' = Some v \<and> proof_shown lib s (from_hex_vec v True) \<and>
    p \<in> pins \<and> pin_wf p \<and> p_cipher_key s = Some key \<and>
    key = gen_aes_key (l_sha256 lib) (salt_bytes salt) p \<and> length (p_serverchallenge s) = 16 \<and>
    p_clienthash s = snd (ecb_decrypt (l_evp lib) key False enc []) \<and>
    client_root (snd (pair lib io r1 r2 None args st)) = client_root st @
      [\<lparr> nc_name = p_name s, nc_uuid = io_uuid io 0, nc_cert = p_cert s, nc_enabled = True \<rparr>] \<and>
    add_cert (snd (pair lib io r1 r2 None args st)) = queue_raise (l_x509 lib (p_cert s)) (add_cert st)"
proof -
  have ok: "nv_ok lib pins st" "\<forall>p \<in> pins. pin_wf p"
    using nvs.steps_ok [OF assms(1)] assms(2) by (auto simp: nv_ok_def)
  obtain uniq s v where u: "args ''uniqueid'' = Some uniq" "map_id_sess st uniq = Some s"
    "args ''clientpairingsecret'' = Some v" "proof_shown lib s (from_hex_vec v True)"
    "snd (pair lib io r1 r2 None args st) =
      snd (clientpairingsecret lib io uniq s no_reply (from_hex_vec v True) st)"
    using pair_db [OF ok(1), of io r1 r2 None args] assms(3) by (auto simp: same_db_def)
  have s: "sess_ok lib pins uniq s" "p_last_phase s = SERVERCHALLENGERESP"
    using nv_okD [OF ok(1) u(2)] u(4) by (simp_all add: proof_shown_def)
  then obtain key p salt enc where k: "p_cipher_key s = Some key" "p \<in> pins"
    "key = gen_aes_key (l_sha256 lib) (salt_bytes salt) p" "length (p_serverchallenge s) = 16"
    "p_clienthash s = snd (ecb_decrypt (l_evp lib) key False enc [])"
    unfolding sess_ok_def pin_key_def by auto
  have "snd (pair lib io r1 r2 None args st) =
      remove_pair_session s (add_authorized_client io (p_name s) (p_cert s)
          ((sess_put uniq (s\<lparr> p_last_phase := CLIENTPAIRINGSECRET \<rparr>) st)
            \<lparr> add_cert := queue_raise (l_x509 lib (p_cert s)) (add_cert st) \<rparr>))"
    using clientpairingsecret_accepts [OF u(4) sess_ok_id [OF s(1)]] u(5) by simp
  then have "client_root (snd (pair lib io r1 r2 None args st)) = client_root st @
      [\<lparr> nc_name = p_name s, nc_uuid = io_uuid io 0, nc_cert = p_cert s, nc_enabled = True \<rparr>]"
    "add_cert (snd (pair lib io r1 r2 None args st)) = queue_raise (l_x509 lib (p_cert s)) (add_cert st)"
    by (simp_all add: add_authorized_client_def save_state_def remove_pair_session_def sess_put_def Let_def)
  with u(1-4) k ok(2) show ?thesis by blast
qed

text \<open>
  A phase request out of order, or a last one without the proof, drops the session: the map
  no longer has it, the client database is untouched and the answer says not paired.
\<close>
theorem failed_phase_drops_session:
  assumes "args ''uniqueid'' = Some uniq" and "args ''phrase'' = None"
    and "map_id_sess st uniq = Some s" and "p_unique_id s = uniq"
    and "(\<exists>v. args ''clientchallenge'' = Some v \<and> p_last_phase s \<noteq> GETSERVERCERT) \<or>
      (\<exists>v. args ''clientchallenge'' = None \<and> args ''serverchallengeresp'' = Some v \<and>
         p_last_phase s \<noteq> CLIENTCHALLENGE) \<or>
      (\<exists>v. args ''clientchallenge'' = None \<and> args ''serverchallengeresp'' = None \<and>
         args ''clientpairingsecret'' = Some v \<and> \<not> proof_shown lib s (from_hex_vec v True))"
  shows "\<exists>tree st'. pair lib io r1 r2 stdin_pin args st = (Reply tree, st') \<and> r_paired tree = Some 0 \<and>
    map_id_sess st' = (map_id_sess st)(uniq := None) \<and> same_db st st'"
proof -
  have p: "pair lib io r1 r2 stdin_pin args st =
      (let (tree, st') = pair_session_request lib io r1 r2 args uniq st in (Reply tree, st'))"
    by (simp add: pair_def assms(1,2))
  have "r_paired (fst (pair_session_request lib io r1 r2 args uniq st)) = Some 0 \<and>
    map_id_sess (snd (pair_session_request lib io r1 r2 args uniq st)) = (map_id_sess st)(uniq := None) \<and>
    same_db st (snd (pair_session_request lib io r1 r2 args uniq st))"
    using assms(3-5) clientpairingsecret_refuses [of lib s _ uniq st io no_reply]
    by (auto simp: pair_session_request_def clientchallenge_def serverchallengeresp_def fail_pair_def
        remove_pair_session_def same_db_def)
  then show ?thesis unfolding p
    by (cases "pair_session_request lib io r1 r2 args uniq st") auto
qed

section \<open>An honest client\<close>

text \<open>What the library promises for the ciphers, the digest and one client's certificate.\<close>

definition pair_laws :: "'c pair_lib \<Rightarrow> bytes \<Rightarrow> (bytes \<Rightarrow> bytes) \<Rightarrow> bool" where
  "pair_laws lib cert csign \<longleftrightarrow> (\<forall>m. length (l_sha256 lib m) = 32) \<and>
     (\<forall>key m. length key = 16 \<longrightarrow> length m mod 16 = 0 \<longrightarrow>
        snd (ecb_decrypt (l_evp lib) key False (snd (ecb_encrypt (l_evp lib) key False m [])) []) = m) \<and>
     \<not> l_null lib (l_x509 lib cert) \<and>
     (\<forall>m. csign m \<noteq> [] \<and> l_verify256 lib (l_x509 lib cert) m (csign m))"

definition reply_of :: "pair_out \<Rightarrow> reply" where
  "reply_of out = (case out of Reply r \<Rightarrow> r | _ \<Rightarrow> no_reply)"

text \<open>
  A client that knows the PIN: its five requests with the entry of the PIN after the first. The
  result has the last answer, what the client read of the host's two messages, and the state.
\<close>

definition honest_pairing ::
  "'c pair_lib \<Rightarrow> io \<Rightarrow> bytes \<Rightarrow> bytes \<Rightarrow> bytes \<Rightarrow> (bytes \<Rightarrow> bytes) \<Rightarrow> bytes \<Rightarrow> bytes \<Rightarrow> bytes \<Rightarrow> bytes \<Rightarrow>
     bytes \<Rightarrow> bytes \<Rightarrow> 'c nv \<Rightarrow> pair_out \<times> bytes \<times> bytes \<times> 'c nv" where
  "honest_pairing lib io r1 r2 u csign cert secret challenge salt p name st =
     (let key = gen_aes_key (l_sha256 lib) (salt_bytes salt) p;
          st1 = snd (pair lib io r1 r2 None [''uniqueid'' \<mapsto> u, ''phrase'' \<mapsto> ascii ''getservercert'',
            ''clientcert'' \<mapsto> hex_vec cert True, ''salt'' \<mapsto> salt] st);
          st2 = fst (snd (pin lib u p name st1));
          (o3, st3) = pair lib io r1 r2 None [''uniqueid'' \<mapsto> u,
            ''clientchallenge'' \<mapsto> hex_vec (snd (ecb_encrypt (l_evp lib) key False challenge [])) True] st2;
          resp = snd (ecb_decrypt (l_evp lib) key False
            (from_hex_vec (the (r_challengeresponse (reply_of o3))) True) []);
          h = l_sha256 lib (drop 32 resp @ l_signature lib (l_x509 lib cert) @ secret);
          (o4, st4) = pair lib io r1 r2 None [''uniqueid'' \<mapsto> u,
            ''serverchallengeresp'' \<mapsto> hex_vec (snd (ecb_encrypt (l_evp lib) key False h [])) True] st3;
          srv = from_hex_vec (the (r_pairingsecret (reply_of o4))) True;
          (o5, st5) = pair lib io r1 r2 None [''uniqueid'' \<mapsto> u,
            ''clientpairingsecret'' \<mapsto> hex_vec (secret @ csign secret) True] st4
      in (o5, resp, srv, st5))"

lemma pair_first_request:
  assumes "map_id_sess st u = None"
  shows "pair lib io r1 r2 None [''uniqueid'' \<mapsto> u, ''phrase'' \<mapsto> ascii ''getservercert'',
      ''clientcert'' \<mapsto> hex_vec cert True, ''salt'' \<mapsto> salt] st =
    (Deferred, sess_put u (new_pair_session\<lparr> p_unique_id := u, p_cert := cert, p_salt := salt,
       p_response := True \<rparr>) st)"
  using assms by (simp add: pair_def pair_getservercert_def get_arg_def from_hex_vec_hex_vec Let_def
      new_pair_session_def)

lemma pin_first_session:
  assumes "map_id_sess st u = Some s" and "p_last_phase s = PHASE_NONE" and "32 \<le> length (p_salt s)"
    and "pin_wf p" and "p_response s"
  shows "\<exists>tree. pin lib u p name st = (Pin_Result True,
    sess_put u (s\<lparr> p_last_phase := GETSERVERCERT,
      p_cipher_key := Some (gen_aes_key (l_sha256 lib) (salt_bytes (p_salt s)) p),
      p_name := name, p_response := False \<rparr>) st, Some tree) \<and> r_paired tree = Some 1 \<and>
      r_plaincert tree = Some (hex_vec (conf_servercert st) True)"
  using assms by (simp add: pin_def pin_wf_def getservercert_def Let_def sess_put_def)

lemma pair_challenge_request:
  assumes "map_id_sess st u = Some s" and "p_last_phase s = GETSERVERCERT" and "p_cipher_key s = Some key"
  shows "\<exists>tree. pair lib io r1 r2 None [''uniqueid'' \<mapsto> u, ''clientchallenge'' \<mapsto> hex_vec m True] st =
    (Reply tree, sess_put u (s\<lparr> p_last_phase := CLIENTCHALLENGE, p_serversecret := r1,
       p_serverchallenge := r2 \<rparr>) st) \<and>
    r_challengeresponse tree = Some (hex_vec (snd (ecb_encrypt (l_evp lib) key False
       (l_sha256 lib (snd (ecb_decrypt (l_evp lib) key False m []) @
          l_signature lib (l_x509 lib (conf_servercert st)) @ r1) @ r2) [])) True)"
  using assms by (simp add: pair_def pair_session_request_def clientchallenge_def Let_def
      from_hex_vec_hex_vec) (simp add: sess_put_def)

lemma pair_response_request:
  assumes "map_id_sess st u = Some s" and "p_last_phase s = CLIENTCHALLENGE" and "p_cipher_key s = Some key"
    and "p_serversecret s \<noteq> []"
  shows "\<exists>tree. pair lib io r1 r2 None [''uniqueid'' \<mapsto> u, ''serverchallengeresp'' \<mapsto> hex_vec m True] st =
    (Reply tree, sess_put u (s\<lparr> p_last_phase := SERVERCHALLENGERESP,
       p_clienthash := snd (ecb_decrypt (l_evp lib) key False m []) \<rparr>) st) \<and>
    r_pairingsecret tree = Some (hex_vec (p_serversecret s @
       l_sign256 lib (conf_pkey st) (p_serversecret s)) True)"
  using assms by (simp add: pair_def pair_session_request_def serverchallengeresp_def Let_def
      from_hex_vec_hex_vec) (simp add: sess_put_def)

lemma pair_secret_request:
  assumes "map_id_sess st u = Some s" and "p_unique_id s = u" and "proof_shown lib s m"
  shows "pair lib io r1 r2 None [''uniqueid'' \<mapsto> u, ''clientpairingsecret'' \<mapsto> hex_vec m True] st =
    (Reply (no_reply\<lparr> r_paired := Some 1, r_status := Some 200 \<rparr>),
     remove_pair_session s (add_authorized_client io (p_name s) (p_cert s)
          ((sess_put u (s\<lparr> p_last_phase := CLIENTPAIRINGSECRET \<rparr>) st)
            \<lparr> add_cert := queue_raise (l_x509 lib (p_cert s)) (add_cert st) \<rparr>)))"
  using assms clientpairingsecret_accepts [OF assms(3,2), of io no_reply st]
  by (simp add: pair_def pair_session_request_def from_hex_vec_hex_vec)

lemma honest_pairing_run:
  assumes "pair_laws lib cert csign" and "map_id_sess st u = None" and "32 \<le> length salt"
    and "pin_wf p" and "length challenge mod 16 = 0" and "length secret = 16"
    and "length r1 = 16" and "length r2 = 16"
    and "honest_pairing lib io r1 r2 u csign cert secret challenge salt p name st = (out, resp, srv, st')"
  shows "out = Reply (no_reply\<lparr> r_paired := Some 1, r_status := Some 200 \<rparr>) \<and>
    take 32 resp = l_sha256 lib (challenge @ l_signature lib (l_x509 lib (conf_servercert st)) @ take 16 srv) \<and>
    drop 16 srv = l_sign256 lib (conf_pkey st) (take 16 srv) \<and>
    map_id_sess st' u = None \<and>
    client_root st' = client_root st @
      [\<lparr> nc_name = name, nc_uuid = io_uuid io 0, nc_cert = cert, nc_enabled = True \<rparr>] \<and>
    add_cert st' = queue_raise (l_x509 lib cert) (add_cert st) \<and>
    (\<exists>st4. (nv_step lib)\<^sup>*\<^sup>* (pins, st) (insert p pins, st4) \<and> client_root st4 = client_root st \<and>
       st' = snd (pair lib io r1 r2 None [''uniqueid'' \<mapsto> u,
         ''clientpairingsecret'' \<mapsto> hex_vec (secret @ csign secret) True] st4))"
proof -
  let ?enc = "\<lambda>key m. snd (ecb_encrypt (l_evp lib) key False m [])"
  let ?dec = "\<lambda>key m. snd (ecb_decrypt (l_evp lib) key False m [])"
  define key where "key = gen_aes_key (l_sha256 lib) (salt_bytes salt) p"
  have sha: "length (l_sha256 lib m) = 32" for m
    using assms(1) by (simp add: pair_laws_def)
  have key16: "length key = 16" by (simp add: key_def gen_aes_key_def sha)
  have dec: "?dec key (?enc key m) = m" if "length m mod 16 = 0" for m
    using assms(1) key16 that by (simp add: pair_laws_def)
  have cert: "\<not> l_null lib (l_x509 lib cert)" "csign secret \<noteq> []"
    "l_verify256 lib (l_x509 lib cert) secret (csign secret)"
    using assms(1) by (auto simp: pair_laws_def)
  define sig where "sig = l_signature lib (l_x509 lib (conf_servercert st))"
  define s2 where "s2 = new_pair_session\<lparr> p_unique_id := u, p_cert := cert, p_salt := salt,
    p_response := False, p_last_phase := GETSERVERCERT, p_cipher_key := Some key, p_name := name \<rparr>"
  define st2 where "st2 = sess_put u s2 st"
  have st2: "fst (snd (pin lib u p name (sess_put u (new_pair_session\<lparr> p_unique_id := u,
      p_cert := cert, p_salt := salt, p_response := True \<rparr>) st))) = st2"
    using pin_first_session [where s = "new_pair_session\<lparr> p_unique_id := u, p_cert := cert,
        p_salt := salt, p_response := True \<rparr>" and u = u and p = p and lib = lib and name = name
        and st = "sess_put u (new_pair_session\<lparr> p_unique_id := u, p_cert := cert, p_salt := salt,
          p_response := True \<rparr>) st"] assms(3,4)
    by (auto simp: new_pair_session_def st2_def s2_def key_def)
  have first: "nv_step lib (pins, st) (pins, sess_put u (new_pair_session\<lparr> p_unique_id := u,
      p_cert := cert, p_salt := salt, p_response := True \<rparr>) st)"
    using nv_step.Pair [OF assms(7,8), of lib pins st io]
      pair_first_request [OF assms(2), of lib io r1 r2 cert salt] by (metis snd_conv)
  have second: "nv_step lib (pins, sess_put u (new_pair_session\<lparr> p_unique_id := u,
      p_cert := cert, p_salt := salt, p_response := True \<rparr>) st) (insert p pins, st2)"
    using nv_step.Pin [where lib = lib and first = u and p = p and name = name and pins = pins
        and st = "sess_put u (new_pair_session\<lparr> p_unique_id := u,
          p_cert := cert, p_salt := salt, p_response := True \<rparr>) st"] assms(4) st2 by simp
  define s3 where "s3 = s2\<lparr> p_last_phase := CLIENTCHALLENGE, p_serversecret := r1, p_serverchallenge := r2 \<rparr>"
  define hello where "hello = l_sha256 lib (challenge @ sig @ r1) @ r2"
  obtain t3 where t3: "pair lib io r1 r2 None [''uniqueid'' \<mapsto> u, ''clientchallenge'' \<mapsto>
      hex_vec (?enc key challenge) True] st2 = (Reply t3, sess_put u s3 st)"
    "r_challengeresponse t3 = Some (hex_vec (?enc key hello) True)"
    using pair_challenge_request [where st = st2 and u = u and s = s2 and key = key and lib = lib
        and io = io and ?r1.0 = r1 and ?r2.0 = r2 and m = "?enc key challenge"]
    by (auto simp: st2_def s2_def s3_def hello_def sig_def dec [OF assms(5)] sess_put_def)
  have resp: "?dec key (?enc key hello) = hello"
    by (simp add: dec hello_def sha assms(8))
  define h where "h = l_sha256 lib (r2 @ l_signature lib (l_x509 lib cert) @ secret)"
  define s4 where "s4 = s3\<lparr> p_last_phase := SERVERCHALLENGERESP, p_clienthash := h \<rparr>"
  have "r1 \<noteq> []" using assms(7) by auto
  then obtain t4 where t4: "pair lib io r1 r2 None [''uniqueid'' \<mapsto> u, ''serverchallengeresp'' \<mapsto>
      hex_vec (?enc key h) True] (sess_put u s3 st) = (Reply t4, sess_put u s4 st)"
    "r_pairingsecret t4 = Some (hex_vec (r1 @ l_sign256 lib (conf_pkey st) r1) True)"
    using pair_response_request [where st = "sess_put u s3 st" and u = u and s = s3 and key = key
        and lib = lib and io = io and ?r1.0 = r1 and ?r2.0 = r2 and m = "?enc key h"] dec [of h]
    by (auto simp: s2_def s3_def s4_def h_def sha sess_put_def)
  have shown: "proof_shown lib s4 (secret @ csign secret)"
    using cert assms(6) by (simp add: proof_shown_def s4_def s3_def s2_def h_def new_pair_session_def)
  have fields: "p_unique_id s4 = u" "p_name s4 = name" "p_cert s4 = cert"
    by (simp_all add: s4_def s3_def s2_def new_pair_session_def)
  note t5 = pair_secret_request [of "sess_put u s4 st" u s4 lib "secret @ csign secret" io r1 r2,
      unfolded fields, OF _ refl shown, simplified]
  have "drop 32 hello = r2" "take 32 hello = l_sha256 lib (challenge @ sig @ r1)"
    by (simp_all add: hello_def sha)
  with assms(9) have last: "out = Reply (no_reply\<lparr> r_paired := Some 1, r_status := Some 200 \<rparr>)"
    "resp = hello" "srv = r1 @ l_sign256 lib (conf_pkey st) r1"
    "st' = remove_pair_session s4 (add_authorized_client io name cert
          ((sess_put u (s4\<lparr> p_last_phase := CLIENTPAIRINGSECRET \<rparr>) st)
            \<lparr> add_cert := queue_raise (l_x509 lib cert) (add_cert st) \<rparr>))"
    by (simp_all add: honest_pairing_def Let_def pair_first_request [OF assms(2)] st2
        key_def [symmetric] t3 resp reply_of_def h_def [symmetric] t4 from_hex_vec_hex_vec t5)
  moreover have "nv_step lib (insert p pins, st2) (insert p pins, sess_put u s3 st)"
    using nv_step.Pair [OF assms(7,8), of lib "insert p pins" st2 io] t3(1) by (metis snd_conv)
  moreover have "nv_step lib (insert p pins, sess_put u s3 st) (insert p pins, sess_put u s4 st)"
    using nv_step.Pair [OF assms(7,8), of lib "insert p pins" "sess_put u s3 st" io] t4(1)
    by (metis snd_conv)
  ultimately have "(nv_step lib)\<^sup>*\<^sup>* (pins, st) (insert p pins, sess_put u s4 st)"
    using first second by (meson converse_rtranclp_into_rtranclp rtranclp.rtrancl_refl)
  with last show ?thesis
    using assms(7) t5 by (auto simp: hello_def sha sig_def fields add_authorized_client_def Let_def
        save_state_def remove_pair_session_def sess_put_def)
qed


section \<open>The PIN\<close>

text \<open>
  The entry of a PIN. A text that is not four digits changes nothing. A PIN advances the
  first session when that session still waits for one and has a long enough salt, and the waiting
  request is answered. Otherwise the handler removes the session and the name is then written
  through a reference to it.
\<close>
theorem pin_outcomes:
  assumes "map_id_sess st first = Some s" and "p_unique_id s = first"
  shows "(\<not> pin_wf p \<longrightarrow> pin lib first p name st = (Pin_Result False, st, None)) \<and>
    (pin_wf p \<and> p_last_phase s = PHASE_NONE \<and> 32 \<le> length (p_salt s) \<longrightarrow>
       (\<exists>s' tree. pin lib first p name st = (Pin_Result (p_response s), sess_put first s' st, tree) \<and>
          p_last_phase s' = GETSERVERCERT \<and> p_name s' = name \<and>
          p_cipher_key s' = Some (gen_aes_key (l_sha256 lib) (salt_bytes (p_salt s)) p) \<and>
          (tree \<noteq> None \<longleftrightarrow> p_response s))) \<and>
    (pin_wf p \<and> (p_last_phase s \<noteq> PHASE_NONE \<or> length (p_salt s) < 32) \<longrightarrow>
       fst (pin lib first p name st) = Use_After_Free \<and>
       map_id_sess (fst (snd (pin lib first p name st))) first = None)"
  using assms pin_bad_format
  by (auto simp: pin_def pin_wf_def getservercert_def Let_def fail_pair_def sess_put_def)

text \<open>A second entry of a PIN for the same session, and a salt of three characters.\<close>

definition empty_nv :: "nat nv" where
  "empty_nv = \<lparr> map_id_sess = Map.empty, client_root = [], cert_chain = [], add_cert = queue_new 30,
     state_file = None, unique_id = [1], last_verified = [], conf_servercert = [2], conf_pkey = [3],
     fresh_state = False \<rparr>"

text \<open>
  A library for examples: certificates are numbers with their own text, the digest repeats the
  sum of its bytes, a signature repeats the sum of the signed bytes.
\<close>

definition toy_pair_lib :: "nat pair_lib" where
  "toy_pair_lib = \<lparr> l_evp = toy_evp\<lparr> evp_set_key := \<lambda>k iv. True \<rparr>, l_sha256 = (\<lambda>m. replicate 32 (sum_list m)),
     l_x509 = (\<lambda>pem. length pem), l_null = (\<lambda>c. c = 0), l_signature = (\<lambda>c. [word_of_nat c]),
     l_pem = (\<lambda>c. replicate c 0x41), l_sign256 = (\<lambda>k m. [sum_list k + sum_list m]),
     l_verify256 = (\<lambda>c m sgn. sgn = [sum_list m]), l_trust = two_clients \<rparr>"

definition salt32 :: bytes where
  "salt32 = replicate 32 0x30"

definition waiting_nv :: "nat nv" where
  "waiting_nv = sess_put [7] (new_pair_session\<lparr> p_unique_id := [7], p_salt := salt32, p_response := True \<rparr>) empty_nv"

definition salty_nv :: "nat nv" where
  "salty_nv = sess_put [7] (new_pair_session\<lparr> p_unique_id := [7], p_salt := [1, 2, 3], p_response := True \<rparr>) empty_nv"

theorem pin_outcomes_witness:
  "(\<exists>s' tree. pin toy_pair_lib [7] [0x31, 0x32, 0x33, 0x34] [9] waiting_nv = (Pin_Result True, sess_put [7] s' waiting_nv, tree)) \<and>
   fst (pin toy_pair_lib [7] [0x31, 0x32, 0x33, 0x34] [9] salty_nv) = Use_After_Free"
  using pin_outcomes [of waiting_nv "[7]" "new_pair_session\<lparr> p_unique_id := [7], p_salt := salt32, p_response := True \<rparr>"
      "[0x31, 0x32, 0x33, 0x34]" toy_pair_lib "[9]"]
    pin_outcomes [of salty_nv "[7]" "new_pair_session\<lparr> p_unique_id := [7], p_salt := [1, 2, 3], p_response := True \<rparr>"
      "[0x31, 0x32, 0x33, 0x34]" toy_pair_lib "[9]"]
  by (auto simp: waiting_nv_def salty_nv_def new_pair_session_def pin_wf_def pin_digits_def salt32_def)

section \<open>The database and the TLS check\<close>

lemma add_pending_eq:
  "add_pending q ch = (if q_continue q then (q\<lparr> q_items := [] \<rparr>, ch @ q_items q) else (q, ch))"
proof (induction q ch rule: add_pending.induct)
  case (1 q ch)
  show ?case
  proof (cases "q_continue q \<and> q_items q \<noteq> []")
    case True
    then obtain x xs where x: "q_items q = x # xs" "q_continue q" by (cases "q_items q") auto
    then have "add_pending q ch = add_pending (q\<lparr> q_items := xs \<rparr>) (chain_add ch x)"
      by (subst add_pending.simps) (simp add: queue_peek_def queue_pop_def queue_take_front_def)
    with 1 x show ?thesis
      by (simp add: queue_peek_def queue_pop_def queue_take_front_def chain_add_def)
  next
    case False
    then have "add_pending q ch = (q, ch)" by (subst add_pending.simps) (auto simp: queue_peek_def)
    with False show ?thesis by auto
  qed
qed



text \<open>
  Disabling a client compares texts: a disabled client whose stored text is not the exact
  PEM text OpenSSL writes, say for a trailing newline, is still accepted.
\<close>
theorem disabled_client_accepted:
  "\<exists>(lib :: nat pair_lib) cert st. \<not> fst (set_client_enabled \<lparr> io_read = True, io_write = True, io_uuid = \<lambda>i. [] \<rparr> [5] False (st\<lparr> client_root := [] \<rparr>)) \<and>
     fst (set_client_enabled \<lparr> io_read = True, io_write = True, io_uuid = \<lambda>i. [] \<rparr> [5] False st) \<and>
     (\<forall>nc \<in> set (client_root (snd (set_client_enabled \<lparr> io_read = True, io_write = True, io_uuid = \<lambda>i. [] \<rparr> [5] False st))).
        l_x509 lib (nc_cert nc) = cert \<and> \<not> nc_enabled nc) \<and>
     fst (tls_verify lib cert (snd (set_client_enabled \<lparr> io_read = True, io_write = True, io_uuid = \<lambda>i. [] \<rparr> [5] False st)))"
proof -
  let ?io = "\<lparr> io_read = True, io_write = True, io_uuid = \<lambda>i. [] \<rparr>"
  let ?st = "empty_nv\<lparr> cert_chain := [2], client_root := [\<lparr> nc_name = [], nc_uuid = [5],
    nc_cert = [0x41, 0x0a], nc_enabled = True \<rparr>] \<rparr>"
  have two: "replicate 2 x = [x, x]" for x :: u8 by (simp add: numeral_2_eq_2)
  have "\<not> fst (set_client_enabled ?io [5] False (?st\<lparr> client_root := [] \<rparr>)) \<and>
     fst (set_client_enabled ?io [5] False ?st) \<and>
     (\<forall>nc \<in> set (client_root (snd (set_client_enabled ?io [5] False ?st))).
        l_x509 toy_pair_lib (nc_cert nc) = 2 \<and> \<not> nc_enabled nc) \<and>
     fst (tls_verify toy_pair_lib 2 (snd (set_client_enabled ?io [5] False ?st)))"
    by (simp add: set_client_enabled_def save_state_def empty_nv_def tls_verify_def add_pending_eq
        queue_new_def toy_pair_lib_def chain_verify_def two_clients_def is_client_enabled_def Let_def two)
  then show ?thesis by (intro exI)
qed

lemma foldl_chain_add: "foldl (\<lambda>ch nc. chain_add ch (f nc)) ch cs = ch @ map f cs"
  by (induction cs arbitrary: ch) (simp_all add: chain_add_def)

lemma load_save_cert [simp]: "load_cert (save_cert c) = c"
  by (simp add: load_cert_def save_cert_def)

lemma load_after_save:
  assumes "io_read io" and "io_write io" and "io_read io'"
  shows "load_state lib io' (save_state io st) = (save_state io st)
    \<lparr> cert_chain := map (\<lambda>nc. l_x509 lib (nc_cert nc)) (client_root st) \<rparr>"
  using assms
  by (simp add: load_state_def save_state_def Let_def foldl_chain_add chain_clear_def comp_def)

lemma load_state_same_db_file: "state_file (load_state lib io st) = state_file st"
  by (simp add: load_state_def Let_def split: option.split)

text \<open>
  (C30) Saving and loading round trips: with a working state file a restart finds the same unique
  id and the same clients, names, UUIDs, certificates and switches, and a chain with exactly
  their certificates, whatever the other parts keep in the file.
\<close>
theorem save_load_round_trip:
  assumes "io_read io" and "io_write io" and "io_read io'"
  shows "client_root (load_state lib io' (save_state io st)) = client_root st \<and>
    unique_id (load_state lib io' (save_state io st)) = unique_id st \<and>
    cert_chain (load_state lib io' (save_state io st)) = map (\<lambda>nc. l_x509 lib (nc_cert nc)) (client_root st) \<and>
    (\<forall>f. state_file st = Some f \<longrightarrow>
      map_option sv_other (state_file (load_state lib io' (save_state io st))) = Some (sv_other f))"
  using assms by (auto simp: load_after_save) (auto simp: save_state_def Let_def)

definition good_io :: io where
  "good_io = \<lparr> io_read = True, io_write = True, io_uuid = (\<lambda>i. [word_of_nat i]) \<rparr>"

definition one_client :: "nat nv" where
  "one_client = empty_nv\<lparr> cert_chain := [2], client_root := [\<lparr> nc_name = [1], nc_uuid = [5],
    nc_cert = [0x41, 0x41], nc_enabled = False \<rparr>] \<rparr>"

theorem save_load_round_trip_witness:
  "client_root (load_state toy_pair_lib good_io (save_state good_io one_client)) = client_root one_client \<and>
   cert_chain (load_state toy_pair_lib good_io (save_state good_io one_client)) = [2]"
  using save_load_round_trip [of good_io good_io toy_pair_lib one_client]
  by (simp add: good_io_def one_client_def toy_pair_lib_def)

text \<open>
  Unpairing with a working state file removes exactly the clients of that UUID, and the
  chain is rebuilt from the rest, so a certificate nobody else vouches for is denied unless a
  pairing of it still waits in the queue. When the file cannot be written the clients it held
  come back, though the answer says the client was removed.
\<close>
theorem unpair_client_effect:
  assumes "unpair_client lib io io' uuid st = (removed, st')"
  shows "(removed \<longleftrightarrow> (\<exists>nc \<in> set (client_root st). nc_uuid nc = uuid)) \<and> add_cert st' = add_cert st \<and>
    (io_read io \<and> io_write io \<and> io_read io' \<longrightarrow>
      client_root st' = filter (\<lambda>nc. nc_uuid nc \<noteq> uuid) (client_root st) \<and>
      cert_chain st' = map (\<lambda>nc. l_x509 lib (nc_cert nc)) (filter (\<lambda>nc. nc_uuid nc \<noteq> uuid) (client_root st))) \<and>
    (\<not> io_write io \<and> io_read io' \<and> state_file st = state_file (save_state io0 st) \<and>
       state_file st \<noteq> None \<and> io_read io0 \<and> io_write io0 \<longrightarrow> client_root st' = client_root st)"
proof -
  have st': "st' = load_state lib io' (save_state io (st\<lparr> client_root :=
      filter (\<lambda>nc. nc_uuid nc \<noteq> uuid) (client_root st) \<rparr>))"
    and r: "removed \<longleftrightarrow> (\<exists>nc \<in> set (client_root st). nc_uuid nc = uuid)"
    using assms by (auto simp: unpair_client_def Let_def)
  have q: "add_cert st' = add_cert st"
    unfolding st' by (simp add: load_state_def save_state_def Let_def split: option.split)
  have good: "client_root st' = filter (\<lambda>nc. nc_uuid nc \<noteq> uuid) (client_root st) \<and>
      cert_chain st' = map (\<lambda>nc. l_x509 lib (nc_cert nc)) (filter (\<lambda>nc. nc_uuid nc \<noteq> uuid) (client_root st))"
    if "io_read io" "io_write io" "io_read io'"
    unfolding st' load_after_save [OF that] by (simp add: save_state_def Let_def)
  have "client_root st' = client_root st"
    if h: "\<not> io_write io" "io_read io'" "state_file st = state_file (save_state io0 st)"
      "state_file st \<noteq> None" "io_read io0" "io_write io0"
  proof -
    obtain f where f: "state_file st = Some f" using h(4) by auto
    with h have e: "f = \<lparr> sv_other = sv_other f, sv_unique_id = Some (unique_id st), sv_old_certs = [],
      sv_named = map save_cert (client_root st) \<rparr>"
      by (auto simp: save_state_def Let_def)
    have "sv_unique_id f = Some (unique_id st)" "sv_old_certs f = []"
      "sv_named f = map save_cert (client_root st)"
      by (subst e, simp)+
    with f h(1,2) show ?thesis
      unfolding st' by (simp add: load_state_def save_state_def Let_def comp_def)
  qed
  with r q good show ?thesis by blast
qed

text \<open>The one client of the example is unpaired.\<close>

theorem unpair_client_effect_witness:
  "client_root (snd (unpair_client toy_pair_lib good_io good_io [5] one_client)) = [] \<and>
   cert_chain (snd (unpair_client toy_pair_lib good_io good_io [5] one_client)) = []"
  using unpair_client_effect [of toy_pair_lib good_io good_io "[5]" one_client
      "fst (unpair_client toy_pair_lib good_io good_io [5] one_client)"
      "snd (unpair_client toy_pair_lib good_io good_io [5] one_client)" good_io]
  by (simp add: good_io_def one_client_def)

section \<open>A pairing run on the example library\<close>

lemma toy_pair_laws: "cert \<noteq> [] \<Longrightarrow> pair_laws toy_pair_lib cert (\<lambda>m. [sum_list m])"
  by (simp add: pair_laws_def toy_pair_lib_def toy_evp_def ecb_decrypt_def ecb_encrypt_def Let_def
      round_to_pkcs7_padded_eq resize_def overwrite_def)


theorem client_added_needs_handshake_witness:
  "\<exists>pins st args. (nv_step toy_pair_lib)\<^sup>*\<^sup>* ({}, empty_nv) (pins, st) \<and>
     client_root (snd (pair toy_pair_lib good_io (replicate 16 1) (replicate 16 2) None args st)) \<noteq> client_root st \<and>
     (\<exists>uniq s p salt. map_id_sess st uniq = Some s \<and> p \<in> pins \<and>
        p_cipher_key s = Some (gen_aes_key (l_sha256 toy_pair_lib) (salt_bytes salt) p))"
proof -
  obtain out resp srv st' where h: "honest_pairing toy_pair_lib good_io (replicate 16 1) (replicate 16 2) [7]
      (\<lambda>m. [sum_list m]) [0x41, 0x41] (replicate 16 3) (replicate 16 4) salt32 [0x31, 0x32, 0x33, 0x34] [9]
      empty_nv = (out, resp, srv, st')" by (metis prod_cases4)
  have e: "map_id_sess empty_nv = Map.empty" "client_root empty_nv = []" by (simp_all add: empty_nv_def)
  note run = honest_pairing_run [OF toy_pair_laws _ _ _ _ _ _ _ h, of "{}"]
  have "client_root st' \<noteq> []" using run by (simp add: e salt32_def pin_wf_def pin_digits_def)
  moreover obtain st4 args where r: "(nv_step toy_pair_lib)\<^sup>*\<^sup>* ({}, empty_nv) (insert [0x31, 0x32, 0x33, 0x34] {}, st4)"
    "client_root st4 = []" "st' = snd (pair toy_pair_lib good_io (replicate 16 1) (replicate 16 2) None args st4)"
    using run e by (simp add: salt32_def pin_wf_def pin_digits_def) blast
  ultimately have n: "client_root (snd (pair toy_pair_lib good_io (replicate 16 1) (replicate 16 2) None args st4))
    \<noteq> client_root st4" by simp
  from client_added_needs_handshake [OF r(1) e(1) n] r(1) n show ?thesis by blast
qed

text \<open>The last phase asked of a session that has just started.\<close>

theorem failed_phase_drops_session_witness:
  "\<exists>tree st'. pair toy_pair_lib good_io [] [] None [''uniqueid'' \<mapsto> [7], ''clientpairingsecret'' \<mapsto> [0x41, 0x42]] waiting_nv =
      (Reply tree, st') \<and> r_paired tree = Some 0 \<and> map_id_sess st' [7] = None"
  using failed_phase_drops_session [of "[''uniqueid'' \<mapsto> [7], ''clientpairingsecret'' \<mapsto> [0x41, 0x42]]" "[7]"
      waiting_nv "new_pair_session\<lparr> p_unique_id := [7], p_salt := salt32, p_response := True \<rparr>" toy_pair_lib
      good_io "[]" "[]" None]
  by (auto simp: waiting_nv_def new_pair_session_def proof_shown_def)

text \<open>
  A client that pairs and is unpaired before the TLS server has checked a connection stays
  accepted: the queue still holds its certificate, and the next check puts it back into the chain.
\<close>
theorem unpaired_client_returns:
  "\<exists>(lib :: nat pair_lib) st st'. unpair_client lib good_io good_io [5] st = (True, st') \<and>
     client_root st' = [] \<and> cert_chain st' = [] \<and> fst (tls_verify lib 2 st')"
proof -
  let ?st = "one_client\<lparr> cert_chain := [], add_cert := queue_raise 2 (queue_new 30) \<rparr>"
  have "unpair_client toy_pair_lib good_io good_io [5] ?st =
      (True, snd (unpair_client toy_pair_lib good_io good_io [5] ?st)) \<and>
    client_root (snd (unpair_client toy_pair_lib good_io good_io [5] ?st)) = [] \<and>
    cert_chain (snd (unpair_client toy_pair_lib good_io good_io [5] ?st)) = [] \<and>
    fst (tls_verify toy_pair_lib 2 (snd (unpair_client toy_pair_lib good_io good_io [5] ?st)))"
    by (simp add: unpair_client_def load_state_def chain_clear_def good_io_def one_client_def empty_nv_def Let_def
        save_state_def tls_verify_def add_pending_eq queue_raise_def queue_new_def toy_pair_lib_def
        chain_verify_def two_clients_def is_client_enabled_def)
  then show ?thesis by (intro exI)
qed

end
