(* ===== verification/Touch_Port.thy ===== *)
theory Touch_Port
  imports Complex_Main Thread_Safe
begin

text \<open>
  Absolute coordinates: the viewport \<open>make_port\<close> of \<open>src/video.cpp\<close> builds for a display and a
  stream size, and the mapping of a client position to the host in \<open>src/input.cpp\<close>. The code's
  \<open>float\<close> arithmetic is taken as exact rational arithmetic, without rounding, infinities and NaN.
\<close>

section \<open>Viewport\<close>

record touch_port =
  tp_offset_x :: int
  tp_offset_y :: int
  tp_width :: int
  tp_height :: int
  tp_env_width :: int
  tp_env_height :: int
  tp_client_x :: rat
  tp_client_y :: rat
  tp_scalar_inv :: rat
  tp_scalar_tpcoords :: rat
  tp_env_logical_width :: int
  tp_env_logical_height :: int

definition touch_port_valid :: "touch_port \<Rightarrow> bool" where
  "touch_port_valid p \<longleftrightarrow>
     tp_width p \<noteq> 0 \<and> tp_height p \<noteq> 0 \<and> tp_env_width p \<noteq> 0 \<and> tp_env_height p \<noteq> 0"

record display =
  ds_offset_x :: int
  ds_offset_y :: int
  ds_width :: int
  ds_height :: int
  ds_logical_width :: int
  ds_logical_height :: int
  ds_env_width :: int
  ds_env_height :: int
  ds_env_logical_width :: int
  ds_env_logical_height :: int

definition make_port :: "display \<Rightarrow> int \<Rightarrow> int \<Rightarrow> touch_port" where
  "make_port d w h =
     (let wd = of_int (ds_width d); hd = of_int (ds_height d);
          wt = of_int w; ht = of_int h;
          scalar = min (wt / wd) (ht / hd);
          logical = (ds_logical_width d > 0 \<and> ds_logical_height d > 0 \<and>
            ds_env_logical_width d > 0 \<and> ds_env_logical_height d > 0);
          tpcoords = (if logical
            then min (wd / of_int (ds_logical_width d)) (hd / of_int (ds_logical_height d)) else 1);
          w2 = scalar * wd; h2 = scalar * hd
      in \<lparr> tp_offset_x = ds_offset_x d, tp_offset_y = ds_offset_y d, tp_width = w, tp_height = h,
           tp_env_width = ds_env_width d, tp_env_height = ds_env_height d,
           tp_client_x = (wt - w2) * (1 / 2), tp_client_y = (ht - h2) * (1 / 2),
           tp_scalar_inv = 1 / scalar, tp_scalar_tpcoords = tpcoords,
           tp_env_logical_width = (if logical then ds_env_logical_width d else 0),
           tp_env_logical_height = (if logical then ds_env_logical_height d else 0) \<rparr>)"

section \<open>Client to host\<close>

text \<open>\<open>std::clamp\<close>, whose bounds must be ordered.\<close>

definition clamp :: "rat \<Rightarrow> rat \<Rightarrow> rat \<Rightarrow> rat" where
  "clamp v lo hi = (if v < lo then lo else if hi < v then hi else v)"

text \<open>One axis, and both after the newest viewport was taken from its event.\<close>

definition touch_axis :: "rat \<Rightarrow> rat \<Rightarrow> int \<Rightarrow> rat \<Rightarrow> rat \<Rightarrow> rat \<Rightarrow> int \<Rightarrow> rat" where
  "touch_axis v extent width client_off scalar_inv tpcoords offset =
     (let scalar = of_int width / extent;
          x1 = clamp v 0 extent * scalar;
          x2 = clamp x1 client_off (extent * scalar - client_off);
          x3 = (x2 - client_off) * scalar_inv
      in (x3 + of_int offset * tpcoords) / tpcoords)"

definition client_to_touchport ::
  "touch_port event_t \<Rightarrow> touch_port \<Rightarrow> rat \<times> rat \<Rightarrow> rat \<times> rat \<Rightarrow>
     (rat \<times> rat) option \<times> touch_port event_t \<times> touch_port" where
  "client_to_touchport ev port val extent =
     (let (ev', p) =
        (if event_peek ev
         then (case event_pop ev of Some (Some p', e') \<Rightarrow> (e', p') | _ \<Rightarrow> (ev, port))
         else (ev, port))
      in if \<not> touch_port_valid p then (None, ev', p)
         else (Some
            (touch_axis (fst val) (fst extent) (tp_width p) (tp_client_x p) (tp_scalar_inv p)
               (tp_scalar_tpcoords p) (tp_offset_x p),
             touch_axis (snd val) (snd extent) (tp_height p) (tp_client_y p) (tp_scalar_inv p)
               (tp_scalar_tpcoords p) (tp_offset_y p)), ev', p))"

text \<open>The monitor a touch or a pen works on, with the position relative to it.\<close>

definition monitor_touch_port ::
  "touch_port \<Rightarrow> rat \<times> rat \<Rightarrow> ((int \<times> int \<times> int \<times> int) \<times> rat \<times> rat) option" where
  "monitor_touch_port p coords =
     (let mw = (of_int (tp_width p) * tp_scalar_inv p) / tp_scalar_tpcoords p;
          mh = (of_int (tp_height p) * tp_scalar_inv p) / tp_scalar_tpcoords p
      in if mw \<le> 0 \<or> mh \<le> 0 then None
         else Some ((tp_offset_x p, tp_offset_y p, \<lfloor>mw\<rfloor>, \<lfloor>mh\<rfloor>),
           ((fst coords - of_int (tp_offset_x p)) / mw, (snd coords - of_int (tp_offset_y p)) / mh)))"

text \<open>The rectangle of the environment an absolute mouse position refers to.\<close>

definition abs_port :: "touch_port \<Rightarrow> int \<times> int \<times> int \<times> int" where
  "abs_port p =
     (if tp_env_logical_width p \<noteq> 0 \<and> tp_env_logical_height p \<noteq> 0
      then (tp_offset_x p, tp_offset_y p, tp_env_logical_width p, tp_env_logical_height p)
      else (tp_offset_x p, tp_offset_y p, tp_env_width p, tp_env_height p))"

section \<open>Properties\<close>

lemma clamp_range: "lo \<le> hi \<Longrightarrow> lo \<le> clamp v lo hi \<and> clamp v lo hi \<le> hi"
  by (auto simp: clamp_def)

lemma clamp_id: "lo \<le> v \<Longrightarrow> v \<le> hi \<Longrightarrow> clamp v lo hi = v"
  by (simp add: clamp_def)

text \<open>The picture of the display lies centred in the stream.\<close>

lemma letterbox:
  fixes wd hd wt ht :: rat
  assumes "0 < wd" and "0 < hd" and "0 < wt" and "0 < ht"
  defines "s \<equiv> min (wt / wd) (ht / hd)"
  shows "0 < s" and "s * wd \<le> wt" and "s * hd \<le> ht"
proof -
  show "0 < s" using assms by simp
  have "s \<le> wt / wd" "s \<le> ht / hd" by (simp_all add: s_def)
  then show "s * wd \<le> wt" "s * hd \<le> ht" using assms(1,2) by (simp_all add: pos_le_divide_eq)
qed

lemma touch_axis_value:
  fixes s d t :: rat
  assumes "0 < extent" and "0 < s" and "s * d \<le> of_int w" and "0 \<le> d" and "0 < t"
  defines "c \<equiv> (of_int w - s * d) * (1 / 2)"
  shows "touch_axis v extent w c (1 / s) t off =
    of_int off + (clamp (clamp v 0 extent * (of_int w / extent)) c (c + s * d) - c) / s / t"
proof -
  have "extent * (of_int w / extent) - c = c + s * d" using assms(1) by (simp add: c_def field_simps)
  then show ?thesis using assms(5) by (simp add: touch_axis_def Let_def add_divide_distrib)
qed

lemma touch_axis_range:
  fixes s d t :: rat
  assumes "0 < extent" and "0 < s" and "s * d \<le> of_int w" and "0 \<le> d" and "0 < t"
  defines "c \<equiv> (of_int w - s * d) * (1 / 2)"
  shows "of_int off \<le> touch_axis v extent w c (1 / s) t off \<and>
    touch_axis v extent w c (1 / s) t off \<le> of_int off + d / t"
proof -
  define x where "x = clamp (clamp v 0 extent * (of_int w / extent)) c (c + s * d) - c"
  have "0 \<le> x" "x \<le> s * d"
    using clamp_range [of c "c + s * d" "clamp v 0 extent * (of_int w / extent)"] assms(2,4)
    by (simp_all add: x_def)
  then have "0 \<le> x / s" "x / s \<le> d" using assms(2) by (simp_all add: pos_divide_le_eq mult.commute)
  then have "0 \<le> x / s / t" "x / s / t \<le> d / t"
    using assms(5) by (auto intro: divide_nonneg_pos divide_right_mono simp del: divide_divide_eq_left)
  with touch_axis_value [OF assms(1-5), of v off] show ?thesis by (simp add: c_def x_def)
qed

text \<open>
  Whatever a client sends, an absolute position stays on the captured display: with the
  viewport made for a display and a stream of positive sizes the result lies between the
  display's offset and that plus its size, in the units of the logical scaling.
\<close>
theorem absolute_position_on_display:
  assumes "0 < ds_width d" and "0 < ds_height d" and "0 < w" and "0 < h"
    and "0 < ds_env_width d" and "0 < ds_env_height d" and "0 < fst extent" and "0 < snd extent"
    and "event_peek ev = False"
  shows "\<exists>x y. fst (client_to_touchport ev (make_port d w h) val extent) = Some (x, y) \<and>
    of_int (ds_offset_x d) \<le> x \<and>
    x \<le> of_int (ds_offset_x d) + of_int (ds_width d) / tp_scalar_tpcoords (make_port d w h) \<and>
    of_int (ds_offset_y d) \<le> y \<and>
    y \<le> of_int (ds_offset_y d) + of_int (ds_height d) / tp_scalar_tpcoords (make_port d w h)"
proof -
  define s :: rat where "s = min (of_int w / of_int (ds_width d)) (of_int h / of_int (ds_height d))"
  define t where "t = tp_scalar_tpcoords (make_port d w h)"
  have t: "0 < t" using assms(1,2) by (simp add: t_def make_port_def Let_def)
  have s: "0 < s" "s * of_int (ds_width d) \<le> of_int w" "s * of_int (ds_height d) \<le> of_int h"
    unfolding s_def using assms(1-4) by (intro letterbox; simp)+
  have v: "touch_port_valid (make_port d w h)"
    using assms by (simp add: touch_port_valid_def make_port_def Let_def)
  note x = touch_axis_range [OF assms(7) s(1,2) _ t, where v = "fst val" and off = "ds_offset_x d"]
  note y = touch_axis_range [OF assms(8) s(1,3) _ t, where v = "snd val" and off = "ds_offset_y d"]
  have "fst (client_to_touchport ev (make_port d w h) val extent) =
    Some (touch_axis (fst val) (fst extent) w ((of_int w - s * of_int (ds_width d)) * (1 / 2)) (1 / s) t (ds_offset_x d),
      touch_axis (snd val) (snd extent) h ((of_int h - s * of_int (ds_height d)) * (1 / 2)) (1 / s) t (ds_offset_y d))"
    using v assms(9) by (simp add: client_to_touchport_def t_def) (simp add: make_port_def Let_def s_def)
  with x y assms(1,2) show ?thesis by (simp add: t_def)
qed

definition full_hd :: display where
  "full_hd = \<lparr> ds_offset_x = 100, ds_offset_y = 0, ds_width = 1920, ds_height = 1080, ds_logical_width = 0,
     ds_logical_height = 0, ds_env_width = 1920, ds_env_height = 1080, ds_env_logical_width = 0,
     ds_env_logical_height = 0 \<rparr>"

theorem absolute_position_on_display_witness:
  "\<exists>x y. fst (client_to_touchport event_new (make_port full_hd 1280 1024) (70000, 3) (65535, 65535)) = Some (x, y) \<and>
    100 \<le> x \<and> x \<le> 2020 \<and> 0 \<le> y \<and> y \<le> 1080"
  using absolute_position_on_display [of full_hd 1280 1024 "(65535, 65535)" event_new "(70000, 3)"]
  by (simp add: full_hd_def event_peek_def event_new_def make_port_def)

text \<open>
  The mapping is the scaling it is meant to be: a point of the display, drawn by the encoder
  at its letterboxed place in the stream, comes back as that point when the client reports the
  place in the stream's own coordinates.
\<close>
theorem absolute_position_round_trip:
  assumes "0 < ds_width d" and "0 < ds_height d" and "0 < w" and "0 < h"
    and "0 \<le> px" and "px \<le> of_int (ds_width d)" and "0 \<le> py" and "py \<le> of_int (ds_height d)"
    and "0 < ds_env_width d" and "0 < ds_env_height d" and "event_peek ev = False"
    and "s = min (of_int w / of_int (ds_width d)) (of_int h / of_int (ds_height d))"
  shows "fst (client_to_touchport ev (make_port d w h)
      ((of_int w - s * of_int (ds_width d)) / 2 + s * px, (of_int h - s * of_int (ds_height d)) / 2 + s * py)
      (of_int w, of_int h)) =
    Some (of_int (ds_offset_x d) + px / tp_scalar_tpcoords (make_port d w h),
      of_int (ds_offset_y d) + py / tp_scalar_tpcoords (make_port d w h))"
proof -
  define t where "t = tp_scalar_tpcoords (make_port d w h)"
  have t: "0 < t" using assms(1,2) by (simp add: t_def make_port_def Let_def)
  have s: "0 < s" "s * of_int (ds_width d) \<le> of_int w" "s * of_int (ds_height d) \<le> of_int h"
    unfolding assms(12) using assms(1-4) by (intro letterbox; simp)+
  have axis: "touch_axis ((of_int n - s * e) / 2 + s * p) (of_int n) n ((of_int n - s * e) * (1 / 2)) (1 / s) t off =
      of_int off + p / t"
    if "0 < n" "s * e \<le> of_int n" "0 \<le> p" "p \<le> e" for n :: int and e p off
  proof -
    let ?c = "(of_int n - s * e) / 2"
    have sp: "0 \<le> s * p" "s * p \<le> s * e" using that s(1) by simp_all
    have c: "0 \<le> ?c" "?c + s * e \<le> of_int n" using that(2) by (simp_all add: field_simps)
    have "0 \<le> ?c + s * p" using c(1) sp(1) by (rule add_nonneg_nonneg)
    moreover have "?c + s * p \<le> of_int n" using c(2) sp(2) by (meson add_left_mono order_trans)
    ultimately have "clamp (?c + s * p) 0 (of_int n) = ?c + s * p" by (intro clamp_id)
    moreover have "clamp (?c + s * p) ?c (?c + s * e) = ?c + s * p"
      using sp(1) add_left_mono [OF sp(2), of ?c] by (intro clamp_id) simp_all
    ultimately show ?thesis
      using touch_axis_value [where extent = "of_int n" and s = s and d = e and w = n and t = t
          and v = "?c + s * p" and off = off] that s(1) t by simp
  qed
  have v: "touch_port_valid (make_port d w h)"
    using assms by (simp add: touch_port_valid_def make_port_def Let_def)
  show ?thesis
    using v assms(1-8,11) axis [of w "of_int (ds_width d)" px "ds_offset_x d"] s
      axis [of h "of_int (ds_height d)" py "ds_offset_y d"]
    by (simp add: client_to_touchport_def t_def [symmetric])
      (simp add: make_port_def Let_def assms(12) [symmetric] del: one_divide_eq_0_iff)
qed

theorem absolute_position_round_trip_witness:
  "fst (client_to_touchport event_new (make_port full_hd 960 1080) (480, 540) (960, 1080)) = Some (1060, 540)"
  using absolute_position_round_trip [of full_hd 960 1080 960 540 event_new "1 / 2"]
  by (simp add: full_hd_def event_peek_def event_new_def make_port_def)

end
