(* ===== verification/Input_Batch.thy ===== *)
theory Input_Batch
  imports Prelude "HOL-Library.Sublist"
begin

text \<open>
  The input packets of a client and their batching, \<open>src/input.cpp\<close>: the rules by which a
  packet absorbs a later one of the queue, and \<open>passthrough_next_message\<close>, which takes the
  first packet and lets it absorb what follows. The layout of the packets and the magic numbers
  belong to moonlight-common-c: a packet is a constructor with the fields the code reads, in
  host byte order; floats are kept as their raw 32 bits.
\<close>

section \<open>Packets\<close>

datatype touch_event = Touch_Move | Touch_Hover | Touch_Other u8

record abs_move =
  am_x :: u16
  am_y :: u16
  am_width :: u16
  am_height :: u16

record multi_controller =
  mc_number :: u16
  mc_mask :: u16
  mc_flags :: u16
  mc_flags2 :: u16
  mc_left_trigger :: u8
  mc_right_trigger :: u8
  mc_left_x :: u16
  mc_left_y :: u16
  mc_right_x :: u16
  mc_right_y :: u16

record touch =
  to_event :: touch_event
  to_pointer :: u32
  to_x :: u32
  to_y :: u32
  to_pressure :: u32
  to_major :: u32
  to_minor :: u32
  to_rotation :: u16

record pen =
  pe_event :: touch_event
  pe_tool :: u8
  pe_buttons :: u8
  pe_x :: u32
  pe_y :: u32
  pe_pressure :: u32
  pe_major :: u32
  pe_minor :: u32
  pe_rotation :: u16
  pe_tilt :: u8

record ctrl_arrival =
  ca_number :: u8
  ca_type :: u8
  ca_capabilities :: u16
  ca_buttons :: u32

record ctrl_touch =
  ct_number :: u8
  ct_event :: touch_event
  ct_pointer :: u32
  ct_x :: u32
  ct_y :: u32
  ct_pressure :: u32

record ctrl_motion =
  cm_number :: u8
  cm_type :: u8
  cm_x :: u32
  cm_y :: u32
  cm_z :: u32

record ctrl_battery =
  cb_number :: u8
  cb_state :: u8
  cb_percentage :: u8

record key_modifiers =
  km_shift :: bool
  km_ctrl :: bool
  km_alt :: bool

text \<open>Mouse and keyboard packets tell by their magic whether they release, the first field here.\<close>

datatype packet =
    Rel_Move u16 u16
  | Abs_Move abs_move
  | Mouse_Button bool nat
  | Scroll u16 u16
  | Hscroll u16
  | Keyboard bool u16 key_modifiers u8
  | Unicode bytes
  | Multi_Controller multi_controller
  | Touch touch
  | Pen pen
  | Ctrl_Arrival ctrl_arrival
  | Ctrl_Touch ctrl_touch
  | Ctrl_Motion ctrl_motion
  | Ctrl_Battery ctrl_battery
  | Unknown_Packet u32

section \<open>Batching rules\<close>

datatype 'a batch_result = Batched 'a | Not_Batchable | Terminate_Batch

text \<open>\<open>__builtin_add_overflow\<close> on \<open>short\<close>: whether it overflowed, and the wrapped sum.\<close>

definition add_overflow :: "u16 \<Rightarrow> u16 \<Rightarrow> bool \<times> u16" where
  "add_overflow a b = (\<not> (- 32768 \<le> sint a + sint b \<and> sint a + sint b \<le> 32767), a + b)"

definition batch_rel_mouse :: "u16 \<times> u16 \<Rightarrow> u16 \<times> u16 \<Rightarrow> (u16 \<times> u16) batch_result" where
  "batch_rel_mouse dest src =
     (let (ox, deltaX) = add_overflow (fst dest) (fst src) in
      if \<not> ox then Terminate_Batch
      else let (oy, deltaY) = add_overflow (snd dest) (snd src) in
        if \<not> oy then Terminate_Batch
        else Batched (deltaX, deltaY))"

definition batch_abs_mouse :: "abs_move \<Rightarrow> abs_move \<Rightarrow> abs_move batch_result" where
  "batch_abs_mouse dest src =
     (if am_width dest \<noteq> am_width src \<or> am_height dest \<noteq> am_height src then Terminate_Batch
      else Batched src)"

definition batch_scroll :: "u16 \<times> u16 \<Rightarrow> u16 \<times> u16 \<Rightarrow> (u16 \<times> u16) batch_result" where
  "batch_scroll dest src =
     (let (over, scrollAmt) = add_overflow (fst dest) (fst src) in
      if \<not> over then Terminate_Batch else Batched (scrollAmt, scrollAmt))"

definition batch_hscroll :: "u16 \<Rightarrow> u16 \<Rightarrow> u16 batch_result" where
  "batch_hscroll dest src =
     (let (over, scrollAmt) = add_overflow dest src in
      if \<not> over then Terminate_Batch else Batched scrollAmt)"

definition batch_multi_controller ::
  "multi_controller \<Rightarrow> multi_controller \<Rightarrow> multi_controller batch_result" where
  "batch_multi_controller dest src =
     (if mc_mask dest \<noteq> mc_mask src then Terminate_Batch
      else if mc_number dest \<noteq> mc_number src then Not_Batchable
      else if mc_flags dest \<noteq> mc_flags src \<or> mc_flags2 dest \<noteq> mc_flags2 src then Terminate_Batch
      else Batched src)"

definition batch_touch :: "touch \<Rightarrow> touch \<Rightarrow> touch batch_result" where
  "batch_touch dest src =
     (if to_event dest \<noteq> Touch_Move \<and> to_event dest \<noteq> Touch_Hover then Terminate_Batch
      else if to_event src \<noteq> Touch_Move \<and> to_event src \<noteq> Touch_Hover then Terminate_Batch
      else if to_pointer dest \<noteq> to_pointer src then Not_Batchable
      else if to_event dest \<noteq> to_event src then Terminate_Batch
      else Batched src)"

definition batch_pen :: "pen \<Rightarrow> pen \<Rightarrow> pen batch_result" where
  "batch_pen dest src =
     (if pe_event dest \<noteq> Touch_Move \<and> pe_event dest \<noteq> Touch_Hover then Terminate_Batch
      else if pe_event dest \<noteq> pe_event src then Terminate_Batch
      else if pe_buttons dest \<noteq> pe_buttons src then Terminate_Batch
      else if pe_tool dest \<noteq> pe_tool src then Terminate_Batch
      else Batched src)"

definition batch_ctrl_touch :: "ctrl_touch \<Rightarrow> ctrl_touch \<Rightarrow> ctrl_touch batch_result" where
  "batch_ctrl_touch dest src =
     (if ct_event dest \<noteq> Touch_Move \<and> ct_event dest \<noteq> Touch_Hover then Terminate_Batch
      else if ct_number dest \<noteq> ct_number src then Not_Batchable
      else if ct_event src \<noteq> Touch_Move \<and> ct_event src \<noteq> Touch_Hover then Terminate_Batch
      else if ct_pointer dest \<noteq> ct_pointer src then Not_Batchable
      else if ct_event dest \<noteq> ct_event src then Terminate_Batch
      else Batched src)"

definition batch_ctrl_motion :: "ctrl_motion \<Rightarrow> ctrl_motion \<Rightarrow> ctrl_motion batch_result" where
  "batch_ctrl_motion dest src =
     (if cm_number dest \<noteq> cm_number src then Not_Batchable
      else if cm_type dest \<noteq> cm_type src then Not_Batchable
      else Batched src)"

fun map_batch :: "('a \<Rightarrow> 'b) \<Rightarrow> 'a batch_result \<Rightarrow> 'b batch_result" where
  "map_batch f (Batched x) = Batched (f x)"
| "map_batch f Not_Batchable = Not_Batchable"
| "map_batch f Terminate_Batch = Terminate_Batch"

definition batch_packets :: "packet \<Rightarrow> packet \<Rightarrow> packet batch_result" where
  "batch_packets dest src =
     (case dest of
        Rel_Move dx dy \<Rightarrow>
          (case src of Rel_Move sx sy \<Rightarrow>
             map_batch (\<lambda>(x, y). Rel_Move x y) (batch_rel_mouse (dx, dy) (sx, sy))
           | _ \<Rightarrow> Terminate_Batch)
      | Abs_Move d \<Rightarrow>
          (case src of Abs_Move s \<Rightarrow>
             map_batch Abs_Move (batch_abs_mouse d s)
           | _ \<Rightarrow> Terminate_Batch)
      | Scroll d1 d2 \<Rightarrow>
          (case src of Scroll s1 s2 \<Rightarrow>
             map_batch (\<lambda>(a1, a2). Scroll a1 a2) (batch_scroll (d1, d2) (s1, s2))
           | _ \<Rightarrow> Terminate_Batch)
      | Hscroll d \<Rightarrow>
          (case src of Hscroll s \<Rightarrow>
             map_batch Hscroll (batch_hscroll d s)
           | _ \<Rightarrow> Terminate_Batch)
      | Multi_Controller d \<Rightarrow>
          (case src of Multi_Controller s \<Rightarrow>
             map_batch Multi_Controller (batch_multi_controller d s)
           | _ \<Rightarrow> Terminate_Batch)
      | Touch d \<Rightarrow>
          (case src of Touch s \<Rightarrow>
             map_batch Touch (batch_touch d s)
           | _ \<Rightarrow> Terminate_Batch)
      | Pen d \<Rightarrow>
          (case src of Pen s \<Rightarrow>
             map_batch Pen (batch_pen d s)
           | _ \<Rightarrow> Terminate_Batch)
      | Ctrl_Touch d \<Rightarrow>
          (case src of Ctrl_Touch s \<Rightarrow>
             map_batch Ctrl_Touch (batch_ctrl_touch d s)
           | _ \<Rightarrow> Terminate_Batch)
      | Ctrl_Motion d \<Rightarrow>
          (case src of Ctrl_Motion s \<Rightarrow>
             map_batch Ctrl_Motion (batch_ctrl_motion d s)
           | _ \<Rightarrow> Terminate_Batch)
      | _ \<Rightarrow> Terminate_Batch)"

section \<open>The queue\<close>

fun batch_queue :: "packet \<Rightarrow> packet list \<Rightarrow> packet \<times> packet list" where
  "batch_queue payload [] = (payload, [])"
| "batch_queue payload (x # xs) =
     (case batch_packets payload x of
        Terminate_Batch \<Rightarrow> (payload, x # xs)
      | Batched payload' \<Rightarrow> batch_queue payload' xs
      | Not_Batchable \<Rightarrow> (let (p, rest) = batch_queue payload xs in (p, x # rest)))"

definition next_message :: "packet list \<Rightarrow> (packet \<times> packet list) option" where
  "next_message q = (case q of [] \<Rightarrow> None | p # rest \<Rightarrow> Some (batch_queue p rest))"

definition queue_input :: "packet \<Rightarrow> packet list \<Rightarrow> packet list" where
  "queue_input p q = q @ [p]"

section \<open>Streams\<close>

text \<open>
  \<open>stream_of\<close>: the packets that may absorb each other belong to one stream, such as one
  pointer of the touch screen. \<open>absorbs\<close>: \<open>p\<close> becomes \<open>p'\<close> by absorbing a list one by one.
\<close>

datatype stream = S_Rel | S_Abs | S_Scroll | S_Hscroll | S_Multi u16 | S_Touch u32 | S_Pen
  | S_Ctrl_Touch u8 u32 | S_Motion u8 u8 | S_Single packet

fun stream_of :: "packet \<Rightarrow> stream" where
  "stream_of (Rel_Move _ _) = S_Rel"
| "stream_of (Abs_Move _) = S_Abs"
| "stream_of (Scroll _ _) = S_Scroll"
| "stream_of (Hscroll _) = S_Hscroll"
| "stream_of (Multi_Controller m) = S_Multi (mc_number m)"
| "stream_of (Touch t) = S_Touch (to_pointer t)"
| "stream_of (Pen _) = S_Pen"
| "stream_of (Ctrl_Touch c) = S_Ctrl_Touch (ct_number c) (ct_pointer c)"
| "stream_of (Ctrl_Motion c) = S_Motion (cm_number c) (cm_type c)"
| "stream_of p = S_Single p"

inductive absorbs :: "packet \<Rightarrow> packet list \<Rightarrow> packet \<Rightarrow> bool" where
  absorb_none: "absorbs p [] p"
| absorb_one: "batch_packets p x = Batched p' \<Longrightarrow> absorbs p' xs q \<Longrightarrow> absorbs p (x # xs) q"

inductive_simps absorbs_Nil [simp]: "absorbs p [] q"
inductive_simps absorbs_Cons: "absorbs p (x # xs) q"

lemmas batch_defs = batch_rel_mouse_def batch_abs_mouse_def batch_scroll_def batch_hscroll_def
  batch_multi_controller_def batch_touch_def batch_pen_def batch_ctrl_touch_def batch_ctrl_motion_def

lemma map_batch_eq_Batched [simp]: "map_batch f r = Batched y \<longleftrightarrow> (\<exists>x. r = Batched x \<and> y = f x)"
  by (cases r) auto

lemma map_batch_eq_Not [simp]: "map_batch f r = Not_Batchable \<longleftrightarrow> r = Not_Batchable"
  by (cases r) auto

lemma batch_Batched: "batch_packets p x = Batched p' \<Longrightarrow> stream_of x = stream_of p \<and> stream_of p' = stream_of p"
  by (auto simp: batch_packets_def batch_defs Let_def split: packet.splits if_splits prod.splits)

lemma batch_Not: "batch_packets p x = Not_Batchable \<Longrightarrow> stream_of x \<noteq> stream_of p"
  by (auto simp: batch_packets_def batch_defs Let_def split: packet.splits if_splits prod.splits)

text \<open>What an absorption looks like from outside.\<close>

lemma batch_loop_streams:
  assumes "batch_queue p xs = (p', xs')"
  shows "\<exists>own. absorbs p own p' \<and>
    filter (\<lambda>x. stream_of x = stream_of p) xs = own @ filter (\<lambda>x. stream_of x = stream_of p) xs' \<and>
    (\<forall>k. k \<noteq> stream_of p \<longrightarrow> filter (\<lambda>x. stream_of x = k) xs' = filter (\<lambda>x. stream_of x = k) xs) \<and>
    subseq xs' xs"
  using assms
proof (induction p xs arbitrary: p' xs' rule: batch_queue.induct)
  case (2 p x xs)
  show ?case
  proof (cases "batch_packets p x")
    case (Batched q)
    with 2(3) have l: "batch_queue q xs = (p', xs')" by simp
    from 2(1) [OF Batched l] obtain own where own: "absorbs q own p'"
      "filter (\<lambda>x. stream_of x = stream_of q) xs = own @ filter (\<lambda>x. stream_of x = stream_of q) xs'"
      "\<forall>k. k \<noteq> stream_of q \<longrightarrow> filter (\<lambda>x. stream_of x = k) xs' = filter (\<lambda>x. stream_of x = k) xs"
      "subseq xs' xs"
      by blast
    from batch_Batched [OF Batched] own show ?thesis
      by (intro exI [of _ "x # own"]) (auto intro: absorb_one [OF Batched])
  next
    case Not_Batchable
    with 2(3) obtain rest where r: "batch_queue p xs = (p', rest)" "xs' = x # rest"
      by (auto split: prod.splits)
    with 2(2) [OF Not_Batchable r(1)] batch_Not [OF Not_Batchable] show ?thesis by auto
  next
    case Terminate_Batch
    with 2(3) show ?thesis by (intro exI [of _ "[]"]) auto
  qed
qed simp


definition motion :: "u8 \<Rightarrow> u8 \<Rightarrow> packet" where
  "motion n x = Ctrl_Motion \<lparr> cm_number = n, cm_type = 1, cm_x = ucast x, cm_y = 0, cm_z = 0 \<rparr>"


text \<open>
  For the streams that report a state the last packet wins, and it has the buttons of all the
  packets it replaces: a press or a release is never absorbed.
\<close>

fun buttons_of :: "packet \<Rightarrow> (touch_event option \<times> nat list) option" where
  "buttons_of (Multi_Controller m) = Some (None, [unat (mc_flags m), unat (mc_flags2 m), unat (mc_mask m)])"
| "buttons_of (Touch t) = Some (Some (to_event t), [])"
| "buttons_of (Pen p) = Some (Some (pe_event p), [unat (pe_buttons p), unat (pe_tool p)])"
| "buttons_of (Ctrl_Touch c) = Some (Some (ct_event c), [])"
| "buttons_of (Abs_Move a) = Some (None, [unat (am_width a), unat (am_height a)])"
| "buttons_of (Ctrl_Motion c) = Some (None, [])"
| "buttons_of _ = None"

lemma batch_state_cases:
  "batch_packets p x = Batched p' \<Longrightarrow> buttons_of p \<noteq> None \<Longrightarrow>
    (\<exists>d s r. p = Abs_Move d \<and> x = Abs_Move s \<and> batch_abs_mouse d s = Batched r \<and> p' = Abs_Move r) \<or>
    (\<exists>d s r. p = Multi_Controller d \<and> x = Multi_Controller s \<and> batch_multi_controller d s = Batched r \<and>
       p' = Multi_Controller r) \<or>
    (\<exists>d s r. p = Touch d \<and> x = Touch s \<and> batch_touch d s = Batched r \<and> p' = Touch r) \<or>
    (\<exists>d s r. p = Pen d \<and> x = Pen s \<and> batch_pen d s = Batched r \<and> p' = Pen r) \<or>
    (\<exists>d s r. p = Ctrl_Touch d \<and> x = Ctrl_Touch s \<and> batch_ctrl_touch d s = Batched r \<and> p' = Ctrl_Touch r) \<or>
    (\<exists>d s r. p = Ctrl_Motion d \<and> x = Ctrl_Motion s \<and> batch_ctrl_motion d s = Batched r \<and> p' = Ctrl_Motion r)"
  by (cases p) (simp_all add: batch_packets_def split: packet.splits)

lemma batch_state_equal:
  "batch_abs_mouse a b = Batched a' \<Longrightarrow> a' = b \<and> am_width b = am_width a \<and> am_height b = am_height a"
  "batch_multi_controller m n = Batched m' \<Longrightarrow>
     m' = n \<and> mc_flags n = mc_flags m \<and> mc_flags2 n = mc_flags2 m \<and> mc_mask n = mc_mask m"
  "batch_touch t u = Batched t' \<Longrightarrow> t' = u \<and> to_event u = to_event t"
  "batch_pen p q = Batched p' \<Longrightarrow>
     p' = q \<and> pe_event q = pe_event p \<and> pe_buttons q = pe_buttons p \<and> pe_tool q = pe_tool p"
  "batch_ctrl_touch c d = Batched c' \<Longrightarrow> c' = d \<and> ct_event d = ct_event c"
  "batch_ctrl_motion x y = Batched x' \<Longrightarrow> x' = y"
  by (auto simp: batch_defs split: if_splits)

lemma batch_buttons:
  assumes "batch_packets p x = Batched p'" and "buttons_of p \<noteq> None"
  shows "p' = x \<and> buttons_of x = buttons_of p"
  using batch_state_cases [OF assms] by (elim disjE exE) (use batch_state_equal in fastforce)+

lemma absorbs_buttons:
  "absorbs p own p' \<Longrightarrow> buttons_of p \<noteq> None \<Longrightarrow>
     p' = last (p # own) \<and> (\<forall>x \<in> set own. buttons_of x = buttons_of p)"
proof (induction rule: absorbs.induct)
  case (absorb_one p x p' xs q)
  have e: "p' = x" "buttons_of x = buttons_of p"
    using batch_buttons [OF absorb_one.hyps(1) absorb_one.prems] by simp_all
  with absorb_one.IH absorb_one.prems have "q = last (p' # xs)" "\<forall>y \<in> set xs. buttons_of y = buttons_of p'"
    by simp_all
  with e show ?case unfolding set_simps by (metis insert_iff last_ConsR list.distinct(1))
qed simp

text \<open>
  For packets that carry a state (controllers, touches, pens, absolute positions, motion) the
  dispatched packet is the newest of those it absorbed, and all of them have the same buttons,
  event kind and tool: batching drops intermediate positions but never a press or a release.
\<close>
theorem batching_keeps_button_edges:
  assumes "next_message (p # q) = Some (p', q')" and "buttons_of p \<noteq> None"
  shows "\<exists>own. filter (\<lambda>x. stream_of x = stream_of p) q = own @ filter (\<lambda>x. stream_of x = stream_of p) q' \<and>
    p' = last (p # own) \<and> (\<forall>x \<in> set own. buttons_of x = buttons_of p)"
proof -
  from assms(1) have "batch_queue p q = (p', q')" by (simp add: next_message_def)
  from batch_loop_streams [OF this] absorbs_buttons [OF _ assms(2)] show ?thesis by metis
qed

theorem batching_keeps_button_edges_witness:
  "\<exists>own. motion 1 7 = last (motion 1 5 # own) \<and> (\<forall>x \<in> set own. buttons_of x = Some (None, []))"
proof -
  have n: "next_message [motion 1 5, motion 2 6, motion 1 7] = Some (motion 1 7, [motion 2 6])"
    by (simp add: next_message_def motion_def batch_ctrl_motion_def batch_packets_def)
  have b: "buttons_of (motion 1 5) = Some (None, [])" by (simp add: motion_def)
  from batching_keeps_button_edges [OF n, unfolded b] show ?thesis by blast
qed

section \<open>Sums\<close>

lemma sint16_bounds: "- 32768 \<le> sint (a :: u16) \<and> sint a \<le> 32767"
  using sint_ge [of a] sint_lt [of a] by simp

text \<open>A sum that leaves the range comes back from the other side.\<close>

lemma signed16_mod: "signed_take_bit 15 (k - 65536 * c) = signed_take_bit 15 (k :: int)"
proof -
  have "(k - 65536 * c) mod 65536 = k mod 65536"
    using mod_mult_self2 [of k 65536 "- c"] by simp
  then show ?thesis
    unfolding signed_take_bit_eq_iff_take_bit_eq by (simp add: take_bit_eq_mod)
qed

lemma add_overflow_sum:
  "sint (snd (add_overflow a b)) = sint a + sint b - (if fst (add_overflow a b) then 65536 * sgn (sint a) else 0)"
proof -
  have s: "sint (a + b) = signed_take_bit 15 (sint a + sint b)"
    by (simp add: sint_word_ariths)
  have w: "signed_take_bit 15 k = k" if "- 32768 \<le> k" "k \<le> 32767" for k :: int
    using that by (simp add: signed_take_bit_int_eq_self)
  note b = sint16_bounds [of a] sint16_bounds [of b]
  consider "- 32768 \<le> sint a + sint b \<and> sint a + sint b \<le> 32767" | "32767 < sint a + sint b"
    | "sint a + sint b < - 32768" by linarith
  then show ?thesis
  proof cases
    case 1
    then show ?thesis by (simp add: add_overflow_def s w)
  next
    case 2
    with b have "sgn (sint a) = 1" by simp
    with 2 b show ?thesis
      using signed16_mod [of "sint a + sint b" 1] w [of "sint a + sint b - 65536"]
      by (simp add: add_overflow_def s)
  next
    case 3
    with b have "sgn (sint a) = - 1" by simp
    with 3 b show ?thesis
      using signed16_mod [of "sint a + sint b" "-1"] w [of "sint a + sint b + 65536"]
      by (simp add: add_overflow_def s)
  qed
qed

text \<open>
  Relative motion is merged exactly when it must not be: two packets become one only when
  the sums of both axes leave 16 bits, and then each axis of the result is off by 65536, in the
  direction opposite to both motions. Two motions whose sums fit are never merged, whereas the
  comment above the test calls exactly those safe to batch.
\<close>
theorem rel_mouse_batch_wraps:
  "(batch_packets (Rel_Move dx dy) (Rel_Move sx sy) \<noteq> Terminate_Batch \<longleftrightarrow>
      \<not> (- 32768 \<le> sint dx + sint sx \<and> sint dx + sint sx \<le> 32767) \<and>
      \<not> (- 32768 \<le> sint dy + sint sy \<and> sint dy + sint sy \<le> 32767)) \<and>
   (batch_packets (Rel_Move dx dy) (Rel_Move sx sy) = Batched (Rel_Move x y) \<longrightarrow>
      sint x = sint dx + sint sx - 65536 * sgn (sint dx) \<and>
      sint y = sint dy + sint sy - 65536 * sgn (sint dy) \<and>
      (0 < sint dx \<longrightarrow> sint x < 0) \<and> (sint dx < 0 \<longrightarrow> 0 \<le> sint x))"
proof (intro conjI impI)
  show "batch_packets (Rel_Move dx dy) (Rel_Move sx sy) \<noteq> Terminate_Batch \<longleftrightarrow>
      \<not> (- 32768 \<le> sint dx + sint sx \<and> sint dx + sint sx \<le> 32767) \<and>
      \<not> (- 32768 \<le> sint dy + sint sy \<and> sint dy + sint sy \<le> 32767)"
    by (simp add: batch_packets_def batch_rel_mouse_def add_overflow_def)
  assume b: "batch_packets (Rel_Move dx dy) (Rel_Move sx sy) = Batched (Rel_Move x y)"
  then have o: "fst (add_overflow dx sx)" "fst (add_overflow dy sy)"
    "x = snd (add_overflow dx sx)" "y = snd (add_overflow dy sy)"
    by (auto simp: batch_packets_def batch_rel_mouse_def add_overflow_def split: if_splits)
  then show x: "sint x = sint dx + sint sx - 65536 * sgn (sint dx)"
    and "sint y = sint dy + sint sy - 65536 * sgn (sint dy)"
    using add_overflow_sum [of dx sx] add_overflow_sum [of dy sy] by simp_all
  note bounds = sint16_bounds [of dx] sint16_bounds [of sx]
  show "sint x < 0" if "0 < sint dx" using x bounds that by simp
  show "0 \<le> sint x" if "sint dx < 0" using x bounds that by simp
qed

theorem rel_mouse_batch_wraps_witness:
  "batch_packets (Rel_Move 30000 20000) (Rel_Move 30000 20000) = Batched (Rel_Move 60000 40000) \<and>
   sint (60000 :: u16) = - 5536 \<and> batch_packets (Rel_Move 3 4) (Rel_Move 5 6) = Terminate_Batch"
proof -
  have "batch_packets (Rel_Move 30000 20000) (Rel_Move 30000 20000) = Batched (Rel_Move 60000 40000)"
    by (simp add: batch_packets_def batch_rel_mouse_def add_overflow_def)
  then show ?thesis
    using rel_mouse_batch_wraps [of 30000 20000 30000 20000 60000 40000]
      rel_mouse_batch_wraps [of 3 4 5 6] by simp
qed

text \<open>
  One task per packet is enough: after as many calls as packets were queued the queue is
  empty, however they batched.
\<close>

fun drain_input :: "nat \<Rightarrow> packet list \<Rightarrow> packet list \<times> packet list" where
  "drain_input 0 q = ([], q)"
| "drain_input (Suc n) q =
     (case next_message q of None \<Rightarrow> ([], q)
      | Some (p, q') \<Rightarrow> (let (ps, r) = drain_input n q' in (p # ps, r)))"

lemma next_message_shrinks:
  assumes "next_message q = Some (p, q')"
  shows "length q' < length q"
proof -
  obtain x xs where q: "q = x # xs" "batch_queue x xs = (p, q')"
    using assms by (auto simp: next_message_def split: list.splits)
  from batch_loop_streams [OF q(2)] have "subseq q' xs" by blast
  from list_emb_length [OF this] q(1) show ?thesis by simp
qed

theorem input_tasks_drain: "length q \<le> n \<Longrightarrow> snd (drain_input n q) = []"
proof (induction n arbitrary: q)
  case (Suc n)
  show ?case
  proof (cases "next_message q")
    case None
    then show ?thesis by (simp add: next_message_def split: list.splits)
  next
    case (Some r)
    obtain p q' where r: "r = (p, q')" by (cases r)
    have "length q' \<le> n" using next_message_shrinks [of q p q'] Some r Suc.prems by simp
    from Suc.IH [OF this] show ?thesis by (cases "drain_input n q'") (simp add: Some r)
  qed
qed simp

theorem input_tasks_drain_witness:
  "snd (drain_input 3 [motion 1 5, motion 2 6, motion 1 7]) = []"
  using input_tasks_drain [of "[motion 1 5, motion 2 6, motion 1 7]" 3] by simp

end
