(* ===== verification/Input_Devices.thy ===== *)
theory Input_Devices
  imports Touch_Port Input_Batch
begin

text \<open>
  Mouse, scroll wheel and keyboard of \<open>src/input.cpp\<close>: the globals and the state of a session,
  the handlers of their packets, the delayed tasks they leave in the task pool, and the reset of
  a session. What the platform is told is a log of events. The buttons' numbers are constants of
  moonlight-common-c and parameters here.
\<close>

unbundle bit_operations_syntax

section \<open>Keys\<close>

definition make_kpid :: "u16 \<Rightarrow> u8 \<Rightarrow> u32" where
  "make_kpid vk flags = push_bit 8 (ucast vk) OR ucast flags"

definition vk_from_kpid :: "u32 \<Rightarrow> u16" where
  "vk_from_kpid kpid = ucast (drop_bit 8 kpid)"

definition flags_from_kpid :: "u32 \<Rightarrow> u8" where
  "flags_from_kpid kpid = ucast (kpid AND 0xFF)"

definition VKEY_SHIFT :: u16 where "VKEY_SHIFT = 0x10"
definition VKEY_LSHIFT :: u16 where "VKEY_LSHIFT = 0xA0"
definition VKEY_RSHIFT :: u16 where "VKEY_RSHIFT = 0xA1"
definition VKEY_CONTROL :: u16 where "VKEY_CONTROL = 0x11"
definition VKEY_LCONTROL :: u16 where "VKEY_LCONTROL = 0xA2"
definition VKEY_RCONTROL :: u16 where "VKEY_RCONTROL = 0xA3"
definition VKEY_MENU :: u16 where "VKEY_MENU = 0x12"
definition VKEY_LMENU :: u16 where "VKEY_LMENU = 0xA4"
definition VKEY_RMENU :: u16 where "VKEY_RMENU = 0xA5"

lemmas vkey_defs = VKEY_SHIFT_def VKEY_LSHIFT_def VKEY_RSHIFT_def VKEY_CONTROL_def VKEY_LCONTROL_def
  VKEY_RCONTROL_def VKEY_MENU_def VKEY_LMENU_def VKEY_RMENU_def

definition is_modifier :: "u16 \<Rightarrow> bool" where
  "is_modifier keyCode \<longleftrightarrow> keyCode \<in> {VKEY_SHIFT, VKEY_LSHIFT, VKEY_RSHIFT, VKEY_CONTROL,
     VKEY_LCONTROL, VKEY_RCONTROL, VKEY_MENU, VKEY_LMENU, VKEY_RMENU}"

text \<open>The shortcut bits.\<close>

definition CTRL_FLAG :: u32 where "CTRL_FLAG = 1"
definition ALT_FLAG :: u32 where "ALT_FLAG = 2"
definition SHIFT_FLAG :: u32 where "SHIFT_FLAG = 4"
definition SHORTCUT :: u32 where "SHORTCUT = CTRL_FLAG OR ALT_FLAG OR SHIFT_FLAG"

definition update_shortcutFlags :: "u32 \<Rightarrow> u16 \<Rightarrow> bool \<Rightarrow> u32" where
  "update_shortcutFlags flags keyCode release =
     (if keyCode \<in> {VKEY_SHIFT, VKEY_LSHIFT, VKEY_RSHIFT} then
        (if release then flags AND NOT SHIFT_FLAG else flags OR SHIFT_FLAG)
      else if keyCode \<in> {VKEY_CONTROL, VKEY_LCONTROL, VKEY_RCONTROL} then
        (if release then flags AND NOT CTRL_FLAG else flags OR CTRL_FLAG)
      else if keyCode \<in> {VKEY_MENU, VKEY_LMENU, VKEY_RMENU} then
        (if release then flags AND NOT ALT_FLAG else flags OR ALT_FLAG)
      else flags)"

section \<open>State\<close>

datatype dev_event =
    Ev_Move u16 u16
  | Ev_Abs "int \<times> int \<times> int \<times> int" rat rat
  | Ev_Button nat bool
  | Ev_Key u16 bool u8
  | Ev_Scroll int
  | Ev_Hscroll int
  | Ev_Unicode bytes
  | Ev_Switch_Display int

text \<open>
  The left button timeout is null, the marker that disables the delay, or the id of a task. The
  marker is the smallest address, so a task's id is greater.
\<close>

datatype left_timeout = Enable_Delay | Disable_Delay | Delay_Task nat

datatype dev_task = Left_Release | Repeat_Key u16 u8 key_modifiers

record dev_config =
  cf_mouse :: bool
  cf_keyboard :: bool
  cf_high_resolution_scrolling :: bool
  cf_keybindings :: "u16 \<Rightarrow> u16 option"
  cf_rightalt_to_win :: bool
  cf_key_repeat_delay :: int

record li_buttons =
  BUTTON_LEFT :: nat
  BUTTON_RIGHT :: nat

text \<open>
  The globals and one session. Delayed tasks wait with their ids; the map of keys lists them in
  some order, in which a reset visits them.
\<close>

record dev =
  key_press_repeat_id :: "nat option"
  key_press :: "(u32 \<times> bool) list"
  mouse_press :: "bool list"
  display_cursor :: bool
  delayed :: "(nat \<times> dev_task) list"
  next_task :: nat
  shortcutFlags :: u32
  left_alt_pressed :: bool
  right_alt_pressed :: bool
  mouse_left_button_timeout :: left_timeout
  touch_port_event :: "touch_port event_t"
  cur_touch_port :: touch_port
  accumulated_vscroll :: "32 word"
  accumulated_hscroll :: "32 word"
  dev_log :: "dev_event list"

definition emit :: "dev_event list \<Rightarrow> dev \<Rightarrow> dev" where
  "emit es s = s\<lparr> dev_log := dev_log s @ es \<rparr>"

definition push_delayed :: "dev_task \<Rightarrow> dev \<Rightarrow> nat \<times> dev" where
  "push_delayed t s =
     (next_task s, s\<lparr> delayed := delayed s @ [(next_task s, t)], next_task := next_task s + 1 \<rparr>)"

definition cancel_task :: "nat \<Rightarrow> dev \<Rightarrow> dev" where
  "cancel_task i s = s\<lparr> delayed := filter (\<lambda>(j, t). j \<noteq> i) (delayed s) \<rparr>"

section \<open>Mouse\<close>

definition passthrough_rel_mouse :: "dev_config \<Rightarrow> u16 \<Rightarrow> u16 \<Rightarrow> dev \<Rightarrow> dev" where
  "passthrough_rel_mouse cf dx dy s =
     (if \<not> cf_mouse cf then s
      else emit [Ev_Move dx dy] (s\<lparr> mouse_left_button_timeout := Disable_Delay \<rparr>))"

definition passthrough_abs_mouse :: "dev_config \<Rightarrow> abs_move \<Rightarrow> dev \<Rightarrow> dev" where
  "passthrough_abs_mouse cf a s =
     (if \<not> cf_mouse cf then s
      else
        let s1 = (if mouse_left_button_timeout s = Disable_Delay
              then s\<lparr> mouse_left_button_timeout := Enable_Delay \<rparr> else s)
        in if am_width a = 0 \<or> am_height a = 0 then s1
           else
             let (tpcoords, ev, port) = client_to_touchport (touch_port_event s1) (cur_touch_port s1)
                   (of_int (sint (am_x a)), of_int (sint (am_y a)))
                   (of_int (sint (am_width a)), of_int (sint (am_height a)));
                 s2 = s1\<lparr> touch_port_event := ev, cur_touch_port := port \<rparr>
             in case tpcoords of None \<Rightarrow> s2
                | Some (x, y) \<Rightarrow> emit [Ev_Abs (abs_port port) x y] s2)"

definition passthrough_mouse_button ::
  "dev_config \<Rightarrow> li_buttons \<Rightarrow> bool \<Rightarrow> nat \<Rightarrow> dev \<Rightarrow> dev" where
  "passthrough_mouse_button cf li release button s =
     (if \<not> cf_mouse cf then s
      else
        let tracked = (0 < button \<and> button < length (mouse_press s))
        in if tracked \<and> mouse_press s ! button \<noteq> release then s
           else
             let s1 = (if tracked then s\<lparr> mouse_press := (mouse_press s)[button := \<not> release] \<rparr> else s)
             in if button = BUTTON_LEFT li \<and> release \<and> mouse_left_button_timeout s1 = Enable_Delay
                then let (i, s2) = push_delayed Left_Release s1
                     in s2\<lparr> mouse_left_button_timeout := Delay_Task i \<rparr>
                else if button = BUTTON_RIGHT li \<and> \<not> release \<and>
                    (case mouse_left_button_timeout s1 of Delay_Task _ \<Rightarrow> True | _ \<Rightarrow> False)
                then (emit [Ev_Button button False, Ev_Button button True] s1)
                  \<lparr> mouse_press := (mouse_press s1)[button := False] \<rparr>
                else emit [Ev_Button button release] s1)"

text \<open>The delayed release of the left button.\<close>

definition left_release_task :: "li_buttons \<Rightarrow> dev \<Rightarrow> dev" where
  "left_release_task li s =
     (if mouse_press s ! BUTTON_LEFT li then s
      else (emit [Ev_Button (BUTTON_LEFT li) True] s)
        \<lparr> mouse_press := (mouse_press s)[BUTTON_LEFT li := False], mouse_left_button_timeout := Enable_Delay \<rparr>)"

section \<open>Scrolling\<close>

text \<open>The amounts are \<open>short\<close>, the accumulators \<open>int32_t\<close>; division truncates.\<close>

definition WHEEL_DELTA :: int where
  "WHEEL_DELTA = 120"

definition passthrough_scroll :: "dev_config \<Rightarrow> u16 \<Rightarrow> dev \<Rightarrow> dev" where
  "passthrough_scroll cf amount s =
     (if \<not> cf_mouse cf then s
      else if cf_high_resolution_scrolling cf then emit [Ev_Scroll (sint amount)] s
      else
        let acc = accumulated_vscroll s + scast amount;
            full_ticks = trunc_div (sint acc) WHEEL_DELTA
        in if full_ticks \<noteq> 0
           then (emit [Ev_Scroll (full_ticks * WHEEL_DELTA)] s)
             \<lparr> accumulated_vscroll := acc - word_of_int (full_ticks * WHEEL_DELTA) \<rparr>
           else s\<lparr> accumulated_vscroll := acc \<rparr>)"

definition passthrough_hscroll :: "dev_config \<Rightarrow> u16 \<Rightarrow> dev \<Rightarrow> dev" where
  "passthrough_hscroll cf amount s =
     (if \<not> cf_mouse cf then s
      else if cf_high_resolution_scrolling cf then emit [Ev_Hscroll (sint amount)] s
      else
        let acc = accumulated_hscroll s + scast amount;
            full_ticks = trunc_div (sint acc) WHEEL_DELTA
        in if full_ticks \<noteq> 0
           then (emit [Ev_Hscroll (full_ticks * WHEEL_DELTA)] s)
             \<lparr> accumulated_hscroll := acc - word_of_int (full_ticks * WHEEL_DELTA) \<rparr>
           else s\<lparr> accumulated_hscroll := acc \<rparr>)"

section \<open>Keyboard\<close>

definition map_keycode :: "dev_config \<Rightarrow> u16 \<Rightarrow> u16" where
  "map_keycode cf keycode = (case cf_keybindings cf keycode of Some k \<Rightarrow> k | None \<Rightarrow> keycode)"

definition synthetic_keys :: "key_modifiers \<Rightarrow> u16 list" where
  "synthetic_keys m = (if km_shift m then [VKEY_SHIFT] else []) @
     (if km_ctrl m then [VKEY_CONTROL] else []) @ (if km_alt m then [VKEY_MENU] else [])"

definition send_key_and_modifiers ::
  "dev_config \<Rightarrow> u16 \<Rightarrow> bool \<Rightarrow> u8 \<Rightarrow> key_modifiers \<Rightarrow> dev \<Rightarrow> dev" where
  "send_key_and_modifiers cf key_code release flags m s =
     emit ((if \<not> release then map (\<lambda>k. Ev_Key k False flags) (synthetic_keys m) else []) @
       [Ev_Key (map_keycode cf key_code) release flags] @
       (if \<not> release then map (\<lambda>k. Ev_Key k True flags) (synthetic_keys m) else [])) s"

text \<open>The map of keys; reading a key that is not there inserts it.\<close>

definition key_pressed :: "u32 \<Rightarrow> dev \<Rightarrow> bool" where
  "key_pressed k s = (map_of (key_press s) k = Some True)"

definition touch_key :: "u32 \<Rightarrow> dev \<Rightarrow> dev" where
  "touch_key k s = (if map_of (key_press s) k = None
     then s\<lparr> key_press := key_press s @ [(k, False)] \<rparr> else s)"

definition set_key :: "u32 \<Rightarrow> bool \<Rightarrow> dev \<Rightarrow> dev" where
  "set_key k b s = s\<lparr> key_press := map (\<lambda>(j, v). (j, if j = k then b else v)) (key_press s) \<rparr>"

definition repeat_key_task :: "dev_config \<Rightarrow> u16 \<Rightarrow> u8 \<Rightarrow> key_modifiers \<Rightarrow> dev \<Rightarrow> dev" where
  "repeat_key_task cf key_code flags m s =
     (let s1 = touch_key (make_kpid key_code flags) s
      in if \<not> key_pressed (make_kpid key_code flags) s1 then s1\<lparr> key_press_repeat_id := None \<rparr>
         else
           let s2 = send_key_and_modifiers cf key_code False flags m s1;
               (i, s3) = push_delayed (Repeat_Key key_code flags m) s2
           in s3\<lparr> key_press_repeat_id := Some i \<rparr>)"

definition apply_shortcut :: "u16 \<Rightarrow> dev \<Rightarrow> bool \<times> dev" where
  "apply_shortcut keyCode s =
     (if 0x70 \<le> keyCode \<and> keyCode \<le> 0x7C
      then (True, emit [Ev_Switch_Display (sint keyCode - 0x70)] s)
      else if keyCode = 0x4E then (True, s\<lparr> display_cursor := \<not> display_cursor s \<rparr>)
      else (False, s))"

definition synthetic_modifiers :: "dev_config \<Rightarrow> u16 \<Rightarrow> bool \<Rightarrow> key_modifiers \<Rightarrow> dev \<Rightarrow> key_modifiers" where
  "synthetic_modifiers cf keyCode release m s =
     (let alt = (if cf_rightalt_to_win cf \<and> right_alt_pressed s \<and> \<not> left_alt_pressed s
            then False else km_alt m)
      in if release \<or> is_modifier keyCode then \<lparr> km_shift = False, km_ctrl = False, km_alt = False \<rparr>
         else \<lparr> km_shift = (shortcutFlags s AND SHIFT_FLAG = 0 \<and> km_shift m),
                km_ctrl = (shortcutFlags s AND CTRL_FLAG = 0 \<and> km_ctrl m),
                km_alt = (shortcutFlags s AND ALT_FLAG = 0 \<and> alt) \<rparr>)"

definition key_finish ::
  "dev_config \<Rightarrow> u16 \<Rightarrow> bool \<Rightarrow> u8 \<Rightarrow> key_modifiers \<Rightarrow> dev \<Rightarrow> dev" where
  "key_finish cf keyCode release flags synth s =
     (let s1 = send_key_and_modifiers cf keyCode release flags synth
            (set_key (make_kpid keyCode flags) (\<not> release) s)
      in s1\<lparr> shortcutFlags := update_shortcutFlags (shortcutFlags s1) (map_keycode cf keyCode) release \<rparr>)"

text \<open>A key that goes down: the repetition of another key ends and its own is scheduled.\<close>

definition key_start :: "dev_config \<Rightarrow> u16 \<Rightarrow> u8 \<Rightarrow> key_modifiers \<Rightarrow> dev \<Rightarrow> dev" where
  "key_start cf keyCode flags synth s =
     (let s1 = (case key_press_repeat_id s of None \<Rightarrow> s | Some i \<Rightarrow> cancel_task i s);
          s2 = (if cf_key_repeat_delay cf > 0
            then let (i, t) = push_delayed (Repeat_Key keyCode flags synth) s1
                 in t\<lparr> key_press_repeat_id := Some i \<rparr>
            else s1)
      in key_finish cf keyCode False flags synth s2)"

definition passthrough_keyboard ::
  "dev_config \<Rightarrow> bool \<Rightarrow> u16 \<Rightarrow> key_modifiers \<Rightarrow> u8 \<Rightarrow> dev \<Rightarrow> dev" where
  "passthrough_keyboard cf release code m flags s =
     (if \<not> cf_keyboard cf then s
      else
        let keyCode = code AND 0x00FF;
            s1 = (if keyCode = VKEY_LMENU then s\<lparr> left_alt_pressed := \<not> release \<rparr>
                  else if keyCode = VKEY_RMENU then s\<lparr> right_alt_pressed := \<not> release \<rparr> else s);
            synth = synthetic_modifiers cf keyCode release m s1;
            kpid = make_kpid keyCode flags;
            s2 = touch_key kpid s1
        in if \<not> key_pressed kpid s2 then
             (if \<not> release then
                let (shortcut, s3) =
                  (if shortcutFlags s2 = SHORTCUT then apply_shortcut keyCode s2 else (False, s2))
                in if shortcut then s3 else key_start cf keyCode flags synth s3
              else s2)
           else if \<not> release then s2
           else key_finish cf keyCode release flags synth s2)"

text \<open>\<open>header.size\<close> counts the magic number; the platform gets the rest as text.\<close>

definition passthrough_unicode :: "dev_config \<Rightarrow> bytes \<Rightarrow> dev \<Rightarrow> dev" where
  "passthrough_unicode cf text s = (if \<not> cf_keyboard cf then s else emit [Ev_Unicode text] s)"

section \<open>Reset\<close>

definition reset_mouse_buttons :: "dev \<Rightarrow> dev" where
  "reset_mouse_buttons s =
     (emit (map (\<lambda>b. Ev_Button b True) (filter (\<lambda>b. mouse_press s ! b) [0..<length (mouse_press s)])) s)
       \<lparr> mouse_press := map (\<lambda>_. False) (mouse_press s) \<rparr>"

definition reset_keyboard_keys :: "dev_config \<Rightarrow> dev \<Rightarrow> dev" where
  "reset_keyboard_keys cf s =
     (emit (map (\<lambda>(k, b). Ev_Key (map_keycode cf (vk_from_kpid k AND 0x00FF)) True (flags_from_kpid k))
        (filter snd (key_press s))) s)
       \<lparr> key_press := map (\<lambda>(k, b). (k, False)) (key_press s) \<rparr>"

text \<open>What a disconnecting session does at once, and the task it leaves.\<close>

definition reset_cancel :: "dev \<Rightarrow> dev" where
  "reset_cancel s =
     (let s1 = (case key_press_repeat_id s of None \<Rightarrow> s | Some i \<Rightarrow> cancel_task i s)
      in case mouse_left_button_timeout s1 of Delay_Task i \<Rightarrow> cancel_task i s1 | _ \<Rightarrow> s1)"

definition reset_input_state :: "dev_config \<Rightarrow> dev \<Rightarrow> dev" where
  "reset_input_state cf s = reset_keyboard_keys cf (reset_mouse_buttons s)"

section \<open>Steps\<close>

fun passthrough_dev :: "dev_config \<Rightarrow> li_buttons \<Rightarrow> packet \<Rightarrow> dev \<Rightarrow> dev" where
  "passthrough_dev cf li (Rel_Move dx dy) s = passthrough_rel_mouse cf dx dy s"
| "passthrough_dev cf li (Abs_Move a) s = passthrough_abs_mouse cf a s"
| "passthrough_dev cf li (Mouse_Button release b) s = passthrough_mouse_button cf li release b s"
| "passthrough_dev cf li (Scroll a _) s = passthrough_scroll cf a s"
| "passthrough_dev cf li (Hscroll a) s = passthrough_hscroll cf a s"
| "passthrough_dev cf li (Keyboard release code m flags) s = passthrough_keyboard cf release code m flags s"
| "passthrough_dev cf li (Unicode t) s = passthrough_unicode cf t s"
| "passthrough_dev cf li _ s = s"

fun run_dev_task :: "dev_config \<Rightarrow> li_buttons \<Rightarrow> dev_task \<Rightarrow> dev \<Rightarrow> dev" where
  "run_dev_task cf li Left_Release s = left_release_task li s"
| "run_dev_task cf li (Repeat_Key k f m) s = repeat_key_task cf k f m s"

text \<open>A packet, a waiting task that runs, the reset of a session in its two parts.\<close>

inductive dev_step :: "dev_config \<Rightarrow> li_buttons \<Rightarrow> dev \<Rightarrow> dev \<Rightarrow> bool" for cf li where
  Packet: "dev_step cf li s (passthrough_dev cf li p s)"
| Task: "(i, t) \<in> set (delayed s) \<Longrightarrow> dev_step cf li s (run_dev_task cf li t (cancel_task i s))"
| Reset_Cancel: "dev_step cf li s (reset_cancel s)"
| Reset_State: "dev_step cf li s (reset_input_state cf s)"
| Port: "dev_step cf li s (s\<lparr> touch_port_event := event_raise p (touch_port_event s) \<rparr>)"

inductive_cases dev_stepE: "dev_step cf li s t"

definition dev_new :: dev where
  "dev_new = \<lparr> key_press_repeat_id = None, key_press = [], mouse_press = replicate 5 False,
     display_cursor = True, delayed = [], next_task = 0, shortcutFlags = 0, left_alt_pressed = False,
     right_alt_pressed = False, mouse_left_button_timeout = Enable_Delay, touch_port_event = event_new,
     cur_touch_port = \<lparr> tp_offset_x = 0, tp_offset_y = 0, tp_width = 0, tp_height = 0, tp_env_width = 0,
       tp_env_height = 0, tp_client_x = 1, tp_client_y = 1, tp_scalar_inv = 0, tp_scalar_tpcoords = 0,
       tp_env_logical_width = 0, tp_env_logical_height = 0 \<rparr>,
     accumulated_vscroll = 0, accumulated_hscroll = 0, dev_log = [] \<rparr>"

section \<open>Key ids\<close>

lemma vk_from_make_kpid: "vk_from_kpid (make_kpid vk f) = vk"
  unfolding vk_from_kpid_def make_kpid_def
  by (rule bit_word_eqI) (auto simp: bit_simps dest: bit_imp_le_length)

lemma flags_from_make_kpid: "flags_from_kpid (make_kpid vk f) = f"
proof (rule bit_word_eqI)
  fix n assume "n < LENGTH(8)"
  moreover have "bit (0xFF :: u32) n \<longleftrightarrow> n < 8" for n
    using bit_mask_iff [of 8 n, where 'a = u32] by (auto simp: mask_eq_exp_minus_1)
  ultimately show "bit (flags_from_kpid (make_kpid vk f)) n = bit f n"
    by (auto simp: flags_from_kpid_def make_kpid_def bit_simps)
qed

section \<open>What the platform holds\<close>

text \<open>The keys, with their flags, and the buttons that are down after a log of events.\<close>

fun key_event :: "(u16 \<times> u8) set \<Rightarrow> dev_event \<Rightarrow> (u16 \<times> u8) set" where
  "key_event D (Ev_Key c release f) = (if release then D - {(c, f)} else insert (c, f) D)"
| "key_event D _ = D"

definition keys_down :: "dev_event list \<Rightarrow> (u16 \<times> u8) set" where
  "keys_down es = foldl key_event {} es"

fun button_event :: "nat set \<Rightarrow> dev_event \<Rightarrow> nat set" where
  "button_event D (Ev_Button b release) = (if release then D - {b} else insert b D)"
| "button_event D _ = D"

definition buttons_down :: "dev_event list \<Rightarrow> nat set" where
  "buttons_down es = foldl button_event {} es"

lemma keys_down_append: "keys_down (es @ fs) = foldl key_event (keys_down es) fs"
  by (simp add: keys_down_def)

lemma keys_down_Nil [simp]: "keys_down [] = {}"
  by (simp add: keys_down_def)

lemma buttons_down_append: "buttons_down (es @ fs) = foldl button_event (buttons_down es) fs"
  by (simp add: buttons_down_def)

lemma foldl_presses: "foldl key_event D (map (\<lambda>k. Ev_Key k False f) ks) = D \<union> (\<lambda>k. (k, f)) ` set ks"
  by (induction ks arbitrary: D) auto

lemma foldl_releases: "foldl key_event D (map (\<lambda>k. Ev_Key k True f) ks) = D - (\<lambda>k. (k, f)) ` set ks"
  by (induction ks arbitrary: D) auto

lemma foldl_key_ups:
  "foldl key_event D (map (\<lambda>x. Ev_Key (c x) True (f x)) xs) = D - (\<lambda>x. (c x, f x)) ` set xs"
  by (induction xs arbitrary: D) auto

lemma foldl_button_ups: "foldl button_event D (map (\<lambda>b. Ev_Button b True) bs) = D - set bs"
  by (induction bs arbitrary: D) auto

lemma foldl_no_keys: "(\<And>e. e \<in> set es \<Longrightarrow> \<forall>c r f. e \<noteq> Ev_Key c r f) \<Longrightarrow> foldl key_event D es = D"
proof (induction es arbitrary: D)
  case (Cons e es)
  have "key_event D e = D" using Cons.prems [of e] by (cases e) auto
  with Cons show ?case by simp
qed simp

lemma foldl_no_buttons: "(\<And>e. e \<in> set es \<Longrightarrow> \<forall>b r. e \<noteq> Ev_Button b r) \<Longrightarrow> foldl button_event D es = D"
proof (induction es arbitrary: D)
  case (Cons e es)
  have "button_event D e = D" using Cons.prems [of e] by (cases e) auto
  with Cons show ?case by simp
qed simp

lemma send_press_down:
  "keys_down (dev_log (send_key_and_modifiers cf key False flags m s)) \<subseteq>
     insert (map_keycode cf key, flags) (keys_down (dev_log s))"
  by (auto simp: send_key_and_modifiers_def emit_def keys_down_append foldl_presses foldl_releases)

lemma send_release_down:
  "keys_down (dev_log (send_key_and_modifiers cf key True flags m s)) =
     keys_down (dev_log s) - {(map_keycode cf key, flags)}"
  by (auto simp: send_key_and_modifiers_def emit_def keys_down_append)

section \<open>Invariant of the keyboard\<close>

definition key_image :: "dev_config \<Rightarrow> u32 \<Rightarrow> u16 \<times> u8" where
  "key_image cf k = (map_keycode cf (vk_from_kpid k AND 0x00FF), flags_from_kpid k)"

definition task_ok :: "nat option \<Rightarrow> nat \<Rightarrow> nat \<times> dev_task \<Rightarrow> bool" where
  "task_ok rid n it \<longleftrightarrow> fst it < n \<and>
     (case snd it of Repeat_Key k f m \<Rightarrow> k AND 0x00FF = k \<and> rid = Some (fst it) | Left_Release \<Rightarrow> True)"

definition kb_ok :: "dev_config \<Rightarrow> dev \<Rightarrow> bool" where
  "kb_ok cf s \<longleftrightarrow> distinct (map fst (key_press s)) \<and>
     keys_down (dev_log s) \<subseteq> key_image cf ` {k. key_pressed k s} \<and>
     (\<forall>it \<in> set (delayed s). task_ok (key_press_repeat_id s) (next_task s) it) \<and>
     distinct (map fst (delayed s))"

lemma key_image_make: "k AND 0x00FF = k \<Longrightarrow> key_image cf (make_kpid k f) = (map_keycode cf k, f)"
  by (simp add: key_image_def vk_from_make_kpid flags_from_make_kpid)

text \<open>Operations that leave the keyboard alone.\<close>

definition same_kb :: "dev \<Rightarrow> dev \<Rightarrow> bool" where
  "same_kb s t \<longleftrightarrow> key_press t = key_press s \<and> keys_down (dev_log t) = keys_down (dev_log s) \<and>
     delayed t = delayed s \<and> key_press_repeat_id t = key_press_repeat_id s \<and> next_task t = next_task s"

lemma key_pressed_cong: "key_press t = key_press s \<Longrightarrow> key_pressed k t = key_pressed k s"
  by (simp add: key_pressed_def)

lemma kb_ok_same:
  assumes "kb_ok cf s" and "same_kb s t"
  shows "kb_ok cf t"
proof -
  have "{k. key_pressed k t} = {k. key_pressed k s}"
    using assms(2) key_pressed_cong [of t s] by (simp add: same_kb_def)
  with assms show ?thesis by (simp add: kb_ok_def same_kb_def)
qed

lemma key_pressed_cancel [simp]: "key_pressed k (cancel_task i s) = key_pressed k s"
  by (simp add: key_pressed_def cancel_task_def)

lemma kb_ok_cancel: "kb_ok cf s \<Longrightarrow> kb_ok cf (cancel_task i s)"
  unfolding kb_ok_def key_pressed_cancel
  by (auto simp: cancel_task_def distinct_map_filter)

lemma kb_ok_touch: "kb_ok cf s \<Longrightarrow> kb_ok cf (touch_key k s)"
proof -
  assume ok: "kb_ok cf s"
  have p: "key_pressed j (touch_key k s) = key_pressed j s" for j
    by (auto simp: key_pressed_def touch_key_def map_add_def split: option.split)
  have "distinct (map fst (key_press (touch_key k s)))"
    using ok by (auto simp: kb_ok_def touch_key_def map_of_eq_None_iff)
  moreover have "dev_log (touch_key k s) = dev_log s" "delayed (touch_key k s) = delayed s"
    "key_press_repeat_id (touch_key k s) = key_press_repeat_id s" "next_task (touch_key k s) = next_task s"
    by (simp_all add: touch_key_def)
  ultimately show ?thesis using ok p by (simp add: kb_ok_def)
qed

lemma map_of_touch: "map_of (key_press (touch_key k s)) k \<noteq> None"
  by (auto simp: touch_key_def map_add_def split: option.split)

lemma map_of_set_key:
  "map_of (key_press (set_key k b s)) j = (if j = k then map_option (\<lambda>_. b) (map_of (key_press s) j) else map_of (key_press s) j)"
proof -
  have "map_of (map (\<lambda>(j, v). (j, if j = k then b else v)) kp) j =
    (if j = k then map_option (\<lambda>_. b) (map_of kp j) else map_of kp j)" for kp :: "(u32 \<times> bool) list"
    by (induction kp) auto
  then show ?thesis by (simp add: set_key_def)
qed

lemma kb_ok_finish:
  assumes "kb_ok cf s" and "map_of (key_press s) (make_kpid k f) \<noteq> None" and "k AND 0x00FF = k"
  shows "kb_ok cf (key_finish cf k release f m s)"
proof -
  let ?kp = "make_kpid k f"
  let ?s = "set_key ?kp (\<not> release) s"
  have fst_set: "map fst (key_press ?s) = map fst (key_press s)"
    by (simp add: set_key_def split_def comp_def)
  have pressed: "key_pressed j ?s \<longleftrightarrow> (if j = ?kp then \<not> release else key_pressed j s)" for j
    using assms(2) by (auto simp: key_pressed_def map_of_set_key)
  have log: "dev_log (set_key kp b s) = dev_log s" for kp b by (simp add: set_key_def)
  have img: "(map_keycode cf k, f) = key_image cf ?kp" using key_image_make [OF assms(3)] by simp
  have "keys_down (dev_log (send_key_and_modifiers cf k release f m ?s)) \<subseteq> key_image cf ` {j. key_pressed j ?s}"
  proof (cases release)
    case True
    have "keys_down (dev_log s) - {(map_keycode cf k, f)} \<subseteq> key_image cf ` {j. key_pressed j ?s}"
    proof -
      have "{j. key_pressed j ?s} = {j. key_pressed j s} - {?kp}" using True pressed by auto
      with assms(1) show ?thesis unfolding img kb_ok_def by blast
    qed
    with True show ?thesis by (simp add: send_release_down log)
  next
    case False
    have "{j. key_pressed j s} \<subseteq> {j. key_pressed j ?s}" using False pressed by auto
    then have "keys_down (dev_log s) \<subseteq> key_image cf ` {j. key_pressed j ?s}"
      using assms(1) unfolding kb_ok_def by blast
    moreover have "(map_keycode cf k, f) \<in> key_image cf ` {j. key_pressed j ?s}"
      unfolding img using False pressed by auto
    ultimately show ?thesis
      using send_press_down [of cf k f m ?s] False by (auto simp: log)
  qed
  moreover have "key_press (key_finish cf k release f m s) = key_press ?s"
    "dev_log (key_finish cf k release f m s) = dev_log (send_key_and_modifiers cf k release f m ?s)"
    "delayed (key_finish cf k release f m s) = delayed s" "next_task (key_finish cf k release f m s) = next_task s"
    "key_press_repeat_id (key_finish cf k release f m s) = key_press_repeat_id s"
    by (simp_all add: key_finish_def Let_def send_key_and_modifiers_def emit_def set_key_def)
  ultimately show ?thesis
    using assms(1) fst_set by (simp add: kb_ok_def key_pressed_def)
qed

text \<open>Starting a repetition when none waits.\<close>

definition no_repeat :: "dev \<Rightarrow> bool" where
  "no_repeat s \<longleftrightarrow> (\<forall>it \<in> set (delayed s). snd it = Left_Release)"

lemma kb_ok_push_repeat:
  assumes "kb_ok cf s" and "k AND 0x00FF = k" and "no_repeat s"
    and "push_delayed (Repeat_Key k f m) s = (i, t)"
  shows "kb_ok cf (t\<lparr> key_press_repeat_id := Some i \<rparr>)"
proof -
  have t: "i = next_task s" "t = s\<lparr> delayed := delayed s @ [(i, Repeat_Key k f m)], next_task := next_task s + 1 \<rparr>"
    using assms(4) by (auto simp: push_delayed_def)
  have old: "\<forall>it \<in> set (delayed s). fst it < next_task s \<and> snd it = Left_Release"
    using assms(1,3) by (auto simp: kb_ok_def task_ok_def no_repeat_def)
  then have "i \<notin> fst ` set (delayed s)" by (auto simp: t(1))
  with assms(1,2) old show ?thesis
    unfolding kb_ok_def t(2) by (auto simp: task_ok_def key_pressed_def t(1))
qed

lemma cancel_repeat:
  assumes "kb_ok cf s"
  shows "no_repeat (case key_press_repeat_id s of None \<Rightarrow> s | Some i \<Rightarrow> cancel_task i s)"
proof -
  have "snd it = Left_Release \<or> key_press_repeat_id s = Some (fst it)" if "it \<in> set (delayed s)" for it
    using assms that by (cases "snd it") (auto simp: kb_ok_def task_ok_def)
  then have "\<forall>it \<in> set (delayed s). snd it = Left_Release \<or> key_press_repeat_id s = Some (fst it)" by blast
  then show ?thesis
    by (cases "key_press_repeat_id s") (fastforce simp: no_repeat_def cancel_task_def)+
qed

lemma kb_ok_start:
  assumes "kb_ok cf s" and "map_of (key_press s) (make_kpid k f) \<noteq> None" and "k AND 0x00FF = k"
  shows "kb_ok cf (key_start cf k f synth s)"
proof -
  define s1 where "s1 = (case key_press_repeat_id s of None \<Rightarrow> s | Some i \<Rightarrow> cancel_task i s)"
  have ok1: "kb_ok cf s1" using assms(1) kb_ok_cancel unfolding s1_def by (auto split: option.split)
  have kp: "key_press s1 = key_press s" by (simp add: s1_def cancel_task_def split: option.split)
  have none: "no_repeat s1" using cancel_repeat [OF assms(1)] by (simp add: s1_def)
  have "kb_ok cf (let (i, t) = push_delayed (Repeat_Key k f synth) s1 in t\<lparr> key_press_repeat_id := Some i \<rparr>)"
    using kb_ok_push_repeat [OF ok1 assms(3) none] by (simp add: push_delayed_def)
  with ok1 kp assms(2,3) show ?thesis
    unfolding key_start_def s1_def [symmetric] Let_def
    by (intro kb_ok_finish) (auto simp: push_delayed_def)
qed

lemma kb_ok_keyboard:
  assumes "kb_ok cf s"
  shows "kb_ok cf (passthrough_keyboard cf release code m f s)"
proof -
  let ?k = "code AND 0x00FF"
  define s1 where "s1 = (if ?k = VKEY_LMENU then s\<lparr> left_alt_pressed := \<not> release \<rparr>
                  else if ?k = VKEY_RMENU then s\<lparr> right_alt_pressed := \<not> release \<rparr> else s)"
  define s2 where "s2 = touch_key (make_kpid ?k f) s1"
  have k: "?k AND 0x00FF = ?k" by (simp add: and.assoc)
  have "kb_ok cf s1" using assms by (auto intro: kb_ok_same simp: s1_def same_kb_def)
  then have s2: "kb_ok cf s2" unfolding s2_def by (rule kb_ok_touch)
  have here: "map_of (key_press s2) (make_kpid ?k f) \<noteq> None" unfolding s2_def by (rule map_of_touch)
  have short: "kb_ok cf s3 \<and> (\<not> b \<longrightarrow> s3 = s2)"
    if "(if shortcutFlags s2 = SHORTCUT then apply_shortcut ?k s2 else (False, s2)) = (b, s3)" for b s3
    using that s2 by (auto intro!: kb_ok_same [OF s2]
        simp: apply_shortcut_def same_kb_def emit_def keys_down_append split: if_splits)
  obtain b s3 where b: "(if shortcutFlags s2 = SHORTCUT then apply_shortcut ?k s2 else (False, s2)) = (b, s3)"
    by (meson surj_pair)
  have "kb_ok cf (if b then s3 else key_start cf ?k f synth s3)" for synth
    using short [OF b] kb_ok_start [OF s2 here k] by simp
  then show ?thesis
    unfolding passthrough_keyboard_def Let_def s1_def [symmetric] s2_def [symmetric] b
    using assms s2 kb_ok_finish [OF s2 here k] by simp
qed

lemma kb_ok_repeat:
  assumes "kb_ok cf s" and "(i, Repeat_Key k f m) \<in> set (delayed s)"
  shows "kb_ok cf (repeat_key_task cf k f m (cancel_task i s))"
proof -
  define s1 where "s1 = touch_key (make_kpid k f) (cancel_task i s)"
  have k: "k AND 0x00FF = k" and i: "key_press_repeat_id s = Some i"
    using assms by (auto simp: kb_ok_def task_ok_def)
  have ok1: "kb_ok cf s1" unfolding s1_def using assms(1) by (intro kb_ok_touch kb_ok_cancel)
  have none: "no_repeat s1"
    using cancel_repeat [OF assms(1)] i by (simp add: s1_def no_repeat_def touch_key_def)
  show ?thesis
  proof (cases "key_pressed (make_kpid k f) s1")
    case False
    have "kb_ok cf (s1\<lparr> key_press_repeat_id := None \<rparr>)"
      using ok1 none key_pressed_cong [of "s1\<lparr> key_press_repeat_id := None \<rparr>" s1]
      by (auto simp: kb_ok_def no_repeat_def task_ok_def)
    with False show ?thesis by (simp add: repeat_key_task_def s1_def [symmetric])
  next
    case True
    define s2 where "s2 = send_key_and_modifiers cf k False f m s1"
    have fields: "key_press s2 = key_press s1" "delayed s2 = delayed s1" "next_task s2 = next_task s1"
      "key_press_repeat_id s2 = key_press_repeat_id s1"
      by (simp_all add: s2_def send_key_and_modifiers_def emit_def)
    have "(map_keycode cf k, f) \<in> key_image cf ` {j. key_pressed j s1}"
      using True key_image_make [OF k, of cf f] by (metis imageI mem_Collect_eq)
    then have "keys_down (dev_log s2) \<subseteq> key_image cf ` {j. key_pressed j s1}"
      using send_press_down [of cf k f m s1] ok1 by (auto simp: s2_def kb_ok_def)
    moreover have "{j. key_pressed j s2} = {j. key_pressed j s1}"
      using key_pressed_cong [OF fields(1)] by simp
    ultimately have "kb_ok cf s2" using ok1 fields by (simp add: kb_ok_def)
    moreover have "no_repeat s2" using none fields by (simp add: no_repeat_def)
    ultimately show ?thesis
      using True kb_ok_push_repeat [OF _ k, of cf s2 f m]
      by (simp add: repeat_key_task_def s1_def [symmetric] s2_def [symmetric] push_delayed_def Let_def)
  qed
qed

lemma kb_ok_reset_keyboard:
  assumes "kb_ok cf s"
  shows "keys_down (dev_log (reset_keyboard_keys cf s)) = {} \<and> (\<forall>k. \<not> key_pressed k (reset_keyboard_keys cf s)) \<and>
    kb_ok cf (reset_keyboard_keys cf s)"
proof -
  have up: "keys_down (dev_log (reset_keyboard_keys cf s)) =
    keys_down (dev_log s) - (\<lambda>x. key_image cf (fst x)) ` set (filter snd (key_press s))"
    unfolding reset_keyboard_keys_def emit_def key_image_def
    by (simp add: keys_down_append split_def foldl_key_ups del: set_filter)
  have "key_image cf ` {k. key_pressed k s} \<subseteq> (\<lambda>x. key_image cf (fst x)) ` set (filter snd (key_press s))"
    by (force simp: key_pressed_def dest!: map_of_SomeD)
  with assms up have empty: "keys_down (dev_log (reset_keyboard_keys cf s)) = {}"
    by (auto simp: kb_ok_def)
  have "map_of (map (\<lambda>(k, b). (k, False)) kp) k \<noteq> Some True" for kp :: "(u32 \<times> bool) list" and k
    by (induction kp) auto
  then have none: "\<not> key_pressed k (reset_keyboard_keys cf s)" for k
    by (simp add: key_pressed_def reset_keyboard_keys_def)
  have "map fst (key_press (reset_keyboard_keys cf s)) = map fst (key_press s)"
    "delayed (reset_keyboard_keys cf s) = delayed s" "next_task (reset_keyboard_keys cf s) = next_task s"
    "key_press_repeat_id (reset_keyboard_keys cf s) = key_press_repeat_id s"
    by (simp_all add: reset_keyboard_keys_def emit_def split_def comp_def)
  with assms empty none show ?thesis by (simp add: kb_ok_def)
qed

lemma same_kb_mouse_reset: "same_kb s (reset_mouse_buttons s)"
  by (auto simp: same_kb_def reset_mouse_buttons_def emit_def keys_down_append intro!: foldl_no_keys)

lemma same_kb_rel: "same_kb s (passthrough_rel_mouse cf dx dy s)"
  by (simp add: same_kb_def passthrough_rel_mouse_def emit_def keys_down_append)

lemma same_kb_abs: "same_kb s (passthrough_abs_mouse cf a s)"
  by (auto simp: same_kb_def passthrough_abs_mouse_def emit_def keys_down_append Let_def
      split: option.split prod.split)

lemma same_kb_scroll: "same_kb s (passthrough_scroll cf a s)" "same_kb s (passthrough_hscroll cf a s)"
  by (simp_all add: same_kb_def passthrough_scroll_def passthrough_hscroll_def emit_def keys_down_append Let_def)

lemma same_kb_unicode: "same_kb s (passthrough_unicode cf t s)"
  by (simp add: same_kb_def passthrough_unicode_def emit_def keys_down_append)

lemma kb_ok_left_task:
  assumes "kb_ok cf s"
  shows "kb_ok cf (left_release_task li s)"
  by (rule kb_ok_same [OF assms]) (simp add: same_kb_def left_release_task_def emit_def keys_down_append)

lemma kb_ok_push_left:
  assumes "kb_ok cf s"
  shows "kb_ok cf (snd (push_delayed Left_Release s))"
proof -
  have old: "\<forall>it \<in> set (delayed s). fst it < next_task s"
    using assms by (auto simp: kb_ok_def task_ok_def)
  then have new: "next_task s \<notin> fst ` set (delayed s)" by auto
  have "task_ok rid (next_task s + 1) it" if "task_ok rid (next_task s) it" for rid it
    using that by (auto simp: task_ok_def split: dev_task.splits)
  with assms new show ?thesis
    using key_pressed_cong [of "snd (push_delayed Left_Release s)" s]
    by (simp add: kb_ok_def push_delayed_def) (simp add: task_ok_def)
qed

lemma kb_ok_fields [simp]:
  "kb_ok cf (s\<lparr> mouse_press := x \<rparr>) = kb_ok cf s"
  "kb_ok cf (s\<lparr> mouse_left_button_timeout := d \<rparr>) = kb_ok cf s"
  by (simp_all add: kb_ok_def key_pressed_def)

lemma kb_ok_emit_buttons [simp]:
  "kb_ok cf (emit [Ev_Button b r] s) = kb_ok cf s"
  "kb_ok cf (emit [Ev_Button b r, Ev_Button b' r'] s) = kb_ok cf s"
  by (simp_all add: kb_ok_def key_pressed_def emit_def keys_down_append)

lemma kb_ok_button:
  assumes "kb_ok cf s"
  shows "kb_ok cf (passthrough_mouse_button cf' li release b s)"
  using assms kb_ok_push_left [of cf "s\<lparr> mouse_press := x \<rparr>" for x] kb_ok_push_left [of cf s]
  by (simp add: passthrough_mouse_button_def Let_def split_def)

lemma kb_ok_reset_cancel:
  assumes "kb_ok cf s"
  shows "kb_ok cf (reset_cancel s)"
proof -
  have "kb_ok cf (case key_press_repeat_id s of None \<Rightarrow> s | Some i \<Rightarrow> cancel_task i s)"
    using assms kb_ok_cancel by (simp split: option.split)
  then show ?thesis
    unfolding reset_cancel_def Let_def using kb_ok_cancel by (simp split: left_timeout.split)
qed

lemma passthrough_dev_cases:
  "passthrough_dev cf li p s = s \<or>
   (\<exists>dx dy. passthrough_dev cf li p s = passthrough_rel_mouse cf dx dy s) \<or>
   (\<exists>a. passthrough_dev cf li p s = passthrough_abs_mouse cf a s) \<or>
   (\<exists>r b. passthrough_dev cf li p s = passthrough_mouse_button cf li r b s) \<or>
   (\<exists>a. passthrough_dev cf li p s = passthrough_scroll cf a s) \<or>
   (\<exists>a. passthrough_dev cf li p s = passthrough_hscroll cf a s) \<or>
   (\<exists>r c m f. passthrough_dev cf li p s = passthrough_keyboard cf r c m f s) \<or>
   (\<exists>t. passthrough_dev cf li p s = passthrough_unicode cf t s)"
  by (cases p) (simp_all, blast+)

interpretation kb: invariant_system "dev_step cf li" "kb_ok cf" for cf li
proof
  fix s t assume "dev_step cf li s t" "kb_ok cf s"
  then show "kb_ok cf t"
  proof cases
    case (Packet p)
    from passthrough_dev_cases [of cf li p s] \<open>kb_ok cf s\<close> show ?thesis
      unfolding Packet
      by (elim disjE exE)
        (simp_all add: kb_ok_button kb_ok_keyboard kb_ok_same [OF _ same_kb_rel] kb_ok_same [OF _ same_kb_abs]
          kb_ok_same [OF _ same_kb_scroll(1)] kb_ok_same [OF _ same_kb_scroll(2)] kb_ok_same [OF _ same_kb_unicode])
  next
    case (Task i tsk)
    show ?thesis
    proof (cases tsk)
      case Left_Release
      with Task \<open>kb_ok cf s\<close> show ?thesis by (simp add: kb_ok_left_task kb_ok_cancel)
    next
      case (Repeat_Key k f m)
      with Task kb_ok_repeat [OF \<open>kb_ok cf s\<close>] show ?thesis by simp
    qed
  next
    case Reset_Cancel
    with \<open>kb_ok cf s\<close> show ?thesis by (simp add: kb_ok_reset_cancel)
  next
    case Reset_State
    with \<open>kb_ok cf s\<close> show ?thesis
      using kb_ok_reset_keyboard [OF kb_ok_same [OF _ same_kb_mouse_reset]] by (simp add: reset_input_state_def)
  next
    case (Port p)
    with \<open>kb_ok cf s\<close> show ?thesis by (auto intro: kb_ok_same simp: same_kb_def)
  qed
qed

lemma kb_ok_new: "kb_ok cf dev_new"
  by (simp add: kb_ok_def dev_new_def)

section \<open>Invariant of the mouse buttons\<close>

definition mouse_ok :: "li_buttons \<Rightarrow> dev \<Rightarrow> bool" where
  "mouse_ok li s \<longleftrightarrow> length (mouse_press s) = 5 \<and>
     (\<forall>b \<in> buttons_down (dev_log s). 0 < b \<and> b < 5 \<and> b \<noteq> BUTTON_LEFT li \<longrightarrow> mouse_press s ! b)"

definition same_mouse :: "dev \<Rightarrow> dev \<Rightarrow> bool" where
  "same_mouse s t \<longleftrightarrow> mouse_press t = mouse_press s \<and> buttons_down (dev_log t) = buttons_down (dev_log s)"

lemma mouse_ok_same: "mouse_ok li s \<Longrightarrow> same_mouse s t \<Longrightarrow> mouse_ok li t"
  by (simp add: mouse_ok_def same_mouse_def)

lemma same_mouse_trans: "same_mouse s t \<Longrightarrow> same_mouse t u \<Longrightarrow> same_mouse s u"
  by (simp add: same_mouse_def)

lemma same_mouse_refl [simp]: "same_mouse s s"
  by (simp add: same_mouse_def)

lemma foldl_button_keys: "foldl button_event D (map (\<lambda>k. Ev_Key k r f) ks) = D"
  by (induction ks arbitrary: D) auto

lemma same_mouse_send: "same_mouse s (send_key_and_modifiers cf k r f m s)"
  by (simp add: same_mouse_def send_key_and_modifiers_def emit_def buttons_down_append foldl_button_keys)

lemma same_mouse_finish: "same_mouse s (key_finish cf k r f m s)"
  using same_mouse_send [of "set_key (make_kpid k f) (\<not> r) s" cf k r f m]
  by (simp add: key_finish_def Let_def same_mouse_def set_key_def)

lemma same_mouse_cancel [simp]: "same_mouse s (cancel_task i t) = same_mouse s t"
  by (simp add: same_mouse_def cancel_task_def)

lemma same_mouse_touch [simp]: "same_mouse s (touch_key k t) = same_mouse s t"
  by (simp add: same_mouse_def touch_key_def)

lemma same_mouse_fields [simp]:
  "same_mouse s (t\<lparr> key_press_repeat_id := x \<rparr>) = same_mouse s t"
  "same_mouse s (t\<lparr> left_alt_pressed := b \<rparr>) = same_mouse s t"
  "same_mouse s (t\<lparr> right_alt_pressed := b \<rparr>) = same_mouse s t"
  "same_mouse s (t\<lparr> display_cursor := b \<rparr>) = same_mouse s t"
  "same_mouse s (t\<lparr> delayed := d, next_task := n \<rparr>) = same_mouse s t"
  by (simp_all add: same_mouse_def)

lemma same_mouse_start: "same_mouse s (key_start cf k f synth s)"
  by (auto simp: key_start_def Let_def push_delayed_def split: option.split
      intro!: same_mouse_trans [OF _ same_mouse_finish])

lemma same_mouse_shortcut: "same_mouse s (snd (apply_shortcut k s))"
  by (simp add: apply_shortcut_def emit_def) (simp add: same_mouse_def buttons_down_append)

lemma same_mouse_keyboard: "same_mouse s (passthrough_keyboard cf r c m f s)"
proof -
  let ?k = "c AND 0x00FF"
  define s2 where "s2 = touch_key (make_kpid ?k f) (if ?k = VKEY_LMENU then s\<lparr> left_alt_pressed := \<not> r \<rparr>
    else if ?k = VKEY_RMENU then s\<lparr> right_alt_pressed := \<not> r \<rparr> else s)"
  have s2: "same_mouse s s2" by (simp add: s2_def)
  obtain b s3 where b: "(if shortcutFlags s2 = SHORTCUT then apply_shortcut ?k s2 else (False, s2)) = (b, s3)"
    by (meson surj_pair)
  have "same_mouse s2 s3"
    using b same_mouse_shortcut [of s2 ?k] by (auto split: if_splits)
  with s2 have s3: "same_mouse s s3" by (rule same_mouse_trans)
  show ?thesis
    unfolding passthrough_keyboard_def Let_def s2_def [symmetric] b
    using s2 s3 same_mouse_trans [OF s2 same_mouse_finish] same_mouse_trans [OF s3 same_mouse_start] by simp
qed

lemma same_mouse_repeat: "same_mouse s (repeat_key_task cf k f m s)"
proof -
  have "same_mouse s (send_key_and_modifiers cf k False f m (touch_key kp s))" for kp
    by (rule same_mouse_trans [OF _ same_mouse_send]) simp
  then show ?thesis by (simp add: repeat_key_task_def Let_def push_delayed_def)
qed

lemma same_mouse_reset_keys: "same_mouse s (reset_keyboard_keys cf s)"
  by (auto simp: same_mouse_def reset_keyboard_keys_def emit_def buttons_down_append intro!: foldl_no_buttons)

lemma mouse_ok_button:
  assumes "mouse_ok li s"
  shows "mouse_ok li (passthrough_mouse_button cf li r b s)"
  using assms
  by (auto simp: mouse_ok_def passthrough_mouse_button_def Let_def emit_def push_delayed_def
      buttons_down_append nth_list_update split: if_splits)

lemma mouse_ok_left_task: "mouse_ok li s \<Longrightarrow> mouse_ok li (left_release_task li s)"
  by (auto simp: mouse_ok_def left_release_task_def emit_def buttons_down_append nth_list_update)

lemma mouse_reset_down:
  "buttons_down (dev_log (reset_mouse_buttons s)) =
     buttons_down (dev_log s) - {b. b < length (mouse_press s) \<and> mouse_press s ! b}"
  by (auto simp: reset_mouse_buttons_def emit_def buttons_down_append foldl_button_ups)

lemma mouse_ok_reset: "mouse_ok li s \<Longrightarrow> mouse_ok li (reset_mouse_buttons s)"
  unfolding mouse_ok_def mouse_reset_down by (auto simp: reset_mouse_buttons_def emit_def)

lemma same_mouse_others:
  "same_mouse s (passthrough_rel_mouse cf dx dy s)" "same_mouse s (passthrough_scroll cf a s)"
  "same_mouse s (passthrough_hscroll cf a s)" "same_mouse s (passthrough_unicode cf t s)"
  by (simp_all add: same_mouse_def passthrough_rel_mouse_def passthrough_scroll_def passthrough_hscroll_def
      passthrough_unicode_def emit_def buttons_down_append Let_def)

lemma same_mouse_abs: "same_mouse s (passthrough_abs_mouse cf a s)"
  by (auto simp: same_mouse_def passthrough_abs_mouse_def emit_def buttons_down_append Let_def
      split: option.split prod.split)

lemma same_mouse_reset_cancel: "same_mouse s (reset_cancel s)"
  by (simp add: reset_cancel_def Let_def split: option.split left_timeout.split)

interpretation mouse: invariant_system "dev_step cf li" "mouse_ok li" for cf li
proof
  fix s t assume "dev_step cf li s t" "mouse_ok li s"
  then show "mouse_ok li t"
  proof cases
    case (Packet p)
    from passthrough_dev_cases [of cf li p s] \<open>mouse_ok li s\<close> show ?thesis
      unfolding Packet
      by (elim disjE exE)
        (simp_all add: mouse_ok_button mouse_ok_same [OF _ same_mouse_keyboard] mouse_ok_same [OF _ same_mouse_abs]
          mouse_ok_same [OF _ same_mouse_others(1)] mouse_ok_same [OF _ same_mouse_others(2)]
          mouse_ok_same [OF _ same_mouse_others(3)] mouse_ok_same [OF _ same_mouse_others(4)])
  next
    case (Task i tsk)
    have "mouse_ok li (cancel_task i s)"
      using \<open>mouse_ok li s\<close> by (rule mouse_ok_same) simp
    with Task show ?thesis
      by (cases tsk) (simp_all add: mouse_ok_left_task mouse_ok_same [OF _ same_mouse_repeat])
  next
    case Reset_Cancel
    with \<open>mouse_ok li s\<close> show ?thesis by (simp add: mouse_ok_same [OF _ same_mouse_reset_cancel])
  next
    case Reset_State
    with \<open>mouse_ok li s\<close> show ?thesis
      by (simp add: reset_input_state_def mouse_ok_reset mouse_ok_same [OF _ same_mouse_reset_keys])
  next
    case (Port p)
    with \<open>mouse_ok li s\<close> show ?thesis by (auto intro: mouse_ok_same simp: same_mouse_def)
  qed
qed

section \<open>Properties\<close>

text \<open>
  (C15) After the reset of a disconnecting session nothing stays pressed on the host: in every
  reachable state, whatever keybindings, repetitions, synthetic modifiers and shortcuts did, the
  reset releases every key the platform holds down and every tracked button but the left one.
\<close>
theorem reset_releases_everything:
  assumes "(dev_step cf li)\<^sup>*\<^sup>* dev_new s"
  shows "keys_down (dev_log (reset_input_state cf s)) = {} \<and>
    (\<forall>k. \<not> key_pressed k (reset_input_state cf s)) \<and>
    (\<forall>b. 0 < b \<and> b < 5 \<and> b \<noteq> BUTTON_LEFT li \<longrightarrow> b \<notin> buttons_down (dev_log (reset_input_state cf s)))"
proof -
  have kb: "kb_ok cf s" by (rule kb.steps_ok [OF assms kb_ok_new])
  have new: "mouse_ok li dev_new" by (simp add: mouse_ok_def dev_new_def buttons_down_def)
  have m: "mouse_ok li s" by (rule mouse.steps_ok [OF assms new])
  have "keys_down (dev_log (reset_input_state cf s)) = {} \<and> (\<forall>k. \<not> key_pressed k (reset_input_state cf s))"
    using kb_ok_reset_keyboard [OF kb_ok_same [OF kb same_kb_mouse_reset]] by (simp add: reset_input_state_def)
  moreover have "buttons_down (dev_log (reset_input_state cf s)) =
    buttons_down (dev_log s) - {b. b < length (mouse_press s) \<and> mouse_press s ! b}"
    using same_mouse_reset_keys [of "reset_mouse_buttons s" cf]
    by (simp add: reset_input_state_def same_mouse_def mouse_reset_down)
  ultimately show ?thesis using m by (auto simp: mouse_ok_def)
qed

definition cf_example :: dev_config where
  "cf_example = \<lparr> cf_mouse = True, cf_keyboard = True, cf_high_resolution_scrolling = False,
     cf_keybindings = (\<lambda>k. if k = 0x10 then Some 0xA0 else None), cf_rightalt_to_win = False,
     cf_key_repeat_delay = 500 \<rparr>"

definition li_example :: li_buttons where
  "li_example = \<lparr> BUTTON_LEFT = 1, BUTTON_RIGHT = 3 \<rparr>"

definition no_modifiers :: key_modifiers where
  "no_modifiers = \<lparr> km_shift = False, km_ctrl = False, km_alt = False \<rparr>"

definition press_key :: "u16 \<Rightarrow> dev \<Rightarrow> dev" where
  "press_key k s = passthrough_dev cf_example li_example (Keyboard False k no_modifiers 0) s"

theorem reset_releases_everything_witness:
  "keys_down (dev_log (press_key 0x41 dev_new)) = {(0x41, 0)} \<and>
   keys_down (dev_log (reset_input_state cf_example (press_key 0x41 dev_new))) = {}"
proof -
  have "(dev_step cf_example li_example)\<^sup>*\<^sup>* dev_new (press_key 0x41 dev_new)"
    unfolding press_key_def by (intro r_into_rtranclp dev_step.Packet)
  moreover have "keys_down (dev_log (press_key 0x41 dev_new)) = {(0x41, 0)}"
    by (simp add: press_key_def passthrough_keyboard_def cf_example_def dev_new_def Let_def touch_key_def
        key_pressed_def key_start_def push_delayed_def key_finish_def send_key_and_modifiers_def emit_def
        set_key_def map_keycode_def synthetic_modifiers_def no_modifiers_def synthetic_keys_def
        keys_down_def vkey_defs SHORTCUT_def CTRL_FLAG_def ALT_FLAG_def SHIFT_FLAG_def)
  ultimately show ?thesis using reset_releases_everything by blast
qed

section \<open>Scrolling conserves the wheel\<close>

text \<open>What the platform was told to scroll.\<close>

fun scrolled :: "dev_event \<Rightarrow> int" where
  "scrolled (Ev_Scroll n) = n"
| "scrolled _ = 0"

definition scroll_total :: "dev_event list \<Rightarrow> int" where
  "scroll_total es = sum_list (map scrolled es)"

lemma trunc_div_rest: "\<bar>a - trunc_div a 120 * 120\<bar> < 120"
proof -
  have "\<bar>a\<bar> - (\<bar>a\<bar> div 120) * 120 = \<bar>a\<bar> mod 120" by (simp add: minus_div_mult_eq_mod)
  moreover have "a - trunc_div a 120 * 120 = sgn a * (\<bar>a\<bar> - (\<bar>a\<bar> div 120) * 120)"
    by (simp add: trunc_div_def right_diff_distrib sgn_mult_abs)
  moreover have "\<bar>a\<bar> mod 120 < 120" "0 \<le> \<bar>a\<bar> mod 120" by simp_all
  ultimately show ?thesis by (simp add: abs_mult sgn_if)
qed

lemma sint_small: "- (2 ^ 31) \<le> n \<Longrightarrow> n < 2 ^ 31 \<Longrightarrow> sint (word_of_int n :: 32 word) = n"
  by (simp add: signed_of_int signed_take_bit_int_eq_self)

lemma sint_u16_bound: "- 32768 \<le> sint (x :: u16) \<and> sint x < 32768"
  using sint_ge [of x] sint_lt [of x] by simp

lemma passthrough_scroll_eq:
  assumes "cf_mouse cf" "\<not> cf_high_resolution_scrolling cf" "acc = accumulated_vscroll s + scast a"
    "t = trunc_div (sint acc) WHEEL_DELTA"
  shows "accumulated_vscroll (passthrough_scroll cf a s) = acc - word_of_int (t * WHEEL_DELTA) \<and>
    scroll_total (dev_log (passthrough_scroll cf a s)) = scroll_total (dev_log s) + t * WHEEL_DELTA"
  unfolding passthrough_scroll_def Let_def assms(3) [symmetric] assms(4) [symmetric]
  using assms(1,2) by (simp add: emit_def scroll_total_def)

lemma word_sum_sint:
  fixes x :: "32 word" and a :: u16
  assumes "\<bar>sint x\<bar> < 120"
  shows "sint (x + scast a) = sint x + sint a"
proof -
  have eq: "x + scast a = word_of_int (sint x + sint a)" by (simp only: of_int_add of_int_sint scast_id)
  have b: "- 40000 < sint x + sint a" "sint x + sint a < 40000"
    using assms sint_u16_bound [of a] by linarith+
  show ?thesis unfolding eq by (rule sint_small) (use b in simp_all)
qed

lemma word_rest_sint:
  fixes x :: "32 word"
  assumes "\<bar>sint x - n\<bar> < 120"
  shows "sint (x - word_of_int n) = sint x - n"
proof -
  have eq: "x - word_of_int n = word_of_int (sint x - n)" by (simp only: of_int_diff of_int_sint scast_id)
  show ?thesis unfolding eq by (rule sint_small) (use assms in simp_all)
qed

lemma scroll_step:
  assumes "cf_mouse cf" "\<not> cf_high_resolution_scrolling cf" "\<bar>sint (accumulated_vscroll s)\<bar> < WHEEL_DELTA"
  shows "\<bar>sint (accumulated_vscroll (passthrough_scroll cf a s))\<bar> < WHEEL_DELTA \<and>
    scroll_total (dev_log (passthrough_scroll cf a s)) + sint (accumulated_vscroll (passthrough_scroll cf a s)) =
      scroll_total (dev_log s) + sint (accumulated_vscroll s) + sint a"
proof -
  define acc where "acc = accumulated_vscroll s + scast a"
  define t where "t = trunc_div (sint acc) WHEEL_DELTA"
  have n: "sint acc = sint (accumulated_vscroll s) + sint a"
    unfolding acc_def by (rule word_sum_sint) (use assms(3) in \<open>simp only: WHEEL_DELTA_def\<close>)
  have rest: "\<bar>sint acc - t * WHEEL_DELTA\<bar> < 120"
    unfolding t_def WHEEL_DELTA_def by (rule trunc_div_rest)
  have "sint (acc - word_of_int (t * WHEEL_DELTA)) = sint acc - t * WHEEL_DELTA"
    by (rule word_rest_sint [OF rest])
  with passthrough_scroll_eq [OF assms(1,2) acc_def t_def] rest n show ?thesis
    unfolding WHEEL_DELTA_def by simp
qed

text \<open>
  Low-resolution scrolling loses nothing: over any sequence of wheel amounts the full ticks
  sent to the platform and the remainder kept add up to the sum of the amounts, and the remainder
  stays below one tick, so the 32 bit accumulator never overflows.
\<close>
theorem scroll_conserved:
  assumes "cf_mouse cf" "\<not> cf_high_resolution_scrolling cf" "\<bar>sint (accumulated_vscroll s)\<bar> < WHEEL_DELTA"
  shows "\<bar>sint (accumulated_vscroll (fold (passthrough_scroll cf) as s))\<bar> < WHEEL_DELTA \<and>
    scroll_total (dev_log (fold (passthrough_scroll cf) as s)) +
      sint (accumulated_vscroll (fold (passthrough_scroll cf) as s)) =
      scroll_total (dev_log s) + sint (accumulated_vscroll s) + sum_list (map sint as)"
  using assms(3)
proof (induction as arbitrary: s)
  case (Cons a as)
  from scroll_step [OF assms(1,2) Cons.prems, of a] Cons.IH show ?case by simp
qed simp

section \<open>A reset strands a delayed release\<close>

lemma nth_default_not_in: "length xs = 5 \<Longrightarrow> 0 < n \<Longrightarrow> n < 5 \<Longrightarrow> xs[n := b] ! n = b"
  by simp

text \<open>
  A session that ends within the 10 ms for which the release of the left button is held back
  leaves the button down: the reset cancels the delayed release, and the table of buttons, which
  says released since the packet came, gives the reset nothing to release.
\<close>
theorem reset_strands_left_button:
  assumes "cf_mouse cf" "length (mouse_press s) = 5" "0 < BUTTON_LEFT li" "BUTTON_LEFT li < 5"
    "BUTTON_RIGHT li \<noteq> BUTTON_LEFT li" "mouse_left_button_timeout s = Enable_Delay"
    "\<not> mouse_press s ! BUTTON_LEFT li" "\<forall>it \<in> set (delayed s). fst it < next_task s"
    "t = passthrough_mouse_button cf li True (BUTTON_LEFT li)
      (passthrough_mouse_button cf li False (BUTTON_LEFT li) s)"
  shows "(\<exists>i. mouse_left_button_timeout t = Delay_Task i \<and> (i, Left_Release) \<in> set (delayed t)) \<and>
    set (delayed (reset_cancel t)) \<subseteq> set (delayed s) \<and>
    BUTTON_LEFT li \<in> buttons_down (dev_log (reset_input_state cf (reset_cancel t)))"
proof -
  let ?b = "BUTTON_LEFT li"
  define s1 where "s1 = passthrough_mouse_button cf li False ?b s"
  have s1: "mouse_press s1 = (mouse_press s)[?b := True]" "mouse_left_button_timeout s1 = Enable_Delay"
    "delayed s1 = delayed s" "next_task s1 = next_task s" "key_press_repeat_id s1 = key_press_repeat_id s"
    "dev_log s1 = dev_log s @ [Ev_Button ?b False]"
    using assms(1-7) by (simp_all add: s1_def passthrough_mouse_button_def Let_def emit_def)
  have t: "mouse_press t = (mouse_press s)[?b := False]" "mouse_left_button_timeout t = Delay_Task (next_task s)"
    "delayed t = delayed s @ [(next_task s, Left_Release)]" "key_press_repeat_id t = key_press_repeat_id s"
    "dev_log t = dev_log s @ [Ev_Button ?b False]"
    unfolding assms(9) s1_def [symmetric] using assms(1-5) s1
    by (simp_all add: passthrough_mouse_button_def Let_def push_delayed_def)
  let ?c = "reset_cancel t"
  have c: "mouse_press ?c = (mouse_press s)[?b := False]" "dev_log ?c = dev_log t"
    using t by (simp_all add: reset_cancel_def Let_def cancel_task_def split: option.split)
  have d: "set (delayed ?c) \<subseteq> set (delayed s)"
    using t by (auto simp: reset_cancel_def Let_def cancel_task_def split: option.splits)
  have "buttons_down (dev_log (reset_input_state cf ?c)) = buttons_down (dev_log (reset_mouse_buttons ?c))"
    using same_mouse_reset_keys [of "reset_mouse_buttons ?c" cf] by (simp add: reset_input_state_def same_mouse_def)
  also have "\<dots> = buttons_down (dev_log t) - {b. b < 5 \<and> (mouse_press s)[?b := False] ! b}"
    using assms(2) by (simp add: mouse_reset_down c)
  also have "?b \<in> \<dots>"
    using assms(2,4) by (simp add: t buttons_down_append)
  finally show ?thesis using t d by auto
qed

text \<open>
  When the left button is pressed again before the task that releases it runs, the task ends
  without clearing the timeout that names it; from then on, until the mouse moves relatively, a
  press of the right button is turned into a press and a release at once.
\<close>
theorem stale_left_timeout:
  assumes "cf_mouse cf" "length (mouse_press s) = 5" "0 < BUTTON_RIGHT li" "BUTTON_RIGHT li < 5"
    "BUTTON_RIGHT li \<noteq> BUTTON_LEFT li" "mouse_left_button_timeout s = Delay_Task i"
    "mouse_press s ! BUTTON_LEFT li" "\<not> mouse_press s ! BUTTON_RIGHT li"
  shows "mouse_left_button_timeout (left_release_task li s) = Delay_Task i \<and>
    dev_log (passthrough_mouse_button cf li False (BUTTON_RIGHT li) (left_release_task li s)) =
      dev_log s @ [Ev_Button (BUTTON_RIGHT li) False, Ev_Button (BUTTON_RIGHT li) True]"
  using assms by (simp add: left_release_task_def passthrough_mouse_button_def Let_def emit_def)

theorem stale_left_timeout_witness:
  "\<exists>s i. mouse_left_button_timeout (left_release_task li_example s) = Delay_Task i \<and>
     dev_log (passthrough_mouse_button cf_example li_example False 3 (left_release_task li_example s)) =
       [Ev_Button 3 False, Ev_Button 3 True]"
  using stale_left_timeout [of cf_example
      "dev_new\<lparr> mouse_left_button_timeout := Delay_Task 0, mouse_press := [False, True, False, False, False] \<rparr>"
      li_example 0]
  by (intro exI [of _ "dev_new\<lparr> mouse_left_button_timeout := Delay_Task 0,
        mouse_press := [False, True, False, False, False] \<rparr>"] exI [of _ 0])
    (simp add: cf_example_def li_example_def dev_new_def)

theorem scroll_conserved_witness:
  "sint (accumulated_vscroll (fold (passthrough_scroll cf_example) [100, 50, -40] dev_new)) +
     scroll_total (dev_log (fold (passthrough_scroll cf_example) [100, 50, -40] dev_new)) = 110"
  using scroll_conserved [of cf_example dev_new "[100, 50, -40]"]
  by (simp add: cf_example_def dev_new_def WHEEL_DELTA_def scroll_total_def)

theorem reset_strands_left_button_witness:
  "\<exists>t. 1 \<in> buttons_down (dev_log (reset_input_state cf_example (reset_cancel t))) \<and>
     delayed (reset_cancel t) = []"
  using reset_strands_left_button [of cf_example dev_new li_example
      "passthrough_mouse_button cf_example li_example True (BUTTON_LEFT li_example)
        (passthrough_mouse_button cf_example li_example False (BUTTON_LEFT li_example) dev_new)"]
  by (auto simp: cf_example_def li_example_def dev_new_def)

end
