(* ===== verification/Input_Gamepads.thy ===== *)
theory Input_Gamepads
  imports Input_Batch "HOL-Library.Multiset"
begin

text \<open>
  Gamepads of \<open>src/input.cpp\<close>: the mask of ids shared by all sessions, the slots of every input
  object, the map of inputs kept between the streams of one application, the tasks they leave in
  the task pool, and the emulation of the home button. What the platform is told is a log.
\<close>

unbundle bit_operations_syntax

section \<open>State\<close>

definition MAX_GAMEPADS :: nat where
  "MAX_GAMEPADS = 16"

definition BACK :: u32 where "BACK = 0x0020"
definition HOME :: u32 where "HOME = 0x0400"

record gamepad_state =
  gs_buttonFlags :: u32
  gs_lt :: u8
  gs_rt :: u8
  gs_lsX :: u16
  gs_lsY :: u16
  gs_rsX :: u16
  gs_rsY :: u16

definition gamepad_state_zero :: gamepad_state where
  "gamepad_state_zero = \<lparr> gs_buttonFlags = 0, gs_lt = 0, gs_rt = 0, gs_lsX = 0, gs_lsY = 0, gs_rsX = 0, gs_rsY = 0 \<rparr>"

datatype button_state = NONE | DOWN | UP

text \<open>A slot; the id \<open>-1\<close> is \<open>None\<close>, as is a null task.\<close>

record gamepad =
  gp_state :: gamepad_state
  back_timeout_id :: "nat option"
  gp_id :: "nat option"
  back_button_state :: button_state

definition gamepad_new :: gamepad where
  "gamepad_new = \<lparr> gp_state = gamepad_state_zero, back_timeout_id = None, gp_id = None,
     back_button_state = NONE \<rparr>"

datatype pad_event =
    Pad_Alloc nat nat ctrl_arrival
  | Pad_Free nat
  | Pad_Update "nat option" gamepad_state
  | Pad_Touch nat ctrl_touch
  | Pad_Motion nat ctrl_motion
  | Pad_Battery nat ctrl_battery
  | Pad_Cancel_Touches nat nat

text \<open>Tasks name their input by its index, as the code's hold a pointer to it.\<close>

datatype pad_task =
    Back_Timer nat nat
  | Reset_Gamepads nat
  | Rebind_Input nat
  | Destroy_Gamepads "nat list"
  | Free_Gamepad nat

record pad_config =
  pc_controller :: bool
  pc_back_button_timeout :: int

record pads =
  gamepadMask :: "bool list"
  pd_inputs :: "gamepad list list"
  pd_retained :: "string \<rightharpoonup> nat"
  pd_tasks :: "(nat \<times> pad_task) list"
  pd_next_task :: nat
  pd_pool_running :: bool
  pd_log :: "pad_event list"

definition pads_new :: pads where
  "pads_new = \<lparr> gamepadMask = replicate MAX_GAMEPADS False, pd_inputs = [], pd_retained = Map.empty,
     pd_tasks = [], pd_next_task = 0, pd_pool_running = True, pd_log = [] \<rparr>"

definition pad_emit :: "pad_event list \<Rightarrow> pads \<Rightarrow> pads" where
  "pad_emit es s = s\<lparr> pd_log := pd_log s @ es \<rparr>"

definition pad_of :: "nat \<Rightarrow> nat \<Rightarrow> pads \<Rightarrow> gamepad" where
  "pad_of i c s = pd_inputs s ! i ! c"

definition set_pad :: "nat \<Rightarrow> nat \<Rightarrow> gamepad \<Rightarrow> pads \<Rightarrow> pads" where
  "set_pad i c g s = s\<lparr> pd_inputs := (pd_inputs s)[i := (pd_inputs s ! i)[c := g]] \<rparr>"

definition pad_push :: "pad_task \<Rightarrow> pads \<Rightarrow> pads" where
  "pad_push t s = s\<lparr> pd_tasks := pd_tasks s @ [(pd_next_task s, t)], pd_next_task := pd_next_task s + 1 \<rparr>"

definition pad_cancel :: "nat \<Rightarrow> pads \<Rightarrow> pads" where
  "pad_cancel k s = s\<lparr> pd_tasks := filter (\<lambda>(j, t). j \<noteq> k) (pd_tasks s) \<rparr>"

section \<open>Ids\<close>

fun alloc_id :: "bool list \<Rightarrow> (nat \<times> bool list) option" where
  "alloc_id [] = None"
| "alloc_id (b # bs) =
     (if \<not> b then Some (0, True # bs)
      else map_option (\<lambda>(x, m). (Suc x, b # m)) (alloc_id bs))"

definition free_id :: "bool list \<Rightarrow> nat \<Rightarrow> bool list" where
  "free_id gamepads i = gamepads[i := False]"

definition free_gamepad :: "nat \<Rightarrow> pads \<Rightarrow> pads" where
  "free_gamepad i s = (pad_emit [Pad_Update (Some i) gamepad_state_zero, Pad_Free i] s)
     \<lparr> gamepadMask := free_id (gamepadMask s) i \<rparr>"

text \<open>\<open>refused\<close> is what the platform answers.\<close>

definition alloc_gamepad :: "bool \<Rightarrow> nat \<Rightarrow> nat \<Rightarrow> ctrl_arrival \<Rightarrow> pads \<Rightarrow> nat option \<times> pads" where
  "alloc_gamepad refused i c arrival s =
     (if c \<ge> length (pd_inputs s ! i) then (None, s)
      else case gp_id (pad_of i c s) of
        Some x \<Rightarrow> (Some x, s)
      | None \<Rightarrow>
          (case alloc_id (gamepadMask s) of
             None \<Rightarrow> (None, s)
           | Some (x, m) \<Rightarrow>
               let s1 = pad_emit [Pad_Alloc x c arrival] (s\<lparr> gamepadMask := m \<rparr>)
               in if refused then (None, s1\<lparr> gamepadMask := free_id m x \<rparr>)
                  else (Some x, set_pad i c ((pad_of i c s)\<lparr> gp_id := Some x \<rparr>) s1)))"

section \<open>Packets\<close>

definition pad_arrival :: "pad_config \<Rightarrow> bool \<Rightarrow> nat \<Rightarrow> ctrl_arrival \<Rightarrow> pads \<Rightarrow> pads" where
  "pad_arrival cf refused i p s =
     (if \<not> pc_controller cf then s else snd (alloc_gamepad refused i (unat (ca_number p)) p s))"

definition pad_touch :: "pad_config \<Rightarrow> nat \<Rightarrow> ctrl_touch \<Rightarrow> pads \<Rightarrow> pads" where
  "pad_touch cf i p s =
     (if \<not> pc_controller cf then s
      else if unat (ct_number p) \<ge> length (pd_inputs s ! i) then s
      else case gp_id (pad_of i (unat (ct_number p)) s) of
        None \<Rightarrow> s
      | Some x \<Rightarrow> pad_emit [Pad_Touch x p] s)"

definition pad_motion :: "pad_config \<Rightarrow> nat \<Rightarrow> ctrl_motion \<Rightarrow> pads \<Rightarrow> pads" where
  "pad_motion cf i p s =
     (if \<not> pc_controller cf then s
      else if unat (cm_number p) \<ge> length (pd_inputs s ! i) then s
      else case gp_id (pad_of i (unat (cm_number p)) s) of
        None \<Rightarrow> s
      | Some x \<Rightarrow> pad_emit [Pad_Motion x p] s)"

definition pad_battery :: "pad_config \<Rightarrow> nat \<Rightarrow> ctrl_battery \<Rightarrow> pads \<Rightarrow> pads" where
  "pad_battery cf i p s =
     (if \<not> pc_controller cf then s
      else if unat (cb_number p) \<ge> length (pd_inputs s ! i) then s
      else case gp_id (pad_of i (unat (cb_number p)) s) of
        None \<Rightarrow> s
      | Some x \<Rightarrow> pad_emit [Pad_Battery x p] s)"

definition packet_state :: "multi_controller \<Rightarrow> gamepad_state" where
  "packet_state p = \<lparr> gs_buttonFlags = ucast (mc_flags p) OR push_bit 16 (ucast (mc_flags2 p)),
     gs_lt = mc_left_trigger p, gs_rt = mc_right_trigger p, gs_lsX = mc_left_x p, gs_lsY = mc_left_y p,
     gs_rsX = mc_right_x p, gs_rsY = mc_right_y p \<rparr>"

text \<open>While the home button is emulated the client's back button is masked.\<close>

definition back_filter :: "button_state \<Rightarrow> u32 \<Rightarrow> button_state \<times> u32" where
  "back_filter b flags =
     (case b of
        UP \<Rightarrow> (if BACK AND flags = 0 then NONE else UP, flags AND NOT BACK)
      | DOWN \<Rightarrow> (if BACK AND flags \<noteq> 0 then NONE else DOWN, flags OR BACK)
      | NONE \<Rightarrow> (NONE, flags))"

text \<open>A press of the back button starts the timer, its release cancels it.\<close>

definition back_timer :: "pad_config \<Rightarrow> nat \<Rightarrow> nat \<Rightarrow> u32 \<Rightarrow> u32 \<Rightarrow> pads \<Rightarrow> pads" where
  "back_timer cf i c old new s =
     (if BACK AND (new XOR old) = 0 then s
      else if BACK AND new \<noteq> 0 then
        (if pc_back_button_timeout cf \<ge> 0
         then set_pad i c ((pad_of i c s)\<lparr> back_timeout_id := Some (pd_next_task s) \<rparr>) (pad_push (Back_Timer i c) s)
         else s)
      else case back_timeout_id (pad_of i c s) of
        None \<Rightarrow> s
      | Some k \<Rightarrow> set_pad i c ((pad_of i c s)\<lparr> back_timeout_id := None \<rparr>) (pad_cancel k s))"

definition pad_update :: "pad_config \<Rightarrow> nat \<Rightarrow> nat \<Rightarrow> multi_controller \<Rightarrow> pads \<Rightarrow> pads" where
  "pad_update cf i c p s =
     (let g = pad_of i c s;
          (b, flags) = back_filter (back_button_state g) (gs_buttonFlags (packet_state p));
          st = (packet_state p)\<lparr> gs_buttonFlags := flags \<rparr>;
          s1 = set_pad i c (g\<lparr> back_button_state := b \<rparr>) s;
          s2 = back_timer cf i c (gs_buttonFlags (gp_state g)) flags s1;
          s3 = pad_emit [Pad_Update (gp_id g) st] s2
      in set_pad i c ((pad_of i c s3)\<lparr> gp_state := st \<rparr>) s3)"

definition no_arrival :: ctrl_arrival where
  "no_arrival = \<lparr> ca_number = 0, ca_type = 0, ca_capabilities = 0, ca_buttons = 0 \<rparr>"

definition pad_multi :: "pad_config \<Rightarrow> bool \<Rightarrow> nat \<Rightarrow> multi_controller \<Rightarrow> pads \<Rightarrow> pads" where
  "pad_multi cf refused i p s =
     (let n = sint (mc_number p); c = nat n
      in if \<not> pc_controller cf then s
         else if n < 0 \<or> c \<ge> length (pd_inputs s ! i) then s
         else
           let active = bit (mc_mask p) c; g = pad_of i c s
           in if active \<and> gp_id g = None then
                (case alloc_gamepad refused i c no_arrival s of
                   (None, s1) \<Rightarrow> s1
                 | (Some _, s1) \<Rightarrow> pad_update cf i c p s1)
              else if \<not> active \<and> gp_id g \<noteq> None then
                set_pad i c (g\<lparr> gp_id := None \<rparr>) (free_gamepad (the (gp_id g)) s)
              else if gp_id g = None then s
              else pad_update cf i c p s)"

fun passthrough_pad :: "pad_config \<Rightarrow> bool \<Rightarrow> nat \<Rightarrow> packet \<Rightarrow> pads \<Rightarrow> pads" where
  "passthrough_pad cf r i (Multi_Controller p) s = pad_multi cf r i p s"
| "passthrough_pad cf r i (Ctrl_Arrival p) s = pad_arrival cf r i p s"
| "passthrough_pad cf r i (Ctrl_Touch p) s = pad_touch cf i p s"
| "passthrough_pad cf r i (Ctrl_Motion p) s = pad_motion cf i p s"
| "passthrough_pad cf r i (Ctrl_Battery p) s = pad_battery cf i p s"
| "passthrough_pad cf r i _ s = s"

section \<open>Tasks\<close>

text \<open>The home button emulation: back goes up, home down and, after a sleep, up again.\<close>

definition back_timer_task :: "nat \<Rightarrow> nat \<Rightarrow> pads \<Rightarrow> pads" where
  "back_timer_task i c s =
     (let g = pad_of i c s;
          st1 = (gp_state g)\<lparr> gs_buttonFlags := gs_buttonFlags (gp_state g) AND NOT BACK \<rparr>;
          st2 = st1\<lparr> gs_buttonFlags := gs_buttonFlags st1 OR HOME \<rparr>;
          st3 = st2\<lparr> gs_buttonFlags := gs_buttonFlags st2 AND NOT HOME \<rparr>;
          s1 = pad_emit [Pad_Update (gp_id g) st1, Pad_Update (gp_id g) st2, Pad_Update (gp_id g) st3] s
      in set_pad i c (g\<lparr> back_button_state := UP, gp_state := st3, back_timeout_id := None \<rparr>) s1)"

definition cancel_back_timer :: "nat \<Rightarrow> nat \<Rightarrow> pads \<Rightarrow> pads" where
  "cancel_back_timer i c s =
     (case back_timeout_id (pad_of i c s) of
        None \<Rightarrow> s
      | Some k \<Rightarrow> set_pad i c ((pad_of i c s)\<lparr> back_timeout_id := None \<rparr>) (pad_cancel k s))"

definition destroy_slot :: "nat \<Rightarrow> nat \<Rightarrow> pads \<Rightarrow> pads" where
  "destroy_slot i c s =
     (let s1 = cancel_back_timer i c s;
          s2 = (case gp_id (pad_of i c s1) of
              None \<Rightarrow> s1
            | Some x \<Rightarrow> set_pad i c ((pad_of i c s1)\<lparr> gp_id := None \<rparr>) (free_gamepad x s1))
      in set_pad i c ((pad_of i c s2)\<lparr> gp_state := gamepad_state_zero, back_button_state := NONE \<rparr>) s2)"

definition destroy_gamepads :: "nat \<Rightarrow> pads \<Rightarrow> pads" where
  "destroy_gamepads i s = fold (destroy_slot i) [0..<length (pd_inputs s ! i)] s"

definition reset_slot :: "nat \<Rightarrow> nat \<Rightarrow> pads \<Rightarrow> pads" where
  "reset_slot i c s =
     (let s1 = cancel_back_timer i c s;
          s2 = (case gp_id (pad_of i c s1) of
              None \<Rightarrow> s1
            | Some x \<Rightarrow> pad_emit [Pad_Update (Some x) gamepad_state_zero, Pad_Cancel_Touches x c] s1)
      in set_pad i c ((pad_of i c s2)\<lparr> gp_state := gamepad_state_zero, back_button_state := NONE \<rparr>) s2)"

definition reset_gamepads :: "nat \<Rightarrow> pads \<Rightarrow> pads" where
  "reset_gamepads i s = fold (reset_slot i) [0..<length (pd_inputs s ! i)] s"

text \<open>\<open>refused\<close> says for which ids the platform cannot move the feedback queue.\<close>

definition rebind_slot :: "(nat \<Rightarrow> bool) \<Rightarrow> nat \<Rightarrow> nat \<Rightarrow> pads \<Rightarrow> pads" where
  "rebind_slot refused i c s =
     (case gp_id (pad_of i c s) of
        None \<Rightarrow> s
      | Some x \<Rightarrow>
          if refused x
          then set_pad i c ((pad_of i c s)\<lparr> gp_id := None \<rparr>) (s\<lparr> gamepadMask := free_id (gamepadMask s) x \<rparr>)
          else s)"

definition rebind_input :: "(nat \<Rightarrow> bool) \<Rightarrow> nat \<Rightarrow> pads \<Rightarrow> pads" where
  "rebind_input refused i s = fold (rebind_slot refused i) [0..<length (pd_inputs s ! i)] s"

fun run_pad_task :: "(nat \<Rightarrow> bool) \<Rightarrow> pad_task \<Rightarrow> pads \<Rightarrow> pads" where
  "run_pad_task r (Back_Timer i c) s = back_timer_task i c s"
| "run_pad_task r (Reset_Gamepads i) s = reset_gamepads i s"
| "run_pad_task r (Rebind_Input i) s = rebind_input r i s"
| "run_pad_task r (Destroy_Gamepads is) s = fold destroy_gamepads is s"
| "run_pad_task r (Free_Gamepad x) s = free_gamepad x s"

definition dispatch_input_task :: "(nat \<Rightarrow> bool) \<Rightarrow> pad_task \<Rightarrow> pads \<Rightarrow> pads" where
  "dispatch_input_task r t s = (if pd_pool_running s then pad_push t s else run_pad_task r t s)"

section \<open>Sessions\<close>

text \<open>The input of a session: kept from an earlier stream, or new.\<close>

definition alloc_input :: "(nat \<Rightarrow> bool) \<Rightarrow> string \<Rightarrow> pads \<Rightarrow> nat \<times> pads" where
  "alloc_input r session_id s =
     (case pd_retained s session_id of
        Some i \<Rightarrow> (i, dispatch_input_task r (Rebind_Input i) s)
      | None \<Rightarrow> (length (pd_inputs s),
          s\<lparr> pd_inputs := pd_inputs s @ [replicate MAX_GAMEPADS gamepad_new],
             pd_retained := (pd_retained s)(session_id \<mapsto> length (pd_inputs s)) \<rparr>))"

text \<open>All retained inputs, listed in the order of the map.\<close>

definition terminate_gamepads :: "(nat \<Rightarrow> bool) \<Rightarrow> nat list \<Rightarrow> pads \<Rightarrow> pads" where
  "terminate_gamepads r order s =
     (let s1 = s\<lparr> pd_retained := Map.empty \<rparr>
      in if order = [] then s1 else dispatch_input_task r (Destroy_Gamepads order) s1)"

definition terminate_session_gamepads :: "(nat \<Rightarrow> bool) \<Rightarrow> string \<Rightarrow> pads \<Rightarrow> pads" where
  "terminate_session_gamepads r session_id s =
     (case pd_retained s session_id of
        None \<Rightarrow> s
      | Some i \<Rightarrow> dispatch_input_task r (Destroy_Gamepads [i])
          (s\<lparr> pd_retained := (pd_retained s)(session_id := None) \<rparr>))"

text \<open>The destructor of a slot whose input is no longer referenced.\<close>

definition gamepad_destructor :: "(nat \<Rightarrow> bool) \<Rightarrow> nat \<Rightarrow> nat \<Rightarrow> pads \<Rightarrow> pads" where
  "gamepad_destructor r i c s =
     (case gp_id (pad_of i c s) of
        None \<Rightarrow> s
      | Some x \<Rightarrow> set_pad i c ((pad_of i c s)\<lparr> gp_id := None \<rparr>) (dispatch_input_task r (Free_Gamepad x) s))"

definition input_destructor :: "(nat \<Rightarrow> bool) \<Rightarrow> nat \<Rightarrow> pads \<Rightarrow> pads" where
  "input_destructor r i s = fold (gamepad_destructor r i) [0..<length (pd_inputs s ! i)] s"

text \<open>The shutdown of the input system.\<close>

definition deinit_input :: "nat list \<Rightarrow> pads \<Rightarrow> pads" where
  "deinit_input order s = fold destroy_gamepads order (s\<lparr> pd_retained := Map.empty \<rparr>)"

text \<open>
  Packets, tasks of the pool, and the calls of sessions in any order. An input is destroyed when
  neither the map nor a task refers to it.
\<close>

fun task_inputs :: "pad_task \<Rightarrow> nat set" where
  "task_inputs (Back_Timer i c) = {i}"
| "task_inputs (Reset_Gamepads i) = {i}"
| "task_inputs (Rebind_Input i) = {i}"
| "task_inputs (Destroy_Gamepads is) = set is"
| "task_inputs (Free_Gamepad x) = {}"

inductive pad_step :: "pad_config \<Rightarrow> pads \<Rightarrow> pads \<Rightarrow> bool" for cf where
  Packet: "i < length (pd_inputs s) \<Longrightarrow> pad_step cf s (passthrough_pad cf refused i p s)"
| Task: "(k, t) \<in> set (pd_tasks s) \<Longrightarrow> pad_step cf s (run_pad_task r t (pad_cancel k s))"
| Reset: "i < length (pd_inputs s) \<Longrightarrow> pad_step cf s (pad_push (Reset_Gamepads i) s)"
| Alloc: "pad_step cf s (snd (alloc_input r sid s))"
| Terminate: "set order = ran (pd_retained s) \<Longrightarrow> pad_step cf s (terminate_gamepads r order s)"
| Terminate_Session: "pad_step cf s (terminate_session_gamepads r sid s)"
| Destructor: "i < length (pd_inputs s) \<Longrightarrow> i \<notin> ran (pd_retained s) \<Longrightarrow>
    (\<forall>(k, t) \<in> set (pd_tasks s). i \<notin> task_inputs t) \<Longrightarrow> pad_step cf s (input_destructor r i s)"
| Deinit: "set order = ran (pd_retained s) \<Longrightarrow> pad_step cf s (deinit_input order s)"
| Pool_Stops: "pad_step cf s (s\<lparr> pd_pool_running := False \<rparr>)"

section \<open>Ids in use\<close>

definition opt_mset :: "'a option \<Rightarrow> 'a multiset" where
  "opt_mset x = (case x of None \<Rightarrow> {#} | Some y \<Rightarrow> {#y#})"

definition ids_of :: "gamepad list \<Rightarrow> nat multiset" where
  "ids_of gs = sum_list (map (\<lambda>g. opt_mset (gp_id g)) gs)"

fun freed_id :: "pad_task \<Rightarrow> nat option" where
  "freed_id (Free_Gamepad x) = Some x"
| "freed_id _ = None"

definition owned :: "pads \<Rightarrow> nat multiset" where
  "owned s = sum_list (map ids_of (pd_inputs s)) + sum_list (map (\<lambda>(k, t). opt_mset (freed_id t)) (pd_tasks s))"

definition used :: "bool list \<Rightarrow> nat multiset" where
  "used m = mset (filter (\<lambda>i. m ! i) [0..<length m])"

lemma opt_mset_simps [simp]: "opt_mset None = {#}" "opt_mset (Some x) = {#x#}"
  by (simp_all add: opt_mset_def)

lemma count_used: "count (used m) i = (if i < length m \<and> m ! i then 1 else 0)"
proof -
  have "distinct (filter (\<lambda>i. m ! i) [0..<length m])" by simp
  then show ?thesis by (simp add: used_def distinct_count_atmost_1)
qed

lemma used_set: "i < length m \<Longrightarrow> \<not> m ! i \<Longrightarrow> used (m[i := True]) = add_mset i (used m)"
  by (rule multiset_eqI) (auto simp: count_used nth_list_update)

lemma used_clear: "i < length m \<Longrightarrow> used (free_id m i) = used m - {#i#}"
  by (rule multiset_eqI) (auto simp: count_used nth_list_update free_id_def)

lemma in_used: "i \<in># used m \<longleftrightarrow> i < length m \<and> m ! i"
  by (auto simp: used_def)

lemma sum_list_update_add:
  fixes f :: "'a \<Rightarrow> 'b :: cancel_comm_monoid_add"
  assumes "i < length xs"
  shows "sum_list (map f (xs[i := x])) + f (xs ! i) = sum_list (map f xs) + f x"
  using assms
proof (induction xs arbitrary: i)
  case (Cons y ys)
  then show ?case by (cases i) (simp_all add: ac_simps)
qed simp

lemma alloc_id_Some:
  "alloc_id m = Some (x, m') \<Longrightarrow> x < length m \<and> \<not> m ! x \<and> (\<forall>y < x. m ! y) \<and> m' = m[x := True]"
proof (induction m arbitrary: x m')
  case (Cons b bs)
  show ?case
  proof (cases b)
    case True
    with Cons.prems obtain y m'' where y: "alloc_id bs = Some (y, m'')" "x = Suc y" "m' = b # m''"
      by (auto split: option.splits)
    from Cons.IH [OF y(1)] y True show ?thesis by (auto simp: nth_Cons split: nat.splits)
  next
    case False
    with Cons.prems show ?thesis by simp
  qed
qed simp

lemma alloc_id_None: "alloc_id m = None \<longleftrightarrow> (\<forall>b \<in> set m. b)"
  by (induction m) auto

section \<open>Invariant\<close>

text \<open>
  A slot's timer, if it still waits, is not the task that frees an id. The ids in \<open>X\<close> are taken
  but in nobody's hands, which is so only inside an operation.
\<close>

definition timer_ok :: "pads \<Rightarrow> gamepad \<Rightarrow> bool" where
  "timer_ok s g \<longleftrightarrow> (\<forall>k. back_timeout_id g = Some k \<longrightarrow> k < pd_next_task s \<and>
     (\<forall>t. (k, t) \<in> set (pd_tasks s) \<longrightarrow> freed_id t = None))"

definition pads_okm :: "nat multiset \<Rightarrow> pads \<Rightarrow> bool" where
  "pads_okm X s \<longleftrightarrow> length (gamepadMask s) = MAX_GAMEPADS \<and>
     (\<forall>gs \<in> set (pd_inputs s). length gs = MAX_GAMEPADS \<and> (\<forall>g \<in> set gs. timer_ok s g)) \<and>
     owned s + X = used (gamepadMask s) \<and>
     ran (pd_retained s) \<subseteq> {..<length (pd_inputs s)} \<and>
     distinct (map fst (pd_tasks s)) \<and>
     (\<forall>(k, t) \<in> set (pd_tasks s). k < pd_next_task s \<and> task_inputs t \<subseteq> {..<length (pd_inputs s)})"

abbreviation pads_ok :: "pads \<Rightarrow> bool" where
  "pads_ok \<equiv> pads_okm {#}"

lemma owned_set_pad:
  assumes "i < length (pd_inputs s)" "c < length (pd_inputs s ! i)"
  shows "owned (set_pad i c g s) + opt_mset (gp_id (pad_of i c s)) = owned s + opt_mset (gp_id g)"
proof -
  let ?gs = "pd_inputs s ! i"
  have 1: "ids_of (?gs[c := g]) + opt_mset (gp_id (?gs ! c)) = ids_of ?gs + opt_mset (gp_id g)"
    unfolding ids_of_def by (rule sum_list_update_add [OF assms(2)])
  have 2: "sum_list (map ids_of ((pd_inputs s)[i := ?gs[c := g]])) + ids_of ?gs =
      sum_list (map ids_of (pd_inputs s)) + ids_of (?gs[c := g])"
    by (rule sum_list_update_add [OF assms(1)])
  let ?T = "sum_list (map (\<lambda>(k, t). opt_mset (freed_id t)) (pd_tasks s))"
  let ?N = "sum_list (map ids_of ((pd_inputs s)[i := ?gs[c := g]]))" and ?O = "sum_list (map ids_of (pd_inputs s))"
  have "(?N + opt_mset (gp_id (?gs ! c))) + ids_of ?gs = (?O + opt_mset (gp_id g)) + ids_of ?gs"
    using 1 2 by (metis add.commute add.left_commute)
  then have n: "?N + opt_mset (gp_id (?gs ! c)) = ?O + opt_mset (gp_id g)" by simp
  show ?thesis using arg_cong [OF n, of "\<lambda>x. x + ?T"] by (simp add: owned_def set_pad_def pad_of_def ac_simps)
qed

lemma timer_ok_set_pad [simp]: "timer_ok (set_pad i c g s) = timer_ok s"
  by (simp add: timer_ok_def set_pad_def fun_eq_iff)

lemma set_pad_elem:
  assumes "gs \<in> set (pd_inputs (set_pad i c g s))" "i < length (pd_inputs s)"
  shows "gs \<in> set (pd_inputs s) \<or> gs = (pd_inputs s ! i)[c := g]"
  using assms set_update_subset_insert by (fastforce simp: set_pad_def)

lemma okm_input:
  assumes "pads_okm X s" "i < length (pd_inputs s)"
  shows "length (pd_inputs s ! i) = MAX_GAMEPADS" "\<forall>g \<in> set (pd_inputs s ! i). timer_ok s g"
  using assms nth_mem [OF assms(2)] unfolding pads_okm_def by blast+

lemma timer_ok_pad_of:
  assumes "pads_okm X s" "i < length (pd_inputs s)" "c < MAX_GAMEPADS"
  shows "timer_ok s (pad_of i c s)"
  using okm_input [OF assms(1,2)] assms(3) by (simp add: pad_of_def)

lemma okm_set_pad_inputs:
  assumes ok: "pads_okm X s" and i: "i < length (pd_inputs s)" and g: "timer_ok s g"
  shows "\<forall>gs \<in> set (pd_inputs (set_pad i c g s)). length gs = MAX_GAMEPADS \<and> (\<forall>x \<in> set gs. timer_ok s x)"
proof
  fix gs assume "gs \<in> set (pd_inputs (set_pad i c g s))"
  from set_pad_elem [OF this i]
  show "length gs = MAX_GAMEPADS \<and> (\<forall>x \<in> set gs. timer_ok s x)"
  proof
    assume "gs \<in> set (pd_inputs s)" with ok show ?thesis by (simp add: pads_okm_def)
  next
    assume gs: "gs = (pd_inputs s ! i)[c := g]"
    have "set gs \<subseteq> insert g (set (pd_inputs s ! i))" unfolding gs by (rule set_update_subset_insert)
    with okm_input [OF ok i] g gs show ?thesis by auto
  qed
qed

lemma okm_set_pad:
  assumes ok: "pads_okm (opt_mset (gp_id g) + X) s" and i: "i < length (pd_inputs s)" "c < MAX_GAMEPADS"
    and g: "timer_ok s g"
  shows "pads_okm (opt_mset (gp_id (pad_of i c s)) + X) (set_pad i c g s)"
proof -
  have "owned (set_pad i c g s) + (opt_mset (gp_id (pad_of i c s)) + X) = used (gamepadMask s)"
    using owned_set_pad [OF i(1), of c g] i(2) okm_input(1) [OF ok i(1)] ok unfolding pads_okm_def
    by (metis add.assoc)
  with okm_set_pad_inputs [OF ok i(1) g] ok show ?thesis by (simp add: pads_okm_def) (simp add: set_pad_def)
qed

lemma okm_set_pad_same:
  assumes ok: "pads_okm X s" and i: "i < length (pd_inputs s)" "c < MAX_GAMEPADS"
    and g: "gp_id g = gp_id (pad_of i c s)" "timer_ok s g"
  shows "pads_okm X (set_pad i c g s)"
proof -
  have "owned (set_pad i c g s) = owned s"
    using owned_set_pad [OF i(1), of c g] g(1) i(2) okm_input(1) [OF ok i(1)] by simp
  with okm_set_pad_inputs [OF ok i(1) g(2)] ok show ?thesis by (simp add: pads_okm_def) (simp add: set_pad_def)
qed

lemma okm_emit [simp]: "pads_okm X (pad_emit es s) = pads_okm X s"
  by (simp add: pads_okm_def pad_emit_def owned_def timer_ok_def)

lemma emit_sel [simp]: "pad_of i c (pad_emit es s) = pad_of i c s" "pd_inputs (pad_emit es s) = pd_inputs s"
  "gamepadMask (pad_emit es s) = gamepadMask s"
  by (simp_all add: pad_of_def pad_emit_def)

lemma okm_push:
  assumes "pads_okm (opt_mset (freed_id t) + X) s" "task_inputs t \<subseteq> {..<length (pd_inputs s)}"
  shows "pads_okm X (pad_push t s)"
proof -
  have fresh: "pd_next_task s \<notin> fst ` set (pd_tasks s)" using assms(1) by (fastforce simp: pads_okm_def)
  have "timer_ok (pad_push t s) g" if "timer_ok s g" for g
    using that by (auto simp: timer_ok_def pad_push_def)
  moreover have "owned (pad_push t s) = owned s + opt_mset (freed_id t)"
    by (simp add: owned_def pad_push_def ac_simps)
  ultimately show ?thesis using assms fresh by (auto simp: pads_okm_def) (auto simp: pad_push_def ac_simps)
qed

lemma filter_absent: "k \<notin> fst ` set xs \<Longrightarrow> filter (\<lambda>(j, t). j \<noteq> k) xs = xs"
  by (induction xs) auto

lemma cancel_ids:
  assumes "distinct (map fst xs)" "(k, t) \<in> set xs"
  shows "sum_list (map (\<lambda>(k, t). opt_mset (freed_id t)) (filter (\<lambda>(j, t). j \<noteq> k) xs)) + opt_mset (freed_id t) =
    sum_list (map (\<lambda>(k, t). opt_mset (freed_id t)) xs)"
  using assms
proof (induction xs)
  case (Cons x xs)
  obtain j u where x: "x = (j, u)" by (cases x)
  show ?case
  proof (cases "j = k")
    case True
    with Cons.prems x have "u = t" "k \<notin> fst ` set xs" by force+
    with True x show ?thesis by (simp add: filter_absent)
  next
    case False
    with Cons x show ?thesis by (simp add: ac_simps)
  qed
qed simp

lemma owned_cancel:
  assumes "pads_okm X s" "(k, t) \<in> set (pd_tasks s)"
  shows "owned (pad_cancel k s) + opt_mset (freed_id t) = owned s"
  using cancel_ids [of "pd_tasks s" k t] assms by (simp add: owned_def pad_cancel_def pads_okm_def add.assoc)

lemma okm_cancel_task:
  assumes "pads_okm X s" "(k, t) \<in> set (pd_tasks s)"
  shows "pads_okm (opt_mset (freed_id t) + X) (pad_cancel k s)"
proof -
  have "timer_ok (pad_cancel k s) g" if "timer_ok s g" for g
    using that by (auto simp: timer_ok_def pad_cancel_def)
  with assms owned_cancel [OF assms] show ?thesis
    by (auto simp: pads_okm_def ac_simps) (auto simp: pad_cancel_def ac_simps distinct_map_filter)
qed

lemma okm_cancel:
  assumes "pads_okm X s" "\<And>t. (k, t) \<in> set (pd_tasks s) \<Longrightarrow> freed_id t = None"
  shows "pads_okm X (pad_cancel k s)"
proof (cases "k \<in> fst ` set (pd_tasks s)")
  case True
  then obtain t where "(k, t) \<in> set (pd_tasks s)" by force
  with okm_cancel_task [OF assms(1) this] assms(2) show ?thesis by simp
next
  case False
  then have "pad_cancel k s = s" by (simp add: pad_cancel_def filter_absent)
  with assms show ?thesis by simp
qed

lemma okm_free:
  assumes "pads_okm (add_mset x X) s"
  shows "pads_okm X (free_gamepad x s)"
proof -
  have "x \<in># used (gamepadMask s)" using assms by (metis pads_okm_def union_iff union_single_eq_member)
  then have "x < length (gamepadMask s)" by (simp add: in_used)
  moreover have "used (gamepadMask s) = add_mset x (owned s + X)" using assms by (simp add: pads_okm_def)
  ultimately have "used (free_id (gamepadMask s) x) = owned s + X"
    using assms by (simp add: pads_okm_def used_clear)
  with assms show ?thesis
    by (simp add: pads_okm_def free_gamepad_def pad_emit_def owned_def timer_ok_def) (simp add: free_id_def)
qed

section \<open>Every operation keeps the invariant\<close>

lemma set_pad_sel [simp]: "length (pd_inputs (set_pad i c g s)) = length (pd_inputs s)"
  "pd_tasks (set_pad i c g s) = pd_tasks s" "pd_next_task (set_pad i c g s) = pd_next_task s"
  "gamepadMask (set_pad i c g s) = gamepadMask s" "pd_log (set_pad i c g s) = pd_log s"
  by (simp_all add: set_pad_def)

lemma push_sel [simp]: "pd_inputs (pad_push t s) = pd_inputs s" "pad_of i c (pad_push t s) = pad_of i c s"
  "pd_log (pad_push t s) = pd_log s"
  by (simp_all add: pad_push_def pad_of_def)

lemma cancel_sel [simp]: "pd_inputs (pad_cancel k s) = pd_inputs s" "pad_of i c (pad_cancel k s) = pad_of i c s"
  "pd_log (pad_cancel k s) = pd_log s"
  by (simp_all add: pad_cancel_def pad_of_def)

lemma free_sel [simp]: "pd_inputs (free_gamepad x s) = pd_inputs s" "pad_of i c (free_gamepad x s) = pad_of i c s"
  "timer_ok (free_gamepad x s) = timer_ok s"
  by (simp_all add: free_gamepad_def pad_emit_def pad_of_def timer_ok_def fun_eq_iff)

lemma pad_of_set [simp]:
  "i < length (pd_inputs s) \<Longrightarrow> c < length (pd_inputs s ! i) \<Longrightarrow> pad_of i c (set_pad i c g s) = g"
  by (simp add: pad_of_def set_pad_def)

lemma timer_ok_None [simp]: "timer_ok s (g\<lparr> back_timeout_id := None \<rparr>)"
  by (simp add: timer_ok_def)

lemma timer_ok_fields [simp]:
  "timer_ok s (g\<lparr> gp_state := st \<rparr>) = timer_ok s g"
  "timer_ok s (g\<lparr> gp_id := x \<rparr>) = timer_ok s g"
  "timer_ok s (g\<lparr> back_button_state := b \<rparr>) = timer_ok s g"
  by (simp_all add: timer_ok_def)

lemma set_pad_beyond: "pads_okm X s \<Longrightarrow> i < length (pd_inputs s) \<Longrightarrow> \<not> c < MAX_GAMEPADS \<Longrightarrow> set_pad i c g s = s"
  using okm_input(1) [of X s i] by (simp add: set_pad_def list_update_beyond)

text \<open>An operation on the slots of one of \<open>n\<close> inputs, whatever ids are in passing.\<close>

definition keeps :: "nat \<Rightarrow> (pads \<Rightarrow> pads) \<Rightarrow> bool" where
  "keeps n f \<longleftrightarrow> (\<forall>X s. pads_okm X s \<longrightarrow> length (pd_inputs s) = n \<longrightarrow>
     pads_okm X (f s) \<and> length (pd_inputs (f s)) = n)"

lemma keepsI:
  "(\<And>X s. pads_okm X s \<Longrightarrow> length (pd_inputs s) = n \<Longrightarrow> pads_okm X (f s) \<and> length (pd_inputs (f s)) = n) \<Longrightarrow> keeps n f"
  by (simp add: keeps_def)

lemma keepsD: "keeps n f \<Longrightarrow> pads_okm X s \<Longrightarrow> length (pd_inputs s) = n \<Longrightarrow> pads_okm X (f s)"
  "keeps n f \<Longrightarrow> pads_okm X s \<Longrightarrow> length (pd_inputs s) = n \<Longrightarrow> length (pd_inputs (f s)) = n"
  by (simp_all add: keeps_def)

lemma keeps_comp: "keeps n f \<Longrightarrow> keeps n g \<Longrightarrow> keeps n (g \<circ> f)"
  unfolding keeps_def comp_def by blast

lemma keeps_fold: "(\<And>x. x \<in> set xs \<Longrightarrow> keeps n (f x)) \<Longrightarrow> keeps n (fold f xs)"
proof (induction xs)
  case (Cons x xs)
  have "keeps n (fold f xs \<circ> f x)" using Cons by (intro keeps_comp) simp_all
  then show ?case by (simp add: comp_def)
qed (simp add: keeps_def)

lemma okm_set_fields:
  assumes "pads_okm X s" "i < length (pd_inputs s)" "c < MAX_GAMEPADS"
  shows "pads_okm X (set_pad i c ((pad_of i c s)\<lparr> gp_state := st, back_button_state := b \<rparr>) s)"
    "pads_okm X (set_pad i c ((pad_of i c s)\<lparr> gp_state := st \<rparr>) s)"
    "pads_okm X (set_pad i c ((pad_of i c s)\<lparr> back_button_state := b \<rparr>) s)"
    "pads_okm X (set_pad i c ((pad_of i c s)\<lparr> back_timeout_id := None \<rparr>) s)"
  using okm_set_pad_same [OF assms] timer_ok_pad_of [OF assms] by simp_all

lemma okm_clear_id:
  assumes "pads_okm X s" "i < length (pd_inputs s)" "c < MAX_GAMEPADS" "gp_id (pad_of i c s) = Some x"
  shows "pads_okm (add_mset x X) (set_pad i c ((pad_of i c s)\<lparr> gp_id := None \<rparr>) s)"
  using okm_set_pad [of "(pad_of i c s)\<lparr> gp_id := None \<rparr>" X s i c] timer_ok_pad_of [OF assms(1-3)] assms by simp

lemma set_pad_free: "set_pad i c g (free_gamepad x s) = free_gamepad x (set_pad i c g s)"
  by (simp add: set_pad_def free_gamepad_def pad_emit_def)

lemma keeps_cancel_timer:
  assumes "i < n" "c < MAX_GAMEPADS"
  shows "keeps n (cancel_back_timer i c)"
proof (rule keepsI)
  fix X s assume ok: "pads_okm X s" and n: "length (pd_inputs s) = n"
  show "pads_okm X (cancel_back_timer i c s) \<and> length (pd_inputs (cancel_back_timer i c s)) = n"
  proof (cases "back_timeout_id (pad_of i c s)")
    case (Some k)
    have "pads_okm X (pad_cancel k s)"
      using timer_ok_pad_of [OF ok] assms n Some by (intro okm_cancel [OF ok]) (auto simp: timer_ok_def)
    then have "pads_okm X (set_pad i c ((pad_of i c (pad_cancel k s))\<lparr> back_timeout_id := None \<rparr>) (pad_cancel k s))"
      by (rule okm_set_fields(4)) (use assms n in simp_all)
    with Some n show ?thesis by (simp add: cancel_back_timer_def)
  qed (use ok n in \<open>simp add: cancel_back_timer_def\<close>)
qed

lemma keeps_slots:
  assumes "i < n" "c < MAX_GAMEPADS"
  shows "keeps n (destroy_slot i c)" "keeps n (reset_slot i c)" "keeps n (rebind_slot r i c)"
proof -
  have tail: "pads_okm X (set_pad i c ((pad_of i c t)\<lparr> gp_state := gamepad_state_zero, back_button_state := NONE \<rparr>) t)"
    if "pads_okm X t" "length (pd_inputs t) = n" for X t
    using okm_set_fields(1) [of X t i c] that assms by simp
  have clear: "pads_okm X (set_pad i c ((pad_of i c t)\<lparr> gp_id := None \<rparr>) (free_gamepad x t))"
    if "pads_okm X t" "length (pd_inputs t) = n" "gp_id (pad_of i c t) = Some x" for X t x
    unfolding set_pad_free by (intro okm_free okm_clear_id) (use that assms in simp_all)
  show "keeps n (destroy_slot i c)"
    using keepsD [OF keeps_cancel_timer [OF assms]] tail clear
    by (intro keepsI) (simp add: destroy_slot_def Let_def split: option.split)
  show "keeps n (reset_slot i c)"
    using keepsD [OF keeps_cancel_timer [OF assms]] tail
    by (intro keepsI) (simp add: reset_slot_def Let_def split: option.split)
  show "keeps n (rebind_slot r i c)"
  proof (rule keepsI)
    fix X s assume ok: "pads_okm X s" "length (pd_inputs s) = n"
    have "pads_okm X (set_pad i c ((pad_of i c s)\<lparr> gp_id := None \<rparr>) (s\<lparr> gamepadMask := free_id (gamepadMask s) x \<rparr>))"
      if "gp_id (pad_of i c s) = Some x" for x
      using clear [OF ok that] by (simp add: pads_okm_def free_gamepad_def pad_emit_def set_pad_def owned_def timer_ok_def)
    with ok show "pads_okm X (rebind_slot r i c s) \<and> length (pd_inputs (rebind_slot r i c s)) = n"
      by (simp add: rebind_slot_def split: option.split)
  qed
qed

lemma keeps_inputs:
  assumes "i < n"
  shows "keeps n (destroy_gamepads i)" "keeps n (reset_gamepads i)" "keeps n (rebind_input r i)"
proof -
  have *: "keeps n (\<lambda>s. fold f [0..<length (pd_inputs s ! i)] s)" if "\<And>c. c < MAX_GAMEPADS \<Longrightarrow> keeps n (f c)" for f
  proof (rule keepsI)
    fix X s assume ok: "pads_okm X s" "length (pd_inputs s) = n"
    have "keeps n (fold f [0..<length (pd_inputs s ! i)])"
      using okm_input(1) [OF ok(1)] ok(2) assms by (intro keeps_fold that) simp
    with ok show "pads_okm X (fold f [0..<length (pd_inputs s ! i)] s) \<and>
        length (pd_inputs (fold f [0..<length (pd_inputs s ! i)] s)) = n" by (simp add: keeps_def)
  qed
  show "keeps n (destroy_gamepads i)" "keeps n (reset_gamepads i)" "keeps n (rebind_input r i)"
    unfolding destroy_gamepads_def [abs_def] reset_gamepads_def [abs_def] rebind_input_def [abs_def]
    by (rule *, rule keeps_slots [OF assms], assumption)+
qed

lemma keeps_timer_task:
  assumes "i < n"
  shows "keeps n (back_timer_task i c)"
proof (rule keepsI)
  fix X s assume ok: "pads_okm X s" "length (pd_inputs s) = n"
  then show "pads_okm X (back_timer_task i c s) \<and> length (pd_inputs (back_timer_task i c s)) = n"
    using assms set_pad_beyond [of X _ i c] okm_set_pad_same [of X _ i c]
    by (cases "c < MAX_GAMEPADS") (simp_all add: back_timer_task_def Let_def timer_ok_def)
qed

text \<open>A task holds the id it frees.\<close>

lemma okm_run_task:
  assumes "pads_okm (opt_mset (freed_id t) + X) s" "task_inputs t \<subseteq> {..<length (pd_inputs s)}"
  shows "pads_okm X (run_pad_task r t s)"
proof (cases t)
  case (Back_Timer i c)
  with assms keepsD(1) [OF keeps_timer_task] show ?thesis by simp
next
  case (Reset_Gamepads i)
  with assms keepsD(1) [OF keeps_inputs(2)] show ?thesis by simp
next
  case (Rebind_Input i)
  with assms keepsD(1) [OF keeps_inputs(3)] show ?thesis by simp
next
  case (Destroy_Gamepads xs)
  have "keeps (length (pd_inputs s)) (fold destroy_gamepads xs)"
    using assms(2) Destroy_Gamepads by (intro keeps_fold keeps_inputs) auto
  with assms(1) Destroy_Gamepads show ?thesis by (simp add: keeps_def)
next
  case (Free_Gamepad x)
  with assms okm_free show ?thesis by simp
qed

lemma okm_dispatch:
  "pads_okm (opt_mset (freed_id t) + X) s \<Longrightarrow> task_inputs t \<subseteq> {..<length (pd_inputs s)} \<Longrightarrow>
   pads_okm X (dispatch_input_task r t s)"
  by (simp add: dispatch_input_task_def okm_push okm_run_task)

lemma okm_set_id:
  assumes "pads_okm (add_mset x X) s" "i < length (pd_inputs s)" "c < MAX_GAMEPADS" "gp_id (pad_of i c s) = None"
  shows "pads_okm X (set_pad i c ((pad_of i c s)\<lparr> gp_id := Some x \<rparr>) s)"
  using okm_set_pad [of "(pad_of i c s)\<lparr> gp_id := Some x \<rparr>" X s i c] timer_ok_pad_of [OF assms(1-3)] assms by simp

lemma okm_take:
  assumes "pads_okm X s" "alloc_id (gamepadMask s) = Some (x, m)"
  shows "pads_okm (add_mset x X) (s\<lparr> gamepadMask := m \<rparr>)"
  using assms alloc_id_Some [OF assms(2)] used_set [of x "gamepadMask s"]
  by (simp add: pads_okm_def owned_def timer_ok_def)

lemma alloc_take_back:
  assumes "pads_okm X s" "alloc_id (gamepadMask s) = Some (x, m)"
  shows "pads_okm X (s\<lparr> gamepadMask := free_id m x \<rparr>)"
proof -
  have "free_id m x = gamepadMask s" using alloc_id_Some [OF assms(2)]
    by (simp add: free_id_def) (metis list_update_id)
  with assms(1) show ?thesis by simp
qed

lemma okm_alloc:
  assumes "pads_okm X s" "i < length (pd_inputs s)"
  shows "pads_okm X (snd (alloc_gamepad refused i c a s))"
    "length (pd_inputs (snd (alloc_gamepad refused i c a s))) = length (pd_inputs s)"
proof -
  have 1: "pads_okm X (set_pad i c ((pad_of i c s)\<lparr> gp_id := Some x \<rparr>) (pad_emit es (s\<lparr> gamepadMask := m \<rparr>)))"
    if "alloc_id (gamepadMask s) = Some (x, m)" "gp_id (pad_of i c s) = None" "c < MAX_GAMEPADS" for x m es
    using okm_set_id [of x X "pad_emit es (s\<lparr> gamepadMask := m \<rparr>)" i c] okm_take [OF assms(1) that(1)] that assms
    by (simp add: pad_of_def)
  have 2: "pads_okm X ((pad_emit es (s\<lparr> gamepadMask := m \<rparr>))\<lparr> gamepadMask := free_id m x \<rparr>)"
    if "alloc_id (gamepadMask s) = Some (x, m)" for x m es
    using alloc_take_back [OF assms(1) that]
    by (simp add: pads_okm_def pad_emit_def owned_def timer_ok_def)
  show "pads_okm X (snd (alloc_gamepad refused i c a s))"
    using assms 1 2 okm_input(1) [OF assms] by (simp add: alloc_gamepad_def Let_def split: option.split)
  show "length (pd_inputs (snd (alloc_gamepad refused i c a s))) = length (pd_inputs s)"
    by (simp add: alloc_gamepad_def Let_def split: option.split)
qed

lemma okm_back_timer:
  assumes "pads_okm X s" "i < length (pd_inputs s)" "c < MAX_GAMEPADS"
  shows "pads_okm X (back_timer cf i c old new s)"
    "length (pd_inputs (back_timer cf i c old new s)) = length (pd_inputs s)"
proof -
  have "pads_okm X (pad_push (Back_Timer i c) s)" by (rule okm_push) (use assms in simp_all)
  moreover have "timer_ok (pad_push (Back_Timer i c) s) ((pad_of i c s)\<lparr> back_timeout_id := Some (pd_next_task s) \<rparr>)"
    using assms(1) by (fastforce simp: timer_ok_def pad_push_def pads_okm_def)
  ultimately have start: "pads_okm X (set_pad i c ((pad_of i c s)\<lparr> back_timeout_id := Some (pd_next_task s) \<rparr>)
      (pad_push (Back_Timer i c) s))"
    by (intro okm_set_pad_same) (use assms in simp_all)
  have stop: "pads_okm X (cancel_back_timer i c s)"
    using keepsD(1) [OF keeps_cancel_timer [OF assms(2,3)]] assms(1) by simp
  with start assms(1) show "pads_okm X (back_timer cf i c old new s)"
    by (auto simp: back_timer_def cancel_back_timer_def)
  show "length (pd_inputs (back_timer cf i c old new s)) = length (pd_inputs s)"
    by (simp add: back_timer_def split: option.split)
qed

lemma okm_pad_update:
  assumes "pads_okm X s" "i < length (pd_inputs s)" "c < MAX_GAMEPADS"
  shows "pads_okm X (pad_update cf i c p s)"
proof -
  obtain b flags where b: "back_filter (back_button_state (pad_of i c s)) (gs_buttonFlags (packet_state p)) = (b, flags)"
    by (meson surj_pair)
  let ?s1 = "set_pad i c ((pad_of i c s)\<lparr> back_button_state := b \<rparr>) s"
  let ?s2 = "back_timer cf i c (gs_buttonFlags (gp_state (pad_of i c s))) flags ?s1"
  have 1: "pads_okm X ?s1" by (rule okm_set_fields(3) [OF assms])
  have 2: "pads_okm X ?s2" "length (pd_inputs ?s2) = length (pd_inputs s)"
    using okm_back_timer [OF 1] assms by simp_all
  show ?thesis
    unfolding pad_update_def Let_def b prod.case
    by (rule okm_set_fields(2)) (use 2 assms in simp_all)
qed

lemma okm_packet:
  assumes "pads_okm X s" "i < length (pd_inputs s)"
  shows "pads_okm X (passthrough_pad cf refused i p s)"
proof (cases p)
  case (Multi_Controller m)
  let ?c = "nat (sint (mc_number m))"
  have free: "pads_okm X (set_pad i ?c ((pad_of i ?c s)\<lparr> gp_id := None \<rparr>) (free_gamepad x s))"
    if "gp_id (pad_of i ?c s) = Some x" "?c < MAX_GAMEPADS" for x
    unfolding set_pad_free by (intro okm_free okm_clear_id) (use that assms in simp_all)
  have upd: "pads_okm X (pad_update cf i ?c m (snd (alloc_gamepad refused i ?c a s)))" if "?c < MAX_GAMEPADS" for a
    by (rule okm_pad_update) (use okm_alloc [OF assms] assms that in simp_all)
  show ?thesis
    using assms free upd okm_alloc(1) [OF assms] okm_pad_update [OF assms] okm_input(1) [OF assms]
    by (simp add: Multi_Controller pad_multi_def Let_def split_beta split: option.split)
qed (use assms okm_alloc(1) [OF assms] in
  \<open>simp_all add: pad_arrival_def pad_touch_def pad_motion_def pad_battery_def split: option.split\<close>)

lemma okm_new_input:
  assumes "pads_okm X s"
  shows "pads_okm X (s\<lparr> pd_inputs := pd_inputs s @ [replicate MAX_GAMEPADS gamepad_new],
    pd_retained := (pd_retained s)(sid \<mapsto> length (pd_inputs s)) \<rparr>)"
proof -
  have "ids_of (replicate n gamepad_new) = {#}" for n
    by (induction n) (simp_all add: ids_of_def gamepad_new_def)
  moreover have "timer_ok s gamepad_new" by (simp add: timer_ok_def gamepad_new_def)
  ultimately show ?thesis
    using assms by (auto simp: pads_okm_def owned_def timer_ok_def ran_def split: if_splits) (fastforce simp: less_Suc_eq)
qed

lemma dispatch_inputs:
  assumes "task_inputs t = {}"
  shows "pd_inputs (dispatch_input_task r t s) = pd_inputs s"
  using assms by (cases t) (simp_all add: dispatch_input_task_def)

lemma keeps_destructor:
  assumes "i < n" "c < MAX_GAMEPADS"
  shows "keeps n (gamepad_destructor r i c)"
proof (rule keepsI)
  fix X s assume ok: "pads_okm X s" "length (pd_inputs s) = n"
  show "pads_okm X (gamepad_destructor r i c s) \<and> length (pd_inputs (gamepad_destructor r i c s)) = n"
  proof (cases "gp_id (pad_of i c s)")
    case (Some x)
    have swap: "set_pad i c g (dispatch_input_task r (Free_Gamepad x) s) =
        dispatch_input_task r (Free_Gamepad x) (set_pad i c g s)" for g
      by (simp add: dispatch_input_task_def set_pad_free) (simp add: set_pad_def pad_push_def)
    have "pads_okm X (dispatch_input_task r (Free_Gamepad x) (set_pad i c ((pad_of i c s)\<lparr> gp_id := None \<rparr>) s))"
      by (rule okm_dispatch) (use okm_clear_id [OF ok(1)] ok(2) assms Some in simp_all)
    with Some ok(2) show ?thesis by (simp add: gamepad_destructor_def swap dispatch_inputs)
  qed (use ok in \<open>simp add: gamepad_destructor_def\<close>)
qed

lemma okm_retained:
  "pads_okm X s \<Longrightarrow> ran m \<subseteq> ran (pd_retained s) \<Longrightarrow> pads_okm X (s\<lparr> pd_retained := m \<rparr>)"
  by (auto simp: pads_okm_def owned_def timer_ok_def)

interpretation pads: invariant_system "pad_step cf" pads_ok for cf
proof
  fix s t assume "pad_step cf s t" and ok: "pads_ok s"
  have ret: "\<And>x. x \<in> ran (pd_retained s) \<Longrightarrow> x < length (pd_inputs s)"
    using ok by (auto simp: pads_okm_def)
  from \<open>pad_step cf s t\<close> show "pads_ok t"
  proof cases
    case (Packet i refused p)
    with ok show ?thesis by (simp add: okm_packet)
  next
    case (Task k u r)
    have "task_inputs u \<subseteq> {..<length (pd_inputs s)}" using ok Task(2) by (auto simp: pads_okm_def)
    with Task okm_cancel_task [OF ok Task(2)] show ?thesis by (simp add: okm_run_task)
  next
    case (Reset i)
    with ok show ?thesis by (simp add: okm_push)
  next
    case (Alloc r sid)
    have "pads_ok (dispatch_input_task r (Rebind_Input i) s)" if "pd_retained s sid = Some i" for i
      using ok ret that by (intro okm_dispatch) (auto simp: ran_def)
    with Alloc okm_new_input [OF ok] show ?thesis by (simp add: alloc_input_def split: option.split)
  next
    case (Terminate order r)
    have e: "pads_ok (s\<lparr> pd_retained := Map.empty \<rparr>)" using okm_retained [OF ok, of Map.empty] by simp
    show ?thesis
      unfolding Terminate(1) terminate_gamepads_def Let_def
      using e okm_dispatch [of "Destroy_Gamepads order" "{#}" "s\<lparr> pd_retained := Map.empty \<rparr>"] Terminate(2) ret
      by auto
  next
    case (Terminate_Session r sid)
    show ?thesis
    proof (cases "pd_retained s sid")
      case (Some i)
      have "ran ((pd_retained s)(sid := None)) \<subseteq> ran (pd_retained s)" by (auto simp: ran_def split: if_splits)
      from okm_retained [OF ok this]
        okm_dispatch [of "Destroy_Gamepads [i]" "{#}" "s\<lparr> pd_retained := (pd_retained s)(sid := None) \<rparr>" r]
      show ?thesis using ret [of i] Some Terminate_Session
        by (simp add: terminate_session_gamepads_def ranI)
    qed (use ok Terminate_Session in \<open>simp add: terminate_session_gamepads_def\<close>)
  next
    case (Destructor i r)
    have "keeps (length (pd_inputs s)) (fold (gamepad_destructor r i) [0..<length (pd_inputs s ! i)])"
      using Destructor(2) okm_input(1) [OF ok Destructor(2)] by (intro keeps_fold keeps_destructor) simp_all
    from keepsD(1) [OF this ok] show ?thesis unfolding Destructor(1) input_destructor_def by simp
  next
    case (Deinit order)
    have "keeps (length (pd_inputs s)) (fold destroy_gamepads order)"
      using Deinit(2) ret by (intro keeps_fold keeps_inputs) auto
    from keepsD(1) [OF this okm_retained [OF ok, of Map.empty]] show ?thesis
      unfolding Deinit(1) deinit_input_def by simp
  next
    case Pool_Stops
    with ok show ?thesis by (simp add: pads_okm_def owned_def timer_ok_def)
  qed
qed

lemma pads_ok_new: "pads_ok pads_new"
proof -
  have "used (replicate n False) = {#}" for n
    by (rule multiset_eqI) (simp add: count_used)
  then show ?thesis by (simp add: pads_okm_def pads_new_def owned_def)
qed

section \<open>Properties\<close>

lemma owned_slot:
  assumes "i < length (pd_inputs s)" "c < length (pd_inputs s ! i)" "gp_id (pad_of i c s) = Some x"
  shows "owned s = add_mset x (owned (set_pad i c ((pad_of i c s)\<lparr> gp_id := None \<rparr>) s))"
  using owned_set_pad [OF assms(1,2), of "(pad_of i c s)\<lparr> gp_id := None \<rparr>"] assms(3) by simp

lemma pad_of_other: "(i', c') \<noteq> (i, c) \<Longrightarrow> pad_of i' c' (set_pad i c g s) = pad_of i' c' s"
  by (cases "i < length (pd_inputs s)") (auto simp: pad_of_def set_pad_def nth_list_update list_update_beyond)

lemma inputs_lengths: "length (pd_inputs (set_pad i c g s) ! j) = length (pd_inputs s ! j)"
  by (cases "i < length (pd_inputs s)") (auto simp: set_pad_def nth_list_update list_update_beyond)

text \<open>
  (C10) In every state the input system can reach, with any number of sessions, streams that resume
  or end, applications that terminate, refusals by the platform and a pool that stops, no two
  slots hold the same gamepad id, and an id is marked in use exactly when a slot or a pending task
  that frees it holds it: ids are neither shared nor leaked.
\<close>
theorem gamepad_ids_unique:
  assumes "(pad_step cf)\<^sup>*\<^sup>* pads_new s"
  shows "(\<forall>i c i' c' x. i < length (pd_inputs s) \<and> c < MAX_GAMEPADS \<and> i' < length (pd_inputs s) \<and>
      c' < MAX_GAMEPADS \<and> gp_id (pad_of i c s) = Some x \<and> gp_id (pad_of i' c' s) = Some x \<longrightarrow> i = i' \<and> c = c') \<and>
    (\<forall>x < MAX_GAMEPADS. gamepadMask s ! x \<longleftrightarrow>
      (\<exists>i < length (pd_inputs s). \<exists>c < MAX_GAMEPADS. gp_id (pad_of i c s) = Some x) \<or>
      (\<exists>k. (k, Free_Gamepad x) \<in> set (pd_tasks s)))"
proof (intro conjI allI impI)
  have ok: "pads_ok s" by (rule pads.steps_ok [OF assms pads_ok_new])
  then have len: "length (gamepadMask s) = MAX_GAMEPADS" and eq: "owned s = used (gamepadMask s)"
    by (simp_all add: pads_okm_def)
  note slots = okm_input(1) [OF ok]
  {
    fix i c i' c' x
    assume a: "i < length (pd_inputs s) \<and> c < MAX_GAMEPADS \<and> i' < length (pd_inputs s) \<and> c' < MAX_GAMEPADS \<and>
      gp_id (pad_of i c s) = Some x \<and> gp_id (pad_of i' c' s) = Some x"
    have "(i', c') = (i, c)"
    proof (rule ccontr)
      assume ne: "(i', c') \<noteq> (i, c)"
      let ?s = "set_pad i c ((pad_of i c s)\<lparr> gp_id := None \<rparr>) s"
      have "owned s = add_mset x (owned ?s)" using a slots by (intro owned_slot) simp_all
      moreover have "x \<in># owned ?s"
        using owned_slot [of i' ?s c' x] a slots ne by (simp add: pad_of_other inputs_lengths)
      ultimately have "count (used (gamepadMask s)) x \<ge> 2"
        unfolding eq [symmetric] by (metis Suc_le_mono count_add_mset count_greater_eq_one_iff numeral_2_eq_2 One_nat_def)
      then show False by (simp add: count_used split: if_splits)
    qed
    then show "i = i'" "c = c'" by simp_all
  }
  fix x assume "x < MAX_GAMEPADS"
  then have "gamepadMask s ! x \<longleftrightarrow> x \<in># owned s" by (simp add: eq in_used len)
  also have "\<dots> \<longleftrightarrow> (\<exists>i < length (pd_inputs s). x \<in># ids_of (pd_inputs s ! i)) \<or>
      (\<exists>k. (k, Free_Gamepad x) \<in> set (pd_tasks s))"
  proof -
    have "x \<in># opt_mset (freed_id t) \<longleftrightarrow> t = Free_Gamepad x" for t by (cases t) auto
    then show ?thesis by (auto simp: owned_def in_set_conv_nth [of _ "pd_inputs s"] set_mset_sum_list) fastforce+
  qed
  also have "(\<exists>i < length (pd_inputs s). x \<in># ids_of (pd_inputs s ! i)) \<longleftrightarrow>
      (\<exists>i < length (pd_inputs s). \<exists>c < MAX_GAMEPADS. gp_id (pad_of i c s) = Some x)"
  proof -
    have "x \<in># opt_mset y \<longleftrightarrow> y = Some x" for y by (cases y) auto
    then have "x \<in># ids_of gs \<longleftrightarrow> (\<exists>c < length gs. gp_id (gs ! c) = Some x)" for gs
      by (auto simp: ids_of_def set_mset_sum_list) (metis in_set_conv_nth)+
    then show ?thesis using slots unfolding pad_of_def by metis
  qed
  finally show "gamepadMask s ! x \<longleftrightarrow>
      (\<exists>i < length (pd_inputs s). \<exists>c < MAX_GAMEPADS. gp_id (pad_of i c s) = Some x) \<or>
      (\<exists>k. (k, Free_Gamepad x) \<in> set (pd_tasks s))" .
qed

definition pc_example :: pad_config where
  "pc_example = \<lparr> pc_controller = True, pc_back_button_timeout = 2000 \<rparr>"

definition pad_example :: "u16 \<Rightarrow> u16 \<Rightarrow> multi_controller" where
  "pad_example active flags = \<lparr> mc_number = 0, mc_mask = active, mc_flags = flags, mc_flags2 = 0,
     mc_left_trigger = 0, mc_right_trigger = 0, mc_left_x = 0, mc_left_y = 0, mc_right_x = 0, mc_right_y = 0 \<rparr>"

lemmas pad_eval = pads_new_def alloc_input_def passthrough_pad.simps pad_multi_def pad_example_def pc_example_def
  alloc_gamepad_def pad_of_def set_pad_def pad_update_def back_filter_def back_timer_def packet_state_def
  pad_emit_def pad_push_def pad_cancel_def gamepad_new_def gamepad_state_zero_def no_arrival_def MAX_GAMEPADS_def
  BACK_def HOME_def free_gamepad_def free_id_def Let_def

definition pads_example :: "pads" where
  "pads_example = passthrough_pad pc_example False 0 (Multi_Controller (pad_example 1 0x20))
     (snd (alloc_input (\<lambda>_. False) ''app'' pads_new))"

lemma pads_example_eq:
  "pd_inputs pads_example ! 0 ! 0 = \<lparr> gp_state = packet_state (pad_example 1 0x20),
     back_timeout_id = Some 0, gp_id = Some 0, back_button_state = NONE \<rparr>"
  "pd_tasks pads_example = [(0, Back_Timer 0 0)]" "length (pd_inputs pads_example) = 1"
  "length (pd_inputs pads_example ! 0) = 16" "gamepadMask pads_example = True # replicate 15 False"
  by code_simp+

theorem gamepad_ids_unique_witness:
  "gp_id (pad_of 0 0 pads_example) = Some 0 \<and> gamepadMask pads_example ! 0 \<and>
   {c. c < 16 \<and> gp_id (pad_of 0 c pads_example) = Some 0} = {0}"
proof -
  have "pad_step pc_example pads_new (snd (alloc_input (\<lambda>_. False) ''app'' pads_new))"
    by (rule pad_step.Alloc)
  moreover have "pad_step pc_example (snd (alloc_input (\<lambda>_. False) ''app'' pads_new)) pads_example"
    unfolding pads_example_def by (rule pad_step.Packet) (simp add: alloc_input_def pads_new_def)
  ultimately have "(pad_step pc_example)\<^sup>*\<^sup>* pads_new pads_example" by simp
  note u = gamepad_ids_unique [OF this]
  have id: "gp_id (pad_of 0 0 pads_example) = Some 0" by (simp add: pad_of_def pads_example_eq)
  moreover have "gamepadMask pads_example ! 0" by (simp add: pads_example_eq)
  moreover have "c = 0" if "c < 16" "gp_id (pad_of 0 c pads_example) = Some 0" for c
    using conjunct1 [OF u, rule_format, of 0 c 0 0 0] that id by (simp add: MAX_GAMEPADS_def pads_example_eq(3))
  ultimately show ?thesis by auto
qed

lemma back_bit: "BACK AND x \<noteq> 0 \<longleftrightarrow> bit x 5"
proof -
  have "BACK = push_bit 5 1" by (simp add: BACK_def)
  then show ?thesis by (metis (no_types) and.commute and_exp_eq_0_iff_not_bit push_bit_of_1)
qed

lemma back_home_bits [simp]: "bit BACK n \<longleftrightarrow> n = 5" "bit HOME n \<longleftrightarrow> n = 10"
proof -
  have "BACK = 2 ^ 5" "HOME = 2 ^ 10" by (simp_all add: BACK_def HOME_def)
  then show "bit BACK n \<longleftrightarrow> n = 5" "bit HOME n \<longleftrightarrow> n = 10"
    unfolding \<open>BACK = 2 ^ 5\<close> \<open>HOME = 2 ^ 10\<close> bit_exp_iff by auto
qed

text \<open>The slot's share of a packet that leaves the allocation as it is.\<close>

definition owns_slot :: "pads \<Rightarrow> nat \<Rightarrow> nat \<Rightarrow> nat \<Rightarrow> bool" where
  "owns_slot s i c x \<longleftrightarrow> i < length (pd_inputs s) \<and> c < length (pd_inputs s ! i) \<and> gp_id (pad_of i c s) = Some x"

definition addressed :: "multi_controller \<Rightarrow> nat \<Rightarrow> bool" where
  "addressed p c \<longleftrightarrow> sint (mc_number p) = int c \<and> bit (mc_mask p) c"

definition client_flags :: "multi_controller \<Rightarrow> u32" where
  "client_flags p = gs_buttonFlags (packet_state p)"

lemma pad_multi_held:
  assumes "pc_controller cf" "owns_slot s i c x" "addressed p c"
  shows "pad_multi cf r i p s = pad_update cf i c p s"
  using assms by (simp add: pad_multi_def Let_def owns_slot_def addressed_def)

lemma back_timer_sel:
  assumes "i < length (pd_inputs s)" "c < length (pd_inputs s ! i)"
  shows "gp_id (pad_of i c (back_timer cf i c old new s)) = gp_id (pad_of i c s)"
    "back_button_state (pad_of i c (back_timer cf i c old new s)) = back_button_state (pad_of i c s)"
    "pd_log (back_timer cf i c old new s) = pd_log s"
    "length (pd_inputs (back_timer cf i c old new s)) = length (pd_inputs s)"
    "length (pd_inputs (back_timer cf i c old new s) ! i) = length (pd_inputs s ! i)"
  using assms by (simp_all add: back_timer_def inputs_lengths split: option.split)

lemma pad_update_effect:
  assumes "owns_slot s i c x"
    "back_filter (back_button_state (pad_of i c s)) (client_flags p) = (b, flags)"
  shows "owns_slot (pad_update cf i c p s) i c x"
    "back_button_state (pad_of i c (pad_update cf i c p s)) = b"
    "gp_state (pad_of i c (pad_update cf i c p s)) = (packet_state p)\<lparr> gs_buttonFlags := flags \<rparr>"
    "pd_log (pad_update cf i c p s) = pd_log s @ [Pad_Update (Some x) ((packet_state p)\<lparr> gs_buttonFlags := flags \<rparr>)]"
  using assms
  by (simp_all add: pad_update_def Let_def owns_slot_def client_flags_def inputs_lengths back_timer_sel)
    (simp add: pad_emit_def back_timer_sel inputs_lengths)

text \<open>
  Holding the back button presses the home button. When the client holds back, the press is
  passed on and a timer starts; if it runs before the release, the platform sees back go up, home
  go down and home go up. From then on packets are passed on without back, however often the
  client sends it, until a packet without back, after which back works again.
\<close>
theorem held_back_becomes_home:
  assumes "pc_controller cf" "pc_back_button_timeout cf \<ge> 0" "owns_slot s i c x"
    "back_button_state (pad_of i c s) = NONE" "\<not> bit (gs_buttonFlags (gp_state (pad_of i c s))) 5"
    "addressed p c" "bit (client_flags p) 5" "\<not> bit (client_flags p) 10" "addressed q c"
  shows "let s1 = pad_multi cf r i p s; s2 = back_timer_task i c s1; s3 = pad_multi cf r i q s2 in
    (pd_next_task s, Back_Timer i c) \<in> set (pd_tasks s1) \<and>
    pd_log s2 = pd_log s @ map (\<lambda>f. Pad_Update (Some x) ((packet_state p)\<lparr> gs_buttonFlags := f \<rparr>))
      [client_flags p, client_flags p AND NOT BACK, (client_flags p AND NOT BACK) OR HOME, client_flags p AND NOT BACK] \<and>
    pd_log s3 = pd_log s2 @ [Pad_Update (Some x) ((packet_state q)\<lparr> gs_buttonFlags := client_flags q AND NOT BACK \<rparr>)] \<and>
    back_button_state (pad_of i c s3) = (if bit (client_flags q) 5 then UP else NONE)"
proof -
  let ?s1 = "pad_update cf i c p s"
  have f: "back_filter (back_button_state (pad_of i c s)) (client_flags p) = (NONE, client_flags p)"
    using assms(4) by (simp add: back_filter_def)
  note e1 = pad_update_effect [OF assms(3) f, of cf]
  have same: "packet_state p\<lparr> gs_buttonFlags := client_flags p \<rparr> = packet_state p" by (simp add: client_flags_def)
  have task: "(pd_next_task s, Back_Timer i c) \<in> set (pd_tasks ?s1)"
  proof -
    have "BACK AND (client_flags p XOR gs_buttonFlags (gp_state (pad_of i c s))) \<noteq> 0"
      "BACK AND client_flags p \<noteq> 0" using assms(5,7) by (simp_all add: back_bit bit_simps)
    then show ?thesis
      using assms(2,4) by (simp add: pad_update_def Let_def back_filter_def client_flags_def back_timer_def pad_emit_def)
        (simp add: pad_push_def)
  qed
  let ?s2 = "back_timer_task i c ?s1"
  have home: "((client_flags p AND NOT BACK) OR HOME) AND NOT HOME = client_flags p AND NOT BACK"
    by (rule bit_word_eqI) (use assms(8) in \<open>auto simp: bit_simps\<close>)
  have i2: "i < length (pd_inputs ?s1)" "c < length (pd_inputs ?s1 ! i)" "gp_id (pad_of i c ?s1) = Some x"
    using e1(1) by (simp_all add: owns_slot_def)
  have e2: "owns_slot ?s2 i c x" "back_button_state (pad_of i c ?s2) = UP"
    using i2 by (simp_all add: back_timer_task_def Let_def owns_slot_def inputs_lengths)
  have log2: "pd_log ?s2 = pd_log s @ map (\<lambda>f. Pad_Update (Some x) ((packet_state p)\<lparr> gs_buttonFlags := f \<rparr>))
      [client_flags p, client_flags p AND NOT BACK, (client_flags p AND NOT BACK) OR HOME, client_flags p AND NOT BACK]"
    using i2 by (simp add: back_timer_task_def Let_def e1(3)) (simp add: pad_emit_def e1(4) home)
  have f2: "back_filter (back_button_state (pad_of i c ?s2)) (client_flags q) =
      (if bit (client_flags q) 5 then UP else NONE, client_flags q AND NOT BACK)"
    using e2(2) back_bit [of "client_flags q"] by (auto simp: back_filter_def)
  note e3 = pad_update_effect [OF e2(1) f2, of cf]
  show ?thesis
    unfolding Let_def pad_multi_held [OF assms(1,3,6)] pad_multi_held [OF assms(1) e2(1) assms(9)]
    using task log2 e3 by simp
qed

theorem held_back_becomes_home_witness:
  "\<exists>s. pd_log (back_timer_task 0 0 (pad_multi pc_example False 0 (pad_example 1 0x20) s)) \<noteq> pd_log s"
proof -
  let ?s = "passthrough_pad pc_example False 0 (Multi_Controller (pad_example 1 0))
     (snd (alloc_input (\<lambda>_. False) ''app'' pads_new))"
  have 1: "owns_slot ?s 0 0 0" "back_button_state (pad_of 0 0 ?s) = NONE"
    "\<not> bit (gs_buttonFlags (gp_state (pad_of 0 0 ?s))) 5"
    unfolding owns_slot_def by code_simp+
  have 2: "addressed (pad_example 1 0x20) 0" "bit (client_flags (pad_example 1 0x20)) 5"
    "\<not> bit (client_flags (pad_example 1 0x20)) 10"
    by code_simp+
  have 3: "pc_controller pc_example" "pc_back_button_timeout pc_example \<ge> 0" by (simp_all add: pc_example_def)
  show ?thesis
    using held_back_becomes_home [OF 3 1 2 2(1), of False] by (intro exI [of _ ?s]) (simp add: Let_def)
qed

text \<open>
  The timer of a held back button outlives its gamepad: when the client takes the controller
  away while back is held, only the id of the slot is cleared, so the timer later sends the home
  button to a gamepad without id, or to the next controller of that slot.
\<close>
theorem back_timer_outlives_gamepad:
  assumes "pc_controller cf" "owns_slot s i c x" "sint (mc_number p) = int c" "\<not> bit (mc_mask p) c"
    "back_timeout_id (pad_of i c s) = Some k" "(k, Back_Timer i c) \<in> set (pd_tasks s)"
  shows "let s1 = pad_multi cf r i p s in
    (k, Back_Timer i c) \<in> set (pd_tasks s1) \<and> gp_id (pad_of i c s1) = None \<and>
    (\<exists>st. last (pd_log (back_timer_task i c s1)) = Pad_Update None st)"
  using assms
  by (simp add: pad_multi_def Let_def owns_slot_def back_timer_task_def)
    (simp add: free_gamepad_def pad_emit_def)

theorem back_timer_outlives_gamepad_witness:
  "\<exists>st. last (pd_log (back_timer_task 0 0 (pad_multi pc_example False 0 (pad_example 0 0x20) pads_example))) =
     Pad_Update None st"
  using back_timer_outlives_gamepad [of pc_example pads_example 0 0 0 "pad_example 0 0x20" 0 False]
  by (simp add: Let_def owns_slot_def pad_of_def pads_example_eq pc_example_def pad_example_def)

end
