(* ===== verification/Network.thy ===== *)
theory Network
  imports Prelude
begin

text \<open>
  \<open>src/network.cpp\<close>: the class of an address and the encryption mode it gets, the mapping of
  ports, bind addresses and the mDNS instance name. Reading and writing addresses as text is
  boost::asio's and a parameter. The hosts of an IPv4 network are, as in boost::asio, all its
  addresses but the first and the last; those of an IPv6 network are all of them.
\<close>

unbundle bit_operations_syntax

section \<open>Addresses\<close>

datatype net_e = PC | LAN | WAN

datatype address = V4 u32 | V6 "128 word"

definition network_v4 :: "nat \<Rightarrow> u32 \<Rightarrow> u32 set" where
  "network_v4 prefix net = {a. (a AND push_bit (32 - prefix) (mask prefix)) = net \<and> a \<noteq> net \<and> a \<noteq> net OR mask (32 - prefix)}"

definition network_v6 :: "nat \<Rightarrow> 128 word \<Rightarrow> 128 word set" where
  "network_v6 prefix net = {a. a AND push_bit (128 - prefix) (mask prefix) = net}"

definition pc_ips_v4 :: "(nat \<times> u32) list" where
  "pc_ips_v4 = [(8, 0x7F000000)]"

definition lan_ips_v4 :: "(nat \<times> u32) list" where
  "lan_ips_v4 = [(16, 0xC0A80000), (12, 0xAC100000), (8, 0x0A000000), (10, 0x64400000), (16, 0xA9FE0000)]"

definition pc_ips_v6 :: "(nat \<times> 128 word) list" where
  "pc_ips_v6 = [(128, 1)]"

definition lan_ips_v6 :: "(nat \<times> 128 word) list" where
  "lan_ips_v6 = [(7, 0xFC000000000000000000000000000000), (64, 0xFE800000000000000000000000000000)]"

definition normalize_address :: "address \<Rightarrow> address" where
  "normalize_address a = (case a of
     V4 x \<Rightarrow> V4 x
   | V6 x \<Rightarrow> if drop_bit 32 x = 0xFFFF then V4 (ucast x) else V6 x)"

definition from_enum_string :: "bytes \<Rightarrow> net_e" where
  "from_enum_string view = (if view = ascii ''wan'' then WAN else if view = ascii ''lan'' then LAN else PC)"

definition to_enum_string :: "net_e \<Rightarrow> bytes" where
  "to_enum_string n = (case n of PC \<Rightarrow> ascii ''pc'' | LAN \<Rightarrow> ascii ''lan'' | WAN \<Rightarrow> ascii ''wan'')"

definition from_address :: "(bytes \<Rightarrow> address) \<Rightarrow> bytes \<Rightarrow> net_e" where
  "from_address make_address view =
     (case normalize_address (make_address view) of
        V6 x \<Rightarrow>
          if \<exists>(p, n) \<in> set pc_ips_v6. x \<in> network_v6 p n then PC
          else if \<exists>(p, n) \<in> set lan_ips_v6. x \<in> network_v6 p n then LAN else WAN
      | V4 x \<Rightarrow>
          if \<exists>(p, n) \<in> set pc_ips_v4. x \<in> network_v4 p n then PC
          else if \<exists>(p, n) \<in> set lan_ips_v4. x \<in> network_v4 p n then LAN else WAN)"

record encryption_config =
  lan_encryption_mode :: int
  wan_encryption_mode :: int

definition encryption_mode_for_address ::
  "(bytes \<Rightarrow> address) \<Rightarrow> (address \<Rightarrow> bytes) \<Rightarrow> encryption_config \<Rightarrow> address \<Rightarrow> int" where
  "encryption_mode_for_address make_address to_string cf a =
     (case from_address make_address (to_string a) of
        WAN \<Rightarrow> wan_encryption_mode cf
      | _ \<Rightarrow> lan_encryption_mode cf)"

definition addr_to_normalized_string :: "(address \<Rightarrow> bytes) \<Rightarrow> address \<Rightarrow> bytes" where
  "addr_to_normalized_string to_string a = to_string (normalize_address a)"

definition addr_to_url_escaped_string :: "(address \<Rightarrow> bytes) \<Rightarrow> address \<Rightarrow> bytes" where
  "addr_to_url_escaped_string to_string a =
     (case normalize_address a of
        V6 x \<Rightarrow> ascii ''['' @ to_string (V6 x) @ ascii '']''
      | V4 x \<Rightarrow> to_string (V4 x))"

section \<open>Address families and ports\<close>

datatype af_e = IPV4 | BOTH

definition af_from_enum_string :: "bytes \<Rightarrow> af_e" where
  "af_from_enum_string view = (if view = ascii ''ipv4'' then IPV4 else BOTH)"

definition af_to_any_address_string :: "af_e \<Rightarrow> bytes" where
  "af_to_any_address_string af = (case af of IPV4 \<Rightarrow> ascii ''0.0.0.0'' | BOTH \<Rightarrow> ascii ''::'')"

definition get_bind_address :: "bytes \<Rightarrow> af_e \<Rightarrow> bytes" where
  "get_bind_address configured af = (if configured \<noteq> [] then configured else af_to_any_address_string af)"

text \<open>The sum is cast to 16 bits before it is checked; the check only warns.\<close>

definition map_port :: "u16 \<Rightarrow> int \<Rightarrow> u16" where
  "map_port base port = word_of_int (uint base + port)"

definition map_port_warns :: "u16 \<Rightarrow> int \<Rightarrow> bool" where
  "map_port_warns base port = (uint (map_port base port) < 1024 \<or> uint (map_port base port) > 65535)"

section \<open>Instance name\<close>

definition is_alnum :: "u8 \<Rightarrow> bool" where
  "is_alnum c \<longleftrightarrow> 0x30 \<le> c \<and> c \<le> 0x39 \<or> 0x41 \<le> c \<and> c \<le> 0x5A \<or> 0x61 \<le> c \<and> c \<le> 0x7A"

fun instance_chars :: "bytes \<Rightarrow> bytes" where
  "instance_chars [] = []"
| "instance_chars (c # cs) =
     (if c = 0x20 then 0x2D # instance_chars cs
      else if \<not> is_alnum c \<and> c \<noteq> 0x2D then []
      else c # instance_chars cs)"

definition mdns_instance_name :: "bytes \<Rightarrow> bytes" where
  "mdns_instance_name hostname =
     (let name = instance_chars (if length hostname > 63 then take 63 hostname else hostname)
      in if name \<noteq> [] then name else ascii ''Sunshine'')"

section \<open>Properties\<close>

text \<open>The address classes as ranges.\<close>

definition v4_class :: "nat \<Rightarrow> net_e" where
  "v4_class a =
     (if 0x7F000000 < a \<and> a < 0x7FFFFFFF then PC
      else if 0xC0A80000 < a \<and> a < 0xC0A8FFFF \<or> 0xAC100000 < a \<and> a < 0xAC1FFFFF \<or>
        0x0A000000 < a \<and> a < 0x0AFFFFFF \<or> 0x64400000 < a \<and> a < 0x647FFFFF \<or> 0xA9FE0000 < a \<and> a < 0xA9FEFFFF
      then LAN else WAN)"

lemma mask_high:
  fixes a :: "'a :: len word"
  assumes "k + p = LENGTH('a)"
  shows "a AND push_bit k (mask p) = push_bit k (drop_bit k a)"
  by (rule bit_word_eqI) (use assms in \<open>auto simp: bit_simps\<close>)

lemma network_range:
  fixes a n :: u32
  assumes "k + p = 32" "unat n = m * 2 ^ k"
  shows "a AND push_bit k (mask p) = n \<longleftrightarrow> m * 2 ^ k \<le> unat a \<and> unat a < (m + 1) * 2 ^ k"
proof -
  have "a AND push_bit k (mask p) = push_bit k (drop_bit k a)"
    using assms(1) by (intro mask_high) simp
  moreover have "unat (push_bit k (drop_bit k a)) = unat a div 2 ^ k * 2 ^ k"
  proof -
    have "unat a div 2 ^ k * 2 ^ k \<le> unat a" by (rule div_times_less_eq_dividend)
    moreover have "unat a < 4294967296" using unsigned_less [of a, where 'a = nat] by simp
    ultimately have "unat a div 2 ^ k * 2 ^ k < 4294967296" by (rule order.strict_trans1)
    then have "unat (push_bit k (drop_bit k a)) = push_bit k (drop_bit k (unat a))"
      by (intro unat_eq_if_bits)
        (auto simp: bit_push_bit_iff bit_drop_bit_eq bit_unsigned_iff bit_imp_le_length,
          simp add: push_bit_eq_mult drop_bit_eq_div)
    then show ?thesis by (simp add: push_bit_eq_mult drop_bit_eq_div)
  qed
  ultimately have "a AND push_bit k (mask p) = n \<longleftrightarrow> unat a div 2 ^ k * 2 ^ k = m * 2 ^ k"
    using assms(2) by (simp add: word_unat_eq_iff)
  also have "\<dots> \<longleftrightarrow> unat a div 2 ^ k = m" by simp
  also have "\<dots> \<longleftrightarrow> m * 2 ^ k \<le> unat a \<and> unat a < (m + 1) * 2 ^ k"
    by (metis Suc_eq_plus1 div_nat_eqI div_times_less_eq_dividend dividend_less_div_times less_Suc_eq_le mult.commute mult_Suc add.commute zero_less_numeral zero_less_power)
  finally show ?thesis .
qed

lemma unat_mask: "unat (mask k :: u32) = 2 ^ min k 32 - 1"
proof -
  have "unat (mask k :: u32) = mask (min k 32)"
    by (rule unat_eq_if_bits)
      (auto simp: bit_mask_iff mask_eq_exp_minus_1 [of "min k 32"] mask_eq_exp_minus_1 [of 32] power_increasing [of _ 32 2, simplified] min_def
        dest: bit_nat_less intro: less_le_trans [of _ "2 ^ min k 32"])
  then show ?thesis by (simp add: mask_eq_exp_minus_1)
qed

lemma network_v4_range:
  assumes "p \<le> 32" "unat n = m * 2 ^ (32 - p)" "m < 2 ^ p"
  shows "a \<in> network_v4 p n \<longleftrightarrow> m * 2 ^ (32 - p) < unat a \<and> unat a < (m + 1) * 2 ^ (32 - p) - 1"
proof -
  let ?k = "32 - p"
  have "take_bit ?k n = 0"
    unfolding word_unat_eq_iff unsigned_take_bit_eq assms(2) by (simp add: take_bit_eq_mod)
  then have "n AND mask ?k = 0" by (simp add: take_bit_eq_mask)
  then have "n OR mask ?k = n + mask ?k" using word_plus_and_or [of n "mask ?k"] by simp
  moreover have "unat (n + mask ?k) = m * 2 ^ ?k + (2 ^ ?k - 1)"
  proof -
    have "(m + 1) * 2 ^ ?k \<le> 2 ^ p * 2 ^ ?k" using assms(3) by (intro mult_le_mono1) simp
    also have "(2 :: nat) ^ p * 2 ^ ?k = 2 ^ 32" using assms(1) by (simp flip: power_add)
    finally have "m * 2 ^ ?k + (2 ^ ?k - 1) < 2 ^ 32" by simp
    then show ?thesis using assms(2)
      by (subst unat_word_ariths) (simp add: unat_mask min_def)
  qed
  ultimately have u: "unat (n OR mask ?k) = m * 2 ^ ?k + (2 ^ ?k - 1)" by (simp only:)
  have last: "a \<noteq> n OR mask ?k \<longleftrightarrow> unat a \<noteq> m * 2 ^ ?k + (2 ^ ?k - 1)"
    by (simp only: word_unat_eq_iff u)
  have first: "a \<noteq> n \<longleftrightarrow> unat a \<noteq> m * 2 ^ ?k" by (simp only: word_unat_eq_iff assms(2))
  have "1 \<le> (2 :: nat) ^ ?k" by simp
  moreover have range: "a AND push_bit ?k (mask p) = n \<longleftrightarrow> m * 2 ^ ?k \<le> unat a \<and> unat a < (m + 1) * 2 ^ ?k"
    by (rule network_range) (use assms(1,2) in simp_all)
  ultimately show ?thesis
    unfolding network_v4_def mem_Collect_eq range last first by (auto simp: distrib_right; linarith)
qed

lemma v4_ranges:
  "a \<in> network_v4 8 0x7F000000 \<longleftrightarrow> 0x7F000000 < unat a \<and> unat a < 0x7FFFFFFF"
  "a \<in> network_v4 16 0xC0A80000 \<longleftrightarrow> 0xC0A80000 < unat a \<and> unat a < 0xC0A8FFFF"
  "a \<in> network_v4 12 0xAC100000 \<longleftrightarrow> 0xAC100000 < unat a \<and> unat a < 0xAC1FFFFF"
  "a \<in> network_v4 8 0x0A000000 \<longleftrightarrow> 0x0A000000 < unat a \<and> unat a < 0x0AFFFFFF"
  "a \<in> network_v4 10 0x64400000 \<longleftrightarrow> 0x64400000 < unat a \<and> unat a < 0x647FFFFF"
  "a \<in> network_v4 16 0xA9FE0000 \<longleftrightarrow> 0xA9FE0000 < unat a \<and> unat a < 0xA9FEFFFF"
  subgoal by (subst network_v4_range [of _ _ "0x7F"]) simp_all
  subgoal by (subst network_v4_range [of _ _ "0xC0A8"]) simp_all
  subgoal by (subst network_v4_range [of _ _ "0xAC1"]) simp_all
  subgoal by (subst network_v4_range [of _ _ "0x0A"]) simp_all
  subgoal by (subst network_v4_range [of _ _ "0x191"]) simp_all
  subgoal by (subst network_v4_range [of _ _ "0xA9FE"]) simp_all
  done

text \<open>
  The classes of IPv4 addresses, mapped to IPv6 or not: the loopback network is this
  computer, five private networks are the local network, everything else is the internet; the first and last
  address of each network do not count as its own.
\<close>
theorem from_address_v4:
  "(make_address view = V4 x \<or> (\<exists>y. make_address view = V6 y \<and> drop_bit 32 y = 0xFFFF \<and> ucast y = x)) \<longrightarrow>
     from_address make_address view = v4_class (unat x)"
  by (auto simp: from_address_def normalize_address_def pc_ips_v4_def lan_ips_v4_def v4_ranges v4_class_def)

theorem from_address_v4_witness:
  "from_address (\<lambda>_. V6 0xFFFFC0A80105) [] = LAN \<and> from_address (\<lambda>_. V4 0x0A000000) [] = WAN"
proof -
  have "drop_bit 32 (0xFFFFC0A80105 :: 128 word) = 0xFFFF" "ucast (0xFFFFC0A80105 :: 128 word) = (0xC0A80105 :: u32)"
    by (code_simp, code_simp)
  then show ?thesis
    using from_address_v4 [of "\<lambda>_. V6 0xFFFFC0A80105" "[]" "0xC0A80105"] from_address_v4 [of "\<lambda>_. V4 0x0A000000" "[]" "0x0A000000"]
    by (auto simp: v4_class_def)
qed

text \<open>The port sum wraps, and the upper bound of the warning can never be met.\<close>

lemma map_port_wraps:
  "uint (map_port base port) = (uint base + port) mod 65536"
  "map_port_warns base port \<longleftrightarrow> (uint base + port) mod 65536 < 1024"
proof -
  show w: "uint (map_port base port) = (uint base + port) mod 65536"
    by (simp only: map_port_def unsigned_of_int take_bit_eq_mod) simp
  show "map_port_warns base port \<longleftrightarrow> (uint base + port) mod 65536 < 1024"
    unfolding map_port_warns_def w by (auto simp: not_less intro: order_trans)
qed

lemma instance_chars_ok: "set (instance_chars cs) \<subseteq> {c. is_alnum c \<or> c = 0x2D}"
  by (induction cs) (auto simp: is_alnum_def)

lemma length_instance_chars: "length (instance_chars cs) \<le> length cs"
  by (induction cs) simp_all

text \<open>
  (C40) The mDNS instance name is a valid DNS label for every host name: between 1 and 63
  characters, all of them letters, digits or dashes.
\<close>
theorem mdns_instance_name_valid:
  "mdns_instance_name h \<noteq> [] \<and> length (mdns_instance_name h) \<le> 63 \<and>
   set (mdns_instance_name h) \<subseteq> {c. is_alnum c \<or> c = 0x2D}"
proof -
  have s: "length (ascii ''Sunshine'') \<le> 63" "ascii ''Sunshine'' \<noteq> []" "\<forall>c \<in> set (ascii ''Sunshine''). is_alnum c"
    by (simp_all add: ascii_def is_alnum_def)
  let ?h = "if length h > 63 then take 63 h else h"
  have "length (instance_chars ?h) \<le> length ?h" by (rule length_instance_chars)
  then have "length (instance_chars ?h) \<le> 63" by (simp split: if_splits)
  then show ?thesis
    using s instance_chars_ok [of ?h] by (auto simp: mdns_instance_name_def Let_def)
qed

end
