(* ===== verification/Rtsp_Commands.thy ===== *)
theory Rtsp_Commands
  imports Complex_Main Codec Network Session_Life
begin

text \<open>
  The RTSP requests of \<open>src/rtsp.cpp\<close>: \<open>cmd_option\<close>, \<open>cmd_describe\<close>, \<open>cmd_setup\<close>,
  \<open>cmd_announce\<close> with its reading of the client's description, and \<open>cmd_play\<close>. Text is a list of
  bytes. A request is what the parser of moonlight-common-c makes of a message; its encryption bits
  are parameters. \<open>float\<close> and \<open>double\<close> arithmetic is exact.
\<close>

unbundle bit_operations_syntax

section \<open>Launch sessions and requests\<close>

record launch_session =
  ls_id :: u32
  ls_gcm_key :: bytes
  ls_iv :: bytes
  ls_av_ping_payload :: bytes
  ls_control_connect_data :: u32
  ls_host_audio :: bool
  ls_unique_id :: bytes
  ls_width :: int
  ls_height :: int
  ls_fps :: int
  ls_gcmap :: int
  ls_appid :: int
  ls_surround_info :: int
  ls_surround_params :: bytes
  ls_continuous_audio :: bool
  ls_enable_hdr :: bool
  ls_enable_sops :: bool
  ls_encrypted :: bool
  ls_rtsp_url_scheme :: bytes
  ls_rtsp_iv_counter :: u32
  ls_client_cert :: bytes

record rtsp_request =
  rq_command :: bytes
  rq_target :: bytes
  rq_seqn :: int
  rq_options :: "(bytes \<times> bytes) list"
  rq_payload :: bytes

record rtsp_response =
  rs_status :: int
  rs_message :: bytes
  rs_seqn :: int
  rs_options :: "(bytes \<times> bytes) list"
  rs_payload :: bytes

record ss_enc =
  SS_ENC_CONTROL_V2 :: u32
  SS_ENC_VIDEO :: u32
  SS_ENC_AUDIO :: u32

fun dec_digits :: "nat \<Rightarrow> nat list" where
  "dec_digits n = (if n < 10 then [n] else dec_digits (n div 10) @ [n mod 10])"

declare dec_digits.simps [simp del]

text \<open>\<open>std::to_string\<close>.\<close>

definition to_text :: "int \<Rightarrow> bytes" where
  "to_text i = (if i < 0 then 0x2D # digit_bytes (dec_digits (nat (- i))) else digit_bytes (dec_digits (nat i)))"

definition cseq :: "rtsp_request \<Rightarrow> bytes \<times> bytes" where
  "cseq req = (ascii ''CSeq'', to_text (rq_seqn req))"

definition respond :: "(bytes \<times> bytes) list \<Rightarrow> int \<Rightarrow> string \<Rightarrow> int \<Rightarrow> bytes \<Rightarrow> rtsp_response" where
  "respond options status msg seqn payload =
     \<lparr> rs_status = status, rs_message = ascii msg, rs_seqn = seqn, rs_options = options, rs_payload = payload \<rparr>"

definition cmd_not_found :: "rtsp_request \<Rightarrow> rtsp_response" where
  "cmd_not_found req = respond [] 404 ''NOT FOUND'' (rq_seqn req) []"

definition cmd_option :: "rtsp_request \<Rightarrow> rtsp_response" where
  "cmd_option req = respond [cseq req] 200 ''OK'' (rq_seqn req) []"

definition cmd_play :: "rtsp_request \<Rightarrow> rtsp_response" where
  "cmd_play req = respond [cseq req] 200 ''OK'' (rq_seqn req) []"

section \<open>DESCRIBE\<close>

record opus_stream_config =
  op_channelCount :: nat
  op_streams :: nat
  op_coupledStreams :: nat
  op_mapping :: "nat list"
  op_bitrate :: nat

text \<open>The speakers are numbered in the order of the maps.\<close>

definition stream_configs :: "opus_stream_config list" where
  "stream_configs = map (\<lambda>(c, s, k, b). \<lparr> op_channelCount = c, op_streams = s, op_coupledStreams = k,
       op_mapping = [0..<c], op_bitrate = b \<rparr>)
     [(2, 1, 1, 96000), (2, 1, 1, 512000), (6, 4, 2, 256000), (6, 6, 0, 1536000), (8, 5, 3, 450000), (8, 8, 0, 2048000)]"

definition MAX_STREAM_CONFIG :: nat where "MAX_STREAM_CONFIG = 6"
definition SURROUND51 :: nat where "SURROUND51 = 2"
definition SURROUND71 :: nat where "SURROUND71 = 4"

definition rotate_mapping :: "nat list \<Rightarrow> nat list" where
  "rotate_mapping m = take 3 m @ rotate1 (take (MAX_STREAM_CONFIG - 3) (drop 3 m)) @ drop MAX_STREAM_CONFIG m"

definition advertised_mapping :: "nat \<Rightarrow> nat list" where
  "advertised_mapping x =
     (let m = op_mapping (stream_configs ! x)
      in if x = SURROUND51 \<or> x = SURROUND71 then rotate_mapping m else m)"

definition newline :: bytes where "newline = [0x0A]"

definition surround_line :: "nat \<Rightarrow> bytes" where
  "surround_line x =
     (let c = stream_configs ! x
      in ascii ''a=fmtp:97 surround-params='' @ to_text (int (op_channelCount c)) @ to_text (int (op_streams c)) @
         to_text (int (op_coupledStreams c)) @
         map (\<lambda>d. word_of_nat d + 0x30) (take (op_channelCount c) (advertised_mapping x)) @ newline)"

record rtsp_host =
  rh_capabilities :: u32
  rh_ref_invalidation :: bool
  rh_hevc_mode :: int
  rh_av1_mode :: int
  rh_port :: u16
  rh_packetsize :: int
  rh_fec_percentage :: int

definition ENCRYPTION_MODE_NEVER :: int where "ENCRYPTION_MODE_NEVER = 0"
definition ENCRYPTION_MODE_OPPORTUNISTIC :: int where "ENCRYPTION_MODE_OPPORTUNISTIC = 1"
definition ENCRYPTION_MODE_MANDATORY :: int where "ENCRYPTION_MODE_MANDATORY = 2"

definition encryption_flags_supported :: "ss_enc \<Rightarrow> int \<Rightarrow> u32" where
  "encryption_flags_supported e mode =
     SS_ENC_CONTROL_V2 e OR SS_ENC_AUDIO e OR (if mode \<noteq> ENCRYPTION_MODE_NEVER then SS_ENC_VIDEO e else 0)"

definition encryption_flags_requested :: "ss_enc \<Rightarrow> int \<Rightarrow> u32" where
  "encryption_flags_requested e mode =
     SS_ENC_CONTROL_V2 e OR
     (if mode \<noteq> ENCRYPTION_MODE_NEVER \<and> mode = ENCRYPTION_MODE_MANDATORY
      then SS_ENC_VIDEO e OR SS_ENC_AUDIO e else 0)"

definition cmd_describe :: "ss_enc \<Rightarrow> rtsp_host \<Rightarrow> int \<Rightarrow> launch_session \<Rightarrow> rtsp_request \<Rightarrow> rtsp_response" where
  "cmd_describe e h mode session req =
     respond [cseq req] 200 ''OK'' (rq_seqn req)
       (ascii ''a=x-ss-general.featureFlags:'' @ to_text (uint (rh_capabilities h)) @ newline @
        ascii ''a=x-ss-general.encryptionSupported:'' @ to_text (uint (encryption_flags_supported e mode)) @ newline @
        ascii ''a=x-ss-general.encryptionRequested:'' @ to_text (uint (encryption_flags_requested e mode)) @ newline @
        (if rh_ref_invalidation h then ascii ''a=x-nv-video[0].refPicInvalidation:1'' @ newline else []) @
        (if rh_hevc_mode h \<noteq> 1 then ascii ''sprop-parameter-sets=AAAAAU'' @ newline else []) @
        (if rh_av1_mode h \<noteq> 1 then ascii ''a=rtpmap:98 AV1/90000'' @ newline else []) @
        (if ls_surround_params session \<noteq> [] then
           (ascii ''a=fmtp:97 surround-params='' @ ls_surround_params session @ newline) @
           (ascii ''a=fmtp:97 surround-params='' @ ls_surround_params session @ newline)
         else []) @
        concat (map surround_line [0..<MAX_STREAM_CONFIG]))"

section \<open>SETUP\<close>

text \<open>
  The type is the text between the first \<open>=\<close> and the next \<open>/\<close> of the target. Without a \<open>=\<close> the
  search starts behind the end of the text: no result.
\<close>

definition setup_type :: "bytes \<Rightarrow> bytes option" where
  "setup_type target =
     (case dropWhile (\<lambda>c. c \<noteq> 0x3D) target of
        [] \<Rightarrow> None
      | _ # rest \<Rightarrow> Some (takeWhile (\<lambda>c. c \<noteq> 0x2F) rest))"

definition AUDIO_STREAM_PORT :: int where "AUDIO_STREAM_PORT = 11"
definition VIDEO_STREAM_PORT :: int where "VIDEO_STREAM_PORT = 9"
definition CONTROL_PORT :: int where "CONTROL_PORT = 10"

definition cmd_setup :: "rtsp_host \<Rightarrow> launch_session \<Rightarrow> rtsp_request \<Rightarrow> rtsp_response option" where
  "cmd_setup h session req =
     (case setup_type (rq_target req) of
        None \<Rightarrow> None
      | Some type \<Rightarrow>
          let port = (if type = ascii ''audio'' then Some (map_port (rh_port h) AUDIO_STREAM_PORT)
                else if type = ascii ''video'' then Some (map_port (rh_port h) VIDEO_STREAM_PORT)
                else if type = ascii ''control'' then Some (map_port (rh_port h) CONTROL_PORT) else None)
          in case port of
               None \<Rightarrow> Some (cmd_not_found req)
             | Some p \<Rightarrow> Some (respond
                 [cseq req, (ascii ''Session'', ascii ''DEADBEEFCAFE;timeout = 90''),
                  (ascii ''Transport'', ascii ''server_port='' @ to_text (uint p)),
                  (if type = ascii ''control''
                   then (ascii ''X-SS-Connect-Data'', to_text (uint (ls_control_connect_data session)))
                   else (ascii ''X-SS-Ping-Payload'', ls_av_ping_payload session))]
                 200 ''OK'' (rq_seqn req) []))"

section \<open>The description of the client\<close>

definition is_eol :: "u8 \<Rightarrow> bool" where
  "is_eol c \<longleftrightarrow> c = 0x0A \<or> c = 0x0D"

lemma length_dropWhile_Suc [termination_simp]: "length (dropWhile P xs) < Suc (length xs)"
  using length_dropWhile_le [of P xs] by simp

text \<open>Text behind the last line end is dropped; line ends at the start give one empty line.\<close>

function announce_lines :: "bytes \<Rightarrow> bytes \<Rightarrow> bytes list" where
  "announce_lines line [] = []"
| "announce_lines line (c # cs) =
     (if is_eol c then line # announce_lines [] (dropWhile is_eol cs)
      else announce_lines (line @ [c]) cs)"
  by pat_completeness auto
termination by (relation "measure (\<lambda>(line, cs). length cs)") (auto simp: length_dropWhile_Suc)

text \<open>
  One line: \<open>None\<close> is the read behind an empty value. Without a colon the whole line is the value.
  The first value of a name stays.
\<close>

definition colon_split :: "bytes \<Rightarrow> bytes \<times> bytes" where
  "colon_split line =
     (if 0x3A \<in> set line
      then (drop 2 (takeWhile (\<lambda>c. c \<noteq> 0x3A) line), tl (dropWhile (\<lambda>c. c \<noteq> 0x3A) line))
      else (drop 2 line, line))"

definition announce_line :: "bytes \<Rightarrow> (bytes \<rightharpoonup> bytes) \<Rightarrow> (bytes \<rightharpoonup> bytes) option" where
  "announce_line line args =
     (if take 2 line = ascii ''a='' then
        let (name, val) = colon_split line
        in if val = [] then None
           else Some (emplace name (if last val = 0x20 then butlast val else val) args)
      else Some args)"

fun announce_args :: "bytes list \<Rightarrow> (bytes \<rightharpoonup> bytes) \<Rightarrow> (bytes \<rightharpoonup> bytes) option" where
  "announce_args [] args = Some args"
| "announce_args (l # ls) args = (case announce_line l args of None \<Rightarrow> None | Some a \<Rightarrow> announce_args ls a)"

definition announce_defaults :: "(string \<times> string) list" where
  "announce_defaults =
     [(''x-nv-video[0].encoderCscMode'', ''0''), (''x-nv-vqos[0].bitStreamFormat'', ''0''),
      (''x-nv-video[0].dynamicRangeMode'', ''0''), (''x-nv-aqos.packetDuration'', ''5''),
      (''x-nv-general.useReliableUdp'', ''1''), (''x-nv-vqos[0].fec.minRequiredFecPackets'', ''0''),
      (''x-nv-general.featureFlags'', ''135''), (''x-ml-general.featureFlags'', ''0''),
      (''x-nv-vqos[0].qosTrafficType'', ''5''), (''x-nv-aqos.qosTrafficType'', ''4''),
      (''x-ml-video.configuredBitrateKbps'', ''0''), (''x-ss-general.encryptionEnabled'', ''0''),
      (''x-ss-video[0].chromaSamplingType'', ''0''), (''x-ss-video[0].intraRefresh'', ''0''),
      (''x-nv-video[0].clientRefreshRateX100'', ''0'')]"

definition with_defaults :: "(bytes \<rightharpoonup> bytes) \<Rightarrow> (bytes \<rightharpoonup> bytes)" where
  "with_defaults args = fold (\<lambda>(k, v). emplace (ascii k) (ascii v)) announce_defaults args"

section \<open>Configuration of a stream\<close>

record stream_params =
  sp_channelCount :: int
  sp_streams :: int
  sp_coupledStreams :: int
  sp_mapping :: "u8 list"

record audio_config =
  au_packetDuration :: int
  au_channels :: int
  au_mask :: int
  au_customStreamParams :: stream_params
  au_HIGH_QUALITY :: bool
  au_HOST_AUDIO :: bool
  au_CUSTOM_SURROUND_PARAMS :: bool
  au_CONTINUOUS_AUDIO :: bool

record monitor_config =
  mo_width :: int
  mo_height :: int
  mo_framerate :: int
  mo_framerateX100 :: int
  mo_bitrate :: int
  mo_slicesPerFrame :: int
  mo_numRefFrames :: int
  mo_encoderCscMode :: int
  mo_videoFormat :: int
  mo_dynamicRange :: int
  mo_chromaSamplingType :: int
  mo_enableIntraRefresh :: int

record stream_config =
  sc_audio :: audio_config
  sc_monitor :: monitor_config
  sc_packetsize :: int
  sc_minRequiredFecPackets :: int
  sc_mlFeatureFlags :: int
  sc_controlProtocolType :: int
  sc_audioQosType :: int
  sc_videoQosType :: int
  sc_encryptionFlagsEnabled :: u32

text \<open>A cast of \<open>int64_t\<close> to \<open>int\<close>.\<close>

definition to_int :: "int \<Rightarrow> int" where
  "to_int x = sint (word_of_int x :: 32 word)"

definition required_args :: "string list" where
  "required_args =
     [''x-nv-audio.surround.numChannels'', ''x-nv-audio.surround.channelMask'', ''x-nv-aqos.packetDuration'',
      ''x-nv-audio.surround.AudioQuality'', ''x-nv-general.useReliableUdp'', ''x-nv-video[0].packetSize'',
      ''x-nv-vqos[0].fec.minRequiredFecPackets'', ''x-ml-general.featureFlags'', ''x-nv-aqos.qosTrafficType'',
      ''x-nv-vqos[0].qosTrafficType'', ''x-ss-general.encryptionEnabled'', ''x-nv-general.featureFlags'',
      ''x-nv-video[0].clientViewportHt'', ''x-nv-video[0].clientViewportWd'', ''x-nv-video[0].maxFPS'',
      ''x-nv-video[0].clientRefreshRateX100'', ''x-nv-vqos[0].bw.maximumBitrateKbps'',
      ''x-nv-video[0].videoEncoderSlicesPerFrame'', ''x-nv-video[0].maxNumReferenceFrames'',
      ''x-nv-video[0].encoderCscMode'', ''x-nv-vqos[0].bitStreamFormat'', ''x-nv-video[0].dynamicRangeMode'',
      ''x-ss-video[0].chromaSamplingType'', ''x-ss-video[0].intraRefresh'', ''x-ml-video.configuredBitrateKbps'']"

definition PACKETSIZE_MIN :: int where "PACKETSIZE_MIN = 200"
definition PACKETSIZE_MAX :: int where "PACKETSIZE_MAX = 65535"

definition limit_packetsize :: "int \<Rightarrow> int \<Rightarrow> int" where
  "limit_packetsize limit packetsize =
     (if limit \<noteq> 0 \<and> limit < packetsize then
        if limit < PACKETSIZE_MIN \<or> limit > PACKETSIZE_MAX then packetsize else limit
      else packetsize)"

text \<open>The NTSC rate is kept when it is within one percent of the frame rate.\<close>

definition ntsc_rate :: "int \<Rightarrow> int \<Rightarrow> int" where
  "ntsc_rate x100 fps =
     (if x100 > 0 then
        let ratio = of_int x100 / 100 / (of_int fps :: rat)
        in if fps = 0 \<or> ratio < 99 / 100 \<or> ratio > 101 / 100 then 0 else x100
      else x100)"

text \<open>\<open>None\<close> is the exception of a missing value.\<close>

definition read_config ::
  "ss_enc \<Rightarrow> rtsp_host \<Rightarrow> launch_session \<Rightarrow> (bytes \<rightharpoonup> bytes) \<Rightarrow> (stream_config \<times> int) option" where
  "read_config e h session args =
     (if \<exists>name \<in> set required_args. args (ascii name) = None then None
      else
        let v = (\<lambda>name. from_chars (the (args (ascii name))));
            i = (\<lambda>name. to_int (v name));
            fps = i ''x-nv-video[0].maxFPS'';
            enc = word_of_int (v ''x-ss-general.encryptionEnabled'')
        in Some (\<lparr>
             sc_audio = \<lparr>
               au_packetDuration = i ''x-nv-aqos.packetDuration'',
               au_channels = i ''x-nv-audio.surround.numChannels'',
               au_mask = i ''x-nv-audio.surround.channelMask'',
               au_customStreamParams = \<lparr> sp_channelCount = 0, sp_streams = 0, sp_coupledStreams = 0, sp_mapping = [] \<rparr>,
               au_HIGH_QUALITY = (v ''x-nv-audio.surround.AudioQuality'' \<noteq> 0),
               au_HOST_AUDIO = ls_host_audio session,
               au_CUSTOM_SURROUND_PARAMS = False, au_CONTINUOUS_AUDIO = False \<rparr>,
             sc_monitor = \<lparr>
               mo_width = i ''x-nv-video[0].clientViewportWd'',
               mo_height = i ''x-nv-video[0].clientViewportHt'',
               mo_framerate = fps,
               mo_framerateX100 = ntsc_rate (i ''x-nv-video[0].clientRefreshRateX100'') fps,
               mo_bitrate = i ''x-nv-vqos[0].bw.maximumBitrateKbps'',
               mo_slicesPerFrame = i ''x-nv-video[0].videoEncoderSlicesPerFrame'',
               mo_numRefFrames = i ''x-nv-video[0].maxNumReferenceFrames'',
               mo_encoderCscMode = i ''x-nv-video[0].encoderCscMode'',
               mo_videoFormat = i ''x-nv-vqos[0].bitStreamFormat'',
               mo_dynamicRange = i ''x-nv-video[0].dynamicRangeMode'',
               mo_chromaSamplingType = i ''x-ss-video[0].chromaSamplingType'',
               mo_enableIntraRefresh = i ''x-ss-video[0].intraRefresh'' \<rparr>,
             sc_packetsize = limit_packetsize (rh_packetsize h) (i ''x-nv-video[0].packetSize''),
             sc_minRequiredFecPackets = i ''x-nv-vqos[0].fec.minRequiredFecPackets'',
             sc_mlFeatureFlags = i ''x-ml-general.featureFlags'',
             sc_controlProtocolType = i ''x-nv-general.useReliableUdp'',
             sc_audioQosType = i ''x-nv-aqos.qosTrafficType'',
             sc_videoQosType = i ''x-nv-vqos[0].qosTrafficType'',
             sc_encryptionFlagsEnabled = enc OR
               (if (word_of_int (v ''x-nv-general.featureFlags'') :: u64) AND 0x20 \<noteq> 0 then SS_ENC_AUDIO e else 0) \<rparr>,
           v ''x-ml-video.configuredBitrateKbps''))"

text \<open>The speakers of a custom layout, up to the first that does not exist.\<close>

fun speaker_mapping :: "u8 \<Rightarrow> bytes \<Rightarrow> u8 list \<times> bool" where
  "speaker_mapping c [] = ([], True)"
| "speaker_mapping c (d # ds) =
     (if d - 0x30 \<ge> c then ([d - 0x30], False)
      else let (ms, ok) = speaker_mapping c ds in ((d - 0x30) # ms, ok))"

definition custom_surround :: "bytes \<Rightarrow> audio_config \<Rightarrow> audio_config" where
  "custom_surround params a =
     (let c = params ! 0 - 0x30; n = params ! 1 - 0x30; m = params ! 2 - 0x30
      in if (c = 6 \<or> c = 8) \<and> uint c = au_channels a \<and> uint n + uint m = uint c \<and> length params = unat c + 3
         then
           let (mapping, valid) = speaker_mapping c (drop 3 params)
           in a\<lparr> au_customStreamParams := \<lparr> sp_channelCount = uint c, sp_streams = uint n,
                   sp_coupledStreams = uint m, sp_mapping = mapping \<rparr>,
                 au_CUSTOM_SURROUND_PARAMS := valid \<rparr>
         else a\<lparr> au_CUSTOM_SURROUND_PARAMS := False \<rparr>)"

definition host_quality :: "(bytes \<times> bytes) list \<Rightarrow> bool \<Rightarrow> bool" where
  "host_quality options q =
     fold (\<lambda>(name, content) q. if name = ascii ''Host'' then \<not> contains content (ascii ''0.0.0.0'') else q) options q"

definition announce_audio :: "launch_session \<Rightarrow> rtsp_request \<Rightarrow> audio_config \<Rightarrow> audio_config" where
  "announce_audio session req a =
     (let a1 = (if au_channels a = 2
            then a\<lparr> au_HIGH_QUALITY := host_quality (rq_options req) (au_HIGH_QUALITY a) \<rparr>
            else if length (ls_surround_params session) > 3 then custom_surround (ls_surround_params session) a
            else a)
      in if ls_continuous_audio session then a1\<lparr> au_CONTINUOUS_AUDIO := True \<rparr> else a1)"

text \<open>The video bitrate that leaves room for recovery packets, audio and overhead.\<close>

definition adjust_bitrate :: "int \<Rightarrow> audio_config \<Rightarrow> int \<Rightarrow> int" where
  "adjust_bitrate fec_percentage a kbps =
     (let k1 = (if fec_percentage \<le> 80 then trunc_div (kbps * (100 - fec_percentage)) 100 else kbps);
          k2 = k1 - min ((if au_HIGH_QUALITY a then 256 else 96) * au_channels a) (trunc_div k1 5)
      in k2 - min 500 (trunc_div k2 10))"

datatype announce_result = Undefined_Read | Reply_Announce rtsp_response | Start_Session stream_config

definition cmd_announce_config ::
  "ss_enc \<Rightarrow> rtsp_host \<Rightarrow> int \<Rightarrow> launch_session \<Rightarrow> rtsp_request \<Rightarrow> announce_result" where
  "cmd_announce_config e h mode session req =
     (case announce_args (announce_lines [] (rq_payload req)) Map.empty of
        None \<Rightarrow> Undefined_Read
      | Some args \<Rightarrow>
          (case read_config e h session (with_defaults args) of
             None \<Rightarrow> Reply_Announce (respond [cseq req] 400 ''BAD REQUEST'' (rq_seqn req) [])
           | Some (c, kbps) \<Rightarrow>
               let a = announce_audio session req (sc_audio c);
                   m = (if kbps \<noteq> 0
                     then (sc_monitor c)\<lparr> mo_bitrate := to_int (adjust_bitrate (rh_fec_percentage h) a kbps) \<rparr>
                     else sc_monitor c)
               in if mo_videoFormat m = 1 \<and> rh_hevc_mode h = 1 \<or> mo_videoFormat m = 2 \<and> rh_av1_mode h = 1
                  then Reply_Announce (respond [cseq req] 400 ''BAD REQUEST'' (rq_seqn req) [])
                  else if mode = ENCRYPTION_MODE_MANDATORY \<and>
                    sc_encryptionFlagsEnabled c AND (SS_ENC_VIDEO e OR SS_ENC_AUDIO e) \<noteq> SS_ENC_VIDEO e OR SS_ENC_AUDIO e
                  then Reply_Announce (respond [cseq req] 403 ''Forbidden'' (rq_seqn req) [])
                  else Start_Session (c\<lparr> sc_audio := a, sc_monitor := m \<rparr>)))"

section \<open>Properties\<close>

lemma read_config_sel:
  assumes "read_config e h session args = Some (c, kbps)"
  shows "au_HOST_AUDIO (sc_audio c) = ls_host_audio session"
    "PACKETSIZE_MIN \<le> rh_packetsize h \<Longrightarrow> rh_packetsize h \<le> PACKETSIZE_MAX \<Longrightarrow> sc_packetsize c \<le> rh_packetsize h"
proof -
  have lim: "limit_packetsize (rh_packetsize h) n \<le> rh_packetsize h"
    if "PACKETSIZE_MIN \<le> rh_packetsize h" "rh_packetsize h \<le> PACKETSIZE_MAX" for n
    using that by (auto simp: limit_packetsize_def PACKETSIZE_MIN_def)
  from assms have "au_HOST_AUDIO (sc_audio c) = ls_host_audio session \<and>
      (\<exists>n. sc_packetsize c = limit_packetsize (rh_packetsize h) n)"
    unfolding read_config_def Let_def by (auto split: if_splits)
  with lim show "au_HOST_AUDIO (sc_audio c) = ls_host_audio session"
    "PACKETSIZE_MIN \<le> rh_packetsize h \<Longrightarrow> rh_packetsize h \<le> PACKETSIZE_MAX \<Longrightarrow> sc_packetsize c \<le> rh_packetsize h"
    by auto
qed

lemma announce_audio_host: "au_HOST_AUDIO (announce_audio session req a) = au_HOST_AUDIO a"
  by (simp add: announce_audio_def custom_surround_def Let_def split: prod.split)

text \<open>
  (C5) A stream is started only as the host allows: when encryption is mandatory for the client's
  address, with audio and video encryption; never with a codec the host has disabled; with a
  packet size below a valid limit of the configuration; and with host audio exactly as the launch
  asked for.
\<close>
theorem announce_enforces_policy:
  assumes "cmd_announce_config e h mode session req = Start_Session c"
  shows "(mode = ENCRYPTION_MODE_MANDATORY \<longrightarrow>
      sc_encryptionFlagsEnabled c AND (SS_ENC_VIDEO e OR SS_ENC_AUDIO e) = SS_ENC_VIDEO e OR SS_ENC_AUDIO e) \<and>
    (rh_hevc_mode h = 1 \<longrightarrow> mo_videoFormat (sc_monitor c) \<noteq> 1) \<and>
    (rh_av1_mode h = 1 \<longrightarrow> mo_videoFormat (sc_monitor c) \<noteq> 2) \<and>
    (PACKETSIZE_MIN \<le> rh_packetsize h \<and> rh_packetsize h \<le> PACKETSIZE_MAX \<longrightarrow> sc_packetsize c \<le> rh_packetsize h) \<and>
    au_HOST_AUDIO (sc_audio c) = ls_host_audio session"
proof -
  from assms obtain args where args: "announce_args (announce_lines [] (rq_payload req)) Map.empty = Some args"
    unfolding cmd_announce_config_def by (auto split: option.splits)
  with assms obtain c0 kbps where r: "read_config e h session (with_defaults args) = Some (c0, kbps)"
    unfolding cmd_announce_config_def by (auto split: option.splits)
  define m where "m = (if kbps \<noteq> 0
      then (sc_monitor c0)\<lparr> mo_bitrate := to_int (adjust_bitrate (rh_fec_percentage h) (announce_audio session req (sc_audio c0)) kbps) \<rparr>
      else sc_monitor c0)"
  from assms have
    codec: "\<not> (mo_videoFormat m = 1 \<and> rh_hevc_mode h = 1 \<or> mo_videoFormat m = 2 \<and> rh_av1_mode h = 1)" and
    enc: "\<not> (mode = ENCRYPTION_MODE_MANDATORY \<and>
      sc_encryptionFlagsEnabled c0 AND (SS_ENC_VIDEO e OR SS_ENC_AUDIO e) \<noteq> SS_ENC_VIDEO e OR SS_ENC_AUDIO e)" and
    c: "c = c0\<lparr> sc_audio := announce_audio session req (sc_audio c0), sc_monitor := m \<rparr>"
    unfolding cmd_announce_config_def args option.case r prod.case Let_def m_def [symmetric]
    by (simp_all split: if_splits)
  from codec enc read_config_sel [OF r] show ?thesis
    unfolding c by (auto simp: announce_audio_host)
qed

lemma trunc_div_nonneg: "0 \<le> a \<Longrightarrow> 0 < b \<Longrightarrow> trunc_div a b = a div b"
  by (cases "a = 0") (simp_all add: trunc_div_def)

text \<open>
  The bitrate the encoder gets leaves room for the rest of the stream: with its recovery
  packets it stays within what the user configured, and audio and overhead take at most 28
  percent of what recovery leaves.
\<close>
theorem adjusted_bitrate_bounds:
  assumes "0 \<le> kbps" "0 \<le> fec" "fec \<le> 80" "0 \<le> au_channels a"
  shows "100 * adjust_bitrate fec a kbps \<le> kbps * (100 - fec) \<and> 0 \<le> adjust_bitrate fec a kbps \<and>
    25 * adjust_bitrate fec a kbps \<ge> 18 * (kbps * (100 - fec) div 100)"
proof -
  define k1 where "k1 = kbps * (100 - fec) div 100"
  define adj where "adj = (if au_HIGH_QUALITY a then 256 else 96) * au_channels a"
  define k2 where "k2 = k1 - min adj (k1 div 5)"
  have prod: "0 \<le> kbps * (100 - fec)" using assms by simp
  then have k1: "0 \<le> k1" "100 * k1 \<le> kbps * (100 - fec)" by (simp_all add: k1_def)
  have adj: "0 \<le> adj" using assms by (simp add: adj_def)
  have k2: "0 \<le> k2" "k2 \<le> k1" "5 * k2 \<ge> 4 * k1" using k1 adj by (auto simp: k2_def min_def)
  have eq: "adjust_bitrate fec a kbps = k2 - min 500 (k2 div 10)"
    using assms prod k1(1) k2(1)
    by (simp add: adjust_bitrate_def Let_def trunc_div_nonneg flip: k1_def adj_def) (simp add: k2_def trunc_div_nonneg)
  define r where "r = k2 - min 500 (k2 div 10)"
  have r: "0 \<le> r" "r \<le> k2" "10 * r \<ge> 9 * k2" using k2(1) by (auto simp: r_def min_def)
  have "100 * r \<le> 100 * k1" "18 * k1 \<le> 25 * r" using r k2 by linarith+
  with k1 r show ?thesis unfolding eq r_def [symmetric] k1_def [symmetric] by (meson order_trans)
qed

definition stereo :: audio_config where
  "stereo = \<lparr> au_packetDuration = 5, au_channels = 2, au_mask = 3,
     au_customStreamParams = \<lparr> sp_channelCount = 0, sp_streams = 0, sp_coupledStreams = 0, sp_mapping = [] \<rparr>,
     au_HIGH_QUALITY = True, au_HOST_AUDIO = False, au_CUSTOM_SURROUND_PARAMS = False, au_CONTINUOUS_AUDIO = False \<rparr>"

theorem adjusted_bitrate_bounds_witness:
  "adjust_bitrate 20 stereo 20000 = 14988 \<and> 100 * adjust_bitrate 20 stereo 20000 \<le> 1600000"
  using adjusted_bitrate_bounds [of 20000 20 stereo]
  by (simp add: stereo_def) (simp add: adjust_bitrate_def trunc_div_def)

section \<open>Reading a description\<close>

text \<open>A line a client writes for a name and a value, as the code takes it apart.\<close>

definition arg_line :: "bytes \<times> bytes \<Rightarrow> bytes" where
  "arg_line nv = ascii ''a='' @ fst nv @ [0x3A] @ snd nv"

definition arg_ok :: "bytes \<times> bytes \<Rightarrow> bool" where
  "arg_ok nv \<longleftrightarrow> 0x3A \<notin> set (fst nv) \<and> snd nv \<noteq> [] \<and> last (snd nv) \<noteq> 0x20 \<and>
     (\<forall>c \<in> set (fst nv) \<union> set (snd nv). \<not> is_eol c)"

definition crlf_text :: "bytes list \<Rightarrow> bytes" where
  "crlf_text ls = concat (map (\<lambda>l. l @ [0x20, 0x0D, 0x0A]) ls)"

lemma announce_lines_line:
  "\<forall>c \<in> set l. \<not> is_eol c \<Longrightarrow> announce_lines pre (l @ [0x20, 0x0D, 0x0A] @ rest) =
     (pre @ l @ [0x20]) # announce_lines [] (dropWhile is_eol rest)"
  by (induction l arbitrary: pre) (simp_all add: is_eol_def)

lemma crlf_start:
  assumes "\<forall>l \<in> set ls. l \<noteq> [] \<and> (\<forall>c \<in> set l. \<not> is_eol c)"
  shows "dropWhile is_eol (crlf_text ls) = crlf_text ls"
proof (cases ls)
  case (Cons l rest)
  with assms show ?thesis by (cases l) (simp_all add: crlf_text_def)
qed (simp add: crlf_text_def)

lemma announce_lines_crlf:
  assumes "\<forall>l \<in> set ls. l \<noteq> [] \<and> (\<forall>c \<in> set l. \<not> is_eol c)"
  shows "announce_lines [] (crlf_text ls) = map (\<lambda>l. l @ [0x20]) ls"
  using assms
proof (induction ls)
  case (Cons l ls)
  have "announce_lines [] (crlf_text (l # ls)) = (l @ [0x20]) # announce_lines [] (dropWhile is_eol (crlf_text ls))"
    using announce_lines_line [of l "[]" "crlf_text ls"] Cons.prems by (simp add: crlf_text_def)
  also have "dropWhile is_eol (crlf_text ls) = crlf_text ls" using Cons.prems by (intro crlf_start) simp
  finally show ?case using Cons by simp
qed (simp add: crlf_text_def)

lemma split_at:
  "x \<notin> set n \<Longrightarrow> dropWhile (\<lambda>c. c \<noteq> x) (n @ x # r) = x # r"
  "x \<notin> set n \<Longrightarrow> takeWhile (\<lambda>c. c \<noteq> x) (n @ x # r) = n"
  by (induction n) auto

lemma announce_line_arg:
  assumes "arg_ok nv"
  shows "announce_line (arg_line nv @ [0x20]) args = Some (emplace (fst nv) (snd nv) args)"
proof -
  obtain n v where nv: "nv = (n, v)" by (cases nv)
  have tw: "takeWhile (\<lambda>c. c \<noteq> 0x3A) (ascii ''a='' @ n @ 0x3A # v @ [0x20]) = ascii ''a='' @ n"
    "dropWhile (\<lambda>c. c \<noteq> 0x3A) (ascii ''a='' @ n @ 0x3A # v @ [0x20]) = 0x3A # v @ [0x20]"
    using assms nv by (simp_all add: ascii_def arg_ok_def split_at)
  have "colon_split (arg_line nv @ [0x20]) = (n, v @ [0x20])"
    using tw by (simp add: colon_split_def arg_line_def nv ascii_def)
  moreover have "take 2 (arg_line nv @ [0x20]) = ascii ''a=''" by (simp add: arg_line_def ascii_def)
  ultimately show ?thesis by (simp add: announce_line_def nv)
qed

lemma announce_args_fold:
  "\<forall>nv \<in> set nvs. arg_ok nv \<Longrightarrow>
     announce_args (map (\<lambda>nv. arg_line nv @ [0x20]) nvs) args = Some (fold (\<lambda>(n, v). emplace n v) nvs args)"
  by (induction nvs arbitrary: args) (auto simp: announce_line_arg)

lemma announce_args_map_of:
  assumes "\<forall>nv \<in> set nvs. arg_ok nv"
  shows "announce_args (announce_lines [] (crlf_text (map arg_line nvs))) Map.empty = Some (map_of nvs)"
proof -
  have l: "\<forall>l \<in> set (map arg_line nvs). l \<noteq> [] \<and> (\<forall>c \<in> set l. \<not> is_eol c)"
  proof
    fix l assume "l \<in> set (map arg_line nvs)"
    then obtain nv where "nv \<in> set nvs" "l = arg_line nv" by auto
    with assms show "l \<noteq> [] \<and> (\<forall>c \<in> set l. \<not> is_eol c)"
      by (auto simp: arg_line_def arg_ok_def ascii_def is_eol_def)
  qed
  have m: "fold (\<lambda>(n, v). emplace n v) nvs m = (\<lambda>k. case m k of None \<Rightarrow> map_of nvs k | Some v \<Rightarrow> Some v)" for m
    by (induction nvs arbitrary: m) (auto simp: emplace_def fun_eq_iff split: option.splits)
  show ?thesis
    unfolding announce_lines_crlf [OF l] using announce_args_fold [OF assms, of Map.empty] m [of Map.empty]
    by (simp add: comp_def)
qed

text \<open>
  (C31) A description is read back as written: from lines that each give a name, a colon, a value
  and a space, in any order and with repeated names, the host takes for every name the value of
  its first line.
\<close>
theorem announce_args_round_trip:
  assumes "\<forall>nv \<in> set nvs. arg_ok nv"
  shows "announce_args (announce_lines [] (crlf_text (map arg_line nvs))) Map.empty = Some (map_of nvs)"
  by (rule announce_args_map_of [OF assms])

theorem announce_args_round_trip_witness:
  "announce_args (announce_lines [] (crlf_text (map arg_line [(ascii ''w'', ascii ''1920''), (ascii ''w'', ascii ''7'')])))
     Map.empty = Some [ascii ''w'' \<mapsto> ascii ''1920'']"
proof -
  have "\<forall>nv \<in> set [(ascii ''w'', ascii ''1920''), (ascii ''w'', ascii ''7'')]. arg_ok nv"
    by (simp add: arg_ok_def ascii_def is_eol_def)
  from announce_args_round_trip [OF this] show ?thesis by (simp add: fun_eq_iff)
qed

lemma setup_type_None: "setup_type t = None \<longleftrightarrow> 0x3D \<notin> set t"
proof -
  have "setup_type t = None \<longleftrightarrow> dropWhile (\<lambda>c. c \<noteq> 0x3D) t = []"
    by (cases "dropWhile (\<lambda>c. c \<noteq> 0x3D) t") (simp_all add: setup_type_def del: dropWhile_eq_Nil_conv)
  then show ?thesis by (auto simp: dropWhile_eq_Nil_conv)
qed

lemma announce_empty_value:
  assumes "0x3A \<notin> set n"
  shows "announce_line (ascii ''a='' @ n @ [0x3A]) args = None"
proof -
  have "0x3A \<in> set (ascii ''a='' @ n @ [0x3A])" by simp
  moreover have "dropWhile (\<lambda>c. c \<noteq> 0x3A) ((ascii ''a='' @ n) @ 0x3A # []) = 0x3A # []"
    using assms by (intro split_at) (simp add: ascii_def)
  ultimately have "snd (colon_split (ascii ''a='' @ n @ [0x3A])) = []" by (simp add: colon_split_def)
  moreover have "take 2 (ascii ''a='' @ n @ [0x3A]) = ascii ''a=''" by (simp add: ascii_def)
  ultimately show ?thesis by (simp add: announce_line_def split_beta)
qed

lemma cmd_setup_cases:
  assumes "setup_type (rq_target req) = Some type"
  obtains (stream) options where "type \<in> {ascii ''audio'', ascii ''video'', ascii ''control''}"
      "cmd_setup h session req = Some (respond options 200 ''OK'' (rq_seqn req) [])"
  | (other) "type \<notin> {ascii ''audio'', ascii ''video'', ascii ''control''}"
      "cmd_setup h session req = Some (cmd_not_found req)"
  using assms unfolding cmd_setup_def Let_def
  by (cases "type = ascii ''audio''"; cases "type = ascii ''video''"; cases "type = ascii ''control''") force+

text \<open>
  Two requests of a client make the host read outside a text: a description with an empty
  value, and a \<open>SETUP\<close> whose target has no equals sign. Every other \<open>SETUP\<close> is answered, with 200
  exactly when it names audio, video or control.
\<close>
theorem requests_read_outside:
  "(0x3A \<notin> set n \<longrightarrow> announce_line (ascii ''a='' @ n @ [0x3A]) args = None) \<and>
   (cmd_setup h session req = None \<longleftrightarrow> 0x3D \<notin> set (rq_target req)) \<and>
   (\<forall>r. cmd_setup h session req = Some r \<longrightarrow>
     (rs_status r = 200 \<longleftrightarrow> setup_type (rq_target req) \<in> Some ` {ascii ''audio'', ascii ''video'', ascii ''control''}))"
proof (cases "setup_type (rq_target req)")
  case None
  then show ?thesis
    using setup_type_None [of "rq_target req"] announce_empty_value [of n args] by (simp add: cmd_setup_def)
next
  case (Some type)
  then have "0x3D \<in> set (rq_target req)" using setup_type_None [of "rq_target req"] by (metis option.distinct(1))
  with Some show ?thesis
    by (rule_tac cmd_setup_cases [OF Some, of h session])
      (simp_all add: announce_empty_value respond_def cmd_not_found_def image_iff)
qed

theorem requests_read_outside_witness:
  "announce_line (ascii ''a=x:'') Map.empty = None \<and>
   cmd_setup h session \<lparr> rq_command = ascii ''SETUP'', rq_target = ascii ''streamid'', rq_seqn = 3, rq_options = [], rq_payload = [] \<rparr> = None"
proof -
  have e: "ascii ''a=x:'' = ascii ''a='' @ ascii ''x'' @ [0x3A]" by (simp add: ascii_def)
  have "0x3A \<notin> set (ascii ''x'')" "0x3D \<notin> set (ascii ''streamid'')" by (simp_all add: ascii_def)
  then show ?thesis
    using requests_read_outside [of "ascii ''x''" Map.empty h session
        "\<lparr> rq_command = ascii ''SETUP'', rq_target = ascii ''streamid'', rq_seqn = 3, rq_options = [], rq_payload = [] \<rparr>"]
    unfolding e by simp
qed

section \<open>Surround layouts\<close>

text \<open>What a client does to the mapping of a normal quality layout, by the comment in the code.\<close>

definition client_rotates :: "nat list \<Rightarrow> nat list" where
  "client_rotates m = take 3 m @ [last m] @ butlast (drop 3 m)"

text \<open>
  The rotation of the normal quality layouts makes up for the client's for 5.1, but it
  rotates up to the number of layouts, six, instead of the number of channels: of 7.1 the client
  gets low frequency, both back and the left side channel at the wrong places.
\<close>
theorem surround71_rotated_wrong:
  "client_rotates (advertised_mapping SURROUND51) = op_mapping (stream_configs ! SURROUND51) \<and>
   client_rotates (advertised_mapping SURROUND71) = [0, 1, 2, 7, 4, 5, 3, 6] \<and>
   op_mapping (stream_configs ! SURROUND71) = [0, 1, 2, 3, 4, 5, 6, 7]"
  by (simp add: client_rotates_def advertised_mapping_def rotate_mapping_def stream_configs_def SURROUND51_def
      SURROUND71_def MAX_STREAM_CONFIG_def upt_rec Let_def)

text \<open>
  A custom layout the client sends back in the format of the advertised ones is accepted
  as it is: channel count, streams, coupled streams and every speaker.
\<close>
theorem custom_surround_accepts:
  assumes "c = 6 \<or> c = 8" "uint n + uint m = uint c" "length speakers = unat c" "\<forall>d \<in> set speakers. d < c"
    "au_channels a = uint c"
  shows "custom_surround ([c + 0x30, n + 0x30, m + 0x30] @ map (\<lambda>d. d + 0x30) speakers) a =
    a\<lparr> au_customStreamParams := \<lparr> sp_channelCount = uint c, sp_streams = uint n, sp_coupledStreams = uint m,
        sp_mapping = speakers \<rparr>, au_CUSTOM_SURROUND_PARAMS := True \<rparr>"
proof -
  let ?p = "[c + 0x30, n + 0x30, m + 0x30] @ map (\<lambda>d. d + 0x30) speakers"
  have map: "speaker_mapping c (map (\<lambda>d. d + 0x30) ds) = (ds, True)" if "\<forall>d \<in> set ds. d < c" for ds
    using that by (induction ds) (auto simp: not_le)
  have nth: "?p ! 0 - 0x30 = c" "?p ! 1 - 0x30 = n" "?p ! 2 - 0x30 = m" by simp_all
  have d: "drop 3 ?p = map (\<lambda>d. d + 0x30) speakers" by simp
  have l: "length ?p = unat c + 3" using assms(3) by simp
  show ?thesis
    unfolding custom_surround_def Let_def nth d l map [OF assms(4)] prod.case
    by (rule if_P) (use assms(1,2,5) in simp)
qed

theorem custom_surround_accepts_witness:
  "au_CUSTOM_SURROUND_PARAMS (custom_surround (ascii ''642012345'') (stereo\<lparr> au_channels := 6 \<rparr>))"
proof -
  have "custom_surround ([6 + 0x30, 4 + 0x30, 2 + 0x30] @ map (\<lambda>d. d + 0x30) [0, 1, 2, 3, 4, 5]) (stereo\<lparr> au_channels := 6 \<rparr>) =
    (stereo\<lparr> au_channels := 6 \<rparr>)\<lparr> au_customStreamParams := \<lparr> sp_channelCount = uint (6 :: u8), sp_streams = uint (4 :: u8),
        sp_coupledStreams = uint (2 :: u8), sp_mapping = [0, 1, 2, 3, 4, 5] \<rparr>, au_CUSTOM_SURROUND_PARAMS := True \<rparr>"
    by (rule custom_surround_accepts) (simp_all add: stereo_def)
  then show ?thesis by (simp add: ascii_def)
qed

section \<open>An example\<close>

definition host_example :: rtsp_host where
  "host_example = \<lparr> rh_capabilities = 3, rh_ref_invalidation = False, rh_hevc_mode = 2, rh_av1_mode = 2,
     rh_port = 47989, rh_packetsize = 1400, rh_fec_percentage = 20 \<rparr>"

definition ss_example :: ss_enc where
  "ss_example = \<lparr> SS_ENC_CONTROL_V2 = 1, SS_ENC_VIDEO = 2, SS_ENC_AUDIO = 4 \<rparr>"

definition launch_example :: launch_session where
  "launch_example = \<lparr> ls_id = 1, ls_gcm_key = [], ls_iv = [], ls_av_ping_payload = [], ls_control_connect_data = 7,
     ls_host_audio = True, ls_unique_id = [], ls_width = 0, ls_height = 0, ls_fps = 0, ls_gcmap = 0, ls_appid = 0,
     ls_surround_info = 0, ls_surround_params = [], ls_continuous_audio = False, ls_enable_hdr = False,
     ls_enable_sops = False, ls_encrypted = True, ls_rtsp_url_scheme = [], ls_rtsp_iv_counter = 0, ls_client_cert = [] \<rparr>"

lemma with_defaults_map_of:
  "with_defaults (map_of nvs) = map_of (nvs @ map (\<lambda>(k, v). (ascii k, ascii v)) announce_defaults)"
proof -
  have "fold (\<lambda>(k, v). emplace (ascii k) (ascii v)) ds m =
      (\<lambda>k. case m k of None \<Rightarrow> map_of (map (\<lambda>(k, v). (ascii k, ascii v)) ds) k | Some v \<Rightarrow> Some v)" for ds m
    by (induction ds arbitrary: m) (auto simp: emplace_def fun_eq_iff split: option.splits)
  then show ?thesis by (simp add: with_defaults_def fun_eq_iff map_add_def split: option.split)
qed

definition args_example :: "(string \<times> string) list" where
  "args_example = [(''x-nv-audio.surround.numChannels'', ''2''), (''x-nv-audio.surround.channelMask'', ''3''),
        (''x-nv-audio.surround.AudioQuality'', ''0''), (''x-nv-video[0].packetSize'', ''1500''),
        (''x-nv-video[0].clientViewportHt'', ''1080''), (''x-nv-video[0].clientViewportWd'', ''1920''),
        (''x-nv-video[0].maxFPS'', ''60''), (''x-nv-vqos[0].bw.maximumBitrateKbps'', ''20000''),
        (''x-nv-video[0].videoEncoderSlicesPerFrame'', ''4''), (''x-nv-video[0].maxNumReferenceFrames'', ''1''),
        (''x-ss-general.encryptionEnabled'', ''7'')]"

lemma map_of_ascii: "map_of (map (\<lambda>(k, v). (ascii k, ascii v)) xs) (ascii k) = map_option ascii (map_of xs k)"
  by (induction xs) auto

definition announce_example :: rtsp_request where
  "announce_example = \<lparr> rq_command = ascii ''ANNOUNCE'', rq_target = [], rq_seqn = 6, rq_options = [],
     rq_payload = crlf_text (map (\<lambda>(n, v). arg_line (ascii n, ascii v)) args_example) \<rparr>"

lemma read_example:
  "\<exists>c k. read_config ss_example host_example launch_example
      (map_of (map (\<lambda>(k, v). (ascii k, ascii v)) (args_example @ announce_defaults))) = Some (c, k) \<and>
    sc_encryptionFlagsEnabled c AND 6 = 6"
proof -
  have "\<not> (\<exists>name \<in> set required_args. map_of (args_example @ announce_defaults) name = None)"
    by (simp add: required_args_def args_example_def announce_defaults_def)
  moreover have "map_of (args_example @ announce_defaults) ''x-ss-general.encryptionEnabled'' = Some ''7''"
    by (simp add: args_example_def)
  moreover have "from_chars (ascii ''7'') = 7" by (simp add: from_chars_def ascii_def)
  ultimately show ?thesis
    unfolding read_config_def Let_def map_of_ascii ss_example_def by simp
qed
lemma announce_example_starts:
  "\<exists>c. cmd_announce_config ss_example host_example ENCRYPTION_MODE_MANDATORY launch_example announce_example = Start_Session c \<and>
     sc_encryptionFlagsEnabled c AND 6 = 6"
proof -
  let ?nvs = "map (\<lambda>(k, v). (ascii k, ascii v)) args_example"
  have ok: "\<forall>nv \<in> set ?nvs. arg_ok nv"
    by (simp add: args_example_def arg_ok_def) (simp add: ascii_def is_eol_def)
  have p: "rq_payload announce_example = crlf_text (map arg_line ?nvs)"
    by (simp add: announce_example_def comp_def case_prod_unfold)
  have args: "announce_args (announce_lines [] (rq_payload announce_example)) Map.empty = Some (map_of ?nvs)"
    unfolding p by (rule announce_args_map_of [OF ok])
  have d: "with_defaults (map_of ?nvs) = map_of (map (\<lambda>(k, v). (ascii k, ascii v)) (args_example @ announce_defaults))"
    by (simp add: with_defaults_map_of)
  obtain c k where r: "read_config ss_example host_example launch_example
      (map_of (map (\<lambda>(k, v). (ascii k, ascii v)) (args_example @ announce_defaults))) = Some (c, k)"
      "sc_encryptionFlagsEnabled c AND 6 = 6" using read_example by blast
  have h: "rh_hevc_mode host_example \<noteq> 1" "rh_av1_mode host_example \<noteq> 1" "rh_packetsize host_example = 1400"
    by (simp_all add: host_example_def)
  have enc: "SS_ENC_VIDEO ss_example OR SS_ENC_AUDIO ss_example = 6" by (simp add: ss_example_def)
  show ?thesis
    unfolding cmd_announce_config_def args option.case d r(1) prod.case Let_def enc using h r(2) by simp
qed

theorem announce_enforces_policy_witness:
  "\<exists>c. cmd_announce_config ss_example host_example ENCRYPTION_MODE_MANDATORY launch_example announce_example = Start_Session c \<and>
     sc_encryptionFlagsEnabled c AND 6 = 6 \<and> sc_packetsize c \<le> 1400 \<and> au_HOST_AUDIO (sc_audio c)"
proof -
  obtain c where c: "cmd_announce_config ss_example host_example ENCRYPTION_MODE_MANDATORY launch_example announce_example = Start_Session c"
    "sc_encryptionFlagsEnabled c AND 6 = 6"
    using announce_example_starts by blast
  with announce_enforces_policy [OF c(1)] show ?thesis
    by (simp add: PACKETSIZE_MIN_def PACKETSIZE_MAX_def launch_example_def host_example_def)
qed

end
