(* ===== verification/Process.thy ===== *)
theory Process
  imports Rtsp_Commands "HOL-Library.Monad_Syntax"
begin

text \<open>
  Running applications: \<open>proc_t\<close> of \<open>src/process.cpp\<close> with its preparation commands, the
  graceful end of a process group, and the reading of the application list. The operating system is a
  parameter: a \<open>platform\<close> answers each question from the calls made so far, which the state keeps as
  a log. Texts are lists of bytes.
\<close>

section \<open>Applications\<close>

record prep_cmd =
  do_cmd :: bytes
  undo_cmd :: bytes
  pc_elevated :: bool

record app =
  ap_prep_cmds :: "prep_cmd list"
  ap_detached :: "bytes list"
  ap_name :: bytes
  ap_cmd :: bytes
  ap_working_dir :: bytes
  ap_output :: bytes
  ap_image_path :: bytes
  ap_id :: bytes
  ap_elevated :: bool
  ap_auto_detach :: bool
  ap_wait_all :: bool
  ap_exit_timeout :: int

definition app_empty :: app where
  "app_empty = \<lparr> ap_prep_cmds = [], ap_detached = [], ap_name = [], ap_cmd = [], ap_working_dir = [],
     ap_output = [], ap_image_path = [], ap_id = [], ap_elevated = False, ap_auto_detach = False,
     ap_wait_all = False, ap_exit_timeout = 0 \<rparr>"

text \<open>What the code asks of the system; \<open>True\<close> marks a preparation command that succeeded.\<close>

datatype proc_event =
    Do_Run prep_cmd bool
  | Undo_Run prep_cmd
  | Detached_Run bytes
  | App_Run bytes
  | Exit_Requested
  | Slept
  | Group_Terminated
  | Gamepads_Terminated
  | Display_Configured
  | Display_Reverted

datatype run_error = Permission_Denied | Other_Error

record run_result =
  rr_ec :: "run_error option"
  rr_wait_failed :: bool
  rr_exit_code :: int

record platform =
  pf_run :: "proc_event list \<Rightarrow> bool \<Rightarrow> bytes \<Rightarrow> bytes \<Rightarrow> run_result"
  pf_group_running :: "proc_event list \<Rightarrow> bool"
  pf_request_exit :: "proc_event list \<Rightarrow> bool"
  pf_running :: "proc_event list \<Rightarrow> bool"
  pf_exit_code :: "proc_event list \<Rightarrow> int"
  pf_split :: "bytes \<Rightarrow> bytes list option"
  pf_absolute :: "bytes \<Rightarrow> bool"
  pf_search_path :: "bytes \<Rightarrow> bytes"
  pf_parent_path :: "bytes \<Rightarrow> bytes"

record proc =
  pr_app_id :: int
  pr_env :: "bytes \<rightharpoonup> bytes"
  pr_apps :: "app list"
  pr_app :: app
  pr_launch_time :: int
  pr_placebo :: bool
  pr_process :: bool
  pr_group :: bool
  pr_pipe :: "bytes option"
  pr_prep_it :: nat
  pr_log :: "proc_event list"

definition proc_new :: "(bytes \<rightharpoonup> bytes) \<Rightarrow> app list \<Rightarrow> proc" where
  "proc_new env apps = \<lparr> pr_app_id = 0, pr_env = env, pr_apps = apps, pr_app = app_empty, pr_launch_time = 0,
     pr_placebo = False, pr_process = False, pr_group = False, pr_pipe = None, pr_prep_it = 0, pr_log = [] \<rparr>"

section \<open>The working directory of a command\<close>

definition find_working_directory :: "platform \<Rightarrow> bytes \<Rightarrow> bytes" where
  "find_working_directory pf cmd =
     (case pf_split pf cmd of
        None \<Rightarrow> []
      | Some [] \<Rightarrow> []
      | Some (target # _) \<Rightarrow>
          if contains target (ascii ''://'') then []
          else if pf_absolute pf target then pf_parent_path pf target
          else let path = pf_search_path pf target
               in if path = [] then [] else pf_parent_path pf path)"

definition working_dir_of :: "platform \<Rightarrow> app \<Rightarrow> bytes \<Rightarrow> bytes" where
  "working_dir_of pf a cmd = (if ap_working_dir a = [] then find_working_directory pf cmd else ap_working_dir a)"

section \<open>The end of an application\<close>

text \<open>Polls once a second while the group runs; the number of polls is bounded by the timeout.\<close>

fun wait_for_exit :: "platform \<Rightarrow> nat \<Rightarrow> proc_event list \<Rightarrow> proc_event list" where
  "wait_for_exit pf 0 l = l"
| "wait_for_exit pf (Suc t) l = (if pf_group_running pf l then wait_for_exit pf t (l @ [Slept]) else l)"

definition terminate_process_group :: "platform \<Rightarrow> bool \<Rightarrow> int \<Rightarrow> proc_event list \<Rightarrow> proc_event list" where
  "terminate_process_group pf valid exit_timeout l =
     (if valid \<and> pf_group_running pf l then
        let l1 = (if exit_timeout > 0 then
              if pf_request_exit pf l then wait_for_exit pf (nat exit_timeout) (l @ [Exit_Requested])
              else l @ [Exit_Requested]
            else l)
        in l1 @ [Group_Terminated]
      else l)"

text \<open>The undo commands from the last command that ran back to the first; their results are ignored.\<close>

fun undo_loop :: "app \<Rightarrow> nat \<Rightarrow> proc_event list \<Rightarrow> proc_event list" where
  "undo_loop a 0 l = l"
| "undo_loop a (Suc k) l =
     (let c = ap_prep_cmds a ! k
      in undo_loop a k (if undo_cmd c = [] then l else l @ [Undo_Run c]))"

definition terminate :: "platform \<Rightarrow> proc \<Rightarrow> proc" where
  "terminate pf s =
     (let l1 = terminate_process_group pf (pr_group s) (ap_exit_timeout (pr_app s)) (pr_log s @ [Gamepads_Terminated]);
          l2 = undo_loop (pr_app s) (pr_prep_it s) l1;
          l3 = (if ap_name (pr_app s) \<noteq> [] \<and> pr_app_id s > 0 then l2 @ [Display_Reverted] else l2)
      in s\<lparr> pr_placebo := False, pr_process := False, pr_group := False, pr_prep_it := 0, pr_pipe := None,
            pr_app_id := - 1, pr_log := l3 \<rparr>)"

section \<open>Starting an application\<close>

definition bool_text :: "bool \<Rightarrow> bytes" where
  "bool_text b = (if b then ascii ''true'' else ascii ''false'')"

definition client_env :: "int \<Rightarrow> app \<Rightarrow> launch_session \<Rightarrow> (bytes \<rightharpoonup> bytes) \<Rightarrow> (bytes \<rightharpoonup> bytes)" where
  "client_env app_id a ls env =
     (let e1 = env(ascii ''SUNSHINE_APP_ID'' \<mapsto> to_text app_id,
            ascii ''SUNSHINE_APP_NAME'' \<mapsto> ap_name a,
            ascii ''SUNSHINE_CLIENT_WIDTH'' \<mapsto> to_text (ls_width ls),
            ascii ''SUNSHINE_CLIENT_HEIGHT'' \<mapsto> to_text (ls_height ls),
            ascii ''SUNSHINE_CLIENT_FPS'' \<mapsto> to_text (ls_fps ls),
            ascii ''SUNSHINE_CLIENT_HDR'' \<mapsto> bool_text (ls_enable_hdr ls),
            ascii ''SUNSHINE_CLIENT_GCMAP'' \<mapsto> to_text (ls_gcmap ls),
            ascii ''SUNSHINE_CLIENT_HOST_AUDIO'' \<mapsto> bool_text (ls_host_audio ls),
            ascii ''SUNSHINE_CLIENT_ENABLE_SOPS'' \<mapsto> bool_text (ls_enable_sops ls));
          channelCount = ls_surround_info ls mod 65536;
          e2 = (if channelCount = 2 then e1(ascii ''SUNSHINE_CLIENT_AUDIO_CONFIGURATION'' \<mapsto> ascii ''2.0'')
            else if channelCount = 6 then e1(ascii ''SUNSHINE_CLIENT_AUDIO_CONFIGURATION'' \<mapsto> ascii ''5.1'')
            else if channelCount = 8 then e1(ascii ''SUNSHINE_CLIENT_AUDIO_CONFIGURATION'' \<mapsto> ascii ''7.1'')
            else e1)
      in e2(ascii ''SUNSHINE_CLIENT_AUDIO_SURROUND_PARAMS'' \<mapsto> ls_surround_params ls))"

definition do_ok :: "app \<Rightarrow> run_result \<Rightarrow> bool" where
  "do_ok a r \<longleftrightarrow> (rr_ec r = None \<or> ap_cmd a = [] \<and> rr_ec r = Some Permission_Denied) \<and>
     \<not> rr_wait_failed r \<and> rr_exit_code r = 0"

text \<open>The commands from the iterator on; it stays at the first that fails.\<close>

fun do_loop :: "platform \<Rightarrow> app \<Rightarrow> prep_cmd list \<Rightarrow> nat \<Rightarrow> proc_event list \<Rightarrow> bool \<times> nat \<times> proc_event list" where
  "do_loop pf a [] it l = (True, it, l)"
| "do_loop pf a (c # cs) it l =
     (if do_cmd c = [] then do_loop pf a cs (it + 1) l
      else if do_ok a (pf_run pf l (pc_elevated c) (do_cmd c) (working_dir_of pf a (do_cmd c)))
      then do_loop pf a cs (it + 1) (l @ [Do_Run c True])
      else (False, it, l @ [Do_Run c False]))"

fun find_app :: "bytes \<Rightarrow> app list \<Rightarrow> app option" where
  "find_app i [] = None"
| "find_app i (a # as) = (if ap_id a = i then Some a else find_app i as)"

definition execute :: "platform \<Rightarrow> int \<Rightarrow> int \<Rightarrow> launch_session \<Rightarrow> proc \<Rightarrow> int \<times> proc" where
  "execute pf now app_id ls s0 =
     (let s = terminate pf s0
      in case find_app (to_text app_id) (pr_apps s) of
        None \<Rightarrow> (404, s)
      | Some a \<Rightarrow>
          let s1 = s\<lparr> pr_app_id := app_id, pr_app := a, pr_prep_it := 0,
                pr_env := client_env app_id a ls (pr_env s),
                pr_pipe := (if ap_output a \<noteq> [] \<and> ap_output a \<noteq> ascii ''null'' then Some (ap_output a) else pr_pipe s) \<rparr>;
              (ok, it, l) = do_loop pf a (ap_prep_cmds a) 0 (pr_log s1);
              s2 = s1\<lparr> pr_prep_it := it, pr_log := l \<rparr>
          in if \<not> ok then (- 1, terminate pf s2)
             else
               let s3 = s2\<lparr> pr_log := l @ map Detached_Run (ap_detached a) \<rparr>
               in if ap_cmd a = [] then (0, s3\<lparr> pr_placebo := True, pr_launch_time := now \<rparr>)
                  else
                    let r = pf_run pf (pr_log s3) (ap_elevated a) (ap_cmd a) (working_dir_of pf a (ap_cmd a));
                        started = (rr_ec r = None);
                        s4 = s3\<lparr> pr_process := started, pr_group := started, pr_log := pr_log s3 @ [App_Run (ap_cmd a)] \<rparr>
                    in if started then (0, s4\<lparr> pr_launch_time := now \<rparr>) else (- 1, terminate pf s4))"

text \<open>The id of the running application, 0 for none. Time is in milliseconds.\<close>

definition running :: "platform \<Rightarrow> int \<Rightarrow> proc \<Rightarrow> int \<times> proc" where
  "running pf now s =
     (if pr_placebo s then (pr_app_id s, s)
      else if ap_wait_all (pr_app s) \<and> pr_group s \<and> pf_group_running pf (pr_log s) then (pr_app_id s, s)
      else if pr_process s \<and> pf_running pf (pr_log s) then (pr_app_id s, s)
      else if ap_auto_detach (pr_app s) \<and> pr_process s \<and> pf_exit_code pf (pr_log s) = 0 \<and> now - pr_launch_time s < 5000
      then (pr_app_id s, s\<lparr> pr_placebo := True \<rparr>)
      else if pr_process s then (0, terminate pf s)
      else (0, s))"

text \<open>A successful parse replaces the whole object, whatever runs.\<close>

definition refresh :: "proc option \<Rightarrow> proc \<Rightarrow> proc" where
  "refresh parsed s = (case parsed of None \<Rightarrow> s | Some p \<Rightarrow> p\<lparr> pr_log := pr_log s \<rparr>)"

text \<open>Everything the other components do to the running application but refreshing the list.\<close>

inductive proc_step :: "platform \<Rightarrow> proc \<Rightarrow> proc \<Rightarrow> bool" for pf where
  Execute: "execute pf now app_id ls s = (r, t) \<Longrightarrow> proc_step pf s t"
| Running: "running pf now s = (r, t) \<Longrightarrow> proc_step pf s t"
| Terminate: "proc_step pf s (terminate pf s)"

section \<open>Preparation commands are undone\<close>

text \<open>
  The commands in effect, the last one first, as the log of calls tells: a successful do command with
  an undo command enters, its undo command leaves, and only the last one can leave.
\<close>

definition undoable :: "prep_cmd \<Rightarrow> bool" where
  "undoable c \<longleftrightarrow> do_cmd c \<noteq> [] \<and> undo_cmd c \<noteq> []"

fun in_effect_step :: "prep_cmd list option \<Rightarrow> proc_event \<Rightarrow> prep_cmd list option" where
  "in_effect_step (Some st) (Do_Run c True) = Some (if undoable c then c # st else st)"
| "in_effect_step (Some st) (Undo_Run c) =
     (if undoable c then case st of [] \<Rightarrow> None | d # ds \<Rightarrow> if d = c then Some ds else None else Some st)"
| "in_effect_step st e = st"

definition in_effect :: "prep_cmd list \<Rightarrow> proc_event list \<Rightarrow> prep_cmd list option" where
  "in_effect before l = foldl in_effect_step (Some before) l"

lemma in_effect_snoc [simp]: "in_effect b (l @ [e]) = in_effect_step (in_effect b l) e"
  by (simp add: in_effect_def)

lemma in_effect_idle [simp]:
  "in_effect_step st (Do_Run c False) = st" "in_effect_step st (Detached_Run x) = st"
  "in_effect_step st (App_Run x) = st" "in_effect_step st Exit_Requested = st" "in_effect_step st Slept = st"
  "in_effect_step st Group_Terminated = st" "in_effect_step st Gamepads_Terminated = st"
  "in_effect_step st Display_Reverted = st" "in_effect_step st Display_Configured = st"
  by (cases st; simp)+

lemma in_effect_detached [simp]: "in_effect b (l @ map Detached_Run cs) = in_effect b l"
proof -
  have "foldl in_effect_step st (map Detached_Run cs) = st" for st
    by (induction cs) auto
  then show ?thesis by (simp add: in_effect_def)
qed

lemma in_effect_started [simp]: "in_effect b (l @ map Detached_Run cs @ [App_Run x]) = in_effect b l"
  using in_effect_snoc [of b "l @ map Detached_Run cs" "App_Run x"] by simp

definition passed :: "app \<Rightarrow> nat \<Rightarrow> prep_cmd list" where
  "passed a k = rev (filter undoable (take k (ap_prep_cmds a)))"

lemma passed_0 [simp]: "passed a 0 = []"
  by (simp add: passed_def)

lemma passed_Suc: "k < length (ap_prep_cmds a) \<Longrightarrow>
    passed a (Suc k) = (if undoable (ap_prep_cmds a ! k) then [ap_prep_cmds a ! k] else []) @ passed a k"
  by (simp add: passed_def take_Suc_conv_app_nth)

lemma in_effect_wait [simp]: "in_effect b (wait_for_exit pf t l) = in_effect b l"
  by (induction pf t l rule: wait_for_exit.induct) auto

lemma in_effect_group [simp]: "in_effect b (terminate_process_group pf v t l) = in_effect b l"
  by (simp add: terminate_process_group_def Let_def)

lemma in_effect_undo:
  assumes "k \<le> length (ap_prep_cmds a)" and "in_effect b l = Some (passed a k @ st)"
  shows "in_effect b (undo_loop a k l) = Some st"
  using assms
proof (induction a k l rule: undo_loop.induct)
  case (2 a k l)
  let ?c = "ap_prep_cmds a ! k"
  have "in_effect b (if undo_cmd ?c = [] then l else l @ [Undo_Run ?c]) = Some (passed a k @ st)"
    using "2.prems" by (auto simp: passed_Suc undoable_def)
  with "2.IH" "2.prems"(1) show ?case by (simp add: Let_def)
qed simp

definition proc_ok :: "prep_cmd list \<Rightarrow> prep_cmd list \<Rightarrow> proc \<Rightarrow> bool" where
  "proc_ok b stale s \<longleftrightarrow> pr_prep_it s \<le> length (ap_prep_cmds (pr_app s)) \<and>
     in_effect b (pr_log s) = Some (passed (pr_app s) (pr_prep_it s) @ stale) \<and>
     (pr_prep_it s = 0 \<or> pr_placebo s \<or> pr_process s)"

lemma terminate_in_effect:
  assumes "pr_prep_it s \<le> length (ap_prep_cmds (pr_app s))"
    "in_effect b (pr_log s) = Some (passed (pr_app s) (pr_prep_it s) @ stale)"
  shows "proc_ok b stale (terminate pf s) \<and> in_effect b (pr_log (terminate pf s)) = Some stale"
proof -
  have "in_effect b (undo_loop (pr_app s) (pr_prep_it s)
      (terminate_process_group pf (pr_group s) (ap_exit_timeout (pr_app s)) (pr_log s @ [Gamepads_Terminated]))) = Some stale"
    by (rule in_effect_undo [OF assms(1)]) (simp add: assms(2))
  then show ?thesis by (simp add: terminate_def proc_ok_def Let_def)
qed

lemma terminate_sel [simp]:
  "pr_prep_it (terminate pf s) = 0" "pr_app (terminate pf s) = pr_app s" "pr_placebo (terminate pf s) = False"
  "pr_process (terminate pf s) = False" "pr_group (terminate pf s) = False" "pr_app_id (terminate pf s) = - 1"
  "pr_apps (terminate pf s) = pr_apps s"
  by (simp_all add: terminate_def Let_def)

lemma do_loop_in_effect:
  assumes "do_loop pf a cs it l = (ok, it', l')" and "cs = drop it (ap_prep_cmds a)"
    and "it \<le> length (ap_prep_cmds a)" and "in_effect b l = Some (passed a it @ stale)"
  shows "it' \<le> length (ap_prep_cmds a) \<and> in_effect b l' = Some (passed a it' @ stale) \<and> (ok \<longrightarrow> it' = length (ap_prep_cmds a))"
  using assms
proof (induction pf a cs it l rule: do_loop.induct)
  case (2 pf a c cs it l)
  have it: "it < length (ap_prep_cmds a)" using "2.prems"(2,3) by (cases "it = length (ap_prep_cmds a)") auto
  then have c: "ap_prep_cmds a ! it = c" "cs = drop (it + 1) (ap_prep_cmds a)"
    using "2.prems"(2) by (metis Cons_nth_drop_Suc list.inject) (metis Cons_nth_drop_Suc "2.prems"(2) Suc_eq_plus1 list.inject it)
  note IH = "2.IH"(1) [OF _ _ c(2)] "2.IH"(2) [OF _ _ _ c(2)]
  have p: "passed a (it + 1) = (if undoable c then [c] else []) @ passed a it"
    using passed_Suc [OF it] c(1) by simp
  show ?case
  proof (cases "do_cmd c = []")
    case True
    then show ?thesis
      using "2.prems"(1,4) it p by (intro IH(1)) (auto simp: undoable_def)
  next
    case False
    show ?thesis
    proof (cases "do_ok a (pf_run pf l (pc_elevated c) (do_cmd c) (working_dir_of pf a (do_cmd c)))")
      case True
      with False show ?thesis
        using "2.prems"(1,4) it p by (intro IH(2)) auto
    next
      case fail: False
      with False "2.prems"(1,3,4) show ?thesis by auto
    qed
  qed
qed auto

lemma find_app_Some: "find_app i as = Some a \<Longrightarrow> a \<in> set as \<and> ap_id a = i"
  by (induction as) (auto split: if_splits)

lemma execute_ok:
  assumes "execute pf now app_id ls s0 = (r, t)" and "proc_ok b stale s0"
  shows "proc_ok b stale t \<and> (r \<noteq> 0 \<longrightarrow> in_effect b (pr_log t) = Some stale \<and> pr_app_id t = - 1)"
proof -
  let ?s = "terminate pf s0"
  have T: "proc_ok b stale ?s \<and> in_effect b (pr_log ?s) = Some stale"
    by (rule terminate_in_effect) (use assms(2) in \<open>auto simp: proc_ok_def\<close>)
  show ?thesis
  proof (cases "find_app (to_text app_id) (pr_apps ?s)")
    case None
    then show ?thesis using assms(1) T by (auto simp: execute_def Let_def)
  next
    case (Some a)
    obtain ok it l where d: "do_loop pf a (ap_prep_cmds a) 0 (pr_log ?s) = (ok, it, l)"
      by (metis prod_cases3)
    then have D: "it \<le> length (ap_prep_cmds a) \<and> in_effect b l = Some (passed a it @ stale)"
      using do_loop_in_effect [OF d, of b stale] T by simp
    let ?failed = "\<lambda>u. pr_app u = a \<and> pr_prep_it u = it \<and> in_effect b (pr_log u) = Some (passed a it @ stale)"
    have F: "proc_ok b stale (terminate pf u) \<and> in_effect b (pr_log (terminate pf u)) = Some stale" if "?failed u" for u
      by (rule terminate_in_effect) (use that D in auto)
    have G: "proc_ok b stale u" if "?failed u" "pr_placebo u \<or> pr_process u" for u
      using that D by (auto simp: proc_ok_def)
    show ?thesis
      using assms(1) Some d D by (auto simp: execute_def Let_def F G split: if_splits)
  qed
qed

lemma running_ok:
  assumes "running pf now s = (r, t)" and "proc_ok b stale s"
  shows "proc_ok b stale t \<and> (r = 0 \<and> pr_app_id s \<noteq> 0 \<longrightarrow> in_effect b (pr_log t) = Some stale)"
proof -
  have T: "proc_ok b stale (terminate pf s) \<and> in_effect b (pr_log (terminate pf s)) = Some stale"
    by (rule terminate_in_effect) (use assms(2) in \<open>auto simp: proc_ok_def\<close>)
  have p: "proc_ok b stale (s\<lparr> pr_placebo := True \<rparr>)" using assms(2) by (simp add: proc_ok_def)
  have z: "in_effect b (pr_log s) = Some stale" if "\<not> pr_placebo s" "\<not> pr_process s"
    using assms(2) that by (auto simp: proc_ok_def)
  show ?thesis using assms T p z by (auto simp: running_def split: if_splits)
qed

lemma proc_step_ok: "proc_step pf s t \<Longrightarrow> proc_ok b stale s \<Longrightarrow> proc_ok b stale t"
  by (induction rule: proc_step.induct)
    (auto dest: execute_ok running_ok simp: terminate_in_effect proc_ok_def [of _ _ s for s])

interpretation proc_system: invariant_system "proc_step pf" "proc_ok b stale" for pf b stale
  by unfold_locales (rule proc_step_ok)

lemma proc_new_ok: "proc_ok [] [] (proc_new env apps)"
  by (simp add: proc_ok_def proc_new_def in_effect_def)

lemma reached_ok: "(proc_step pf)\<^sup>*\<^sup>* (proc_new env apps) s \<Longrightarrow> proc_ok [] [] s"
  by (rule proc_system.steps_ok [OF _ proc_new_ok])


text \<open>
  Refreshing the application list forgets the application that runs: the commands that are in
  effect stay in effect whatever is started and ended later, and the host reports that nothing runs.
\<close>
theorem refresh_strands_commands:
  assumes "(proc_step pf)\<^sup>*\<^sup>* (proc_new env apps) s"
    and "(proc_step pf)\<^sup>*\<^sup>* (refresh (Some (proc_new env' apps')) s) t"
  shows "running pf now (refresh (Some (proc_new env' apps')) s) = (0, refresh (Some (proc_new env' apps')) s) \<and>
    (\<exists>later. in_effect [] (pr_log t) =
      Some (later @ rev (filter undoable (take (pr_prep_it s) (ap_prep_cmds (pr_app s))))))"
proof -
  let ?stale = "passed (pr_app s) (pr_prep_it s)" and ?r = "refresh (Some (proc_new env' apps')) s"
  have "proc_ok [] ?stale ?r"
    using reached_ok [OF assms(1)] by (simp add: proc_ok_def refresh_def proc_new_def)
  then have "proc_ok [] ?stale t" by (rule proc_system.steps_ok [OF assms(2)])
  then have "\<exists>later. in_effect [] (pr_log t) = Some (later @ ?stale)" by (auto simp: proc_ok_def)
  moreover have "running pf now ?r = (0, ?r)"
    by (simp add: running_def refresh_def proc_new_def app_empty_def)
  ultimately show ?thesis by (simp add: passed_def)
qed

subsection \<open>An example\<close>

definition quiet_platform :: platform where
  "quiet_platform = \<lparr> pf_run = (\<lambda>l e c d. \<lparr> rr_ec = None, rr_wait_failed = False, rr_exit_code = (if c = ascii ''false'' then 1 else 0) \<rparr>),
     pf_group_running = (\<lambda>l. True), pf_request_exit = (\<lambda>l. True), pf_running = (\<lambda>l. App_Run (ascii ''game'') \<in> set l),
     pf_exit_code = (\<lambda>l. 0), pf_split = (\<lambda>c. Some [c]), pf_absolute = (\<lambda>c. True), pf_search_path = id, pf_parent_path = id \<rparr>"

definition prep_example :: "prep_cmd list" where
  "prep_example = [\<lparr> do_cmd = ascii ''on'', undo_cmd = ascii ''off'', pc_elevated = False \<rparr>,
     \<lparr> do_cmd = [], undo_cmd = ascii ''clean'', pc_elevated = False \<rparr>,
     \<lparr> do_cmd = ascii ''start'', undo_cmd = ascii ''stop'', pc_elevated = False \<rparr>]"

definition app_example :: app where
  "app_example = app_empty\<lparr> ap_prep_cmds := prep_example, ap_name := ascii ''Desktop'', ap_id := ascii ''7'', ap_exit_timeout := 5 \<rparr>"

definition failing_example :: app where
  "failing_example = app_empty\<lparr> ap_prep_cmds := prep_example @ [\<lparr> do_cmd = ascii ''false'', undo_cmd = ascii ''true'', pc_elevated = False \<rparr>],
     ap_name := ascii ''Game'', ap_cmd := ascii ''game'', ap_id := ascii ''8'' \<rparr>"

definition launched_example :: proc where
  "launched_example = snd (execute quiet_platform 0 7 launch_example (proc_new Map.empty [app_example, failing_example]))"

lemma to_text_examples: "to_text 7 = ascii ''7''" "to_text 8 = ascii ''8''"
  by (simp_all add: to_text_def dec_digits.simps digit_bytes_def ascii_def)

lemma launched_example_log:
  "execute quiet_platform 0 7 launch_example (proc_new Map.empty [app_example, failing_example]) = (0, launched_example) \<and>
   pr_log launched_example = [Gamepads_Terminated, Do_Run (prep_example ! 0) True, Do_Run (prep_example ! 2) True] \<and>
   pr_prep_it launched_example = 3 \<and> pr_app launched_example = app_example \<and> pr_app_id launched_example = 7 \<and>
   pr_placebo launched_example \<and> pr_group launched_example = False \<and> pr_apps launched_example = [app_example, failing_example]"
  by (simp add: launched_example_def execute_def terminate_def terminate_process_group_def proc_new_def Let_def
      to_text_examples app_example_def failing_example_def prep_example_def app_empty_def do_ok_def quiet_platform_def ascii_def)

lemma launched_example_reached: "(proc_step quiet_platform)\<^sup>*\<^sup>* (proc_new Map.empty [app_example, failing_example]) launched_example"
  by (rule r_into_rtranclp, rule proc_step.Execute) (use launched_example_log in blast)

lemma failing_example_start:
  "fst (execute quiet_platform 0 8 launch_example launched_example) = - 1"
  by (simp add: execute_def launched_example_log terminate_def terminate_process_group_def Let_def
      to_text_examples app_example_def failing_example_def prep_example_def app_empty_def do_ok_def quiet_platform_def ascii_def)


theorem refresh_strands_commands_witness:
  "\<exists>later. in_effect [] (pr_log (terminate quiet_platform (refresh (Some (proc_new Map.empty [app_example])) launched_example))) =
     Some (later @ [prep_example ! 2, prep_example ! 0])"
proof -
  have "(proc_step quiet_platform)\<^sup>*\<^sup>* (refresh (Some (proc_new Map.empty [app_example])) launched_example)
      (terminate quiet_platform (refresh (Some (proc_new Map.empty [app_example])) launched_example))"
    by (rule r_into_rtranclp, rule proc_step.Terminate)
  from refresh_strands_commands [OF launched_example_reached this] show ?thesis
    by (simp add: launched_example_log app_example_def prep_example_def undoable_def ascii_def numeral_3_eq_3)
qed

section \<open>Waiting for an application\<close>
lemma wait_for_exit_log:
  "\<exists>n \<le> t. wait_for_exit pf t l = l @ replicate n Slept \<and> (n < t \<longrightarrow> \<not> pf_group_running pf (l @ replicate n Slept))"
proof (induction pf t l rule: wait_for_exit.induct)
  case (2 pf t l)
  show ?case
  proof (cases "pf_group_running pf l")
    case True
    with 2 obtain n where "n \<le> t" "wait_for_exit pf t (l @ [Slept]) = (l @ [Slept]) @ replicate n Slept"
      "n < t \<longrightarrow> \<not> pf_group_running pf ((l @ [Slept]) @ replicate n Slept)" by blast
    with True show ?thesis by (intro exI [of _ "Suc n"]) simp
  next
    case False
    then show ?thesis by (intro exI [of _ 0]) simp
  qed
qed simp

text \<open>
  Ending an application waits at most its exit timeout, a second at a time, and only after the
  group was asked to exit; a group that is still running is always terminated, at once when the
  timeout is not positive, and one that ended before is left alone.
\<close>
theorem exit_wait_bounded:
  assumes "valid" and "pf_group_running pf l"
  shows "\<exists>n. int n \<le> max 0 timeout \<and>
    terminate_process_group pf valid timeout l =
      l @ (if timeout > 0 then [Exit_Requested] else []) @ replicate n Slept @ [Group_Terminated] \<and>
    (n > 0 \<longrightarrow> pf_request_exit pf l) \<and>
    terminate_process_group pf False timeout l = l"
proof (cases "timeout > 0 \<and> pf_request_exit pf l")
  case True
  obtain n where n: "n \<le> nat timeout"
    "wait_for_exit pf (nat timeout) (l @ [Exit_Requested]) = (l @ [Exit_Requested]) @ replicate n Slept"
    using wait_for_exit_log by blast
  with True assms show ?thesis
    by (intro exI [of _ n]) (auto simp: terminate_process_group_def)
next
  case False
  with assms show ?thesis
    by (intro exI [of _ 0]) (auto simp: terminate_process_group_def)
qed

theorem exit_wait_bounded_witness:
  "\<exists>n. int n \<le> 5 \<and> terminate_process_group quiet_platform True 5 [] = [Exit_Requested] @ replicate n Slept @ [Group_Terminated]"
proof -
  have "pf_group_running quiet_platform []" by (simp add: quiet_platform_def)
  from exit_wait_bounded [of True, OF _ this, of 5] show ?thesis by auto
qed

section \<open>Variables in the application list\<close>

text \<open>
  The text up to the bracket that closes an open one, and the rest behind it; \<open>None\<close> is the exception
  of a missing bracket. \<open>parse_env_val\<close> scans on behind the closing bracket; \<open>$$\<close> is a dollar, any
  other \<open>$\<close> stands for itself.
\<close>

fun find_match :: "nat \<Rightarrow> bytes \<Rightarrow> (bytes \<times> bytes) option" where
  "find_match stack [] = None"
| "find_match stack (c # cs) =
     (if c = 0x29 \<and> stack = 1 then Some ([], cs)
      else map_option (\<lambda>(name, rest). (c # name, rest))
        (find_match (if c = 0x28 then stack + 1 else if c = 0x29 then stack - 1 else stack) cs))"

lemma find_match_length: "find_match d cs = Some (n, r) \<Longrightarrow> length r < length cs"
  by (induction d cs arbitrary: n rule: find_match.induct) (auto split: if_splits)

definition env_value :: "(bytes \<rightharpoonup> bytes) \<Rightarrow> bytes \<Rightarrow> bytes" where
  "env_value env name = (case env name of None \<Rightarrow> [] | Some v \<Rightarrow> v)"

function parse_env_val :: "(bytes \<rightharpoonup> bytes) \<Rightarrow> bytes \<Rightarrow> bytes option" where
  "parse_env_val env [] = Some []"
| "parse_env_val env (c # cs) =
     (if c \<noteq> 0x24 then map_option (Cons c) (parse_env_val env cs)
      else case cs of
        [] \<Rightarrow> Some [c]
      | d # ds \<Rightarrow>
          if d = 0x28 then
            (case find_match 1 ds of
               None \<Rightarrow> None
             | Some (name, rest) \<Rightarrow> map_option ((@) (env_value env name)) (parse_env_val env rest))
          else if d = 0x24 then map_option (Cons c) (parse_env_val env ds)
          else map_option (Cons c) (parse_env_val env cs))"
  by pat_completeness auto
termination by (relation "measure (\<lambda>(env, cs). length cs)") (auto dest: find_match_length)

text \<open>Text as a user writes it: plain parts with every dollar doubled, and names in brackets.\<close>

datatype part = Plain bytes | Variable bytes

fun write_part :: "part \<Rightarrow> bytes" where
  "write_part (Plain t) = concat (map (\<lambda>c. if c = 0x24 then [0x24, 0x24] else [c]) t)"
| "write_part (Variable n) = [0x24, 0x28] @ n @ [0x29]"

fun part_value :: "(bytes \<rightharpoonup> bytes) \<Rightarrow> part \<Rightarrow> bytes" where
  "part_value env (Plain t) = t"
| "part_value env (Variable n) = env_value env n"

fun balanced :: "nat \<Rightarrow> bytes \<Rightarrow> bool" where
  "balanced d [] \<longleftrightarrow> d = 0"
| "balanced d (c # cs) \<longleftrightarrow>
     (if c = 0x28 then balanced (d + 1) cs else if c = 0x29 then d > 0 \<and> balanced (d - 1) cs else balanced d cs)"

fun part_ok :: "part \<Rightarrow> bool" where
  "part_ok (Plain t) \<longleftrightarrow> True"
| "part_ok (Variable n) \<longleftrightarrow> balanced 0 n"

lemma find_match_balanced: "balanced d n \<Longrightarrow> find_match (d + 1) (n @ 0x29 # rest) = Some (n, rest)"
proof (induction d n rule: balanced.induct)
  case (2 d c cs)
  show ?case
  proof (cases "c = 0x29")
    case True
    then have "d > 0" "balanced (d - 1) cs" using "2.prems" by auto
    with "2.IH"(2) True show ?thesis by simp
  next
    case False
    with 2 show ?thesis by (cases "c = 0x28") auto
  qed
qed simp

lemma parse_env_plain:
  "parse_env_val env (concat (map (\<lambda>c. if c = 0x24 then [0x24, 0x24] else [c]) t) @ rest) = map_option ((@) t) (parse_env_val env rest)"
  by (induction t) (auto simp: option.map_comp comp_def option.map_ident)

lemma parse_env_part:
  "part_ok p \<Longrightarrow> parse_env_val env (write_part p @ rest) = map_option ((@) (part_value env p)) (parse_env_val env rest)"
proof (induction p)
  case (Variable n)
  then have "find_match 1 (n @ 0x29 # rest) = Some (n, rest)" using find_match_balanced [of 0 n rest] by simp
  then show ?case by simp
qed (simp add: parse_env_plain)

text \<open>
  Every text can be written in the application list: plain text with its dollars doubled is read
  back as it is, and a bracketed name, with balanced brackets of its own, is replaced by the value of
  the variable and nothing else, in any mixture of the two.
\<close>
theorem parse_env_val_parts:
  assumes "list_all part_ok ps"
  shows "parse_env_val env (concat (map write_part ps)) = Some (concat (map (part_value env) ps))"
  using assms
proof (induction ps)
  case (Cons p ps)
  then show ?case by (simp add: parse_env_part)
qed simp

theorem parse_env_val_parts_witness:
  "parse_env_val [ascii ''HOME'' \<mapsto> ascii ''/root''] (ascii ''$(HOME)/a$$b'') = Some (ascii ''/root/a$b'')"
  using parse_env_val_parts [of "[Variable (ascii ''HOME''), Plain (ascii ''/a$b'')]" "[ascii ''HOME'' \<mapsto> ascii ''/root'']"]
  by (simp add: ascii_def env_value_def)

section \<open>Images and ids of applications\<close>

text \<open>The file system, the checksums of OpenSSL and Boost, and the asset directory of the build.\<close>

record app_files =
  af_assets_dir :: bytes
  af_exists :: "bytes \<Rightarrow> bool"
  af_read :: "bytes \<Rightarrow> bytes option"
  af_sha256 :: "bytes \<Rightarrow> bytes option"
  af_crc32 :: "bytes \<Rightarrow> u32"

definition png_signature :: bytes where
  "png_signature = [0x89, 0x50, 0x4E, 0x47, 0x0D, 0x0A, 0x1A, 0x0A]"

definition check_valid_png :: "app_files \<Rightarrow> bytes \<Rightarrow> bool" where
  "check_valid_png fs path = (case af_read fs path of
     None \<Rightarrow> False
   | Some content \<Rightarrow> length (take 8 content) = 8 \<and> take 8 content = png_signature)"

definition to_lower :: "bytes \<Rightarrow> bytes" where
  "to_lower t = map (\<lambda>c. if 0x41 \<le> c \<and> c \<le> 0x5A then c + 0x20 else c) t"

text \<open>\<open>std::filesystem::path::extension\<close>: from the last dot of the file name, unless it starts the name.\<close>

definition path_extension :: "bytes \<Rightarrow> bytes" where
  "path_extension p =
     (let f = rev (takeWhile (\<lambda>c. c \<noteq> 0x2F) (rev p));
          e = rev (takeWhile (\<lambda>c. c \<noteq> 0x2E) (rev f))
      in if f = ascii ''.'' \<or> f = ascii ''..'' \<or> 0x2E \<notin> set f \<or> length e + 1 = length f then [] else 0x2E # e)"

definition path_join :: "bytes \<Rightarrow> bytes \<Rightarrow> bytes" where
  "path_join dir p = (if p \<noteq> [] \<and> hd p = 0x2F then p else dir @ 0x2F # p)"

definition default_app_image :: "app_files \<Rightarrow> bytes" where
  "default_app_image fs = af_assets_dir fs @ ascii ''/box.png''"

definition validate_app_image_path :: "app_files \<Rightarrow> bytes \<Rightarrow> bytes" where
  "validate_app_image_path fs path =
     (if path = [] then default_app_image fs
      else if to_lower (path_extension path) \<noteq> ascii ''.png'' then default_app_image fs
      else
        let full = path_join (af_assets_dir fs) path
        in if af_exists fs full then (if check_valid_png fs full then full else default_app_image fs)
           else if path = ascii ''./assets/steam.png'' then af_assets_dir fs @ ascii ''/steam.png''
           else if \<not> af_exists fs path then default_app_image fs
           else if \<not> check_valid_png fs path then default_app_image fs
           else path)"

definition get_app_image :: "app_files \<Rightarrow> int \<Rightarrow> app list \<Rightarrow> bytes" where
  "get_app_image fs app_id apps = validate_app_image_path fs
     (case find_app (to_text app_id) apps of None \<Rightarrow> [] | Some a \<Rightarrow> ap_image_path a)"

definition id_text :: "app_files \<Rightarrow> bytes \<Rightarrow> bytes" where
  "id_text fs input = to_text \<bar>sint (af_crc32 fs input)\<bar>"

definition calculate_app_id :: "app_files \<Rightarrow> bytes \<Rightarrow> bytes \<Rightarrow> nat \<Rightarrow> bytes \<times> bytes" where
  "calculate_app_id fs name image_path index =
     (let file_path = validate_app_image_path fs image_path;
          hashed = (if file_path \<noteq> default_app_image fs
            then name @ (case af_sha256 fs file_path of Some h \<Rightarrow> h | None \<Rightarrow> file_path) else name)
      in (id_text fs hashed, id_text fs (hashed @ to_text (int index))))"

section \<open>The application list\<close>

text \<open>One entry as Boost's property tree gives it; \<open>None\<close> is an absent key.\<close>

record app_node =
  nd_name :: "bytes option"
  nd_prep :: "(bytes option \<times> bytes option \<times> bool option) list option"
  nd_detached :: "bytes list option"
  nd_exclude_global :: "bool option"
  nd_output :: "bytes option"
  nd_cmd :: "bytes option"
  nd_image_path :: "bytes option"
  nd_working_dir :: "bytes option"
  nd_elevated :: "bool option"
  nd_auto_detach :: "bool option"
  nd_wait_all :: "bool option"
  nd_exit_timeout :: "int option"

definition value_or :: "'a \<Rightarrow> 'a option \<Rightarrow> 'a" where
  "value_or d x = (case x of None \<Rightarrow> d | Some v \<Rightarrow> v)"

fun all_some :: "'a option list \<Rightarrow> 'a list option" where
  "all_some [] = Some []"
| "all_some (x # xs) = (case x of None \<Rightarrow> None | Some v \<Rightarrow> map_option (Cons v) (all_some xs))"

definition expand_prep :: "(bytes \<rightharpoonup> bytes) \<Rightarrow> bytes \<times> bytes \<times> bool \<Rightarrow> prep_cmd option" where
  "expand_prep env c =
     (case c of (d, u, e) \<Rightarrow> do {
        d' \<leftarrow> parse_env_val env d;
        u' \<leftarrow> parse_env_val env u;
        Some \<lparr> do_cmd = d', undo_cmd = u', pc_elevated = e \<rparr> })"

definition expand_opt :: "(bytes \<rightharpoonup> bytes) \<Rightarrow> bytes option \<Rightarrow> bytes option" where
  "expand_opt env x = (case x of None \<Rightarrow> Some [] | Some v \<Rightarrow> parse_env_val env v)"

definition parse_app :: "app_files \<Rightarrow> (bytes \<rightharpoonup> bytes) \<Rightarrow> prep_cmd list \<Rightarrow> bytes list \<Rightarrow> nat \<Rightarrow> app_node \<Rightarrow> app option" where
  "parse_app fs env global ids i n =
     do {
       name \<leftarrow> Option.bind (nd_name n) (parse_env_val env);
       global_prep \<leftarrow> (if value_or False (nd_exclude_global n) then Some []
         else all_some (map (\<lambda>c. expand_prep env (do_cmd c, undo_cmd c, pc_elevated c)) global));
       own_prep \<leftarrow> all_some (map (\<lambda>(d, u, e). expand_prep env (value_or [] d, value_or [] u, value_or False e))
         (value_or [] (nd_prep n)));
       detached \<leftarrow> all_some (map (parse_env_val env) (value_or [] (nd_detached n)));
       output \<leftarrow> expand_opt env (nd_output n);
       cmd \<leftarrow> expand_opt env (nd_cmd n);
       working_dir \<leftarrow> expand_opt env (nd_working_dir n);
       image_path \<leftarrow> expand_opt env (nd_image_path n);
       let (id_no_index, id_with_index) = calculate_app_id fs name image_path i in
       Some \<lparr> ap_prep_cmds = global_prep @ own_prep, ap_detached = detached, ap_name = name, ap_cmd = cmd,
         ap_working_dir = working_dir, ap_output = output, ap_image_path = image_path,
         ap_id = (if id_no_index \<in> set ids then id_with_index else id_no_index),
         ap_elevated = value_or False (nd_elevated n), ap_auto_detach = value_or True (nd_auto_detach n),
         ap_wait_all = value_or True (nd_wait_all n), ap_exit_timeout = value_or 5 (nd_exit_timeout n) \<rparr>
     }"

fun parse_apps :: "app_files \<Rightarrow> (bytes \<rightharpoonup> bytes) \<Rightarrow> prep_cmd list \<Rightarrow> bytes list \<Rightarrow> nat \<Rightarrow> app_node list \<Rightarrow> app list option" where
  "parse_apps fs env global ids i [] = Some []"
| "parse_apps fs env global ids i (n # ns) =
     do {
       a \<leftarrow> parse_app fs env global ids i n;
       as \<leftarrow> parse_apps fs env global (ap_id a # ids) (i + 1) ns;
       Some (a # as)
     }"

fun parse_env :: "(bytes \<rightharpoonup> bytes) \<Rightarrow> (bytes \<times> bytes) list \<Rightarrow> (bytes \<rightharpoonup> bytes) option" where
  "parse_env env [] = Some env"
| "parse_env env ((name, val) # vs) =
     do {
       v \<leftarrow> parse_env_val env val;
       parse_env (env(name \<mapsto> v)) vs
     }"

definition parse_list :: "app_files \<Rightarrow> (bytes \<rightharpoonup> bytes) \<Rightarrow> prep_cmd list \<Rightarrow> (bytes \<times> bytes) list \<Rightarrow> app_node list \<Rightarrow> proc option" where
  "parse_list fs env global env_vars nodes =
     do {
       this_env \<leftarrow> parse_env env env_vars;
       apps \<leftarrow> parse_apps fs this_env global [] 0 nodes;
       Some (proc_new this_env apps)
     }"

text \<open>An entry with a name and nothing else.\<close>

definition plain_node :: "bytes \<Rightarrow> app_node" where
  "plain_node name = \<lparr> nd_name = Some name, nd_prep = None, nd_detached = None, nd_exclude_global = None, nd_output = None,
     nd_cmd = None, nd_image_path = None, nd_working_dir = None, nd_elevated = None, nd_auto_detach = None,
     nd_wait_all = None, nd_exit_timeout = None \<rparr>"

lemma parse_env_val_plain: "0x24 \<notin> set t \<Longrightarrow> parse_env_val env t = Some t"
  by (induction t) auto

lemma parse_plain_node:
  "0x24 \<notin> set name \<Longrightarrow> \<exists>a. parse_app fs env [] ids i (plain_node name) = Some a \<and> ap_name a = name \<and>
    ap_id a = (if id_text fs name \<in> set ids then id_text fs (name @ to_text (int i)) else id_text fs name)"
  by (simp add: parse_app_def plain_node_def value_or_def expand_opt_def parse_env_val_plain calculate_app_id_def
      validate_app_image_path_def Let_def)

text \<open>
  The id of an application is not unique: the id with the index is taken without a look at the
  ids in use. Of three entries named X2, X and X, for any X, the last gets the id of the first, and
  a launch of it starts the first.
\<close>
theorem duplicate_app_ids:
  assumes "0x24 \<notin> set name" and "id_text fs name \<noteq> id_text fs (name @ ascii ''2'')"
  shows "\<exists>p a b c. parse_list fs env [] [] [plain_node (name @ ascii ''2''), plain_node name, plain_node name] = Some p \<and>
    pr_apps p = [a, b, c] \<and> ap_id c = ap_id a \<and> ap_name c \<noteq> ap_name a \<and> find_app (ap_id c) (pr_apps p) = Some a"
proof -
  let ?n2 = "name @ ascii ''2''"
  have two: "to_text 2 = ascii ''2''" by (simp add: to_text_def dec_digits.simps digit_bytes_def ascii_def)
  have d: "0x24 \<notin> set ?n2" using assms(1) by (simp add: ascii_def)
  obtain a where a: "parse_app fs env [] [] 0 (plain_node ?n2) = Some a" "ap_name a = ?n2" "ap_id a = id_text fs ?n2"
    using parse_plain_node [OF d, of fs env "[]" 0] by auto
  obtain b where b: "parse_app fs env [] [ap_id a] 1 (plain_node name) = Some b" "ap_id b = id_text fs name"
    using parse_plain_node [OF assms(1), of fs env "[ap_id a]" 1] assms(2) a(3) by auto
  obtain c where c: "parse_app fs env [] [ap_id b, ap_id a] 2 (plain_node name) = Some c" "ap_name c = name" "ap_id c = id_text fs ?n2"
    using parse_plain_node [OF assms(1), of fs env "[ap_id b, ap_id a]" 2] b(2) two by auto
  have "parse_list fs env [] [] [plain_node ?n2, plain_node name, plain_node name] = Some (proc_new env [a, b, c])"
    using a(1) b(1) c(1) by (simp add: parse_list_def numeral_2_eq_2)
  moreover have "ap_name c \<noteq> ap_name a" using a(2) c(2) by (simp add: ascii_def)
  ultimately show ?thesis using a(3) c(3) by (simp add: proc_new_def)
qed

definition files_example :: app_files where
  "files_example = \<lparr> af_assets_dir = [], af_exists = (\<lambda>p. False), af_read = (\<lambda>p. None), af_sha256 = (\<lambda>p. None),
     af_crc32 = (\<lambda>t. word_of_nat (length t)) \<rparr>"

theorem duplicate_app_ids_witness:
  "\<exists>p a b c. parse_list files_example Map.empty [] [] [plain_node (ascii ''X2''), plain_node (ascii ''X''), plain_node (ascii ''X'')] = Some p \<and>
    pr_apps p = [a, b, c] \<and> ap_id c = ap_id a \<and> ap_name c \<noteq> ap_name a \<and> find_app (ap_id c) (pr_apps p) = Some a"
proof -
  have "id_text files_example (ascii ''X'') \<noteq> id_text files_example (ascii ''X'' @ ascii ''2'')"
    by (simp add: id_text_def files_example_def ascii_def to_text_def dec_digits.simps digit_bytes_def)
  moreover have "0x24 \<notin> set (ascii ''X'')" by (simp add: ascii_def)
  ultimately show ?thesis
    using duplicate_app_ids [of "ascii ''X''" files_example Map.empty] by (simp add: ascii_def)
qed

end
