(* ===== verification/Rtsp_Socket.thy ===== *)
theory Rtsp_Socket
  imports Rtsp_Commands Crypto
begin

text \<open>
  One RTSP connection of \<open>src/rtsp.cpp\<close>: the class \<open>socket_t\<close>, which collects a plain or encrypted
  request in a buffer of 2048 bytes, and \<open>respond\<close>, which writes a response. Parsing and writing
  messages is moonlight-common-c's and a parameter, as are OpenSSL's calls. A handler gets what
  boost::asio read: an error, or bytes.
\<close>

section \<open>Responses\<close>

record rtsp_lib =
  rl_parse :: "bytes \<Rightarrow> rtsp_request option"
  rl_serialize :: "rtsp_response \<Rightarrow> bytes"

text \<open>The launch session a connection belongs to, with its cipher and its counter of responses.\<close>

record rtsp_peer =
  rp_session :: launch_session
  rp_cipher :: "cipher_t option"
  rp_iv_counter :: u32

definition rtsp_iv :: "u32 \<Rightarrow> u8 \<Rightarrow> bytes" where
  "rtsp_iv seq originator = le_bytes 4 (unat seq) @ replicate 6 0 @ [originator, 0x52]"

definition ENCRYPTED_MESSAGE_TYPE_BIT :: nat where
  "ENCRYPTED_MESSAGE_TYPE_BIT = 0x80000000"

definition encrypted_header_size :: nat where
  "encrypted_header_size = 24"

text \<open>
  The message is encrypted in place behind the header; what the cipher does not write stays as it
  was. The code of the cipher is ignored.
\<close>

definition respond_encrypted ::
  "evp \<Rightarrow> cipher_t \<Rightarrow> u32 \<Rightarrow> bytes \<Rightarrow> bytes \<times> cipher_t" where
  "respond_encrypted evp g counter plain =
     (let ((n, c, tag), g') = gcm_encrypt evp g plain (rtsp_iv counter 0x48)
      in (be_bytes 4 (ENCRYPTED_MESSAGE_TYPE_BIT + length plain) @ be_bytes 4 (unat counter) @
          overwrite tag (replicate 16 0) @ overwrite c plain, g'))"

definition respond_wire :: "evp \<Rightarrow> rtsp_lib \<Rightarrow> rtsp_response \<Rightarrow> rtsp_peer \<Rightarrow> bytes \<times> rtsp_peer" where
  "respond_wire evp lib resp rp =
     (let raw = rl_serialize lib (resp\<lparr> rs_payload := [] \<rparr>)
      in case rp_cipher rp of
           None \<Rightarrow> (raw @ rs_payload resp, rp)
         | Some g \<Rightarrow>
             let counter = rp_iv_counter rp + 1;
                 (wire, g') = respond_encrypted evp g counter (raw @ rs_payload resp)
             in (wire, rp\<lparr> rp_cipher := Some g', rp_iv_counter := counter \<rparr>))"

section \<open>Connection\<close>

text \<open>What the next read is for; an idle connection reads no more.\<close>

datatype wait = Idle | Plain_Header | Plain_Payload | Encrypted_Header | Encrypted_Body nat

datatype conn_event = Sent bytes | Closed | Handled rtsp_request

record conn =
  cn_buf :: bytes
  cn_begin :: nat
  cn_crlf :: nat
  cn_wait :: wait
  cn_log :: "conn_event list"

definition msg_buf_size :: nat where
  "msg_buf_size = 2048"

definition conn_new :: conn where
  "conn_new = \<lparr> cn_buf = [], cn_begin = 0, cn_crlf = 0, cn_wait = Idle, cn_log = [] \<rparr>"

definition conn_close :: "conn \<Rightarrow> conn" where
  "conn_close c = c\<lparr> cn_wait := Idle, cn_log := cn_log c @ [Closed] \<rparr>"

definition bad_request :: "evp \<Rightarrow> rtsp_lib \<Rightarrow> conn \<times> rtsp_peer \<Rightarrow> conn \<times> rtsp_peer" where
  "bad_request evp lib s =
     (let (wire, rp) = respond_wire evp lib (respond [] 400 ''BAD REQUEST'' 0 []) (snd s)
      in (conn_close ((fst s)\<lparr> cn_log := cn_log (fst s) @ [Sent wire] \<rparr>), rp))"

definition handle_data :: "rtsp_request \<Rightarrow> conn \<Rightarrow> conn" where
  "handle_data req c = c\<lparr> cn_wait := Idle, cn_log := cn_log c @ [Handled req] \<rparr>"

definition conn_read :: "evp \<Rightarrow> rtsp_lib \<Rightarrow> conn \<times> rtsp_peer \<Rightarrow> conn \<times> rtsp_peer" where
  "conn_read evp lib s =
     (let c = fst s; enc = rp_cipher (snd s) \<noteq> None
      in if cn_begin c = msg_buf_size \<or> enc \<and> cn_begin c + encrypted_header_size \<ge> msg_buf_size
         then bad_request evp lib s
         else (c\<lparr> cn_wait := (if enc then Encrypted_Header else Plain_Header) \<rparr>, snd s))"

text \<open>The bytes of a read go to the buffer from where it stands.\<close>

definition store :: "bytes \<Rightarrow> conn \<Rightarrow> conn" where
  "store d c = c\<lparr> cn_buf := take (cn_begin c) (cn_buf c) @ d \<rparr>"

definition handle_read_encrypted_header ::
  "evp \<Rightarrow> rtsp_lib \<Rightarrow> bool \<Rightarrow> bytes \<Rightarrow> conn \<times> rtsp_peer \<Rightarrow> conn \<times> rtsp_peer" where
  "handle_read_encrypted_header evp lib ec d s =
     (let c = store d (fst s); s' = (c, snd s)
      in if ec \<or> length d < encrypted_header_size then bad_request evp lib s'
         else
           let typeAndLength = be_nat (take 4 (drop (cn_begin c) (cn_buf c)));
               payload_length = typeAndLength mod ENCRYPTED_MESSAGE_TYPE_BIT
           in if typeAndLength < ENCRYPTED_MESSAGE_TYPE_BIT then bad_request evp lib s'
              else if cn_begin c + encrypted_header_size + payload_length \<ge> msg_buf_size then bad_request evp lib s'
              else (c\<lparr> cn_wait := Encrypted_Body payload_length \<rparr>, snd s))"

definition handle_read_encrypted_message ::
  "evp \<Rightarrow> rtsp_lib \<Rightarrow> nat \<Rightarrow> bool \<Rightarrow> bytes \<Rightarrow> conn \<times> rtsp_peer \<Rightarrow> conn \<times> rtsp_peer" where
  "handle_read_encrypted_message evp lib payload_length ec d s =
     (let c = fst s; rp = snd s;
          header = take encrypted_header_size (drop (cn_begin c) (cn_buf c));
          seq = word_of_nat (be_nat (take 4 (drop 4 header)))
      in if ec \<or> length d < payload_length then bad_request evp lib s
         else case rp_cipher rp of
           None \<Rightarrow> s
         | Some g \<Rightarrow>
             (case gcm_decrypt evp g (drop 8 header @ d) [] (rtsp_iv seq 0x43) of
                (rc, plaintext, g') \<Rightarrow>
                  let s' = (c, rp\<lparr> rp_cipher := Some g' \<rparr>)
                  in if rc \<noteq> Some 0 then bad_request evp lib s'
                     else case rl_parse lib plaintext of
                         None \<Rightarrow> bad_request evp lib s'
                       | Some req \<Rightarrow> (handle_data req c, snd s')))"

definition read_plaintext_payload :: "evp \<Rightarrow> rtsp_lib \<Rightarrow> conn \<times> rtsp_peer \<Rightarrow> conn \<times> rtsp_peer" where
  "read_plaintext_payload evp lib s =
     (if cn_begin (fst s) = msg_buf_size then bad_request evp lib s
      else ((fst s)\<lparr> cn_wait := Plain_Payload \<rparr>, snd s))"

text \<open>The number in the first \<open>Content-length\<close> option, from its first digit on.\<close>

definition content_length :: "rtsp_request \<Rightarrow> int" where
  "content_length req =
     (case map_of (rq_options req) (ascii ''Content-length'') of
        None \<Rightarrow> 0
      | Some content \<Rightarrow> to_int (from_chars (dropWhile (\<lambda>ch. \<not> (0x30 \<le> ch \<and> ch \<le> 0x39)) content)))"

text \<open>\<open>bytes\<close> bytes of the buffer from \<open>begin\<close> on are new.\<close>

definition handle_plaintext_payload ::
  "evp \<Rightarrow> rtsp_lib \<Rightarrow> bool \<Rightarrow> nat \<Rightarrow> conn \<times> rtsp_peer \<Rightarrow> conn \<times> rtsp_peer" where
  "handle_plaintext_payload evp lib ec n s =
     (let c = fst s; last = cn_begin c + n
      in if ec then (conn_close c, snd s)
         else case rl_parse lib (take last (cn_buf c)) of
           None \<Rightarrow> bad_request evp lib s
         | Some req \<Rightarrow>
             if int last - int (cn_crlf c) \<ge> content_length req
             then (handle_data req (c\<lparr> cn_begin := last \<rparr>), snd s)
             else read_plaintext_payload evp lib (c\<lparr> cn_begin := last \<rparr>, snd s))"

definition needle :: bytes where
  "needle = [0x0D, 0x0A, 0x0D, 0x0A]"

text \<open>The position of the needle: \<open>std::search\<close>.\<close>

fun find_needle :: "bytes \<Rightarrow> nat option" where
  "find_needle [] = None"
| "find_needle (b # bs) =
     (if take 4 (b # bs) = needle then Some 0 else map_option Suc (find_needle bs))"

text \<open>The search starts at the new bytes: \<open>max (begin - 4) begin\<close> is \<open>begin\<close>.\<close>

definition handle_read_plaintext ::
  "evp \<Rightarrow> rtsp_lib \<Rightarrow> bool \<Rightarrow> bytes \<Rightarrow> conn \<times> rtsp_peer \<Rightarrow> conn \<times> rtsp_peer" where
  "handle_read_plaintext evp lib ec d s =
     (let c = store d (fst s); begin = max (int (cn_begin c) - 4) (int (cn_begin c));
          buf_size = int (length d) + (begin - int (cn_begin c))
      in if ec then (conn_close (fst s), snd s)
         else case find_needle (take (nat buf_size) (drop (nat begin) (cn_buf c))) of
           None \<Rightarrow> conn_read evp lib (c\<lparr> cn_begin := nat (begin + buf_size) \<rparr>, snd s)
         | Some it \<Rightarrow>
             let start = nat begin + it + 4
             in handle_plaintext_payload evp lib False (nat (begin + buf_size) - start)
                  (c\<lparr> cn_begin := start, cn_crlf := start \<rparr>, snd s))"

definition conn_handle :: "evp \<Rightarrow> rtsp_lib \<Rightarrow> bool \<Rightarrow> bytes \<Rightarrow> conn \<times> rtsp_peer \<Rightarrow> conn \<times> rtsp_peer" where
  "conn_handle evp lib ec d s =
     (case cn_wait (fst s) of
        Idle \<Rightarrow> s
      | Plain_Header \<Rightarrow> handle_read_plaintext evp lib ec d s
      | Plain_Payload \<Rightarrow> handle_plaintext_payload evp lib ec (length d) (store d (fst s), snd s)
      | Encrypted_Header \<Rightarrow> handle_read_encrypted_header evp lib ec d s
      | Encrypted_Body n \<Rightarrow> handle_read_encrypted_message evp lib n ec d s)"

text \<open>How many bytes the pending read may bring.\<close>

definition read_limit :: "conn \<Rightarrow> nat" where
  "read_limit c = (case cn_wait c of
     Idle \<Rightarrow> 0
   | Plain_Header \<Rightarrow> msg_buf_size - cn_begin c
   | Plain_Payload \<Rightarrow> msg_buf_size - cn_begin c
   | Encrypted_Header \<Rightarrow> encrypted_header_size
   | Encrypted_Body n \<Rightarrow> n)"

fun conn_run :: "evp \<Rightarrow> rtsp_lib \<Rightarrow> bytes list \<Rightarrow> conn \<times> rtsp_peer \<Rightarrow> conn \<times> rtsp_peer" where
  "conn_run evp lib [] s = s"
| "conn_run evp lib (d # ds) s = conn_run evp lib ds (conn_handle evp lib False d s)"

inductive conn_step :: "evp \<Rightarrow> rtsp_lib \<Rightarrow> conn \<times> rtsp_peer \<Rightarrow> conn \<times> rtsp_peer \<Rightarrow> bool" for evp lib where
  Completed: "cn_wait (fst s) \<noteq> Idle \<Longrightarrow> length d \<le> read_limit (fst s) \<Longrightarrow>
    conn_step evp lib s (conn_handle evp lib ec d s)"

section \<open>Bounds\<close>

text \<open>What the pending read may write fits into the buffer.\<close>

definition conn_ok :: "conn \<times> rtsp_peer \<Rightarrow> bool" where
  "conn_ok s \<longleftrightarrow> cn_begin (fst s) \<le> length (cn_buf (fst s)) \<and> length (cn_buf (fst s)) \<le> msg_buf_size \<and>
     (case cn_wait (fst s) of
        Idle \<Rightarrow> True
      | Plain_Header \<Rightarrow> cn_begin (fst s) < msg_buf_size \<and> rp_cipher (snd s) = None
      | Plain_Payload \<Rightarrow> cn_begin (fst s) < msg_buf_size \<and> cn_crlf (fst s) \<le> cn_begin (fst s) \<and> rp_cipher (snd s) = None
      | Encrypted_Header \<Rightarrow> cn_begin (fst s) + encrypted_header_size < msg_buf_size \<and> rp_cipher (snd s) \<noteq> None
      | Encrypted_Body n \<Rightarrow> cn_begin (fst s) + encrypted_header_size + n < msg_buf_size \<and>
          cn_begin (fst s) + encrypted_header_size \<le> length (cn_buf (fst s)) \<and> rp_cipher (snd s) \<noteq> None)"

lemma respond_wire_cipher: "rp_cipher (snd (respond_wire evp lib r rp)) = None \<longleftrightarrow> rp_cipher rp = None"
  by (simp add: respond_wire_def Let_def split_beta split: option.split)

lemma bad_request_sel [simp]:
  "cn_buf (fst (bad_request evp lib s)) = cn_buf (fst s)" "cn_begin (fst (bad_request evp lib s)) = cn_begin (fst s)"
  "cn_wait (fst (bad_request evp lib s)) = Idle"
  by (simp_all add: bad_request_def conn_close_def split_beta)

lemma conn_ok_bad_request:
  "cn_begin (fst s) \<le> length (cn_buf (fst s)) \<Longrightarrow> length (cn_buf (fst s)) \<le> msg_buf_size \<Longrightarrow> conn_ok (bad_request evp lib s)"
  by (simp add: conn_ok_def)

lemma conn_ok_idle:
  "cn_wait (fst s) = Idle \<Longrightarrow> cn_begin (fst s) \<le> length (cn_buf (fst s)) \<Longrightarrow>
   length (cn_buf (fst s)) \<le> msg_buf_size \<Longrightarrow> conn_ok s"
  by (simp add: conn_ok_def)

lemma conn_ok_read:
  assumes "cn_begin (fst s) \<le> length (cn_buf (fst s))" "length (cn_buf (fst s)) \<le> msg_buf_size"
  shows "conn_ok (conn_read evp lib s)"
  using assms conn_ok_bad_request [OF assms] unfolding conn_read_def Let_def
  by (auto simp: conn_ok_def)

lemma store_sel [simp]:
  "cn_begin (store d c) = cn_begin c" "cn_crlf (store d c) = cn_crlf c" "cn_wait (store d c) = cn_wait c"
  "cn_log (store d c) = cn_log c"
  by (simp_all add: store_def)

lemma length_store:
  "cn_begin c \<le> length (cn_buf c) \<Longrightarrow> length (cn_buf (store d c)) = cn_begin c + length d"
  by (simp add: store_def)

lemma conn_ok_payload:
  assumes "length (cn_buf (fst s)) \<le> msg_buf_size" "cn_begin (fst s) + n = length (cn_buf (fst s))"
    "cn_crlf (fst s) \<le> cn_begin (fst s)" "rp_cipher (snd s) = None"
  shows "conn_ok (handle_plaintext_payload evp lib ec n s)"
proof -
  let ?c = "(fst s)\<lparr> cn_begin := cn_begin (fst s) + n \<rparr>"
  have "conn_ok (conn_close (fst s), snd s)"
    using assms by (intro conn_ok_idle) (simp_all add: conn_close_def)
  moreover have "conn_ok (bad_request evp lib s)" using assms by (intro conn_ok_bad_request) simp_all
  moreover have "conn_ok (handle_data req ?c, snd s)" for req
    using assms by (intro conn_ok_idle) (simp_all add: handle_data_def)
  moreover have "conn_ok (read_plaintext_payload evp lib (?c, snd s))"
  proof (cases "cn_begin ?c = msg_buf_size")
    case True
    then have "conn_ok (bad_request evp lib (?c, snd s))" using assms by (intro conn_ok_bad_request) simp_all
    with True show ?thesis by (simp add: read_plaintext_payload_def)
  qed (use assms in \<open>simp add: read_plaintext_payload_def conn_ok_def\<close>)
  ultimately show ?thesis
    unfolding handle_plaintext_payload_def Let_def by (auto split: option.split)
qed

lemma find_needle_bound: "find_needle bs = Some i \<Longrightarrow> i + 4 \<le> length bs"
proof (induction bs arbitrary: i)
  case (Cons b bs)
  show ?case
  proof (cases "take 4 (b # bs) = needle")
    case True
    have "4 \<le> length (b # bs)"
      using arg_cong [OF True, of length] unfolding length_take by (simp add: needle_def)
    with True Cons.prems show ?thesis by simp
  next
    case False
    with Cons.prems obtain j where "find_needle bs = Some j" "i = Suc j" by (auto split: option.splits)
    with Cons.IH show ?thesis by auto
  qed
qed simp

lemma conn_ok_handle:
  assumes ok: "conn_ok s" and d: "length d \<le> read_limit (fst s)"
  shows "conn_ok (conn_handle evp lib ec d s)"
proof (cases "cn_wait (fst s)")
  case Idle
  with ok show ?thesis by (simp add: conn_handle_def)
next
  case Plain_Header
  let ?c = "store d (fst s)"
  have b: "cn_begin (fst s) \<le> length (cn_buf (fst s))" "length (cn_buf ?c) \<le> msg_buf_size"
      "length (cn_buf ?c) = cn_begin (fst s) + length d" "rp_cipher (snd s) = None"
    using ok d Plain_Header length_store [of "fst s" d] by (auto simp: conn_ok_def read_limit_def)
  have new: "take (length d) (drop (cn_begin (fst s)) (cn_buf ?c)) = d"
    using b(1) by (simp add: store_def)
  have none: "conn_ok (conn_read evp lib (?c\<lparr> cn_begin := cn_begin (fst s) + length d \<rparr>, snd s))"
    using b by (intro conn_ok_read) simp_all
  have found: "conn_ok (handle_plaintext_payload evp lib False (cn_begin (fst s) + length d - (cn_begin (fst s) + i + 4))
      (?c\<lparr> cn_begin := cn_begin (fst s) + i + 4, cn_crlf := cn_begin (fst s) + i + 4 \<rparr>, snd s))"
    if "find_needle d = Some i" for i
    using b find_needle_bound [OF that] by (intro conn_ok_payload) simp_all
  have err: "conn_ok (conn_close (fst s), snd s)"
    using ok by (intro conn_ok_idle) (simp_all add: conn_close_def conn_ok_def)
  show ?thesis
    using Plain_Header none found err
    by (simp add: conn_handle_def handle_read_plaintext_def Let_def new nat_add_distrib split: option.split)
next
  case Plain_Payload
  with ok d show ?thesis
    using length_store [of "fst s" d]
    by (auto simp: conn_handle_def conn_ok_def [of s] read_limit_def intro!: conn_ok_payload)
next
  case Encrypted_Header
  let ?s = "(store d (fst s), snd s)"
  have b: "cn_begin (fst s) \<le> length (cn_buf (fst s))" "length (cn_buf (fst ?s)) = cn_begin (fst s) + length d"
      "cn_begin (fst s) + length d < msg_buf_size" "rp_cipher (snd s) \<noteq> None"
    using ok d Encrypted_Header length_store [of "fst s" d] by (auto simp: conn_ok_def read_limit_def)
  then have "conn_ok (bad_request evp lib ?s)" by (intro conn_ok_bad_request) simp_all
  with Encrypted_Header b show ?thesis
    unfolding conn_handle_def handle_read_encrypted_header_def Let_def
    by (auto simp: conn_ok_def)
next
  case (Encrypted_Body n)
  have b: "cn_begin (fst s) \<le> length (cn_buf (fst s))" "length (cn_buf (fst s)) \<le> msg_buf_size"
    using ok by (simp_all add: conn_ok_def)
  have bad: "conn_ok (bad_request evp lib (fst s, rp))" for rp using b by (intro conn_ok_bad_request) simp_all
  have hd: "conn_ok (handle_data req (fst s), rp)" for req rp
    using b by (intro conn_ok_idle) (simp_all add: handle_data_def)
  show ?thesis
    using Encrypted_Body ok bad [of "snd s"] bad hd
    by (auto simp: conn_handle_def handle_read_encrypted_message_def Let_def split: option.split prod.split)
qed

interpretation rtsp_conn: invariant_system "conn_step evp lib" conn_ok for evp lib
proof
  fix s t assume "conn_step evp lib s t" "conn_ok s"
  then show "conn_ok t" by cases (simp add: conn_ok_handle)
qed

lemma conn_ok_start: "conn_ok (conn_read evp lib (conn_new, rp))"
  by (rule conn_ok_read) (simp_all add: conn_new_def)

section \<open>Properties\<close>

text \<open>
  (C14) No read of a connection goes behind the buffer of 2048 bytes: in every reachable state the
  bytes already there and those the pending read may bring fit, and the length an encrypted
  message declares is checked before its body is read; a plain read always has room for at least one byte.
\<close>
theorem rtsp_buffer_bounds:
  assumes "(conn_step evp lib)\<^sup>*\<^sup>* (conn_read evp lib (conn_new, rp)) (c, rp')"
  shows "(case cn_wait c of
      Encrypted_Body n \<Rightarrow> cn_begin c + encrypted_header_size + n < msg_buf_size
    | _ \<Rightarrow> cn_begin c + read_limit c \<le> msg_buf_size) \<and>
    (cn_wait c = Plain_Header \<or> cn_wait c = Plain_Payload \<longrightarrow> 0 < read_limit c)"
  using rtsp_conn.steps_ok [OF assms conn_ok_start] by (auto simp: conn_ok_def read_limit_def split: wait.split)

text \<open>
  When the terminator of the header comes in two reads it is never found: the search does not go
  back behind the new bytes.
\<close>

lemma split_terminator:
  assumes "\<forall>d \<in> set ds. find_needle d = None" "rp_cipher rp = None" "cn_wait c = Plain_Header"
    "cn_begin c = length (cn_buf c)" "length (cn_buf c) + length (concat ds) < msg_buf_size"
  shows "conn_run evp lib ds (c, rp) =
    (c\<lparr> cn_buf := cn_buf c @ concat ds, cn_begin := length (cn_buf c) + length (concat ds) \<rparr>, rp)"
  using assms
proof (induction ds arbitrary: c)
  case (Cons d ds)
  let ?c = "c\<lparr> cn_buf := cn_buf c @ d, cn_begin := length (cn_buf c) + length d \<rparr>"
  have st: "store d c = c\<lparr> cn_buf := cn_buf c @ d \<rparr>" using Cons.prems(4) by (simp add: store_def)
  have "conn_handle evp lib False d (c, rp) = conn_read evp lib (?c, rp)"
    using Cons.prems st by (simp add: conn_handle_def handle_read_plaintext_def Let_def nat_add_distrib)
  also have "\<dots> = (?c\<lparr> cn_wait := Plain_Header \<rparr>, rp)"
    using Cons.prems by (simp add: conn_read_def Let_def)
  also have "?c\<lparr> cn_wait := Plain_Header \<rparr> = ?c" using Cons.prems(3) by simp
  finally show ?case using Cons.IH [of ?c] Cons.prems by simp
qed simp

text \<open>
  A plain request whose header ends in two reads is never answered: as long as no single
  read holds the whole terminator, the connection keeps waiting for the header, whatever the
  bytes received so far contain, until the buffer is full.
\<close>
theorem split_terminator_unseen:
  assumes "\<forall>d \<in> set ds. find_needle d = None" "length (concat ds) < msg_buf_size" "rp_cipher rp = None"
  shows "cn_log (fst (conn_run evp lib ds (conn_read evp lib (conn_new, rp)))) = [] \<and>
    cn_wait (fst (conn_run evp lib ds (conn_read evp lib (conn_new, rp)))) = Plain_Header \<and>
    cn_buf (fst (conn_run evp lib ds (conn_read evp lib (conn_new, rp)))) = concat ds"
proof -
  have "conn_read evp lib (conn_new, rp) = (conn_new\<lparr> cn_wait := Plain_Header \<rparr>, rp)"
    using assms(3) by (simp add: conn_read_def Let_def conn_new_def msg_buf_size_def)
  then show ?thesis
    using split_terminator [OF assms(1) assms(3), of "conn_new\<lparr> cn_wait := Plain_Header \<rparr>" evp lib] assms(2)
    by (simp add: conn_new_def)
qed

definition plain_peer :: rtsp_peer where
  "plain_peer = \<lparr> rp_session = launch_example, rp_cipher = None, rp_iv_counter = 0 \<rparr>"

section \<open>Only authenticated requests\<close>

text \<open>A request the client sealed under a key.\<close>

definition authentic :: "evp \<Rightarrow> rtsp_lib \<Rightarrow> bytes \<Rightarrow> rtsp_request \<Rightarrow> bool" where
  "authentic evp lib key req \<longleftrightarrow> (\<exists>seq tagged u f.
     gcm_dec_update evp key (rtsp_iv seq 0x43) (drop tag_size tagged) = Some u \<and>
     gcm_dec_final evp key (rtsp_iv seq 0x43) (drop tag_size tagged) (take tag_size tagged) = Some f \<and>
     rl_parse lib (u @ f) = Some req)"

definition cipher_ok :: "bytes \<Rightarrow> cipher_t \<Rightarrow> bool" where
  "cipher_ok key g \<longleftrightarrow> cipher_key g = key \<and>
     (\<forall>c. decrypt_ctx g = Some c \<longrightarrow> c_key c = None \<or> c_key c = Some key \<and> c_cipher c \<and> c_ivlen c = 12)"

lemma length_rtsp_iv [simp]: "length (rtsp_iv seq o') = 12"
  by (simp add: rtsp_iv_def)

lemma cipher_ok_decrypt:
  assumes "cipher_ok key g" "length iv = 12" "gcm_decrypt evp g tagged p iv = (rc, out, g')"
  shows "cipher_ok key g'"
  using assms
  by (auto simp: gcm_decrypt_def cipher_ok_def init_decrypt_gcm_def blank_ctx_def Let_def
      split: option.splits prod.splits if_splits)

lemma decrypt_zero:
  assumes ok: "cipher_ok key g" "length iv = 12" and d: "gcm_decrypt evp g tagged p iv = (Some 0, out, g')"
  shows "out = p \<or> (\<exists>u f. gcm_dec_update evp key iv (drop tag_size tagged) = Some u \<and>
    gcm_dec_final evp key iv (drop tag_size tagged) (take tag_size tagged) = Some f \<and> out = u @ f)"
proof -
  from d obtain c where c: "gcm_decrypt_ready evp c tagged p iv = (Some 0, out)" "decrypt_ctx g' = Some c"
    by (auto simp: gcm_decrypt_def Let_def split: option.splits prod.splits if_splits)
  have "cipher_ok key g'" by (rule cipher_ok_decrypt [OF ok d])
  with gcm_decrypt_ready_zero [OF c(1)] c(2) ok(2) show ?thesis
    by (auto simp: cipher_ok_def)
qed

lemma cipher_ok_encrypt:
  "cipher_ok key g \<Longrightarrow> cipher_ok key (snd (respond_encrypted evp g n plain))"
  by (auto simp: respond_encrypted_def gcm_encrypt_def Let_def cipher_ok_def split: option.splits prod.splits)

definition auth_ok :: "evp \<Rightarrow> rtsp_lib \<Rightarrow> bytes \<Rightarrow> conn \<times> rtsp_peer \<Rightarrow> bool" where
  "auth_ok evp lib key s \<longleftrightarrow> (\<exists>g. rp_cipher (snd s) = Some g \<and> cipher_ok key g) \<and>
     cn_wait (fst s) \<notin> {Plain_Header, Plain_Payload} \<and>
     (\<forall>req. Handled req \<in> set (cn_log (fst s)) \<longrightarrow> authentic evp lib key req)"

lemma auth_ok_bad_request:
  assumes "auth_ok evp lib key (c, rp)"
  shows "auth_ok evp lib key (bad_request evp lib (c, rp))"
proof -
  from assms obtain g where g: "rp_cipher rp = Some g" "cipher_ok key g" by (auto simp: auth_ok_def)
  show ?thesis
    using assms g cipher_ok_encrypt [OF g(2)]
    by (auto simp: auth_ok_def bad_request_def respond_wire_def Let_def split_beta conn_close_def)
qed

lemma auth_ok_read: "auth_ok evp lib key s \<Longrightarrow> auth_ok evp lib key (conn_read evp lib s)"
  using auth_ok_bad_request [of evp lib key "fst s" "snd s"]
  by (auto simp: conn_read_def Let_def) (auto simp: auth_ok_def)

lemma auth_ok_store: "auth_ok evp lib key (store d c, rp) = auth_ok evp lib key (c, rp)"
  by (simp add: auth_ok_def)

lemma auth_ok_handle:
  assumes parse: "rl_parse lib [] = None" and ok: "auth_ok evp lib key s"
  shows "auth_ok evp lib key (conn_handle evp lib ec d s)"
proof (cases "cn_wait (fst s)")
  case Encrypted_Header
  have s: "auth_ok evp lib key (store d (fst s), snd s)" using ok by (simp add: auth_ok_store)
  have w: "auth_ok evp lib key ((store d (fst s))\<lparr> cn_wait := Encrypted_Body n \<rparr>, snd s)" for n
    using s by (auto simp: auth_ok_def)
  show ?thesis
    unfolding conn_handle_def Encrypted_Header wait.case handle_read_encrypted_header_def Let_def
    using auth_ok_bad_request [OF s] w by simp
next
  case (Encrypted_Body n)
  from ok obtain g where g: "rp_cipher (snd s) = Some g" "cipher_ok key g" by (auto simp: auth_ok_def)
  define header where "header = take encrypted_header_size (drop (cn_begin (fst s)) (cn_buf (fst s)))"
  define seq where "seq = (word_of_nat (be_nat (take 4 (drop 4 header))) :: u32)"
  obtain rc out g' where d: "gcm_decrypt evp g (drop 8 header @ d) [] (rtsp_iv seq 0x43) = (rc, out, g')"
    by (metis prod_cases3)
  have g': "auth_ok evp lib key (fst s, (snd s)\<lparr> rp_cipher := Some g' \<rparr>)"
    using ok cipher_ok_decrypt [OF g(2) _ d] by (auto simp: auth_ok_def)
  have handled: "auth_ok evp lib key (handle_data req (fst s), (snd s)\<lparr> rp_cipher := Some g' \<rparr>)"
    if "rc = Some 0" "rl_parse lib out = Some req" for req
  proof -
    have "out \<noteq> []" using that(2) parse by auto
    moreover have "gcm_decrypt evp g (drop 8 header @ d) [] (rtsp_iv seq 0x43) = (Some 0, out, g')" using d that(1) by simp
    from decrypt_zero [OF g(2) length_rtsp_iv this] \<open>out \<noteq> []\<close> obtain u f where
      "gcm_dec_update evp key (rtsp_iv seq 0x43) (drop tag_size (drop 8 header @ d)) = Some u"
      "gcm_dec_final evp key (rtsp_iv seq 0x43) (drop tag_size (drop 8 header @ d)) (take tag_size (drop 8 header @ d)) = Some f"
      "out = u @ f" by blast
    with that(2) have "authentic evp lib key req" unfolding authentic_def by blast
    with g' show ?thesis by (auto simp: auth_ok_def handle_data_def)
  qed
  have bad: "auth_ok evp lib key (bad_request evp lib s)"
    using auth_ok_bad_request [of evp lib key "fst s" "snd s"] ok by simp
  show ?thesis
    using bad auth_ok_bad_request [OF g'] handled
    by (simp add: conn_handle_def Encrypted_Body handle_read_encrypted_message_def Let_def g(1) d
        flip: header_def seq_def split: option.split)
qed (use ok in \<open>auto simp: conn_handle_def auth_ok_def\<close>)


section \<open>Sealed messages\<close>

text \<open>What a client sends, and how it reads what the host sends.\<close>

definition client_seal :: "evp \<Rightarrow> cipher_t \<Rightarrow> u32 \<Rightarrow> bytes \<Rightarrow> bytes \<times> bytes" where
  "client_seal evp g seq msg =
     (let ((n, tagged), g') = gcm_encrypt_tagged evp g msg (rtsp_iv seq 0x43)
      in (be_bytes 4 (ENCRYPTED_MESSAGE_TYPE_BIT + length msg) @ be_bytes 4 (unat seq) @ take tag_size tagged, drop tag_size tagged))"

definition client_open :: "evp \<Rightarrow> cipher_t \<Rightarrow> bytes \<Rightarrow> int option \<times> bytes" where
  "client_open evp g wire =
     (let seq = word_of_nat (be_nat (take 4 (drop 4 wire))) :: u32;
          (rc, out, g') = gcm_decrypt evp g (drop 8 wire) [] (rtsp_iv seq 0x48)
      in (rc, out))"

lemma be_nat_u32: "be_nat (be_bytes 4 (unat (x :: u32))) = unat x"
  using unsigned_less [of x, where 'a = nat] by (simp add: be_nat_be_bytes)

lemma gcm_encrypt_fits:
  assumes "gcm_laws evp (cipher_key g) (length iv)" "ctx_fits g (length iv) (encrypt_ctx g)"
  shows "\<exists>c tag g'. gcm_encrypt evp g p iv = ((int (length p), c, tag), g') \<and> length tag = tag_size \<and>
    length c = length p \<and> gcm_encrypt_tagged evp g p iv = ((int (length p), tag @ c), g')"
proof -
  obtain u f tag where l: "gcm_enc_update evp (cipher_key g) iv p = Some u"
    "gcm_enc_final evp (cipher_key g) iv p = Some f" "gcm_get_tag evp (cipher_key g) iv p = Some tag"
    "length tag = tag_size" "length (u @ f) = length p"
    using assms(1) unfolding gcm_laws_def by blast
  have ok: "evp_set_cipher evp" "evp_set_ivlen evp (length iv)" "evp_set_key evp (cipher_key g) iv" "evp_set_iv evp iv"
    using assms(1) by (simp_all add: gcm_laws_def)
  have "gcm_encrypt_ready evp c p iv = (int (length p), u @ f, tag)"
    if "c_cipher c" "c_key c = Some (cipher_key g)" "c_ivlen c = length iv" for c
    using that l ok by (auto simp: gcm_encrypt_ready_def ctx_set_iv_def with_key_def)
  then have "\<exists>g'. gcm_encrypt evp g p iv = ((int (length p), u @ f, tag), g')"
    using assms(2) ok by (auto simp: gcm_encrypt_def init_encrypt_gcm_def ctx_fits_def split: option.splits)
  with l show ?thesis by (auto simp: gcm_encrypt_tagged_def)
qed

text \<open>
  What the host answers on an encrypted connection is what the client reads: it opens, under
  the nonce of the sequence number in the header, to the header and payload of the response, and
  the declared length is theirs.
\<close>
theorem encrypted_response_opens:
  assumes "rp_cipher rp = Some g" "gcm_laws evp (cipher_key g) 12" "ctx_fits g 12 (encrypt_ctx g)"
    "cipher_key h = cipher_key g" "decrypt_ctx h = None"
    "respond_wire evp lib resp rp = (wire, rp')" "length plain < ENCRYPTED_MESSAGE_TYPE_BIT"
    "plain = rl_serialize lib (resp\<lparr> rs_payload := [] \<rparr>) @ rs_payload resp"
  shows "client_open evp h wire = (Some 0, plain) \<and>
    be_nat (take 4 wire) = ENCRYPTED_MESSAGE_TYPE_BIT + length plain \<and>
    length wire = encrypted_header_size + length plain \<and> rp_iv_counter rp' = rp_iv_counter rp + 1"
proof -
  define counter where "counter = rp_iv_counter rp + 1"
  obtain c tag g' where e: "gcm_encrypt evp g plain (rtsp_iv counter 0x48) = ((int (length plain), c, tag), g')"
    "length tag = tag_size" "length c = length plain"
    "gcm_encrypt_tagged evp g plain (rtsp_iv counter 0x48) = ((int (length plain), tag @ c), g')"
    using gcm_encrypt_fits [of evp g "rtsp_iv counter 0x48" plain] assms(2,3) by auto
  have enc: "respond_encrypted evp g counter plain =
      (be_bytes 4 (ENCRYPTED_MESSAGE_TYPE_BIT + length plain) @ be_bytes 4 (unat counter) @ tag @ c, g')"
    using e(2,3) by (simp add: respond_encrypted_def e(1) overwrite_def tag_size_def)
  have "respond_wire evp lib resp rp = (fst (respond_encrypted evp g counter plain),
      rp\<lparr> rp_cipher := Some (snd (respond_encrypted evp g counter plain)), rp_iv_counter := counter \<rparr>)"
    unfolding respond_wire_def Let_def assms(1) option.case assms(8) [symmetric] counter_def [symmetric]
    by (simp add: split_beta)
  then have wire: "wire = be_bytes 4 (ENCRYPTED_MESSAGE_TYPE_BIT + length plain) @ be_bytes 4 (unat counter) @ tag @ c"
    and rp': "rp_iv_counter rp' = counter"
    using assms(6) unfolding enc by auto
  obtain h' where open': "gcm_decrypt evp h (tag @ c) [] (rtsp_iv counter 0x48) = (Some 0, plain, h')"
    using gcm_seal_open [of evp g "rtsp_iv counter 0x48" h plain "int (length plain)" "tag @ c" g' "[]"] assms(2-5) e(4)
    by (auto simp: ctx_fits_def)
  have "word_of_nat (be_nat (take 4 (drop 4 wire))) = counter"
    by (simp add: wire be_nat_u32)
  then have "client_open evp h wire = (Some 0, plain)"
    using open' by (simp add: client_open_def wire)
  moreover have "be_nat (take 4 wire) = ENCRYPTED_MESSAGE_TYPE_BIT + length plain"
    using assms(7) by (simp add: wire be_nat_be_bytes ENCRYPTED_MESSAGE_TYPE_BIT_def)
  ultimately show ?thesis
    using e(2,3) rp' by (simp add: wire encrypted_header_size_def tag_size_def counter_def)
qed

lemma sealed_request_steps:
  assumes "rp_cipher rp = Some g" "gcm_laws evp (cipher_key g) 12" "ctx_fits g 12 (decrypt_ctx g)"
    "cipher_key h = cipher_key g" "encrypt_ctx h = None" "client_seal evp h seq msg = (header, body)"
    "encrypted_header_size + length msg < msg_buf_size" "rl_parse lib msg = Some req"
  shows "\<exists>g'. conn_read evp lib (conn_new, rp) = (conn_new\<lparr> cn_wait := Encrypted_Header \<rparr>, rp) \<and>
    length header = encrypted_header_size \<and> length body = length msg \<and>
    conn_handle evp lib False header (conn_new\<lparr> cn_wait := Encrypted_Header \<rparr>, rp) =
      (conn_new\<lparr> cn_wait := Encrypted_Body (length msg), cn_buf := header \<rparr>, rp) \<and>
    conn_handle evp lib False body (conn_new\<lparr> cn_wait := Encrypted_Body (length msg), cn_buf := header \<rparr>, rp) =
      (handle_data req (conn_new\<lparr> cn_wait := Encrypted_Body (length msg), cn_buf := header \<rparr>), rp\<lparr> rp_cipher := Some g' \<rparr>)"
proof -
  obtain c tag h' where e: "length tag = tag_size" "length c = length msg"
    "gcm_encrypt_tagged evp h msg (rtsp_iv seq 0x43) = ((int (length msg), tag @ c), h')"
    using gcm_encrypt_fits [of evp h "rtsp_iv seq 0x43" msg] assms(2,4,5) by (auto simp: ctx_fits_def)
  have wire: "header = be_bytes 4 (ENCRYPTED_MESSAGE_TYPE_BIT + length msg) @ be_bytes 4 (unat seq) @ tag" "body = c"
    using assms(6) e by (simp_all add: client_seal_def)
  obtain g' where open': "gcm_decrypt evp g (tag @ c) [] (rtsp_iv seq 0x43) = (Some 0, msg, g')"
  proof -
    have laws: "gcm_laws evp (cipher_key h) (length (rtsp_iv seq 0x43))" using assms(2,4) by simp
    have fits: "ctx_fits h (length (rtsp_iv seq 0x43)) (encrypt_ctx h)" "ctx_fits g (length (rtsp_iv seq 0x43)) (decrypt_ctx g)"
      using assms(3,5) by (simp_all add: ctx_fits_def)
    from gcm_seal_open [OF laws assms(4) [symmetric] fits e(3), of "[]"] that show thesis by blast
  qed
  have start: "conn_read evp lib (conn_new, rp) = (conn_new\<lparr> cn_wait := Encrypted_Header \<rparr>, rp)"
    using assms(1) by (simp add: conn_read_def conn_new_def msg_buf_size_def encrypted_header_size_def)
  have len: "be_nat (take 4 header) = ENCRYPTED_MESSAGE_TYPE_BIT + length msg"
    using assms(7) by (simp add: wire be_nat_be_bytes ENCRYPTED_MESSAGE_TYPE_BIT_def msg_buf_size_def encrypted_header_size_def)
  have hl: "length header = encrypted_header_size"
    using e(1) by (simp add: wire tag_size_def encrypted_header_size_def)
  let ?c1 = "conn_new\<lparr> cn_wait := Encrypted_Body (length msg), cn_buf := header \<rparr>"
  have mod: "(ENCRYPTED_MESSAGE_TYPE_BIT + length msg) mod ENCRYPTED_MESSAGE_TYPE_BIT = length msg"
    using assms(7) by (simp add: ENCRYPTED_MESSAGE_TYPE_BIT_def msg_buf_size_def)
  have 1: "conn_handle evp lib False header (conn_read evp lib (conn_new, rp)) = (?c1, rp)"
  proof -
    let ?c0 = "conn_new\<lparr> cn_wait := Encrypted_Header \<rparr>"
    have s: "store header ?c0 = conn_new\<lparr> cn_wait := Encrypted_Header, cn_buf := header \<rparr>" "cn_begin ?c0 = 0"
      by (simp_all add: store_def conn_new_def)
    have c: "\<not> (False \<or> length header < encrypted_header_size)" using hl by simp
    have l: "be_nat (take 4 (drop 0 header)) = ENCRYPTED_MESSAGE_TYPE_BIT + length msg" using len by simp
    have b: "\<not> ENCRYPTED_MESSAGE_TYPE_BIT + length msg < ENCRYPTED_MESSAGE_TYPE_BIT"
      "\<not> msg_buf_size \<le> 0 + encrypted_header_size + length msg" using assms(7) by simp_all
    have w: "cn_wait ?c0 = Encrypted_Header" "cn_begin (store header ?c0) = 0" "cn_buf (store header ?c0) = header"
      by (simp_all add: s(1)) (simp_all add: conn_new_def)
    show ?thesis
      unfolding start conn_handle_def fst_conv w(1) wait.case handle_read_encrypted_header_def Let_def w(2,3) l mod
        if_not_P [OF c] if_not_P [OF b(1)] if_not_P [OF b(2)]
      by (simp add: s(1))
  qed
  have drops: "take encrypted_header_size (drop (cn_begin ?c1) (cn_buf ?c1)) = header" "drop 8 header @ body = tag @ c"
    "be_nat (take 4 (drop 4 header)) = unat seq"
    using hl by (simp_all add: conn_new_def wire be_nat_u32)
  have 2: "conn_handle evp lib False body (?c1, rp) = (handle_data req ?c1, rp\<lparr> rp_cipher := Some g' \<rparr>)"
  proof -
    have c: "\<not> (False \<or> length body < length msg)" using e(2) wire(2) by simp
    have w: "cn_wait ?c1 = Encrypted_Body (length msg)" by simp
    have seq: "(word_of_nat (unat seq) :: u32) = seq" by simp
    show ?thesis
      unfolding conn_handle_def fst_conv snd_conv w wait.case handle_read_encrypted_message_def Let_def drops seq
        if_not_P [OF c] assms(1) option.case open' prod.case
      by (simp add: assms(8))
  qed
  show ?thesis
    using 1 2 start hl e(2) wire(2) by (intro exI [of _ g'] conjI) (simp_all only:)
qed


section \<open>An encrypted exchange\<close>

definition toy_rtsp :: rtsp_lib where
  "toy_rtsp = \<lparr> rl_parse = (\<lambda>m. if m = [] then None
       else Some \<lparr> rq_command = ascii ''OPTIONS'', rq_target = m, rq_seqn = 1, rq_options = [], rq_payload = [] \<rparr>),
     rl_serialize = (\<lambda>r. [0x52, 0x54]) \<rparr>"

definition toy_key :: bytes where
  "toy_key = replicate 16 7"

definition sealed_peer :: rtsp_peer where
  "sealed_peer = \<lparr> rp_session = launch_example, rp_cipher = Some (new_gcm toy_key False), rp_iv_counter = 0 \<rparr>"

lemma toy_laws: "gcm_laws toy_evp (cipher_key (new_gcm toy_key False)) 12"
  using toy_gcm_laws [of toy_key] by (simp add: new_gcm_def toy_key_def)

lemma toy_exchange:
  obtains header body g' where
    "client_seal toy_evp (new_gcm toy_key False) 5 [1, 2, 3] = (header, body)"
    "conn_read toy_evp toy_rtsp (conn_new, sealed_peer) = (conn_new\<lparr> cn_wait := Encrypted_Header \<rparr>, sealed_peer)"
    "length header = encrypted_header_size" "length body = length [1, 2, 3 :: u8]"
    "conn_handle toy_evp toy_rtsp False header (conn_new\<lparr> cn_wait := Encrypted_Header \<rparr>, sealed_peer) =
      (conn_new\<lparr> cn_wait := Encrypted_Body (length [1, 2, 3 :: u8]), cn_buf := header \<rparr>, sealed_peer)"
    "conn_handle toy_evp toy_rtsp False body (conn_new\<lparr> cn_wait := Encrypted_Body (length [1, 2, 3 :: u8]), cn_buf := header \<rparr>, sealed_peer) =
      (handle_data (the (rl_parse toy_rtsp [1, 2, 3])) (conn_new\<lparr> cn_wait := Encrypted_Body (length [1, 2, 3 :: u8]), cn_buf := header \<rparr>),
       sealed_peer\<lparr> rp_cipher := Some g' \<rparr>)"
proof -
  obtain header body where s: "client_seal toy_evp (new_gcm toy_key False) 5 [1, 2, 3] = (header, body)"
    by (meson surj_pair)
  have fits: "ctx_fits (new_gcm toy_key False) 12 (decrypt_ctx (new_gcm toy_key False))"
    "encrypt_ctx (new_gcm toy_key False) = None" "rp_cipher sealed_peer = Some (new_gcm toy_key False)"
    by (simp_all add: ctx_fits_def new_gcm_def sealed_peer_def)
  have p: "rl_parse toy_rtsp [1, 2, 3] = Some (the (rl_parse toy_rtsp [1, 2, 3]))" by (simp add: toy_rtsp_def)
  have l: "encrypted_header_size + length [1, 2, 3 :: u8] < msg_buf_size"
    by (simp add: encrypted_header_size_def msg_buf_size_def)
  from sealed_request_steps [OF fits(3) toy_laws fits(1) refl fits(2) s l p] that s show thesis by blast
qed


lemma toy_run:
  obtains c rp where "(conn_step toy_evp toy_rtsp)\<^sup>*\<^sup>* (conn_read toy_evp toy_rtsp (conn_new, sealed_peer)) (c, rp)"
    "Handled (the (rl_parse toy_rtsp [1, 2, 3])) \<in> set (cn_log c)"
proof (rule toy_exchange)
  fix header body g'
  let ?c0 = "conn_new\<lparr> cn_wait := Encrypted_Header \<rparr>"
  let ?c1 = "conn_new\<lparr> cn_wait := Encrypted_Body (length [1, 2, 3 :: u8]), cn_buf := header \<rparr>"
  let ?req = "the (rl_parse toy_rtsp [1, 2, 3])"
  assume h: "conn_read toy_evp toy_rtsp (conn_new, sealed_peer) = (?c0, sealed_peer)"
    "length header = encrypted_header_size" "length body = length [1, 2, 3 :: u8]"
    "conn_handle toy_evp toy_rtsp False header (?c0, sealed_peer) = (?c1, sealed_peer)"
    "conn_handle toy_evp toy_rtsp False body (?c1, sealed_peer) = (handle_data ?req ?c1, sealed_peer\<lparr> rp_cipher := Some g' \<rparr>)"
  have "conn_step toy_evp toy_rtsp (?c0, sealed_peer) (?c1, sealed_peer)"
    unfolding h(4) [symmetric] by (rule conn_step.Completed) (simp_all add: read_limit_def h(2))
  moreover have "conn_step toy_evp toy_rtsp (?c1, sealed_peer) (handle_data ?req ?c1, sealed_peer\<lparr> rp_cipher := Some g' \<rparr>)"
    unfolding h(5) [symmetric] by (rule conn_step.Completed) (simp_all add: read_limit_def h(3))
  ultimately have "(conn_step toy_evp toy_rtsp)\<^sup>*\<^sup>* (conn_read toy_evp toy_rtsp (conn_new, sealed_peer))
      (handle_data ?req ?c1, sealed_peer\<lparr> rp_cipher := Some g' \<rparr>)"
    unfolding h(1) by (meson converse_rtranclp_into_rtranclp rtranclp.rtrancl_refl)
  moreover have "Handled ?req \<in> set (cn_log (handle_data ?req ?c1))" by (simp add: handle_data_def)
  ultimately show thesis by (rule that)
qed


theorem rtsp_buffer_bounds_witness:
  "cn_begin (fst (conn_read toy_evp toy_rtsp (conn_new, sealed_peer))) +
     read_limit (fst (conn_read toy_evp toy_rtsp (conn_new, sealed_peer))) \<le> msg_buf_size"
proof -
  have c: "conn_read toy_evp toy_rtsp (conn_new, sealed_peer) = (conn_new\<lparr> cn_wait := Encrypted_Header \<rparr>, sealed_peer)"
    by (simp add: conn_read_def sealed_peer_def conn_new_def msg_buf_size_def encrypted_header_size_def)
  have "(conn_step toy_evp toy_rtsp)\<^sup>*\<^sup>* (conn_read toy_evp toy_rtsp (conn_new, sealed_peer))
      (conn_new\<lparr> cn_wait := Encrypted_Header \<rparr>, sealed_peer)" by (simp add: c)
  from rtsp_buffer_bounds [OF this] show ?thesis by (simp add: c)
qed

theorem encrypted_response_opens_witness:
  "\<exists>wire rp. respond_wire toy_evp toy_rtsp (cmd_play \<lparr> rq_command = [], rq_target = [], rq_seqn = 1, rq_options = [], rq_payload = [] \<rparr>)
      sealed_peer = (wire, rp) \<and>
    client_open toy_evp (new_gcm toy_key False) wire = (Some 0, [0x52, 0x54])"
proof -
  let ?r = "cmd_play \<lparr> rq_command = [], rq_target = [], rq_seqn = 1, rq_options = [], rq_payload = [] \<rparr>"
  obtain wire rp where w: "respond_wire toy_evp toy_rtsp ?r sealed_peer = (wire, rp)" by (meson surj_pair)
  have fits: "ctx_fits (new_gcm toy_key False) 12 (encrypt_ctx (new_gcm toy_key False))"
    "decrypt_ctx (new_gcm toy_key False) = None" "rp_cipher sealed_peer = Some (new_gcm toy_key False)"
    by (simp_all add: ctx_fits_def new_gcm_def sealed_peer_def)
  have p: "[0x52, 0x54] = rl_serialize toy_rtsp (?r\<lparr> rs_payload := [] \<rparr>) @ rs_payload ?r"
    by (simp add: toy_rtsp_def cmd_play_def respond_def)
  have l: "length [0x52, 0x54 :: u8] < ENCRYPTED_MESSAGE_TYPE_BIT" by (simp add: ENCRYPTED_MESSAGE_TYPE_BIT_def)
  from encrypted_response_opens [OF fits(3) toy_laws fits(1) refl fits(2) w l p] w show ?thesis by blast
qed

theorem split_terminator_unseen_witness:
  "find_needle (concat [ascii ''OPTIONS x RTSP/1.0'' @ [0x0D, 0x0A, 0x0D], [0x0A]]) \<noteq> None \<and>
   cn_log (fst (conn_run toy_evp toy_rtsp [ascii ''OPTIONS x RTSP/1.0'' @ [0x0D, 0x0A, 0x0D], [0x0A]]
     (conn_read toy_evp toy_rtsp (conn_new, plain_peer)))) = []"
proof -
  have "\<forall>d \<in> set [ascii ''OPTIONS x RTSP/1.0'' @ [0x0D, 0x0A, 0x0D], [0x0A]]. find_needle d = None"
    by (simp add: ascii_def needle_def)
  moreover have "length (concat [ascii ''OPTIONS x RTSP/1.0'' @ [0x0D, 0x0A, 0x0D], [0x0A]]) < msg_buf_size"
    by (simp add: msg_buf_size_def ascii_def)
  moreover have "rp_cipher plain_peer = None" by (simp add: plain_peer_def)
  ultimately show ?thesis
    using split_terminator_unseen [of "[ascii ''OPTIONS x RTSP/1.0'' @ [0x0D, 0x0A, 0x0D], [0x0A]]" plain_peer toy_evp toy_rtsp]
    by (simp add: ascii_def needle_def)
qed

end
