(* ===== verification/Rtsp_Server.thy ===== *)
theory Rtsp_Server
  imports Rtsp_Socket Thread_Safe
begin

text \<open>
  The RTSP server of \<open>src/rtsp.cpp\<close>: the pending launch session with its timer, the slots of
  running sessions, and what a request does to them. boost::asio's timer is its documented
  behaviour: cancelling or rearming it aborts a wait that has not expired; the handler of one that has
  expired is queued and runs.
\<close>

section \<open>State\<close>

record slot =
  sl_state :: state_e
  sl_cert :: bytes
  sl_config :: stream_config

record rtsp_server =
  launch_event :: "launch_session event_t"
  timer_armed :: bool
  timer_expired :: nat
  session_slots :: "(nat \<times> slot) list"
  next_session :: nat

definition rtsp_server_new :: rtsp_server where
  "rtsp_server_new = \<lparr> launch_event = event_new, timer_armed = False, timer_expired = 0,
     session_slots = [], next_session = 0 \<rparr>"

definition view_now :: "'a event_t \<Rightarrow> 'a option" where
  "view_now e = (case event_view_for_entry e of
     Some (r, _) \<Rightarrow> r
   | None \<Rightarrow> (case event_view_for_wake True e of Some (r, _) \<Rightarrow> r | None \<Rightarrow> None))"

definition pop_now :: "'a event_t \<Rightarrow> 'a option \<times> 'a event_t" where
  "pop_now e = (case event_pop_for True e of Some p \<Rightarrow> p | None \<Rightarrow> (None, e))"

section \<open>The pending launch\<close>

definition session_raise :: "launch_session \<Rightarrow> rtsp_server \<Rightarrow> rtsp_server" where
  "session_raise l s =
     (if view_now (launch_event s) \<noteq> None then s
      else s\<lparr> launch_event := event_raise l (launch_event s), timer_armed := True \<rparr>)"

text \<open>\<open>session_clear\<close> looks at the event, and then pops it, which may block.\<close>

definition session_clear_matches :: "u32 \<Rightarrow> rtsp_server \<Rightarrow> bool" where
  "session_clear_matches i s =
     (case view_now (launch_event s) of None \<Rightarrow> False | Some l \<Rightarrow> ls_id l = i)"

definition session_clear_pop :: "rtsp_server \<Rightarrow> rtsp_server option" where
  "session_clear_pop s =
     (case event_pop (launch_event s) of
        None \<Rightarrow> None
      | Some (_, e) \<Rightarrow> Some (s\<lparr> launch_event := e \<rparr>))"

definition session_clear :: "u32 \<Rightarrow> rtsp_server \<Rightarrow> rtsp_server option" where
  "session_clear i s =
     (if session_clear_matches i s then session_clear_pop (s\<lparr> timer_armed := False \<rparr>) else Some s)"

definition timer_handler :: "rtsp_server \<Rightarrow> rtsp_server" where
  "timer_handler s = s\<lparr> launch_event := snd (pop_now (launch_event s)) \<rparr>"

text \<open>An accepted connection belongs to the pending launch; without one it is closed.\<close>

definition handle_accept :: "rtsp_server \<Rightarrow> launch_session option" where
  "handle_accept s = view_now (launch_event s)"

text \<open>
  The threads: the HTTP thread raises launches, the timer expires and its handler runs on the RTSP
  thread, the control thread clears, in two steps. \<open>clearing\<close> is the control thread between them.
\<close>

inductive launch_step :: "bool \<times> rtsp_server \<Rightarrow> bool \<times> rtsp_server \<Rightarrow> bool" where
  Raise: "launch_step (c, s) (c, session_raise l s)"
| Expire: "timer_armed s \<Longrightarrow>
    launch_step (c, s) (c, s\<lparr> timer_armed := False, timer_expired := timer_expired s + 1 \<rparr>)"
| Handler: "timer_expired s > 0 \<Longrightarrow>
    launch_step (c, s) (c, timer_handler (s\<lparr> timer_expired := timer_expired s - 1 \<rparr>))"
| Clear_View: "session_clear_matches i s \<Longrightarrow>
    launch_step (False, s) (True, s\<lparr> timer_armed := False \<rparr>)"
| Clear_Pop: "session_clear_pop s = Some t \<Longrightarrow> launch_step (True, s) (False, t)"

section \<open>Sessions\<close>

definition slot_stop :: "slot \<Rightarrow> slot" where
  "slot_stop x = (if sl_state x = RUNNING then x\<lparr> sl_state := STOPPING \<rparr> else x)"

text \<open>Both loops stop and join the slots that match and erase them; the joined ones are the result.\<close>

fun erase_slots :: "(slot \<Rightarrow> bool) \<Rightarrow> (nat \<times> slot) list \<Rightarrow> (nat \<times> slot) list \<times> (nat \<times> slot) list" where
  "erase_slots P [] = ([], [])"
| "erase_slots P ((i, x) # xs) =
     (let (joined, kept) = erase_slots P xs
      in if P x then ((i, slot_stop x) # joined, kept) else (joined, (i, x) # kept))"

definition server_clear :: "bool \<Rightarrow> rtsp_server \<Rightarrow> (nat \<times> slot) list \<times> rtsp_server" where
  "server_clear all s =
     (let (joined, kept) = erase_slots (\<lambda>x. all \<or> sl_state x = STOPPING) (session_slots s)
      in (joined, s\<lparr> session_slots := kept \<rparr>))"

definition clear_by_cert :: "bytes \<Rightarrow> rtsp_server \<Rightarrow> (nat \<times> slot) list \<times> rtsp_server" where
  "clear_by_cert cert s =
     (let (joined, kept) = erase_slots (\<lambda>x. sl_cert x = cert) (session_slots s)
      in (joined, s\<lparr> session_slots := kept \<rparr>))"

definition server_insert :: "nat \<times> slot \<Rightarrow> rtsp_server \<Rightarrow> rtsp_server" where
  "server_insert x s = s\<lparr> session_slots := session_slots s @ [x] \<rparr>"

definition server_remove :: "nat \<Rightarrow> rtsp_server \<Rightarrow> rtsp_server" where
  "server_remove i s = s\<lparr> session_slots := filter (\<lambda>(j, x). j \<noteq> i) (session_slots s) \<rparr>"

definition session_count :: "rtsp_server \<Rightarrow> nat \<times> rtsp_server" where
  "session_count s = (let (joined, t) = server_clear False s in (length (session_slots t), t))"

section \<open>Requests\<close>

text \<open>\<open>started\<close> is what \<open>session::start\<close> leaves, \<open>None\<close> its failure.\<close>

definition cmd_announce ::
  "ss_enc \<Rightarrow> rtsp_host \<Rightarrow> int \<Rightarrow> bool \<Rightarrow> launch_session \<Rightarrow> rtsp_request \<Rightarrow> rtsp_server \<Rightarrow> (rtsp_response \<times> rtsp_server) option" where
  "cmd_announce e h mode started session req s =
     (case cmd_announce_config e h mode session req of
        Undefined_Read \<Rightarrow> None
      | Reply_Announce r \<Rightarrow> Some (r, s)
      | Start_Session c \<Rightarrow>
          let i = next_session s;
              s1 = server_insert (i, \<lparr> sl_state = STOPPED, sl_cert = ls_client_cert session, sl_config = c \<rparr>)
                (s\<lparr> next_session := i + 1 \<rparr>)
          in if \<not> started
             then Some (respond [cseq req] 500 ''Internal Server Error'' (rq_seqn req) [], server_remove i s1)
             else Some (respond [cseq req] 200 ''OK'' (rq_seqn req) [],
               s1\<lparr> session_slots := map (\<lambda>(j, x). (j, if j = i then x\<lparr> sl_state := RUNNING \<rparr> else x)) (session_slots s1) \<rparr>))"

definition handle_msg ::
  "ss_enc \<Rightarrow> rtsp_host \<Rightarrow> int \<Rightarrow> bool \<Rightarrow> launch_session \<Rightarrow> rtsp_request \<Rightarrow> rtsp_server \<Rightarrow> (rtsp_response \<times> rtsp_server) option" where
  "handle_msg e h mode started session req s =
     (if rq_command req = ascii ''OPTIONS'' then Some (cmd_option req, s)
      else if rq_command req = ascii ''DESCRIBE'' then Some (cmd_describe e h mode session req, s)
      else if rq_command req = ascii ''SETUP'' then map_option (\<lambda>r. (r, s)) (cmd_setup h session req)
      else if rq_command req = ascii ''ANNOUNCE'' then cmd_announce e h mode started session req s
      else if rq_command req = ascii ''PLAY'' then Some (cmd_play req, s)
      else Some (cmd_not_found req, s))"

text \<open>One turn of the RTSP thread after its handlers: all sessions end when the broadcast does.\<close>

definition rtsp_turn :: "bool \<Rightarrow> rtsp_server \<Rightarrow> rtsp_server" where
  "rtsp_turn broadcast_shutdown s = snd (server_clear broadcast_shutdown s)"

section \<open>Properties\<close>

lemma erase_slots_eq:
  "erase_slots P xs = (map (\<lambda>(i, x). (i, slot_stop x)) (filter (\<lambda>(i, x). P x) xs), filter (\<lambda>(i, x). \<not> P x) xs)"
  by (induction P xs rule: erase_slots.induct) auto

lemma view_now_eq: "view_now e = (if ev_continue e then ev_status e else None)"
  by (cases "ev_status e") (auto simp: view_now_def event_view_for_entry_def event_view_loop_def event_view_for_wake_def)

lemma pop_now_eq: "pop_now e = (if ev_continue e \<and> ev_status e \<noteq> None then (ev_status e, e\<lparr> ev_status := None \<rparr>) else (None, e))"
  by (auto simp: pop_now_def event_pop_for_def Let_def)

lemma pop_now_none: "view_now (snd (pop_now e)) = None"
  by (simp add: pop_now_eq view_now_eq)

lemma clear_by_cert_slots: "session_slots (snd (clear_by_cert cert s)) = filter (\<lambda>(i, x). sl_cert x \<noteq> cert) (session_slots s)"
  by (auto simp: clear_by_cert_def erase_slots_eq intro!: filter_cong)

text \<open>
  Sessions end exactly as asked: one turn of the thread removes the stopping sessions and
  keeps the others as they are, the end of the broadcast removes all, and terminating a client
  removes the sessions of its certificate only; every session that is removed has been told to stop
  and is none that still runs.
\<close>
theorem sessions_cleared:
  "session_slots (rtsp_turn False s) = filter (\<lambda>(i, x). sl_state x \<noteq> STOPPING) (session_slots s) \<and>
   session_slots (rtsp_turn True s) = [] \<and>
   session_slots (snd (clear_by_cert cert s)) = filter (\<lambda>(i, x). sl_cert x \<noteq> cert) (session_slots s) \<and>
   RUNNING \<notin> (\<lambda>(i, x). sl_state x) ` (set (fst (server_clear all s)) \<union> set (fst (clear_by_cert cert s)))"
  by (auto simp: rtsp_turn_def server_clear_def clear_by_cert_def erase_slots_eq slot_stop_def
      intro!: filter_cong split: if_splits)

lemma handle_msg_slots:
  assumes "handle_msg e h mode started session req s = Some (r, t)" "\<forall>(i, x) \<in> set (session_slots s). i < next_session s"
  shows "session_slots t = session_slots s \<or>
    (started \<and> rq_command req = ascii ''ANNOUNCE'' \<and> rs_status r = 200 \<and>
     (\<exists>c. cmd_announce_config e h mode session req = Start_Session c \<and>
       session_slots t = session_slots s @ [(next_session s, \<lparr> sl_state = RUNNING, sl_cert = ls_client_cert session, sl_config = c \<rparr>)]))"
proof (cases "rq_command req = ascii ''ANNOUNCE''")
  case False
  then show ?thesis using assms(1) unfolding handle_msg_def by (auto split: if_splits)
next
  case True
  then have a: "cmd_announce e h mode started session req s = Some (r, t)"
    using assms(1) by (simp add: handle_msg_def)
  show ?thesis
  proof (cases "cmd_announce_config e h mode session req")
    case (Start_Session c)
    have same: "map (\<lambda>(j, x). (j, if j = next_session s then f x else x)) (session_slots s) = session_slots s" for f
      using assms(2) by (auto intro!: map_idI)
    have other: "filter (\<lambda>(j, x). j \<noteq> next_session s) (session_slots s) = session_slots s"
      using assms(2) by (auto simp: filter_id_conv)
    show ?thesis
      using a Start_Session True same [of "\<lambda>x. x\<lparr> sl_state := RUNNING \<rparr>"] other
      by (auto simp: cmd_announce_def Let_def server_insert_def server_remove_def respond_def split: if_splits)
  qed (use a in \<open>auto simp: cmd_announce_def\<close>)
qed

text \<open>
  (C17) A request changes the sessions in one way only: an accepted announcement that starts adds
  one running session with the launch's certificate and is answered with 200; every other request, a
  refused announcement and one whose start fails leave the sessions as they were.
\<close>
theorem requests_add_one_session:
  assumes "handle_msg e h mode started session req s = Some (r, t)" "\<forall>(i, x) \<in> set (session_slots s). i < next_session s"
  shows "session_slots t = session_slots s \<or>
    (started \<and> rq_command req = ascii ''ANNOUNCE'' \<and> rs_status r = 200 \<and>
     (\<exists>c. cmd_announce_config e h mode session req = Start_Session c \<and>
       session_slots t = session_slots s @ [(next_session s, \<lparr> sl_state = RUNNING, sl_cert = ls_client_cert session, sl_config = c \<rparr>)]))"
  by (rule handle_msg_slots [OF assms])

text \<open>
  Two races of the launch timer. A launch that was raised after another expired can be thrown
  away at once by the handler of the first; and the control thread can block for good in
  \<open>session_clear\<close>, because the timer's handler pops the event between its look and its pop.
\<close>
theorem launch_timer_races:
  fixes l1 l2 :: launch_session
  shows "(\<exists>s. launch_step\<^sup>*\<^sup>* (False, rtsp_server_new) (False, s) \<and>
      view_now (launch_event s) = Some l2 \<and> timer_armed s \<and>
      (\<exists>t. launch_step (False, s) (False, t) \<and> view_now (launch_event t) = None \<and> timer_armed t)) \<and>
    (\<exists>s. launch_step\<^sup>*\<^sup>* (False, rtsp_server_new) (True, s) \<and> session_clear_pop s = None \<and> timer_expired s = 0)"
proof (intro conjI)
  let ?r1 = "session_raise l1 rtsp_server_new"
  let ?x1 = "?r1\<lparr> timer_armed := False, timer_expired := 1 \<rparr>"
  have r1: "launch_step (False, rtsp_server_new) (False, ?r1)" by (rule launch_step.Raise)
  have x1: "launch_step (False, ?r1) (False, ?x1)"
  proof -
    have "launch_step (False, ?r1) (False, ?r1\<lparr> timer_armed := False, timer_expired := timer_expired ?r1 + 1 \<rparr>)"
      by (rule launch_step.Expire) (simp add: session_raise_def rtsp_server_new_def view_now_eq event_new_def)
    then show ?thesis by (simp add: session_raise_def rtsp_server_new_def view_now_eq event_new_def)
  qed
  have v1: "launch_step (False, ?x1) (True, ?x1\<lparr> timer_armed := False \<rparr>)"
    by (rule launch_step.Clear_View [of "ls_id l1"])
      (simp add: session_clear_matches_def view_now_eq session_raise_def rtsp_server_new_def event_defs)
  let ?p1 = "?x1\<lparr> launch_event := event_new \<rparr>"
  have p1: "launch_step (True, ?x1\<lparr> timer_armed := False \<rparr>) (False, ?p1)"
    by (rule launch_step.Clear_Pop) (simp add: session_clear_pop_def session_raise_def rtsp_server_new_def view_now_eq event_defs)
  let ?r2 = "session_raise l2 ?p1"
  have r2: "launch_step (False, ?p1) (False, ?r2)" by (rule launch_step.Raise)
  have e2: "timer_expired ?r2 = 1" "view_now (launch_event ?r2) = Some l2" "timer_armed ?r2"
    by (simp_all add: session_raise_def view_now_eq event_defs)
  have h2: "launch_step (False, ?r2) (False, timer_handler (?r2\<lparr> timer_expired := timer_expired ?r2 - 1 \<rparr>))"
    by (rule launch_step.Handler) (metis e2(1) zero_less_one)
  have run: "launch_step\<^sup>*\<^sup>* (False, rtsp_server_new) (False, ?r2)"
    using r1 x1 v1 p1 r2 by (meson rtranclp.rtrancl_into_rtrancl rtranclp.rtrancl_refl)
  let ?t = "timer_handler (?r2\<lparr> timer_expired := timer_expired ?r2 - 1 \<rparr>)"
  have t1: "view_now (launch_event ?t) = None"
    by (simp add: timer_handler_def pop_now_none)
  have armed: "timer_armed (timer_handler q) = timer_armed q" for q
    by (simp add: timer_handler_def Let_def)
  have t2: "timer_armed ?t"
    unfolding armed by (simp add: session_raise_def view_now_eq event_defs)
  note t = t1 t2
  show "\<exists>s. launch_step\<^sup>*\<^sup>* (False, rtsp_server_new) (False, s) \<and> view_now (launch_event s) = Some l2 \<and> timer_armed s \<and>
      (\<exists>t. launch_step (False, s) (False, t) \<and> view_now (launch_event t) = None \<and> timer_armed t)"
    using run e2(2,3) h2 t by blast
  let ?h1 = "timer_handler ((?x1\<lparr> timer_armed := False \<rparr>)\<lparr> timer_expired := timer_expired (?x1\<lparr> timer_armed := False \<rparr>) - 1 \<rparr>)"
  have h1: "launch_step (True, ?x1\<lparr> timer_armed := False \<rparr>) (True, ?h1)"
    by (rule launch_step.Handler) simp
  show "\<exists>s. launch_step\<^sup>*\<^sup>* (False, rtsp_server_new) (True, s) \<and> session_clear_pop s = None \<and> timer_expired s = 0"
  proof (intro exI conjI)
    show "launch_step\<^sup>*\<^sup>* (False, rtsp_server_new) (True, ?h1)"
      using r1 x1 v1 h1 by (meson rtranclp.rtrancl_into_rtrancl rtranclp.rtrancl_refl)
    show "session_clear_pop ?h1 = None"
      by (simp add: session_clear_pop_def timer_handler_def pop_now_eq session_raise_def rtsp_server_new_def view_now_eq event_defs)
    show "timer_expired ?h1 = 0" by (simp add: timer_handler_def)
  qed
qed

theorem requests_add_one_session_witness:
  "\<exists>r t c. handle_msg ss_example host_example ENCRYPTION_MODE_MANDATORY True launch_example announce_example rtsp_server_new = Some (r, t) \<and>
     session_slots t = [(0, \<lparr> sl_state = RUNNING, sl_cert = [], sl_config = c \<rparr>)]"
proof -
  obtain c where c: "cmd_announce_config ss_example host_example ENCRYPTION_MODE_MANDATORY launch_example announce_example = Start_Session c"
    using announce_example_starts by blast
  obtain r t where h: "handle_msg ss_example host_example ENCRYPTION_MODE_MANDATORY True launch_example announce_example rtsp_server_new = Some (r, t)"
    "session_slots t \<noteq> []"
    by (simp add: handle_msg_def announce_example_def cmd_announce_def c [unfolded announce_example_def] Let_def server_insert_def)
  from requests_add_one_session [OF h(1)] h(2) have
    "\<exists>c. session_slots t = session_slots rtsp_server_new @ [(next_session rtsp_server_new,
      \<lparr> sl_state = RUNNING, sl_cert = ls_client_cert launch_example, sl_config = c \<rparr>)]"
    by (auto simp: rtsp_server_new_def)
  with h(1) show ?thesis by (auto simp: rtsp_server_new_def launch_example_def)
qed

end
