(* ===== verification/Launch.thy ===== *)
theory Launch
  imports Pairing Process Rtsp_Server
begin

text \<open>
  Launching, resuming and cancelling an application: \<open>make_launch_session\<close>, \<open>launch\<close>, \<open>resume\<close>,
  \<open>cancel\<close>, \<open>serverinfo\<close> and \<open>applist\<close> of \<open>src/nvhttp.cpp\<close>, over the running application
  (\<open>Process\<close>) and the RTSP server (\<open>Rtsp_Server\<close>). The encoder probe, random numbers and
  the addresses of the request are parameters; calls to the display component are part of the log of
  the application.
\<close>

unbundle bit_operations_syntax

section \<open>The host\<close>

record host =
  ho_counter :: u32
  ho_audio :: bool
  ho_cert :: bytes
  ho_proc :: proc
  ho_rtsp :: rtsp_server

record web_env =
  we_platform :: platform
  we_now :: int
  we_probe_failed :: bool
  we_encryption_mode :: int
  we_random8 :: bytes
  we_random4 :: u32
  we_local_address :: bytes
  we_port :: u16

record launch_answer =
  la_status :: int
  la_resume :: "int option"
  la_gamesession :: "int option"
  la_cancel :: "int option"
  la_url :: "bytes option"

definition refuse :: "int \<Rightarrow> int option \<Rightarrow> int option \<Rightarrow> launch_answer" where
  "refuse status resume gamesession =
     \<lparr> la_status = status, la_resume = resume, la_gamesession = gamesession, la_cancel = None, la_url = None \<rparr>"

section \<open>The launch session of a request\<close>

text \<open>\<open>std::getline\<close> on the mode: the parts between the separators, without an empty last one.\<close>

fun segments :: "u8 \<Rightarrow> bytes \<Rightarrow> bytes \<Rightarrow> bytes list" where
  "segments sep cur [] = (if cur = [] then [] else [cur])"
| "segments sep cur (c # cs) = (if c = sep then cur # segments sep [] cs else segments sep (cur @ [c]) cs)"

text \<open>\<open>atoi\<close>, for numbers an \<open>int\<close> can hold.\<close>

definition atoi :: "bytes \<Rightarrow> int" where
  "atoi text =
     (let t = dropWhile is_space text;
          neg = (t \<noteq> [] \<and> hd t = 0x2D);
          u = (if t \<noteq> [] \<and> (hd t = 0x2D \<or> hd t = 0x2B) then tl t else t);
          n = foldl (\<lambda>n d. 10 * n + (uint d - 0x30)) 0 (takeWhile is_digit u)
      in if neg then - n else n)"

definition segment_value :: "bytes list \<Rightarrow> nat \<Rightarrow> int" where
  "segment_value segs i = (if i < length segs then atoi (segs ! i) else 0)"

definition arg_number :: "args \<Rightarrow> string \<Rightarrow> string \<Rightarrow> int" where
  "arg_number args name fallback = from_chars (value_or (ascii fallback) (args name))"

definition make_launch_session :: "web_env \<Rightarrow> bool \<Rightarrow> args \<Rightarrow> host \<Rightarrow> (launch_session \<times> host) option" where
  "make_launch_session e host_audio args h =
     (case get_arg args ''rikey'' None of
        None \<Rightarrow> None
      | Some rikey \<Rightarrow>
          (case get_arg args ''rikeyid'' None of
             None \<Rightarrow> None
           | Some rikeyid \<Rightarrow>
               let h1 = h\<lparr> ho_counter := ho_counter h + 1 \<rparr>;
                   segs = segments 0x78 [] (value_or (ascii ''0x0x0'') (args ''mode''));
                   encrypted = (arg_number args ''corever'' ''0'' \<ge> 1)
               in Some (\<lparr>
                    ls_id = ho_counter h1,
                    ls_gcm_key = from_hex_vec rikey True,
                    ls_iv = be_bytes 4 (nat (uint (word_of_int (from_chars rikeyid) :: u32))) @ replicate 12 0,
                    ls_av_ping_payload = hex_vec (we_random8 e) False,
                    ls_control_connect_data = we_random4 e,
                    ls_host_audio = host_audio,
                    ls_unique_id = value_or (ascii ''unknown'') (args ''uniqueid''),
                    ls_width = segment_value segs 0,
                    ls_height = segment_value segs 1,
                    ls_fps = segment_value segs 2,
                    ls_gcmap = to_int (arg_number args ''gcmap'' ''0''),
                    ls_appid = to_int (arg_number args ''appid'' ''unknown''),
                    ls_surround_info = to_int (arg_number args ''surroundAudioInfo'' ''196610''),
                    ls_surround_params = value_or [] (args ''surroundParams''),
                    ls_continuous_audio = (arg_number args ''continuousAudio'' ''0'' \<noteq> 0),
                    ls_enable_hdr = (arg_number args ''hdrMode'' ''0'' \<noteq> 0),
                    ls_enable_sops = (arg_number args ''sops'' ''0'' \<noteq> 0),
                    ls_encrypted = encrypted,
                    ls_rtsp_url_scheme = (if encrypted then ascii ''rtspenc://'' else ascii ''rtsp://''),
                    ls_rtsp_iv_counter = 0,
                    ls_client_cert = ho_cert h \<rparr>, h1)))"

definition RTSP_SETUP_PORT :: int where "RTSP_SETUP_PORT = 21"

definition session_url :: "web_env \<Rightarrow> launch_session \<Rightarrow> bytes" where
  "session_url e l = ls_rtsp_url_scheme l @ we_local_address e @ ascii '':'' @ to_text (uint (map_port (we_port e) RTSP_SETUP_PORT))"

section \<open>Launch, resume and cancel\<close>

definition display_event :: "proc_event \<Rightarrow> host \<Rightarrow> host" where
  "display_event ev h = h\<lparr> ho_proc := (ho_proc h)\<lparr> pr_log := pr_log (ho_proc h) @ [ev] \<rparr> \<rparr>"

definition count_sessions :: "host \<Rightarrow> nat \<times> host" where
  "count_sessions h = (let (n, r) = session_count (ho_rtsp h) in (n, h\<lparr> ho_rtsp := r \<rparr>))"

definition host_running :: "web_env \<Rightarrow> host \<Rightarrow> int \<times> host" where
  "host_running e h = (let (i, p) = running (we_platform e) (we_now e) (ho_proc h) in (i, h\<lparr> ho_proc := p \<rparr>))"

definition raise_session :: "launch_session \<Rightarrow> host \<Rightarrow> host" where
  "raise_session l h = h\<lparr> ho_rtsp := session_raise l (ho_rtsp h) \<rparr>"

definition launch :: "web_env \<Rightarrow> args \<Rightarrow> host \<Rightarrow> (launch_answer \<times> host) option" where
  "launch e args h =
     (if args ''rikey'' = None \<or> args ''rikeyid'' = None \<or> args ''localAudioPlayMode'' = None \<or> args ''appid'' = None
      then Some (refuse 400 (Some 0) None, h)
      else
        let appid = from_chars (the (args ''appid''));
            (current_appid, h1) = host_running e h
        in if current_appid > 0 then Some (refuse 400 (Some 0) None, h1)
           else
             let h2 = h1\<lparr> ho_audio := (from_chars (the (args ''localAudioPlayMode'')) \<noteq> 0) \<rparr>
             in case make_launch_session e (ho_audio h2) args h2 of
               None \<Rightarrow> None
             | Some (l, h3) \<Rightarrow>
                 let (sessions, h4) = count_sessions h3;
                     revert = (sessions = 0);
                     h5 = (if revert then display_event Display_Configured h4 else h4);
                     finish = (\<lambda>h. if revert then display_event Display_Reverted h else h)
                 in if revert \<and> we_probe_failed e then Some (refuse 503 None (Some 0), finish h5)
                    else if \<not> ls_encrypted l \<and> we_encryption_mode e = ENCRYPTION_MODE_MANDATORY
                    then Some (refuse 403 None (Some 0), finish h5)
                    else
                      let (err, p) = (if appid > 0 then execute (we_platform e) (we_now e) (to_int appid) l (ho_proc h5)
                            else (0, ho_proc h5));
                          h6 = h5\<lparr> ho_proc := p \<rparr>
                      in if err \<noteq> 0 then Some (refuse err None (Some 0), finish h6)
                         else Some (\<lparr> la_status = 200, la_resume = None, la_gamesession = Some 1, la_cancel = None,
                                la_url = Some (session_url e l) \<rparr>, raise_session l h6))"

text \<open>The audio mode is only read again when no session is left.\<close>

definition resume_audio :: "nat \<Rightarrow> args \<Rightarrow> host \<Rightarrow> host" where
  "resume_audio sessions args h =
     (if sessions = 0 \<and> args ''localAudioPlayMode'' \<noteq> None
      then h\<lparr> ho_audio := (from_chars (the (args ''localAudioPlayMode'')) \<noteq> 0) \<rparr> else h)"

definition resume :: "web_env \<Rightarrow> args \<Rightarrow> host \<Rightarrow> (launch_answer \<times> host) option" where
  "resume e args h =
     (let (current_appid, h1) = host_running e h
      in if current_appid = 0 then Some (refuse 503 (Some 0) None, h1)
         else if args ''rikey'' = None \<or> args ''rikeyid'' = None then Some (refuse 400 (Some 0) None, h1)
         else
           let (sessions, h2) = count_sessions h1;
               h3 = resume_audio sessions args h2
           in case make_launch_session e (ho_audio h3) args h3 of
             None \<Rightarrow> None
           | Some (l, h4) \<Rightarrow>
               let h5 = (if sessions = 0 then display_event Display_Configured h4 else h4)
               in if sessions = 0 \<and> we_probe_failed e then Some (refuse 503 (Some 0) None, h5)
                  else if \<not> ls_encrypted l \<and> we_encryption_mode e = ENCRYPTION_MODE_MANDATORY
                  then Some (refuse 403 None (Some 0), h5)
                  else Some (\<lparr> la_status = 200, la_resume = Some 1, la_gamesession = None, la_cancel = None,
                         la_url = Some (session_url e l) \<rparr>, raise_session l h5))"

definition terminate_sessions :: "host \<Rightarrow> host" where
  "terminate_sessions h = display_event Gamepads_Terminated (h\<lparr> ho_rtsp := snd (server_clear True (ho_rtsp h)) \<rparr>)"

definition cancel :: "web_env \<Rightarrow> host \<Rightarrow> launch_answer \<times> host" where
  "cancel e h =
     (let h1 = terminate_sessions h;
          (i, h2) = host_running e h1;
          h3 = (if i > 0 then h2\<lparr> ho_proc := terminate (we_platform e) (ho_proc h2) \<rparr> else h2)
      in (\<lparr> la_status = 200, la_resume = None, la_gamesession = None, la_cancel = Some 1, la_url = None \<rparr>,
          display_event Display_Reverted h3))"

section \<open>What the host tells about itself\<close>

record encoder_state =
  vs_yuv444 :: "nat \<Rightarrow> bool"
  vs_hevc_mode :: int
  vs_av1_mode :: int

text \<open>The codec flags of moonlight-common-c.\<close>

record scm_flags =
  SCM_H264 :: u32
  SCM_HEVC :: u32
  SCM_HEVC_MAIN10 :: u32
  SCM_AV1_MAIN8 :: u32
  SCM_AV1_MAIN10 :: u32
  SCM_H264_HIGH8_444 :: u32
  SCM_HEVC_REXT8_444 :: u32
  SCM_HEVC_REXT10_444 :: u32
  SCM_AV1_HIGH8_444 :: u32
  SCM_AV1_HIGH10_444 :: u32

definition flag_if :: "bool \<Rightarrow> u32 \<Rightarrow> u32" where
  "flag_if b f = (if b then f else 0)"

definition get_codec_mode_flags :: "scm_flags \<Rightarrow> encoder_state \<Rightarrow> u32" where
  "get_codec_mode_flags f v =
     SCM_H264 f OR flag_if (vs_yuv444 v 0) (SCM_H264_HIGH8_444 f) OR
     (if vs_hevc_mode v \<ge> 2 then SCM_HEVC f OR flag_if (vs_yuv444 v 1) (SCM_HEVC_REXT8_444 f) else 0) OR
     flag_if (vs_hevc_mode v = 3 \<or> vs_hevc_mode v = 5) (SCM_HEVC_MAIN10 f) OR
     flag_if ((vs_hevc_mode v = 4 \<or> vs_hevc_mode v = 5) \<and> vs_yuv444 v 1) (SCM_HEVC_REXT10_444 f) OR
     (if vs_av1_mode v \<ge> 2 then SCM_AV1_MAIN8 f OR flag_if (vs_yuv444 v 2) (SCM_AV1_HIGH8_444 f) else 0) OR
     flag_if (vs_av1_mode v = 3 \<or> vs_av1_mode v = 5) (SCM_AV1_MAIN10 f) OR
     flag_if ((vs_av1_mode v = 4 \<or> vs_av1_mode v = 5) \<and> vs_yuv444 v 2) (SCM_AV1_HIGH10_444 f)"

record server_info =
  si_HttpsPort :: u16
  si_ExternalPort :: u16
  si_MaxLumaPixelsHEVC :: bytes
  si_mac :: bytes
  si_LocalIP :: bytes
  si_ServerCodecModeSupport :: u32
  si_ExternalIP :: "bytes option"
  si_PairStatus :: int
  si_currentgame :: int
  si_busy :: bool

definition PORT_HTTP :: int where "PORT_HTTP = 0"
definition PORT_HTTPS :: int where "PORT_HTTPS = - 5"

definition serverinfo ::
  "scm_flags \<Rightarrow> encoder_state \<Rightarrow> (address \<Rightarrow> bytes) \<Rightarrow> (bytes \<Rightarrow> bytes) \<Rightarrow> bytes \<Rightarrow> bool \<Rightarrow> address \<Rightarrow> web_env \<Rightarrow> args \<Rightarrow> host \<Rightarrow> server_info \<times> host" where
  "serverinfo f v show_address mac_of external_ip https endpoint e args h =
     (let (i, h1) = host_running e h;
          local = addr_to_normalized_string show_address endpoint;
          v6 = (case endpoint of V4 _ \<Rightarrow> False | V6 x \<Rightarrow> drop_bit 32 x \<noteq> 0xFFFF)
      in (\<lparr> si_HttpsPort = map_port (we_port e) PORT_HTTPS, si_ExternalPort = map_port (we_port e) PORT_HTTP,
            si_MaxLumaPixelsHEVC = (if vs_hevc_mode v > 1 then ascii ''1869449984'' else ascii ''0''),
            si_mac = (if https then mac_of local else ascii ''00:00:00:00:00:00''),
            si_LocalIP = (if v6 then ascii ''127.0.0.1'' else local),
            si_ServerCodecModeSupport = get_codec_mode_flags f v,
            si_ExternalIP = (if external_ip = [] then None else Some external_ip),
            si_PairStatus = (if https \<and> args ''uniqueid'' \<noteq> None then 1 else 0),
            si_currentgame = i, si_busy = (i > 0) \<rparr>, h1))"

definition applist :: "encoder_state \<Rightarrow> host \<Rightarrow> (bool \<times> bytes \<times> bytes) list" where
  "applist v h = map (\<lambda>a. (vs_hevc_mode v \<ge> 3, ap_name a, ap_id a)) (pr_apps (ho_proc h))"

section \<open>Answers\<close>

lemma make_launch_session_Some:
  "args ''rikey'' \<noteq> None \<Longrightarrow> args ''rikeyid'' \<noteq> None \<Longrightarrow>
    \<exists>l. make_launch_session e b args h = Some (l, h\<lparr> ho_counter := ho_counter h + 1 \<rparr>) \<and>
      ls_encrypted l = (arg_number args ''corever'' ''0'' \<ge> 1) \<and> ls_client_cert l = ho_cert h \<and> ls_id l = ho_counter h + 1"
  by (auto simp: make_launch_session_def get_arg_def Let_def)

lemma count_sessions_sel [simp]:
  "ho_proc (snd (count_sessions h)) = ho_proc h" "ho_cert (snd (count_sessions h)) = ho_cert h"
  "launch_event (ho_rtsp (snd (count_sessions h))) = launch_event (ho_rtsp h)"
  "next_session (ho_rtsp (snd (count_sessions h))) = next_session (ho_rtsp h)"
  "session_slots (ho_rtsp (snd (count_sessions h))) = filter (\<lambda>(i, x). sl_state x \<noteq> STOPPING) (session_slots (ho_rtsp h))"
  by (simp_all add: count_sessions_def session_count_def server_clear_def erase_slots_eq split: prod.splits)

lemma display_event_sel [simp]:
  "ho_rtsp (display_event ev h) = ho_rtsp h" "ho_cert (display_event ev h) = ho_cert h"
  "pr_log (ho_proc (display_event ev h)) = pr_log (ho_proc h) @ [ev]"
  "pr_app_id (ho_proc (display_event ev h)) = pr_app_id (ho_proc h)"
  by (simp_all add: display_event_def)

lemma host_running_sel [simp]:
  "ho_rtsp (snd (host_running e h)) = ho_rtsp h" "ho_cert (snd (host_running e h)) = ho_cert h"
  "fst (host_running e h) = fst (running (we_platform e) (we_now e) (ho_proc h))"
  "ho_proc (snd (host_running e h)) = snd (running (we_platform e) (we_now e) (ho_proc h))"
  by (simp_all add: host_running_def split: prod.splits)

text \<open>The steps of a launch that was admitted, with the session and the state before the start.\<close>

definition launch_parts :: "web_env \<Rightarrow> args \<Rightarrow> host \<Rightarrow> bool \<times> launch_session \<times> host" where
  "launch_parts e args h =
     (let h1 = snd (host_running e h);
          h2 = h1\<lparr> ho_audio := (from_chars (the (args ''localAudioPlayMode'')) \<noteq> 0) \<rparr>;
          (l, h3) = the (make_launch_session e (ho_audio h2) args h2);
          (sessions, h4) = count_sessions h3
      in (sessions = 0, l, if sessions = 0 then display_event Display_Configured h4 else h4))"

definition launch_params :: "args \<Rightarrow> bool" where
  "launch_params args \<longleftrightarrow> args ''rikey'' \<noteq> None \<and> args ''rikeyid'' \<noteq> None \<and>
     args ''localAudioPlayMode'' \<noteq> None \<and> args ''appid'' \<noteq> None"

lemma launch_parts_sel:
  assumes "launch_params args" and "launch_parts e args h = (first, l, h5)"
  shows "ls_encrypted l = (arg_number args ''corever'' ''0'' \<ge> 1) \<and> ls_client_cert l = ho_cert h \<and>
    launch_event (ho_rtsp h5) = launch_event (ho_rtsp h) \<and> next_session (ho_rtsp h5) = next_session (ho_rtsp h) \<and>
    session_slots (ho_rtsp h5) = filter (\<lambda>(i, x). sl_state x \<noteq> STOPPING) (session_slots (ho_rtsp h)) \<and>
    ho_proc h5 = (let p = snd (host_running e h) in ho_proc (if first then display_event Display_Configured p else p))"
proof -
  define h2 where "h2 = (snd (host_running e h))\<lparr> ho_audio := (from_chars (the (args ''localAudioPlayMode'')) \<noteq> 0) \<rparr>"
  obtain l' where l': "make_launch_session e (ho_audio h2) args h2 = Some (l', h2\<lparr> ho_counter := ho_counter h2 + 1 \<rparr>)"
    "ls_encrypted l' = (arg_number args ''corever'' ''0'' \<ge> 1)" "ls_client_cert l' = ho_cert h2"
    using make_launch_session_Some [of args e "ho_audio h2" h2] assms(1) by (auto simp: launch_params_def)
  let ?c = "count_sessions (h2\<lparr> ho_counter := ho_counter h2 + 1 \<rparr>)"
  have "launch_parts e args h = (fst ?c = 0, l', if fst ?c = 0 then display_event Display_Configured (snd ?c) else snd ?c)"
    using l'(1) by (simp add: launch_parts_def h2_def Let_def split: prod.splits)
  with assms(2) l' show ?thesis by (auto simp: h2_def Let_def display_event_def)
qed

lemma launch_cases:
  assumes "launch_params args" and "\<not> fst (host_running e h) > 0" and "launch_parts e args h = (first, l, h5)"
  shows "launch e args h =
    (let finish = (\<lambda>h. if first then display_event Display_Reverted h else h)
     in if first \<and> we_probe_failed e then Some (refuse 503 None (Some 0), finish h5)
        else if \<not> ls_encrypted l \<and> we_encryption_mode e = ENCRYPTION_MODE_MANDATORY
        then Some (refuse 403 None (Some 0), finish h5)
        else
          let (err, p) = (if from_chars (the (args ''appid'')) > 0
                then execute (we_platform e) (we_now e) (to_int (from_chars (the (args ''appid'')))) l (ho_proc h5)
                else (0, ho_proc h5));
              h6 = h5\<lparr> ho_proc := p \<rparr>
          in if err \<noteq> 0 then Some (refuse err None (Some 0), finish h6)
             else Some (\<lparr> la_status = 200, la_resume = None, la_gamesession = Some 1, la_cancel = None,
                    la_url = Some (session_url e l) \<rparr>, raise_session l h6))"
proof -
  define h2 where "h2 = (snd (host_running e h))\<lparr> ho_audio := (from_chars (the (args ''localAudioPlayMode'')) \<noteq> 0) \<rparr>"
  obtain l' where l': "make_launch_session e (ho_audio h2) args h2 = Some (l', h2\<lparr> ho_counter := ho_counter h2 + 1 \<rparr>)"
    using make_launch_session_Some [of args e "ho_audio h2" h2] assms(1) by (auto simp: launch_params_def)
  obtain n h4 where c: "count_sessions (h2\<lparr> ho_counter := ho_counter h2 + 1 \<rparr>) = (n, h4)" by fastforce
  obtain i h1 where r: "host_running e h = (i, h1)" by fastforce
  have p: "first = (n = 0)" "l = l'" "h5 = (if n = 0 then display_event Display_Configured h4 else h4)"
    using assms(3) l' c by (auto simp: launch_parts_def h2_def Let_def)
  obtain v1 v2 v3 v4 where v: "args ''rikey'' = Some v1" "args ''rikeyid'' = Some v2"
    "args ''localAudioPlayMode'' = Some v3" "args ''appid'' = Some v4"
    using assms(1) by (auto simp: launch_params_def)
  show ?thesis
    using assms(2) l' c r v unfolding p by (simp add: launch_def h2_def Let_def)
qed

lemma session_raise_view:
  "ev_continue (launch_event s) \<Longrightarrow> view_now (launch_event (session_raise l s)) =
    Some (case view_now (launch_event s) of None \<Rightarrow> l | Some k \<Rightarrow> k)"
  by (auto simp: session_raise_def view_now_eq event_raise_def event_raise_status_def split: option.splits)

lemma execute_started:
  "execute pf now app_id l s = (0, t) \<Longrightarrow> pr_app_id t = app_id"
  by (auto simp: execute_def Let_def split: option.splits if_splits prod.splits)

lemma raise_session_sel [simp]:
  "ho_rtsp (raise_session l h) = session_raise l (ho_rtsp h)" "ho_proc (raise_session l h) = ho_proc h"
  by (simp_all add: raise_session_def)

lemma launch_refused:
  assumes "\<not> launch_params args \<or> fst (host_running e h) > 0"
  shows "launch e args h = Some (refuse 400 (Some 0) None, if launch_params args then snd (host_running e h) else h)"
proof -
  obtain i h1 where r: "host_running e h = (i, h1)" by fastforce
  with assms show ?thesis by (cases "launch_params args") (auto simp: launch_def launch_params_def Let_def)
qed

lemma launch_success:
  assumes "launch e args h = Some (a, h')" and "la_gamesession a = Some 1"
  obtains first l h5 p where "launch_params args" "\<not> fst (host_running e h) > 0"
    "launch_parts e args h = (first, l, h5)" "ls_encrypted l \<or> we_encryption_mode e \<noteq> ENCRYPTION_MODE_MANDATORY"
    "\<not> (first \<and> we_probe_failed e)"
    "(if from_chars (the (args ''appid'')) > 0
      then execute (we_platform e) (we_now e) (to_int (from_chars (the (args ''appid'')))) l (ho_proc h5) else (0, ho_proc h5)) = (0, p)"
    "h' = raise_session l (h5\<lparr> ho_proc := p \<rparr>)"
proof -
  have ok: "launch_params args" "\<not> fst (host_running e h) > 0"
    using launch_refused [of args e h] assms by (force simp: refuse_def)+
  obtain first l h5 where p: "launch_parts e args h = (first, l, h5)" by (metis prod_cases3)
  note c = launch_cases [OF ok p]
  have "\<not> (first \<and> we_probe_failed e)" "ls_encrypted l \<or> we_encryption_mode e \<noteq> ENCRYPTION_MODE_MANDATORY"
    using assms c by (auto simp: Let_def refuse_def split: if_splits)
  moreover obtain err q where q: "(if from_chars (the (args ''appid'')) > 0
      then execute (we_platform e) (we_now e) (to_int (from_chars (the (args ''appid'')))) l (ho_proc h5) else (0, ho_proc h5)) = (err, q)"
    by fastforce
  ultimately have "err = 0" "h' = raise_session l (h5\<lparr> ho_proc := q \<rparr>)"
    using assms c by (auto simp: Let_def refuse_def simp del: split_paired_Ex split: if_splits)
  with q show thesis using that ok p \<open>\<not> (first \<and> we_probe_failed e)\<close>
    \<open>ls_encrypted l \<or> we_encryption_mode e \<noteq> ENCRYPTION_MODE_MANDATORY\<close> by blast
qed

text \<open>
  (C12) What a launch that is granted means: every parameter was there, no application ran, the client
  encrypts its requests if the host demands it, the application asked for has started, and the RTSP
  server waits for a connection. It waits for this client only when no launch was pending: otherwise
  the client is told to connect, and the session it will be given is the other client's.
\<close>
theorem launch_admission:
  assumes "launch e args h = Some (a, h')" and "la_gamesession a = Some 1"
    and "ev_continue (launch_event (ho_rtsp h))"
  shows "launch_params args \<and> fst (host_running e h) \<le> 0 \<and>
    (we_encryption_mode e = ENCRYPTION_MODE_MANDATORY \<longrightarrow> 1 \<le> arg_number args ''corever'' ''0'') \<and>
    (from_chars (the (args ''appid'')) > 0 \<longrightarrow> pr_app_id (ho_proc h') = to_int (from_chars (the (args ''appid'')))) \<and>
    handle_accept (ho_rtsp h') =
      Some (case handle_accept (ho_rtsp h) of None \<Rightarrow> fst (snd (launch_parts e args h)) | Some other \<Rightarrow> other)"
proof -
  obtain first l h5 p where L: "launch_params args" "\<not> fst (host_running e h) > 0"
    "launch_parts e args h = (first, l, h5)" "ls_encrypted l \<or> we_encryption_mode e \<noteq> ENCRYPTION_MODE_MANDATORY"
    "(if from_chars (the (args ''appid'')) > 0
      then execute (we_platform e) (we_now e) (to_int (from_chars (the (args ''appid'')))) l (ho_proc h5) else (0, ho_proc h5)) = (0, p)"
    "h' = raise_session l (h5\<lparr> ho_proc := p \<rparr>)"
    by (rule launch_success [OF assms(1,2)])
  note sel = launch_parts_sel [OF L(1) L(3)]
  have "ev_continue (launch_event (ho_rtsp h5))" using sel assms(3) by simp
  then have "handle_accept (ho_rtsp h') = Some (case handle_accept (ho_rtsp h5) of None \<Rightarrow> l | Some k \<Rightarrow> k)"
    by (simp add: L(6) handle_accept_def session_raise_view)
  moreover have "handle_accept (ho_rtsp h5) = handle_accept (ho_rtsp h)" using sel by (simp add: handle_accept_def)
  moreover have "pr_app_id (ho_proc h') = to_int (from_chars (the (args ''appid'')))" if "from_chars (the (args ''appid'')) > 0"
    using L(5,6) that execute_started by simp
  moreover have "fst (snd (launch_parts e args h)) = l" by (simp add: L(3))
  ultimately show ?thesis using L(1,2,4) sel by auto
qed

section \<open>A failed launch\<close>
lemma dec_digits_ne: "dec_digits n \<noteq> []"
  by (subst dec_digits.simps) simp

lemma dec_digits_value: "foldl (\<lambda>a d. 10 * a + d) 0 (dec_digits n) = n"
proof (induction n rule: dec_digits.induct)
  case (1 n)
  then show ?case by (subst dec_digits.simps) simp
qed

lemma dec_digits_less: "\<forall>d \<in> set (dec_digits n). d < 10"
proof (induction n rule: dec_digits.induct)
  case (1 n)
  then show ?case by (subst dec_digits.simps) simp
qed

lemma digit_bytes_inj:
  assumes "digit_bytes ds = digit_bytes es" and "\<forall>d \<in> set ds. d < 10" and "\<forall>d \<in> set es. d < 10"
  shows "ds = es"
proof -
  have "inj_on (\<lambda>d. word_of_nat (d + 0x30) :: u8) {d. d < 10}"
  proof (rule inj_onI)
    fix d e :: nat
    assume "d \<in> {d. d < 10}" "e \<in> {d. d < 10}" "(word_of_nat (d + 0x30) :: u8) = word_of_nat (e + 0x30)"
    then have "unat (word_of_nat (d + 0x30) :: u8) = unat (word_of_nat (e + 0x30) :: u8)" by simp
    with \<open>d \<in> _\<close> \<open>e \<in> _\<close> show "d = e" by (simp del: of_nat_add)
  qed
  then have "inj_on (map (\<lambda>d. word_of_nat (d + 0x30) :: u8)) (lists {d. d < 10})" by (rule inj_on_map_lists)
  then show ?thesis
    using assms unfolding digit_bytes_def by (auto dest: inj_onD simp: lists_eq_set)
qed

lemma to_text_nonneg_inj:
  assumes "to_text i = to_text j" and "0 \<le> j"
  shows "i = j"
proof (cases "i < 0")
  case True
  then have "hd (to_text i) = 0x2D" by (simp add: to_text_def)
  moreover have "hd (to_text j) \<noteq> 0x2D"
  proof -
    obtain d ds where d: "dec_digits (nat j) = d # ds" using dec_digits_ne [of "nat j"] by (cases "dec_digits (nat j)") auto
    then have "d < 10" using dec_digits_less [of "nat j"] by simp
    then have "unat (word_of_nat (d + 0x30) :: u8) \<noteq> unat (0x2D :: u8)" by (simp del: of_nat_add)
    then have "(word_of_nat (d + 0x30) :: u8) \<noteq> 0x2D" by metis
    with assms(2) d show ?thesis by (simp add: to_text_def digit_bytes_def del: of_nat_add)
  qed
  ultimately show ?thesis using assms(1) by simp
next
  case False
  with assms have "digit_bytes (dec_digits (nat i)) = digit_bytes (dec_digits (nat j))" by (simp add: to_text_def)
  then have "dec_digits (nat i) = dec_digits (nat j)" by (rule digit_bytes_inj) (rule dec_digits_less)+
  then have "nat i = nat j" by (metis dec_digits_value)
  with False assms(2) show ?thesis by simp
qed

text \<open>The ids \<open>calculate_app_id\<close> makes, but for 0: the running application has a positive id.\<close>

definition apps_ok :: "app list \<Rightarrow> bool" where
  "apps_ok apps \<longleftrightarrow> (\<forall>a \<in> set apps. \<exists>n > 0. ap_id a = to_text n)"

definition proc_good :: "proc \<Rightarrow> bool" where
  "proc_good p \<longleftrightarrow> proc_ok [] [] p \<and> apps_ok (pr_apps p) \<and> (pr_placebo p \<or> pr_process p \<longrightarrow> pr_app_id p > 0) \<and> (pr_group p \<longrightarrow> pr_process p)"

lemma find_app_id:
  assumes "apps_ok apps" "find_app (to_text i) apps = Some a"
  shows "i > 0"
proof -
  obtain n where "n > 0" "to_text i = to_text n"
    using assms find_app_Some by (fastforce simp: apps_ok_def)
  then show ?thesis using to_text_nonneg_inj [of i n] by simp
qed

lemma execute_sel:
  assumes "execute pf now i l s = (r, t)" and "apps_ok (pr_apps s)"
  shows "pr_apps t = pr_apps s \<and> (r = 0 \<longrightarrow> i > 0 \<and> pr_app_id t = i) \<and> (r \<noteq> 0 \<longrightarrow> \<not> pr_placebo t \<and> \<not> pr_process t) \<and>
    (pr_group t \<longrightarrow> pr_process t)"
  using assms find_app_id [of "pr_apps s" i]
  by (auto simp: execute_def Let_def split: option.splits if_splits prod.splits)

lemma execute_good: "execute pf now i l s = (r, t) \<Longrightarrow> proc_good s \<Longrightarrow> proc_good t"
  using execute_ok [of pf now i l s r t] execute_sel [of pf now i l s r t]
  by (cases "r = 0") (auto simp: proc_good_def)

lemma terminate_good: "proc_good s \<Longrightarrow> proc_good (terminate pf s)"
  using proc_step_ok [OF proc_step.Terminate] by (auto simp: proc_good_def)

lemma running_sel:
  "running pf now s = (r, t) \<Longrightarrow> pr_apps t = pr_apps s \<and>
    (t = terminate pf s \<or> (t = s \<or> t = s\<lparr> pr_placebo := True \<rparr>) \<and> (pr_placebo t \<or> pr_process t \<longrightarrow> pr_placebo s \<or> pr_process s))"
  by (auto simp: running_def split: if_splits)

lemma running_good: "running pf now s = (r, t) \<Longrightarrow> proc_good s \<Longrightarrow> proc_good t"
  using running_ok [of pf now s r t "[]" "[]"] running_sel [of pf now s r t]
  by (auto simp: proc_good_def)

lemma running_zero:
  assumes "running pf now s = (r, t)" and "proc_good s" and "\<not> r > 0"
  shows "r = 0 \<and> \<not> pr_placebo t \<and> \<not> pr_process t \<and> in_effect [] (pr_log t) = Some []"
proof -
  have "in_effect [] (pr_log s) = Some []" if "\<not> pr_placebo s" "\<not> pr_process s"
    using assms(2) that by (auto simp: proc_good_def proc_ok_def)
  moreover have "in_effect [] (pr_log (terminate pf s)) = Some []"
    using terminate_in_effect [of s "[]" "[]" pf] assms(2) by (auto simp: proc_good_def proc_ok_def)
  moreover have "pr_placebo s \<or> pr_process s \<Longrightarrow> pr_app_id s > 0" "pr_group s \<Longrightarrow> pr_process s"
    using assms(2) by (simp_all add: proc_good_def)
  ultimately show ?thesis
    using assms(1,3) by (auto simp: running_def split: if_splits)
qed

lemma display_good: "proc_good (ho_proc h) \<Longrightarrow> ev \<in> {Display_Configured, Display_Reverted, Gamepads_Terminated} \<Longrightarrow>
    proc_good (ho_proc (display_event ev h))"
  by (auto simp: display_event_def proc_good_def proc_ok_def)

text \<open>
  The requests that change the host, and the RTSP server, whose steps leave the application alone.
\<close>

inductive host_step :: "platform \<Rightarrow> host \<Rightarrow> host \<Rightarrow> bool" for pf where
  Launch: "we_platform e = pf \<Longrightarrow> launch e args h = Some (a, h') \<Longrightarrow> host_step pf h h'"
| Resume: "we_platform e = pf \<Longrightarrow> resume e args h = Some (a, h') \<Longrightarrow> host_step pf h h'"
| Cancel: "we_platform e = pf \<Longrightarrow> cancel e h = (a, h') \<Longrightarrow> host_step pf h h'"
| Poll: "we_platform e = pf \<Longrightarrow> host_running e h = (i, h') \<Longrightarrow> host_step pf h h'"
| Rtsp: "host_step pf h (h\<lparr> ho_rtsp := r \<rparr>)"
| Verified: "host_step pf h (h\<lparr> ho_cert := c \<rparr>)"

definition host_new :: "(bytes \<rightharpoonup> bytes) \<Rightarrow> app list \<Rightarrow> host" where
  "host_new env apps = \<lparr> ho_counter = 0, ho_audio = False, ho_cert = [], ho_proc = proc_new env apps, ho_rtsp = rtsp_server_new \<rparr>"

lemma proc_new_good: "apps_ok apps \<Longrightarrow> proc_good (proc_new env apps)"
  using proc_new_ok by (auto simp: proc_good_def proc_new_def)

lemma launch_parts_good:
  assumes "launch_params args" and "launch_parts e args h = (first, l, h5)" and "proc_good (ho_proc h)"
  shows "proc_good (ho_proc h5)"
proof -
  have "proc_good (ho_proc (snd (host_running e h)))"
    using running_good [OF _ assms(3)] by (simp add: prod_eq_iff)
  then show ?thesis
    using launch_parts_sel [OF assms(1,2)] display_good by (simp add: Let_def)
qed

lemma launch_good:
  assumes "launch e args h = Some (a, h')" and "proc_good (ho_proc h)"
  shows "proc_good (ho_proc h')"
proof (cases "launch_params args \<and> \<not> fst (host_running e h) > 0")
  case False
  have "proc_good (ho_proc (snd (host_running e h)))"
    using running_good [OF _ assms(2)] by (simp add: prod_eq_iff)
  with False assms show ?thesis using launch_refused [of args e h] by auto
next
  case True
  obtain first l h5 where p: "launch_parts e args h = (first, l, h5)" by (metis prod_cases3)
  have g: "proc_good (ho_proc h5)" using launch_parts_good [OF _ p assms(2)] True by simp
  have f: "proc_good (ho_proc (if first then display_event Display_Reverted k else k))" if "proc_good (ho_proc k)" for k
    using display_good [OF that] that by simp
  have x: "proc_good q" if "execute (we_platform e) (we_now e) i l (ho_proc h5) = (r, q)" for i r q
    using execute_good [OF that g] .
  show ?thesis
    using assms(1) launch_cases [OF _ _ p] True g f f [of "h5\<lparr>ho_proc := q\<rparr>" for q] x
    by (auto simp: Let_def split: if_splits prod.splits)
qed

lemma host_running_good: "proc_good (ho_proc h) \<Longrightarrow> proc_good (ho_proc (snd (host_running e h)))"
  using running_good [of "we_platform e" "we_now e" "ho_proc h"] by (simp add: prod_eq_iff)

lemma resume_good:
  assumes "resume e args h = Some (a, h')" and "proc_good (ho_proc h)"
  shows "proc_good (ho_proc h')"
proof -
  obtain i h1 where r: "host_running e h = (i, h1)" by fastforce
  have g: "proc_good (ho_proc h1)" using host_running_good [OF assms(2), of e] r by simp
  obtain n h2 where c: "count_sessions h1 = (n, h2)" by fastforce
  let ?h3 = "resume_audio n args h2"
  have "proc_good (ho_proc h2)" using g count_sessions_sel(1) [of h1] c by simp
  then have g3: "proc_good (ho_proc (?h3\<lparr> ho_counter := ho_counter ?h3 + 1 \<rparr>))" by (simp add: resume_audio_def)
  show ?thesis
  proof (cases "i = 0 \<or> args ''rikey'' = None \<or> args ''rikeyid'' = None")
    case True
    then show ?thesis using assms(1) r g by (auto simp: resume_def split: if_splits)
  next
    case False
    then obtain l where "make_launch_session e (ho_audio ?h3) args ?h3 = Some (l, ?h3\<lparr> ho_counter := ho_counter ?h3 + 1 \<rparr>)"
      using make_launch_session_Some [of args e "ho_audio ?h3" ?h3] by blast
    with False show ?thesis
      using assms(1) r c g3 display_good [OF g3]
      by (auto simp: resume_def Let_def raise_session_def split: if_splits)
  qed
qed

lemma cancel_good: "cancel e h = (a, h') \<Longrightarrow> proc_good (ho_proc h) \<Longrightarrow> proc_good (ho_proc h')"
proof -
  assume c: "cancel e h = (a, h')" and g: "proc_good (ho_proc h)"
  have t: "proc_good (ho_proc (terminate_sessions h))"
    unfolding terminate_sessions_def by (rule display_good) (use g in simp_all)
  obtain i h2 where r: "host_running e (terminate_sessions h) = (i, h2)" by fastforce
  have "proc_good (ho_proc h2)" using host_running_good [OF t, of e] r by simp
  then have "proc_good (ho_proc (if i > 0 then h2\<lparr> ho_proc := terminate (we_platform e) (ho_proc h2) \<rparr> else h2))"
    using terminate_good by simp
  then show "proc_good (ho_proc h')" using c r by (auto simp: cancel_def Let_def intro: display_good)
qed

lemma host_step_good: "host_step pf h k \<Longrightarrow> proc_good (ho_proc h) \<Longrightarrow> proc_good (ho_proc k)"
proof (induction rule: host_step.induct)
  case (Poll e h i h')
  then show ?case using host_running_good [of h e] by simp
qed (auto intro: launch_good resume_good cancel_good)

interpretation host_system: invariant_system "host_step pf" "\<lambda>h. proc_good (ho_proc h)" for pf
  by unfold_locales (rule host_step_good)

lemma reached_good: "(host_step pf)\<^sup>*\<^sup>* (host_new env apps) h \<Longrightarrow> apps_ok apps \<Longrightarrow> proc_good (ho_proc h)"
  by (rule host_system.steps_ok) (auto simp: host_new_def proc_new_good)

lemma launch_failure:
  assumes "launch e args h = Some (a, h')" and "la_gamesession a = Some 0"
  obtains first l h5 k where "launch_params args" "\<not> fst (host_running e h) > 0"
    "launch_parts e args h = (first, l, h5)" "h' = (if first then display_event Display_Reverted k else k)"
    "k = h5 \<or> (\<exists>j err q. execute (we_platform e) (we_now e) j l (ho_proc h5) = (err, q) \<and> err \<noteq> 0 \<and> k = h5\<lparr> ho_proc := q \<rparr>)"
proof -
  have ok: "launch_params args" "\<not> fst (host_running e h) > 0"
    using launch_refused [of args e h] assms by (force simp: refuse_def)+
  obtain first l h5 where p: "launch_parts e args h = (first, l, h5)" by (metis prod_cases3)
  obtain err q where q: "execute (we_platform e) (we_now e) (to_int (from_chars (the (args ''appid'')))) l (ho_proc h5) = (err, q)"
    by fastforce
  have "h' = (if first then display_event Display_Reverted h5 else h5) \<or>
      (err \<noteq> 0 \<and> h' = (if first then display_event Display_Reverted (h5\<lparr> ho_proc := q \<rparr>) else h5\<lparr> ho_proc := q \<rparr>))"
    using assms unfolding launch_cases [OF ok p] Let_def q by (auto simp: refuse_def split: if_splits)
  then show thesis using that [OF ok p] q by blast
qed


text \<open>
  No request throws: whatever parameters it has, launching and resuming give an answer, and the
  answer of a launch tells whether it was granted.
\<close>
theorem launch_always_answers:
  "\<exists>a h' b k. launch e args h = Some (a, h') \<and> resume e args h = Some (b, k) \<and>
    (la_url a = None) = (la_gamesession a \<noteq> Some 1) \<and> (la_url b = None) = (la_resume b \<noteq> Some 1)"
proof -
  have "\<exists>a h'. launch e args h = Some (a, h') \<and> (la_url a = None) = (la_gamesession a \<noteq> Some 1)"
  proof (cases "launch_params args \<and> \<not> fst (host_running e h) > 0")
    case False
    then show ?thesis using launch_refused [of args e h] by (auto simp: refuse_def)
  next
    case True
    obtain first l h5 where p: "launch_parts e args h = (first, l, h5)" by (metis prod_cases3)
    show ?thesis
      using launch_cases [OF _ _ p] True by (auto simp: Let_def refuse_def split: prod.splits)
  qed
  moreover have "\<exists>b k. resume e args h = Some (b, k) \<and> (la_url b = None) = (la_resume b \<noteq> Some 1)"
  proof -
    obtain i h1 where r: "host_running e h = (i, h1)" by fastforce
    obtain n h2 where c: "count_sessions h1 = (n, h2)" by fastforce
    show ?thesis
      using r c make_launch_session_Some [of args e "ho_audio (resume_audio n args h2)" "resume_audio n args h2"]
      by (cases "args ''rikey''"; cases "args ''rikeyid''") (auto simp: resume_def Let_def refuse_def)
  qed
  ultimately show ?thesis by (elim exE conjE) (intro exI conjI)
qed


section \<open>An example\<close>

definition web_example :: web_env where
  "web_example = \<lparr> we_platform = quiet_platform, we_now = 0, we_probe_failed = False,
     we_encryption_mode = ENCRYPTION_MODE_MANDATORY, we_random8 = replicate 8 0, we_random4 = 0, we_local_address = ascii ''10.0.0.1'', we_port = 47989 \<rparr>"

definition launch_args :: "string \<Rightarrow> args" where
  "launch_args appid = [''rikey'' \<mapsto> ascii ''00'', ''rikeyid'' \<mapsto> ascii ''1'', ''localAudioPlayMode'' \<mapsto> ascii ''0'',
     ''appid'' \<mapsto> ascii appid, ''corever'' \<mapsto> ascii ''1'']"

definition host_example0 :: host where
  "host_example0 = host_new Map.empty [app_example, failing_example]"

lemma launch_args_values:
  "launch_params (launch_args i)" "arg_number (launch_args i) ''corever'' ''0'' = 1"
  "from_chars (ascii ''7'') = 7" "from_chars (ascii ''8'') = 8"
  by (simp_all add: launch_params_def launch_args_def arg_number_def value_or_def from_chars_def ascii_def)

lemma start_example: "fst (execute quiet_platform now 7 l p) = 0" if "pr_apps p = [app_example, failing_example]"
  using that by (simp add: execute_def terminate_def Let_def to_text_examples app_example_def failing_example_def prep_example_def
      app_empty_def do_ok_def quiet_platform_def ascii_def)

lemma fail_example: "fst (execute quiet_platform now 8 l p) = - 1" if "pr_apps p = [app_example, failing_example]"
  using that by (simp add: execute_def terminate_def Let_def to_text_examples app_example_def failing_example_def prep_example_def
      app_empty_def do_ok_def quiet_platform_def ascii_def)

lemma host_example0_running: "host_running web_example host_example0 = (0, host_example0)"
  by (simp add: host_running_def host_example0_def host_new_def running_def proc_new_def app_empty_def)

lemma launch_example_parts:
  obtains first l h5 where "launch_parts web_example (launch_args i) host_example0 = (first, l, h5)" "ls_encrypted l"
    "pr_apps (ho_proc h5) = [app_example, failing_example]"
proof -
  obtain first l h5 where p: "launch_parts web_example (launch_args i) host_example0 = (first, l, h5)" by (metis prod_cases3)
  then show thesis
    using that launch_parts_sel [OF launch_args_values(1) p] host_example0_running
    by (simp add: launch_args_values(2) Let_def display_event_def host_example0_def host_new_def proc_new_def split: if_splits)
qed

lemma launch_granted_example:
  obtains a h' where "launch web_example (launch_args ''7'') host_example0 = Some (a, h')" "la_gamesession a = Some 1"
proof -
  obtain first l h5 where P: "launch_parts web_example (launch_args ''7'') host_example0 = (first, l, h5)" "ls_encrypted l"
    "pr_apps (ho_proc h5) = [app_example, failing_example]" by (rule launch_example_parts)
  obtain p where x: "execute quiet_platform 0 (to_int 7) l (ho_proc h5) = (0, p)"
    using start_example [OF P(3), of 0 l] by (simp add: prod_eq_iff to_int_def)
  have "\<not> fst (host_running web_example host_example0) > 0" by (simp add: host_example0_running)
  from launch_cases [OF launch_args_values(1) this P(1)] show thesis
    using that P(2) x by (simp add: Let_def web_example_def launch_args_def launch_args_values)
qed

lemma launch_failed_example:
  obtains a h' where "launch web_example (launch_args ''8'') host_example0 = Some (a, h')" "la_gamesession a = Some 0"
proof -
  obtain first l h5 where P: "launch_parts web_example (launch_args ''8'') host_example0 = (first, l, h5)" "ls_encrypted l"
    "pr_apps (ho_proc h5) = [app_example, failing_example]" by (rule launch_example_parts)
  obtain p where x: "execute quiet_platform 0 (to_int 8) l (ho_proc h5) = (- 1, p)"
    using fail_example [OF P(3), of 0 l] by (simp add: prod_eq_iff to_int_def)
  have "\<not> fst (host_running web_example host_example0) > 0" by (simp add: host_example0_running)
  from launch_cases [OF launch_args_values(1) this P(1)] show thesis
    using that P(2) x by (simp add: Let_def refuse_def web_example_def launch_args_def launch_args_values)
qed

lemma example_event: "ev_continue (launch_event (ho_rtsp host_example0)) \<and> handle_accept (ho_rtsp host_example0) = None"
  by (simp add: host_example0_def host_new_def rtsp_server_new_def handle_accept_def view_now_eq event_new_def)

theorem launch_admission_witness:
  "\<exists>a h' l. launch web_example (launch_args ''7'') host_example0 = Some (a, h') \<and> pr_app_id (ho_proc h') = 7 \<and>
     handle_accept (ho_rtsp h') = Some l"
proof -
  obtain a h' where L: "launch web_example (launch_args ''7'') host_example0 = Some (a, h')" "la_gamesession a = Some 1"
    by (rule launch_granted_example)
  from launch_admission [OF L] example_event have "pr_app_id (ho_proc h') = to_int 7"
    "handle_accept (ho_rtsp h') = Some (fst (snd (launch_parts web_example (launch_args ''7'') host_example0)))"
    by (simp_all add: launch_args_def launch_args_values)
  with L(1) show ?thesis by (simp add: to_int_def)
qed



end
