(* ===== verification/Display_Device.thy ===== *)
theory Display_Device
  imports Rtsp_Commands
begin

text \<open>
  The display settings of a stream (\<open>src/display_device.cpp\<close>): what the host's options and the
  client's request make of resolution, refresh rate and HDR, the remapping of display modes, the jobs
  that apply and revert the settings, and the audio context that is held meanwhile. The settings
  manager and its scheduler belong to libdisplaydevice: a job runs again and again until it stops, a
  new job replaces the one before.
\<close>

section \<open>Options\<close>

datatype config_option = CO_disabled | CO_verify_only | CO_ensure_active | CO_ensure_primary | CO_ensure_only_display
datatype resolution_option = RO_disabled | RO_automatic | RO_manual
datatype refresh_rate_option = FO_disabled | FO_automatic | FO_manual
datatype hdr_option = HO_disabled | HO_automatic

record mode_remapping_entry =
  me_requested_resolution :: bytes
  me_requested_fps :: bytes
  me_final_resolution :: bytes
  me_final_refresh_rate :: bytes

record dd_options =
  dd_configuration_option :: config_option
  dd_resolution_option :: resolution_option
  dd_manual_resolution :: bytes
  dd_refresh_rate_option :: refresh_rate_option
  dd_manual_refresh_rate :: bytes
  dd_hdr_option :: hdr_option
  dd_mixed :: "mode_remapping_entry list"
  dd_resolution_only :: "mode_remapping_entry list"
  dd_refresh_rate_only :: "mode_remapping_entry list"
  dd_output_name :: bytes

datatype device_prep = VerifyOnly | EnsureActive | EnsurePrimary | EnsureOnlyDisplay
datatype hdr_state = Hdr_Enabled | Hdr_Disabled

type_synonym resolution = "nat \<times> nat"

record rational =
  ra_numerator :: nat
  ra_denominator :: nat

record display_config =
  dc_device_id :: bytes
  dc_device_prep :: device_prep
  dc_hdr_state :: "hdr_state option"
  dc_resolution :: "resolution option"
  dc_refresh_rate :: "rational option"

section \<open>Numbers in the options\<close>

text \<open>A text of digits; \<open>None\<close> is the exception of a number that does not fit 32 bits.\<close>

definition number_value :: "bytes \<Rightarrow> nat" where
  "number_value t = foldl (\<lambda>n d. 10 * n + (unat d - 0x30)) 0 t"

definition stou :: "bytes \<Rightarrow> nat option" where
  "stou t = (if number_value t < 2 ^ 32 then Some (number_value t) else None)"

text \<open>\<open>Bad\<close> is a text that is refused, \<open>Good None\<close> an empty one.\<close>

datatype 'a parsed = Bad | Undefined_Cast | Good "'a option"

definition is_number :: "bytes \<Rightarrow> bool" where
  "is_number t \<longleftrightarrow> t \<noteq> [] \<and> list_all is_digit t"

definition parse_resolution_string :: "bytes \<Rightarrow> resolution parsed" where
  "parse_resolution_string input =
     (let t = trim input; w = takeWhile is_digit t; rest = dropWhile is_digit t
      in if is_number w \<and> rest \<noteq> [] \<and> hd rest = 0x78 \<and> is_number (tl rest) then
           (case (stou w, stou (tl rest)) of (Some x, Some y) \<Rightarrow> Good (Some (x, y)) | _ \<Rightarrow> Bad)
         else if t = [] then Good None else Bad)"

definition is_zero :: "u8 \<Rightarrow> bool" where
  "is_zero c \<longleftrightarrow> c = 0x30"

text \<open>
  A rate with decimals becomes the number without its point over a power of ten; the cast of a power
  above 32 bits is undefined.
\<close>

definition decimal_rate :: "bytes \<Rightarrow> bytes \<Rightarrow> rational parsed" where
  "decimal_rate whole decimals =
     (let m1 = dropWhile is_zero whole; m1' = (if m1 = [] then [0x30] else m1);
          m2 = rev (dropWhile is_zero (rev decimals))
      in if m2 \<noteq> [] then
           (case stou (m1' @ m2) of
              None \<Rightarrow> Bad
            | Some n \<Rightarrow> if 10 ^ length m2 < (2 :: nat) ^ 32
                then Good (Some \<lparr> ra_numerator = n, ra_denominator = 10 ^ length m2 \<rparr>) else Undefined_Cast)
         else (case stou m1' of None \<Rightarrow> Bad | Some n \<Rightarrow> Good (Some \<lparr> ra_numerator = n, ra_denominator = 1 \<rparr>)))"

definition parse_refresh_rate_string :: "bool \<Rightarrow> bytes \<Rightarrow> rational parsed" where
  "parse_refresh_rate_string allow_decimal_point input =
     (let t = trim input; w = takeWhile is_digit t; rest = dropWhile is_digit t
      in if is_number w \<and> rest = [] then decimal_rate w []
         else if allow_decimal_point \<and> is_number w \<and> rest \<noteq> [] \<and> hd rest = 0x2E \<and> is_number (tl rest)
         then decimal_rate w (tl rest)
         else if t = [] then Good None else Bad)"

section \<open>The configuration of a stream\<close>

definition parse_device_prep_option :: "dd_options \<Rightarrow> device_prep option" where
  "parse_device_prep_option opts =
     (case dd_configuration_option opts of
        CO_verify_only \<Rightarrow> Some VerifyOnly
      | CO_ensure_active \<Rightarrow> Some EnsureActive
      | CO_ensure_primary \<Rightarrow> Some EnsurePrimary
      | CO_ensure_only_display \<Rightarrow> Some EnsureOnlyDisplay
      | CO_disabled \<Rightarrow> None)"

datatype 'a outcome = Failed_To_Parse | Undefined_Outcome | Parsed 'a

definition parse_resolution_option :: "dd_options \<Rightarrow> launch_session \<Rightarrow> display_config \<Rightarrow> display_config outcome" where
  "parse_resolution_option opts s c =
     (case dd_resolution_option opts of
        RO_automatic \<Rightarrow>
          if \<not> ls_enable_sops s then Parsed c
          else if ls_width s \<ge> 0 \<and> ls_height s \<ge> 0
          then Parsed (c\<lparr> dc_resolution := Some (nat (ls_width s), nat (ls_height s)) \<rparr>)
          else Failed_To_Parse
      | RO_manual \<Rightarrow>
          if \<not> ls_enable_sops s then Parsed c
          else (case parse_resolution_string (dd_manual_resolution opts) of
             Good (Some r) \<Rightarrow> Parsed (c\<lparr> dc_resolution := Some r \<rparr>)
           | _ \<Rightarrow> Failed_To_Parse)
      | RO_disabled \<Rightarrow> Parsed c)"

definition parse_refresh_rate_option :: "dd_options \<Rightarrow> launch_session \<Rightarrow> display_config \<Rightarrow> display_config outcome" where
  "parse_refresh_rate_option opts s c =
     (case dd_refresh_rate_option opts of
        FO_automatic \<Rightarrow>
          if ls_fps s \<ge> 0 then Parsed (c\<lparr> dc_refresh_rate := Some \<lparr> ra_numerator = nat (ls_fps s), ra_denominator = 1 \<rparr> \<rparr>)
          else Failed_To_Parse
      | FO_manual \<Rightarrow>
          (case parse_refresh_rate_string True (dd_manual_refresh_rate opts) of
             Good (Some r) \<Rightarrow> Parsed (c\<lparr> dc_refresh_rate := Some r \<rparr>)
           | Undefined_Cast \<Rightarrow> Undefined_Outcome
           | _ \<Rightarrow> Failed_To_Parse)
      | FO_disabled \<Rightarrow> Parsed c)"

definition parse_hdr_option :: "dd_options \<Rightarrow> launch_session \<Rightarrow> hdr_state option" where
  "parse_hdr_option opts s =
     (case dd_hdr_option opts of
        HO_automatic \<Rightarrow> Some (if ls_enable_hdr s then Hdr_Enabled else Hdr_Disabled)
      | HO_disabled \<Rightarrow> None)"

section \<open>Remapping of display modes\<close>

datatype remapping_type = Mixed | Resolution_Only | Refresh_Rate_Only

definition determine_remapping_type :: "dd_options \<Rightarrow> remapping_type option" where
  "determine_remapping_type opts =
     (let auto_resolution = (dd_resolution_option opts = RO_automatic);
          auto_refresh_rate = (dd_refresh_rate_option opts = FO_automatic)
      in if auto_resolution \<and> auto_refresh_rate then Some Mixed
         else if auto_resolution then Some Resolution_Only
         else if auto_refresh_rate then Some Refresh_Rate_Only
         else None)"

definition is_resolution_mapped :: "remapping_type \<Rightarrow> bool" where
  "is_resolution_mapped t \<longleftrightarrow> t = Resolution_Only \<or> t = Mixed"

definition is_fps_mapped :: "remapping_type \<Rightarrow> bool" where
  "is_fps_mapped t \<longleftrightarrow> t = Refresh_Rate_Only \<or> t = Mixed"

record parsed_entry =
  pe_requested_resolution :: "resolution option"
  pe_requested_fps :: "rational option"
  pe_final_resolution :: "resolution option"
  pe_final_refresh_rate :: "rational option"

definition parse_remapping_entry :: "mode_remapping_entry \<Rightarrow> remapping_type \<Rightarrow> parsed_entry outcome" where
  "parse_remapping_entry e t =
     (let resolution = (\<lambda>x. if is_resolution_mapped t then parse_resolution_string x else Good None);
          rate = (\<lambda>b x. if is_fps_mapped t then parse_refresh_rate_string b x else Good None)
      in case (resolution (me_requested_resolution e), resolution (me_final_resolution e)) of
           (Good rr, Good fr) \<Rightarrow>
             (case rate False (me_requested_fps e) of
                Good rf \<Rightarrow>
                  (case rate True (me_final_refresh_rate e) of
                     Good ff \<Rightarrow> Parsed \<lparr> pe_requested_resolution = rr, pe_requested_fps = rf,
                       pe_final_resolution = fr, pe_final_refresh_rate = ff \<rparr>
                   | Undefined_Cast \<Rightarrow> Undefined_Outcome
                   | Bad \<Rightarrow> Failed_To_Parse)
              | _ \<Rightarrow> Failed_To_Parse)
         | _ \<Rightarrow> Failed_To_Parse)"

definition entry_applies :: "launch_session \<Rightarrow> display_config \<Rightarrow> parsed_entry \<Rightarrow> bool" where
  "entry_applies s c p \<longleftrightarrow>
     \<not> (\<not> ls_enable_sops s \<and> (pe_requested_resolution p \<noteq> None \<or> pe_final_resolution p \<noteq> None)) \<and>
     \<not> (pe_requested_resolution p \<noteq> None \<and> pe_requested_resolution p \<noteq> dc_resolution c) \<and>
     \<not> (pe_requested_fps p \<noteq> None \<and> pe_requested_fps p \<noteq> dc_refresh_rate c)"

definition apply_entry :: "parsed_entry \<Rightarrow> display_config \<Rightarrow> display_config" where
  "apply_entry p c =
     (let c1 = (if pe_final_resolution p \<noteq> None then c\<lparr> dc_resolution := pe_final_resolution p \<rparr> else c)
      in if pe_final_refresh_rate p \<noteq> None then c1\<lparr> dc_refresh_rate := pe_final_refresh_rate p \<rparr> else c1)"

fun remap_entries :: "remapping_type \<Rightarrow> launch_session \<Rightarrow> mode_remapping_entry list \<Rightarrow> display_config \<Rightarrow> display_config outcome" where
  "remap_entries t s [] c = Parsed c"
| "remap_entries t s (e # es) c =
     (case parse_remapping_entry e t of
        Failed_To_Parse \<Rightarrow> Failed_To_Parse
      | Undefined_Outcome \<Rightarrow> Undefined_Outcome
      | Parsed p \<Rightarrow>
          if pe_final_resolution p = None \<and> pe_final_refresh_rate p = None then Failed_To_Parse
          else if entry_applies s c p then Parsed (apply_entry p c)
          else remap_entries t s es c)"

definition remap_display_mode_if_needed :: "dd_options \<Rightarrow> launch_session \<Rightarrow> display_config \<Rightarrow> display_config outcome" where
  "remap_display_mode_if_needed opts s c =
     (case determine_remapping_type opts of
        None \<Rightarrow> Parsed c
      | Some t \<Rightarrow> remap_entries t s
          (case t of Resolution_Only \<Rightarrow> dd_resolution_only opts | Refresh_Rate_Only \<Rightarrow> dd_refresh_rate_only opts | Mixed \<Rightarrow> dd_mixed opts) c)"

datatype configuration = Configuration_Disabled | Configuration_Failed | Configuration_Undefined | Configuration display_config

definition parse_configuration :: "dd_options \<Rightarrow> launch_session \<Rightarrow> configuration" where
  "parse_configuration opts s =
     (case parse_device_prep_option opts of
        None \<Rightarrow> Configuration_Disabled
      | Some prep \<Rightarrow>
          let c = \<lparr> dc_device_id = dd_output_name opts, dc_device_prep = prep, dc_hdr_state = parse_hdr_option opts s,
                dc_resolution = None, dc_refresh_rate = None \<rparr>
          in case parse_resolution_option opts s c of
               Parsed c1 \<Rightarrow>
                 (case parse_refresh_rate_option opts s c1 of
                    Parsed c2 \<Rightarrow>
                      (case remap_display_mode_if_needed opts s c2 of
                         Parsed c3 \<Rightarrow> Configuration c3
                       | Undefined_Outcome \<Rightarrow> Configuration_Undefined
                       | Failed_To_Parse \<Rightarrow> Configuration_Failed)
                  | Undefined_Outcome \<Rightarrow> Configuration_Undefined
                  | Failed_To_Parse \<Rightarrow> Configuration_Failed)
             | Undefined_Outcome \<Rightarrow> Configuration_Undefined
             | Failed_To_Parse \<Rightarrow> Configuration_Failed)"

section \<open>Properties of the configuration\<close>

lemma remap_entries_resolution:
  assumes "remap_entries t s es c = Parsed d" and "\<not> ls_enable_sops s"
  shows "dc_resolution d = dc_resolution c"
  using assms
  by (induction es) (auto simp: entry_applies_def apply_entry_def Let_def split: outcome.splits if_splits)

lemma remap_entries_keeps:
  "remap_entries t s es c = Parsed d \<Longrightarrow> dc_device_id d = dc_device_id c \<and> dc_device_prep d = dc_device_prep c \<and>
    dc_hdr_state d = dc_hdr_state c"
  by (induction es) (auto simp: apply_entry_def Let_def split: outcome.splits if_splits)

text \<open>
  A client that does not ask for optimised settings never changes the resolution of the host's
  display, whatever the options say and whichever modes are remapped; and no client changes which
  display is prepared, or how.
\<close>
theorem resolution_needs_sops:
  assumes "parse_configuration opts s = Configuration c"
  shows "(\<not> ls_enable_sops s \<longrightarrow> dc_resolution c = None) \<and> dc_device_id c = dd_output_name opts \<and>
    Some (dc_device_prep c) = parse_device_prep_option opts \<and> dc_hdr_state c = parse_hdr_option opts s"
proof -
  obtain prep c0 c1 c2 where p: "parse_device_prep_option opts = Some prep"
    "c0 = \<lparr> dc_device_id = dd_output_name opts, dc_device_prep = prep, dc_hdr_state = parse_hdr_option opts s,
      dc_resolution = None, dc_refresh_rate = None \<rparr>"
    "parse_resolution_option opts s c0 = Parsed c1" "parse_refresh_rate_option opts s c1 = Parsed c2"
    "remap_display_mode_if_needed opts s c2 = Parsed c"
    using assms by (auto simp: parse_configuration_def Let_def split: option.splits outcome.splits)
  have c1: "dc_device_id c1 = dc_device_id c0 \<and> dc_device_prep c1 = prep \<and> dc_hdr_state c1 = dc_hdr_state c0 \<and>
      (\<not> ls_enable_sops s \<longrightarrow> dc_resolution c1 = None)"
    using p(2,3) by (auto simp: parse_resolution_option_def split: resolution_option.splits if_splits parsed.splits option.splits)
  have c2: "dc_device_id c2 = dc_device_id c1 \<and> dc_device_prep c2 = dc_device_prep c1 \<and> dc_hdr_state c2 = dc_hdr_state c1 \<and>
      dc_resolution c2 = dc_resolution c1"
    using p(4) by (auto simp: parse_refresh_rate_option_def split: refresh_rate_option.splits if_splits parsed.splits option.splits)
  have c: "dc_device_id c = dc_device_id c2 \<and> dc_device_prep c = dc_device_prep c2 \<and> dc_hdr_state c = dc_hdr_state c2 \<and>
      (\<not> ls_enable_sops s \<longrightarrow> dc_resolution c = dc_resolution c2)"
    using p(5) remap_entries_keeps remap_entries_resolution
    by (auto simp: remap_display_mode_if_needed_def split: option.splits)
  show ?thesis using p(1,2) c1 c2 c by auto
qed

lemma foldl_digits_append:
  "foldl (\<lambda>n d. 10 * n + (unat d - 0x30)) a (xs @ ys) =
    foldl (\<lambda>n d. 10 * n + (unat d - 0x30)) a xs * 10 ^ length ys + number_value ys" for a :: nat
proof (induction ys rule: rev_induct)
  case (snoc y ys)
  then show ?case by (simp add: number_value_def algebra_simps)
qed (simp add: number_value_def)

lemma number_value_append: "number_value (xs @ ys) = number_value xs * 10 ^ length ys + number_value ys"
  using foldl_digits_append [of 0 xs ys] by (simp add: number_value_def)

lemma number_value_zeros: "list_all is_zero zs \<Longrightarrow> number_value zs = 0"
  by (induction zs rule: rev_induct) (auto simp: number_value_def is_zero_def)

lemma number_value_drop_zeros: "number_value (dropWhile is_zero t) = number_value t"
proof -
  have "number_value (takeWhile is_zero t) = 0"
    by (rule number_value_zeros) (auto simp: list_all_iff dest: set_takeWhileD)
  then show ?thesis using number_value_append [of "takeWhile is_zero t" "dropWhile is_zero t"] by simp
qed

lemma number_value_strip:
  "number_value (if dropWhile is_zero t = [] then [0x30] else dropWhile is_zero t) = number_value t"
proof (cases "dropWhile is_zero t = []")
  case True
  then have "number_value t = 0" by (simp add: number_value_zeros list_all_iff)
  then show ?thesis using True by (simp add: number_value_def)
next
  case False
  show ?thesis unfolding if_not_P [OF False] by (rule number_value_drop_zeros)
qed

lemma trailing_zeros:
  "\<exists>zs. t = rev (dropWhile is_zero (rev t)) @ zs \<and> list_all is_zero zs"
proof -
  have "rev (takeWhile is_zero (rev t) @ dropWhile is_zero (rev t)) = t" by simp
  then have "t = rev (dropWhile is_zero (rev t)) @ rev (takeWhile is_zero (rev t))"
    by (simp del: takeWhile_dropWhile_id)
  moreover have "list_all is_zero (rev (takeWhile is_zero (rev t)))"
    by (auto simp: list_all_iff dest: set_takeWhileD)
  ultimately show ?thesis by blast
qed

text \<open>The value of digits before and behind a point.\<close>

definition decimal_value :: "bytes \<Rightarrow> bytes \<Rightarrow> rat" where
  "decimal_value whole decimals = of_nat (number_value whole) + of_nat (number_value decimals) / 10 ^ length decimals"

lemma decimal_rate_value:
  assumes "decimal_rate whole decimals = Good (Some r)"
  shows "of_nat (ra_numerator r) / of_nat (ra_denominator r) = decimal_value whole decimals \<and> ra_denominator r > 0 \<and>
    ra_numerator r < 2 ^ 32 \<and> ra_denominator r < 2 ^ 32"
proof -
  let ?m1 = "let m = dropWhile is_zero whole in if m = [] then [0x30] else m"
  let ?m2 = "rev (dropWhile is_zero (rev decimals))"
  have m1: "number_value ?m1 = number_value whole" using number_value_strip [of whole] by (simp add: Let_def)
  obtain zs where zs: "decimals = ?m2 @ zs" "list_all is_zero zs" using trailing_zeros by blast
  have "number_value decimals = number_value ?m2 * 10 ^ length zs"
    using number_value_append [of ?m2 zs] number_value_zeros [OF zs(2)] zs(1) by simp
  moreover have "length decimals = length ?m2 + length zs" using arg_cong [OF zs(1), of length] by simp
  ultimately have frac: "(of_nat (number_value decimals) / 10 ^ length decimals :: rat) = of_nat (number_value ?m2) / 10 ^ length ?m2"
    by (simp add: power_add)
  show ?thesis
  proof (cases "?m2 = []")
    case True
    have "decimals = zs" using zs(1) unfolding True by (simp only: append_Nil)
    then have "number_value decimals = 0" using number_value_zeros [OF zs(2)] by simp
    with True assms m1 show ?thesis
      by (auto simp: decimal_rate_def stou_def Let_def decimal_value_def split: if_splits)
  next
    case False
    have e: "of_nat (number_value (?m1 @ ?m2)) / 10 ^ length ?m2 = decimal_value whole decimals"
      using frac m1 by (simp add: decimal_value_def number_value_append add_divide_distrib)
    have "stou (?m1 @ ?m2) = Some (ra_numerator r)" "ra_denominator r = 10 ^ length ?m2" "(10 :: nat) ^ length ?m2 < 2 ^ 32"
      using False assms by (auto simp: decimal_rate_def Let_def split: option.splits if_splits)
    with e show ?thesis by (auto simp: stou_def split: if_splits)
  qed
qed

lemma trim_number: "list_all (\<lambda>c. \<not> is_space c) t \<Longrightarrow> trim t = t"
proof -
  have "dropWhile is_space u = u" if "list_all (\<lambda>c. \<not> is_space c) u" for u using that by (cases u) auto
  moreover assume "list_all (\<lambda>c. \<not> is_space c) t"
  ultimately show ?thesis by (simp add: trim_def)
qed

lemma digit_not_space: "is_digit c \<Longrightarrow> \<not> is_space c \<and> c \<noteq> 0x2E \<and> c \<noteq> 0x78"
  by (auto simp: is_digit_def is_space_def word_le_nat_alt)

lemma take_drop_digits:
  "list_all is_digit w \<Longrightarrow> \<not> is_digit c \<Longrightarrow> takeWhile is_digit (w @ c # r) = w \<and> dropWhile is_digit (w @ c # r) = c # r"
  by (simp add: list_all_iff)

text \<open>
  (C38) A refresh rate of the options is exact: a rate with a decimal point, whatever zeros surround
  it, is read as the fraction with precisely its value, or refused when the number without the point
  does not fit 32 bits; the only other case is a power of ten above 32 bits.
\<close>
theorem refresh_rate_exact:
  assumes "is_number whole" and "is_number decimals"
  shows "case parse_refresh_rate_string True (whole @ 0x2E # decimals) of
      Good r \<Rightarrow> (\<exists>q. r = Some q \<and> of_nat (ra_numerator q) / of_nat (ra_denominator q) = decimal_value whole decimals \<and>
        ra_denominator q > 0 \<and> ra_numerator q < 2 ^ 32 \<and> ra_denominator q < 2 ^ 32)
    | Bad \<Rightarrow> 2 ^ 32 \<le> number_value (whole @ decimals)
    | Undefined_Cast \<Rightarrow> 10 \<le> length decimals"
proof -
  let ?t = "whole @ 0x2E # decimals"
  have "list_all (\<lambda>c. \<not> is_space c) ?t"
    using assms digit_not_space by (auto simp: is_number_def list_all_iff is_space_def)
  then have t: "trim ?t = ?t" by (rule trim_number)
  have "\<not> is_digit 0x2E" by (simp add: is_digit_def)
  then have s: "takeWhile is_digit ?t = whole" "dropWhile is_digit ?t = 0x2E # decimals"
    using take_drop_digits [of whole "0x2E" decimals] assms(1) by (simp_all add: is_number_def)
  have p: "parse_refresh_rate_string True ?t = decimal_rate whole decimals"
    unfolding parse_refresh_rate_string_def t Let_def s using assms by simp
  have shrink: "number_value (m1 @ rev (dropWhile is_zero (rev decimals))) \<le> number_value (whole @ decimals)"
    if "number_value m1 = number_value whole" for m1
  proof -
    obtain zs where zs: "decimals = rev (dropWhile is_zero (rev decimals)) @ zs" using trailing_zeros by blast
    let ?d = "rev (dropWhile is_zero (rev decimals))"
    have "number_value (whole @ decimals) = number_value ((whole @ ?d) @ zs)" using zs by simp
    also have "\<dots> = number_value (whole @ ?d) * 10 ^ length zs + number_value zs" by (rule number_value_append)
    finally have "number_value (whole @ ?d) \<le> number_value (whole @ decimals)"
      by (metis le_add1 mult.right_neutral mult_le_mono2 one_le_numeral one_le_power order.trans)
    then show ?thesis using that by (simp add: number_value_append)
  qed
  note m1 = number_value_strip [of whole]
  show ?thesis
  proof (cases "parse_refresh_rate_string True ?t")
    case (Good r)
    then show ?thesis
      using p decimal_rate_value [of whole decimals]
      by (cases r) (auto simp: decimal_rate_def Let_def split: option.splits if_splits)
  next
    case Bad
    define m1 m2 where "m1 = (if dropWhile is_zero whole = [] then [0x30] else dropWhile is_zero whole)"
      and "m2 = rev (dropWhile is_zero (rev decimals))"
    have "decimal_rate whole decimals = Bad" using Bad p by simp
    then have "2 ^ 32 \<le> number_value (m1 @ m2)"
      unfolding decimal_rate_def Let_def m1_def [symmetric] m2_def [symmetric]
      by (cases "m2 = []") (auto simp: stou_def split: if_splits)
    then have "2 ^ 32 \<le> number_value ((if dropWhile is_zero whole = [] then [0x30] else dropWhile is_zero whole) @ rev (dropWhile is_zero (rev decimals)))"
      by (simp only: m1_def m2_def)
    then show ?thesis using Bad shrink [OF m1] by simp
  next
    case Undefined_Cast
    then have "\<not> (10 :: nat) ^ length (rev (dropWhile is_zero (rev decimals))) < 2 ^ 32"
      using p by (auto simp: decimal_rate_def Let_def split: option.splits if_splits)
    moreover have "(10 :: nat) ^ n < 2 ^ 32" if "n \<le> 9" for n
    proof -
      have "(10 :: nat) ^ n \<le> 10 ^ 9" using that by (intro power_increasing) simp_all
      then show ?thesis by simp
    qed
    ultimately have "\<not> length (rev (dropWhile is_zero (rev decimals))) \<le> 9" by blast
    moreover have "length (dropWhile is_zero (rev decimals)) \<le> length decimals"
      using length_dropWhile_le [of is_zero "rev decimals"] by simp
    ultimately show ?thesis using Undefined_Cast by simp
  qed
qed

text \<open>
  Remapping takes the first entry that applies: in a list of entries that all parse and have a
  final value, every entry before one that applies to the mode is passed over, the final values of
  that one replace the mode's, and no entry behind it counts.
\<close>
theorem remap_first_applicable:
  assumes "list_all (\<lambda>e. \<exists>p. parse_remapping_entry e t = Parsed p \<and> \<not> entry_applies s c p \<and>
      (pe_final_resolution p \<noteq> None \<or> pe_final_refresh_rate p \<noteq> None)) before"
    and "parse_remapping_entry e t = Parsed p" and "entry_applies s c p"
    and "pe_final_resolution p \<noteq> None \<or> pe_final_refresh_rate p \<noteq> None"
  shows "remap_entries t s before c = Parsed c \<and> remap_entries t s (before @ e # behind) c = Parsed (apply_entry p c) \<and>
    dc_resolution (apply_entry p c) = (case pe_final_resolution p of None \<Rightarrow> dc_resolution c | Some r \<Rightarrow> Some r) \<and>
    dc_refresh_rate (apply_entry p c) = (case pe_final_refresh_rate p of None \<Rightarrow> dc_refresh_rate c | Some r \<Rightarrow> Some r)"
proof -
  have skip: "remap_entries t s (before @ rest) c = remap_entries t s rest c" for rest
    using assms(1) by (induction before) auto
  have "remap_entries t s (e # behind) c = Parsed (apply_entry p c)" using assms(2-4) by auto
  then show ?thesis
    using skip [of "[]"] skip [of "e # behind"] by (auto simp: apply_entry_def Let_def split: option.splits)
qed

section \<open>Jobs of the scheduler\<close>

datatype revert_option = Try_Once | Try_Indefinitely | Try_Indefinitely_With_Delay
datatype revert_result = Revert_Ok | Revert_Api_Unavailable | Revert_Failed
datatype apply_result = Apply_Ok | Apply_Api_Unavailable | Apply_Failed

datatype dd_job = Apply_Job display_config | Revert_Job revert_option "bytes set"

text \<open>The job that runs, its pauses in milliseconds and whether it starts at once.\<close>

record dd_schedule =
  sd_job :: dd_job
  sd_sleeps :: "int list"
  sd_immediate :: bool

record dd_state =
  st_config_revert_delay :: int
  st_manager :: bool
  st_schedule :: "dd_schedule option"

definition DEFAULT_RETRY_INTERVAL :: int where "DEFAULT_RETRY_INTERVAL = 5000"

definition revert_configuration_unlocked :: "revert_option \<Rightarrow> dd_state \<Rightarrow> dd_state" where
  "revert_configuration_unlocked option s =
     (if \<not> st_manager s then s
      else
        let delayed = (option = Try_Indefinitely_With_Delay \<and> st_config_revert_delay s > 0)
        in s\<lparr> st_schedule := Some \<lparr> sd_job = Revert_Job option {},
             sd_sleeps = (if delayed then [st_config_revert_delay s, DEFAULT_RETRY_INTERVAL] else [DEFAULT_RETRY_INTERVAL]),
             sd_immediate = (\<not> delayed) \<rparr> \<rparr>)"

definition revert_configuration :: "dd_state \<Rightarrow> dd_state" where
  "revert_configuration s = revert_configuration_unlocked Try_Indefinitely_With_Delay s"

definition configure_parsed :: "display_config \<Rightarrow> dd_state \<Rightarrow> dd_state" where
  "configure_parsed c s =
     (if \<not> st_manager s then s
      else s\<lparr> st_schedule := Some \<lparr> sd_job = Apply_Job c, sd_sleeps = [DEFAULT_RETRY_INTERVAL], sd_immediate = True \<rparr> \<rparr>)"

definition configure_display :: "dd_options \<Rightarrow> launch_session \<Rightarrow> dd_state \<Rightarrow> dd_state" where
  "configure_display opts session s =
     (case parse_configuration opts session of
        Configuration c \<Rightarrow> configure_parsed c s
      | Configuration_Disabled \<Rightarrow> revert_configuration s
      | _ \<Rightarrow> s)"

text \<open>One run of a job: whether the settings manager was asked, and what remains of the job.\<close>

definition revert_tick :: "revert_option \<Rightarrow> bytes set \<Rightarrow> revert_result \<Rightarrow> bytes set \<Rightarrow> bool \<times> bytes set option" where
  "revert_tick option available result tried =
     (if option = Try_Once then (True, None)
      else if available = tried then (False, Some tried)
      else case result of
        Revert_Ok \<Rightarrow> (True, None)
      | Revert_Api_Unavailable \<Rightarrow> (True, Some tried)
      | Revert_Failed \<Rightarrow> (True, Some available))"

definition apply_tick :: "apply_result \<Rightarrow> bool" where
  "apply_tick result \<longleftrightarrow> result = Apply_Api_Unavailable"

text \<open>The attempts of a revert job over what the runs find.\<close>

fun revert_attempts :: "revert_option \<Rightarrow> bytes set \<Rightarrow> (bytes set \<times> revert_result) list \<Rightarrow> (bytes set \<times> revert_result) list" where
  "revert_attempts option tried [] = []"
| "revert_attempts option tried ((available, result) # runs) =
     (case revert_tick option available result tried of
        (asked, None) \<Rightarrow> [(available, result)]
      | (asked, Some tried') \<Rightarrow> (if asked then [(available, result)] else []) @ revert_attempts option tried' runs)"

lemma revert_attempts_step:
  assumes "option \<noteq> Try_Once"
  shows "successively (\<lambda>a b. snd a = Revert_Api_Unavailable \<or> snd a = Revert_Failed \<and> fst b \<noteq> fst a) (revert_attempts option tried runs) \<and>
    (revert_attempts option tried runs \<noteq> [] \<longrightarrow> fst (hd (revert_attempts option tried runs)) \<noteq> tried)"
proof (induction runs arbitrary: tried)
  case (Cons run runs)
  obtain available result where run: "run = (available, result)" by fastforce
  show ?case
  proof (cases "available = tried")
    case True
    then show ?thesis using assms Cons.IH [of tried] by (simp add: run revert_tick_def)
  next
    case False
    then show ?thesis
      using assms Cons.IH [of tried] Cons.IH [of available]
      by (cases result) (auto simp: run revert_tick_def successively_Cons)
  qed
qed simp

text \<open>
  Reverting the display is not repeated for nothing: two attempts in a row are only made when
  the first found the interface unavailable, or failed and the devices have changed since; after a
  success there is none.
\<close>
theorem revert_retries_on_change:
  assumes "option \<noteq> Try_Once"
  shows "successively (\<lambda>a b. snd a = Revert_Api_Unavailable \<or> snd a = Revert_Failed \<and> fst b \<noteq> fst a)
    (revert_attempts option {} runs)"
  using revert_attempts_step [OF assms, of "{}" runs] by simp

theorem revert_retries_on_change_witness:
  "revert_attempts Try_Indefinitely {} [({[1]}, Revert_Failed), ({[1]}, Revert_Ok), ({[1], [2]}, Revert_Ok), ({[1]}, Revert_Ok)] =
     [({[1]}, Revert_Failed), ({[1], [2]}, Revert_Ok)] \<and>
   successively (\<lambda>a b. snd a = Revert_Api_Unavailable \<or> snd a = Revert_Failed \<and> fst b \<noteq> fst a)
    (revert_attempts Try_Indefinitely {} [({[1]}, Revert_Failed), ({[1]}, Revert_Ok), ({[1], [2]}, Revert_Ok), ({[1]}, Revert_Ok)])"
  by (rule conjI, simp add: revert_tick_def doubleton_eq_iff, rule revert_retries_on_change, simp)

section \<open>The audio context\<close>

text \<open>The context that is held while the display changes: whether it is released, and its retries.\<close>

type_synonym audio_hold = "(bool \<times> nat) option"

definition hold_capture :: "audio_hold \<Rightarrow> audio_hold" where
  "hold_capture a = Some (False, 15)"

definition hold_is_captured :: "audio_hold \<Rightarrow> bool" where
  "hold_is_captured a = (case a of None \<Rightarrow> False | Some (released, n) \<Rightarrow> \<not> released)"

text \<open>One run of the release: \<open>missing\<close> is that the context exists and its sink is not available.\<close>

definition hold_release_tick :: "bool \<Rightarrow> audio_hold \<Rightarrow> audio_hold \<times> bool" where
  "hold_release_tick missing a =
     (case a of
        None \<Rightarrow> (None, True)
      | Some (released, n) \<Rightarrow> if missing \<and> n > 0 then (Some (True, n - 1), False) else (None, True))"

fun hold_release :: "bool list \<Rightarrow> audio_hold \<Rightarrow> audio_hold \<times> bool" where
  "hold_release [] a = (a, False)"
| "hold_release (m # ms) a =
     (case hold_release_tick m a of (b, True) \<Rightarrow> (b, True) | (b, False) \<Rightarrow> hold_release ms b)"

lemma hold_release_within: "n < length ms \<Longrightarrow> hold_release ms (Some (r, n)) = (None, True)"
  by (induction ms arbitrary: n r) (auto simp: hold_release_tick_def)

text \<open>
  The audio context is always let go: after a capture the release ends within 16 runs, two seconds
  apart, whatever becomes of the sink, and at the first run that finds it available.
\<close>
theorem audio_hold_released:
  assumes "16 \<le> length ms \<or> False \<in> set ms"
  shows "hold_release ms (hold_capture a) = (None, True) \<and> hold_is_captured (hold_capture a) \<and>
    \<not> hold_is_captured (fst (hold_release_tick m (hold_capture a)))"
proof -
  have avail: "False \<in> set ms \<Longrightarrow> hold_release ms (Some (r, n)) = (None, True)" for r n
    by (induction ms arbitrary: r n) (auto simp: hold_release_tick_def)
  show ?thesis
    using assms hold_release_within [of 15 ms False] avail
    by (auto simp: hold_capture_def hold_is_captured_def hold_release_tick_def)
qed

theorem audio_hold_released_witness:
  "hold_release (replicate 16 True) (hold_capture None) = (None, True)"
  using audio_hold_released [of "replicate 16 True" None] by simp

section \<open>Examples\<close>

definition dd_example :: dd_options where
  "dd_example = \<lparr> dd_configuration_option = CO_ensure_active, dd_resolution_option = RO_automatic, dd_manual_resolution = [],
     dd_refresh_rate_option = FO_automatic, dd_manual_refresh_rate = [], dd_hdr_option = HO_automatic,
     dd_mixed = [\<lparr> me_requested_resolution = ascii ''800x600'', me_requested_fps = [], me_final_resolution = [], me_final_refresh_rate = ascii ''60'' \<rparr>,
       \<lparr> me_requested_resolution = [], me_requested_fps = [], me_final_resolution = [], me_final_refresh_rate = ascii ''059.940'' \<rparr>],
     dd_resolution_only = [], dd_refresh_rate_only = [], dd_output_name = [] \<rparr>"

lemma rate_example: "parse_refresh_rate_string True (ascii ''059.940'') = Good (Some \<lparr> ra_numerator = 5994, ra_denominator = 100 \<rparr>)"
  by (simp add: parse_refresh_rate_string_def trim_def is_space_def is_digit_def is_number_def decimal_rate_def is_zero_def stou_def
      number_value_def ascii_def)

theorem refresh_rate_exact_witness:
  "\<exists>q. parse_refresh_rate_string True (ascii ''059.940'') = Good (Some q) \<and>
     of_nat (ra_numerator q) / of_nat (ra_denominator q) = decimal_value (ascii ''059'') (ascii ''940'')"
proof -
  have "is_number (ascii ''059'')" "is_number (ascii ''940'')" by (simp_all add: is_number_def is_digit_def ascii_def)
  from refresh_rate_exact [OF this] rate_example show ?thesis by (simp add: ascii_def)
qed

definition mode_example :: display_config where
  "mode_example = \<lparr> dc_device_id = [], dc_device_prep = EnsureActive, dc_hdr_state = None, dc_resolution = None, dc_refresh_rate = None \<rparr>"

lemma resolution_example: "parse_resolution_string (ascii ''800x600'') = Good (Some (800, 600))"
  by (simp add: parse_resolution_string_def trim_def is_space_def is_digit_def is_number_def stou_def number_value_def ascii_def)

lemma empty_examples: "parse_resolution_string [] = Good None" "parse_refresh_rate_string b [] = Good None"
  by (simp_all add: parse_resolution_string_def parse_refresh_rate_string_def trim_def is_number_def)

lemma rate60_example: "parse_refresh_rate_string True (ascii ''60'') = Good (Some \<lparr> ra_numerator = 60, ra_denominator = 1 \<rparr>)"
  by (simp add: parse_refresh_rate_string_def trim_def is_space_def is_digit_def is_number_def decimal_rate_def is_zero_def stou_def
      number_value_def ascii_def)

theorem remap_first_applicable_witness:
  "\<exists>d. remap_entries Mixed launch_example (dd_mixed dd_example) mode_example = Parsed d \<and>
     dc_refresh_rate d = Some \<lparr> ra_numerator = 5994, ra_denominator = 100 \<rparr>"
proof -
  let ?e1 = "dd_mixed dd_example ! 0" and ?e2 = "dd_mixed dd_example ! 1"
  let ?p2 = "\<lparr> pe_requested_resolution = None, pe_requested_fps = None, pe_final_resolution = None,
    pe_final_refresh_rate = Some \<lparr> ra_numerator = 5994, ra_denominator = 100 \<rparr> \<rparr>"
  have p1: "parse_remapping_entry ?e1 Mixed = Parsed \<lparr> pe_requested_resolution = Some (800, 600), pe_requested_fps = None,
      pe_final_resolution = None, pe_final_refresh_rate = Some \<lparr> ra_numerator = 60, ra_denominator = 1 \<rparr> \<rparr>"
    by (simp add: parse_remapping_entry_def dd_example_def is_resolution_mapped_def is_fps_mapped_def resolution_example empty_examples
        rate60_example)
  have p2: "parse_remapping_entry ?e2 Mixed = Parsed ?p2"
    by (simp add: parse_remapping_entry_def dd_example_def is_resolution_mapped_def is_fps_mapped_def empty_examples rate_example)
  have "list_all (\<lambda>e. \<exists>p. parse_remapping_entry e Mixed = Parsed p \<and> \<not> entry_applies launch_example mode_example p \<and>
      (pe_final_resolution p \<noteq> None \<or> pe_final_refresh_rate p \<noteq> None)) [?e1]"
    using p1 by (simp add: entry_applies_def mode_example_def)
  moreover have "entry_applies launch_example mode_example ?p2" by (simp add: entry_applies_def)
  ultimately have "remap_entries Mixed launch_example ([?e1] @ ?e2 # []) mode_example = Parsed (apply_entry ?p2 mode_example) \<and>
      dc_refresh_rate (apply_entry ?p2 mode_example) = Some \<lparr> ra_numerator = 5994, ra_denominator = 100 \<rparr>"
    using remap_first_applicable [of Mixed launch_example mode_example "[?e1]" ?e2 ?p2 "[]"] p2 by simp
  then show ?thesis by (simp add: dd_example_def)
qed

theorem resolution_needs_sops_witness:
  "\<exists>c. parse_configuration dd_example launch_example = Configuration c \<and> dc_resolution c = None"
proof -
  obtain c where c: "parse_configuration dd_example launch_example = Configuration c"
    by (simp add: parse_configuration_def parse_device_prep_option_def parse_resolution_option_def parse_refresh_rate_option_def
        remap_display_mode_if_needed_def determine_remapping_type_def dd_example_def launch_example_def parse_remapping_entry_def
        is_resolution_mapped_def is_fps_mapped_def empty_examples rate_example resolution_example rate60_example
        entry_applies_def)
  with resolution_needs_sops [OF c] show ?thesis by (auto simp: launch_example_def)
qed

end
