(* ===== verification/Config_Text.thy ===== *)
theory Config_Text
  imports Codec
begin

text \<open>
  The configuration file as text (\<open>src/config.cpp\<close>): the classes of characters, the stripping of
  comments, \<open>parse_option\<close> with its lists, \<open>parse_config\<close> and the readers of numbers, switches and
  lists. An iterator into a text is the text from there to its end.
\<close>

section \<open>Characters\<close>

definition endline :: "u8 \<Rightarrow> bool" where
  "endline ch \<longleftrightarrow> ch = 0x0D \<or> ch = 0x0A"

definition space_tab :: "u8 \<Rightarrow> bool" where
  "space_tab ch \<longleftrightarrow> ch = 0x20 \<or> ch = 0x09"

definition whitespace :: "u8 \<Rightarrow> bool" where
  "whitespace ch \<longleftrightarrow> space_tab ch \<or> endline ch"

abbreviation hash :: u8 where "hash \<equiv> 0x23"
abbreviation quote :: u8 where "quote \<equiv> 0x22"
abbreviation comma :: u8 where "comma \<equiv> 0x2C"
abbreviation equals :: u8 where "equals \<equiv> 0x3D"
abbreviation open_list :: u8 where "open_list \<equiv> 0x5B"
abbreviation close_list :: u8 where "close_list \<equiv> 0x5D"

section \<open>Options\<close>

text \<open>\<open>to_string\<close> copies up to each comment and goes on at the end of the comment's line.\<close>

function to_string :: "bytes \<Rightarrow> bytes" where
  "to_string pos =
     (if pos = [] then []
      else
        let comment = dropWhile (\<lambda>c. c \<noteq> hash) pos;
            endl = dropWhile (\<lambda>c. \<not> endline c) comment
        in takeWhile (\<lambda>c. c \<noteq> hash) pos @ to_string endl)"
  by pat_completeness auto

lemma comment_shorter:
  assumes "pos \<noteq> []"
  shows "length (dropWhile (\<lambda>c. \<not> endline c) (dropWhile (\<lambda>c. c \<noteq> hash) pos)) < length pos"
proof (cases pos)
  case (Cons c t)
  show ?thesis
  proof (cases "c = hash")
    case True
    then have "dropWhile (\<lambda>c. \<not> endline c) (dropWhile (\<lambda>c. c \<noteq> hash) pos) = dropWhile (\<lambda>c. \<not> endline c) t"
      by (simp add: Cons endline_def)
    then show ?thesis by (simp add: Cons length_dropWhile_le less_Suc_eq_le)
  next
    case False
    then have "length (dropWhile (\<lambda>c. c \<noteq> hash) pos) \<le> length t"
      by (simp add: Cons length_dropWhile_le)
    then show ?thesis
      using length_dropWhile_le [of "\<lambda>c. \<not> endline c" "dropWhile (\<lambda>c. c \<noteq> hash) pos"] by (simp add: Cons)
  qed
qed (use assms in simp)

termination to_string
  by (relation "measure length") (simp_all add: comment_shorter)

declare to_string.simps [simp del]

fun skip_list :: "nat \<Rightarrow> bytes \<Rightarrow> bytes" where
  "skip_list stack [] = []"
| "skip_list stack (c # t) =
     (if stack = 0 then c # t
      else skip_list (if c = open_list then stack + 1 else if c = close_list then stack - 1 else stack) t)"

text \<open>
  One option from a position: where the search goes on, and the name with its value. The value runs to
  the end of the line, or of the list.
\<close>

definition parse_option :: "bytes \<Rightarrow> bytes \<times> (bytes \<times> bytes) option" where
  "parse_option text =
     (let start = dropWhile whitespace text;
          line = takeWhile (\<lambda>c. \<not> endline c) start;
          endl = dropWhile (\<lambda>c. \<not> endline c) start;
          code = rev (dropWhile whitespace (rev (takeWhile (\<lambda>c. c \<noteq> hash) line)));
          before_eq = takeWhile (\<lambda>c. c \<noteq> equals) code
      in if before_eq = code \<or> before_eq = [] then (endl, None)
         else
           let name = rev (dropWhile space_tab (rev before_eq));
               after_eq = drop (length before_eq + 1) code;
               at = length before_eq + 1 + length (takeWhile space_tab after_eq);
               val = drop at line
           in if val = [] then (endl, None)
              else if hd val = open_list then
                let from = drop at start;
                    endl = skip_list 1 (tl from)
                in if endl = [] \<and> tl from = [] then (endl, None)
                   else (endl, Some (to_string name, to_string (take (length from - length endl) from)))
              else (endl, Some (to_string name, to_string val)))"

type_synonym vars = "bytes \<rightharpoonup> bytes"

definition map_emplace :: "('k \<rightharpoonup> 'v) \<Rightarrow> 'k \<Rightarrow> 'v \<Rightarrow> 'k \<rightharpoonup> 'v" where
  "map_emplace m k v = (case m k of Some _ \<Rightarrow> m | None \<Rightarrow> m(k \<mapsto> v))"

lemma skip_list_shorter: "length (skip_list n t) \<le> length t"
  by (induction n t rule: skip_list.induct) auto

lemma parse_option_shorter: "length (fst (parse_option text)) \<le> length text"
proof -
  let ?start = "dropWhile whitespace text"
  have s: "length ?start \<le> length text" by (rule length_dropWhile_le)
  have e: "length (dropWhile (\<lambda>c. \<not> endline c) ?start) \<le> length text"
    using length_dropWhile_le [of "\<lambda>c. \<not> endline c" ?start] s by linarith
  have l: "length (skip_list 1 (tl (drop n ?start))) \<le> length text" for n
    using skip_list_shorter [of 1 "tl (drop n ?start)"] s by simp
  show ?thesis
    by (simp only: parse_option_def Let_def split: if_splits) (simp add: e l [simplified])
qed

text \<open>The loop of \<open>parse_config\<close>; a carriage return takes the next character with it.\<close>

function parse_config_from :: "vars \<Rightarrow> bytes \<Rightarrow> vars" where
  "parse_config_from vars pos =
     (if pos = [] then vars
      else
        let (endl, var) = parse_option pos;
            pos' = (case endl of [] \<Rightarrow> [] | c # _ \<Rightarrow> drop (if c = 0x0D then 2 else 1) endl)
        in parse_config_from (case var of None \<Rightarrow> vars | Some (name, val) \<Rightarrow> map_emplace vars name val) pos')"
  by pat_completeness auto
termination
proof (relation "measure (\<lambda>(vars, pos). length pos)")
  fix vars :: vars and pos endl pos' :: bytes and x var
  assume pos: "pos \<noteq> []" and x: "x = parse_option pos" "(endl, var) = x"
    and pos': "pos' = (case endl of [] \<Rightarrow> [] | c # _ \<Rightarrow> drop (if c = 0x0D then 2 else 1) endl)"
  have "length endl \<le> length pos" using parse_option_shorter [of pos] x by (metis fst_conv)
  then have "length pos' < length pos" using pos pos' by (cases endl) auto
  then show "((case var of None \<Rightarrow> vars | Some (name, val) \<Rightarrow> map_emplace vars name val, pos'), vars, pos)
      \<in> measure (\<lambda>(vars, pos). length pos)" by simp
qed simp

declare parse_config_from.simps [simp del]

definition parse_config :: "bytes \<Rightarrow> vars" where
  "parse_config file_content = parse_config_from Map.empty file_content"

section \<open>Values\<close>

text \<open>A \<open>static_cast<int>\<close> keeps the low 32 bits.\<close>

definition to_int32 :: "int \<Rightarrow> int" where
  "to_int32 x = sint (word_of_int x :: u32)"

text \<open>\<open>util::from_hex<int>\<close>: the four bytes of the object; \<open>None\<close> when it writes behind them.\<close>

definition from_hex_int :: "bytes \<Rightarrow> int option" where
  "from_hex_int hex = map_option (\<lambda>mem. to_int32 (int (le_nat mem))) (from_hex 4 hex False)"

definition unquote :: "bytes \<Rightarrow> bytes" where
  "unquote val = (if 2 \<le> length val \<and> hd val = quote then take (length val - 2) (tl val) else val)"

definition parse_config_integer :: "bytes \<Rightarrow> int option" where
  "parse_config_integer val =
     (let v = unquote val
      in if take 2 v = ascii ''0x'' then from_hex_int (drop 2 v) else Some (to_int32 (from_chars v)))"

definition to_bool :: "bytes \<Rightarrow> bool" where
  "to_bool boolean \<longleftrightarrow>
     boolean = ascii ''true'' \<or> boolean = ascii ''yes'' \<or> boolean = ascii ''enable'' \<or>
     boolean = ascii ''enabled'' \<or> boolean = ascii ''on'' \<or> 0x31 \<in> set boolean"

text \<open>
  The elements of a list: those before, the text since the last comma, the text from the position.
  \<open>None\<close> is a position behind the end of the text.
\<close>

function (sequential) list_elements :: "bytes list \<Rightarrow> bytes \<Rightarrow> bytes \<Rightarrow> (bytes list \<times> bytes) option" where
  "list_elements input cur [] = Some (input, cur)"
| "list_elements input cur (c # t) =
     (if c = open_list then
        let r = skip_list 1 t in
        if r = [] then None
        else list_elements input (cur @ c # take (length t - length (tl r)) t) (tl r)
      else if c = close_list then Some (input, cur)
      else if c = comma then list_elements (input @ [cur]) [] (dropWhile whitespace t)
      else list_elements input (cur @ [c]) t)"
  by pat_completeness auto
termination
proof (relation "measure (\<lambda>(input, cur, pos). length pos)")
  fix input :: "bytes list" and cur t r :: bytes and c
  assume "r = skip_list 1 t"
  then have "length (tl r) \<le> length t" using skip_list_shorter [of 1 t] by simp
  then show "((input, cur @ c # take (length t - length (tl r)) t, tl r), input, cur, c # t)
      \<in> measure (\<lambda>(input, cur, pos). length pos)" by simp
next
  fix input :: "bytes list" and cur t :: bytes and c
  show "((input @ [cur], [], dropWhile whitespace t), input, cur, c # t) \<in> measure (\<lambda>(input, cur, pos). length pos)"
    using length_dropWhile_le [of whitespace t] by simp
qed simp_all

text \<open>The elements of a text that is not empty.\<close>

definition list_of_string :: "bytes \<Rightarrow> bytes list option" where
  "list_of_string str =
     (let begin = dropWhile whitespace (if hd str = open_list then tl str else str)
      in if begin = [] then Some []
         else map_option (\<lambda>(input, cur). if cur \<noteq> [] then input @ [cur] else input) (list_elements [] [] begin))"

text \<open>The items between commas, without the blanks around them; an empty item is left out.\<close>

definition blank :: "u8 \<Rightarrow> bool" where
  "blank c \<longleftrightarrow> c = 0x20 \<or> c = 0x09 \<or> c = 0x0D \<or> c = 0x0A"

definition strip_blanks :: "bytes \<Rightarrow> bytes" where
  "strip_blanks item = rev (dropWhile blank (rev (dropWhile blank item)))"

fun comma_items :: "bytes \<Rightarrow> bytes \<Rightarrow> bytes list" where
  "comma_items cur [] = (if cur = [] then [] else [cur])"
| "comma_items cur (c # t) = (if c = comma then cur # comma_items [] t else comma_items (cur @ [c]) t)"

definition string_items :: "bytes \<Rightarrow> bytes list" where
  "string_items temp = filter (\<lambda>item. item \<noteq> []) (map strip_blanks (comma_items [] temp))"

section \<open>Comments\<close>

text \<open>What \<open>to_string\<close> is meant to do, one character at a time.\<close>

fun without_comments :: "bool \<Rightarrow> bytes \<Rightarrow> bytes" where
  "without_comments inside [] = []"
| "without_comments False (c # t) = (if c = hash then without_comments True t else c # without_comments False t)"
| "without_comments True (c # t) = (if endline c then c # without_comments False t else without_comments True t)"

lemma without_comments_inside:
  "without_comments True t = without_comments False (dropWhile (\<lambda>c. \<not> endline c) t)"
  by (induction t) (auto simp: endline_def)

lemma without_comments_outside:
  "without_comments False t =
     takeWhile (\<lambda>c. c \<noteq> hash) t @ without_comments True (dropWhile (\<lambda>c. c \<noteq> hash) t)"
proof (induction t)
  case (Cons c t)
  then show ?case by (cases "c = hash") (auto simp: endline_def)
qed simp

lemma to_string_eq: "to_string t = without_comments False t"
proof (induction t rule: to_string.induct)
  case (1 pos)
  show ?case
  proof (cases "pos = []")
    case False
    from 1 [OF False refl refl] show ?thesis
      by (subst to_string.simps, subst without_comments_outside)
        (simp add: False without_comments_inside Let_def)
  qed (simp add: to_string.simps)
qed

lemma to_string_plain: "hash \<notin> set t \<Longrightarrow> to_string t = t"
proof -
  have "without_comments False u = u" if "hash \<notin> set u" for u
    using that by (induction u) auto
  then show "hash \<notin> set t \<Longrightarrow> to_string t = t" by (simp add: to_string_eq)
qed

section \<open>Reading what was written\<close>

text \<open>A file of lines \<open>name = value\<close>, as \<open>saveConfig\<close> of \<open>confighttp.cpp\<close> writes it.\<close>

definition config_line :: "bytes \<times> bytes \<Rightarrow> bytes" where
  "config_line kv = fst kv @ ascii '' = '' @ snd kv @ [0x0A]"

definition config_stream :: "(bytes \<times> bytes) list \<Rightarrow> bytes" where
  "config_stream kvs = concat (map config_line kvs)"

text \<open>
  A name and a value a line can hold: no comment and no end of line, no blank in front, none behind the
  name; a value that opens a list closes it with its last character.
\<close>

definition plain :: "bytes \<Rightarrow> bool" where
  "plain t \<longleftrightarrow> t \<noteq> [] \<and> hash \<notin> set t \<and> \<not> list_ex endline t \<and> \<not> space_tab (hd t)"

definition name_ok :: "bytes \<Rightarrow> bool" where
  "name_ok k \<longleftrightarrow> plain k \<and> equals \<notin> set k \<and> \<not> space_tab (last k)"

definition value_ok :: "bytes \<Rightarrow> bool" where
  "value_ok v \<longleftrightarrow> plain v \<and> (hd v = open_list \<longrightarrow> skip_list 1 (tl v @ [0x0A]) = [0x0A])"

lemma ascii_equals: "ascii '' = '' = [0x20, equals, 0x20]"
  by (simp add: ascii_def)

lemma endline_list_ex: "\<not> list_ex endline t \<longleftrightarrow> (\<forall>c \<in> set t. \<not> endline c)"
  by (auto simp: list_ex_iff)

lemma skip_list_more: "skip_list n (t @ [d]) = [d] \<Longrightarrow> skip_list n (t @ d # r) = d # r"
proof (induction n t rule: skip_list.induct)
  case (1 n)
  then show ?case by (cases n) (auto split: if_splits)
next
  case (2 n c t)
  then show ?case by (cases "n = 0") auto
qed

lemma dropWhile_hd: "t \<noteq> [] \<Longrightarrow> \<not> P (hd t) \<Longrightarrow> dropWhile P (t @ u) = t @ u"
  by (cases t) auto

lemma rev_dropWhile_last: "t \<noteq> [] \<Longrightarrow> \<not> P (last t) \<Longrightarrow> rev (dropWhile P (rev t)) = t"
  by (cases t rule: rev_cases) auto

lemma takeWhile_stop: "\<forall>c \<in> set t. P c \<Longrightarrow> \<not> P d \<Longrightarrow> takeWhile P (t @ d # u) = t"
  by (induction t) auto

lemma dropWhile_stop: "\<forall>c \<in> set t. P c \<Longrightarrow> \<not> P d \<Longrightarrow> dropWhile P (t @ d # u) = d # u"
  by (induction t) auto

text \<open>Trimming the blanks behind a value leaves its first character.\<close>

lemma rev_dropWhile_Cons:
  "\<not> P c \<Longrightarrow> rev (dropWhile P (rev (a @ c # t))) = a @ c # rev (dropWhile P (rev t))"
  by (simp add: dropWhile_append)

lemma parse_option_line:
  assumes k: "name_ok k" and v: "value_ok v"
  shows "parse_option (k @ [0x20, equals, 0x20] @ v @ 0x0A # rest) = (0x0A # rest, Some (k, v))"
proof -
  let ?text = "k @ [0x20, equals, 0x20] @ v @ 0x0A # rest"
  let ?line = "k @ [0x20, equals, 0x20] @ v"
  have kk: "k \<noteq> []" "hash \<notin> set k" "\<forall>c \<in> set k. \<not> endline c" "\<not> space_tab (hd k)"
      "equals \<notin> set k" "\<not> space_tab (last k)"
    using k by (auto simp: name_ok_def plain_def endline_list_ex)
  obtain c v' where vc: "v = c # v'" using v by (cases v) (auto simp: value_ok_def plain_def)
  have vv: "hash \<notin> set v" "\<forall>c \<in> set v. \<not> endline c" "\<not> space_tab c"
      "c = open_list \<longrightarrow> skip_list 1 (v' @ [0x0A]) = [0x0A]"
    using v by (auto simp: value_ok_def plain_def endline_list_ex vc)
  have ends: "\<not> endline hash" "\<not> endline 0x20" "\<not> endline equals" "endline 0x0A" "\<not> whitespace equals"
    by (simp_all add: endline_def whitespace_def space_tab_def)
  have hdk: "\<not> whitespace (hd k)" using kk by (simp add: whitespace_def)
  have start: "dropWhile whitespace ?text = ?text" using kk hdk by (simp add: dropWhile_hd)
  have all: "\<forall>c \<in> set ?line. \<not> endline c" using kk vv ends by auto
  have line: "takeWhile (\<lambda>c. \<not> endline c) ?text = ?line" "dropWhile (\<lambda>c. \<not> endline c) ?text = 0x0A # rest"
    using takeWhile_stop [of ?line "\<lambda>c. \<not> endline c" "0x0A" rest] dropWhile_stop [of ?line "\<lambda>c. \<not> endline c" "0x0A" rest]
      all ends by simp_all
  have nohash: "hash \<notin> set ?line" using kk vv by auto
  then have nocomment: "takeWhile (\<lambda>c. c \<noteq> hash) ?line = ?line"
    by (intro takeWhile_eq_all_conv [THEN iffD2] ballI) blast
  have "\<not> whitespace c" using vv by (simp add: whitespace_def vc)
  then have code: "rev (dropWhile whitespace (rev (takeWhile (\<lambda>c. c \<noteq> hash) ?line))) =
      k @ [0x20, equals, 0x20] @ c # rev (dropWhile whitespace (rev v'))"
    unfolding nocomment using rev_dropWhile_Cons [of whitespace c "k @ [0x20, equals, 0x20]" v'] by (simp add: vc)
  have before: "takeWhile (\<lambda>c. c \<noteq> equals) (k @ [0x20, equals, 0x20] @ u) = k @ [0x20]" for u
  proof -
    have "\<forall>c \<in> set (k @ [0x20]). c \<noteq> equals" using kk(5) by auto
    from takeWhile_stop [OF this, of equals "0x20 # u"] show ?thesis by simp
  qed
  have name: "rev (dropWhile space_tab (rev (k @ [0x20]))) = k"
    using rev_dropWhile_last [OF kk(1), of space_tab] kk by (simp add: space_tab_def)
  have skip: "takeWhile space_tab (0x20 # c # u) = [0x20]" for u using vv by (simp add: space_tab_def)
  have list: "skip_list 1 (v' @ 0x0A # rest) = 0x0A # rest" if "c = open_list"
    using vv(4) that skip_list_more by blast
  have at: "length (k @ [0x20]) + 1 + length (takeWhile space_tab (drop (length (k @ [0x20]) + 1)
      (k @ [0x20, equals, 0x20] @ c # u))) = length k + 3" for u
    using skip by simp
  have val: "drop (length k + 3) ?line = v" "drop (length k + 3) ?text = v @ 0x0A # rest" by simp_all
  have found: "\<not> (k @ [0x20] = k @ [0x20, equals, 0x20] @ u \<or> k @ [0x20] = [])" for u by simp
  have plain: "to_string k = k" "to_string v = v" using kk vv by (simp_all add: to_string_plain)
  show ?thesis
  proof (cases "c = open_list")
    case True
    then show ?thesis
      unfolding parse_option_def Let_def start line code before name at val if_not_P [OF found]
      using list plain by (simp add: vc)
  next
    case False
    then show ?thesis
      unfolding parse_option_def Let_def start line code before name at val if_not_P [OF found]
      using plain by (simp add: vc)
  qed
qed

lemma parse_config_from_stream:
  "\<forall>(k, v) \<in> set kvs. name_ok k \<and> value_ok v \<Longrightarrow> parse_config_from vars (config_stream kvs) = map_of kvs ++ vars"
proof (induction kvs arbitrary: vars)
  case Nil
  show ?case by (simp add: config_stream_def parse_config_from.simps)
next
  case (Cons kv kvs)
  obtain k v where kv: "kv = (k, v)" by force
  have p: "parse_option (config_stream (kv # kvs)) = (0x0A # config_stream kvs, Some (k, v))"
    using parse_option_line [of k v "config_stream kvs"] Cons.prems
    by (simp add: kv config_stream_def config_line_def ascii_equals)
  have ne: "config_stream (kv # kvs) \<noteq> []" by (simp add: config_stream_def config_line_def)
  have "parse_config_from vars (config_stream (kv # kvs)) = parse_config_from (map_emplace vars k v) (config_stream kvs)"
    by (subst parse_config_from.simps) (simp add: p ne)
  also have "\<dots> = map_of kvs ++ map_emplace vars k v" using Cons by simp
  also have "\<dots> = map_of (kv # kvs) ++ vars"
    by (auto simp: kv map_emplace_def map_add_def fun_eq_iff split: option.splits)
  finally show ?case .
qed

section \<open>Surprises of the format\<close>

text \<open>
  The end of an option is trimmed only to look for the sign \<open>=\<close>: the blank before a comment stays in the
  value, and a number counts it as a digit.
\<close>
lemma comment_changes_number:
  "parse_config (ascii ''qp = 28 # lower is better'') (ascii ''qp'') = Some (ascii ''28 '') \<and>
   parse_config_integer (ascii ''28 '') = Some 264 \<and> parse_config_integer (ascii ''28'') = Some 28"
  by code_simp

text \<open>An odd digit of a hexadecimal number is dropped, from the front.\<close>

lemma odd_hex_digits: "parse_config_integer (ascii ''0xA'') = Some 0 \<and> parse_config_integer (ascii ''0xA5B'') = Some 0x5B"
  by code_simp

text \<open>The lower-case copy of \<open>to_bool\<close> is thrown away, and any digit one is true.\<close>

lemma to_bool_case: "\<not> to_bool (ascii ''True'') \<and> to_bool (ascii ''true'') \<and> to_bool (ascii ''disabled 1'')"
  by code_simp

text \<open>After a nested list the comma is skipped, and the next element is lost in the first.\<close>

lemma nested_list_swallows: "list_of_string (ascii ''[[1],2,3]'') = Some [ascii ''[1],2'', ascii ''3'']"
  by code_simp

text \<open>A nested list that is not closed walks behind the end of the text.\<close>

lemma open_nested_list: "list_of_string (ascii ''[[1'') = None"
  by code_simp

text \<open>A carriage return alone takes the first character of the next line.\<close>

lemma lone_return: "parse_config (ascii ''a = 1'' @ 0x0D # ascii ''b = 2'') (ascii ''b'') = None"
  by code_simp

text \<open>A list that is never closed runs to the end of the file, over the options that follow.\<close>

lemma unclosed_list_swallows:
  "parse_config (ascii ''keybindings = [0x10'' @ 0x0A # ascii ''port = 1'') (ascii ''port'') = None"
  by code_simp

end
