(* ===== verification/Config_Options.thy ===== *)
theory Config_Options
  imports Complex_Main Config_Text Process Display_Device
begin

text \<open>
  The readers of one option and the tables of option values (\<open>src/config.cpp\<close>). A reader finds its
  name among the variables, takes it out of them and gives the new value of a setting; readers combine
  to the readers of a section. What is thrown, or undefined, is a value of \<open>config_error\<close>. The JSON
  library, the file system and the gamepads of the platform are parameters; paths are those of POSIX.
  \<open>strtod\<close> gives the exact rational.
\<close>

section \<open>Readers\<close>

datatype config_error = Json_Error | Filesystem_Error | Hex_Overrun | List_Overrun

record 't config_env =
  ce_read_json :: "bytes \<Rightarrow> 't option"
  ce_get_child :: "'t \<Rightarrow> bytes \<Rightarrow> 't list option"
  ce_get_string :: "'t \<Rightarrow> bytes \<Rightarrow> bytes option"
  ce_get_bool :: "'t \<Rightarrow> bytes \<Rightarrow> bool option"
  ce_appdata :: bytes
  ce_exists :: "bytes list \<Rightarrow> bytes \<Rightarrow> bool option"
  ce_create_directories :: "bytes \<Rightarrow> bool"
  ce_copy_apps :: "bytes \<Rightarrow> bool"
  ce_gamepads :: "bytes list"

text \<open>The variables that are left, and the directories and files made so far.\<close>

record reading =
  rd_vars :: vars
  rd_made :: "bytes list"

type_synonym 'a reader = "reading \<Rightarrow> 'a \<Rightarrow> config_error + reading \<times> 'a"

definition bind_err :: "config_error + 'a \<Rightarrow> ('a \<Rightarrow> config_error + 'b) \<Rightarrow> config_error + 'b" where
  "bind_err r k = (case r of Inl e \<Rightarrow> Inl e | Inr x \<Rightarrow> k x)"

definition of_option :: "config_error \<Rightarrow> 'a option \<Rightarrow> config_error + 'a" where
  "of_option e r = (case r of None \<Rightarrow> Inl e | Some x \<Rightarrow> Inr x)"

definition pure :: "('s \<Rightarrow> 's) \<Rightarrow> 's reader" where
  "pure f rd s = Inr (rd, f s)"

fun seq :: "'s reader list \<Rightarrow> 's reader" where
  "seq [] rd s = Inr (rd, s)"
| "seq (r # rs) rd s = bind_err (r rd s) (\<lambda>(rd', s'). seq rs rd' s')"

definition field :: "('s \<Rightarrow> 'f) \<Rightarrow> (('f \<Rightarrow> 'f) \<Rightarrow> 's \<Rightarrow> 's) \<Rightarrow> 'f reader \<Rightarrow> 's reader" where
  "field get upd r rd s = bind_err (r rd (get s)) (\<lambda>(rd', x). Inr (rd', upd (\<lambda>_. x) s))"

definition take_string :: "string \<Rightarrow> reading \<Rightarrow> reading \<times> bytes" where
  "take_string name rd =
     (case rd_vars rd (ascii name) of
        None \<Rightarrow> (rd, [])
      | Some v \<Rightarrow> (rd\<lparr> rd_vars := (rd_vars rd)(ascii name := None) \<rparr>, v))"

text \<open>A local string, and what follows it.\<close>

definition with_string :: "string \<Rightarrow> (bytes \<Rightarrow> 's reader) \<Rightarrow> 's reader" where
  "with_string name k rd s = (let (rd', v) = take_string name rd in k v rd' s)"

definition string_f :: "string \<Rightarrow> bytes reader" where
  "string_f name rd input =
     (case rd_vars rd (ascii name) of
        None \<Rightarrow> Inr (rd, input)
      | Some v \<Rightarrow> Inr (rd\<lparr> rd_vars := (rd_vars rd)(ascii name := None) \<rparr>, v))"

definition generic_f :: "string \<Rightarrow> (bytes \<Rightarrow> config_error + 'a) \<Rightarrow> 'a reader" where
  "generic_f name f = with_string name (\<lambda>tmp rd input.
     if tmp \<noteq> [] then bind_err (f tmp) (\<lambda>x. Inr (rd, x)) else Inr (rd, input))"

definition string_restricted_f :: "string \<Rightarrow> bytes list \<Rightarrow> bytes reader" where
  "string_restricted_f name allowed_vals = with_string name (\<lambda>temp rd input.
     Inr (rd, if temp \<in> set allowed_vals then temp else input))"

definition string_list_f :: "string \<Rightarrow> bytes list reader" where
  "string_list_f name = with_string name (\<lambda>temp rd output.
     Inr (rd, if temp = [] then output else string_items temp))"

text \<open>\<open>path_f\<close>: \<open>/\<close> joins, and \<open>remove_filename\<close> keeps what is before the last separator with it.\<close>

definition slash :: u8 where "slash = 0x2F"

definition is_relative :: "bytes \<Rightarrow> bool" where
  "is_relative p \<longleftrightarrow> p = [] \<or> hd p \<noteq> slash"

definition path_append :: "bytes \<Rightarrow> bytes \<Rightarrow> bytes" where
  "path_append a b = (if a = [] \<or> last a = slash then a @ b else a @ slash # b)"

definition remove_filename :: "bytes \<Rightarrow> bytes" where
  "remove_filename p = rev (dropWhile (\<lambda>c. c \<noteq> slash) (rev p))"

definition path_f :: "'t config_env \<Rightarrow> string \<Rightarrow> bytes reader" where
  "path_f e name = with_string name (\<lambda>temp rd input.
     let p = (if temp \<noteq> [] then temp else input);
         p = (if is_relative p then path_append (ce_appdata e) p else p);
         dir = remove_filename p
     in case ce_exists e (rd_made rd) dir of
          None \<Rightarrow> Inl Filesystem_Error
        | Some True \<Rightarrow> Inr (rd, p)
        | Some False \<Rightarrow>
            if ce_create_directories e dir then Inr (rd\<lparr> rd_made := rd_made rd @ [dir] \<rparr>, p)
            else Inl Filesystem_Error)"

definition int_reader :: "string \<Rightarrow> (int \<Rightarrow> 'a) \<Rightarrow> 'a reader" where
  "int_reader name f rd input =
     (case rd_vars rd (ascii name) of
        None \<Rightarrow> Inr (rd, input)
      | Some v \<Rightarrow> bind_err (of_option Hex_Overrun (parse_config_integer v))
          (\<lambda>x. Inr (rd\<lparr> rd_vars := (rd_vars rd)(ascii name := None) \<rparr>, f x)))"

definition int_f :: "string \<Rightarrow> int reader" where
  "int_f name = int_reader name (\<lambda>x. x)"

definition optional_int_f :: "string \<Rightarrow> int option reader" where
  "optional_int_f name = int_reader name Some"

definition int_view_f :: "string \<Rightarrow> (bytes \<Rightarrow> 'a) \<Rightarrow> 'a reader" where
  "int_view_f name f = with_string name (\<lambda>tmp rd input. Inr (rd, if tmp \<noteq> [] then f tmp else input))"

definition int_between_f :: "string \<Rightarrow> int \<Rightarrow> int \<Rightarrow> int reader" where
  "int_between_f name lower upper rd input =
     bind_err (int_f name rd input) (\<lambda>(rd', temp).
       Inr (rd', if lower \<le> temp \<and> temp \<le> upper then temp else input))"

definition bool_f :: "string \<Rightarrow> bool reader" where
  "bool_f name = with_string name (\<lambda>tmp rd input. Inr (rd, if tmp = [] then input else to_bool tmp))"

text \<open>
  \<open>bool_f\<close> on an \<open>optional<int>\<close> taken for a \<open>bool\<close>: the first byte of the object is the low byte of the
  number; whether there is a number stays as it was.
\<close>

definition bool_of_optional_f :: "string \<Rightarrow> int option reader" where
  "bool_of_optional_f name = with_string name (\<lambda>tmp rd input.
     Inr (rd, if tmp = [] then input
              else map_option (\<lambda>x. x - x mod 256 + (if to_bool tmp then 1 else 0)) input))"

section \<open>Floating point\<close>

datatype double = Finite rat | Infinite bool | Not_A_Number

definition is_xdigit :: "u8 \<Rightarrow> bool" where
  "is_xdigit c \<longleftrightarrow> is_digit c \<or> 0x41 \<le> c \<and> c \<le> 0x46 \<or> 0x61 \<le> c \<and> c \<le> 0x66"

definition xdigit_value :: "u8 \<Rightarrow> int" where
  "xdigit_value c = (if is_digit c then uint c - 0x30 else if c \<le> 0x46 then uint c - 0x37 else uint c - 0x57)"

definition lower_char :: "u8 \<Rightarrow> u8" where
  "lower_char c = (if 0x41 \<le> c \<and> c \<le> 0x5A then c + 0x20 else c)"

definition split_sign :: "bytes \<Rightarrow> bool \<times> bytes" where
  "split_sign t = (case t of [] \<Rightarrow> (False, []) | c # r \<Rightarrow> if c = 0x2D then (True, r) else if c = 0x2B then (False, r) else (False, t))"

definition number_digits :: "int \<Rightarrow> bytes \<Rightarrow> int" where
  "number_digits base t = foldl (\<lambda>n c. base * n + xdigit_value c) 0 t"

text \<open>The digits with their point, the exponent behind \<open>mark\<close>; \<open>None\<close> when there is no digit.\<close>

definition scale :: "rat \<Rightarrow> int \<Rightarrow> rat \<Rightarrow> rat" where
  "scale b e m = (if 0 \<le> e then m * b ^ nat e else m / b ^ nat (- e))"

definition exponent :: "u8 \<Rightarrow> bytes \<Rightarrow> int" where
  "exponent mark t =
     (case t of
        [] \<Rightarrow> 0
      | c # r \<Rightarrow> if lower_char c \<noteq> mark then 0
          else let (neg, ds) = split_sign r; n = number_digits 10 (takeWhile is_digit ds)
               in if neg then - n else n)"

definition mantissa :: "(u8 \<Rightarrow> bool) \<Rightarrow> int \<Rightarrow> rat \<Rightarrow> u8 \<Rightarrow> bytes \<Rightarrow> rat option" where
  "mantissa digit base exp_base mark t =
     (let whole = takeWhile digit t;
          r1 = dropWhile digit t;
          point = (r1 \<noteq> [] \<and> hd r1 = 0x2E);
          frac = (if point then takeWhile digit (tl r1) else []);
          r2 = (if point then dropWhile digit (tl r1) else r1)
      in if whole = [] \<and> frac = [] then None
         else Some (scale exp_base (exponent mark r2)
                (scale (of_int base) (- int (length frac)) (of_int (number_digits base (whole @ frac))))))"

definition strtod :: "bytes \<Rightarrow> double option" where
  "strtod text =
     (let (neg, t) = split_sign (dropWhile is_space text);
          signed = (\<lambda>q. Finite (if neg then - q else q));
          word = map lower_char (take 3 t)
      in if word = ascii ''inf'' then Some (Infinite neg)
         else if word = ascii ''nan'' then Some Not_A_Number
         else
           case (if map lower_char (take 2 t) = ascii ''0x'' then mantissa is_xdigit 16 2 0x70 (drop 2 t) else None) of
             Some q \<Rightarrow> Some (signed q)
           | None \<Rightarrow> map_option signed (mantissa is_digit 10 10 0x65 t))"

definition double_f :: "string \<Rightarrow> double reader" where
  "double_f name = with_string name (\<lambda>tmp rd input.
     Inr (rd, if tmp = [] then input else case strtod tmp of None \<Rightarrow> input | Some x \<Rightarrow> x))"

definition in_range :: "rat \<Rightarrow> rat \<Rightarrow> double \<Rightarrow> bool" where
  "in_range lower upper x = (case x of Finite q \<Rightarrow> lower \<le> q \<and> q \<le> upper | _ \<Rightarrow> False)"

definition double_between_f :: "string \<Rightarrow> rat \<Rightarrow> rat \<Rightarrow> double reader" where
  "double_between_f name lower upper rd input =
     bind_err (double_f name rd input) (\<lambda>(rd', temp).
       Inr (rd', if in_range lower upper temp then temp else input))"

section \<open>Lists\<close>

definition list_string_f :: "string \<Rightarrow> bytes list reader" where
  "list_string_f name = with_string name (\<lambda>str rd input.
     if str = [] then Inr (rd, input)
     else bind_err (of_option List_Overrun (list_of_string str)) (\<lambda>l. Inr (rd, l)))"

text \<open>The preparation commands of a JSON list are appended to those there are.\<close>

definition list_prep_cmd_f :: "'t config_env \<Rightarrow> string \<Rightarrow> prep_cmd list reader" where
  "list_prep_cmd_f e name = with_string name (\<lambda>str rd input.
     if str = [] then Inr (rd, input)
     else
       bind_err (of_option Json_Error (ce_read_json e (ascii ''{\"prep_cmd\":'' @ str @ ascii ''}''))) (\<lambda>tree.
       bind_err (of_option Json_Error (ce_get_child e tree (ascii ''prep_cmd''))) (\<lambda>cmds.
       Inr (rd, input @ map (\<lambda>c.
         \<lparr> do_cmd = (case ce_get_string e c (ascii ''do'') of Some t \<Rightarrow> t | None \<Rightarrow> []),
           undo_cmd = (case ce_get_string e c (ascii ''undo'') of Some t \<Rightarrow> t | None \<Rightarrow> []),
           pc_elevated = (case ce_get_bool e c (ascii ''elevated'') of Some b \<Rightarrow> b | None \<Rightarrow> False) \<rparr>) cmds))))"

fun int_elements :: "bytes list \<Rightarrow> int list option" where
  "int_elements [] = Some []"
| "int_elements (el # els) =
     (case parse_config_integer el of
        None \<Rightarrow> None
      | Some x \<Rightarrow> map_option ((#) x) (int_elements els))"

definition list_int_f :: "string \<Rightarrow> int list reader" where
  "list_int_f name rd input =
     bind_err (list_string_f name rd []) (\<lambda>(rd', list).
       if list = [] then Inr (rd', input)
       else bind_err (of_option Hex_Overrun (int_elements list)) (\<lambda>xs. Inr (rd', xs)))"

fun emplace_pairs :: "(int \<rightharpoonup> int) \<Rightarrow> int list \<Rightarrow> int \<rightharpoonup> int" where
  "emplace_pairs m (key # val # rest) = emplace_pairs (map_emplace m key val) rest"
| "emplace_pairs m _ = m"

definition map_int_int_f :: "string \<Rightarrow> (int \<rightharpoonup> int) reader" where
  "map_int_int_f name rd input =
     bind_err (list_int_f name rd []) (\<lambda>(rd', list).
       Inr (rd', if odd (length list) then input else emplace_pairs input list))"

end
