(* ===== verification/Config_Tables.thy ===== *)
theory Config_Tables
  imports Config_Options
begin

text \<open>
  The tables that give an option's word its value (the \<open>*_from_view\<close> functions of
  \<open>src/config.cpp\<close>), one per encoder family and one for the display settings. The numbers of the AMF
  and VA-API constants are those of the file's own definitions for systems without these libraries;
  the NVENC constants stay names.
\<close>

definition convert :: "(string \<times> 'a) list \<Rightarrow> bytes \<Rightarrow> 'a option" where
  "convert table word = map_of (map (\<lambda>(s, x). (ascii s, x)) table) word"

definition convert_or :: "'a \<Rightarrow> (string \<times> 'a) list \<Rightarrow> bytes \<Rightarrow> 'a" where
  "convert_or def table word = (case convert table word of Some x \<Rightarrow> x | None \<Rightarrow> def)"

text \<open>\<open>_CONVERT_\<close> of the encoders keeps the original when no word fits.\<close>

definition convert_keep :: "(string \<times> int) list \<Rightarrow> bytes \<Rightarrow> int option \<Rightarrow> int option" where
  "convert_keep table word original = (case convert table word of Some x \<Rightarrow> Some x | None \<Rightarrow> original)"

section \<open>nv\<close>

datatype nvenc_two_pass = TP_disabled | TP_quarter_resolution | TP_full_resolution
datatype nvenc_split_frame_encoding = SF_disabled | SF_driver_decides | SF_force_enabled

definition twopass_from_view :: "bytes \<Rightarrow> nvenc_two_pass" where
  "twopass_from_view = convert_or TP_quarter_resolution
     [(''disabled'', TP_disabled), (''quarter_res'', TP_quarter_resolution), (''full_res'', TP_full_resolution)]"

definition split_encode_from_view :: "bytes \<Rightarrow> nvenc_split_frame_encoding" where
  "split_encode_from_view = convert_or SF_driver_decides
     [(''disabled'', SF_disabled), (''driver_decides'', SF_driver_decides), (''enabled'', SF_force_enabled)]"

section \<open>amd\<close>

definition quality_av1_e :: "(string \<times> int) list" where
  "quality_av1_e = [(''balanced'', 70), (''quality'', 30), (''speed'', 100)]"

definition quality_hevc_e :: "(string \<times> int) list" where
  "quality_hevc_e = [(''balanced'', 5), (''quality'', 0), (''speed'', 10)]"

definition quality_h264_e :: "(string \<times> int) list" where
  "quality_h264_e = [(''balanced'', 0), (''quality'', 2), (''speed'', 1)]"

definition rc_av1_e :: "(string \<times> int) list" where
  "rc_av1_e = [(''cbr'', 3), (''cqp'', 0), (''vbr_latency'', 1), (''vbr_peak'', 2)]"

definition rc_hevc_e :: "(string \<times> int) list" where
  "rc_hevc_e = [(''cbr'', 3), (''cqp'', 0), (''vbr_latency'', 1), (''vbr_peak'', 2)]"

definition rc_h264_e :: "(string \<times> int) list" where
  "rc_h264_e = [(''cbr'', 1), (''cqp'', 0), (''vbr_latency'', 3), (''vbr_peak'', 2)]"

definition usage_av1_e :: "(string \<times> int) list" where
  "usage_av1_e = [(''lowlatency'', 1), (''lowlatency_high_quality'', 5), (''transcoding'', 0),
     (''ultralowlatency'', 2), (''webcam'', 3)]"

definition usage_hevc_e :: "(string \<times> int) list" where
  "usage_hevc_e = [(''lowlatency'', 2), (''lowlatency_high_quality'', 5), (''transcoding'', 0),
     (''ultralowlatency'', 1), (''webcam'', 3)]"

definition usage_h264_e :: "(string \<times> int) list" where
  "usage_h264_e = [(''lowlatency'', 2), (''lowlatency_high_quality'', 5), (''transcoding'', 0),
     (''ultralowlatency'', 1), (''webcam'', 3)]"

definition amd_quality_from_view :: "(string \<times> int) list \<Rightarrow> bytes \<Rightarrow> int option \<Rightarrow> int option" where
  "amd_quality_from_view quality_e quality_type original = convert_keep quality_e quality_type original"

definition amd_rc_from_view :: "(string \<times> int) list \<Rightarrow> bytes \<Rightarrow> int option \<Rightarrow> int option" where
  "amd_rc_from_view rc_e rc original = convert_keep rc_e rc original"

definition amd_usage_from_view :: "(string \<times> int) list \<Rightarrow> bytes \<Rightarrow> int option \<Rightarrow> int option" where
  "amd_usage_from_view usage_e usage original = convert_keep usage_e usage original"

definition amd_coder_from_view :: "bytes \<Rightarrow> int" where
  "amd_coder_from_view = convert_or 0
     [(''auto'', 0), (''cabac'', 1), (''ac'', 1), (''cavlc'', 2), (''vlc'', 2)]"

section \<open>qsv\<close>

definition qsv_preset_from_view :: "bytes \<Rightarrow> int option" where
  "qsv_preset_from_view = convert
     [(''veryslow'', 1), (''slower'', 2), (''slow'', 3), (''medium'', 4), (''fast'', 5), (''faster'', 6),
      (''veryfast'', 7)]"

text \<open>The automatic choice and the disabled one are the same number.\<close>

definition qsv_coder_from_view :: "bytes \<Rightarrow> int option" where
  "qsv_coder_from_view = convert
     [(''auto'', 0), (''cabac'', 0), (''ac'', 0), (''cavlc'', 1), (''vlc'', 1)]"

section \<open>vaapi\<close>

definition vaapi_quality_from_view :: "bytes \<Rightarrow> int option \<Rightarrow> int option" where
  "vaapi_quality_from_view = convert_keep [(''balanced'', 2), (''quality'', 3), (''speed'', 1)]"

definition vaapi_rc_from_view :: "bytes \<Rightarrow> int option \<Rightarrow> int option" where
  "vaapi_rc_from_view = convert_keep
     [(''avbr'', 0x800), (''cbr'', 0x2), (''cqp'', 0x10), (''icq'', 0x40), (''qvbr'', 0x400), (''vbr'', 0x4)]"

section \<open>vt and sw\<close>

definition vt_coder_from_view :: "bytes \<Rightarrow> int" where
  "vt_coder_from_view = convert_or (- 1)
     [(''auto'', 0), (''cabac'', 1), (''ac'', 1), (''cavlc'', 2), (''vlc'', 2)]"

definition allow_software_from_view :: "bytes \<Rightarrow> int" where
  "allow_software_from_view software = (if software = ascii ''allowed'' \<or> software = ascii ''forced'' then 1 else 0)"

definition force_software_from_view :: "bytes \<Rightarrow> int" where
  "force_software_from_view software = (if software = ascii ''forced'' then 1 else 0)"

definition rt_from_view :: "bytes \<Rightarrow> int" where
  "rt_from_view rt = (if rt = ascii ''disabled'' \<or> rt = ascii ''off'' \<or> rt = ascii ''0'' then 0 else 1)"

definition svtav1_preset_from_view :: "bytes \<Rightarrow> int" where
  "svtav1_preset_from_view = convert_or 11
     [(''veryslow'', 1), (''slower'', 2), (''slow'', 4), (''medium'', 5), (''fast'', 7), (''faster'', 9),
      (''veryfast'', 10), (''superfast'', 11), (''ultrafast'', 12)]"

section \<open>dd\<close>

definition config_option_from_view :: "bytes \<Rightarrow> config_option" where
  "config_option_from_view = convert_or CO_disabled
     [(''disabled'', CO_disabled), (''verify_only'', CO_verify_only), (''ensure_active'', CO_ensure_active),
      (''ensure_primary'', CO_ensure_primary), (''ensure_only_display'', CO_ensure_only_display)]"

definition resolution_option_from_view :: "bytes \<Rightarrow> resolution_option" where
  "resolution_option_from_view = convert_or RO_disabled
     [(''disabled'', RO_disabled), (''auto'', RO_automatic), (''manual'', RO_manual)]"

definition refresh_rate_option_from_view :: "bytes \<Rightarrow> refresh_rate_option" where
  "refresh_rate_option_from_view = convert_or FO_disabled
     [(''disabled'', FO_disabled), (''auto'', FO_automatic), (''manual'', FO_manual)]"

definition hdr_option_from_view :: "bytes \<Rightarrow> hdr_option" where
  "hdr_option_from_view = convert_or HO_disabled [(''disabled'', HO_disabled), (''auto'', HO_automatic)]"

definition parse_entry_list :: "'t config_env \<Rightarrow> 't list \<Rightarrow> mode_remapping_entry list" where
  "parse_entry_list e entries =
     (let get = (\<lambda>entry name. case ce_get_string e entry (ascii name) of Some t \<Rightarrow> t | None \<Rightarrow> [])
      in map (\<lambda>entry. \<lparr> me_requested_resolution = get entry ''requested_resolution'',
                me_requested_fps = get entry ''requested_fps'', me_final_resolution = get entry ''final_resolution'',
                me_final_refresh_rate = get entry ''final_refresh_rate'' \<rparr>) entries)"

record mode_remapping =
  mr_mixed :: "mode_remapping_entry list"
  mr_resolution_only :: "mode_remapping_entry list"
  mr_refresh_rate_only :: "mode_remapping_entry list"

definition mode_remapping_from_view :: "'t config_env \<Rightarrow> bytes \<Rightarrow> config_error + mode_remapping" where
  "mode_remapping_from_view e val =
     (let child = (\<lambda>tree name. of_option Json_Error (ce_get_child e tree (ascii name)))
      in bind_err (of_option Json_Error (ce_read_json e (ascii ''{\"dd_mode_remapping\":'' @ val @ ascii ''}'')))
        (\<lambda>tree. bind_err (child tree ''dd_mode_remapping.mixed'')
        (\<lambda>m. bind_err (child tree ''dd_mode_remapping.resolution_only'')
        (\<lambda>r. bind_err (child tree ''dd_mode_remapping.refresh_rate_only'')
        (\<lambda>f. Inr \<lparr> mr_mixed = parse_entry_list e m, mr_resolution_only = parse_entry_list e r,
                   mr_refresh_rate_only = parse_entry_list e f \<rparr>)))))"

end
