(* ===== verification/Config.thy ===== *)
theory Config
  imports Config_Tables Launch
begin

text \<open>
  The configuration and how it is read (\<open>src/config.h\<close>, \<open>src/config.cpp\<close>): the sections of the
  configuration with their defaults, \<open>apply_config\<close> section by section, the flags and the command line
  of \<open>parse\<close>, for a Linux build. Times are milliseconds, the period of a repeated key seconds.
\<close>

section \<open>Sections\<close>

record sw_t =
  sw_preset :: bytes
  sw_tune :: bytes
  svtav1_preset :: "int option"

record nvenc_config =
  nv_quality_preset :: int
  nv_two_pass :: nvenc_two_pass
  nv_vbv_percentage_increase :: int
  nv_weighted_prediction :: bool
  nv_adaptive_quantization :: bool
  nv_enable_min_qp :: bool
  nv_min_qp_h264 :: int
  nv_min_qp_hevc :: int
  nv_min_qp_av1 :: int
  nv_h264_cavlc :: bool
  nv_insert_filler_data :: bool
  nv_split_frame_encoding :: nvenc_split_frame_encoding

datatype nv_multi_pass = NV_ENC_MULTI_PASS_DISABLED | NV_ENC_TWO_PASS_QUARTER_RESOLUTION | NV_ENC_TWO_PASS_FULL_RESOLUTION
datatype nv_entropy_mode = Value_Initialized_Coder | NV_ENC_H264_ENTROPY_CODING_MODE_CABAC | NV_ENC_H264_ENTROPY_CODING_MODE_CAVLC

record nv_legacy_t =
  nl_preset :: int
  nl_multipass :: nv_multi_pass
  nl_h264_coder :: nv_entropy_mode
  nl_aq :: bool
  nl_vbv_percentage_increase :: int

record qsv_t =
  qsv_preset :: "int option"
  qsv_cavlc :: "int option"
  qsv_slow_hevc :: bool

record amd_t =
  amd_usage_h264 :: "int option"
  amd_usage_hevc :: "int option"
  amd_usage_av1 :: "int option"
  amd_rc_h264 :: "int option"
  amd_rc_hevc :: "int option"
  amd_rc_av1 :: "int option"
  amd_enforce_hrd :: "int option"
  amd_quality_h264 :: "int option"
  amd_quality_hevc :: "int option"
  amd_quality_av1 :: "int option"
  amd_preanalysis :: "int option"
  amd_vbaq :: "int option"
  amd_max_au_size :: "int option"
  amd_coder :: int

record vt_t =
  vt_allow_sw :: int
  vt_require_sw :: int
  vt_realtime :: int
  vt_coder :: int

record vaapi_t =
  va_blbrc :: "int option"
  va_quality :: "int option"
  va_rc :: "int option"
  va_rc_str :: bytes
  va_strict_rc_buffer :: bool

record dd_t = dd_options +
  dd_config_revert_delay :: int
  dd_config_revert_on_disconnect :: bool
  dd_hdr_toggle_delay :: int

record video_t =
  vi_qp :: int
  vi_virtual_display :: bytes
  vi_virtual_display_size :: bytes
  vi_hevc_mode :: int
  vi_av1_mode :: int
  vi_min_threads :: int
  vi_sw :: sw_t
  vi_nv :: nvenc_config
  vi_nv_realtime_hags :: bool
  vi_nv_opengl_vulkan_on_dxgi :: bool
  vi_nv_high_power_mode :: bool
  vi_nv_legacy :: nv_legacy_t
  vi_qsv :: qsv_t
  vi_amd :: amd_t
  vi_vt :: vt_t
  vi_vaapi :: vaapi_t
  vi_vk_tune :: int
  vi_vk_rc_mode :: int
  vi_capture :: bytes
  vi_encoder :: bytes
  vi_adapter_name :: bytes
  vi_dd :: dd_t
  vi_max_bitrate :: int
  vi_minimum_fps_target :: double

record audio_t =
  au_sink :: bytes
  au_virtual_sink :: bytes
  au_stream :: bool
  au_install_steam_drivers :: bool

record stream_t =
  st_ping_timeout :: int
  st_file_apps :: bytes
  st_fec_percentage :: int
  st_lan_encryption_mode :: int
  st_wan_encryption_mode :: int
  st_packetsize :: int

record nvhttp_t =
  nh_origin_web_ui_allowed :: bytes
  nh_pkey :: bytes
  nh_cert :: bytes
  nh_sunshine_name :: bytes
  nh_file_state :: bytes
  nh_external_ip :: bytes

record input_t =
  it_keybindings :: "int \<rightharpoonup> int"
  it_back_button_timeout :: int
  it_key_repeat_delay :: int
  it_key_repeat_period :: rat
  it_gamepad :: bytes
  it_ds4_back_as_touchpad_click :: bool
  it_motion_as_ds4 :: bool
  it_touchpad_as_ds4 :: bool
  it_virtualhid_randomize_mac :: bool
  it_keyboard :: bool
  it_key_rightalt_to_key_win :: bool
  it_mouse :: bool
  it_controller :: bool
  it_always_send_scancodes :: bool
  it_high_resolution_scrolling :: bool
  it_native_pen_touch :: bool

datatype flag_e = PIN_STDIN | FRESH_STATE | FORCE_VIDEO_HEADER_REPLACE | UPNP | CONST_PIN

record sunshine_t =
  sn_locale :: bytes
  sn_min_log_level :: int
  sn_flags :: "flag_e set"
  sn_credentials_file :: bytes
  sn_username :: bytes
  sn_password :: bytes
  sn_salt :: bytes
  sn_config_file :: bytes
  sn_cmd_name :: bytes
  sn_cmd_argv :: "bytes list"
  sn_port :: u16
  sn_address_family :: bytes
  sn_bind_address :: bytes
  sn_log_file :: bytes
  sn_notify_pre_releases :: bool
  sn_system_tray :: bool
  sn_prep_cmds :: "prep_cmd list"
  sn_csrf_allowed_origins :: "bytes list"

record config_t =
  cf_video :: video_t
  cf_audio :: audio_t
  cf_stream :: stream_t
  cf_nvhttp :: nvhttp_t
  cf_input :: input_t
  cf_sunshine :: sunshine_t

section \<open>Defaults\<close>

definition INT_MAX :: int where "INT_MAX = 2147483647"
definition INT_MIN :: int where "INT_MIN = - 2147483648"

definition nvenc_config_init :: nvenc_config where
  "nvenc_config_init = \<lparr> nv_quality_preset = 1, nv_two_pass = TP_quarter_resolution,
     nv_vbv_percentage_increase = 0, nv_weighted_prediction = False, nv_adaptive_quantization = False,
     nv_enable_min_qp = False, nv_min_qp_h264 = 19, nv_min_qp_hevc = 23, nv_min_qp_av1 = 23,
     nv_h264_cavlc = False, nv_insert_filler_data = False, nv_split_frame_encoding = SF_driver_decides \<rparr>"

definition amd_init :: amd_t where
  "amd_init = \<lparr> amd_usage_h264 = Some 1, amd_usage_hevc = Some 1, amd_usage_av1 = Some 2,
     amd_rc_h264 = Some 3, amd_rc_hevc = Some 1, amd_rc_av1 = Some 1, amd_enforce_hrd = Some 0,
     amd_quality_h264 = Some 0, amd_quality_hevc = Some 5, amd_quality_av1 = Some 70,
     amd_preanalysis = Some 0, amd_vbaq = Some 1, amd_max_au_size = None, amd_coder = 0 \<rparr>"

definition dd_init :: dd_t where
  "dd_init = \<lparr> dd_configuration_option = CO_disabled, dd_resolution_option = RO_automatic,
     dd_manual_resolution = [], dd_refresh_rate_option = FO_automatic, dd_manual_refresh_rate = [],
     dd_hdr_option = HO_automatic, dd_mixed = [], dd_resolution_only = [], dd_refresh_rate_only = [],
     dd_output_name = [], dd_config_revert_delay = 3000, dd_config_revert_on_disconnect = False,
     dd_hdr_toggle_delay = 0 \<rparr>"

definition video_init :: video_t where
  "video_init = \<lparr> vi_qp = 28, vi_virtual_display = ascii ''disabled'', vi_virtual_display_size = [],
     vi_hevc_mode = 0, vi_av1_mode = 0, vi_min_threads = 2,
     vi_sw = \<lparr> sw_preset = ascii ''superfast'', sw_tune = ascii ''zerolatency'', svtav1_preset = Some 11 \<rparr>,
     vi_nv = nvenc_config_init, vi_nv_realtime_hags = True, vi_nv_opengl_vulkan_on_dxgi = True,
     vi_nv_high_power_mode = True,
     vi_nv_legacy = \<lparr> nl_preset = 0, nl_multipass = NV_ENC_MULTI_PASS_DISABLED, nl_h264_coder = Value_Initialized_Coder,
       nl_aq = False, nl_vbv_percentage_increase = 0 \<rparr>,
     vi_qsv = \<lparr> qsv_preset = Some 4, qsv_cavlc = Some 0, qsv_slow_hevc = False \<rparr>,
     vi_amd = amd_init,
     vi_vt = \<lparr> vt_allow_sw = 0, vt_require_sw = 0, vt_realtime = 1, vt_coder = - 1 \<rparr>,
     vi_vaapi = \<lparr> va_blbrc = Some 0, va_quality = Some 0, va_rc = Some 0, va_rc_str = [], va_strict_rc_buffer = False \<rparr>,
     vi_vk_tune = 2, vi_vk_rc_mode = 2, vi_capture = [], vi_encoder = [], vi_adapter_name = [],
     vi_dd = dd_init, vi_max_bitrate = 0, vi_minimum_fps_target = Finite 0 \<rparr>"

definition audio_init :: audio_t where
  "audio_init = \<lparr> au_sink = [], au_virtual_sink = [], au_stream = True, au_install_steam_drivers = True \<rparr>"

definition stream_init :: "bytes \<Rightarrow> stream_t" where
  "stream_init appdata = \<lparr> st_ping_timeout = 10000, st_file_apps = appdata @ ascii ''/apps.json'',
     st_fec_percentage = 20, st_lan_encryption_mode = ENCRYPTION_MODE_NEVER,
     st_wan_encryption_mode = ENCRYPTION_MODE_OPPORTUNISTIC, st_packetsize = 0 \<rparr>"

definition nvhttp_init :: "bytes \<Rightarrow> nvhttp_t" where
  "nvhttp_init host_name = \<lparr> nh_origin_web_ui_allowed = ascii ''lan'', nh_pkey = ascii ''credentials/cakey.pem'',
     nh_cert = ascii ''credentials/cacert.pem'', nh_sunshine_name = host_name,
     nh_file_state = ascii ''sunshine_state.json'', nh_external_ip = [] \<rparr>"

text \<open>
  The list of the input section has one value less than the section has members from \<open>keyboard\<close> on:
  each value goes to the member before the one its comment names, and the last member gets none.
\<close>

definition input_init :: "bytes list \<Rightarrow> input_t" where
  "input_init gamepads = \<lparr> it_keybindings = [0x10 \<mapsto> 0xA0, 0x11 \<mapsto> 0xA2, 0x12 \<mapsto> 0xA4],
     it_back_button_timeout = - 1, it_key_repeat_delay = 500, it_key_repeat_period = 10 / 249,
     it_gamepad = hd gamepads, it_ds4_back_as_touchpad_click = True, it_motion_as_ds4 = True,
     it_touchpad_as_ds4 = True, it_virtualhid_randomize_mac = True, it_keyboard = True,
     it_key_rightalt_to_key_win = True, it_mouse = True, it_controller = True,
     it_always_send_scancodes = True, it_high_resolution_scrolling = True, it_native_pen_touch = False \<rparr>"

definition sunshine_init :: "bytes \<Rightarrow> sunshine_t" where
  "sunshine_init appdata = \<lparr> sn_locale = ascii ''en'', sn_min_log_level = 2, sn_flags = {},
     sn_credentials_file = [], sn_username = [], sn_password = [], sn_salt = [],
     sn_config_file = appdata @ ascii ''/sunshine.conf'', sn_cmd_name = [],
     sn_cmd_argv = [], sn_port = 47989, sn_address_family = ascii ''ipv4'', sn_bind_address = [],
     sn_log_file = appdata @ ascii ''/sunshine.log'', sn_notify_pre_releases = False, sn_system_tray = True,
     sn_prep_cmds = [], sn_csrf_allowed_origins = [] \<rparr>"

definition config_init :: "'t config_env \<Rightarrow> bytes \<Rightarrow> config_t" where
  "config_init e host_name = \<lparr> cf_video = video_init, cf_audio = audio_init,
     cf_stream = stream_init (ce_appdata e), cf_nvhttp = nvhttp_init host_name,
     cf_input = input_init (ce_gamepads e), cf_sunshine = sunshine_init (ce_appdata e) \<rparr>"

section \<open>apply_config\<close>

text \<open>A reader into a local variable, and what is made of it; a reader of a section of the whole.\<close>

definition with_value :: "'a reader \<Rightarrow> ('s \<Rightarrow> 'a) \<Rightarrow> ('a \<Rightarrow> 's \<Rightarrow> 's) \<Rightarrow> 's reader" where
  "with_value r init k rd s = bind_err (r rd (init s)) (\<lambda>(rd', x). Inr (rd', k x s))"

abbreviation of_video :: "video_t reader \<Rightarrow> config_t reader" where
  "of_video \<equiv> field cf_video cf_video_update"

abbreviation of_audio :: "audio_t reader \<Rightarrow> config_t reader" where
  "of_audio \<equiv> field cf_audio cf_audio_update"

abbreviation of_stream :: "stream_t reader \<Rightarrow> config_t reader" where
  "of_stream \<equiv> field cf_stream cf_stream_update"

abbreviation of_nvhttp :: "nvhttp_t reader \<Rightarrow> config_t reader" where
  "of_nvhttp \<equiv> field cf_nvhttp cf_nvhttp_update"

abbreviation of_input :: "input_t reader \<Rightarrow> config_t reader" where
  "of_input \<equiv> field cf_input cf_input_update"

abbreviation of_sunshine :: "sunshine_t reader \<Rightarrow> config_t reader" where
  "of_sunshine \<equiv> field cf_sunshine cf_sunshine_update"

subsection \<open>Video\<close>

definition apply_sw :: "sw_t reader" where
  "apply_sw = seq [
     field sw_preset sw_preset_update (string_f ''sw_preset''),
     pure (\<lambda>s. if sw_preset s \<noteq> [] then s\<lparr> svtav1_preset := Some (svtav1_preset_from_view (sw_preset s)) \<rparr> else s),
     field sw_tune sw_tune_update (string_f ''sw_tune'')]"

definition apply_nv :: "nvenc_config reader" where
  "apply_nv = seq [
     field nv_quality_preset nv_quality_preset_update (int_between_f ''nvenc_preset'' 1 7),
     field nv_vbv_percentage_increase nv_vbv_percentage_increase_update (int_between_f ''nvenc_vbv_increase'' 0 400),
     field nv_adaptive_quantization nv_adaptive_quantization_update (bool_f ''nvenc_spatial_aq''),
     field nv_two_pass nv_two_pass_update (generic_f ''nvenc_twopass'' (\<lambda>w. Inr (twopass_from_view w))),
     field nv_h264_cavlc nv_h264_cavlc_update (bool_f ''nvenc_h264_cavlc''),
     field nv_split_frame_encoding nv_split_frame_encoding_update
       (generic_f ''nvenc_split_encode'' (\<lambda>w. Inr (split_encode_from_view w)))]"

definition nv_legacy_of :: "nvenc_config \<Rightarrow> nv_legacy_t" where
  "nv_legacy_of nv = \<lparr>
     nl_preset = nv_quality_preset nv + 11,
     nl_multipass = (case nv_two_pass nv of
        TP_quarter_resolution \<Rightarrow> NV_ENC_TWO_PASS_QUARTER_RESOLUTION
      | TP_full_resolution \<Rightarrow> NV_ENC_TWO_PASS_FULL_RESOLUTION
      | TP_disabled \<Rightarrow> NV_ENC_MULTI_PASS_DISABLED),
     nl_h264_coder = (if nv_h264_cavlc nv then NV_ENC_H264_ENTROPY_CODING_MODE_CAVLC
       else NV_ENC_H264_ENTROPY_CODING_MODE_CABAC),
     nl_aq = nv_adaptive_quantization nv,
     nl_vbv_percentage_increase = nv_vbv_percentage_increase nv \<rparr>"

definition apply_qsv :: "qsv_t reader" where
  "apply_qsv = seq [
     field qsv_preset qsv_preset_update (int_view_f ''qsv_preset'' qsv_preset_from_view),
     field qsv_cavlc qsv_cavlc_update (int_view_f ''qsv_coder'' qsv_coder_from_view),
     field qsv_slow_hevc qsv_slow_hevc_update (bool_f ''qsv_slow_hevc'')]"

definition apply_amd_quality :: "bytes \<Rightarrow> amd_t \<Rightarrow> amd_t" where
  "apply_amd_quality quality s =
     (if quality = [] then s
      else s\<lparr> amd_quality_h264 := amd_quality_from_view quality_h264_e quality (amd_quality_h264 s),
             amd_quality_hevc := amd_quality_from_view quality_hevc_e quality (amd_quality_hevc s),
             amd_quality_av1 := amd_quality_from_view quality_av1_e quality (amd_quality_av1 s) \<rparr>)"

definition apply_amd_rc :: "bytes \<Rightarrow> amd_t \<Rightarrow> amd_t" where
  "apply_amd_rc rc s =
     (if rc = [] then s
      else s\<lparr> amd_rc_h264 := amd_rc_from_view rc_h264_e rc (amd_rc_h264 s),
             amd_rc_hevc := amd_rc_from_view rc_hevc_e rc (amd_rc_hevc s),
             amd_rc_av1 := amd_rc_from_view rc_av1_e rc (amd_rc_av1 s) \<rparr>)"

definition apply_amd_usage :: "bytes \<Rightarrow> amd_t \<Rightarrow> amd_t" where
  "apply_amd_usage usage s =
     (if usage = [] then s
      else s\<lparr> amd_usage_h264 := amd_usage_from_view usage_h264_e usage (amd_usage_h264 s),
             amd_usage_hevc := amd_usage_from_view usage_hevc_e usage (amd_usage_hevc s),
             amd_usage_av1 := amd_usage_from_view usage_av1_e usage (amd_usage_av1 s) \<rparr>)"

definition apply_max_au_size :: "int option \<Rightarrow> amd_t \<Rightarrow> amd_t" where
  "apply_max_au_size max_au_size s =
     (case max_au_size of
        None \<Rightarrow> s\<lparr> amd_max_au_size := None \<rparr>
      | Some m \<Rightarrow> if m \<ge> - 1 then s\<lparr> amd_max_au_size := Some m \<rparr> else s)"

definition apply_amd :: "amd_t reader" where
  "apply_amd = seq [
     with_string ''amd_quality'' (\<lambda>quality. pure (apply_amd_quality quality)),
     with_string ''amd_rc'' (\<lambda>rc. seq [
       field amd_coder amd_coder_update (int_view_f ''amd_coder'' amd_coder_from_view),
       pure (apply_amd_rc rc)]),
     with_string ''amd_usage'' (\<lambda>usage. pure (apply_amd_usage usage)),
     field amd_preanalysis amd_preanalysis_update (bool_of_optional_f ''amd_preanalysis''),
     field amd_vbaq amd_vbaq_update (bool_of_optional_f ''amd_vbaq''),
     field amd_enforce_hrd amd_enforce_hrd_update (bool_of_optional_f ''amd_enforce_hrd''),
     with_value (optional_int_f ''amd_max_au_size'') amd_max_au_size apply_max_au_size]"

definition apply_vt :: "vt_t reader" where
  "apply_vt = seq [
     field vt_coder vt_coder_update (int_view_f ''vt_coder'' vt_coder_from_view),
     field vt_allow_sw vt_allow_sw_update (int_view_f ''vt_software'' allow_software_from_view),
     field vt_require_sw vt_require_sw_update (int_view_f ''vt_software'' force_software_from_view),
     field vt_realtime vt_realtime_update (int_view_f ''vt_realtime'' rt_from_view)]"

definition apply_vaapi :: "vaapi_t reader" where
  "apply_vaapi = seq [
     with_string ''vaapi_quality'' (\<lambda>q. pure (\<lambda>s.
       if q \<noteq> [] then s\<lparr> va_quality := vaapi_quality_from_view q (va_quality s) \<rparr> else s)),
     field va_rc_str va_rc_str_update (string_f ''vaapi_rc''),
     pure (\<lambda>s. if va_rc_str s \<noteq> [] then s\<lparr> va_rc := vaapi_rc_from_view (va_rc_str s) (va_rc s) \<rparr> else s),
     field va_blbrc va_blbrc_update (bool_of_optional_f ''vaapi_blbrc''),
     field va_strict_rc_buffer va_strict_rc_buffer_update (bool_f ''vaapi_strict_rc_buffer'')]"

definition set_mode_remapping :: "mode_remapping \<Rightarrow> dd_t \<Rightarrow> dd_t" where
  "set_mode_remapping m s = s\<lparr> dd_mixed := mr_mixed m, dd_resolution_only := mr_resolution_only m,
     dd_refresh_rate_only := mr_refresh_rate_only m \<rparr>"

definition mode_remapping_of :: "dd_t \<Rightarrow> mode_remapping" where
  "mode_remapping_of s = \<lparr> mr_mixed = dd_mixed s, mr_resolution_only = dd_resolution_only s,
     mr_refresh_rate_only = dd_refresh_rate_only s \<rparr>"

definition apply_dd :: "'t config_env \<Rightarrow> dd_t reader" where
  "apply_dd e = seq [
     field dd_output_name dd_output_name_update (string_f ''output_name''),
     field dd_configuration_option dd_configuration_option_update
       (generic_f ''dd_configuration_option'' (\<lambda>w. Inr (config_option_from_view w))),
     field dd_resolution_option dd_resolution_option_update
       (generic_f ''dd_resolution_option'' (\<lambda>w. Inr (resolution_option_from_view w))),
     field dd_manual_resolution dd_manual_resolution_update (string_f ''dd_manual_resolution''),
     field dd_refresh_rate_option dd_refresh_rate_option_update
       (generic_f ''dd_refresh_rate_option'' (\<lambda>w. Inr (refresh_rate_option_from_view w))),
     field dd_manual_refresh_rate dd_manual_refresh_rate_update (string_f ''dd_manual_refresh_rate''),
     field dd_hdr_option dd_hdr_option_update (generic_f ''dd_hdr_option'' (\<lambda>w. Inr (hdr_option_from_view w))),
     with_value (int_between_f ''dd_config_revert_delay'' 0 INT_MAX) (\<lambda>_. - 1)
       (\<lambda>x s. if x \<ge> 0 then s\<lparr> dd_config_revert_delay := x \<rparr> else s),
     field dd_config_revert_on_disconnect dd_config_revert_on_disconnect_update
       (bool_f ''dd_config_revert_on_disconnect''),
     with_value (generic_f ''dd_mode_remapping'' (mode_remapping_from_view e)) mode_remapping_of set_mode_remapping,
     with_value (int_between_f ''dd_wa_hdr_toggle_delay'' 0 3000) (\<lambda>_. 0)
       (\<lambda>x s. s\<lparr> dd_hdr_toggle_delay := x \<rparr>)]"

definition apply_video :: "'t config_env \<Rightarrow> video_t reader" where
  "apply_video e = seq [
     field vi_qp vi_qp_update (int_f ''qp''),
     field vi_virtual_display vi_virtual_display_update (string_f ''virtual_display''),
     field vi_virtual_display_size vi_virtual_display_size_update (string_f ''virtual_display_size''),
     field vi_hevc_mode vi_hevc_mode_update (int_between_f ''hevc_mode'' 0 3),
     field vi_av1_mode vi_av1_mode_update (int_between_f ''av1_mode'' 0 3),
     field vi_min_threads vi_min_threads_update (int_f ''min_threads''),
     field vi_sw vi_sw_update apply_sw,
     field vi_nv vi_nv_update apply_nv,
     field vi_nv_realtime_hags vi_nv_realtime_hags_update (bool_f ''nvenc_realtime_hags''),
     field vi_nv_opengl_vulkan_on_dxgi vi_nv_opengl_vulkan_on_dxgi_update (bool_f ''nvenc_opengl_vulkan_on_dxgi''),
     field vi_nv_high_power_mode vi_nv_high_power_mode_update (bool_f ''nvenc_latency_over_power''),
     pure (\<lambda>s. s\<lparr> vi_nv_legacy := nv_legacy_of (vi_nv s) \<rparr>),
     field vi_qsv vi_qsv_update apply_qsv,
     field vi_amd vi_amd_update apply_amd,
     field vi_vt vi_vt_update apply_vt,
     field vi_vaapi vi_vaapi_update apply_vaapi,
     field vi_vk_tune vi_vk_tune_update (int_f ''vk_tune''),
     field vi_vk_rc_mode vi_vk_rc_mode_update (int_f ''vk_rc_mode''),
     field vi_capture vi_capture_update (string_f ''capture''),
     field vi_encoder vi_encoder_update (string_f ''encoder''),
     field vi_adapter_name vi_adapter_name_update (string_f ''adapter_name''),
     field vi_dd vi_dd_update (apply_dd e),
     field vi_max_bitrate vi_max_bitrate_update (int_f ''max_bitrate''),
     field vi_minimum_fps_target vi_minimum_fps_target_update (double_between_f ''minimum_fps_target'' 0 1000)]"

subsection \<open>The other sections\<close>

text \<open>The origins of the web interface that need no token.\<close>

definition https_prefix :: bytes where "https_prefix = ascii ''https://''"

definition default_csrf_origins :: "bytes list" where
  "default_csrf_origins = [ascii ''https://localhost'', ascii ''https://127.0.0.1'', ascii ''https://[::1]'']"

definition csrf_origin_ok :: "bytes \<Rightarrow> bool" where
  "csrf_origin_ok origin \<longleftrightarrow> 8 < length origin \<and> take 8 origin = https_prefix"

definition set_csrf_origins :: "bytes list \<Rightarrow> sunshine_t \<Rightarrow> sunshine_t" where
  "set_csrf_origins user_csrf_origins s =
     s\<lparr> sn_csrf_allowed_origins := default_csrf_origins @ filter csrf_origin_ok user_csrf_origins \<rparr>"

definition web_ui_origins :: "u16 \<Rightarrow> bytes list" where
  "web_ui_origins port = (let p = to_text (uint (port + 1)) in map (\<lambda>host. host @ ascii '':'' @ p) default_csrf_origins)"

definition apply_stream_modes :: "stream_t reader" where
  "apply_stream_modes = seq [
     with_value (int_between_f ''ping_timeout'' (- 1) INT_MAX) (\<lambda>_. - 1)
       (\<lambda>to s. if to \<noteq> - 1 then s\<lparr> st_ping_timeout := to \<rparr> else s),
     field st_lan_encryption_mode st_lan_encryption_mode_update (int_between_f ''lan_encryption_mode'' 0 2),
     field st_wan_encryption_mode st_wan_encryption_mode_update (int_between_f ''wan_encryption_mode'' 0 2),
     field st_packetsize st_packetsize_update (int_between_f ''packetsize'' 0 PACKETSIZE_MAX)]"

text \<open>The list of applications is copied from the assets when it is missing.\<close>

definition copy_apps :: "'t config_env \<Rightarrow> stream_t reader" where
  "copy_apps e rd s =
     (case ce_exists e (rd_made rd) (st_file_apps s) of
        None \<Rightarrow> Inl Filesystem_Error
      | Some True \<Rightarrow> Inr (rd, s)
      | Some False \<Rightarrow>
          if ce_copy_apps e (st_file_apps s) then Inr (rd\<lparr> rd_made := rd_made rd @ [st_file_apps s] \<rparr>, s)
          else Inl Filesystem_Error)"

definition DBL_MAX :: rat where "DBL_MAX = (2 ^ 53 - 1) * 2 ^ 971"

definition apply_keys :: "input_t reader" where
  "apply_keys = seq [
     field it_keybindings it_keybindings_update (map_int_int_f ''keybindings''),
     pure (\<lambda>s. s\<lparr> it_key_rightalt_to_key_win := False \<rparr>),
     field it_key_rightalt_to_key_win it_key_rightalt_to_key_win_update (bool_f ''key_rightalt_to_key_win''),
     pure (\<lambda>s. if it_key_rightalt_to_key_win s
       then s\<lparr> it_keybindings := map_emplace (it_keybindings s) 0xA5 0x5B \<rparr> else s),
     with_value (int_f ''back_button_timeout'') (\<lambda>_. INT_MIN)
       (\<lambda>to s. if to > INT_MIN then s\<lparr> it_back_button_timeout := to \<rparr> else s),
     with_value (double_between_f ''key_repeat_frequency'' 0 DBL_MAX) (\<lambda>_. Finite 0)
       (\<lambda>f s. case f of Finite q \<Rightarrow> if q > 0 then s\<lparr> it_key_repeat_period := 1 / q \<rparr> else s | _ \<Rightarrow> s),
     with_value (int_f ''key_repeat_delay'') (\<lambda>_. - 1)
       (\<lambda>to s. if to \<ge> 0 then s\<lparr> it_key_repeat_delay := to \<rparr> else s)]"

definition apply_devices :: "'t config_env \<Rightarrow> input_t reader" where
  "apply_devices e = seq [
     field it_gamepad it_gamepad_update (string_restricted_f ''gamepad'' (ce_gamepads e)),
     field it_ds4_back_as_touchpad_click it_ds4_back_as_touchpad_click_update (bool_f ''ds4_back_as_touchpad_click''),
     field it_motion_as_ds4 it_motion_as_ds4_update (bool_f ''motion_as_ds4''),
     field it_touchpad_as_ds4 it_touchpad_as_ds4_update (bool_f ''touchpad_as_ds4''),
     field it_virtualhid_randomize_mac it_virtualhid_randomize_mac_update (bool_f ''virtualhid_randomize_mac''),
     field it_mouse it_mouse_update (bool_f ''mouse''),
     field it_keyboard it_keyboard_update (bool_f ''keyboard''),
     field it_controller it_controller_update (bool_f ''controller''),
     field it_always_send_scancodes it_always_send_scancodes_update (bool_f ''always_send_scancodes''),
     field it_high_resolution_scrolling it_high_resolution_scrolling_update (bool_f ''high_resolution_scrolling''),
     field it_native_pen_touch it_native_pen_touch_update (bool_f ''native_pen_touch'')]"

definition locales :: "bytes list" where
  "locales = map ascii [''bg'', ''cs'', ''de'', ''en'', ''en_GB'', ''en_US'', ''es'', ''fr'', ''hu'', ''it'', ''ja'',
     ''ko'', ''pl'', ''pt'', ''pt_BR'', ''ru'', ''sv'', ''tr'', ''uk'', ''vi'', ''zh'', ''zh_TW'']"

definition log_level_names :: "(string \<times> int) list" where
  "log_level_names = [(''verbose'', 0), (''debug'', 1), (''info'', 2), (''warning'', 3), (''error'', 4),
     (''fatal'', 5), (''none'', 6)]"

definition log_level_from :: "bytes \<Rightarrow> int \<Rightarrow> int" where
  "log_level_from str level =
     (if str = [] then level
      else case convert log_level_names str of
             Some l \<Rightarrow> l
           | None \<Rightarrow> if 0x30 \<le> hd str \<and> hd str < 0x37 then uint (hd str) - 0x30 else level)"

definition flip :: "flag_e \<Rightarrow> flag_e set \<Rightarrow> flag_e set" where
  "flip f flags = (if f \<in> flags then flags - {f} else insert f flags)"

text \<open>The flags of a C string, and \<open>- 1\<close> when a character names none.\<close>

fun apply_flags_loop :: "bytes \<Rightarrow> flag_e set \<Rightarrow> int \<Rightarrow> flag_e set \<times> int" where
  "apply_flags_loop [] flags ret = (flags, ret)"
| "apply_flags_loop (c # line) flags ret =
     (if c = 0 then (flags, ret)
      else if c = 0x30 then apply_flags_loop line (flip PIN_STDIN flags) ret
      else if c = 0x31 then apply_flags_loop line (flip FRESH_STATE flags) ret
      else if c = 0x32 then apply_flags_loop line (flip FORCE_VIDEO_HEADER_REPLACE flags) ret
      else if c = 0x70 then apply_flags_loop line (flip UPNP flags) ret
      else apply_flags_loop line flags (- 1))"

definition apply_flags :: "bytes \<Rightarrow> flag_e set \<Rightarrow> flag_e set \<times> int" where
  "apply_flags line flags = apply_flags_loop line flags 0"

definition PORT_MIN :: int where "PORT_MIN = 1024 + PORT_HTTPS"
definition PORT_MAX :: int where "PORT_MAX = 65535 - RTSP_SETUP_PORT"

definition apply_network :: "sunshine_t reader" where
  "apply_network = seq [
     field sn_notify_pre_releases sn_notify_pre_releases_update (bool_f ''notify_pre_releases''),
     field sn_system_tray sn_system_tray_update (bool_f ''system_tray''),
     with_value (int_between_f ''port'' PORT_MIN PORT_MAX) (\<lambda>s. uint (sn_port s))
       (\<lambda>port s. s\<lparr> sn_port := word_of_int port \<rparr>),
     pure (\<lambda>s. s\<lparr> sn_csrf_allowed_origins := sn_csrf_allowed_origins s @ web_ui_origins (sn_port s) \<rparr>),
     field sn_address_family sn_address_family_update
       (string_restricted_f ''address_family'' [ascii ''ipv4'', ascii ''both'']),
     field sn_bind_address sn_bind_address_update (string_f ''bind_address''),
     with_value (bool_f ''upnp'') (\<lambda>_. False)
       (\<lambda>upnp s. if upnp then s\<lparr> sn_flags := flip UPNP (sn_flags s) \<rparr> else s),
     field sn_locale sn_locale_update (string_restricted_f ''locale'' locales),
     with_string ''min_log_level'' (\<lambda>str. pure (\<lambda>s. s\<lparr> sn_min_log_level := log_level_from str (sn_min_log_level s) \<rparr>)),
     with_string ''flags'' (\<lambda>line. pure (\<lambda>s. s\<lparr> sn_flags := fst (apply_flags line (sn_flags s)) \<rparr>))]"

definition apply_settings :: "'t config_env \<Rightarrow> config_t reader" where
  "apply_settings e = seq [
     of_video (apply_video e),
     of_nvhttp (field nh_pkey nh_pkey_update (path_f e ''pkey'')),
     of_nvhttp (field nh_cert nh_cert_update (path_f e ''cert'')),
     of_nvhttp (field nh_sunshine_name nh_sunshine_name_update (string_f ''sunshine_name'')),
     of_sunshine (field sn_log_file sn_log_file_update (path_f e ''log_path'')),
     of_nvhttp (field nh_file_state nh_file_state_update (path_f e ''file_state'')),
     pure (\<lambda>c. c\<lparr> cf_sunshine := (cf_sunshine c)\<lparr> sn_credentials_file := nh_file_state (cf_nvhttp c) \<rparr> \<rparr>),
     of_sunshine (field sn_credentials_file sn_credentials_file_update (path_f e ''credentials_file'')),
     of_nvhttp (field nh_external_ip nh_external_ip_update (string_f ''external_ip'')),
     of_sunshine (field sn_prep_cmds sn_prep_cmds_update (list_prep_cmd_f e ''global_prep_cmd'')),
     of_audio (field au_sink au_sink_update (string_f ''audio_sink'')),
     of_audio (field au_virtual_sink au_virtual_sink_update (string_f ''virtual_sink'')),
     of_audio (field au_stream au_stream_update (bool_f ''stream_audio'')),
     of_audio (field au_install_steam_drivers au_install_steam_drivers_update (bool_f ''install_steam_audio_drivers'')),
     of_nvhttp (field nh_origin_web_ui_allowed nh_origin_web_ui_allowed_update
       (string_restricted_f ''origin_web_ui_allowed'' [ascii ''pc'', ascii ''lan'', ascii ''wan''])),
     of_sunshine (with_value (string_list_f ''csrf_allowed_origins'') (\<lambda>_. []) set_csrf_origins),
     of_stream apply_stream_modes,
     of_stream (field st_file_apps st_file_apps_update (path_f e ''file_apps'')),
     of_stream (copy_apps e),
     of_stream (field st_fec_percentage st_fec_percentage_update (int_between_f ''fec_percentage'' 1 255)),
     of_input apply_keys,
     of_input (apply_devices e),
     of_sunshine apply_network]"

text \<open>The variables that no reader took, which are warned of.\<close>

definition apply_config :: "'t config_env \<Rightarrow> vars \<Rightarrow> config_t \<Rightarrow> config_error + (bytes \<Rightarrow> bool) \<times> config_t" where
  "apply_config e vars c =
     bind_err (apply_settings e \<lparr> rd_vars = vars, rd_made = [] \<rparr> c)
       (\<lambda>(rd, c'). Inr (\<lambda>name. sn_min_log_level (cf_sunshine c') \<le> 3 \<and> rd_vars rd name \<noteq> None, c'))"

text \<open>What is logged of a variable, and the variables kept for the log of \<open>main\<close>.\<close>

definition redacted_config :: "bytes list" where
  "redacted_config = [ascii ''csrf_allowed_origins'']"

definition log_config_settings :: "vars \<Rightarrow> bool \<Rightarrow> vars \<Rightarrow> vars \<times> vars" where
  "log_config_settings vars save modified =
     ((\<lambda>name. map_option (\<lambda>val. if name \<in> set redacted_config then ascii ''[redacted]'' else val) (vars name)),
      if save then modified ++ vars else modified)"

section \<open>parse\<close>

text \<open>The command line: a result that ends \<open>parse\<close>, or the settings and variables it gives.\<close>

fun parse_args :: "bytes list \<Rightarrow> sunshine_t \<Rightarrow> vars \<Rightarrow> int + sunshine_t \<times> vars" where
  "parse_args [] s cmd_vars = Inr (s, cmd_vars)"
| "parse_args (line # argv) s cmd_vars =
     (if line = ascii ''--help'' then Inl 1
      else if line \<noteq> [] \<and> hd line = 0x2D then
        (if take 1 (tl line) = [0x2D]
         then Inr (s\<lparr> sn_cmd_name := drop 2 line, sn_cmd_argv := argv \<rparr>, cmd_vars)
         else
           let (flags, ret) = apply_flags (tl line) (sn_flags s)
           in if ret \<noteq> 0 then Inl (- 1) else parse_args argv (s\<lparr> sn_flags := flags \<rparr>) cmd_vars)
      else if equals \<notin> set line then parse_args argv (s\<lparr> sn_config_file := line \<rparr>) cmd_vars
      else
        (case snd (parse_option line) of
           None \<Rightarrow> Inl (- 1)
         | Some (name, val) \<Rightarrow> parse_args argv s (cmd_vars(name \<mapsto> val))))"

text \<open>
  What \<open>parse\<close> does: it returns 0 and the configuration is ready, it returns another number and the
  program ends; an error of the JSON library leaves it, the others of \<open>config_error\<close> that are
  not of the file system are undefined. \<open>files\<close> are the contents read, and \<open>prepared\<close> whether the
  directory of the program and the file exist or could be made.
\<close>

datatype parse_outcome = Ready config_t | Exit int | Escaped config_error

definition config_parse :: "'t config_env \<Rightarrow> bool \<Rightarrow> (bytes \<Rightarrow> bytes) \<Rightarrow> bytes list \<Rightarrow> config_t \<Rightarrow> parse_outcome" where
  "config_parse e prepared files argv c =
     (case parse_args argv (cf_sunshine c) Map.empty of
        Inl ret \<Rightarrow> Exit ret
      | Inr (s, cmd_vars) \<Rightarrow>
          let c = c\<lparr> cf_sunshine := s \<rparr>
          in if \<not> prepared then Exit (- 1)
             else
               (case apply_config e (parse_config (files (sn_config_file s)) ++ cmd_vars) c of
                  Inr (_, c') \<Rightarrow> Ready c'
                | Inl Filesystem_Error \<Rightarrow> Exit (- 1)
                | Inl err \<Rightarrow> Escaped err))"

end
