(* ===== verification/Config_Facts.thy ===== *)
theory Config_Facts
  imports Config
begin

text \<open>
  What the configuration is after it was read: every option is taken by exactly the readers that know
  it, every setting stays in its range, and what was written is read again.
\<close>

section \<open>What a reader takes\<close>

named_theorems consumes_rules "the names a reader takes out of the variables"

definition consumes :: "bytes set \<Rightarrow> 's reader \<Rightarrow> bool" where
  "consumes names r \<longleftrightarrow>
     (\<forall>rd s rd' s'. r rd s = Inr (rd', s') \<longrightarrow> rd_vars rd' = rd_vars rd |` (- names))"

definition retains :: "('s \<Rightarrow> bool) \<Rightarrow> 's reader \<Rightarrow> bool" where
  "retains P r \<longleftrightarrow> (\<forall>rd s rd' s'. r rd s = Inr (rd', s') \<longrightarrow> P s \<longrightarrow> P s')"

lemma consumesD: "consumes names r \<Longrightarrow> r rd s = Inr (rd', s') \<Longrightarrow> rd_vars rd' = rd_vars rd |` (- names)"
  unfolding consumes_def by blast

lemma consumesI:
  "(\<And>rd s rd' s'. r rd s = Inr (rd', s') \<Longrightarrow> rd_vars rd' = rd_vars rd |` (- names)) \<Longrightarrow> consumes names r"
  unfolding consumes_def by blast

lemma retainsD: "retains P r \<Longrightarrow> r rd s = Inr (rd', s') \<Longrightarrow> P s \<Longrightarrow> P s'"
  by (auto simp: retains_def)

lemma consumes_eq: "consumes A r \<Longrightarrow> A = B \<Longrightarrow> consumes B r"
  by simp

lemma bind_err_Inr: "bind_err r k = Inr y \<longleftrightarrow> (\<exists>x. r = Inr x \<and> k x = Inr y)"
  by (simp add: bind_err_def split: sum.split)

lemma of_option_Inr: "of_option e r = Inr y \<longleftrightarrow> r = Some y"
  by (simp add: of_option_def split: option.split)

lemma consumes_seq [consumes_rules]:
  "consumes {} (seq [])"
  "consumes A r \<Longrightarrow> consumes B (seq rs) \<Longrightarrow> consumes (A \<union> B) (seq (r # rs))"
proof -
  show "consumes {} (seq [])" by (simp add: consumes_def restrict_map_def)
  show "consumes A r \<Longrightarrow> consumes B (seq rs) \<Longrightarrow> consumes (A \<union> B) (seq (r # rs))"
    by (rule consumesI) (auto simp: bind_err_Inr restrict_map_def fun_eq_iff dest!: consumesD)
qed

lemma consumes_pure [consumes_rules]: "consumes {} (pure f)"
  by (simp add: consumes_def pure_def restrict_map_def)

lemma consumes_field [consumes_rules]: "consumes A r \<Longrightarrow> consumes A (field get upd r)"
  by (auto simp: consumes_def field_def bind_err_Inr)

lemma consumes_with_value [consumes_rules]: "consumes A r \<Longrightarrow> consumes A (with_value r init k)"
  by (auto simp: consumes_def with_value_def bind_err_Inr)

lemma consumes_with_string [consumes_rules]:
  assumes k: "\<And>v. consumes A (k v)"
  shows "consumes (insert (ascii name) A) (with_string name k)"
proof (rule consumesI)
  fix rd s rd' s'
  assume r: "with_string name k rd s = Inr (rd', s')"
  show "rd_vars rd' = rd_vars rd |` (- insert (ascii name) A)"
  proof (cases "rd_vars rd (ascii name)")
    case None
    with r have "k [] rd s = Inr (rd', s')" by (simp add: with_string_def take_string_def)
    from consumesD [OF k this] None show ?thesis by (auto simp: restrict_map_def fun_eq_iff)
  next
    case (Some v)
    with r have "k v (rd\<lparr> rd_vars := (rd_vars rd)(ascii name := None) \<rparr>) s = Inr (rd', s')"
      by (simp add: with_string_def take_string_def)
    from consumesD [OF k this] show ?thesis by (auto simp: restrict_map_def fun_eq_iff)
  qed
qed

lemma consumes_same: "(\<And>rd s rd' s'. r rd s = Inr (rd', s') \<Longrightarrow> rd_vars rd' = rd_vars rd) \<Longrightarrow> consumes {} r"
  by (auto simp: consumes_def restrict_map_def)

lemma consumes_readers [consumes_rules]:
  "consumes {ascii name} (string_f name)"
  "consumes {ascii name} (generic_f name f)"
  "consumes {ascii name} (string_restricted_f name allowed)"
  "consumes {ascii name} (string_list_f name)"
  "consumes {ascii name} (path_f e name)"
  "consumes {ascii name} (int_reader name g)"
  "consumes {ascii name} (int_view_f name h)"
  "consumes {ascii name} (bool_f name)"
  "consumes {ascii name} (bool_of_optional_f name)"
  "consumes {ascii name} (double_f name)"
  "consumes {ascii name} (list_string_f name)"
  "consumes {ascii name} (list_prep_cmd_f e name)"
proof -
  have one: "m(k := None) = m |` (- {k})" "m k = None \<Longrightarrow> m |` (- {k}) = m" for m :: vars and k
    by (auto simp: restrict_map_def fun_eq_iff)
  show "consumes {ascii name} (string_f name)" "consumes {ascii name} (int_reader name g)"
    by (auto simp: consumes_def string_f_def int_reader_def one bind_err_Inr split: option.splits)
  note local = consumes_with_string [OF consumes_same]
  show "consumes {ascii name} (generic_f name f)" "consumes {ascii name} (string_restricted_f name allowed)"
      "consumes {ascii name} (string_list_f name)" "consumes {ascii name} (int_view_f name h)"
      "consumes {ascii name} (bool_f name)" "consumes {ascii name} (bool_of_optional_f name)"
      "consumes {ascii name} (double_f name)" "consumes {ascii name} (list_string_f name)"
      "consumes {ascii name} (list_prep_cmd_f e name)" "consumes {ascii name} (path_f e name)"
    unfolding generic_f_def string_restricted_f_def string_list_f_def int_view_f_def bool_f_def
      bool_of_optional_f_def double_f_def list_string_f_def list_prep_cmd_f_def path_f_def
    by (rule local; auto simp: bind_err_Inr Let_def split: if_splits option.splits bool.splits)+
qed

lemma consumes_int [consumes_rules]:
  "consumes {ascii name} (int_f name)" "consumes {ascii name} (optional_int_f name)"
  by (simp_all add: int_f_def optional_int_f_def consumes_readers)

lemma consumes_then: "consumes A r \<Longrightarrow> (\<And>rd s. r' rd s = bind_err (r rd (init s)) (\<lambda>(rd', x). Inr (rd', k x s))) \<Longrightarrow> consumes A r'"
  by (auto simp: consumes_def bind_err_Inr)

lemma consumes_more [consumes_rules]:
  "consumes {ascii name} (int_between_f name lower upper)"
  "consumes {ascii name} (double_between_f name lo hi)"
  "consumes {ascii name} (map_int_int_f name)"
  "consumes {} (copy_apps e)"
proof -
  show "consumes {ascii name} (int_between_f name lower upper)"
    by (rule consumes_then [OF consumes_int(1) [of name], where init = "\<lambda>s. s"]) (simp add: int_between_f_def)
  show "consumes {ascii name} (double_between_f name lo hi)"
    by (rule consumes_then [OF consumes_readers(10) [of name], where init = "\<lambda>s. s"]) (simp add: double_between_f_def)
  have "consumes {ascii name} (list_int_f name)" for name
    using consumes_readers(11) [of name]
    by (auto simp: consumes_def list_int_f_def bind_err_Inr of_option_Inr split: if_splits)
  then show "consumes {ascii name} (map_int_int_f name)"
    by (rule consumes_then [where init = "\<lambda>s. []"]) (simp add: map_int_int_f_def)
  show "consumes {} (copy_apps e)"
    by (rule consumes_same) (auto simp: copy_apps_def split: option.splits bool.splits if_splits)
qed

section \<open>The options of each section\<close>

text \<open>The names each group of readers takes, and all of them.\<close>

definition sw_options :: "string list" where
  "sw_options = [
    ''sw_preset'', ''sw_tune'']"

definition nv_options :: "string list" where
  "nv_options = [
    ''nvenc_preset'', ''nvenc_vbv_increase'', ''nvenc_spatial_aq'', ''nvenc_twopass'',
    ''nvenc_h264_cavlc'', ''nvenc_split_encode'']"

definition qsv_options :: "string list" where
  "qsv_options = [
    ''qsv_preset'', ''qsv_coder'', ''qsv_slow_hevc'']"

definition amd_options :: "string list" where
  "amd_options = [
    ''amd_quality'', ''amd_rc'', ''amd_coder'', ''amd_usage'', ''amd_preanalysis'', ''amd_vbaq'',
    ''amd_enforce_hrd'', ''amd_max_au_size'']"

definition vt_options :: "string list" where
  "vt_options = [
    ''vt_coder'', ''vt_software'', ''vt_software'', ''vt_realtime'']"

definition vaapi_options :: "string list" where
  "vaapi_options = [
    ''vaapi_quality'', ''vaapi_rc'', ''vaapi_blbrc'', ''vaapi_strict_rc_buffer'']"

definition display_options :: "string list" where
  "display_options = [
    ''output_name'', ''dd_configuration_option'', ''dd_resolution_option'', ''dd_manual_resolution'',
    ''dd_refresh_rate_option'', ''dd_manual_refresh_rate'', ''dd_hdr_option'',
    ''dd_config_revert_delay'', ''dd_config_revert_on_disconnect'', ''dd_mode_remapping'',
    ''dd_wa_hdr_toggle_delay'']"

definition stream_modes_options :: "string list" where
  "stream_modes_options = [
    ''ping_timeout'', ''lan_encryption_mode'', ''wan_encryption_mode'', ''packetsize'']"

definition keys_options :: "string list" where
  "keys_options = [
    ''keybindings'', ''key_rightalt_to_key_win'', ''back_button_timeout'', ''key_repeat_frequency'',
    ''key_repeat_delay'']"

definition devices_options :: "string list" where
  "devices_options = [
    ''gamepad'', ''ds4_back_as_touchpad_click'', ''motion_as_ds4'', ''touchpad_as_ds4'',
    ''virtualhid_randomize_mac'', ''mouse'', ''keyboard'', ''controller'', ''always_send_scancodes'',
    ''high_resolution_scrolling'', ''native_pen_touch'']"

definition network_options :: "string list" where
  "network_options = [
    ''notify_pre_releases'', ''system_tray'', ''port'', ''address_family'', ''bind_address'', ''upnp'',
    ''locale'', ''min_log_level'', ''flags'']"

lemma consumes_sw [consumes_rules]: "consumes (ascii ` set sw_options) apply_sw"
  unfolding apply_sw_def
  by (rule consumes_eq, (rule consumes_rules)+) (auto simp: sw_options_def)

lemma consumes_nv [consumes_rules]: "consumes (ascii ` set nv_options) apply_nv"
  unfolding apply_nv_def
  by (rule consumes_eq, (rule consumes_rules)+) (auto simp: nv_options_def)

lemma consumes_qsv [consumes_rules]: "consumes (ascii ` set qsv_options) apply_qsv"
  unfolding apply_qsv_def
  by (rule consumes_eq, (rule consumes_rules)+) (auto simp: qsv_options_def)

lemma consumes_amd [consumes_rules]: "consumes (ascii ` set amd_options) apply_amd"
  unfolding apply_amd_def
  by (rule consumes_eq, (rule consumes_rules)+) (auto simp: amd_options_def)

lemma consumes_vt [consumes_rules]: "consumes (ascii ` set vt_options) apply_vt"
  unfolding apply_vt_def
  by (rule consumes_eq, (rule consumes_rules)+) (auto simp: vt_options_def)

lemma consumes_vaapi [consumes_rules]: "consumes (ascii ` set vaapi_options) apply_vaapi"
  unfolding apply_vaapi_def
  by (rule consumes_eq, (rule consumes_rules)+) (auto simp: vaapi_options_def)

lemma consumes_dd [consumes_rules]: "consumes (ascii ` set display_options) (apply_dd e)"
  unfolding apply_dd_def
  by (rule consumes_eq, (rule consumes_rules)+) (auto simp: display_options_def)

lemma consumes_stream_modes [consumes_rules]: "consumes (ascii ` set stream_modes_options) apply_stream_modes"
  unfolding apply_stream_modes_def
  by (rule consumes_eq, (rule consumes_rules)+) (auto simp: stream_modes_options_def)

lemma consumes_keys [consumes_rules]: "consumes (ascii ` set keys_options) apply_keys"
  unfolding apply_keys_def
  by (rule consumes_eq, (rule consumes_rules)+) (auto simp: keys_options_def)

lemma consumes_devices [consumes_rules]: "consumes (ascii ` set devices_options) (apply_devices e)"
  unfolding apply_devices_def
  by (rule consumes_eq, (rule consumes_rules)+) (auto simp: devices_options_def)

lemma consumes_network [consumes_rules]: "consumes (ascii ` set network_options) apply_network"
  unfolding apply_network_def
  by (rule consumes_eq, (rule consumes_rules)+) (auto simp: network_options_def)

definition video_options :: "string list" where
  "video_options = [''qp'', ''virtual_display'', ''virtual_display_size'', ''hevc_mode'', ''av1_mode'', ''min_threads'',
     ''nvenc_realtime_hags'', ''nvenc_opengl_vulkan_on_dxgi'', ''nvenc_latency_over_power'', ''vk_tune'', ''vk_rc_mode'',
     ''capture'', ''encoder'', ''adapter_name'', ''max_bitrate'', ''minimum_fps_target''] @ sw_options @ nv_options @
     qsv_options @ amd_options @ vt_options @ vaapi_options @ display_options"

definition known_options :: "string list" where
  "known_options = [''pkey'', ''cert'', ''sunshine_name'', ''log_path'', ''file_state'', ''credentials_file'',
     ''external_ip'', ''global_prep_cmd'', ''audio_sink'', ''virtual_sink'', ''stream_audio'',
     ''install_steam_audio_drivers'', ''origin_web_ui_allowed'', ''csrf_allowed_origins'', ''file_apps'',
     ''fec_percentage''] @ video_options @ stream_modes_options @ keys_options @ devices_options @ network_options"

lemma consumes_video [consumes_rules]: "consumes (ascii ` set video_options) (apply_video e)"
  unfolding apply_video_def
  by (rule consumes_eq, (rule consumes_rules)+) (auto simp: video_options_def)

lemma consumes_settings: "consumes (ascii ` set known_options) (apply_settings e)"
  unfolding apply_settings_def
  by (rule consumes_eq, (rule consumes_rules)+) (auto simp: known_options_def)

section \<open>What a reader retains\<close>

lemma retainsI: "(\<And>rd s rd' s'. r rd s = Inr (rd', s') \<Longrightarrow> P s \<Longrightarrow> P s') \<Longrightarrow> retains P r"
  unfolding retains_def by blast

lemma retains_seq: "retains P (seq [])" "retains P r \<Longrightarrow> retains P (seq rs) \<Longrightarrow> retains P (seq (r # rs))"
  unfolding retains_def by (auto simp: bind_err_Inr)

lemma retains_pure: "(\<And>s. P s \<Longrightarrow> P (f s)) \<Longrightarrow> retains P (pure f)"
  by (simp add: retains_def pure_def)

lemma retains_field:
  "retains Q r \<Longrightarrow> (\<And>s. P s \<Longrightarrow> Q (get s)) \<Longrightarrow> (\<And>s x. P s \<Longrightarrow> Q x \<Longrightarrow> P (upd (\<lambda>_. x) s)) \<Longrightarrow>
     retains P (field get upd r)"
  unfolding retains_def by (auto simp: field_def bind_err_Inr)

lemma retains_other: "(\<And>s x. P s \<Longrightarrow> P (upd (\<lambda>_. x) s)) \<Longrightarrow> retains P (field get upd r)"
  unfolding retains_def by (auto simp: field_def bind_err_Inr)

lemma retains_with_value:
  "retains Q r \<Longrightarrow> (\<And>s. P s \<Longrightarrow> Q (init s)) \<Longrightarrow> (\<And>s x. P s \<Longrightarrow> Q x \<Longrightarrow> P (k x s)) \<Longrightarrow> retains P (with_value r init k)"
  unfolding retains_def by (auto simp: with_value_def bind_err_Inr)

lemma retains_with_string: "(\<And>v. retains P (k v)) \<Longrightarrow> retains P (with_string name k)"
  unfolding retains_def by (auto simp: with_string_def split: prod.splits)

lemma retains_int_between: "retains (\<lambda>x. lower \<le> x \<and> x \<le> upper) (int_between_f name lower upper)"
  unfolding retains_def by (auto simp: int_between_f_def bind_err_Inr split: if_splits)

lemma retains_int_between_or: "retains (\<lambda>x. x = d \<or> lower \<le> x \<and> x \<le> upper) (int_between_f name lower upper)"
  unfolding retains_def by (auto simp: int_between_f_def bind_err_Inr split: if_splits)

lemma retains_double_between: "retains (in_range lower upper) (double_between_f name lower upper)"
  unfolding retains_def by (auto simp: double_between_f_def bind_err_Inr split: if_splits)

lemma retains_restricted: "retains (\<lambda>x. x \<in> set allowed) (string_restricted_f name allowed)"
  unfolding retains_def string_restricted_f_def with_string_def by (auto split: prod.splits if_splits)

lemma retains_True: "retains (\<lambda>_. True) r"
  by (simp add: retains_def)

section \<open>Ranges\<close>

definition nvenc_ok :: "nvenc_config \<Rightarrow> bool" where
  "nvenc_ok s \<longleftrightarrow> (1 \<le> nv_quality_preset s \<and> nv_quality_preset s \<le> 7) \<and>
     (0 \<le> nv_vbv_percentage_increase s \<and> nv_vbv_percentage_increase s \<le> 400)"

definition dd_ok :: "dd_t \<Rightarrow> bool" where
  "dd_ok s \<longleftrightarrow> 0 \<le> dd_config_revert_delay s \<and> 0 \<le> dd_hdr_toggle_delay s \<and> dd_hdr_toggle_delay s \<le> 3000"

definition video_ok :: "video_t \<Rightarrow> bool" where
  "video_ok s \<longleftrightarrow> (0 \<le> vi_hevc_mode s \<and> vi_hevc_mode s \<le> 3) \<and> (0 \<le> vi_av1_mode s \<and> vi_av1_mode s \<le> 3) \<and>
     nvenc_ok (vi_nv s) \<and> dd_ok (vi_dd s) \<and> in_range 0 1000 (vi_minimum_fps_target s)"

definition stream_ok :: "stream_t \<Rightarrow> bool" where
  "stream_ok s \<longleftrightarrow> 0 \<le> st_ping_timeout s \<and> (1 \<le> st_fec_percentage s \<and> st_fec_percentage s \<le> 255) \<and>
     (0 \<le> st_lan_encryption_mode s \<and> st_lan_encryption_mode s \<le> 2) \<and>
     (0 \<le> st_wan_encryption_mode s \<and> st_wan_encryption_mode s \<le> 2) \<and>
     (0 \<le> st_packetsize s \<and> st_packetsize s \<le> PACKETSIZE_MAX)"

definition input_ok :: "bytes list \<Rightarrow> input_t \<Rightarrow> bool" where
  "input_ok gamepads s \<longleftrightarrow> 0 \<le> it_key_repeat_delay s \<and> 0 < it_key_repeat_period s \<and> it_gamepad s \<in> set gamepads"

definition sunshine_ok :: "sunshine_t \<Rightarrow> bool" where
  "sunshine_ok s \<longleftrightarrow> (PORT_MIN \<le> uint (sn_port s) \<and> uint (sn_port s) \<le> PORT_MAX) \<and>
     (0 \<le> sn_min_log_level s \<and> sn_min_log_level s \<le> 6) \<and> sn_locale s \<in> set locales \<and>
     sn_address_family s \<in> set [ascii ''ipv4'', ascii ''both''] \<and> list_all csrf_origin_ok (sn_csrf_allowed_origins s)"

definition config_ok :: "'t config_env \<Rightarrow> config_t \<Rightarrow> bool" where
  "config_ok e c \<longleftrightarrow> video_ok (cf_video c) \<and> stream_ok (cf_stream c) \<and>
     nh_origin_web_ui_allowed (cf_nvhttp c) \<in> set [ascii ''pc'', ascii ''lan'', ascii ''wan''] \<and>
     input_ok (ce_gamepads e) (cf_input c) \<and> sunshine_ok (cf_sunshine c)"

lemma retains_nv: "retains nvenc_ok apply_nv"
  unfolding apply_nv_def
  by (intro retains_seq retains_field [OF retains_int_between] retains_other) (simp_all add: nvenc_ok_def)

lemma retains_dd: "retains dd_ok (apply_dd e)"
  unfolding apply_dd_def
  by (intro retains_seq retains_other retains_with_value [OF retains_int_between_or [where d = "- 1"]]
      retains_with_value [OF retains_int_between] retains_with_value [OF retains_True])
    (auto simp: dd_ok_def set_mode_remapping_def)

lemma retains_video: "retains video_ok (apply_video e)"
  unfolding apply_video_def
  by (intro retains_seq retains_pure retains_field [OF retains_int_between] retains_field [OF retains_nv]
      retains_field [OF retains_dd] retains_field [OF retains_double_between] retains_other) (simp_all add: video_ok_def)

lemma retains_stream_modes: "retains stream_ok apply_stream_modes"
  unfolding apply_stream_modes_def
  by (intro retains_seq retains_field [OF retains_int_between]
      retains_with_value [OF retains_int_between_or [where d = "- 1"]]) (auto simp: stream_ok_def)

lemma retains_copy_apps: "retains P (copy_apps e)"
  by (rule retainsI) (auto simp: copy_apps_def split: option.splits bool.splits if_splits)

lemma retains_keys: "retains (input_ok gamepads) apply_keys"
  unfolding apply_keys_def
  by (intro retains_seq retains_pure retains_with_value [OF retains_True] retains_other)
    (auto simp: input_ok_def split: double.split)

lemma retains_devices: "retains (input_ok (ce_gamepads e)) (apply_devices e)"
  unfolding apply_devices_def
  by (intro retains_seq, rule retains_field [OF retains_restricted])
    (auto simp: input_ok_def intro!: retains_seq retains_other)

lemma csrf_defaults_ok: "list_all csrf_origin_ok default_csrf_origins"
  by (simp add: default_csrf_origins_def csrf_origin_ok_def https_prefix_def ascii_def)

lemma csrf_origin_more: "csrf_origin_ok host \<Longrightarrow> csrf_origin_ok (host @ tail)"
  by (auto simp: csrf_origin_ok_def)

lemma web_ui_origins_ok: "list_all csrf_origin_ok (web_ui_origins port)"
  using csrf_defaults_ok by (auto simp: web_ui_origins_def list_all_iff Let_def intro: csrf_origin_more)

lemma log_level_range: "0 \<le> l \<Longrightarrow> l \<le> 6 \<Longrightarrow> 0 \<le> log_level_from t l \<and> log_level_from t l \<le> 6"
proof -
  assume l: "0 \<le> l" "l \<le> 6"
  have table: "convert log_level_names t = Some x \<Longrightarrow> 0 \<le> x \<and> x \<le> 6" for x
    by (auto simp: convert_def log_level_names_def split: if_splits)
  have digit: "c < 0x37 \<Longrightarrow> uint c \<le> 54" "0x30 \<le> c \<Longrightarrow> 48 \<le> uint c" for c :: u8
    by (simp_all add: word_less_def word_le_def)
  show ?thesis
    using l table digit [of "hd t"] by (auto simp: log_level_from_def split: option.split)
qed

lemma port_word: "PORT_MIN \<le> p \<Longrightarrow> p \<le> PORT_MAX \<Longrightarrow> uint (word_of_int p :: u16) = p"
  by (simp add: unsigned_of_int take_bit_eq_mod PORT_MIN_def PORT_MAX_def PORT_HTTPS_def RTSP_SETUP_PORT_def)

lemma retains_network: "retains sunshine_ok apply_network"
  unfolding apply_network_def
proof (intro retains_seq)
  show "retains sunshine_ok (with_value (int_between_f ''port'' PORT_MIN PORT_MAX) (\<lambda>s. uint (sn_port s))
      (\<lambda>port s. s\<lparr> sn_port := word_of_int port \<rparr>))"
    by (rule retains_with_value [OF retains_int_between]) (auto simp: sunshine_ok_def port_word)
  show "retains sunshine_ok (pure (\<lambda>s. s\<lparr> sn_csrf_allowed_origins := sn_csrf_allowed_origins s @ web_ui_origins (sn_port s) \<rparr>))"
    by (rule retains_pure) (simp add: sunshine_ok_def web_ui_origins_ok)
  show "retains sunshine_ok (field sn_address_family sn_address_family_update
      (string_restricted_f ''address_family'' [ascii ''ipv4'', ascii ''both'']))"
      "retains sunshine_ok (field sn_locale sn_locale_update (string_restricted_f ''locale'' locales))"
    by (rule retains_field [OF retains_restricted]; simp add: sunshine_ok_def)+
qed (auto simp: sunshine_ok_def log_level_range intro!: retains_other retains_with_value [OF retains_True]
      retains_with_string retains_pure)

definition nvhttp_ok :: "nvhttp_t \<Rightarrow> bool" where
  "nvhttp_ok s \<longleftrightarrow> nh_origin_web_ui_allowed s \<in> set [ascii ''pc'', ascii ''lan'', ascii ''wan'']"

lemma config_ok_nvhttp:
  "config_ok e c \<longleftrightarrow> video_ok (cf_video c) \<and> stream_ok (cf_stream c) \<and> nvhttp_ok (cf_nvhttp c) \<and>
     input_ok (ce_gamepads e) (cf_input c) \<and> sunshine_ok (cf_sunshine c)"
  by (simp add: config_ok_def nvhttp_ok_def)

lemma retains_section:
  "retains video_ok r1 \<Longrightarrow> retains (config_ok e) (of_video r1)"
  "retains stream_ok r2 \<Longrightarrow> retains (config_ok e) (of_stream r2)"
  "retains nvhttp_ok r3 \<Longrightarrow> retains (config_ok e) (of_nvhttp r3)"
  "retains (input_ok (ce_gamepads e)) r4 \<Longrightarrow> retains (config_ok e) (of_input r4)"
  "retains sunshine_ok r5 \<Longrightarrow> retains (config_ok e) (of_sunshine r5)"
  "retains (config_ok e) (of_audio r6)"
  by ((rule retains_field, assumption; simp add: config_ok_nvhttp) | (rule retains_other, simp add: config_ok_nvhttp))+

lemma retains_settings: "retains (config_ok e) (apply_settings e)"
  unfolding apply_settings_def
proof (intro retains_seq retains_section)
  show "retains nvhttp_ok (field nh_origin_web_ui_allowed nh_origin_web_ui_allowed_update
      (string_restricted_f ''origin_web_ui_allowed'' [ascii ''pc'', ascii ''lan'', ascii ''wan'']))"
    by (rule retains_field [OF retains_restricted]) (simp_all add: nvhttp_ok_def)
  show "retains sunshine_ok (with_value (string_list_f ''csrf_allowed_origins'') (\<lambda>_. []) set_csrf_origins)"
    using csrf_defaults_ok
    by (intro retains_with_value [OF retains_True]) (auto simp: sunshine_ok_def set_csrf_origins_def list_all_iff)
  show "retains stream_ok (field st_fec_percentage st_fec_percentage_update (int_between_f ''fec_percentage'' 1 255))"
    by (rule retains_field [OF retains_int_between]) (simp_all add: stream_ok_def)
qed (rule retains_video retains_stream_modes retains_copy_apps retains_keys retains_devices retains_network
    | (rule retains_other, simp add: nvhttp_ok_def stream_ok_def sunshine_ok_def)
    | (rule retains_pure, simp add: config_ok_def sunshine_ok_def))+

lemma config_ok_init:
  assumes "ce_gamepads e \<noteq> []"
  shows "config_ok e (config_init e host_name)"
  using assms
  by (simp add: config_ok_def config_init_def video_init_def video_ok_def nvenc_config_init_def nvenc_ok_def dd_init_def
      dd_ok_def in_range_def stream_init_def stream_ok_def ENCRYPTION_MODE_NEVER_def
      ENCRYPTION_MODE_OPPORTUNISTIC_def PACKETSIZE_MAX_def nvhttp_init_def input_init_def input_ok_def
      sunshine_init_def sunshine_ok_def PORT_MIN_def PORT_MAX_def PORT_HTTPS_def RTSP_SETUP_PORT_def locales_def)

lemma parse_args_ok: "parse_args argv s vars = Inr (s', vars') \<Longrightarrow> sunshine_ok s \<Longrightarrow> sunshine_ok s'"
proof (induction argv arbitrary: s vars)
  case (Cons line argv)
  have keep: "sunshine_ok (s\<lparr> sn_cmd_name := n, sn_cmd_argv := a \<rparr>) = sunshine_ok s"
      "sunshine_ok (s\<lparr> sn_flags := f \<rparr>) = sunshine_ok s" "sunshine_ok (s\<lparr> sn_config_file := t \<rparr>) = sunshine_ok s" for n a f t
    by (simp_all add: sunshine_ok_def)
  have IH: "parse_args argv u v = Inr (s', vars') \<Longrightarrow> sunshine_ok u \<Longrightarrow> sunshine_ok s'" for u v
    by (rule Cons.IH)
  have flags: "sunshine_ok (s\<lparr> sn_flags := f \<rparr>)" "sunshine_ok (s\<lparr> sn_config_file := t \<rparr>)" for f t
    using Cons.prems by (simp_all add: keep)
  from Cons.prems show ?case
    by (auto simp: keep Let_def dest: IH [OF _ flags(1)] IH [OF _ flags(2)] IH split: if_splits option.splits prod.splits)
qed simp

lemma parse_ok:
  assumes "ce_gamepads e \<noteq> []" and r: "config_parse e prepared files argv (config_init e host_name) = Ready c"
  shows "config_ok e c"
proof -
  let ?c = "config_init e host_name"
  obtain s vars where a: "parse_args argv (cf_sunshine ?c) Map.empty = Inr (s, vars)"
    using r by (cases "parse_args argv (cf_sunshine ?c) Map.empty") (auto simp: config_parse_def)
  have ok: "config_ok e ?c" by (rule config_ok_init [OF assms(1)])
  then have "sunshine_ok s" by (intro parse_args_ok [OF a]) (simp add: config_ok_def)
  with ok have start: "config_ok e (?c\<lparr> cf_sunshine := s \<rparr>)" by (simp add: config_ok_def)
  from r obtain w where "apply_config e (parse_config (files (sn_config_file s)) ++ vars) (?c\<lparr> cf_sunshine := s \<rparr>) = Inr (w, c)"
    by (auto simp: config_parse_def a Let_def split: if_splits sum.splits config_error.splits)
  then obtain rd where "apply_settings e \<lparr> rd_vars = parse_config (files (sn_config_file s)) ++ vars, rd_made = [] \<rparr>
      (?c\<lparr> cf_sunshine := s \<rparr>) = Inr (rd, c)"
    by (auto simp: apply_config_def bind_err_Inr)
  from retainsD [OF retains_settings this start] show ?thesis .
qed

section \<open>An example\<close>

lemmas reader_defs = field_def with_string_def take_string_def string_f_def generic_f_def string_restricted_f_def
  string_list_f_def path_f_def int_reader_def int_f_def optional_int_f_def int_view_f_def int_between_f_def bool_f_def
  bool_of_optional_f_def double_f_def double_between_f_def list_string_f_def list_prep_cmd_f_def list_int_f_def
  map_int_int_f_def with_value_def pure_def bind_err_def

lemmas section_defs = apply_settings_def apply_video_def apply_sw_def apply_nv_def apply_qsv_def apply_amd_def
  apply_vt_def apply_vaapi_def apply_dd_def apply_stream_modes_def copy_apps_def apply_keys_def apply_devices_def
  apply_network_def

lemmas init_defs = config_init_def video_init_def nvenc_config_init_def amd_init_def dd_init_def audio_init_def
  stream_init_def nvhttp_init_def input_init_def sunshine_init_def

text \<open>A file of three lines on a system where every path exists; no JSON text is well formed.\<close>

definition toy_config_env :: "unit config_env" where
  "toy_config_env = \<lparr> ce_read_json = (\<lambda>_. None), ce_get_child = (\<lambda>_ _. None), ce_get_string = (\<lambda>_ _. None),
     ce_get_bool = (\<lambda>_ _. None), ce_appdata = ascii ''/home'', ce_exists = (\<lambda>_ _. Some True),
     ce_create_directories = (\<lambda>_. False), ce_copy_apps = (\<lambda>_. False), ce_gamepads = [ascii ''auto''] \<rparr>"

definition toy_lines :: "(bytes \<times> bytes) list" where
  "toy_lines = [(ascii ''port'', ascii ''50000''), (ascii ''fec_percentage'', ascii ''300''), (ascii ''prot'', ascii ''1'')]"

definition toy_parse :: "(bytes \<times> bytes) list \<Rightarrow> parse_outcome" where
  "toy_parse kvs = config_parse toy_config_env True (\<lambda>_. config_stream kvs) [] (config_init toy_config_env (ascii ''host''))"

definition toy_config :: config_t where
  "toy_config = (case toy_parse toy_lines of Ready c \<Rightarrow> c | _ \<Rightarrow> config_init toy_config_env [])"

lemma toy_numbers: "parse_config_integer (ascii ''50000'') = Some 50000" "parse_config_integer (ascii ''300'') = Some 300"
  by code_simp+

lemma toy_vars:
  "parse_config (config_stream toy_lines) =
     [ascii ''prot'' \<mapsto> ascii ''1'', ascii ''fec_percentage'' \<mapsto> ascii ''300'', ascii ''port'' \<mapsto> ascii ''50000'']"
proof -
  have "\<forall>(k, v) \<in> set toy_lines. name_ok k \<and> value_ok v" by code_simp
  then have "parse_config (config_stream toy_lines) = map_of toy_lines"
    by (simp add: parse_config_def parse_config_from_stream)
  then show ?thesis by (simp add: toy_lines_def)
qed

lemma toy_apply:
  "\<exists>unknown c. apply_config toy_config_env [ascii ''prot'' \<mapsto> ascii ''1'', ascii ''fec_percentage'' \<mapsto> ascii ''300'',
      ascii ''port'' \<mapsto> ascii ''50000''] (config_init toy_config_env (ascii ''host'')) = Inr (unknown, c) \<and>
    unknown (ascii ''prot'') \<and> sn_port (cf_sunshine c) = 50000 \<and> st_fec_percentage (cf_stream c) = 20 \<and>
    \<not> it_native_pen_touch (cf_input c)"
  by (simp add: apply_config_def section_defs reader_defs toy_config_env_def init_defs toy_numbers Let_def
      in_range_def PORT_MIN_def PORT_MAX_def PORT_HTTPS_def RTSP_SETUP_PORT_def of_option_def set_csrf_origins_def
      log_level_from_def)

lemma toy_ready:
  "toy_parse toy_lines = Ready toy_config" "sn_port (cf_sunshine toy_config) = 50000"
  "st_fec_percentage (cf_stream toy_config) = 20" "\<not> it_native_pen_touch (cf_input toy_config)"
proof -
  have "\<exists>c. toy_parse toy_lines = Ready c \<and> sn_port (cf_sunshine c) = 50000 \<and>
      st_fec_percentage (cf_stream c) = 20 \<and> \<not> it_native_pen_touch (cf_input c)"
    using toy_apply by (auto simp: toy_parse_def config_parse_def toy_vars)
  then show "toy_parse toy_lines = Ready toy_config" "sn_port (cf_sunshine toy_config) = 50000"
      "st_fec_percentage (cf_stream toy_config) = 20" "\<not> it_native_pen_touch (cf_input toy_config)"
    by (auto simp: toy_config_def)
qed

section \<open>Properties\<close>



text \<open>
  No port of the family wraps: with the base port that \<open>parse\<close> leaves, \<open>map_port\<close> gives the base
  plus the offset for every offset from the HTTPS port to the RTSP port. The lower bound of the option
  uses the offset with the wrong sign, so the HTTPS port may be as low as 1014.
\<close>
theorem config_ports:
  assumes "ce_gamepads e \<noteq> []" and "config_parse e prepared files argv (config_init e host_name) = Ready c"
    and "PORT_HTTPS \<le> off" and "off \<le> RTSP_SETUP_PORT"
  shows "uint (map_port (sn_port (cf_sunshine c)) off) = uint (sn_port (cf_sunshine c)) + off \<and>
    1014 \<le> uint (map_port (sn_port (cf_sunshine c)) off)"
  using parse_ok [OF assms(1,2)] assms(3,4)
  by (simp add: config_ok_def sunshine_ok_def map_port_wraps PORT_MIN_def PORT_MAX_def PORT_HTTPS_def RTSP_SETUP_PORT_def)

theorem config_ports_witness:
  "uint (map_port (sn_port (cf_sunshine toy_config)) PORT_HTTPS) = 49995"
  using config_ports [of toy_config_env True "\<lambda>_. config_stream toy_lines" "[]" "ascii ''host''" toy_config PORT_HTTPS] toy_ready
  by (simp add: toy_parse_def toy_config_env_def PORT_HTTPS_def RTSP_SETUP_PORT_def)

text \<open>
  An option is warned of as unrecognized exactly when no reader knows its name, and every known
  option is taken: a misspelt name is never silently accepted, unless the log level hides the warning.
\<close>
theorem unrecognized_options:
  assumes "apply_config e vars c = Inr (unknown, c')" and "sn_min_log_level (cf_sunshine c') \<le> 3"
  shows "unknown name \<longleftrightarrow> name \<in> dom vars \<and> name \<notin> ascii ` set known_options"
proof -
  from assms obtain rd where "apply_settings e \<lparr> rd_vars = vars, rd_made = [] \<rparr> c = Inr (rd, c')"
      and u: "unknown = (\<lambda>name. sn_min_log_level (cf_sunshine c') \<le> 3 \<and> rd_vars rd name \<noteq> None)"
    by (auto simp: apply_config_def bind_err_Inr)
  from consumesD [OF consumes_settings this(1)] u assms(2) show ?thesis
    by (auto simp: restrict_map_def)
qed

theorem unrecognized_options_witness:
  "\<exists>unknown c. apply_config toy_config_env [ascii ''prot'' \<mapsto> ascii ''1'', ascii ''fec_percentage'' \<mapsto> ascii ''300'',
      ascii ''port'' \<mapsto> ascii ''50000''] (config_init toy_config_env (ascii ''host'')) = Inr (unknown, c) \<and>
    unknown (ascii ''prot'') \<and> \<not> unknown (ascii ''port'')"
proof -
  obtain unknown c where a: "apply_config toy_config_env [ascii ''prot'' \<mapsto> ascii ''1'',
      ascii ''fec_percentage'' \<mapsto> ascii ''300'', ascii ''port'' \<mapsto> ascii ''50000'']
      (config_init toy_config_env (ascii ''host'')) = Inr (unknown, c)"
    and l: "sn_min_log_level (cf_sunshine c) \<le> 3" and u: "unknown (ascii ''prot'')"
    using toy_apply by (auto simp: apply_config_def bind_err_Inr)
  from unrecognized_options [OF a l, of "ascii ''port''"] have "\<not> unknown (ascii ''port'')"
    by (simp add: known_options_def network_options_def)
  with a u show ?thesis by blast
qed

text \<open>
  VideoToolbox is never told to require software encoding: both switches read the one option
  \<open>vt_software\<close>, and the first reader takes it, so \<open>forced\<close> means no more than \<open>allowed\<close>.
\<close>
theorem vt_require_sw_never_set:
  assumes "apply_vt rd s = Inr (rd', s')"
  shows "vt_require_sw s' = vt_require_sw s \<and>
    (rd_vars rd (ascii ''vt_software'') = Some (ascii ''forced'') \<longrightarrow> vt_allow_sw s' = 1)"
  using assms
  by (auto simp: apply_vt_def bind_err_Inr field_def int_view_f_def with_string_def take_string_def
      allow_software_from_view_def ascii_def split: option.splits if_splits)

theorem vt_require_sw_never_set_witness:
  "\<exists>rd' s'. apply_vt \<lparr> rd_vars = [ascii ''vt_software'' \<mapsto> ascii ''forced''], rd_made = [] \<rparr> (vi_vt video_init) =
      Inr (rd', s') \<and> vt_require_sw s' = 0 \<and> vt_allow_sw s' = 1"
proof -
  let ?rd = "\<lparr> rd_vars = [ascii ''vt_software'' \<mapsto> ascii ''forced''], rd_made = [] \<rparr>"
  obtain rd' s' where r: "apply_vt ?rd (vi_vt video_init) = Inr (rd', s')"
    by (simp add: apply_vt_def bind_err_def field_def int_view_f_def with_string_def take_string_def)
  from vt_require_sw_never_set [OF r] show ?thesis using r by (auto simp: video_init_def)
qed

text \<open>
  The web interface reads back what it saved: a file of lines \<open>name = value\<close> parses to these
  values, the first of a name, when no name and no value holds a comment or the end of a line.
\<close>
theorem config_file_round_trip:
  assumes "\<forall>(k, v) \<in> set kvs. name_ok k \<and> value_ok v"
  shows "parse_config (config_stream kvs) = map_of kvs"
  using parse_config_from_stream [OF assms] by (simp add: parse_config_def)

theorem config_file_round_trip_witness:
  "parse_config (config_stream [(ascii ''keybindings'', ascii ''[0x10, 0xA0]''), (ascii ''port'', ascii ''47989'')]) (ascii ''keybindings'') =
     Some (ascii ''[0x10, 0xA0]'')"
proof -
  have "\<forall>(k, v) \<in> set [(ascii ''keybindings'', ascii ''[0x10, 0xA0]''), (ascii ''port'', ascii ''47989'')].
      name_ok k \<and> value_ok v" by code_simp
  from config_file_round_trip [OF this] show ?thesis by simp
qed

text \<open>
  (C36) The copying loop of \<open>to_string\<close> is the automaton that drops a comment up to the end of its line.
\<close>
theorem to_string_drops_comments: "to_string text = without_comments False text"
  by (rule to_string_eq)

text \<open>
  A flag of the command line or the file is on afterwards exactly when it was on and its letter
  occurs an even number of times, or it was off and its letter occurs an odd number of times; the result
  is refused exactly when another character occurs.
\<close>
theorem flags_toggle:
  assumes "0 \<notin> set line"
  shows "(UPNP \<in> fst (apply_flags line flags) \<longleftrightarrow> (UPNP \<in> flags) \<noteq> odd (length (filter (\<lambda>c. c = 0x70) line))) \<and>
    (snd (apply_flags line flags) = - 1 \<longleftrightarrow> \<not> set line \<subseteq> {0x30, 0x31, 0x32, 0x70})"
proof -
  have f: "0 \<notin> set line \<Longrightarrow> UPNP \<in> fst (apply_flags_loop line flags r) \<longleftrightarrow>
      (UPNP \<in> flags) \<noteq> odd (length (filter (\<lambda>c. c = 0x70) line))" for r
    by (induction line flags r rule: apply_flags_loop.induct) (auto simp: flip_def)
  have r: "0 \<notin> set line \<Longrightarrow> snd (apply_flags_loop line flags r) =
      (if set line \<subseteq> {0x30, 0x31, 0x32, 0x70} then r else - 1)" for r
    by (induction line flags r rule: apply_flags_loop.induct) auto
  show ?thesis using f [OF assms] r [OF assms, of 0] by (auto simp: apply_flags_def)
qed

text \<open>The witness: the flag \<open>p\<close> and the option \<open>upnp\<close> together leave the port mapping off.\<close>

theorem flags_toggle_witness:
  "UPNP \<notin> fst (apply_flags (ascii ''p1p'') {}) \<and> UPNP \<in> fst (apply_flags (ascii ''p'') {})"
  using flags_toggle [of "ascii ''p1p''" "{}"] flags_toggle [of "ascii ''p''" "{}"] by (simp add: ascii_def)

end
