(* ===== verification/Web_Auth.thy ===== *)
theory Web_Auth
  imports Config_Options Launch
begin

text \<open>
  Who may use the web interface (\<open>src/confighttp.cpp\<close>, \<open>src/httpcommon.cpp\<close>): the check of address,
  user name and password, the tokens against cross-site requests, the content type, and the file of
  the credentials. Base64, the hash, the texts of addresses and JSON belong to other libraries and are
  parameters. Every answer written is kept, since a handler may write none or more than one; an
  exception that leaves a handler is part of its result.
\<close>

section \<open>Requests and answers\<close>

record web_request =
  wr_header :: "string \<Rightarrow> bytes option"
  wr_query :: "string \<Rightarrow> bytes option"
  wr_address :: bytes
  wr_content :: bytes
  wr_match :: bytes

datatype web_answer =
    Forbidden
  | Unauthorized
  | Redirected bytes
  | Bad_Request bytes
  | Not_Found bytes
  | Token bytes
  | Status bool
  | Content bytes
  | Clients "(bytes \<times> bytes \<times> bool) list"
  | Options vars

record 'j web_lib =
  wl_make_address :: "bytes \<Rightarrow> address"
  wl_base64 :: "bytes \<Rightarrow> bytes"
  wl_hash :: "bytes \<Rightarrow> bytes"
  wl_parse :: "bytes \<Rightarrow> 'j option"
  wl_items :: "'j \<Rightarrow> (bytes \<times> 'j) list option"
  wl_null :: "'j \<Rightarrow> bool"
  wl_string :: "'j \<Rightarrow> bytes option"
  wl_dump :: "'j \<Rightarrow> bytes"
  wl_value :: "'j \<Rightarrow> string \<Rightarrow> bytes \<Rightarrow> bytes option"
  wl_value_bool :: "'j \<Rightarrow> string \<Rightarrow> bool \<Rightarrow> bool option"
  wl_int :: "'j \<Rightarrow> string \<Rightarrow> int option"
  wl_member_empty :: "'j \<Rightarrow> string \<Rightarrow> bool option"
  wl_erase :: "'j \<Rightarrow> string \<Rightarrow> 'j"
  wl_apps :: "'j \<Rightarrow> 'j list option"
  wl_put_apps :: "'j \<Rightarrow> 'j list \<Rightarrow> 'j"
  wl_name :: "'j \<Rightarrow> bytes option"
  wl_image :: "'j \<Rightarrow> bytes option option"

section \<open>Credentials\<close>

text \<open>
  The JSON file: absent, unreadable, or the three entries with the rest of the tree left alone. The
  credentials in use are \<open>config::sunshine\<close>.
\<close>

record user_creds =
  uc_username :: bytes
  uc_password :: bytes
  uc_salt :: bytes

record creds_tree =
  ct_username :: "bytes option"
  ct_password :: "bytes option"
  ct_salt :: "bytes option"

datatype creds_file = Absent | Unreadable | Readable creds_tree

definition hash_text :: "'j web_lib \<Rightarrow> bytes \<Rightarrow> bytes" where
  "hash_text lib t = hex_vec (wl_hash lib t) False"

text \<open>The result is the code's number and the file; \<open>written\<close> tells whether it can be written.\<close>

definition save_user_creds ::
  "'j web_lib \<Rightarrow> bytes \<Rightarrow> bool \<Rightarrow> bytes \<Rightarrow> bytes \<Rightarrow> creds_file \<Rightarrow> int \<times> creds_file" where
  "save_user_creds lib salt written username password file =
     (if file = Unreadable then (- 1, file)
      else
        let tree = \<lparr> ct_username = Some username, ct_password = Some (hash_text lib (password @ salt)), ct_salt = Some salt \<rparr>
        in if written then (0, Readable tree) else (- 1, file))"

definition user_creds_exist :: "creds_file \<Rightarrow> bool" where
  "user_creds_exist file =
     (case file of
        Readable t \<Rightarrow> ct_username t \<noteq> None \<and> ct_password t \<noteq> None \<and> ct_salt t \<noteq> None
      | _ \<Rightarrow> False)"

text \<open>The entries before a missing one are taken over.\<close>

definition reload_user_creds :: "creds_file \<Rightarrow> user_creds \<Rightarrow> int \<times> user_creds" where
  "reload_user_creds file uc =
     (case file of
        Readable t \<Rightarrow>
          (case ct_username t of
             None \<Rightarrow> (- 1, uc)
           | Some u \<Rightarrow>
               let uc = uc\<lparr> uc_username := u \<rparr> in
               (case ct_password t of
                  None \<Rightarrow> (- 1, uc)
                | Some p \<Rightarrow>
                    let uc = uc\<lparr> uc_password := p \<rparr> in
                    (case ct_salt t of
                       None \<Rightarrow> (- 1, uc)
                     | Some s \<Rightarrow> (0, uc\<lparr> uc_salt := s \<rparr>))))
      | _ \<Rightarrow> (- 1, uc))"

section \<open>Authentication\<close>

definition net_rank :: "net_e \<Rightarrow> nat" where
  "net_rank n = (case n of PC \<Rightarrow> 0 | LAN \<Rightarrow> 1 | WAN \<Rightarrow> 2)"

definition iequals :: "bytes \<Rightarrow> bytes \<Rightarrow> bool" where
  "iequals a b \<longleftrightarrow> to_lower a = to_lower b"

text \<open>
  The two parts of the decoded header; \<open>None\<close> when the first colon is missing or the last character.
  The comparison is unsigned, so a missing colon counts as a position behind every text.
\<close>

definition split_credentials :: "bytes \<Rightarrow> (bytes \<times> bytes) option" where
  "split_credentials auth_data =
     (let username = takeWhile (\<lambda>c. c \<noteq> 0x3A) auth_data; rest = dropWhile (\<lambda>c. c \<noteq> 0x3A) auth_data
      in if length rest \<le> 1 then None else Some (username, tl rest))"

definition credentials_ok :: "'j web_lib \<Rightarrow> user_creds \<Rightarrow> bytes \<Rightarrow> bytes \<Rightarrow> bool" where
  "credentials_ok lib uc username password \<longleftrightarrow>
     iequals username (uc_username uc) \<and> hash_text lib (password @ uc_salt uc) = uc_password uc"

text \<open>\<open>Threw\<close>: \<open>substr\<close> beyond the end of the header throws, after the answer of the guard.\<close>

datatype auth = Granted | Refused web_answer | Threw web_answer

definition authenticate :: "'j web_lib \<Rightarrow> net_e \<Rightarrow> user_creds \<Rightarrow> web_request \<Rightarrow> auth" where
  "authenticate lib allowed uc req =
     (if net_rank (from_address (wl_make_address lib) (wr_address req)) > net_rank allowed then Refused Forbidden
      else if uc_username uc = [] then Refused (Redirected (ascii ''/welcome''))
      else
        (case wr_header req ''authorization'' of
           None \<Rightarrow> Refused Unauthorized
         | Some raw_auth \<Rightarrow>
             if length raw_auth < 6 then Threw Unauthorized
             else
               (case split_credentials (wl_base64 lib (drop 6 raw_auth)) of
                  None \<Rightarrow> Refused Unauthorized
                | Some (username, password) \<Rightarrow>
                    if credentials_ok lib uc username password then Granted else Refused Unauthorized)))"

section \<open>Content type\<close>

definition check_content_type :: "web_request \<Rightarrow> bytes \<Rightarrow> web_answer option" where
  "check_content_type req content_type =
     (case wr_header req ''content-type'' of
        None \<Rightarrow> Some (Bad_Request (ascii ''Content type not provided''))
      | Some t \<Rightarrow>
          if to_lower (trim (takeWhile (\<lambda>c. c \<noteq> 0x3B) t)) \<noteq> to_lower content_type
          then Some (Bad_Request (ascii ''Content type mismatch'')) else None)"

section \<open>Tokens\<close>

record csrf_token =
  tk_token :: bytes
  tk_expiration :: int

type_synonym csrf_tokens = "bytes \<rightharpoonup> csrf_token"

text \<open>Time is counted in seconds.\<close>

definition CSRF_TOKEN_LIFETIME :: int where "CSRF_TOKEN_LIFETIME = 3600"

definition basic_prefix :: bytes where "basic_prefix = ascii ''Basic ''"

definition get_client_id :: "'j web_lib \<Rightarrow> user_creds \<Rightarrow> web_request \<Rightarrow> bytes" where
  "get_client_id lib uc req =
     (case wr_header req ''authorization'' of
        Some raw_auth \<Rightarrow>
          if uc_username uc \<noteq> [] \<and> take 6 raw_auth = basic_prefix then
            (case split_credentials (wl_base64 lib (drop 6 raw_auth)) of
               Some (username, _) \<Rightarrow> username
             | None \<Rightarrow> wr_address req)
          else wr_address req
      | None \<Rightarrow> wr_address req)"

definition generate_csrf_token :: "int \<Rightarrow> bytes \<Rightarrow> bytes \<Rightarrow> csrf_tokens \<Rightarrow> csrf_tokens" where
  "generate_csrf_token now token client_id tokens =
     (let kept = (\<lambda>c. case tokens c of None \<Rightarrow> None | Some t \<Rightarrow> if tk_expiration t < now then None else Some t)
      in kept(client_id \<mapsto> \<lparr> tk_token = token, tk_expiration = now + CSRF_TOKEN_LIFETIME \<rparr>))"

definition validate_stored_csrf_token ::
  "int \<Rightarrow> bytes \<Rightarrow> bytes \<Rightarrow> csrf_tokens \<Rightarrow> web_answer option \<times> csrf_tokens" where
  "validate_stored_csrf_token now client_id provided_token tokens =
     (case tokens client_id of
        None \<Rightarrow> (Some (Bad_Request (ascii ''Invalid CSRF token'')), tokens)
      | Some t \<Rightarrow>
          if tk_expiration t < now
          then (Some (Bad_Request (ascii ''CSRF token expired'')), tokens(client_id := None))
          else if tk_token t \<noteq> provided_token then (Some (Bad_Request (ascii ''Invalid CSRF token'')), tokens)
          else (None, tokens))"

definition is_allowed_origin :: "bytes list \<Rightarrow> bytes \<Rightarrow> bool" where
  "is_allowed_origin origins url \<longleftrightarrow>
     list_ex (\<lambda>allowed. take (length allowed) url = allowed \<and>
       (length url = length allowed \<or> url ! length allowed = 0x3A \<or> url ! length allowed = 0x2F)) origins"

definition validate_csrf_token ::
  "bytes list \<Rightarrow> int \<Rightarrow> web_request \<Rightarrow> bytes \<Rightarrow> csrf_tokens \<Rightarrow> web_answer option \<times> csrf_tokens" where
  "validate_csrf_token origins now req client_id tokens =
     (let origin = wr_header req ''Origin''; referer = wr_header req ''Referer'';
          allowed = (\<lambda>h. case h of None \<Rightarrow> False | Some url \<Rightarrow> is_allowed_origin origins url)
      in if allowed origin \<or> allowed referer then (None, tokens)
         else if origin = None \<and> referer = None then (None, tokens)
         else
           (case wr_header req ''X-CSRF-Token'' of
              Some token \<Rightarrow> validate_stored_csrf_token now client_id token tokens
            | None \<Rightarrow>
                (case wr_query req ''csrf_token'' of
                   None \<Rightarrow> (Some (Bad_Request (ascii ''Missing CSRF token'')), tokens)
                 | Some token \<Rightarrow> validate_stored_csrf_token now client_id token tokens)))"

end
