(* ===== verification/Web_Ui.thy ===== *)
theory Web_Ui
  imports Config Web_Auth "HOL-Library.List_Lexorder" "HOL-Library.Monad_Syntax"
begin

text \<open>
  The handlers of the web interface (\<open>src/confighttp.cpp\<close>) over the host: the running application
  (\<open>Process\<close>), the RTSP server, the client database (\<open>Pairing\<close>), the files of applications and
  options, and the credentials. A handler gives the answers written, whether an exception left it, and
  the new state. What goes to the platform is an event.
\<close>

section \<open>State\<close>

datatype web_event =
    Restarted
  | Display_Persistence_Reset
  | Cover_Downloaded bytes bytes
  | Cover_Written bytes bytes
  | License_Action bytes bytes
  | Pin_Undefined

record 'c site =
  ws_host :: host
  ws_nv :: "'c nv"
  ws_creds :: user_creds
  ws_creds_file :: creds_file
  ws_allowed :: net_e
  ws_origins :: "bytes list"
  ws_csrf :: csrf_tokens
  ws_apps_file :: bytes
  ws_config_file :: bytes
  ws_events :: "web_event list"

text \<open>What a request meets: time, random texts, whether files can be written, and the other libraries.\<close>

record ('c, 'j) ui_env =
  ue_lib :: "'j web_lib"
  ue_now :: int
  ue_token :: bytes
  ue_salt :: bytes
  ue_written :: bool
  ue_web :: web_env
  ue_pair :: "'c pair_lib"
  ue_io :: io
  ue_io_load :: io
  ue_first :: bytes
  ue_nodes :: "bytes \<Rightarrow> ((bytes \<times> bytes) list \<times> app_node list) option"
  ue_files :: app_files
  ue_env :: "bytes \<rightharpoonup> bytes"
  ue_global_prep :: "prep_cmd list"
  ue_reset_persistence :: bool
  ue_url_host :: "bytes \<Rightarrow> bytes"
  ue_url_escape :: "bytes \<Rightarrow> bytes"
  ue_downloads :: "bytes \<Rightarrow> bool"
  ue_license_ok :: "bytes \<Rightarrow> bytes \<Rightarrow> bool"
  ue_appdata :: bytes
  ue_read :: "bytes \<Rightarrow> bytes option"
  ue_log :: bytes
  ue_locale :: bytes
  ue_report :: "string \<Rightarrow> bytes"

type_synonym 'c web_result = "web_answer list \<times> bool \<times> 'c site"

definition answer :: "web_answer \<Rightarrow> 'c site \<Rightarrow> 'c web_result" where
  "answer a s = ([a], False, s)"

section \<open>What comes before a handler\<close>

definition with_type :: "web_request \<Rightarrow> ('c site \<Rightarrow> 'c web_result) \<Rightarrow> 'c site \<Rightarrow> 'c web_result" where
  "with_type req k s =
     (case check_content_type req (ascii ''application/json'') of Some a \<Rightarrow> answer a s | None \<Rightarrow> k s)"

definition with_auth :: "('c, 'j) ui_env \<Rightarrow> web_request \<Rightarrow> ('c site \<Rightarrow> 'c web_result) \<Rightarrow> 'c site \<Rightarrow> 'c web_result" where
  "with_auth e req k s =
     (case authenticate (ue_lib e) (ws_allowed s) (ws_creds s) req of
        Granted \<Rightarrow> k s
      | Refused a \<Rightarrow> ([a], False, s)
      | Threw a \<Rightarrow> ([a], True, s))"

definition with_csrf :: "('c, 'j) ui_env \<Rightarrow> web_request \<Rightarrow> ('c site \<Rightarrow> 'c web_result) \<Rightarrow> 'c site \<Rightarrow> 'c web_result" where
  "with_csrf e req k s =
     (let client_id = get_client_id (ue_lib e) (ws_creds s) req;
          (refused, tokens) = validate_csrf_token (ws_origins s) (ue_now e) req client_id (ws_csrf s);
          s' = s\<lparr> ws_csrf := tokens \<rparr>
      in case refused of Some a \<Rightarrow> answer a s' | None \<Rightarrow> k s')"

text \<open>A handler's \<open>try\<close>: an exception becomes an answer.\<close>

definition failed :: "'c site \<Rightarrow> 'c web_result" where
  "failed s = answer (Bad_Request []) s"

definition try_or :: "'a option \<Rightarrow> ('a \<Rightarrow> 'c site \<Rightarrow> 'c web_result) \<Rightarrow> 'c site \<Rightarrow> 'c web_result" where
  "try_or x k s = (case x of None \<Rightarrow> failed s | Some v \<Rightarrow> k v s)"

text \<open>\<open>std::stoi\<close>; \<open>None\<close> is its exception.\<close>

definition stoi :: "bytes \<Rightarrow> int option" where
  "stoi text =
     (let (neg, t) = split_sign (dropWhile is_space text);
          ds = takeWhile is_digit t;
          n = number_digits 10 ds;
          v = (if neg then - n else n)
      in if ds = [] \<or> v < INT_MIN \<or> v > INT_MAX then None else Some v)"

section \<open>Applications\<close>

definition host_terminate :: "web_env \<Rightarrow> host \<Rightarrow> host" where
  "host_terminate w h = h\<lparr> ho_proc := terminate (we_platform w) (ho_proc h) \<rparr>"

definition add_event :: "web_event \<Rightarrow> 'c site \<Rightarrow> 'c site" where
  "add_event ev s = s\<lparr> ws_events := ws_events s @ [ev] \<rparr>"

text \<open>\<open>proc::refresh\<close> on the file as it is.\<close>

definition refresh_apps :: "('c, 'j) ui_env \<Rightarrow> 'c site \<Rightarrow> 'c site" where
  "refresh_apps e s =
     (let parsed = Option.bind (ue_nodes e (ws_apps_file s))
            (\<lambda>(env_vars, nodes). parse_list (ue_files e) (ue_env e) (ue_global_prep e) env_vars nodes)
      in s\<lparr> ws_host := (ws_host s)\<lparr> ho_proc := refresh parsed (ho_proc (ws_host s)) \<rparr> \<rparr>)"

definition write_apps :: "('c, 'j) ui_env \<Rightarrow> bytes \<Rightarrow> 'c site \<Rightarrow> 'c site" where
  "write_apps e text s = (if ue_written e then s\<lparr> ws_apps_file := text \<rparr> else s)"

text \<open>The list with the entry at an index replaced; an index outside it changes nothing.\<close>

definition replace_at :: "int \<Rightarrow> 'a \<Rightarrow> 'a list \<Rightarrow> 'a list" where
  "replace_at index x xs = (if 0 \<le> index \<and> index < int (length xs) then xs[nat index := x] else xs)"

text \<open>Sorting compares the names as soon as there are two entries.\<close>

definition sort_apps :: "'j web_lib \<Rightarrow> 'j list \<Rightarrow> 'j list option" where
  "sort_apps lib apps =
     (if length apps < 2 then Some apps
      else if list_ex (\<lambda>a. wl_name lib a = None) apps then None
      else Some (sort_key (\<lambda>a. the (wl_name lib a)) apps))"

definition drop_if_empty :: "'j web_lib \<Rightarrow> string \<Rightarrow> 'j \<Rightarrow> 'j option" where
  "drop_if_empty lib key t = map_option (\<lambda>empty. if empty then wl_erase lib t key else t) (wl_member_empty lib t key)"

text \<open>The new list of applications, from the request and the file.\<close>

definition saved_apps :: "'j web_lib \<Rightarrow> 'j \<Rightarrow> 'j \<Rightarrow> 'j list option" where
  "saved_apps lib input file_tree =
     do {
       t1 \<leftarrow> drop_if_empty lib ''prep-cmd'' input;
       t2 \<leftarrow> drop_if_empty lib ''detached'' t1;
       apps \<leftarrow> wl_apps lib file_tree;
       index \<leftarrow> wl_int lib t2 ''index'';
       let t3 = wl_erase lib t2 ''index'' in
       sort_apps lib (if index = - 1 then apps @ [t3] else replace_at index t3 apps)
     }"

definition save_app :: "('c, 'j) ui_env \<Rightarrow> web_request \<Rightarrow> 'c site \<Rightarrow> 'c web_result" where
  "save_app e req = with_type req (with_auth e req (with_csrf e req (\<lambda>s.
     let lib = ue_lib e in
     try_or (wl_parse lib (wr_content req)) (\<lambda>input.
     try_or (wl_parse lib (ws_apps_file s)) (\<lambda>file_tree.
     try_or (saved_apps lib input file_tree) (\<lambda>apps s.
       answer (Status True) (refresh_apps e (write_apps e (wl_dump lib (wl_put_apps lib file_tree apps)) s))))) s)))"

definition close_app :: "('c, 'j) ui_env \<Rightarrow> web_request \<Rightarrow> 'c site \<Rightarrow> 'c web_result" where
  "close_app e req = with_auth e req (with_csrf e req (\<lambda>s.
     answer (Status True) (s\<lparr> ws_host := host_terminate (ue_web e) (ws_host s) \<rparr>)))"

text \<open>\<open>None\<close>: the index is one of the list.\<close>

definition check_app_index :: "int \<Rightarrow> 'j list \<Rightarrow> web_answer option" where
  "check_app_index index apps =
     (if index < 0 \<or> index \<ge> int (length apps) then
        Some (Bad_Request (if apps = [] then ascii ''No applications found''
          else ascii '''index' '' @ to_text index @ ascii '' out of range, max index is '' @ to_text (int (length apps) - 1)))
      else None)"

definition remove_at :: "int \<Rightarrow> 'a list \<Rightarrow> 'a list" where
  "remove_at index xs = take (nat index) xs @ drop (nat index + 1) xs"

definition delete_app :: "('c, 'j) ui_env \<Rightarrow> web_request \<Rightarrow> 'c site \<Rightarrow> 'c web_result" where
  "delete_app e req = with_auth e req (with_csrf e req (\<lambda>s.
     let lib = ue_lib e in
     try_or (stoi (wr_match req)) (\<lambda>index.
     try_or (wl_parse lib (ws_apps_file s)) (\<lambda>file_tree.
     try_or (wl_apps lib file_tree) (\<lambda>apps s.
       case check_app_index index apps of
         Some a \<Rightarrow> answer a s
       | None \<Rightarrow> answer (Status True)
           (refresh_apps e (write_apps e (wl_dump lib (wl_put_apps lib file_tree (remove_at index apps))) s))))) s))"

definition get_cover :: "('c, 'j) ui_env \<Rightarrow> web_request \<Rightarrow> 'c site \<Rightarrow> 'c web_result" where
  "get_cover e req = with_auth e req (\<lambda>s.
     let lib = ue_lib e in
     try_or (stoi (wr_match req)) (\<lambda>index.
     try_or (wl_parse lib (ws_apps_file s)) (\<lambda>file_tree.
     try_or (wl_apps lib file_tree) (\<lambda>apps s.
       case check_app_index index apps of
         Some a \<Rightarrow> answer a s
       | None \<Rightarrow>
           try_or (wl_image lib (apps ! nat index)) (\<lambda>image_path s.
             let path = validate_app_image_path (ue_files e) (value_or [] image_path)
             in if path = default_app_image (ue_files e) then answer (Not_Found (ascii ''Cover image not found'')) s
                else
                  (case ue_read e path of
                     None \<Rightarrow> answer (Bad_Request (ascii ''Unable to read cover image file'')) s
                   | Some png \<Rightarrow> answer (Content png) s)) s))) s)"

text \<open>The cover is stored under the escaped key; the path of the handler has no check of a token.\<close>

definition upload_cover :: "('c, 'j) ui_env \<Rightarrow> web_request \<Rightarrow> 'c site \<Rightarrow> 'c web_result" where
  "upload_cover e req = with_type req (with_auth e req (\<lambda>s.
     let lib = ue_lib e in
     try_or (wl_parse lib (wr_content req)) (\<lambda>input.
     try_or (wl_value lib input ''key'' []) (\<lambda>key s.
       if key = [] then answer (Bad_Request (ascii ''Cover key is required'')) s
       else
         try_or (wl_value lib input ''url'' []) (\<lambda>url s.
           let path = ue_appdata e @ ascii ''/covers/'' @ ue_url_escape e key @ ascii ''.png'' in
           if url \<noteq> [] then
             (if ue_url_host e url \<noteq> ascii ''images.igdb.com''
              then answer (Bad_Request (ascii ''Only images.igdb.com is allowed'')) s
              else if \<not> ue_downloads e url then answer (Bad_Request (ascii ''Failed to download cover'')) s
              else answer (Status True) (add_event (Cover_Downloaded url path) s))
           else
             try_or (wl_value lib input ''data'' []) (\<lambda>d s.
               answer (Status True) (add_event (Cover_Written path (wl_base64 lib d)) s)) s) s)) s))"

section \<open>Clients\<close>

definition get_clients :: "('c, 'j) ui_env \<Rightarrow> web_request \<Rightarrow> 'c site \<Rightarrow> 'c web_result" where
  "get_clients e req = with_auth e req (\<lambda>s.
     answer (Clients (get_all_clients (ws_nv s))) s)"

text \<open>Ending the sessions of a client, and the application with the last session.\<close>

definition end_sessions_of :: "web_env \<Rightarrow> bytes \<Rightarrow> host \<Rightarrow> host" where
  "end_sessions_of w cert h =
     (let h1 = (if cert \<noteq> [] then h\<lparr> ho_rtsp := snd (clear_by_cert cert (ho_rtsp h)) \<rparr> else h);
          (n, h2) = count_sessions h1
      in if n = 0 then
           let (i, h3) = host_running w h2 in if i > 0 then host_terminate w h3 else h3
         else h2)"

definition update_client :: "('c, 'j) ui_env \<Rightarrow> web_request \<Rightarrow> 'c site \<Rightarrow> 'c web_result" where
  "update_client e req = with_type req (with_auth e req (with_csrf e req (\<lambda>s.
     let lib = ue_lib e in
     try_or (wl_parse lib (wr_content req)) (\<lambda>input.
     try_or (wl_value lib input ''uuid'' []) (\<lambda>uuid.
     try_or (wl_value_bool lib input ''enabled'' True) (\<lambda>enabled s.
       let (found, nv) = set_client_enabled (ue_io e) uuid enabled (ws_nv s);
           s1 = s\<lparr> ws_nv := nv \<rparr>;
           s2 = (if \<not> enabled \<and> found
             then s1\<lparr> ws_host := end_sessions_of (ue_web e) (get_cert_by_uuid uuid nv) (ws_host s1) \<rparr> else s1)
       in answer (Status found) s2))) s)))"

definition unpair :: "('c, 'j) ui_env \<Rightarrow> web_request \<Rightarrow> 'c site \<Rightarrow> 'c web_result" where
  "unpair e req = with_type req (with_auth e req (with_csrf e req (\<lambda>s.
     let lib = ue_lib e in
     try_or (wl_parse lib (wr_content req)) (\<lambda>input.
     try_or (wl_value lib input ''uuid'' []) (\<lambda>uuid s.
       let (removed, nv) = unpair_client (ue_pair e) (ue_io e) (ue_io_load e) uuid (ws_nv s);
           s1 = s\<lparr> ws_nv := nv \<rparr>;
           s2 = (if removed \<and> get_all_clients nv = []
             then s1\<lparr> ws_host := host_terminate (ue_web e) (ws_host s1) \<rparr> else s1)
       in answer (Status removed) s2)) s)))"

definition unpair_all :: "('c, 'j) ui_env \<Rightarrow> web_request \<Rightarrow> 'c site \<Rightarrow> 'c web_result" where
  "unpair_all e req = with_auth e req (with_csrf e req (\<lambda>s.
     answer (Status True) (s\<lparr> ws_nv := erase_all_clients (ue_io e) (ws_nv s),
       ws_host := host_terminate (ue_web e) (ws_host s) \<rparr>)))"

text \<open>A PIN out of range is answered, and then handed on all the same.\<close>

definition save_pin :: "('c, 'j) ui_env \<Rightarrow> web_request \<Rightarrow> 'c site \<Rightarrow> 'c web_result" where
  "save_pin e req = with_type req (with_auth e req (with_csrf e req (\<lambda>s.
     let lib = ue_lib e in
     try_or (wl_parse lib (wr_content req)) (\<lambda>input.
     try_or (wl_value lib input ''name'' []) (\<lambda>name.
     try_or (wl_value lib input ''pin'' []) (\<lambda>p.
     try_or (stoi p) (\<lambda>n s.
       let early = (if n < 0 \<or> n > 9999 then [Bad_Request (ascii ''PIN must be between 0000 and 9999'')] else [])
       in case pin (ue_pair e) (ue_first e) p name (ws_nv s) of
            (Pin_Result b, nv, _) \<Rightarrow> (early @ [Status b], False, s\<lparr> ws_nv := nv \<rparr>)
          | (Use_After_Free, nv, _) \<Rightarrow> (early, False, add_event Pin_Undefined (s\<lparr> ws_nv := nv \<rparr>)))))) s)))"

section \<open>Configuration and credentials\<close>

definition get_config :: "('c, 'j) ui_env \<Rightarrow> web_request \<Rightarrow> 'c site \<Rightarrow> 'c web_result" where
  "get_config e req = with_auth e req (\<lambda>s. answer (Options (parse_config (ws_config_file s))) s)"

text \<open>The lines of the file: strings as they are, other values as JSON, nothing for null or empty.\<close>

definition config_entries :: "'j web_lib \<Rightarrow> (bytes \<times> 'j) list \<Rightarrow> (bytes \<times> bytes) list" where
  "config_entries lib items =
     map (\<lambda>(k, v). (k, case wl_string lib v of Some t \<Rightarrow> t | None \<Rightarrow> wl_dump lib v))
       (filter (\<lambda>(k, v). \<not> wl_null lib v \<and> wl_string lib v \<noteq> Some []) items)"

definition save_config :: "('c, 'j) ui_env \<Rightarrow> web_request \<Rightarrow> 'c site \<Rightarrow> 'c web_result" where
  "save_config e req = with_type req (with_auth e req (with_csrf e req (\<lambda>s.
     let lib = ue_lib e in
     try_or (wl_parse lib (wr_content req)) (\<lambda>input.
     try_or (wl_items lib input) (\<lambda>items s.
       let text = config_stream (config_entries lib items)
       in answer (Status True) (if ue_written e then s\<lparr> ws_config_file := text \<rparr> else s))) s)))"

text \<open>The answers to a change of the password that is refused.\<close>

definition save_password :: "('c, 'j) ui_env \<Rightarrow> web_request \<Rightarrow> 'c site \<Rightarrow> 'c web_result" where
  "save_password e req = with_type req (\<lambda>s.
     (if uc_username (ws_creds s) \<noteq> [] then with_auth e req else (\<lambda>k. k)) (with_csrf e req (\<lambda>s.
     let lib = ue_lib e in
     try_or (wl_parse lib (wr_content req)) (\<lambda>input.
     try_or (wl_value lib input ''currentUsername'' []) (\<lambda>username.
     try_or (wl_value lib input ''newUsername'' []) (\<lambda>new_username.
     try_or (wl_value lib input ''currentPassword'' []) (\<lambda>password.
     try_or (wl_value lib input ''newPassword'' []) (\<lambda>new_password.
     try_or (wl_value lib input ''confirmNewPassword'' []) (\<lambda>confirm_password s.
       let name = (if new_username = [] then username else new_username)
       in if name = [] then answer (Bad_Request (ascii ''Invalid Username'')) s
          else if \<not> (uc_username (ws_creds s) = [] \<or> credentials_ok lib (ws_creds s) username password)
          then answer (Bad_Request (ascii ''Invalid Current Credentials'')) s
          else if new_password = [] \<or> new_password \<noteq> confirm_password
          then answer (Bad_Request (ascii ''Password Mismatch'')) s
          else
            let (_, file) = save_user_creds lib (ue_salt e) (ue_written e) name new_password (ws_creds_file s);
                (_, uc) = reload_user_creds file (ws_creds s)
            in answer (Status True) (s\<lparr> ws_creds_file := file, ws_creds := uc \<rparr>))))))) s)) s)"

definition get_csrf_token :: "('c, 'j) ui_env \<Rightarrow> web_request \<Rightarrow> 'c site \<Rightarrow> 'c web_result" where
  "get_csrf_token e req = with_auth e req (\<lambda>s.
     let client_id = get_client_id (ue_lib e) (ws_creds s) req
     in answer (Token (ue_token e)) (s\<lparr> ws_csrf := generate_csrf_token (ue_now e) (ue_token e) client_id (ws_csrf s) \<rparr>))"

section \<open>The rest\<close>

definition get_page :: "('c, 'j) ui_env \<Rightarrow> bytes \<Rightarrow> bool \<Rightarrow> bool \<Rightarrow> web_request \<Rightarrow> 'c site \<Rightarrow> 'c web_result" where
  "get_page e page require_auth redirect_if_username req s =
     (if redirect_if_username \<and> uc_username (ws_creds s) \<noteq> [] then answer (Redirected (ascii ''/'')) s
      else (if require_auth then with_auth e req else (\<lambda>k. k))
        (\<lambda>s. answer (Content (value_or [] (ue_read e page))) s) s)"

definition get_locale :: "('c, 'j) ui_env \<Rightarrow> 'c site \<Rightarrow> 'c web_result" where
  "get_locale e s = answer (Content (ue_locale e)) s"

definition get_logs :: "('c, 'j) ui_env \<Rightarrow> web_request \<Rightarrow> 'c site \<Rightarrow> 'c web_result" where
  "get_logs e req = with_auth e req (answer (Content (ue_log e)))"

definition reset_display_device_persistence :: "('c, 'j) ui_env \<Rightarrow> web_request \<Rightarrow> 'c site \<Rightarrow> 'c web_result" where
  "reset_display_device_persistence e req = with_auth e req (with_csrf e req (\<lambda>s.
     answer (Status (ue_reset_persistence e)) (add_event Display_Persistence_Reset s)))"

text \<open>A restart is not answered.\<close>

definition restart :: "('c, 'j) ui_env \<Rightarrow> web_request \<Rightarrow> 'c site \<Rightarrow> 'c web_result" where
  "restart e req = with_auth e req (with_csrf e req (\<lambda>s. ([], False, add_event Restarted s)))"

definition update_license :: "('c, 'j) ui_env \<Rightarrow> web_request \<Rightarrow> 'c site \<Rightarrow> 'c web_result" where
  "update_license e req = with_auth e req (with_csrf e req (\<lambda>s.
     let lib = ue_lib e; act = (\<lambda>action key s. answer (Status (ue_license_ok e action key)) (add_event (License_Action action key) s)) in
     try_or (wl_parse lib (wr_content req)) (\<lambda>input.
     try_or (wl_value lib input ''action'' []) (\<lambda>action s.
       if action = ascii ''activate'' then
         try_or (wl_value lib input ''license_key'' []) (\<lambda>key s.
           if key = [] then answer (Bad_Request (ascii ''License key is required'')) s else act action key s) s
       else if action = ascii ''validate'' \<or> action = ascii ''deactivate'' then act action [] s
       else answer (Bad_Request (ascii ''Unknown license action'')) s)) s))"

section \<open>Routes\<close>

datatype endpoint =
    Page bytes bool bool
  | Get_Apps | Save_App | Delete_App | Close_App | Get_Cover | Upload_Cover
  | Get_Clients | Update_Client | Unpair | Unpair_All | Save_Pin
  | Get_Config | Save_Config | Get_Locale | Save_Password | Get_Csrf_Token | Get_Logs
  | Reset_Display | Restart | Get_License | Update_License | Get_Input_Status | Browse

text \<open>The endpoints that only read answer with what they find once the request is authenticated.\<close>

fun handle :: "('c, 'j) ui_env \<Rightarrow> endpoint \<Rightarrow> web_request \<Rightarrow> 'c site \<Rightarrow> 'c web_result" where
  "handle e (Page page require_auth redirect_if_username) req s = get_page e page require_auth redirect_if_username req s"
| "handle e Get_Apps req s = with_auth e req (answer (Content (ue_report e ''apps''))) s"
| "handle e Save_App req s = save_app e req s"
| "handle e Delete_App req s = delete_app e req s"
| "handle e Close_App req s = close_app e req s"
| "handle e Get_Cover req s = get_cover e req s"
| "handle e Upload_Cover req s = upload_cover e req s"
| "handle e Get_Clients req s = get_clients e req s"
| "handle e Update_Client req s = update_client e req s"
| "handle e Unpair req s = unpair e req s"
| "handle e Unpair_All req s = unpair_all e req s"
| "handle e Save_Pin req s = save_pin e req s"
| "handle e Get_Config req s = get_config e req s"
| "handle e Save_Config req s = save_config e req s"
| "handle e Get_Locale req s = get_locale e s"
| "handle e Save_Password req s = save_password e req s"
| "handle e Get_Csrf_Token req s = get_csrf_token e req s"
| "handle e Get_Logs req s = get_logs e req s"
| "handle e Reset_Display req s = reset_display_device_persistence e req s"
| "handle e Restart req s = restart e req s"
| "handle e Get_License req s = with_auth e req (answer (Content (ue_report e ''license''))) s"
| "handle e Update_License req s = update_license e req s"
| "handle e Get_Input_Status req s = with_auth e req (answer (Content (ue_report e ''status''))) s"
| "handle e Browse req s = with_auth e req (answer (Content (ue_report e ''entries''))) s"

end
