(* ===== verification/Web_Facts.thy ===== *)
theory Web_Facts
  imports Web_Ui "HOL-Library.Multiset"
begin

text \<open>What the web interface lets nobody do, and what it does.\<close>

section \<open>Refused requests\<close>

text \<open>The endpoints that ask for no credentials in a state.\<close>

definition open_endpoint :: "endpoint \<Rightarrow> 'c site \<Rightarrow> bool" where
  "open_endpoint ep s \<longleftrightarrow>
     (case ep of
        Page page require_auth redirect_if_username \<Rightarrow> \<not> require_auth
      | Get_Locale \<Rightarrow> True
      | Save_Password \<Rightarrow> uc_username (ws_creds s) = []
      | _ \<Rightarrow> False)"

definition refusal_answer :: "web_answer \<Rightarrow> bool" where
  "refusal_answer a \<longleftrightarrow> (case a of Forbidden \<Rightarrow> True | Unauthorized \<Rightarrow> True | Redirected t \<Rightarrow> True | Bad_Request t \<Rightarrow> True | _ \<Rightarrow> False)"

text \<open>A result that tells nothing and changes nothing.\<close>

definition nothing_done :: "'c site \<Rightarrow> 'c web_result \<Rightarrow> bool" where
  "nothing_done s r \<longleftrightarrow> snd (snd r) = s \<and> (\<exists>a. fst r = [a] \<and> refusal_answer a)"

lemma nothing_done_auth:
  assumes "authenticate (ue_lib e) (ws_allowed s) (ws_creds s) req \<noteq> Granted"
  shows "nothing_done s (with_auth e req k s)"
proof -
  have "authenticate (ue_lib e) (ws_allowed s) (ws_creds s) req = Refused a \<Longrightarrow> refusal_answer a" for a
    by (auto simp: authenticate_def refusal_answer_def split: if_splits option.splits prod.splits)
  moreover have "authenticate (ue_lib e) (ws_allowed s) (ws_creds s) req = Threw a \<Longrightarrow> refusal_answer a" for a
    by (auto simp: authenticate_def refusal_answer_def split: if_splits option.splits prod.splits)
  ultimately show ?thesis
    using assms by (cases "authenticate (ue_lib e) (ws_allowed s) (ws_creds s) req")
      (auto simp: with_auth_def nothing_done_def)
qed

lemma nothing_done_type: "nothing_done s (k s) \<Longrightarrow> nothing_done s (with_type req k s)"
  by (auto simp: with_type_def nothing_done_def answer_def refusal_answer_def check_content_type_def
      split: option.splits if_splits)

lemma nothing_done_answer: "refusal_answer a \<Longrightarrow> nothing_done s ([a], t, s)"
  by (simp add: nothing_done_def)

lemma save_password_refused:
  assumes "authenticate (ue_lib e) (ws_allowed s) (ws_creds s) req \<noteq> Granted" and "uc_username (ws_creds s) \<noteq> []"
  shows "nothing_done s (save_password e req s)"
  unfolding save_password_def
  by (rule nothing_done_type) (simp only: assms(2) if_True simp_thms, rule nothing_done_auth [OF assms(1)])

lemma handle_refused:
  assumes "authenticate (ue_lib e) (ws_allowed s) (ws_creds s) req \<noteq> Granted" and "\<not> open_endpoint ep s"
  shows "nothing_done s (handle e ep req s)"
  using assms
  by (cases ep)
    (auto simp: open_endpoint_def save_app_def delete_app_def close_app_def get_cover_def upload_cover_def
      get_clients_def update_client_def unpair_def unpair_all_def save_pin_def get_config_def save_config_def
      get_csrf_token_def get_logs_def reset_display_device_persistence_def restart_def
      update_license_def get_page_def answer_def refusal_answer_def
      intro: nothing_done_auth nothing_done_type nothing_done_answer save_password_refused split: if_splits)

section \<open>Requests from other sites\<close>

text \<open>The state but for the tokens.\<close>

definition same_but_tokens :: "'c site \<Rightarrow> 'c site \<Rightarrow> bool" where
  "same_but_tokens s s' \<longleftrightarrow> s'\<lparr> ws_csrf := ws_csrf s \<rparr> = s"

lemma same_but_tokens_refl: "same_but_tokens s s"
  by (simp add: same_but_tokens_def)

definition csrf_refused :: "('c, 'j) ui_env \<Rightarrow> web_request \<Rightarrow> 'c site \<Rightarrow> bool" where
  "csrf_refused e req s \<longleftrightarrow>
     fst (validate_csrf_token (ws_origins s) (ue_now e) req (get_client_id (ue_lib e) (ws_creds s) req) (ws_csrf s)) \<noteq> None"

definition unchanged :: "'c site \<Rightarrow> 'c web_result \<Rightarrow> bool" where
  "unchanged s r \<longleftrightarrow> same_but_tokens s (snd (snd r))"

lemma unchanged_csrf: "csrf_refused e req s \<Longrightarrow> unchanged s (with_csrf e req k s)"
  by (auto simp: csrf_refused_def with_csrf_def unchanged_def same_but_tokens_def answer_def split: prod.splits option.splits)

lemma unchanged_auth: "unchanged s (k s) \<Longrightarrow> unchanged s (with_auth e req k s)"
  by (simp add: with_auth_def unchanged_def same_but_tokens_refl split: auth.split)

lemma unchanged_type: "unchanged s (k s) \<Longrightarrow> unchanged s (with_type req k s)"
  by (simp add: with_type_def unchanged_def same_but_tokens_refl answer_def split: option.split)

lemma unchanged_answer: "unchanged s (answer a s)"
  by (simp add: unchanged_def same_but_tokens_refl answer_def)

lemma unchanged_try: "(\<And>v. unchanged s (k v s)) \<Longrightarrow> unchanged s (try_or x k s)"
  by (simp add: try_or_def failed_def unchanged_answer split: option.split)

lemma unchanged_save_password: "csrf_refused e req s \<Longrightarrow> unchanged s (save_password e req s)"
  unfolding save_password_def
  by (rule unchanged_type) (auto intro: unchanged_auth unchanged_csrf)

lemma unchanged_get_cover: "unchanged s (get_cover e req s)"
  unfolding get_cover_def Let_def
  by (rule unchanged_auth, (rule unchanged_try)+, auto intro!: unchanged_answer unchanged_try split: option.split)

lemma handle_csrf_refused:
  assumes "csrf_refused e req s" and "ep \<noteq> Upload_Cover"
  shows "unchanged s (handle e ep req s)"
proof (cases ep)
  case (Page page a r)
  then show ?thesis
    by (auto simp: get_page_def intro!: unchanged_auth unchanged_answer)
next
  case Get_Csrf_Token
  then show ?thesis
    by (auto simp: get_csrf_token_def Let_def unchanged_def same_but_tokens_def answer_def with_auth_def split: auth.split)
qed (use assms in \<open>auto simp: save_app_def delete_app_def close_app_def get_clients_def update_client_def unpair_def
      unpair_all_def save_pin_def get_config_def save_config_def get_logs_def get_locale_def
      reset_display_device_persistence_def restart_def update_license_def
      intro!: unchanged_auth unchanged_type unchanged_csrf unchanged_answer unchanged_save_password unchanged_get_cover\<close>)

section \<open>The life of a token\<close>

text \<open>The tokens handed out with their time, those stored, and the clock.\<close>

inductive csrf_step :: "(bytes \<times> bytes \<times> int) set \<times> csrf_tokens \<times> int \<Rightarrow> (bytes \<times> bytes \<times> int) set \<times> csrf_tokens \<times> int \<Rightarrow> bool" where
  Tick: "now \<le> now' \<Longrightarrow> csrf_step (issued, tokens, now) (issued, tokens, now')"
| Issue: "csrf_step (issued, tokens, now)
    (insert (client_id, token, now) issued, generate_csrf_token now token client_id tokens, now)"
| Check: "csrf_step (issued, tokens, now)
    (issued, snd (validate_stored_csrf_token now client_id provided tokens), now)"

definition csrf_ok :: "(bytes \<times> bytes \<times> int) set \<times> csrf_tokens \<times> int \<Rightarrow> bool" where
  "csrf_ok st = (case st of (issued, tokens, now) \<Rightarrow>
     (\<forall>c k. tokens c = Some k \<longrightarrow> (c, tk_token k, tk_expiration k - CSRF_TOKEN_LIFETIME) \<in> issued) \<and>
     (\<forall>(c, t, t0) \<in> issued. t0 \<le> now))"

interpretation csrf_system: invariant_system csrf_step csrf_ok
proof
  fix st st'
  assume "csrf_step st st'" and "csrf_ok st"
  then show "csrf_ok st'"
    by (induction rule: csrf_step.induct)
      (fastforce simp: csrf_ok_def generate_csrf_token_def validate_stored_csrf_token_def Let_def
        split: option.splits if_splits)+
qed

section \<open>Properties\<close>

lemma sorted_short: "length xs < 2 \<Longrightarrow> sorted (map f xs)" for f :: "'a \<Rightarrow> bytes"
  by (cases xs; cases "tl xs") auto

lemma host_terminate_rtsp [simp]: "ho_rtsp (host_terminate w h) = ho_rtsp h"
  by (simp add: host_terminate_def)

lemma end_sessions_rtsp:
  "launch_event (ho_rtsp (end_sessions_of w cert h)) = launch_event (ho_rtsp h)"
  "cert \<noteq> [] \<Longrightarrow> (i, x) \<in> set (session_slots (ho_rtsp (end_sessions_of w cert h))) \<Longrightarrow> sl_cert x \<noteq> cert"
proof -
  let ?h1 = "if cert \<noteq> [] then h\<lparr> ho_rtsp := snd (clear_by_cert cert (ho_rtsp h)) \<rparr> else h"
  have r: "ho_rtsp (end_sessions_of w cert h) = ho_rtsp (snd (count_sessions ?h1))"
  proof -
    obtain n h2 where c: "count_sessions ?h1 = (n, h2)" by force
    obtain i h3 where i: "host_running w h2 = (i, h3)" by force
    have "ho_rtsp h3 = ho_rtsp h2" using host_running_sel(1) [of w h2] by (simp add: i)
    then show ?thesis by (simp add: end_sessions_of_def Let_def c i)
  qed
  have "launch_event (snd (clear_by_cert cert (ho_rtsp h))) = launch_event (ho_rtsp h)"
    by (simp add: clear_by_cert_def split: prod.split)
  then show "launch_event (ho_rtsp (end_sessions_of w cert h)) = launch_event (ho_rtsp h)" by (simp add: r)
  show "cert \<noteq> [] \<Longrightarrow> (i, x) \<in> set (session_slots (ho_rtsp (end_sessions_of w cert h))) \<Longrightarrow> sl_cert x \<noteq> cert"
    by (simp add: r clear_by_cert_slots)
qed

text \<open>What holds of every refusal and of the handler's own part holds of the result.\<close>

lemma answered:
  assumes "with_type req k s = ([Status b], t, s')" shows "k s = ([Status b], t, s')"
  using assms by (auto simp: with_type_def answer_def check_content_type_def split: option.splits if_splits)

lemma answered_auth:
  assumes "with_auth e req k s = ([Status b], t, s')" shows "k s = ([Status b], t, s')"
proof -
  have "authenticate (ue_lib e) (ws_allowed s) (ws_creds s) req \<noteq> Granted \<Longrightarrow> nothing_done s (with_auth e req k s)"
    by (rule nothing_done_auth)
  then show ?thesis
    using assms by (auto simp: with_auth_def nothing_done_def refusal_answer_def split: auth.splits)
qed

lemma answered_csrf:
  assumes "with_csrf e req k s = ([Status b], t, s')"
  shows "\<exists>tokens. k (s\<lparr> ws_csrf := tokens \<rparr>) = ([Status b], t, s')"
proof -
  let ?v = "validate_csrf_token (ws_origins s) (ue_now e) req (get_client_id (ue_lib e) (ws_creds s) req) (ws_csrf s)"
  obtain refused tokens where v: "?v = (refused, tokens)" by force
  have "refused \<noteq> Some (Status b)"
    using v by (auto simp: validate_csrf_token_def validate_stored_csrf_token_def Let_def split: option.splits if_splits)
  then show ?thesis using assms by (auto simp: with_csrf_def v answer_def Let_def split: option.splits)
qed

lemmas answered_steps = answered answered_auth answered_csrf

text \<open>
  (C6) Nothing of the web interface is done without credentials: a request that is not authenticated
  changes no state of the host, and is answered by one refusal, at every endpoint but the open ones
  (pages without a check, the locale, and the first setting of a password).
\<close>
theorem web_needs_credentials:
  assumes "authenticate (ue_lib e) (ws_allowed s) (ws_creds s) req \<noteq> Granted" and "\<not> open_endpoint ep s"
  shows "snd (snd (handle e ep req s)) = s \<and> (\<exists>a. fst (handle e ep req s) = [a] \<and> refusal_answer a)"
  using handle_refused [OF assms] by (simp add: nothing_done_def)

text \<open>
  (C22) A request that a browser sends for another site changes nothing but the stored tokens: its origin
  is not allowed, and it brings no token that is stored for its client and has not expired. The upload
  of a cover is the one endpoint without this check.
\<close>
theorem cross_site_request_refused:
  assumes "wr_header req ''Origin'' = Some url" and "\<not> is_allowed_origin (ws_origins s) url"
    and "\<forall>url. wr_header req ''Referer'' = Some url \<longrightarrow> \<not> is_allowed_origin (ws_origins s) url"
    and "\<forall>t k. (wr_header req ''X-CSRF-Token'' = Some t \<or> wr_query req ''csrf_token'' = Some t) \<longrightarrow>
        ws_csrf s (get_client_id (ue_lib e) (ws_creds s) req) = Some k \<longrightarrow>
        tk_token k \<noteq> t \<or> tk_expiration k < ue_now e"
    and "ep \<noteq> Upload_Cover"
  shows "same_but_tokens s (snd (snd (handle e ep req s)))"
proof -
  have "csrf_refused e req s"
    using assms(1-4)
    by (auto simp: csrf_refused_def validate_csrf_token_def validate_stored_csrf_token_def Let_def split: option.splits)
  from handle_csrf_refused [OF this assms(5)] show ?thesis by (simp add: unchanged_def)
qed

text \<open>
  (C39) A token is accepted only for the client it was given to, and only within an hour of that.
\<close>
theorem csrf_token_lifetime:
  assumes "csrf_step\<^sup>*\<^sup>* ({}, Map.empty, start) (issued, tokens, now)"
    and "fst (validate_stored_csrf_token now client_id provided tokens) = None"
  shows "\<exists>t0. (client_id, provided, t0) \<in> issued \<and> t0 \<le> now \<and> now \<le> t0 + CSRF_TOKEN_LIFETIME"
proof -
  have "csrf_ok (issued, tokens, now)"
    by (rule csrf_system.steps_ok [OF assms(1)]) (simp add: csrf_ok_def)
  with assms(2) show ?thesis
    by (fastforce simp: csrf_ok_def validate_stored_csrf_token_def split: option.splits if_splits)
qed

theorem csrf_token_lifetime_witness:
  "\<exists>t0. (ascii ''admin'', [1], t0) \<in> {(ascii ''admin'', [1 :: u8], 0 :: int)} \<and> t0 \<le> 3600 \<and> 3600 \<le> t0 + CSRF_TOKEN_LIFETIME"
proof (rule csrf_token_lifetime [where start = 0 and
    tokens = "generate_csrf_token 0 [1] (ascii ''admin'') Map.empty"])
  have "csrf_step ({}, Map.empty, 0) ({(ascii ''admin'', [1], 0)}, generate_csrf_token 0 [1] (ascii ''admin'') Map.empty, 0)"
    using csrf_step.Issue [of "{}" Map.empty 0 "ascii ''admin''" "[1]"] by simp
  moreover have "csrf_step ({(ascii ''admin'', [1], 0)}, generate_csrf_token 0 [1] (ascii ''admin'') Map.empty, 0)
      ({(ascii ''admin'', [1], 0)}, generate_csrf_token 0 [1] (ascii ''admin'') Map.empty, 3600)"
    by (rule csrf_step.Tick) simp
  ultimately show "csrf_step\<^sup>*\<^sup>* ({}, Map.empty, 0)
      ({(ascii ''admin'', [1], 0)}, generate_csrf_token 0 [1] (ascii ''admin'') Map.empty, 3600)"
    by (meson converse_rtranclp_into_rtranclp rtranclp.rtrancl_refl)
  show "fst (validate_stored_csrf_token 3600 (ascii ''admin'') [1]
      (generate_csrf_token 0 [1] (ascii ''admin'') Map.empty)) = None"
    by (simp add: validate_stored_csrf_token_def generate_csrf_token_def CSRF_TOKEN_LIFETIME_def)
qed

text \<open>
  A user who has set a name without a colon and a password gets in with them afterwards, from every
  address that is allowed.
\<close>
theorem new_password_logs_in:
  assumes "save_user_creds lib salt True username password file = (0, file')" and "username \<noteq> []"
    and "0x3A \<notin> set username" and "password \<noteq> []"
    and "wr_header req ''authorization'' = Some (basic_prefix @ enc)"
    and "wl_base64 lib enc = username @ 0x3A # password"
    and "net_rank (from_address (wl_make_address lib) (wr_address req)) \<le> net_rank allowed"
  shows "authenticate lib allowed (snd (reload_user_creds file' uc)) req = Granted"
proof -
  have f: "file' = Readable \<lparr> ct_username = Some username, ct_password = Some (hash_text lib (password @ salt)), ct_salt = Some salt \<rparr>"
    using assms(1) by (auto simp: save_user_creds_def split: if_splits)
  have "\<forall>c \<in> set username. c \<noteq> 0x3A" using assms(3) by auto
  then have "split_credentials (username @ 0x3A # password) = Some (username, password)"
    using assms(4) takeWhile_stop [of username "\<lambda>c. c \<noteq> 0x3A" "0x3A" password]
      dropWhile_stop [of username "\<lambda>c. c \<noteq> 0x3A" "0x3A" password] by (simp add: split_credentials_def)
  then show ?thesis
    using assms(2,5-7)
    by (simp add: authenticate_def f reload_user_creds_def credentials_ok_def iequals_def basic_prefix_def ascii_def)
qed

text \<open>
  A name with a colon locks its user out: the name that is compared ends before the first colon, so
  no request at all is granted.
\<close>
theorem colon_in_username_locks_out:
  assumes "0x3A \<in> set (uc_username uc)"
  shows "authenticate lib allowed uc req \<noteq> Granted"
proof -
  have lower: "0x3A \<in> set (to_lower t) \<longleftrightarrow> 0x3A \<in> set t" for t
  proof -
    have "(if 0x41 \<le> c \<and> c \<le> 0x5A then c + 0x20 else c) = 0x3A \<longleftrightarrow> c = 0x3A" for c :: u8
    proof (cases "0x41 \<le> c \<and> c \<le> 0x5A")
      case True
      then have "c \<noteq> 0x3A" by auto
      moreover have "c + 0x20 \<noteq> 0x3A"
      proof
        assume "c + 0x20 = 0x3A"
        then have "c = 0x3A - 0x20" by (metis add_diff_cancel_right')
        with True show False by simp
      qed
      ultimately show ?thesis using True by simp
    qed auto
    note low = this
    show ?thesis unfolding to_lower_def set_map image_iff by (simp only: low eq_commute [of "0x3A"]) blast
  qed
  have "0x3A \<notin> set (takeWhile (\<lambda>c. c \<noteq> 0x3A) t)" for t :: bytes by (auto dest: set_takeWhileD)
  then have "to_lower (takeWhile (\<lambda>c. c \<noteq> 0x3A) t) \<noteq> to_lower (uc_username uc)" for t
    using assms lower by metis
  then have "split_credentials t = Some (name, pw) \<Longrightarrow> \<not> iequals name (uc_username uc)" for t name pw
    by (auto simp: split_credentials_def iequals_def Let_def split: if_splits)
  then show ?thesis by (auto simp: authenticate_def credentials_ok_def split: option.splits)
qed

text \<open>
  A PIN outside 0000 to 9999 is refused and pairs all the same: the handler goes on after its
  refusal, hands the PIN to the pairing and writes a second answer.
\<close>
theorem pin_answered_twice:
  assumes "check_content_type req (ascii ''application/json'') = None"
    and "authenticate (ue_lib e) (ws_allowed s) (ws_creds s) req = Granted" and "\<not> csrf_refused e req s"
    and "wl_parse (ue_lib e) (wr_content req) = Some input"
    and "wl_value (ue_lib e) input ''name'' [] = Some name" and "wl_value (ue_lib e) input ''pin'' [] = Some p"
    and "stoi p = Some n" and "n < 0 \<or> 9999 < n"
    and "pin (ue_pair e) (ue_first e) p name (ws_nv s) = (Pin_Result b, nv, reply)"
  shows "fst (save_pin e req s) = [Bad_Request (ascii ''PIN must be between 0000 and 9999''), Status b] \<and>
    ws_nv (snd (snd (save_pin e req s))) = nv"
  using assms
  by (auto simp: save_pin_def with_type_def with_auth_def with_csrf_def csrf_refused_def try_or_def split: prod.splits)

text \<open>
  Saving an application leaves the list sorted by name. With index -1 the entry is added; with an
  index of the list it takes the place of the entry there; with any other index it is lost, and the list
  is as before.
\<close>
theorem saved_apps_sorted:
  assumes "saved_apps lib input file_tree = Some new" and "wl_apps lib file_tree = Some old"
    and "wl_int lib cleaned ''index'' = Some index"
    and "Option.bind (drop_if_empty lib ''prep-cmd'' input) (drop_if_empty lib ''detached'') = Some cleaned"
  shows "sorted (map (\<lambda>a. the (wl_name lib a)) new) \<and>
    mset new = (if index = - 1 then add_mset (wl_erase lib cleaned ''index'') (mset old)
      else if 0 \<le> index \<and> index < int (length old) then mset (old[nat index := wl_erase lib cleaned ''index''])
      else mset old)"
proof -
  let ?list = "if index = - 1 then old @ [wl_erase lib cleaned ''index''] else replace_at index (wl_erase lib cleaned ''index'') old"
  have "sort_apps lib ?list = Some new"
    using assms by (auto simp: saved_apps_def bind_eq_Some_conv)
  then have "sorted (map (\<lambda>a. the (wl_name lib a)) new)" "mset new = mset ?list"
    by (auto simp: sort_apps_def sorted_short split: if_splits)
  then show ?thesis by (auto simp: replace_at_def)
qed

text \<open>
  (C37) Disabling a client ends its sessions: no session with its certificate is left on the server, and
  the application ends with the last session.
\<close>
theorem disabled_client_is_cut_off:
  assumes "update_client e req s = ([Status True], thrown, s')"
    and "wl_parse (ue_lib e) (wr_content req) = Some input"
    and "wl_value (ue_lib e) input ''uuid'' [] = Some uuid" and "wl_value_bool (ue_lib e) input ''enabled'' True = Some False"
    and "get_cert_by_uuid uuid (ws_nv s') \<noteq> []"
  shows "get_cert_by_uuid uuid (ws_nv s') \<notin> (\<lambda>(i, x). sl_cert x) ` set (session_slots (ho_rtsp (ws_host s'))) \<and>
    launch_event (ho_rtsp (ws_host s')) = launch_event (ho_rtsp (ws_host s))"
proof -
  obtain found nv where r: "set_client_enabled (ue_io e) uuid False (ws_nv s) = (found, nv)" by force
  obtain tokens where "s' = (if found
      then s\<lparr> ws_csrf := tokens, ws_nv := nv, ws_host := end_sessions_of (ue_web e) (get_cert_by_uuid uuid nv) (ws_host s) \<rparr>
      else s\<lparr> ws_csrf := tokens, ws_nv := nv \<rparr>) \<and> found"
    using assms(1) unfolding update_client_def
    by (auto dest!: answered_steps simp: try_or_def assms(2-4) r answer_def Let_def split: if_splits)
  then show ?thesis
    using assms(5) end_sessions_rtsp by (fastforce simp: image_iff)
qed

text \<open>
  Removing a client ends none of its sessions: \<open>unpair\<close> never touches the RTSP server, so a client
  that is no longer paired goes on streaming, unless it was the last one and the application ends.
\<close>
theorem unpair_keeps_sessions:
  "ho_rtsp (ws_host (snd (snd (unpair e req s)))) = ho_rtsp (ws_host s)"
  by (auto simp: unpair_def with_type_def with_auth_def with_csrf_def try_or_def answer_def failed_def Let_def
      split: option.splits prod.splits auth.splits)


section \<open>An example\<close>

text \<open>
  Texts are their own Base64, hash and JSON; every member of a JSON value is the text, and every switch is
  off. The one user is \<open>u\<close> with the password \<open>p\<close>.
\<close>

definition toy_web_lib :: "bytes web_lib" where
  "toy_web_lib = \<lparr> wl_make_address = (\<lambda>_. V4 0x7F000001), wl_base64 = (\<lambda>t. t), wl_hash = (\<lambda>t. t), wl_parse = Some,
     wl_items = (\<lambda>t. Some [(ascii ''port'', t)]), wl_null = (\<lambda>_. False), wl_string = Some, wl_dump = (\<lambda>t. t),
     wl_value = (\<lambda>t _ _. Some t), wl_value_bool = (\<lambda>_ _ _. Some False), wl_int = (\<lambda>_ _. Some (- 1)),
     wl_member_empty = (\<lambda>_ _. Some False), wl_erase = (\<lambda>t _. t), wl_apps = (\<lambda>t. Some (map (\<lambda>c. [c]) t)),
     wl_put_apps = (\<lambda>_ l. concat l), wl_name = Some, wl_image = (\<lambda>_. Some None) \<rparr>"

definition toy_ui :: "(nat, bytes) ui_env" where
  "toy_ui = \<lparr> ue_lib = toy_web_lib, ue_now = 0, ue_token = [1], ue_salt = [2], ue_written = True, ue_web = web_example,
     ue_pair = toy_pair_lib, ue_io = good_io, ue_io_load = good_io, ue_first = [5], ue_nodes = (\<lambda>_. None),
     ue_files = files_example, ue_env = Map.empty, ue_global_prep = [], ue_reset_persistence = True,
     ue_url_host = (\<lambda>t. t), ue_url_escape = (\<lambda>t. t), ue_downloads = (\<lambda>_. True), ue_license_ok = (\<lambda>_ _. True),
     ue_appdata = [], ue_read = (\<lambda>_. None), ue_log = [], ue_locale = [], ue_report = (\<lambda>_. []) \<rparr>"

definition toy_site :: "nat site" where
  "toy_site = \<lparr> ws_host = host_example0, ws_nv = one_client,
     ws_creds = \<lparr> uc_username = ascii ''u'', uc_password = hash_text toy_web_lib (ascii ''p'' @ [2]), uc_salt = [2] \<rparr>,
     ws_creds_file = Absent, ws_allowed = WAN, ws_origins = [ascii ''https://localhost''], ws_csrf = Map.empty,
     ws_apps_file = [], ws_config_file = [], ws_events = [] \<rparr>"

definition toy_request :: "string option \<Rightarrow> string option \<Rightarrow> bytes \<Rightarrow> web_request" where
  "toy_request login origin content = \<lparr>
     wr_header = [''content-type'' \<mapsto> ascii ''application/json'']
       (''authorization'' := map_option (\<lambda>l. basic_prefix @ ascii l) login, ''Origin'' := map_option ascii origin),
     wr_query = Map.empty, wr_address = ascii ''127.0.0.1'', wr_content = content, wr_match = [] \<rparr>"

lemma rank_wan: "\<not> net_rank n > net_rank WAN"
  by (cases n) (simp_all add: net_rank_def)

lemma toy_granted: "authenticate toy_web_lib WAN (ws_creds toy_site) (toy_request (Some ''u:p'') origin content) = Granted"
proof -
  have "split_credentials (ascii ''u:p'') = Some (ascii ''u'', ascii ''p'')" by code_simp
  then show ?thesis
    using rank_wan
    by (simp add: authenticate_def toy_request_def toy_site_def credentials_ok_def iequals_def toy_web_lib_def basic_prefix_def ascii_def)
qed

lemma toy_refused: "authenticate toy_web_lib WAN (ws_creds toy_site) (toy_request None origin content) = Refused Unauthorized"
  using rank_wan by (simp add: authenticate_def toy_request_def toy_site_def ascii_def)

lemma toy_type: "check_content_type (toy_request login origin content) (ascii ''application/json'') = None"
proof -
  have "to_lower (trim (takeWhile (\<lambda>c. c \<noteq> 0x3B) (ascii ''application/json''))) = to_lower (ascii ''application/json'')"
    by code_simp
  then show ?thesis by (simp add: check_content_type_def toy_request_def)
qed

lemma toy_lib_sel [simp]:
  "wl_parse toy_web_lib t = Some t" "wl_value toy_web_lib t k d = Some t" "wl_value_bool toy_web_lib t k b = Some False"
  "wr_content (toy_request login origin content) = content"
  by (simp_all add: toy_web_lib_def toy_request_def)

lemma toy_sel [simp]: "ue_lib toy_ui = toy_web_lib" "ws_allowed toy_site = WAN" "ue_written toy_ui"
  "ws_csrf toy_site = Map.empty" "ws_origins toy_site = [ascii ''https://localhost'']"
  by (simp_all add: toy_ui_def toy_site_def)

lemma toy_ui_env: "ue_pair toy_ui = toy_pair_lib" "ue_first toy_ui = [5]" "ws_nv toy_site = one_client"
  by (simp_all add: toy_ui_def toy_site_def)

lemma toy_no_origin: "\<not> csrf_refused toy_ui (toy_request (Some ''u:p'') None content) toy_site"
  by (simp add: csrf_refused_def validate_csrf_token_def toy_request_def)

lemma toy_passes:
  "with_type (toy_request (Some ''u:p'') None content) (with_auth toy_ui (toy_request (Some ''u:p'') None content)
     (with_csrf toy_ui (toy_request (Some ''u:p'') None content) k)) toy_site = k toy_site"
proof -
  have "with_csrf toy_ui (toy_request (Some ''u:p'') None content) k toy_site = k toy_site"
    by (simp add: with_csrf_def validate_csrf_token_def toy_request_def toy_site_def)
  then show ?thesis by (simp add: with_type_def toy_type with_auth_def toy_granted)
qed

text \<open>The witnesses: an application is not closed for a stranger, nor for another site.\<close>

theorem web_needs_credentials_witness:
  "snd (snd (handle toy_ui Close_App (toy_request None None []) toy_site)) = toy_site"
  using web_needs_credentials [of toy_ui toy_site "toy_request None None []" Close_App] toy_refused
  by (simp add: open_endpoint_def)

theorem cross_site_request_refused_witness:
  "same_but_tokens toy_site (snd (snd (handle toy_ui Close_App (toy_request (Some ''u:p'') (Some ''https://evil'') []) toy_site)))"
proof (rule cross_site_request_refused)
  show "wr_header (toy_request (Some ''u:p'') (Some ''https://evil'') []) ''Origin'' = Some (ascii ''https://evil'')"
    by (simp add: toy_request_def)
  show "\<not> is_allowed_origin (ws_origins toy_site) (ascii ''https://evil'')"
    by (simp add: is_allowed_origin_def ascii_def)
  show "\<forall>url. wr_header (toy_request (Some ''u:p'') (Some ''https://evil'') []) ''Referer'' = Some url \<longrightarrow>
      \<not> is_allowed_origin (ws_origins toy_site) url"
    by (simp add: toy_request_def)
qed simp_all

theorem new_password_logs_in_witness:
  "\<exists>file'. save_user_creds toy_web_lib [2] True (ascii ''u'') (ascii ''p'') Absent = (0, file') \<and>
    authenticate toy_web_lib WAN (snd (reload_user_creds file' \<lparr> uc_username = [], uc_password = [], uc_salt = [] \<rparr>))
      (toy_request (Some ''u:p'') None []) = Granted"
proof -
  obtain file' where f: "save_user_creds toy_web_lib [2] True (ascii ''u'') (ascii ''p'') Absent = (0, file')"
    by (simp add: save_user_creds_def)
  have "authenticate toy_web_lib WAN (snd (reload_user_creds file' \<lparr> uc_username = [], uc_password = [], uc_salt = [] \<rparr>))
      (toy_request (Some ''u:p'') None []) = Granted"
    by (rule new_password_logs_in [OF f, where enc = "ascii ''u:p''"])
      (use rank_wan in \<open>simp_all add: toy_request_def toy_web_lib_def ascii_def not_less\<close>)
  with f show ?thesis by blast
qed

theorem colon_in_username_locks_out_witness:
  "authenticate toy_web_lib WAN \<lparr> uc_username = ascii ''a:b'', uc_password = hash_text toy_web_lib (ascii ''p''), uc_salt = [] \<rparr>
     (toy_request (Some ''a:b:p'') None []) \<noteq> Granted"
  by (rule colon_in_username_locks_out) (simp add: ascii_def)

theorem pin_answered_twice_witness:
  "fst (save_pin toy_ui (toy_request (Some ''u:p'') None (ascii ''12345'')) toy_site) =
     [Bad_Request (ascii ''PIN must be between 0000 and 9999''), Status False]"
proof -
  have "stoi (ascii ''12345'') = Some 12345" by code_simp
  moreover have "pin toy_pair_lib [5] (ascii ''12345'') (ascii ''12345'') one_client = (Pin_Result False, one_client, None)"
    by (simp add: pin_def one_client_def empty_nv_def)
  ultimately show ?thesis
    using pin_answered_twice [of "toy_request (Some ''u:p'') None (ascii ''12345'')" toy_ui toy_site "ascii ''12345''"
        "ascii ''12345''" "ascii ''12345''" 12345 False one_client None] toy_type toy_granted toy_no_origin
    by (simp add: toy_ui_env)
qed

theorem disabled_client_is_cut_off_witness:
  "\<exists>thrown s'. update_client toy_ui (toy_request (Some ''u:p'') None [5]) toy_site = ([Status True], thrown, s') \<and>
    [0x41, 0x41] \<notin> (\<lambda>(i, x). sl_cert x) ` set (session_slots (ho_rtsp (ws_host s')))"
proof -
  have "\<exists>s'. update_client toy_ui (toy_request (Some ''u:p'') None [5]) toy_site = ([Status True], False, s') \<and>
      ws_nv s' = snd (set_client_enabled good_io [5] False one_client)"
    unfolding update_client_def toy_passes
    by (simp add: try_or_def answer_def Let_def toy_ui_def toy_site_def one_client_def set_client_enabled_def)
  then obtain s' where u: "update_client toy_ui (toy_request (Some ''u:p'') None [5]) toy_site = ([Status True], False, s')"
      and nv: "ws_nv s' = snd (set_client_enabled good_io [5] False one_client)" by blast
  have "get_cert_by_uuid [5] (ws_nv s') = [0x41, 0x41]"
    by (simp add: nv set_client_enabled_def one_client_def save_state_def get_cert_by_uuid_def good_io_def empty_nv_def)
  with disabled_client_is_cut_off [OF u, of "[5]" "[5]"] u show ?thesis by auto
qed


text \<open>A value with the end of a line in it adds options of its own.\<close>

lemma newline_adds_option:
  "parse_config (config_stream [(ascii ''sunshine_name'', ascii ''x'' @ 0x0A # ascii ''port = 1'')]) (ascii ''port'') = Some (ascii ''1'')"
  by code_simp

text \<open>A short header throws; the answer is written before.\<close>

lemma short_header_throws:
  "authenticate toy_web_lib WAN (ws_creds toy_site)
     ((toy_request None None [])\<lparr> wr_header := [''authorization'' \<mapsto> ascii ''x''] \<rparr>) = Threw Unauthorized"
  using rank_wan by (simp add: authenticate_def toy_site_def ascii_def)

text \<open>With credentials, a cover is stored for any site.\<close>

lemma cover_from_other_site:
  "ws_events (snd (snd (handle toy_ui Upload_Cover (toy_request (Some ''u:p'') (Some ''https://evil'') (ascii ''images.igdb.com'')) toy_site))) \<noteq> []"
  by (simp add: upload_cover_def with_type_def toy_type with_auth_def toy_granted try_or_def answer_def Let_def add_event_def)
    (simp add: toy_ui_def toy_site_def try_or_def answer_def add_event_def ascii_def)

end
