(* ===== verification/Video_Colorspace.thy ===== *)
theory Video_Colorspace
  imports Complex_Main Rtsp_Commands
begin

text \<open>
  Colour and time of a video stream: \<open>src/video_colorspace.cpp\<close> with its header, and the frame rates and
  the H.264 profile of \<open>src/video.h\<close> and \<open>src/video.cpp\<close>. The \<open>double\<close> and \<open>float\<close> arithmetic of the
  colour vectors is taken as exact rational arithmetic. The constants of FFmpeg are constructors, and
  \<open>av_d2q\<close> is a parameter.
\<close>

section \<open>Colorspace of a stream\<close>

datatype colorspace_e = Rec601 | Rec709 | Bt2020sdr | Bt2020

record sunshine_colorspace =
  so_colorspace :: colorspace_e
  so_full_range :: bool
  so_bit_depth :: nat

definition colorspace_is_hdr :: "sunshine_colorspace \<Rightarrow> bool" where
  "colorspace_is_hdr c \<longleftrightarrow> so_colorspace c = Bt2020"

text \<open>\<open>>>\<close> of a negative \<open>int\<close> rounds down, as \<open>div\<close> does.\<close>

definition requested_colorspace :: "monitor_config \<Rightarrow> bool \<Rightarrow> colorspace_e" where
  "requested_colorspace m hdr_display =
     (if mo_dynamicRange m > 0 \<and> hdr_display then Bt2020
      else let csc = mo_encoderCscMode m div 2
        in if csc = 0 then Rec601 else if csc = 1 then Rec709 else if csc = 2 then Bt2020sdr else Rec709)"

definition colorspace_from_client_config :: "monitor_config \<Rightarrow> bool \<Rightarrow> sunshine_colorspace" where
  "colorspace_from_client_config m hdr_display =
     (let c = requested_colorspace m hdr_display;
          depth = (if mo_dynamicRange m = 0 then 8 else 10)
      in \<lparr> so_colorspace = (if c = Bt2020sdr \<and> depth \<noteq> 10 then Rec709 else c),
           so_full_range = (mo_encoderCscMode m mod 2 = 1), so_bit_depth = depth \<rparr>)"

section \<open>Values of FFmpeg\<close>

datatype av_primaries = AVCOL_PRI_SMPTE170M | AVCOL_PRI_BT709 | AVCOL_PRI_BT2020
datatype av_transfer = AVCOL_TRC_SMPTE170M | AVCOL_TRC_BT709 | AVCOL_TRC_BT2020_10 | AVCOL_TRC_SMPTE2084
datatype av_matrix = AVCOL_SPC_SMPTE170M | AVCOL_SPC_BT709 | AVCOL_SPC_BT2020_NCL
datatype av_range = AVCOL_RANGE_MPEG | AVCOL_RANGE_JPEG
datatype sws_colorspace = SWS_CS_SMPTE170M | SWS_CS_ITU709 | SWS_CS_BT2020

record avcodec_colorspace =
  ac_primaries :: av_primaries
  ac_transfer_function :: av_transfer
  ac_matrix :: av_matrix
  ac_range :: av_range
  ac_software_format :: sws_colorspace

text \<open>\<open>None\<close> is a failed assertion on the bit depth.\<close>

definition avcodec_colorspace_from_sunshine_colorspace :: "sunshine_colorspace \<Rightarrow> avcodec_colorspace option" where
  "avcodec_colorspace_from_sunshine_colorspace c =
     (let range = (if so_full_range c then AVCOL_RANGE_JPEG else AVCOL_RANGE_MPEG)
      in case so_colorspace c of
        Rec601 \<Rightarrow> Some \<lparr> ac_primaries = AVCOL_PRI_SMPTE170M, ac_transfer_function = AVCOL_TRC_SMPTE170M,
          ac_matrix = AVCOL_SPC_SMPTE170M, ac_range = range, ac_software_format = SWS_CS_SMPTE170M \<rparr>
      | Rec709 \<Rightarrow> Some \<lparr> ac_primaries = AVCOL_PRI_BT709, ac_transfer_function = AVCOL_TRC_BT709,
          ac_matrix = AVCOL_SPC_BT709, ac_range = range, ac_software_format = SWS_CS_ITU709 \<rparr>
      | Bt2020sdr \<Rightarrow>
          if so_bit_depth c \<noteq> 10 then None
          else Some \<lparr> ac_primaries = AVCOL_PRI_BT2020, ac_transfer_function = AVCOL_TRC_BT2020_10,
            ac_matrix = AVCOL_SPC_BT2020_NCL, ac_range = range, ac_software_format = SWS_CS_BT2020 \<rparr>
      | Bt2020 \<Rightarrow>
          if so_bit_depth c \<noteq> 10 then None
          else Some \<lparr> ac_primaries = AVCOL_PRI_BT2020, ac_transfer_function = AVCOL_TRC_SMPTE2084,
            ac_matrix = AVCOL_SPC_BT2020_NCL, ac_range = range, ac_software_format = SWS_CS_BT2020 \<rparr>)"

section \<open>Colour vectors\<close>

record color_t =
  color_vec_y :: "rat list"
  color_vec_u :: "rat list"
  color_vec_v :: "rat list"
  range_y :: "rat list"
  range_uv :: "rat list"

definition color_coefficients :: "colorspace_e \<Rightarrow> rat \<times> rat" where
  "color_coefficients c =
     (case c of
        Rec601 \<Rightarrow> (299 / 1000, 114 / 1000)
      | Rec709 \<Rightarrow> (2126 / 10000, 722 / 10000)
      | Bt2020 \<Rightarrow> (2627 / 10000, 593 / 10000)
      | Bt2020sdr \<Rightarrow> (2627 / 10000, 593 / 10000))"

text \<open>Factor and offset of the luma and of the chroma values.\<close>

definition color_ranges :: "sunshine_colorspace \<Rightarrow> bool \<Rightarrow> rat \<times> rat \<times> rat \<times> rat" where
  "color_ranges c unorm_output =
     (let d = so_bit_depth c;
          (y_mult, y_add, uv_mult, uv_add) =
            (if so_full_range c then (2 ^ d - 1, 0, 2 ^ d - 1, 2 ^ (d - 1))
             else (2 ^ (d - 8) * 219, 2 ^ (d - 8) * 16, 2 ^ (d - 8) * 224, 2 ^ (d - 8) * 128));
          unorm_range = 2 ^ d - 1
      in if unorm_output then (y_mult / unorm_range, y_add / unorm_range, uv_mult / unorm_range, uv_add / unorm_range)
         else (y_mult, y_add + 1 / 2, uv_mult, uv_add + 1 / 2))"

definition generate_color_vectors :: "sunshine_colorspace \<Rightarrow> bool \<Rightarrow> color_t" where
  "generate_color_vectors c unorm_output =
     (let (Kr, Kb) = color_coefficients (so_colorspace c);
          Kg = 1 - Kr - Kb;
          (y_mult, y_add, uv_mult, uv_add) = color_ranges c unorm_output
      in \<lparr> color_vec_y = [Kr * y_mult, Kg * y_mult, Kb * y_mult, y_add],
           color_vec_u = [- (1 / 2) * Kr / (1 - Kb) * uv_mult, - (1 / 2) * Kg / (1 - Kb) * uv_mult, 1 / 2 * uv_mult, uv_add],
           color_vec_v = [1 / 2 * uv_mult, - (1 / 2) * Kg / (1 - Kr) * uv_mult, - (1 / 2) * Kb / (1 - Kr) * uv_mult, uv_add],
           range_y = [1, 0], range_uv = [1, 0] \<rparr>)"

definition color_keys :: "((colorspace_e \<times> bool \<times> nat) \<times> bool) list" where
  "color_keys =
     [((Rec601, False, 8), False), ((Rec601, True, 8), False), ((Rec601, False, 10), False), ((Rec601, True, 10), False),
      ((Rec709, False, 8), False), ((Rec709, True, 8), False), ((Rec709, False, 10), False), ((Rec709, True, 10), False),
      ((Bt2020, False, 8), False), ((Bt2020, True, 8), False), ((Bt2020, False, 10), False), ((Bt2020, True, 10), False),
      ((Rec601, False, 8), True), ((Rec601, True, 8), True), ((Rec601, False, 10), True), ((Rec601, True, 10), True),
      ((Rec709, False, 8), True), ((Rec709, True, 8), True), ((Rec709, False, 10), True), ((Rec709, True, 10), True),
      ((Bt2020, False, 8), True), ((Bt2020, True, 8), True), ((Bt2020, False, 10), True), ((Bt2020, True, 10), True)]"

definition colors :: "color_t list" where
  "colors = map (\<lambda>((c, full, depth), unorm).
       generate_color_vectors \<lparr> so_colorspace = c, so_full_range = full, so_bit_depth = depth \<rparr> unorm) color_keys"

definition color_vectors_from_colorspace :: "sunshine_colorspace \<Rightarrow> bool \<Rightarrow> color_t" where
  "color_vectors_from_colorspace c unorm_output =
     colors ! ((case so_colorspace c of Rec601 \<Rightarrow> 0 | Rec709 \<Rightarrow> 4 | Bt2020 \<Rightarrow> 8 | Bt2020sdr \<Rightarrow> 8)
       + (if so_bit_depth c = 10 then 2 else 0) + (if so_full_range c then 1 else 0) + (if unorm_output then 12 else 0))"

section \<open>Frame rates and profiles\<close>

text \<open>An \<open>AVRational\<close>.\<close>

type_synonym av_rational = "int \<times> int"

definition framerateX100_to_rational :: "(rat \<Rightarrow> int \<Rightarrow> av_rational) \<Rightarrow> int \<Rightarrow> av_rational" where
  "framerateX100_to_rational av_d2q x =
     (if x mod 2997 = 0 then (to_int (trunc_div x 2997 * 30000), 1001)
      else if x = 2397 \<or> x = 2398 then (24000, 1001)
      else av_d2q (of_int x / 100) (2 ^ 26))"

definition framerate_to_rational :: "(rat \<Rightarrow> int \<Rightarrow> av_rational) \<Rightarrow> monitor_config \<Rightarrow> av_rational" where
  "framerate_to_rational av_d2q m =
     (if mo_framerateX100 m > 0 then framerateX100_to_rational av_d2q (mo_framerateX100 m) else (mo_framerate m, 1))"

text \<open>The interval in nanoseconds. \<open>None\<close> is a division by zero.\<close>

definition capture_frame_interval :: "(rat \<Rightarrow> int \<Rightarrow> av_rational) \<Rightarrow> monitor_config \<Rightarrow> int option" where
  "capture_frame_interval av_d2q m =
     (let (num, den) = framerate_to_rational av_d2q m
      in if num = 0 then None else Some (trunc_div (den * 1000000000) num))"

datatype h264_profile = AV_PROFILE_H264_HIGH_444_PREDICTIVE | AV_PROFILE_H264_CONSTRAINED_BASELINE | AV_PROFILE_H264_HIGH

definition amf_cavlc :: int where "amf_cavlc = 2"

definition select_h264_profile :: "bytes \<Rightarrow> monitor_config \<Rightarrow> int \<Rightarrow> h264_profile" where
  "select_h264_profile encoder_name m amd_coder =
     (if mo_chromaSamplingType m = 1 then AV_PROFILE_H264_HIGH_444_PREDICTIVE
      else if encoder_name = ascii ''h264_amf'' \<and> amd_coder = amf_cavlc then AV_PROFILE_H264_CONSTRAINED_BASELINE
      else AV_PROFILE_H264_HIGH)"

section \<open>Properties\<close>

lemma colorspace_assertions_hold:
  "avcodec_colorspace_from_sunshine_colorspace (colorspace_from_client_config m hdr) \<noteq> None"
  by (simp add: avcodec_colorspace_from_sunshine_colorspace_def colorspace_from_client_config_def
      requested_colorspace_def Let_def split: colorspace_e.split)

lemma hdr_needs_display:
  "colorspace_is_hdr (colorspace_from_client_config m hdr) \<longleftrightarrow> mo_dynamicRange m > 0 \<and> hdr"
  by (simp add: colorspace_is_hdr_def colorspace_from_client_config_def requested_colorspace_def Let_def)

lemma bit_depth_of_config: "so_bit_depth (colorspace_from_client_config m hdr) = (if mo_dynamicRange m = 0 then 8 else 10)"
  by (simp add: colorspace_from_client_config_def Let_def)

lemma same_coefficients:
  "color_coefficients c = color_coefficients c' \<Longrightarrow>
    generate_color_vectors \<lparr> so_colorspace = c, so_full_range = f, so_bit_depth = d \<rparr> u
      = generate_color_vectors \<lparr> so_colorspace = c', so_full_range = f, so_bit_depth = d \<rparr> u"
  by (simp only: generate_color_vectors_def color_ranges_def sunshine_colorspace.simps)

lemma color_key:
  assumes "d \<in> {8, 10}" "c \<noteq> Bt2020sdr"
  shows "color_keys ! ((case c of Rec601 \<Rightarrow> 0 | Rec709 \<Rightarrow> 4 | Bt2020 \<Rightarrow> 8 | Bt2020sdr \<Rightarrow> 8)
       + (if d = 10 then 2 else 0) + (if f then 1 else 0) + (if u then 12 else 0)) = ((c, f, d), u)"
  using assms by (cases c; cases f; cases u; auto simp: color_keys_def)

lemma color_index:
  "(case c of Rec601 \<Rightarrow> 0 | Rec709 \<Rightarrow> 4 | Bt2020 \<Rightarrow> 8 | Bt2020sdr \<Rightarrow> 8)
       + (if d = 10 then 2 else 0) + (if f then 1 else 0) + (if u then 12 else 0) < length color_keys"
  by (simp add: color_keys_def split: colorspace_e.split)

lemma table_entry:
  assumes "d \<in> {8, 10}" "c \<noteq> Bt2020sdr"
  shows "color_vectors_from_colorspace \<lparr> so_colorspace = c, so_full_range = f, so_bit_depth = d \<rparr> u
    = generate_color_vectors \<lparr> so_colorspace = c, so_full_range = f, so_bit_depth = d \<rparr> u"
  by (simp only: color_vectors_from_colorspace_def colors_def nth_map [OF color_index] color_key [OF assms]
      sunshine_colorspace.simps split)

text \<open>
  The precomputed table holds, at the index that is looked up, the vectors of the very colorspace, for
  every stream a client can ask for.
\<close>
theorem color_table_equivalent:
  "color_vectors_from_colorspace (colorspace_from_client_config m hdr) unorm
    = generate_color_vectors (colorspace_from_client_config m hdr) unorm"
proof -
  obtain c f d where C: "colorspace_from_client_config m hdr = \<lparr> so_colorspace = c, so_full_range = f, so_bit_depth = d \<rparr>"
    and d: "d \<in> {8, 10}"
    by (simp add: colorspace_from_client_config_def Let_def)
  show ?thesis
  proof (cases "c = Bt2020sdr")
    case True
    have "color_vectors_from_colorspace \<lparr> so_colorspace = c, so_full_range = f, so_bit_depth = d \<rparr> unorm
        = color_vectors_from_colorspace \<lparr> so_colorspace = Bt2020, so_full_range = f, so_bit_depth = d \<rparr> unorm"
      by (simp only: color_vectors_from_colorspace_def sunshine_colorspace.simps colorspace_e.case True)
    also have "\<dots> = generate_color_vectors \<lparr> so_colorspace = Bt2020, so_full_range = f, so_bit_depth = d \<rparr> unorm"
      by (rule table_entry [OF d]) simp
    also have "\<dots> = generate_color_vectors \<lparr> so_colorspace = c, so_full_range = f, so_bit_depth = d \<rparr> unorm"
      by (rule same_coefficients) (simp add: color_coefficients_def True)
    finally show ?thesis unfolding C .
  next
    case False
    then show ?thesis unfolding C by (rule table_entry [OF d])
  qed
qed

definition pixel :: "rat list \<Rightarrow> rat \<times> rat \<times> rat \<Rightarrow> rat" where
  "pixel v = (\<lambda>(r, g, b). v ! 0 * r + v ! 1 * g + v ! 2 * b + v ! 3)"

lemma coefficients_bounds:
  assumes "color_coefficients c = (Kr, Kb)"
  shows "0 < Kr \<and> 0 < Kb \<and> Kr + Kb < 1"
proof -
  from assms have "Kr = fst (color_coefficients c)" "Kb = snd (color_coefficients c)" by simp_all
  then show ?thesis by (cases c) (simp_all add: color_coefficients_def)
qed

lemma weighted_bounds:
  assumes "0 < Kr" "0 < Kb" "Kr + Kb < 1" "r \<in> {0..1}" "g \<in> {0..1}" "b \<in> {0..1 :: rat}"
  shows "0 \<le> Kr * r + (1 - Kr - Kb) * g + Kb * b \<and> Kr * r + (1 - Kr - Kb) * g + Kb * b \<le> 1"
    "0 \<le> Kr * r + (1 - Kr - Kb) * g \<and> Kr * r + (1 - Kr - Kb) * g \<le> 1 - Kb"
proof -
  have unit: "0 \<le> k * x \<and> k * x \<le> k" if "0 \<le> k" "x \<in> {0..1}" for k x :: rat
    using that by (simp add: mult_left_le)
  obtain p q s where pqs: "p = Kr * r" "q = (1 - Kr - Kb) * g" "s = Kb * b" by blast
  from assms have "0 \<le> p \<and> p \<le> Kr" "0 \<le> q \<and> q \<le> 1 - Kr - Kb" "0 \<le> s \<and> s \<le> Kb"
    by (simp_all add: unit pqs)
  then have "0 \<le> p + q + s \<and> p + q + s \<le> 1" "0 \<le> p + q \<and> p + q \<le> 1 - Kb" by simp_all
  then show "0 \<le> Kr * r + (1 - Kr - Kb) * g + Kb * b \<and> Kr * r + (1 - Kr - Kb) * g + Kb * b \<le> 1"
    "0 \<le> Kr * r + (1 - Kr - Kb) * g \<and> Kr * r + (1 - Kr - Kb) * g \<le> 1 - Kb"
    unfolding pqs .
qed

text \<open>A chroma value is the weighted distance of its colour from the others.\<close>

definition chroma :: "rat \<Rightarrow> rat \<Rightarrow> rat \<Rightarrow> rat \<Rightarrow> rat" where
  "chroma K x w b = (b - x / K) * (w / 2)"

lemma chroma_bounds:
  assumes "0 < K" "0 \<le> x" "x \<le> K" "b \<in> {0..1}" "0 \<le> w"
  shows "\<bar>chroma K x w b\<bar> \<le> w / 2"
proof -
  have "0 \<le> x / K" "x / K \<le> 1" using assms by auto
  with \<open>b \<in> {0..1}\<close> have "\<bar>b - x / K\<bar> \<le> 1" unfolding abs_le_iff atLeastAtMost_iff by linarith
  then have "\<bar>(b - x / K) * (w / 2)\<bar> \<le> 1 * (w / 2)"
    unfolding abs_mult using assms by (intro mult_mono) auto
  then show ?thesis by (simp add: chroma_def)
qed

lemma chroma_grey: "K \<noteq> 0 \<Longrightarrow> chroma K (K * r) w r = 0"
  by (simp add: chroma_def)

lemma pixel_chroma:
  assumes "color_coefficients (so_colorspace c) = (Kr, Kb)" "color_ranges c unorm = (y_mult, y_add, w, uv_add)"
  shows "pixel (color_vec_u (generate_color_vectors c unorm)) (r, g, b) = chroma (1 - Kb) (Kr * r + (1 - Kr - Kb) * g) w b + uv_add"
    "pixel (color_vec_v (generate_color_vectors c unorm)) (r, g, b) = chroma (1 - Kr) (Kb * b + (1 - Kb - Kr) * g) w r + uv_add"
proof -
  have *: "- (1 / 2) * k / K * w * x + - (1 / 2) * l / K * w * y + 1 / 2 * w * z = chroma K (k * x + l * y) w z"
    for k l x y z K :: rat
    by (cases "K = 0") (simp_all add: chroma_def field_simps)
  have vectors: "color_vec_u (generate_color_vectors c unorm)
      = [- (1 / 2) * Kr / (1 - Kb) * w, - (1 / 2) * (1 - Kr - Kb) / (1 - Kb) * w, 1 / 2 * w, uv_add]"
    "color_vec_v (generate_color_vectors c unorm)
      = [1 / 2 * w, - (1 / 2) * (1 - Kr - Kb) / (1 - Kr) * w, - (1 / 2) * Kb / (1 - Kr) * w, uv_add]"
    by (simp_all only: generate_color_vectors_def assms Let_def split color_t.simps)
  show "pixel (color_vec_u (generate_color_vectors c unorm)) (r, g, b) = chroma (1 - Kb) (Kr * r + (1 - Kr - Kb) * g) w b + uv_add"
    unfolding * [symmetric] by (simp add: pixel_def vectors)
  show "pixel (color_vec_v (generate_color_vectors c unorm)) (r, g, b) = chroma (1 - Kr) (Kb * b + (1 - Kb - Kr) * g) w r + uv_add"
    unfolding * [symmetric] by (simp add: pixel_def vectors algebra_simps)
qed

lemma factors_nonneg:
  assumes "color_ranges c u = (y_mult, y_add, uv_mult, uv_add)"
  shows "0 \<le> y_mult" "0 \<le> uv_mult"
proof -
  have "(1 :: rat) \<le> 2 ^ so_bit_depth c" by simp
  with assms show "0 \<le> y_mult" "0 \<le> uv_mult"
    by (auto simp: color_ranges_def Let_def split: if_splits)
qed

text \<open>
  Colours between black and white keep the luma between its offset and offset plus factor, and the chroma
  within half its factor of the offset; grey has no chroma.
\<close>
theorem color_vectors_bounds:
  assumes "color_ranges c unorm = (y_mult, y_add, uv_mult, uv_add)"
    and "r \<in> {0..1}" "g \<in> {0..1}" "b \<in> {0..1}"
  shows "pixel (color_vec_y (generate_color_vectors c unorm)) (r, g, b) \<in> {y_add..y_add + y_mult}"
    "\<bar>pixel (color_vec_u (generate_color_vectors c unorm)) (r, g, b) - uv_add\<bar> \<le> uv_mult / 2"
    "\<bar>pixel (color_vec_v (generate_color_vectors c unorm)) (r, g, b) - uv_add\<bar> \<le> uv_mult / 2"
    "pixel (color_vec_u (generate_color_vectors c unorm)) (r, r, r) = uv_add"
    "pixel (color_vec_v (generate_color_vectors c unorm)) (r, r, r) = uv_add"
proof -
  obtain Kr Kb where K: "color_coefficients (so_colorspace c) = (Kr, Kb)" by fastforce
  from coefficients_bounds [OF K] have B: "0 < Kr" "0 < Kb" "Kr + Kb < 1" "Kb + Kr < 1" "0 < 1 - Kb" "0 < 1 - Kr" by auto
  note F = factors_nonneg [OF assms(1)]
  note W = weighted_bounds [OF B(1-3) assms(2-4)] weighted_bounds [OF B(2,1,4) assms(4,3,2)]
  obtain Y where Y: "Y = Kr * r + (1 - Kr - Kb) * g + Kb * b" by blast
  have "pixel (color_vec_y (generate_color_vectors c unorm)) (r, g, b) = Y * y_mult + y_add"
    by (simp add: pixel_def generate_color_vectors_def K assms(1) Y algebra_simps)
  moreover have "0 \<le> Y * y_mult \<and> Y * y_mult \<le> y_mult"
    using W(1) F(1) unfolding Y [symmetric] by (simp add: mult_left_le_one_le)
  ultimately show "pixel (color_vec_y (generate_color_vectors c unorm)) (r, g, b) \<in> {y_add..y_add + y_mult}" by simp
  show "\<bar>pixel (color_vec_u (generate_color_vectors c unorm)) (r, g, b) - uv_add\<bar> \<le> uv_mult / 2"
    using chroma_bounds [OF B(5) _ _ assms(4) F(2)] W(2) by (simp add: pixel_chroma [OF K assms(1)])
  show "\<bar>pixel (color_vec_v (generate_color_vectors c unorm)) (r, g, b) - uv_add\<bar> \<le> uv_mult / 2"
    using chroma_bounds [OF B(6) _ _ assms(2) F(2)] W(4) by (simp add: pixel_chroma [OF K assms(1)])
  have "Kr * r + (1 - Kr - Kb) * r = (1 - Kb) * r" "Kb * r + (1 - Kb - Kr) * r = (1 - Kr) * r"
    by (simp_all add: algebra_simps)
  with B show "pixel (color_vec_u (generate_color_vectors c unorm)) (r, r, r) = uv_add"
    "pixel (color_vec_v (generate_color_vectors c unorm)) (r, r, r) = uv_add"
    by (simp_all add: pixel_chroma [OF K assms(1)] chroma_grey)
qed

text \<open>A full range stream reaches one step more than its values hold.\<close>

lemma full_range_blue:
  "pixel (color_vec_u (color_vectors_from_colorspace \<lparr> so_colorspace = Rec709, so_full_range = True, so_bit_depth = 8 \<rparr> False)) (0, 0, 1)
    = 256"
  by (simp add: table_entry generate_color_vectors_def color_coefficients_def color_ranges_def pixel_def)

lemma color_vectors_bounds_witness:
  "pixel (color_vec_y (generate_color_vectors \<lparr> so_colorspace = Rec709, so_full_range = False, so_bit_depth = 8 \<rparr> False))
     (1, 1 / 2, 0) \<in> {33 / 2..33 / 2 + 219}"
  by (rule color_vectors_bounds (1) [where uv_mult = 224 and uv_add = "257 / 2"]) (simp_all add: color_ranges_def)

lemma zero_frame_rate: "mo_framerateX100 m \<le> 0 \<Longrightarrow> capture_frame_interval q m = None \<longleftrightarrow> mo_framerate m = 0"
  by (simp add: capture_frame_interval_def framerate_to_rational_def)

end
