(* ===== verification/Encoder_Table.thy ===== *)
theory Encoder_Table
  imports Config Video_Colorspace
begin

text \<open>
  The encoders of \<open>src/video.cpp\<close>: what an encoder is (\<open>encoder_t\<close> of \<open>src/video.h\<close>), the table of
  encoders of every platform with the options of their codecs, and the list that is probed. Values of
  the headers of NVENC are parameters; addresses of settings are functions of the configuration.
\<close>

section \<open>Pixel formats and devices\<close>

datatype av_hwdevice = AV_HWDEVICE_TYPE_NONE | AV_HWDEVICE_TYPE_D3D11VA | AV_HWDEVICE_TYPE_VAAPI | AV_HWDEVICE_TYPE_VULKAN
  | AV_HWDEVICE_TYPE_CUDA | AV_HWDEVICE_TYPE_VIDEOTOOLBOX | AV_HWDEVICE_TYPE_QSV

datatype av_pix_fmt = AV_PIX_FMT_NONE | AV_PIX_FMT_VUYX | AV_PIX_FMT_XV30 | AV_PIX_FMT_YUV420P10 | AV_PIX_FMT_YUV420P
  | AV_PIX_FMT_NV12 | AV_PIX_FMT_P010 | AV_PIX_FMT_YUV444P | AV_PIX_FMT_YUV444P16 | AV_PIX_FMT_YUV444P10
  | AV_PIX_FMT_D3D11 | AV_PIX_FMT_CUDA | AV_PIX_FMT_QSV | AV_PIX_FMT_VAAPI | AV_PIX_FMT_VULKAN | AV_PIX_FMT_VIDEOTOOLBOX
  | AV_PIX_FMT_BGR0

datatype mem_type_e = System_Mem | Vaapi_Mem | Dxgi_Mem | Cuda_Mem | Videotoolbox_Mem | Vulkan_Mem | Unknown_Mem

datatype pix_fmt_e = Yuv420p | Yuv420p10 | Nv12 | P010 | Ayuv | Yuv444p16 | Yuv444p | Y410 | Unknown_Fmt

text \<open>Vulkan is only known when it was built in.\<close>

definition map_base_dev_type :: "bool \<Rightarrow> av_hwdevice \<Rightarrow> mem_type_e" where
  "map_base_dev_type vulkan_built type =
     (case type of
        AV_HWDEVICE_TYPE_D3D11VA \<Rightarrow> Dxgi_Mem
      | AV_HWDEVICE_TYPE_VAAPI \<Rightarrow> Vaapi_Mem
      | AV_HWDEVICE_TYPE_VULKAN \<Rightarrow> if vulkan_built then Vulkan_Mem else Unknown_Mem
      | AV_HWDEVICE_TYPE_CUDA \<Rightarrow> Cuda_Mem
      | AV_HWDEVICE_TYPE_NONE \<Rightarrow> System_Mem
      | AV_HWDEVICE_TYPE_VIDEOTOOLBOX \<Rightarrow> Videotoolbox_Mem
      | _ \<Rightarrow> Unknown_Mem)"

definition map_pix_fmt :: "av_pix_fmt \<Rightarrow> pix_fmt_e" where
  "map_pix_fmt fmt =
     (case fmt of
        AV_PIX_FMT_VUYX \<Rightarrow> Ayuv
      | AV_PIX_FMT_XV30 \<Rightarrow> Y410
      | AV_PIX_FMT_YUV420P10 \<Rightarrow> Yuv420p10
      | AV_PIX_FMT_YUV420P \<Rightarrow> Yuv420p
      | AV_PIX_FMT_NV12 \<Rightarrow> Nv12
      | AV_PIX_FMT_P010 \<Rightarrow> P010
      | AV_PIX_FMT_YUV444P \<Rightarrow> Yuv444p
      | AV_PIX_FMT_YUV444P16 \<Rightarrow> Yuv444p16
      | _ \<Rightarrow> Unknown_Fmt)"

text \<open>The function that makes the hardware input buffer.\<close>

datatype init_buffer = Dxgi_Init | Cuda_Init | Vaapi_Init | Vulkan_Init | Vt_Init | No_Init

record avcodec_part =
  af_base_dev_type :: av_hwdevice
  af_derived_dev_type :: av_hwdevice
  af_dev_pix_fmt :: av_pix_fmt
  af_pix_fmt_8bit :: av_pix_fmt
  af_pix_fmt_10bit :: av_pix_fmt
  af_pix_fmt_yuv444_8bit :: av_pix_fmt
  af_pix_fmt_yuv444_10bit :: av_pix_fmt
  af_init_buffer :: init_buffer

text \<open>\<open>ef_avcodec\<close> is what only \<open>encoder_platform_formats_avcodec\<close> has.\<close>

record encoder_formats =
  ef_dev_type :: mem_type_e
  ef_pix_fmt_8bit :: pix_fmt_e
  ef_pix_fmt_10bit :: pix_fmt_e
  ef_pix_fmt_yuv444_8bit :: pix_fmt_e
  ef_pix_fmt_yuv444_10bit :: pix_fmt_e
  ef_avcodec :: "avcodec_part option"

definition avcodec_formats ::
  "av_hwdevice \<Rightarrow> av_hwdevice \<Rightarrow> av_pix_fmt \<Rightarrow> av_pix_fmt \<Rightarrow> av_pix_fmt \<Rightarrow> av_pix_fmt \<Rightarrow> av_pix_fmt \<Rightarrow> init_buffer \<Rightarrow>
    bool \<Rightarrow> encoder_formats" where
  "avcodec_formats base derived dev f8 f10 f444 f444_10 init vulkan_built =
     \<lparr> ef_dev_type = map_base_dev_type vulkan_built base, ef_pix_fmt_8bit = map_pix_fmt f8,
       ef_pix_fmt_10bit = map_pix_fmt f10, ef_pix_fmt_yuv444_8bit = map_pix_fmt f444,
       ef_pix_fmt_yuv444_10bit = map_pix_fmt f444_10,
       ef_avcodec = Some \<lparr> af_base_dev_type = base, af_derived_dev_type = derived, af_dev_pix_fmt = dev,
         af_pix_fmt_8bit = f8, af_pix_fmt_10bit = f10, af_pix_fmt_yuv444_8bit = f444,
         af_pix_fmt_yuv444_10bit = f444_10, af_init_buffer = init \<rparr> \<rparr>"

definition nvenc_formats :: "mem_type_e \<Rightarrow> pix_fmt_e \<Rightarrow> pix_fmt_e \<Rightarrow> pix_fmt_e \<Rightarrow> pix_fmt_e \<Rightarrow> encoder_formats" where
  "nvenc_formats dev f8 f10 f444 f444_10 =
     \<lparr> ef_dev_type = dev, ef_pix_fmt_8bit = f8, ef_pix_fmt_10bit = f10, ef_pix_fmt_yuv444_8bit = f444,
       ef_pix_fmt_yuv444_10bit = f444_10, ef_avcodec = None \<rparr>"

section \<open>Encoders\<close>

datatype encoder_flag = PARALLEL_ENCODING | H264_ONLY | LIMITED_GOP_SIZE | SINGLE_SLICE_ONLY | CBR_WITH_VBR
  | RELAXED_COMPLIANCE | NO_RC_BUF_LIMIT | REF_FRAMES_INVALIDATION | ALWAYS_REPROBE | YUV444_SUPPORT
  | ASYNC_TEARDOWN | FIXED_GOP_SIZE

datatype codec_flag = PASSED | REF_FRAMES_RESTRICT | DYNAMIC_RANGE | YUV444 | DYNAMIC_RANGE_YUV444 | VUI_PARAMETERS

text \<open>Values of the NVENC headers, and of the enumerations the configuration stores.\<close>

record nvenc_values =
  el_ultra_low_latency :: int
  el_rc_cbr :: int
  el_multipass :: "nv_multi_pass \<Rightarrow> int"
  el_coder :: "nv_entropy_mode \<Rightarrow> int"

text \<open>The alternatives of \<open>option_t\<close>: values, addresses of settings, and functions.\<close>

datatype option_value =
  Int_Value int
| Int_Option "nvenc_values \<Rightarrow> video_t \<Rightarrow> int"
| Optional_Option "video_t \<Rightarrow> int option"
| Int_Function "Config.config_t \<Rightarrow> int"
| Text_Value bytes
| Text_Option "video_t \<Rightarrow> bytes"
| Text_Function "monitor_config \<Rightarrow> bytes"

type_synonym codec_options = "(string \<times> option_value) list"

record codec_t =
  cd_common :: codec_options
  cd_sdr :: codec_options
  cd_hdr :: codec_options
  cd_sdr444 :: codec_options
  cd_hdr444 :: codec_options
  cd_fallback :: codec_options
  cd_name :: string
  cd_capabilities :: "codec_flag set"

definition codec ::
  "string \<Rightarrow> codec_options \<Rightarrow> codec_options \<Rightarrow> codec_options \<Rightarrow> codec_options \<Rightarrow> codec_options \<Rightarrow> codec_options \<Rightarrow> codec_t" where
  "codec name common sdr hdr sdr444 hdr444 fallback =
     \<lparr> cd_common = common, cd_sdr = sdr, cd_hdr = hdr, cd_sdr444 = sdr444, cd_hdr444 = hdr444,
       cd_fallback = fallback, cd_name = name, cd_capabilities = {} \<rparr>"

record encoder =
  en_name :: string
  en_formats :: encoder_formats
  en_av1 :: codec_t
  en_hevc :: codec_t
  en_h264 :: codec_t
  en_flags :: "encoder_flag set"

definition codec_from_config :: "encoder \<Rightarrow> monitor_config \<Rightarrow> codec_t" where
  "codec_from_config e m =
     (if mo_videoFormat m = 1 then en_hevc e else if mo_videoFormat m = 2 then en_av1 e else en_h264 e)"

section \<open>Profiles and computed options\<close>

datatype vendor_profile = Nv_H264_High | Nv_H264_High_444p | Nv_Hevc_Main | Nv_Hevc_Main_10 | Nv_Hevc_Rext
  | Qsv_H264_High | Qsv_H264_High_444p | Qsv_Hevc_Main | Qsv_Hevc_Main_10 | Qsv_Hevc_Rext | Qsv_Av1_Main | Qsv_Av1_High

fun profile_value :: "vendor_profile \<Rightarrow> int" where
  "profile_value Nv_H264_High = 2"
| "profile_value Nv_H264_High_444p = 3"
| "profile_value Nv_Hevc_Main = 0"
| "profile_value Nv_Hevc_Main_10 = 1"
| "profile_value Nv_Hevc_Rext = 2"
| "profile_value Qsv_H264_High = 100"
| "profile_value Qsv_H264_High_444p = 244"
| "profile_value Qsv_Hevc_Main = 1"
| "profile_value Qsv_Hevc_Main_10 = 2"
| "profile_value Qsv_Hevc_Rext = 4"
| "profile_value Qsv_Av1_Main = 1"
| "profile_value Qsv_Av1_High = 2"

definition log_to_dbg :: "Config.config_t \<Rightarrow> int" where
  "log_to_dbg c = (if sn_min_log_level (cf_sunshine c) < 2 then 1 else 0)"

definition low_power_hevc :: "Config.config_t \<Rightarrow> int" where
  "low_power_hevc c = (if qsv_slow_hevc (vi_qsv (cf_video c)) then 0 else 1)"

text \<open>The products are \<open>int\<close>; they wrap.\<close>

definition amf_level :: "monitor_config \<Rightarrow> bytes" where
  "amf_level m =
     (let size = to_int (mo_width m * mo_height m); rate = to_int (size * mo_framerate m)
      in if size \<le> 8912896 \<and> rate \<le> 534773760 then ascii ''5.1''
         else if size \<le> 8912896 \<and> rate \<le> 1069547520 then ascii ''5.2''
         else ascii ''auto'')"

section \<open>The table\<close>

definition nvenc_windows :: encoder where
  "nvenc_windows = \<lparr> en_name = ''nvenc'',
     en_formats = nvenc_formats Dxgi_Mem Nv12 P010 Ayuv Yuv444p16,
     en_av1 = codec ''av1_nvenc'' [] [] [] [] [] [],
     en_hevc = codec ''hevc_nvenc'' [] [] [] [] [] [],
     en_h264 = codec ''h264_nvenc'' [] [] [] [] [] [],
     en_flags = {PARALLEL_ENCODING, REF_FRAMES_INVALIDATION, YUV444_SUPPORT, ASYNC_TEARDOWN} \<rparr>"

definition nvenc_cuda :: "bool \<Rightarrow> encoder" where
  "nvenc_cuda vulkan_built = \<lparr> en_name = ''nvenc'',
     en_formats = avcodec_formats AV_HWDEVICE_TYPE_CUDA AV_HWDEVICE_TYPE_NONE AV_PIX_FMT_CUDA
          AV_PIX_FMT_NV12 AV_PIX_FMT_P010 AV_PIX_FMT_YUV444P AV_PIX_FMT_YUV444P16 Cuda_Init vulkan_built,
     en_av1 = codec ''av1_nvenc''
          [(''delay'', Int_Value 0), (''forced-idr'', Int_Value 1), (''zerolatency'', Int_Value 1),
           (''surfaces'', Int_Value 1), (''cbr_padding'', Int_Value 0),
           (''preset'', Int_Option (\<lambda>l v. nl_preset (vi_nv_legacy v))),
           (''tune'', Int_Option (\<lambda>l v. el_ultra_low_latency l)),
           (''rc'', Int_Option (\<lambda>l v. el_rc_cbr l)),
           (''multipass'', Int_Option (\<lambda>l v. el_multipass l (nl_multipass (vi_nv_legacy v)))),
           (''aq'', Int_Option (\<lambda>l v. if nl_aq (vi_nv_legacy v) then 1 else 0))] [] [] [] [] [],
     en_hevc = codec ''hevc_nvenc''
          [(''delay'', Int_Value 0), (''forced-idr'', Int_Value 1), (''zerolatency'', Int_Value 1),
           (''surfaces'', Int_Value 1), (''cbr_padding'', Int_Value 0),
           (''preset'', Int_Option (\<lambda>l v. nl_preset (vi_nv_legacy v))),
           (''tune'', Int_Option (\<lambda>l v. el_ultra_low_latency l)),
           (''rc'', Int_Option (\<lambda>l v. el_rc_cbr l)),
           (''multipass'', Int_Option (\<lambda>l v. el_multipass l (nl_multipass (vi_nv_legacy v)))),
           (''aq'', Int_Option (\<lambda>l v. if nl_aq (vi_nv_legacy v) then 1 else 0))]
          [(''profile'', Int_Value (profile_value Nv_Hevc_Main))]
          [(''profile'', Int_Value (profile_value Nv_Hevc_Main_10))] [] [] [],
     en_h264 = codec ''h264_nvenc''
          [(''delay'', Int_Value 0), (''forced-idr'', Int_Value 1), (''zerolatency'', Int_Value 1),
           (''surfaces'', Int_Value 1), (''cbr_padding'', Int_Value 0),
           (''preset'', Int_Option (\<lambda>l v. nl_preset (vi_nv_legacy v))),
           (''tune'', Int_Option (\<lambda>l v. el_ultra_low_latency l)),
           (''rc'', Int_Option (\<lambda>l v. el_rc_cbr l)),
           (''coder'', Int_Option (\<lambda>l v. el_coder l (nl_h264_coder (vi_nv_legacy v)))),
           (''multipass'', Int_Option (\<lambda>l v. el_multipass l (nl_multipass (vi_nv_legacy v)))),
           (''aq'', Int_Option (\<lambda>l v. if nl_aq (vi_nv_legacy v) then 1 else 0))]
          [(''profile'', Int_Value (profile_value Nv_H264_High))] [] [] [] [],
     en_flags = {PARALLEL_ENCODING, YUV444_SUPPORT} \<rparr>"

definition quicksync :: "bool \<Rightarrow> encoder" where
  "quicksync vulkan_built = \<lparr> en_name = ''quicksync'',
     en_formats = avcodec_formats AV_HWDEVICE_TYPE_D3D11VA AV_HWDEVICE_TYPE_QSV AV_PIX_FMT_QSV
          AV_PIX_FMT_NV12 AV_PIX_FMT_P010 AV_PIX_FMT_VUYX AV_PIX_FMT_XV30 Dxgi_Init vulkan_built,
     en_av1 = codec ''av1_qsv''
          [(''preset'', Optional_Option (\<lambda>v. qsv_preset (vi_qsv v))), (''forced_idr'', Int_Value 1),
           (''async_depth'', Int_Value 1), (''low_delay_brc'', Int_Value 1), (''low_power'', Int_Value 1)]
          [(''profile'', Int_Value (profile_value Qsv_Av1_Main))]
          [(''profile'', Int_Value (profile_value Qsv_Av1_Main))]
          [(''profile'', Int_Value (profile_value Qsv_Av1_High))]
          [(''profile'', Int_Value (profile_value Qsv_Av1_High))] [],
     en_hevc = codec ''hevc_qsv''
          [(''preset'', Optional_Option (\<lambda>v. qsv_preset (vi_qsv v))), (''forced_idr'', Int_Value 1),
           (''async_depth'', Int_Value 1), (''low_delay_brc'', Int_Value 1), (''low_power'', Int_Value 1),
           (''recovery_point_sei'', Int_Value 0), (''pic_timing_sei'', Int_Value 0)]
          [(''profile'', Int_Value (profile_value Qsv_Hevc_Main))]
          [(''profile'', Int_Value (profile_value Qsv_Hevc_Main_10))]
          [(''profile'', Int_Value (profile_value Qsv_Hevc_Rext))]
          [(''profile'', Int_Value (profile_value Qsv_Hevc_Rext))]
          [(''low_power'', Int_Function low_power_hevc)],
     en_h264 = codec ''h264_qsv''
          [(''preset'', Optional_Option (\<lambda>v. qsv_preset (vi_qsv v))),
           (''cavlc'', Optional_Option (\<lambda>v. qsv_cavlc (vi_qsv v))), (''forced_idr'', Int_Value 1),
           (''async_depth'', Int_Value 1), (''low_delay_brc'', Int_Value 1), (''low_power'', Int_Value 1),
           (''recovery_point_sei'', Int_Value 0), (''vcm'', Int_Value 1), (''pic_timing_sei'', Int_Value 0),
           (''max_dec_frame_buffering'', Int_Value 1)]
          [(''profile'', Int_Value (profile_value Qsv_H264_High))] []
          [(''profile'', Int_Value (profile_value Qsv_H264_High_444p))] []
          [(''low_power'', Int_Value 0)],
     en_flags = {PARALLEL_ENCODING, CBR_WITH_VBR, RELAXED_COMPLIANCE, NO_RC_BUF_LIMIT, YUV444_SUPPORT} \<rparr>"

definition amdvce :: "bool \<Rightarrow> encoder" where
  "amdvce vulkan_built = \<lparr> en_name = ''amdvce'',
     en_formats = avcodec_formats AV_HWDEVICE_TYPE_D3D11VA AV_HWDEVICE_TYPE_NONE AV_PIX_FMT_D3D11
          AV_PIX_FMT_NV12 AV_PIX_FMT_P010 AV_PIX_FMT_NONE AV_PIX_FMT_NONE Dxgi_Init vulkan_built,
     en_av1 = codec ''av1_amf''
          [(''filler_data'', Int_Value 0), (''forced_idr'', Int_Value 1),
           (''latency'', Text_Value (ascii ''lowest_latency'')), (''async_depth'', Int_Value 1),
           (''skip_frame'', Int_Value 0), (''log_to_dbg'', Int_Function log_to_dbg),
           (''preencode'', Optional_Option (\<lambda>v. amd_preanalysis (vi_amd v))),
           (''quality'', Optional_Option (\<lambda>v. amd_quality_av1 (vi_amd v))),
           (''rc'', Optional_Option (\<lambda>v. amd_rc_av1 (vi_amd v))),
           (''usage'', Optional_Option (\<lambda>v. amd_usage_av1 (vi_amd v))),
           (''enforce_hrd'', Optional_Option (\<lambda>v. amd_enforce_hrd (vi_amd v)))] [] [] [] [] [],
     en_hevc = codec ''hevc_amf''
          [(''filler_data'', Int_Value 0), (''forced_idr'', Int_Value 1), (''latency'', Int_Value 1),
           (''async_depth'', Int_Value 1), (''skip_frame'', Int_Value 0), (''log_to_dbg'', Int_Function log_to_dbg),
           (''gops_per_idr'', Int_Value 1), (''header_insertion_mode'', Text_Value (ascii ''idr'')),
           (''preencode'', Optional_Option (\<lambda>v. amd_preanalysis (vi_amd v))),
           (''quality'', Optional_Option (\<lambda>v. amd_quality_hevc (vi_amd v))),
           (''rc'', Optional_Option (\<lambda>v. amd_rc_hevc (vi_amd v))),
           (''usage'', Optional_Option (\<lambda>v. amd_usage_hevc (vi_amd v))),
           (''vbaq'', Optional_Option (\<lambda>v. amd_vbaq (vi_amd v))),
           (''enforce_hrd'', Optional_Option (\<lambda>v. amd_enforce_hrd (vi_amd v))),
           (''max_au_size'', Optional_Option (\<lambda>v. amd_max_au_size (vi_amd v))),
           (''level'', Text_Function amf_level)] [] [] [] [] [],
     en_h264 = codec ''h264_amf''
          [(''filler_data'', Int_Value 0), (''forced_idr'', Int_Value 1), (''latency'', Int_Value 1),
           (''async_depth'', Int_Value 1), (''frame_skipping'', Int_Value 0),
           (''log_to_dbg'', Int_Function log_to_dbg),
           (''preencode'', Optional_Option (\<lambda>v. amd_preanalysis (vi_amd v))),
           (''quality'', Optional_Option (\<lambda>v. amd_quality_h264 (vi_amd v))),
           (''rc'', Optional_Option (\<lambda>v. amd_rc_h264 (vi_amd v))),
           (''usage'', Optional_Option (\<lambda>v. amd_usage_h264 (vi_amd v))),
           (''vbaq'', Optional_Option (\<lambda>v. amd_vbaq (vi_amd v))),
           (''coder'', Int_Option (\<lambda>l v. amd_coder (vi_amd v))),
           (''enforce_hrd'', Optional_Option (\<lambda>v. amd_enforce_hrd (vi_amd v))),
           (''max_au_size'', Optional_Option (\<lambda>v. amd_max_au_size (vi_amd v)))] [] [] [] []
          [(''usage'', Int_Value 2)],
     en_flags = {PARALLEL_ENCODING} \<rparr>"

definition mediafoundation :: "bool \<Rightarrow> encoder" where
  "mediafoundation vulkan_built = \<lparr> en_name = ''mediafoundation'',
     en_formats = avcodec_formats AV_HWDEVICE_TYPE_D3D11VA AV_HWDEVICE_TYPE_NONE AV_PIX_FMT_D3D11
          AV_PIX_FMT_NV12 AV_PIX_FMT_NONE AV_PIX_FMT_NONE AV_PIX_FMT_NONE Dxgi_Init vulkan_built,
     en_av1 = codec ''av1_mf''
          [(''hw_encoding'', Int_Value 1), (''rate_control'', Text_Value (ascii ''cbr'')),
           (''scenario'', Text_Value (ascii ''display_remoting''))] [] [] [] [] [],
     en_hevc = codec ''hevc_mf''
          [(''hw_encoding'', Int_Value 1), (''rate_control'', Text_Value (ascii ''cbr'')),
           (''scenario'', Text_Value (ascii ''display_remoting''))] [] [] [] [] [],
     en_h264 = codec ''h264_mf''
          [(''hw_encoding'', Int_Value 1), (''rate_control'', Text_Value (ascii ''cbr'')),
           (''scenario'', Text_Value (ascii ''display_remoting''))] [] [] [] [] [],
     en_flags = {PARALLEL_ENCODING, FIXED_GOP_SIZE} \<rparr>"

definition software :: "bool \<Rightarrow> bool \<Rightarrow> encoder" where
  "software vulkan_built broken_av1 = \<lparr> en_name = ''software'',
     en_formats = avcodec_formats AV_HWDEVICE_TYPE_NONE AV_HWDEVICE_TYPE_NONE AV_PIX_FMT_NONE
          AV_PIX_FMT_YUV420P AV_PIX_FMT_YUV420P10 AV_PIX_FMT_YUV444P AV_PIX_FMT_YUV444P10 No_Init vulkan_built,
     en_av1 = codec (if broken_av1 then ''libsvtav1'' else [])
          [(''svtav1-params'', Text_Value (ascii ''keyint=-1:pred-struct=1:force-key-frames=1:mbr=0'')),
           (''preset'', Optional_Option (\<lambda>v. svtav1_preset (vi_sw v)))] [] [] [] [] [],
     en_hevc = codec ''libx265''
          [(''forced-idr'', Int_Value 1), (''x265-params'', Text_Value (ascii ''info=0:keyint=-1'')),
           (''preset'', Text_Option (\<lambda>v. sw_preset (vi_sw v))),
           (''tune'', Text_Option (\<lambda>v. sw_tune (vi_sw v)))] [] [] [] [] [],
     en_h264 = codec ''libx264''
          [(''preset'', Text_Option (\<lambda>v. sw_preset (vi_sw v))),
           (''tune'', Text_Option (\<lambda>v. sw_tune (vi_sw v)))] [] [] [] [] [],
     en_flags = {H264_ONLY, PARALLEL_ENCODING, ALWAYS_REPROBE, YUV444_SUPPORT} \<rparr>"

definition vaapi :: "bool \<Rightarrow> encoder" where
  "vaapi vulkan_built = \<lparr> en_name = ''vaapi'',
     en_formats = avcodec_formats AV_HWDEVICE_TYPE_VAAPI AV_HWDEVICE_TYPE_NONE AV_PIX_FMT_VAAPI
          AV_PIX_FMT_NV12 AV_PIX_FMT_P010 AV_PIX_FMT_NONE AV_PIX_FMT_NONE Vaapi_Init vulkan_built,
     en_av1 = codec ''av1_vaapi''
          [(''async_depth'', Int_Value 1), (''blbrc'', Optional_Option (\<lambda>v. va_blbrc (vi_vaapi v))),
           (''idr_interval'', Int_Value INT_MAX)] [] [] [] [] [],
     en_hevc = codec ''hevc_vaapi''
          [(''async_depth'', Int_Value 1), (''blbrc'', Optional_Option (\<lambda>v. va_blbrc (vi_vaapi v))),
           (''sei'', Int_Value 0), (''idr_interval'', Int_Value INT_MAX)] [] [] [] [] [],
     en_h264 = codec ''h264_vaapi''
          [(''async_depth'', Int_Value 1), (''blbrc'', Optional_Option (\<lambda>v. va_blbrc (vi_vaapi v))),
           (''sei'', Int_Value 0), (''idr_interval'', Int_Value INT_MAX)] [] [] [] [] [],
     en_flags = {LIMITED_GOP_SIZE, PARALLEL_ENCODING, NO_RC_BUF_LIMIT} \<rparr>"

definition vulkan :: "bool \<Rightarrow> encoder" where
  "vulkan vulkan_built = \<lparr> en_name = ''vulkan'',
     en_formats = avcodec_formats AV_HWDEVICE_TYPE_VULKAN AV_HWDEVICE_TYPE_NONE AV_PIX_FMT_VULKAN
          AV_PIX_FMT_NV12 AV_PIX_FMT_P010 AV_PIX_FMT_NONE AV_PIX_FMT_NONE Vulkan_Init vulkan_built,
     en_av1 = codec ''av1_vulkan''
          [(''idr_interval'', Int_Value INT_MAX), (''tune'', Int_Option (\<lambda>l v. vi_vk_tune v)),
           (''rc_mode'', Int_Option (\<lambda>l v. vi_vk_rc_mode v)), (''units'', Int_Value 0),
           (''usage'', Text_Value (ascii ''stream'')), (''content'', Text_Value (ascii ''rendered'')),
           (''async_depth'', Int_Value 1)] [] [] [] [] [],
     en_hevc = codec ''hevc_vulkan''
          [(''idr_interval'', Int_Value INT_MAX), (''tune'', Int_Option (\<lambda>l v. vi_vk_tune v)),
           (''rc_mode'', Int_Option (\<lambda>l v. vi_vk_rc_mode v)), (''units'', Int_Value 0),
           (''usage'', Text_Value (ascii ''stream'')), (''content'', Text_Value (ascii ''rendered'')),
           (''async_depth'', Int_Value 1)] [] [] [] [] [],
     en_h264 = codec ''h264_vulkan''
          [(''idr_interval'', Int_Value INT_MAX), (''tune'', Int_Option (\<lambda>l v. vi_vk_tune v)),
           (''rc_mode'', Int_Option (\<lambda>l v. vi_vk_rc_mode v)), (''units'', Int_Value 0),
           (''usage'', Text_Value (ascii ''stream'')), (''content'', Text_Value (ascii ''rendered'')),
           (''async_depth'', Int_Value 1)] [] [] [] [] [],
     en_flags = {LIMITED_GOP_SIZE, PARALLEL_ENCODING} \<rparr>"

definition videotoolbox :: "bool \<Rightarrow> encoder" where
  "videotoolbox vulkan_built = \<lparr> en_name = ''videotoolbox'',
     en_formats = avcodec_formats AV_HWDEVICE_TYPE_VIDEOTOOLBOX AV_HWDEVICE_TYPE_NONE AV_PIX_FMT_VIDEOTOOLBOX
          AV_PIX_FMT_NV12 AV_PIX_FMT_P010 AV_PIX_FMT_NONE AV_PIX_FMT_NONE Vt_Init vulkan_built,
     en_av1 = codec ''av1_videotoolbox''
          [(''allow_sw'', Int_Option (\<lambda>l v. vt_allow_sw (vi_vt v))),
           (''require_sw'', Int_Option (\<lambda>l v. vt_require_sw (vi_vt v))),
           (''realtime'', Int_Option (\<lambda>l v. vt_realtime (vi_vt v))), (''prio_speed'', Int_Value 1),
           (''max_ref_frames'', Int_Value 1)] [] [] [] [] [],
     en_hevc = codec ''hevc_videotoolbox''
          [(''allow_sw'', Int_Option (\<lambda>l v. vt_allow_sw (vi_vt v))),
           (''require_sw'', Int_Option (\<lambda>l v. vt_require_sw (vi_vt v))),
           (''realtime'', Int_Option (\<lambda>l v. vt_realtime (vi_vt v))), (''prio_speed'', Int_Value 1),
           (''max_ref_frames'', Int_Value 1)] [] [] [] [] [],
     en_h264 = codec ''h264_videotoolbox''
          [(''allow_sw'', Int_Option (\<lambda>l v. vt_allow_sw (vi_vt v))),
           (''require_sw'', Int_Option (\<lambda>l v. vt_require_sw (vi_vt v))),
           (''realtime'', Int_Option (\<lambda>l v. vt_realtime (vi_vt v))), (''prio_speed'', Int_Value 1)] [] [] [] []
          [(''flags'', Text_Value (ascii ''-low_delay''))],
     en_flags = {PARALLEL_ENCODING} \<rparr>"

section \<open>The list of encoders\<close>

datatype host_os = Windows | Linux | Macos

record build =
  bu_os :: host_os
  bu_vulkan :: bool
  bu_broken_av1 :: bool

definition encoders :: "build \<Rightarrow> encoder list" where
  "encoders b =
     (case bu_os b of
        Windows \<Rightarrow> [nvenc_windows, quicksync (bu_vulkan b), amdvce (bu_vulkan b), mediafoundation (bu_vulkan b)]
      | Linux \<Rightarrow> nvenc_cuda (bu_vulkan b) # (if bu_vulkan b then [vulkan (bu_vulkan b)] else []) @ [vaapi (bu_vulkan b)]
      | Macos \<Rightarrow> [videotoolbox (bu_vulkan b)]) @ [software (bu_vulkan b) (bu_broken_av1 b)]"

end
