(* ===== verification/Encoder_Setup.thy ===== *)
theory Encoder_Setup
  imports Encoder_Table
begin

text \<open>
  From a stream configuration to an encoder: \<open>make_encode_device\<close>, \<open>make_avcodec_encode_session\<close>,
  \<open>make_nvenc_encode_session\<close> and \<open>make_encode_session\<close> of \<open>src/video.cpp\<close>. Displays, devices and FFmpeg are
  records of what their calls answer. \<open>int\<close> arithmetic wraps; a division by zero and a failed assertion are
  the value \<open>Trapped\<close>.
\<close>

section \<open>Devices and displays\<close>

text \<open>
  The context of a codec; \<open>None\<close> is a field that is left as FFmpeg initialises it. \<open>ax_options\<close> is the
  dictionary that \<open>avcodec_open2\<close> gets.
\<close>

datatype av_profile = H264_Profile h264_profile | AV_PROFILE_HEVC_REXT | AV_PROFILE_HEVC_MAIN_10 | AV_PROFILE_HEVC_MAIN
  | AV_PROFILE_AV1_HIGH | AV_PROFILE_AV1_MAIN

datatype setting = Number int | Text bytes

record codec_context =
  ax_width :: int
  ax_height :: int
  ax_framerate :: av_rational
  ax_time_base :: av_rational
  ax_profile :: "av_profile option"
  ax_max_b_frames :: int
  ax_gop_size :: int
  ax_keyint_min :: int
  ax_refs :: "int option"
  ax_closed_gop :: bool
  ax_low_delay :: bool
  ax_color :: avcodec_colorspace
  ax_sw_pix_fmt :: av_pix_fmt
  ax_pix_fmt :: av_pix_fmt
  ax_slices :: int
  ax_thread_count :: int
  ax_rc_max_rate :: int
  ax_bit_rate :: int
  ax_rc_min_rate :: "int option"
  ax_unofficial :: bool
  ax_rc_buffer_size :: "int option"
  ax_options :: "string \<rightharpoonup> setting"

text \<open>
  An encode device of a display: whether it holds data of its own (otherwise frames are converted in
  software), what its hooks answer, and what it does to the context. An NVENC device has an encoder to initialise.
\<close>

datatype device_kind = Avcodec_Device | Nvenc_Device

text \<open>What one call of \<open>encode\<close> gives: an error, nothing yet, or a packet, that may be a key frame and describe its
  video usability information.\<close>

datatype encode_answer = Encode_Failed | No_Packet | Some_Packet (an_idr: bool) (an_vui: bool)

record encode_device =
  dv_kind :: device_kind
  dv_colorspace :: sunshine_colorspace
  dv_data :: bool
  dv_own_buffer :: bool
  dv_derive_ready :: bool
  dv_codec_options :: "codec_context \<Rightarrow> codec_context"
  dv_set_frame :: bool
  dv_init_encoder :: "monitor_config \<Rightarrow> sunshine_colorspace \<Rightarrow> bool"
  dv_convert :: bool
  dv_answers :: "monitor_config \<Rightarrow> nat \<Rightarrow> encode_answer"

record display_io =
  di_width :: int
  di_height :: int
  di_is_hdr :: bool
  di_codec_supported :: "string \<Rightarrow> monitor_config \<Rightarrow> bool"
  di_avcodec_device :: "pix_fmt_e \<Rightarrow> encode_device option"
  di_nvenc_device :: "pix_fmt_e \<Rightarrow> encode_device option"
  di_images :: bool

text \<open>FFmpeg: the codecs it knows, the devices it can make, and whether a codec opens.\<close>

record av_lib =
  lb_values :: nvenc_values
  lb_d2q :: "rat \<Rightarrow> int \<Rightarrow> av_rational"
  lb_render_device :: bytes
  lb_has_encoder :: "string \<Rightarrow> bool"
  lb_hwdevice :: "av_hwdevice \<Rightarrow> bytes option \<Rightarrow> bool"
  lb_derived :: "av_hwdevice \<Rightarrow> bool"
  lb_hwframes :: "av_pix_fmt \<Rightarrow> av_pix_fmt \<Rightarrow> int \<Rightarrow> int \<Rightarrow> bool"
  lb_open :: "string \<Rightarrow> codec_context \<Rightarrow> bool"
  lb_software_scaler :: "int \<Rightarrow> int \<Rightarrow> codec_context \<Rightarrow> bool"

section \<open>Encode devices\<close>

definition device_pix_fmt :: "encoder_formats \<Rightarrow> bool \<Rightarrow> nat \<Rightarrow> pix_fmt_e" where
  "device_pix_fmt f yuv444 depth =
     (if yuv444 then if depth = 10 then ef_pix_fmt_yuv444_10bit f else ef_pix_fmt_yuv444_8bit f
      else if depth = 10 then ef_pix_fmt_10bit f else ef_pix_fmt_8bit f)"

definition make_encode_device :: "display_io \<Rightarrow> encoder \<Rightarrow> monitor_config \<Rightarrow> encode_device option" where
  "make_encode_device d e m =
     (let c = colorspace_from_client_config m (di_is_hdr d)
      in if mo_chromaSamplingType m = 1 \<and> YUV444_SUPPORT \<notin> en_flags e then None
         else
           let fmt = device_pix_fmt (en_formats e) (mo_chromaSamplingType m = 1) (so_bit_depth c)
           in map_option (dv_colorspace_update (\<lambda>_. c))
                (case ef_avcodec (en_formats e) of Some _ \<Rightarrow> di_avcodec_device d fmt | None \<Rightarrow> di_nvenc_device d fmt))"

text \<open>The functions that make a hardware device, and the devices they try.\<close>

definition init_hardware_buffer :: "av_lib \<Rightarrow> encode_device \<Rightarrow> init_buffer \<Rightarrow> bool" where
  "init_hardware_buffer l v f =
     (case f of
        Vaapi_Init \<Rightarrow>
          if dv_data v then dv_own_buffer v
          else lb_hwdevice l AV_HWDEVICE_TYPE_VAAPI (if lb_render_device l = [] then None else Some (lb_render_device l))
      | Vulkan_Init \<Rightarrow>
          if dv_data v then dv_own_buffer v
          else list_ex (\<lambda>name. lb_hwdevice l AV_HWDEVICE_TYPE_VULKAN (Some name))
            (lb_render_device l # map ascii [''1'', ''0'', ''2'', ''3''])
      | Cuda_Init \<Rightarrow> lb_hwdevice l AV_HWDEVICE_TYPE_CUDA None
      | Vt_Init \<Rightarrow> lb_hwdevice l AV_HWDEVICE_TYPE_VIDEOTOOLBOX None
      | Dxgi_Init \<Rightarrow> lb_hwdevice l AV_HWDEVICE_TYPE_D3D11VA None
      | No_Init \<Rightarrow> False)"

section \<open>Options\<close>

definition handle_option ::
  "nvenc_values \<Rightarrow> Config.config_t \<Rightarrow> monitor_config \<Rightarrow> string \<times> option_value \<Rightarrow> (string \<rightharpoonup> setting) \<Rightarrow> (string \<rightharpoonup> setting)" where
  "handle_option nv c m = (\<lambda>(name, v) options.
     case v of
       Int_Value n \<Rightarrow> options(name \<mapsto> Number n)
     | Int_Option f \<Rightarrow> options(name \<mapsto> Number (f nv (cf_video c)))
     | Optional_Option f \<Rightarrow> (case f (cf_video c) of Some n \<Rightarrow> options(name \<mapsto> Number n) | None \<Rightarrow> options)
     | Int_Function f \<Rightarrow> options(name \<mapsto> Number (f c))
     | Text_Value t \<Rightarrow> options(name \<mapsto> Text t)
     | Text_Option f \<Rightarrow> (if f (cf_video c) \<noteq> [] then options(name \<mapsto> Text (f (cf_video c))) else options)
     | Text_Function f \<Rightarrow> options(name \<mapsto> Text (f m)))"

definition codec_options_of :: "codec_t \<Rightarrow> monitor_config \<Rightarrow> bool \<Rightarrow> codec_options" where
  "codec_options_of k m retry =
     cd_common k @ (if mo_dynamicRange m \<noteq> 0 then cd_hdr k else cd_sdr k)
     @ (if mo_chromaSamplingType m = 1 then if mo_dynamicRange m \<noteq> 0 then cd_hdr444 k else cd_sdr444 k else [])
     @ (if retry then cd_fallback k else [])"

definition codec_dictionary ::
  "nvenc_values \<Rightarrow> Config.config_t \<Rightarrow> codec_t \<Rightarrow> monitor_config \<Rightarrow> bool \<Rightarrow> string \<rightharpoonup> setting" where
  "codec_dictionary nv c k m retry = fold (handle_option nv c m) (codec_options_of k m retry) Map.empty"

section \<open>Context of a codec\<close>

definition codec_profile :: "Config.config_t \<Rightarrow> codec_t \<Rightarrow> monitor_config \<Rightarrow> av_profile option" where
  "codec_profile c k m =
     (if mo_videoFormat m = 0
      then Some (H264_Profile (select_h264_profile (ascii (cd_name k)) m (amd_coder (vi_amd (cf_video c)))))
      else if mo_videoFormat m = 1
      then Some (if mo_chromaSamplingType m = 1 then AV_PROFILE_HEVC_REXT
        else if mo_dynamicRange m \<noteq> 0 then AV_PROFILE_HEVC_MAIN_10 else AV_PROFILE_HEVC_MAIN)
      else if mo_videoFormat m = 2
      then Some (if mo_chromaSamplingType m = 1 then AV_PROFILE_AV1_HIGH else AV_PROFILE_AV1_MAIN)
      else None)"

definition software_format :: "avcodec_part \<Rightarrow> sunshine_colorspace \<Rightarrow> monitor_config \<Rightarrow> av_pix_fmt" where
  "software_format f c m =
     (let d = so_bit_depth c; s = mo_chromaSamplingType m
      in if d = 8 \<and> s = 0 then af_pix_fmt_8bit f
         else if d = 8 \<and> s = 1 then af_pix_fmt_yuv444_8bit f
         else if d = 10 \<and> s = 0 then af_pix_fmt_10bit f
         else if d = 10 \<and> s = 1 then af_pix_fmt_yuv444_10bit f
         else AV_PIX_FMT_NONE)"

text \<open>The bitrate in bits per second.\<close>

definition stream_bitrate :: "Config.config_t \<Rightarrow> monitor_config \<Rightarrow> int" where
  "stream_bitrate c m =
     (let limit = vi_max_bitrate (cf_video c)
      in to_int ((if limit > 0 then min (mo_bitrate m) limit else mo_bitrate m) * 1000))"

text \<open>The buffer of the rate control. \<open>None\<close> is a division by zero.\<close>

definition rc_buffer_size ::
  "Config.config_t \<Rightarrow> encoder \<Rightarrow> bool \<Rightarrow> int \<Rightarrow> int \<Rightarrow> monitor_config \<Rightarrow> int option" where
  "rc_buffer_size c e hardware slices bitrate m =
     (if \<not> hardware \<and> (slices > 1 \<or> mo_videoFormat m = 1)
      then
        let frames = trunc_div (to_int (mo_framerate m * 10)) 15
        in if frames = 0 then None else Some (trunc_div bitrate frames)
      else if mo_framerate m = 0 then None
      else
        let size = trunc_div bitrate (mo_framerate m);
            more = nl_vbv_percentage_increase (vi_nv_legacy (cf_video c))
        in Some (if en_name e = ''nvenc'' \<and> more > 0 then to_int (size + trunc_div (to_int (size * more)) 100) else size))"

text \<open>Whether the codec of an encoder can do what a stream asks for.\<close>

definition codec_admits :: "codec_t \<Rightarrow> display_io \<Rightarrow> monitor_config \<Rightarrow> bool" where
  "codec_admits k d m \<longleftrightarrow>
     PASSED \<in> cd_capabilities k \<and> di_codec_supported d (cd_name k) m \<and>
     (if mo_chromaSamplingType m = 1
      then YUV444 \<in> cd_capabilities k \<and> (mo_dynamicRange m \<noteq> 0 \<longrightarrow> DYNAMIC_RANGE_YUV444 \<in> cd_capabilities k)
      else mo_dynamicRange m \<noteq> 0 \<longrightarrow> DYNAMIC_RANGE \<in> cd_capabilities k)"

definition hardware_ready :: "av_lib \<Rightarrow> encode_device \<Rightarrow> avcodec_part \<Rightarrow> av_pix_fmt \<Rightarrow> monitor_config \<Rightarrow> bool" where
  "hardware_ready l v f sw_fmt m \<longleftrightarrow>
     init_hardware_buffer l v (af_init_buffer f) \<and>
     (af_derived_dev_type f \<noteq> AV_HWDEVICE_TYPE_NONE \<longrightarrow> dv_derive_ready v \<and> lb_derived l (af_derived_dev_type f)) \<and>
     lb_hwframes l (af_dev_pix_fmt f) sw_fmt (mo_width m) (mo_height m)"

datatype 'a created = Created 'a | Not_Created | Trapped

text \<open>One round of the loop, up to the opening of the codec.\<close>

definition context_slices :: "Config.config_t \<Rightarrow> encoder \<Rightarrow> avcodec_part \<Rightarrow> monitor_config \<Rightarrow> int" where
  "context_slices c e f m =
     (if SINGLE_SLICE_ONLY \<in> en_flags e then 1
      else if af_base_dev_type f \<noteq> AV_HWDEVICE_TYPE_NONE then mo_slicesPerFrame m
      else max (mo_slicesPerFrame m) (vi_min_threads (cf_video c)))"

definition filled_context ::
  "av_lib \<Rightarrow> Config.config_t \<Rightarrow> encoder \<Rightarrow> avcodec_part \<Rightarrow> monitor_config \<Rightarrow> bool \<Rightarrow>
    av_pix_fmt \<Rightarrow> avcodec_colorspace \<Rightarrow> int option \<Rightarrow> codec_context" where
  "filled_context l c e f m retry sw_fmt color buffer =
     (let k = codec_from_config e m; fps = framerate_to_rational (lb_d2q l) m; bitrate = stream_bitrate c m
      in \<lparr> ax_width = mo_width m, ax_height = mo_height m, ax_framerate = fps, ax_time_base = (snd fps, fst fps),
           ax_profile = codec_profile c k m, ax_max_b_frames = 0,
           ax_gop_size = (if FIXED_GOP_SIZE \<in> en_flags e then 120
             else if LIMITED_GOP_SIZE \<in> en_flags e then 32767 else INT_MAX),
           ax_keyint_min = (if FIXED_GOP_SIZE \<in> en_flags e then 120 else INT_MAX),
           ax_refs = (if mo_numRefFrames m \<noteq> 0 \<and> REF_FRAMES_RESTRICT \<in> cd_capabilities k
             then Some (mo_numRefFrames m) else None),
           ax_closed_gop = True, ax_low_delay = True, ax_color = color, ax_sw_pix_fmt = sw_fmt,
           ax_pix_fmt = (if af_base_dev_type f \<noteq> AV_HWDEVICE_TYPE_NONE then af_dev_pix_fmt f else sw_fmt),
           ax_slices = context_slices c e f m, ax_thread_count = context_slices c e f m, ax_rc_max_rate = bitrate,
           ax_bit_rate = (if CBR_WITH_VBR \<in> en_flags e then bitrate - 1 else bitrate),
           ax_rc_min_rate = (if CBR_WITH_VBR \<in> en_flags e then None else Some bitrate),
           ax_unofficial = (RELAXED_COMPLIANCE \<in> en_flags e), ax_rc_buffer_size = buffer,
           ax_options = codec_dictionary (lb_values l) c k m retry \<rparr>)"

definition codec_context_of ::
  "av_lib \<Rightarrow> Config.config_t \<Rightarrow> encoder \<Rightarrow> avcodec_part \<Rightarrow> encode_device \<Rightarrow> monitor_config \<Rightarrow> bool \<Rightarrow> codec_context created" where
  "codec_context_of l c e f v m retry =
     (let hardware = (af_base_dev_type f \<noteq> AV_HWDEVICE_TYPE_NONE); sw_fmt = software_format f (dv_colorspace v) m
      in if mo_videoFormat m = 0 \<and> mo_dynamicRange m \<noteq> 0 then Trapped
         else
           case avcodec_colorspace_from_sunshine_colorspace (dv_colorspace v) of
             None \<Rightarrow> Trapped
           | Some color \<Rightarrow>
               if hardware \<and> \<not> hardware_ready l v f sw_fmt m then Not_Created
               else
                 case (if NO_RC_BUF_LIMIT \<in> en_flags e then Some None
                       else map_option Some (rc_buffer_size c e hardware (context_slices c e f m) (stream_bitrate c m) m)) of
                   None \<Rightarrow> Trapped
                 | Some buffer \<Rightarrow> Created (dv_codec_options v (filled_context l c e f m retry sw_fmt color buffer)))"

text \<open>The loop: a codec that does not open is tried once more with its fallback options.\<close>

definition open_codec ::
  "av_lib \<Rightarrow> Config.config_t \<Rightarrow> encoder \<Rightarrow> avcodec_part \<Rightarrow> encode_device \<Rightarrow> monitor_config \<Rightarrow> codec_context created" where
  "open_codec l c e f v m =
     (let k = codec_from_config e m
      in case codec_context_of l c e f v m False of
           Created x \<Rightarrow>
             if lb_open l (cd_name k) x then Created x
             else if cd_fallback k = [] then Not_Created
             else (case codec_context_of l c e f v m True of
               Created y \<Rightarrow> if lb_open l (cd_name k) y then Created y else Not_Created
             | other \<Rightarrow> other)
         | other \<Rightarrow> other)"

section \<open>Sessions\<close>

text \<open>
  A session of FFmpeg with the header to inject (1 for H.264, 2 for HEVC, 0 for none), or one of NVENC.
  \<open>ss_frame_key\<close> is the request for a key frame: the flags of the frame, or \<open>force_idr\<close>.
\<close>

record encode_session =
  ss_context :: "codec_context option"
  ss_inject :: int
  ss_software :: bool
  ss_frame_key :: bool

definition inject_of :: "codec_t \<Rightarrow> monitor_config \<Rightarrow> int" where
  "inject_of k m =
     (if mo_videoFormat m \<le> 1
      then (1 - (if VUI_PARAMETERS \<in> cd_capabilities k then 1 else 0)) * (1 + mo_videoFormat m) else 0)"

definition make_avcodec_encode_session ::
  "av_lib \<Rightarrow> Config.config_t \<Rightarrow> display_io \<Rightarrow> encoder \<Rightarrow> monitor_config \<Rightarrow> int \<Rightarrow> int \<Rightarrow> encode_device \<Rightarrow> encode_session created" where
  "make_avcodec_encode_session l c d e m width height v =
     (case ef_avcodec (en_formats e) of
        None \<Rightarrow> Not_Created
      | Some f \<Rightarrow>
          let k = codec_from_config e m
          in if \<not> codec_admits k d m \<or> \<not> lb_has_encoder l (cd_name k) then Not_Created
             else
               case open_codec l c e f v m of
                 Created x \<Rightarrow>
                   if \<not> dv_data v \<and> \<not> lb_software_scaler l width height x then Not_Created
                   else if \<not> dv_set_frame v then Not_Created
                   else Created \<lparr> ss_context = Some x, ss_inject = inject_of k m, ss_software = (\<not> dv_data v), ss_frame_key = False \<rparr>
               | Not_Created \<Rightarrow> Not_Created
               | Trapped \<Rightarrow> Trapped)"

definition make_nvenc_encode_session :: "monitor_config \<Rightarrow> encode_device \<Rightarrow> encode_session created" where
  "make_nvenc_encode_session m v =
     (if dv_init_encoder v m (dv_colorspace v)
      then Created \<lparr> ss_context = None, ss_inject = 0, ss_software = False, ss_frame_key = False \<rparr>
      else Not_Created)"

definition make_encode_session ::
  "av_lib \<Rightarrow> Config.config_t \<Rightarrow> display_io \<Rightarrow> encoder \<Rightarrow> monitor_config \<Rightarrow> int \<Rightarrow> int \<Rightarrow> encode_device \<Rightarrow> encode_session created" where
  "make_encode_session l c d e m width height v =
     (case dv_kind v of
        Avcodec_Device \<Rightarrow> make_avcodec_encode_session l c d e m width height v
      | Nvenc_Device \<Rightarrow> make_nvenc_encode_session m v)"

section \<open>Properties\<close>

lemmas encoder_defs = nvenc_windows_def nvenc_cuda_def quicksync_def amdvce_def mediafoundation_def software_def
  vaapi_def vulkan_def videotoolbox_def

text \<open>What the table says of an encoder, without its options.\<close>

lemma encoder_flags:
  "en_flags nvenc_windows = {PARALLEL_ENCODING, REF_FRAMES_INVALIDATION, YUV444_SUPPORT, ASYNC_TEARDOWN}"
  "en_flags (nvenc_cuda v) = {PARALLEL_ENCODING, YUV444_SUPPORT}"
  "en_flags (quicksync v) = {PARALLEL_ENCODING, CBR_WITH_VBR, RELAXED_COMPLIANCE, NO_RC_BUF_LIMIT, YUV444_SUPPORT}"
  "en_flags (amdvce v) = {PARALLEL_ENCODING}"
  "en_flags (mediafoundation v) = {PARALLEL_ENCODING, FIXED_GOP_SIZE}"
  "en_flags (software v w) = {H264_ONLY, PARALLEL_ENCODING, ALWAYS_REPROBE, YUV444_SUPPORT}"
  "en_flags (vaapi v) = {LIMITED_GOP_SIZE, PARALLEL_ENCODING, NO_RC_BUF_LIMIT}"
  "en_flags (vulkan v) = {LIMITED_GOP_SIZE, PARALLEL_ENCODING}"
  "en_flags (videotoolbox v) = {PARALLEL_ENCODING}"
  by (simp_all only: encoder_defs encoder.simps)

lemma codec_name [simp]: "cd_name (codec name o1 o2 o3 o4 o5 o6) = name" "cd_capabilities (codec name o1 o2 o3 o4 o5 o6) = {}"
  by (simp_all add: codec_def)

lemma encoder_h264:
  "cd_name (en_h264 nvenc_windows) \<noteq> [] \<and> cd_capabilities (en_h264 nvenc_windows) = {}"
  "cd_name (en_h264 (nvenc_cuda v)) \<noteq> [] \<and> cd_capabilities (en_h264 (nvenc_cuda v)) = {}"
  "cd_name (en_h264 (quicksync v)) \<noteq> [] \<and> cd_capabilities (en_h264 (quicksync v)) = {}"
  "cd_name (en_h264 (amdvce v)) \<noteq> [] \<and> cd_capabilities (en_h264 (amdvce v)) = {}"
  "cd_name (en_h264 (mediafoundation v)) \<noteq> [] \<and> cd_capabilities (en_h264 (mediafoundation v)) = {}"
  "cd_name (en_h264 (software v w)) \<noteq> [] \<and> cd_capabilities (en_h264 (software v w)) = {}"
  "cd_name (en_h264 (vaapi v)) \<noteq> [] \<and> cd_capabilities (en_h264 (vaapi v)) = {}"
  "cd_name (en_h264 (vulkan v)) \<noteq> [] \<and> cd_capabilities (en_h264 (vulkan v)) = {}"
  "cd_name (en_h264 (videotoolbox v)) \<noteq> [] \<and> cd_capabilities (en_h264 (videotoolbox v)) = {}"
  by (simp_all only: encoder_defs encoder.simps codec_name) simp_all

lemmas encoder_facts = encoder_flags encoder_h264

text \<open>
  Every encoder of every build encodes in parallel with the capture, so the synchronous capture thread never
  runs; and every encoder has an H.264 codec.
\<close>
theorem encoders_parallel:
  "e \<in> set (encoders b) \<Longrightarrow> PARALLEL_ENCODING \<in> en_flags e \<and> cd_name (en_h264 e) \<noteq> [] \<and> cd_capabilities (en_h264 e) = {}"
  by (auto simp: encoders_def encoder_facts split: host_os.splits if_splits)

theorem encoders_parallel_witness:
  "PARALLEL_ENCODING \<in> en_flags (vaapi False)"
  using encoders_parallel [of "vaapi False" "\<lparr> bu_os = Linux, bu_vulkan = False, bu_broken_av1 = False \<rparr>"]
  by (simp add: encoders_def)

text \<open>The format of the software encoder for 4:4:4 with ten bits has no name on the side of the displays.\<close>

lemma software_yuv444_10_unknown: "ef_pix_fmt_yuv444_10bit (en_formats (software v b)) = Unknown_Fmt"
  by (simp only: software_def encoder.simps avcodec_formats_def encoder_formats.simps map_pix_fmt_def av_pix_fmt.case)

subsection \<open>Options\<close>

text \<open>What an option writes, if it writes anything.\<close>

definition option_setting :: "nvenc_values \<Rightarrow> Config.config_t \<Rightarrow> monitor_config \<Rightarrow> option_value \<Rightarrow> setting option" where
  "option_setting nv c m v = handle_option nv c m ([], v) Map.empty []"

lemma handle_option_setting:
  "handle_option nv c m (n, v) d = (case option_setting nv c m v of Some x \<Rightarrow> d(n \<mapsto> x) | None \<Rightarrow> d)"
  by (cases v) (auto simp: option_setting_def handle_option_def split: option.splits)

lemma fold_options_other: "n \<notin> fst ` set os \<Longrightarrow> fold (handle_option nv c m) os d n = d n"
proof (induction os arbitrary: d)
  case (Cons p os)
  then show ?case by (cases p) (auto simp: handle_option_setting split: option.split)
qed simp

text \<open>
  An option is set to the value of its last entry that has one: the fallback options override the others when a
  codec is tried again, and come after the options for the dynamic range and the chroma.
\<close>
theorem last_option_wins:
  assumes "codec_options_of k m retry = before @ (n, v) # after"
    and "option_setting nv c m v = Some x" and "n \<notin> fst ` set after"
  shows "codec_dictionary nv c k m retry n = Some x"
  using assms by (simp add: codec_dictionary_def handle_option_setting fold_options_other)

theorem last_option_wins_witness:
  "\<forall>nv c b. codec_dictionary nv c (en_hevc (quicksync b)) \<lparr> mo_width = 1920, mo_height = 1080, mo_framerate = 60,
      mo_framerateX100 = 0, mo_bitrate = 1000, mo_slicesPerFrame = 1, mo_numRefFrames = 0, mo_encoderCscMode = 1,
      mo_videoFormat = 1, mo_dynamicRange = 0, mo_chromaSamplingType = 0, mo_enableIntraRefresh = 0 \<rparr> True ''low_power''
    = Some (Number (low_power_hevc c))"
  by (intro allI, rule last_option_wins [where after = "[]" and v = "Int_Function low_power_hevc"])
    (auto simp: codec_options_of_def quicksync_def codec_def option_setting_def handle_option_def)

subsection \<open>Bitrate and frame rate\<close>
lemma to_int_id: "INT_MIN \<le> n \<Longrightarrow> n \<le> INT_MAX \<Longrightarrow> to_int n = n"
  by (simp add: to_int_def INT_MIN_def INT_MAX_def sint_sbintrunc' signed_take_bit_int_eq_self)

lemma stream_bitrate_limit:
  assumes "0 < vi_max_bitrate (cf_video c)" "vi_max_bitrate (cf_video c) \<le> 2147483" "0 \<le> mo_bitrate m"
  shows "stream_bitrate c m = min (mo_bitrate m) (vi_max_bitrate (cf_video c)) * 1000"
  unfolding stream_bitrate_def Let_def using assms by (simp add: to_int_id INT_MIN_def INT_MAX_def)

text \<open>The bitrate of a client above 2147483 kbps wraps, here to a negative rate.\<close>

lemma stream_bitrate_wraps:
  "vi_max_bitrate (cf_video c) = 0 \<Longrightarrow> mo_bitrate m = 2200000 \<Longrightarrow> stream_bitrate c m < 0"
  by (simp add: stream_bitrate_def to_int_def)

lemma trunc_div_15: "trunc_div x 15 = 0 \<longleftrightarrow> \<bar>x\<bar> < 15"
  by (auto simp: trunc_div_def sgn_if zdiv_eq_0_iff div_eq_0_iff)

lemma rc_buffer_size_None:
  "rc_buffer_size c e hardware slices bitrate m = None \<longleftrightarrow>
    (if \<not> hardware \<and> (slices > 1 \<or> mo_videoFormat m = 1) then \<bar>to_int (mo_framerate m * 10)\<bar> < 15 else mo_framerate m = 0)"
  by (simp add: rc_buffer_size_def trunc_div_15 Let_def)

text \<open>
  Setting up a codec of FFmpeg for a stream divides by zero exactly for the frame rates that make the buffer of
  its rate control have no frames: 0, and 1 too in software with several slices or HEVC.
\<close>
theorem frame_rate_divides_by_zero:
  assumes "ef_avcodec (en_formats e) = Some f" "NO_RC_BUF_LIMIT \<notin> en_flags e"
    and "mo_videoFormat m = 0 \<Longrightarrow> mo_dynamicRange m = 0"
    and "dv_colorspace v = colorspace_from_client_config m hdr"
    and "af_base_dev_type f \<noteq> AV_HWDEVICE_TYPE_NONE \<Longrightarrow> hardware_ready l v f (software_format f (dv_colorspace v) m) m"
    and "0 \<le> mo_framerate m" "mo_framerate m \<le> 1000" "SINGLE_SLICE_ONLY \<notin> en_flags e"
  shows "codec_context_of l c e f v m retry = Trapped \<longleftrightarrow>
    mo_framerate m = 0 \<or> mo_framerate m = 1 \<and> af_base_dev_type f = AV_HWDEVICE_TYPE_NONE \<and>
      (mo_slicesPerFrame m > 1 \<or> vi_min_threads (cf_video c) > 1 \<or> mo_videoFormat m = 1)"
proof -
  let ?hw = "af_base_dev_type f \<noteq> AV_HWDEVICE_TYPE_NONE"
  obtain color where "avcodec_colorspace_from_sunshine_colorspace (dv_colorspace v) = Some color"
    using colorspace_assertions_hold [of m hdr] assms(4) by auto
  then have "codec_context_of l c e f v m retry = Trapped \<longleftrightarrow> rc_buffer_size c e ?hw (context_slices c e f m) (stream_bitrate c m) m = None"
    using assms(2,3,5) by (auto simp: codec_context_of_def Let_def split: option.splits)
  moreover have "\<bar>to_int (mo_framerate m * 10)\<bar> < 15 \<longleftrightarrow> mo_framerate m = 0 \<or> mo_framerate m = 1"
    using assms(6,7) by (auto simp: to_int_id INT_MIN_def INT_MAX_def)
  ultimately show ?thesis unfolding rc_buffer_size_None context_slices_def using assms(8) by auto
qed

lemma announce_keeps_frame_rate:
  assumes "cmd_announce_config e h mode session req = Start_Session c"
    and "announce_args (announce_lines [] (rq_payload req)) Map.empty = Some args"
    and "args (ascii ''x-nv-video[0].maxFPS'') = Some t"
  shows "mo_framerate (sc_monitor c) = to_int (from_chars t)"
proof -
  have t: "with_defaults args (ascii ''x-nv-video[0].maxFPS'') = Some t"
  proof -
    have "fold (\<lambda>(k, v). emplace (ascii k) (ascii v)) ds args (ascii ''x-nv-video[0].maxFPS'') = Some t" for ds
      using assms(3)
    proof (induction ds arbitrary: args)
      case (Cons p ds)
      obtain k w where p: "p = (k, w)" by fastforce
      from Cons.prems have "emplace (ascii k) (ascii w) args (ascii ''x-nv-video[0].maxFPS'') = Some t"
        by (auto simp: emplace_def split: option.split)
      then show ?case by (simp add: p Cons.IH)
    qed simp
    then show ?thesis by (simp add: with_defaults_def)
  qed
  from assms(1,2) obtain c0 k where r: "read_config e h session (with_defaults args) = Some (c0, k)"
    and c: "mo_framerate (sc_monitor c) = mo_framerate (sc_monitor c0)"
    by (auto simp: cmd_announce_config_def Let_def split: option.splits if_splits)
  from r t have "mo_framerate (sc_monitor c0) = to_int (from_chars t)"
    by (auto simp: read_config_def Let_def split: if_splits)
  with c show ?thesis by simp
qed

definition software_device :: encode_device where
  "software_device = \<lparr> dv_kind = Avcodec_Device, dv_colorspace = \<lparr> so_colorspace = Rec601, so_full_range = False, so_bit_depth = 8 \<rparr>,
     dv_data = False, dv_own_buffer = False, dv_derive_ready = True, dv_codec_options = id, dv_set_frame = True,
     dv_init_encoder = (\<lambda>_ _. False), dv_convert = True, dv_answers = (\<lambda>_ _. Some_Packet True True) \<rparr>"

definition monitor_example :: "int \<Rightarrow> monitor_config" where
  "monitor_example fps = \<lparr> mo_width = 1920, mo_height = 1080, mo_framerate = fps, mo_framerateX100 = 0, mo_bitrate = 1000,
     mo_slicesPerFrame = 1, mo_numRefFrames = 0, mo_encoderCscMode = 0, mo_videoFormat = 0, mo_dynamicRange = 0,
     mo_chromaSamplingType = 0, mo_enableIntraRefresh = 0 \<rparr>"

theorem frame_rate_divides_by_zero_witness:
  "\<exists>f. ef_avcodec (en_formats (software False False)) = Some f \<and>
     (\<forall>l c. codec_context_of l c (software False False) f software_device (monitor_example 0) False = Trapped)"
proof -
  obtain f where f: "ef_avcodec (en_formats (software False False)) = Some f" "af_base_dev_type f = AV_HWDEVICE_TYPE_NONE"
    by (simp add: software_def avcodec_formats_def)
  have "codec_context_of l c (software False False) f software_device (monitor_example 0) False = Trapped" for l c
    using frame_rate_divides_by_zero [OF f(1), of "monitor_example 0" software_device False l c False] f(2)
    by (simp add: software_def monitor_example_def software_device_def colorspace_from_client_config_def
        requested_colorspace_def)
  with f(1) show ?thesis by blast
qed

subsection \<open>Sessions\<close>
lemma open_codec_Created:
  assumes "open_codec l c e f v m = Created x"
  obtains retry where "codec_context_of l c e f v m retry = Created x"
  using assms by (auto simp: open_codec_def Let_def split: created.splits if_splits)

text \<open>
  A session of FFmpeg exists only for a codec that passed its tests and can do the chroma and the dynamic range
  that the client asked for, on a device that was made for that colorspace; before the device adds options it has no
  B-frames, the size and the profile of the stream, at most the bitrate of the limit, and bounds its reference frames
  only where that was tested.
\<close>
theorem session_settings:
  assumes "make_avcodec_encode_session l c d e m width height v = Created s" "dv_codec_options v = id"
  obtains x where "ss_context s = Some x" "codec_admits (codec_from_config e m) d m"
    "ax_width x = mo_width m" "ax_height x = mo_height m" "ax_max_b_frames x = 0"
    "ax_profile x = codec_profile c (codec_from_config e m) m"
    "avcodec_colorspace_from_sunshine_colorspace (dv_colorspace v) = Some (ax_color x)"
    "ax_bit_rate x \<le> ax_rc_max_rate x" "ax_rc_max_rate x = stream_bitrate c m"
    "ax_refs x \<noteq> None \<Longrightarrow> REF_FRAMES_RESTRICT \<in> cd_capabilities (codec_from_config e m)"
    "ax_thread_count x = ax_slices x"
proof -
  from assms(1) obtain f x where s: "ss_context s = Some x" "codec_admits (codec_from_config e m) d m"
    and o: "open_codec l c e f v m = Created x"
    by (auto simp: make_avcodec_encode_session_def Let_def split: option.splits if_splits created.splits)
  from o obtain retry where "codec_context_of l c e f v m retry = Created x" by (rule open_codec_Created)
  with assms(2) obtain color buffer
    where x: "x = filled_context l c e f m retry (software_format f (dv_colorspace v) m) color buffer"
    and "avcodec_colorspace_from_sunshine_colorspace (dv_colorspace v) = Some color"
    by (auto simp: codec_context_of_def Let_def split: option.splits if_splits)
  then show thesis by (intro that [OF s]) (auto simp: filled_context_def Let_def split: if_splits)
qed

end
