(* ===== verification/Encoder_Probe.thy ===== *)
theory Encoder_Probe
  imports Encoder_Setup "HOL-Library.Monad_Syntax"
begin

text \<open>
  The search for an encoder that works: \<open>validate_config\<close>, \<open>validate_encoder\<close> and \<open>probe_encoders\<close> of
  \<open>src/video.cpp\<close>. The encoders are a list and pointers to them are indices. Displays are opened through
  the environment, which may answer differently at every attempt; \<open>None\<close> is a run that does not return.
\<close>

section \<open>Environment and state\<close>


record probe_env =
  pe_lib :: av_lib
  pe_display :: "nat \<Rightarrow> mem_type_e \<Rightarrow> bytes \<Rightarrow> monitor_config \<Rightarrow> display_io option"
  pe_output_name :: bytes
  pe_devices :: "bool list"
  pe_macos :: bool
  pe_needs_reenumeration :: bool

record probe_state =
  ps_encoders :: "encoder list"
  ps_chosen :: "nat option"
  ps_hevc_mode :: int
  ps_av1_mode :: int
  ps_ref_invalidation :: bool
  ps_yuv444 :: "nat \<Rightarrow> bool"
  ps_attempts :: nat

text \<open>\<open>pe_devices\<close> tells which of the enumerated devices are active; macOS probes anyway.\<close>

definition allow_encoder_probing :: "probe_env \<Rightarrow> bool" where
  "allow_encoder_probing e \<longleftrightarrow> pe_devices e = [] \<or> list_ex (\<lambda>active. active) (pe_devices e) \<or> pe_macos e"

text \<open>Two attempts at a display.\<close>

definition reset_display :: "(nat \<Rightarrow> display_io option) \<Rightarrow> nat \<Rightarrow> display_io option \<times> nat" where
  "reset_display attempt n =
     (case attempt n of Some d \<Rightarrow> (Some d, n + 1) | None \<Rightarrow> (attempt (n + 1), n + 2))"

section \<open>One configuration\<close>

definition VUI_PARAMS :: int where "VUI_PARAMS = 1"

text \<open>Encoding until there is a packet.\<close>

partial_function (option) first_packet :: "(nat \<Rightarrow> encode_answer) \<Rightarrow> nat \<Rightarrow> encode_answer option" where
  "first_packet a n = (case a n of No_Packet \<Rightarrow> first_packet a (n + 1) | Encode_Failed \<Rightarrow> Some Encode_Failed
     | Some_Packet idr vui \<Rightarrow> Some (Some_Packet idr vui))"

definition judge_packet :: "encode_session \<Rightarrow> monitor_config \<Rightarrow> encode_answer \<Rightarrow> int" where
  "judge_packet s m r =
     (case r of
        Some_Packet idr vui \<Rightarrow>
          if \<not> idr then - 1
          else if mo_videoFormat m \<le> 1 \<and> (ss_context s = None \<or> vui) then VUI_PARAMS else 0
      | _ \<Rightarrow> - 1)"

definition validate_config :: "probe_env \<Rightarrow> Config.config_t \<Rightarrow> display_io \<Rightarrow> encoder \<Rightarrow> monitor_config \<Rightarrow> int option" where
  "validate_config p c d e m =
     (case make_encode_device d e m of
        None \<Rightarrow> Some (- 1)
      | Some v \<Rightarrow>
          (case make_encode_session (pe_lib p) c d e m (di_width d) (di_height d) v of
             Trapped \<Rightarrow> None
           | Not_Created \<Rightarrow> Some (- 1)
           | Created s \<Rightarrow>
               if \<not> di_images d \<or> \<not> dv_convert v then Some (- 1)
               else map_option (judge_packet s m) (first_packet (dv_answers v m) 0)))"

section \<open>One encoder\<close>

text \<open>The formats by their number, and the capabilities of their codecs.\<close>

definition codec_of :: "nat \<Rightarrow> encoder \<Rightarrow> codec_t" where
  "codec_of k e = (if k = 0 then en_h264 e else if k = 1 then en_hevc e else en_av1 e)"

definition set_capabilities :: "nat \<Rightarrow> codec_flag set \<Rightarrow> encoder \<Rightarrow> encoder" where
  "set_capabilities k f e =
     (if k = 0 then e\<lparr> en_h264 := (en_h264 e)\<lparr> cd_capabilities := f \<rparr> \<rparr>
      else if k = 1 then e\<lparr> en_hevc := (en_hevc e)\<lparr> cd_capabilities := f \<rparr> \<rparr>
      else e\<lparr> en_av1 := (en_av1 e)\<lparr> cd_capabilities := f \<rparr> \<rparr>)"

abbreviation capabilities :: "nat \<Rightarrow> encoder \<Rightarrow> codec_flag set" where
  "capabilities k e \<equiv> cd_capabilities (codec_of k e)"

definition set_flag :: "nat \<Rightarrow> codec_flag \<Rightarrow> bool \<Rightarrow> encoder \<Rightarrow> encoder" where
  "set_flag k f b e = set_capabilities k (if b then insert f (capabilities k e) else capabilities k e - {f}) e"

definition probe_config :: "int \<Rightarrow> int \<Rightarrow> int \<Rightarrow> int \<Rightarrow> int \<Rightarrow> monitor_config" where
  "probe_config refs csc format dynamic sampling =
     \<lparr> mo_width = 1920, mo_height = 1080, mo_framerate = 60, mo_framerateX100 = 6000, mo_bitrate = 1000,
       mo_slicesPerFrame = 1, mo_numRefFrames = refs, mo_encoderCscMode = csc, mo_videoFormat = format,
       mo_dynamicRange = dynamic, mo_chromaSamplingType = sampling, mo_enableIntraRefresh = 0 \<rparr>"

definition config_max_ref_frames :: "nat \<Rightarrow> monitor_config" where
  "config_max_ref_frames k = probe_config 1 1 (int k) 0 0"

definition config_autoselect :: "nat \<Rightarrow> monitor_config" where
  "config_autoselect k = probe_config 0 1 (int k) 0 0"

text \<open>\<open>&\<close> with the flag, that is bit 0, also of - 1.\<close>

definition judged :: "int \<Rightarrow> int \<Rightarrow> bool \<Rightarrow> nat \<Rightarrow> encoder \<Rightarrow> encoder" where
  "judged max_ref auto works k e =
     set_flag k PASSED works (set_flag k REF_FRAMES_RESTRICT (max_ref \<ge> 0)
       (set_flag k VUI_PARAMETERS (odd max_ref \<and> odd auto) e))"

text \<open>HEVC (1) and AV1 (2), after H.264.\<close>

definition test_codec ::
  "probe_env \<Rightarrow> Config.config_t \<Rightarrow> display_io \<Rightarrow> bool \<Rightarrow> int \<Rightarrow> nat \<Rightarrow> encoder \<Rightarrow> encoder option" where
  "test_codec p c d wanted max_ref_h264 k e =
     (if \<not> wanted \<or> \<not> di_codec_supported d (cd_name (codec_of k e)) (config_autoselect k)
      then Some (set_capabilities k {} e)
      else do {
        max_ref \<leftarrow> validate_config p c d e (config_max_ref_frames k);
        auto \<leftarrow> (if max_ref \<ge> 0 \<or> max_ref_h264 \<ge> 0 then Some max_ref
                 else validate_config p c d e (config_autoselect k));
        Some (judged max_ref auto (max_ref \<ge> 0 \<or> auto \<ge> 0) k e)
      })"

definition open_display :: "probe_env \<Rightarrow> encoder \<Rightarrow> monitor_config \<Rightarrow> nat \<Rightarrow> display_io option" where
  "open_display p e m n = pe_display p n (ef_dev_type (en_formats e)) (pe_output_name p) m"

text \<open>The test of one more feature, on a display of its own.\<close>

definition test_feature ::
  "probe_env \<Rightarrow> Config.config_t \<Rightarrow> nat \<Rightarrow> codec_flag \<Rightarrow> monitor_config \<Rightarrow> encoder \<times> nat \<Rightarrow> (encoder \<times> nat) option" where
  "test_feature p c k f m = (\<lambda>(e, n).
     let (disp, n') = reset_display (open_display p e m) n
     in case disp of
          None \<Rightarrow> Some (e, n')
        | Some d \<Rightarrow>
            if PASSED \<notin> capabilities k e then Some (e, n')
            else if mo_chromaSamplingType m = 1 \<and> YUV444_SUPPORT \<notin> en_flags e \<or>
              \<not> di_codec_supported d (cd_name (codec_of k e)) m
            then Some (set_flag k f False e, n')
            else do { r \<leftarrow> validate_config p c d e m; Some (set_flag k f (r \<ge> 0) e, n') })"

definition yuv444_config :: "nat \<Rightarrow> monitor_config" where "yuv444_config k = probe_config 0 1 (int k) 0 1"
definition hdr_config :: "nat \<Rightarrow> monitor_config" where "hdr_config k = probe_config 0 3 (int k) 1 0"
definition hdr444_config :: "nat \<Rightarrow> monitor_config" where "hdr444_config k = probe_config 0 3 (int k) 1 1"

definition test_features ::
  "probe_env \<Rightarrow> Config.config_t \<Rightarrow> encoder \<times> nat \<Rightarrow> (encoder \<times> nat) option" where
  "test_features p c en0 = do {
     (e1, n1) \<leftarrow> test_feature p c 0 YUV444 (yuv444_config 0) en0;
     let e2 = set_flag 0 DYNAMIC_RANGE_YUV444 False (set_flag 0 DYNAMIC_RANGE False e1);
     en3 \<leftarrow> test_feature p c 1 YUV444 (yuv444_config 1) (e2, n1);
     en4 \<leftarrow> test_feature p c 1 DYNAMIC_RANGE (hdr_config 1) en3;
     en5 \<leftarrow> test_feature p c 1 DYNAMIC_RANGE_YUV444 (hdr444_config 1) en4;
     en6 \<leftarrow> test_feature p c 2 YUV444 (yuv444_config 2) en5;
     en7 \<leftarrow> test_feature p c 2 DYNAMIC_RANGE (hdr_config 2) en6;
     test_feature p c 2 DYNAMIC_RANGE_YUV444 (hdr444_config 2) en7
   }"

definition mask_vui :: "Config.config_t \<Rightarrow> nat \<Rightarrow> encoder \<Rightarrow> encoder" where
  "mask_vui c k e =
     set_flag k VUI_PARAMETERS (VUI_PARAMETERS \<in> capabilities k e \<and> FORCE_VIDEO_HEADER_REPLACE \<notin> sn_flags (cf_sunshine c)) e"

definition all_capabilities :: "encoder \<Rightarrow> encoder" where
  "all_capabilities e = set_capabilities 2 UNIV (set_capabilities 1 UNIV (set_capabilities 0 UNIV e))"

definition mode_tested :: "int \<Rightarrow> encoder \<Rightarrow> bool" where
  "mode_tested mode e \<longleftrightarrow> mode \<ge> 2 \<or> mode = 0 \<and> H264_ONLY \<notin> en_flags e"

definition test_h264 ::
  "probe_env \<Rightarrow> Config.config_t \<Rightarrow> display_io \<Rightarrow> bool \<Rightarrow> encoder \<Rightarrow> (int \<times> encoder) option option" where
  "test_h264 p c d expect_failure e = do {
     max_ref \<leftarrow> (if expect_failure then Some (- 1) else validate_config p c d e (config_max_ref_frames 0));
     auto \<leftarrow> (if max_ref \<ge> 0 then Some max_ref else validate_config p c d e (config_autoselect 0));
     if auto < 0 then Some None
     else do {
       max_ref' \<leftarrow> (if expect_failure then validate_config p c d e (config_max_ref_frames 0) else Some max_ref);
       Some (Some (max_ref', judged max_ref' auto True 0 e))
     }
   }"

definition validate_encoder ::
  "probe_env \<Rightarrow> Config.config_t \<Rightarrow> int \<Rightarrow> int \<Rightarrow> encoder \<Rightarrow> bool \<Rightarrow> nat \<Rightarrow> (bool \<times> encoder \<times> nat) option" where
  "validate_encoder p c hevc_mode av1_mode e0 expect_failure n =
     (let e = all_capabilities e0;
          (disp, n1) = reset_display (open_display p e (config_autoselect 0)) n
      in case disp of
           None \<Rightarrow> Some (False, e, n1)
         | Some d \<Rightarrow>
             if \<not> di_codec_supported d (cd_name (en_h264 e)) (config_autoselect 0) then Some (False, e, n1)
             else do {
               h264 \<leftarrow> test_h264 p c d expect_failure e;
               case h264 of
                 None \<Rightarrow> Some (False, e, n1)
               | Some (max_ref, e1) \<Rightarrow> do {
                   e2 \<leftarrow> test_codec p c d (mode_tested hevc_mode e1) max_ref 1 e1;
                   e3 \<leftarrow> test_codec p c d (mode_tested av1_mode e1) max_ref 2 e2;
                   (e4, n4) \<leftarrow> test_features p c (e3, n1);
                   Some (True, mask_vui c 1 (mask_vui c 0 e4), n4)
                 }
             })"

section \<open>All encoders\<close>

definition adjust_constraints_hevc :: "encoder \<Rightarrow> probe_state \<Rightarrow> probe_state" where
  "adjust_constraints_hevc e s =
     (let m = ps_hevc_mode s; f = cd_capabilities (en_hevc e)
      in if m = 5 \<and> DYNAMIC_RANGE \<notin> f \<and> DYNAMIC_RANGE_YUV444 \<notin> f then s\<lparr> ps_hevc_mode := 0 \<rparr>
         else if m = 4 \<and> DYNAMIC_RANGE_YUV444 \<notin> f then s\<lparr> ps_hevc_mode := 0 \<rparr>
         else if m = 3 \<and> DYNAMIC_RANGE \<notin> f then s\<lparr> ps_hevc_mode := 0 \<rparr>
         else if m = 2 \<and> PASSED \<notin> f then s\<lparr> ps_hevc_mode := 0 \<rparr>
         else s)"

text \<open>The second and the third branch read and write the mode of HEVC, and the third its capabilities.\<close>

definition adjust_constraints_av1 :: "encoder \<Rightarrow> probe_state \<Rightarrow> probe_state" where
  "adjust_constraints_av1 e s =
     (let f = cd_capabilities (en_av1 e)
      in if ps_av1_mode s = 5 \<and> DYNAMIC_RANGE \<notin> f \<and> DYNAMIC_RANGE_YUV444 \<notin> f then s\<lparr> ps_av1_mode := 0 \<rparr>
         else if ps_hevc_mode s = 4 \<and> DYNAMIC_RANGE_YUV444 \<notin> f then s\<lparr> ps_hevc_mode := 0 \<rparr>
         else if ps_hevc_mode s = 3 \<and> DYNAMIC_RANGE \<notin> cd_capabilities (en_hevc e) then s\<lparr> ps_hevc_mode := 0 \<rparr>
         else if ps_av1_mode s = 2 \<and> PASSED \<notin> f then s\<lparr> ps_av1_mode := 0 \<rparr>
         else s)"

definition validate_at ::
  "probe_env \<Rightarrow> Config.config_t \<Rightarrow> nat option \<Rightarrow> nat \<Rightarrow> probe_state \<Rightarrow> (bool \<times> probe_state) option" where
  "validate_at p c previous i s = do {
     (ok, e, n) \<leftarrow> validate_encoder p c (ps_hevc_mode s) (ps_av1_mode s) (ps_encoders s ! i)
       (previous \<noteq> None \<and> previous \<noteq> Some i) (ps_attempts s);
     Some (ok, s\<lparr> ps_encoders := (ps_encoders s)[i := e], ps_attempts := n \<rparr>)
   }"

definition choose_adjusted :: "nat \<Rightarrow> probe_state \<Rightarrow> probe_state" where
  "choose_adjusted i s =
     (adjust_constraints_av1 (ps_encoders s ! i) (adjust_constraints_hevc (ps_encoders s ! i) s))\<lparr> ps_chosen := Some i \<rparr>"

text \<open>The passes over the list of encoders; they answer what is left of the list.\<close>

fun probe_named ::
  "probe_env \<Rightarrow> Config.config_t \<Rightarrow> nat option \<Rightarrow> nat list \<Rightarrow> probe_state \<Rightarrow> (nat list \<times> probe_state) option" where
  "probe_named p c previous [] s = Some ([], s)"
| "probe_named p c previous (i # is) s =
     (if ascii (en_name (ps_encoders s ! i)) = vi_encoder (cf_video c)
      then do {
        (ok, s1) \<leftarrow> validate_at p c previous i s;
        Some (if ok then (i # is, choose_adjusted i s1) else (is, s1))
      }
      else do { (js, s1) \<leftarrow> probe_named p c previous is s; Some (i # js, s1) })"

definition meets_requirement :: "int \<Rightarrow> codec_flag set \<Rightarrow> bool" where
  "meets_requirement m f \<longleftrightarrow>
     \<not> (m \<ge> 2 \<and> PASSED \<notin> f) \<and> \<not> (m = 5 \<and> DYNAMIC_RANGE \<notin> f \<and> DYNAMIC_RANGE_YUV444 \<notin> f) \<and>
     \<not> (m = 4 \<and> DYNAMIC_RANGE_YUV444 \<notin> f) \<and> \<not> (m = 3 \<and> DYNAMIC_RANGE \<notin> f)"

definition meets_requirements :: "probe_state \<Rightarrow> encoder \<Rightarrow> bool" where
  "meets_requirements s e \<longleftrightarrow>
     meets_requirement (ps_hevc_mode s) (cd_capabilities (en_hevc e)) \<and>
     meets_requirement (ps_av1_mode s) (cd_capabilities (en_av1 e))"

fun probe_required ::
  "probe_env \<Rightarrow> Config.config_t \<Rightarrow> nat option \<Rightarrow> nat list \<Rightarrow> probe_state \<Rightarrow> (nat list \<times> probe_state) option" where
  "probe_required p c previous [] s = Some ([], s)"
| "probe_required p c previous (i # is) s = do {
     (ok, s1) \<leftarrow> validate_at p c previous i s;
     if \<not> ok then probe_required p c previous is s1
     else if meets_requirements s1 (ps_encoders s1 ! i) then Some (i # is, s1\<lparr> ps_chosen := Some i \<rparr>)
     else do { (js, s2) \<leftarrow> probe_required p c previous is s1; Some (i # js, s2) }
   }"

fun probe_any ::
  "probe_env \<Rightarrow> Config.config_t \<Rightarrow> nat option \<Rightarrow> nat list \<Rightarrow> probe_state \<Rightarrow> (nat list \<times> probe_state) option" where
  "probe_any p c previous [] s = Some ([], s)"
| "probe_any p c previous (i # is) s = do {
     (ok, s1) \<leftarrow> validate_at p c previous i s;
     if \<not> ok then probe_any p c previous is s1 else Some (i # is, choose_adjusted i s1)
   }"

text \<open>The mode that stands for what an encoder can do, where the configuration left it open.\<close>

definition detected_mode :: "codec_flag set \<Rightarrow> int" where
  "detected_mode f =
     (if PASSED \<in> f
      then 2 + (if DYNAMIC_RANGE \<in> f then 1 else 0) + (if DYNAMIC_RANGE_YUV444 \<in> f then 2 else 0) else 1)"

definition probe_result :: "nat \<Rightarrow> probe_state \<Rightarrow> probe_state" where
  "probe_result i s =
     (let e = ps_encoders s ! i
      in s\<lparr> ps_ref_invalidation := (REF_FRAMES_INVALIDATION \<in> en_flags e),
            ps_yuv444 := (\<lambda>k. if k < 3 then PASSED \<in> capabilities k e \<and> YUV444 \<in> capabilities k e else ps_yuv444 s k),
            ps_hevc_mode := (if ps_hevc_mode s = 0 then detected_mode (cd_capabilities (en_hevc e)) else ps_hevc_mode s),
            ps_av1_mode := (if ps_av1_mode s = 0 then detected_mode (cd_capabilities (en_av1 e)) else ps_av1_mode s) \<rparr>)"

definition probe_started :: "Config.config_t \<Rightarrow> probe_state \<Rightarrow> probe_state" where
  "probe_started c s =
     s\<lparr> ps_chosen := None, ps_hevc_mode := vi_hevc_mode (cf_video c), ps_av1_mode := vi_av1_mode (cf_video c),
        ps_ref_invalidation := False \<rparr>"

definition keeps_encoder :: "probe_env \<Rightarrow> probe_state \<Rightarrow> bool" where
  "keeps_encoder p s \<longleftrightarrow>
     (case ps_chosen s of None \<Rightarrow> False
      | Some i \<Rightarrow> ALWAYS_REPROBE \<notin> en_flags (ps_encoders s ! i) \<and> \<not> pe_needs_reenumeration p)"

definition probe_passes ::
  "probe_env \<Rightarrow> Config.config_t \<Rightarrow> nat option \<Rightarrow> probe_state \<Rightarrow> probe_state option" where
  "probe_passes p c previous s = do {
     (is1, s1) \<leftarrow> (if vi_encoder (cf_video c) \<noteq> [] then probe_named p c previous [0..<length (ps_encoders s)] s
                    else Some ([0..<length (ps_encoders s)], s));
     (is2, s2) \<leftarrow> (if ps_chosen s1 = None \<and> (ps_hevc_mode s1 \<ge> 2 \<or> ps_av1_mode s1 \<ge> 2)
                    then probe_required p c previous is1 s1 else Some (is1, s1));
     (is3, s3) \<leftarrow> (if ps_chosen s2 = None then probe_any p c previous is2 s2 else Some (is2, s2));
     Some s3
   }"

definition probe_encoders :: "probe_env \<Rightarrow> Config.config_t \<Rightarrow> probe_state \<Rightarrow> (int \<times> probe_state) option" where
  "probe_encoders p c s =
     (if \<not> allow_encoder_probing p then Some (- 1, s)
      else if keeps_encoder p s then Some (0, s)
      else do {
        s1 \<leftarrow> probe_passes p c (ps_chosen s) (probe_started c s);
        Some (case ps_chosen s1 of None \<Rightarrow> (- 1, s1) | Some i \<Rightarrow> (0, probe_result i s1))
      })"

section \<open>Capabilities\<close>

lemma codec_of_set [simp]:
  "j < 3 \<Longrightarrow> k < 3 \<Longrightarrow> capabilities j (set_capabilities k f e) = (if j = k then f else capabilities j e)"
  by (auto simp: codec_of_def set_capabilities_def)

lemma set_capabilities_keeps [simp]:
  "en_flags (set_capabilities k f e) = en_flags e" "en_name (set_capabilities k f e) = en_name e"
  "en_formats (set_capabilities k f e) = en_formats e" "cd_name (codec_of j (set_capabilities k f e)) = cd_name (codec_of j e)"
  by (auto simp: codec_of_def set_capabilities_def)

lemma set_flag_iff [simp]:
  "j < 3 \<Longrightarrow> k < 3 \<Longrightarrow> g \<in> capabilities j (set_flag k f b e) \<longleftrightarrow> (if j = k \<and> g = f then b else g \<in> capabilities j e)"
  by (auto simp: set_flag_def)

lemma set_flag_keeps [simp]:
  "en_flags (set_flag k f b e) = en_flags e" "en_name (set_flag k f b e) = en_name e"
  "en_formats (set_flag k f b e) = en_formats e" "cd_name (codec_of j (set_flag k f b e)) = cd_name (codec_of j e)"
  by (simp_all add: set_flag_def)

lemma judged_iff:
  "j < 3 \<Longrightarrow> k < 3 \<Longrightarrow> g \<in> capabilities j (judged r a w k e) \<longleftrightarrow>
    (if j \<noteq> k then g \<in> capabilities j e
     else case g of PASSED \<Rightarrow> w | REF_FRAMES_RESTRICT \<Rightarrow> r \<ge> 0 | VUI_PARAMETERS \<Rightarrow> odd r \<and> odd a | _ \<Rightarrow> g \<in> capabilities j e)"
  by (cases g) (simp_all add: judged_def)

text \<open>Tests of one codec leave the other codecs alone, and tests of a feature all other flags.\<close>

lemma test_codec_other:
  assumes "test_codec p c d w r k e = Some e'" "j < 3" "k < 3" "j \<noteq> k"
  shows "g \<in> capabilities j e' \<longleftrightarrow> g \<in> capabilities j e"
  using assms by (auto simp: test_codec_def judged_iff bind_eq_Some_conv split: if_splits)

lemma test_feature_other:
  assumes "test_feature p c k f m (e, n) = Some (e', n')" "j < 3" "k < 3" "j \<noteq> k \<or> g \<noteq> f"
  shows "g \<in> capabilities j e' \<longleftrightarrow> g \<in> capabilities j e"
  using assms by (auto simp: test_feature_def Let_def bind_eq_Some_conv split: if_splits option.splits prod.splits)

lemma test_features_other:
  assumes "test_features p c (e, n) = Some (e', n')"
    and "g \<noteq> YUV444" "g \<noteq> DYNAMIC_RANGE" "g \<noteq> DYNAMIC_RANGE_YUV444" "j < 3"
  shows "g \<in> capabilities j e' \<longleftrightarrow> g \<in> capabilities j e"
  using assms by (auto simp: test_features_def Let_def bind_eq_Some_conv test_feature_other)

lemma test_features_h264:
  assumes "test_features p c (e, n) = Some (e', n')"
  shows "DYNAMIC_RANGE \<notin> capabilities 0 e'" "DYNAMIC_RANGE_YUV444 \<notin> capabilities 0 e'"
  using assms by (auto simp: test_features_def Let_def bind_eq_Some_conv test_feature_other)

lemma validated_h264:
  assumes "validate_encoder p c hm am e0 x n = Some (True, e', n')"
  shows "PASSED \<in> capabilities 0 e'" "DYNAMIC_RANGE \<notin> capabilities 0 e'" "DYNAMIC_RANGE_YUV444 \<notin> capabilities 0 e'"
proof -
  from assms obtain d r e1 e2 e3 e4 where H: "test_h264 p c d x (all_capabilities e0) = Some (Some (r, e1))"
    and C: "test_codec p c d (mode_tested hm e1) r 1 e1 = Some e2" "test_codec p c d (mode_tested am e1) r 2 e2 = Some e3"
    and F: "\<exists>n1. test_features p c (e3, n1) = Some (e4, n')" and e': "e' = mask_vui c 1 (mask_vui c 0 e4)"
    by (fastforce simp: validate_encoder_def Let_def bind_eq_Some_conv split: option.splits prod.splits if_splits)
  from H have "PASSED \<in> capabilities 0 e1"
    by (auto simp: test_h264_def judged_iff bind_eq_Some_conv split: if_splits)
  with C have "PASSED \<in> capabilities 0 e3" by (simp add: test_codec_other)
  with F e' show "PASSED \<in> capabilities 0 e'" by (auto simp: mask_vui_def test_features_other)
  from F e' show "DYNAMIC_RANGE \<notin> capabilities 0 e'" "DYNAMIC_RANGE_YUV444 \<notin> capabilities 0 e'"
    by (auto simp: mask_vui_def dest: test_features_h264)
qed

section \<open>The chosen encoder\<close>

definition chosen_works :: "probe_state \<Rightarrow> bool" where
  "chosen_works s \<longleftrightarrow>
     (case ps_chosen s of None \<Rightarrow> True
      | Some i \<Rightarrow> i < length (ps_encoders s) \<and> PASSED \<in> capabilities 0 (ps_encoders s ! i) \<and>
        DYNAMIC_RANGE \<notin> capabilities 0 (ps_encoders s ! i))"

lemma validate_at_Some:
  assumes "validate_at p c previous i s = Some (ok, s')" "i < length (ps_encoders s)"
  shows "ok \<Longrightarrow> PASSED \<in> capabilities 0 (ps_encoders s' ! i) \<and> DYNAMIC_RANGE \<notin> capabilities 0 (ps_encoders s' ! i)"
    "length (ps_encoders s') = length (ps_encoders s)" "ps_chosen s' = ps_chosen s"
    "ps_hevc_mode s' = ps_hevc_mode s" "ps_av1_mode s' = ps_av1_mode s"
    "ps_ref_invalidation s' = ps_ref_invalidation s"
  using assms by (auto simp: validate_at_def bind_eq_Some_conv dest: validated_h264)

lemma choose_adjusted_simps [simp]:
  "ps_chosen (choose_adjusted i s) = Some i" "ps_encoders (choose_adjusted i s) = ps_encoders s"
  "ps_ref_invalidation (choose_adjusted i s) = ps_ref_invalidation s"
  by (auto simp: choose_adjusted_def adjust_constraints_hevc_def adjust_constraints_av1_def Let_def)

text \<open>What every pass keeps.\<close>

definition pass_ok :: "probe_state \<Rightarrow> nat list \<Rightarrow> probe_state \<Rightarrow> bool" where
  "pass_ok s js s' \<longleftrightarrow>
     chosen_works s' \<and> length (ps_encoders s') = length (ps_encoders s) \<and> set js \<subseteq> {..<length (ps_encoders s')} \<and>
     ps_ref_invalidation s' = ps_ref_invalidation s \<and>
     (ps_hevc_mode s = 0 \<longrightarrow> ps_hevc_mode s' = 0) \<and> (ps_av1_mode s = 0 \<longrightarrow> ps_av1_mode s' = 0) \<and>
     (ps_av1_mode s \<in> {3, 4} \<longrightarrow> ps_av1_mode s' = ps_av1_mode s)"

lemma pass_ok_trans: "pass_ok s js s1 \<Longrightarrow> pass_ok s1 ks s2 \<Longrightarrow> pass_ok s ks s2"
  by (auto simp: pass_ok_def)

lemma pass_ok_Cons: "pass_ok s js s' \<Longrightarrow> i < length (ps_encoders s) \<Longrightarrow> pass_ok s (i # js) s'"
  by (auto simp: pass_ok_def)

lemma pass_ok_validate:
  assumes "validate_at p c previous i s = Some (ok, s1)" "i < length (ps_encoders s)" "ps_chosen s = None"
    "set is \<subseteq> {..<length (ps_encoders s)}"
  shows "pass_ok s is s1" "ok \<Longrightarrow> pass_ok s (i # is) (choose_adjusted i s1)" "ok \<Longrightarrow> pass_ok s (i # is) (s1\<lparr> ps_chosen := Some i \<rparr>)"
proof -
  note v = validate_at_Some [OF assms(1,2)]
  show "pass_ok s is s1" using v assms by (auto simp: pass_ok_def chosen_works_def)
  have m: "ps_hevc_mode s = 0 \<longrightarrow> ps_hevc_mode (choose_adjusted i s1) = 0"
    "ps_av1_mode s = 0 \<longrightarrow> ps_av1_mode (choose_adjusted i s1) = 0"
    "ps_av1_mode s \<in> {3, 4} \<longrightarrow> ps_av1_mode (choose_adjusted i s1) = ps_av1_mode s"
    using v by (auto simp: choose_adjusted_def adjust_constraints_hevc_def adjust_constraints_av1_def Let_def)
  then show "ok \<Longrightarrow> pass_ok s (i # is) (choose_adjusted i s1)"
    using v assms by (auto simp: pass_ok_def chosen_works_def)
  show "ok \<Longrightarrow> pass_ok s (i # is) (s1\<lparr> ps_chosen := Some i \<rparr>)"
    using v assms by (auto simp: pass_ok_def chosen_works_def)
qed

lemma pass_ok_Nil: "ps_chosen s = None \<Longrightarrow> pass_ok s [] s"
  by (simp add: pass_ok_def chosen_works_def)

lemma probe_named_ok:
  "probe_named p c previous is s = Some (js, s') \<Longrightarrow> ps_chosen s = None \<Longrightarrow> set is \<subseteq> {..<length (ps_encoders s)}
    \<Longrightarrow> pass_ok s js s'"
proof (induction "is" arbitrary: s js s')
  case (Cons i "is")
  show ?case
  proof (cases "ascii (en_name (ps_encoders s ! i)) = vi_encoder (cf_video c)")
    case True
    with Cons.prems show ?thesis by (auto simp: bind_eq_Some_conv dest: pass_ok_validate split: if_splits)
  next
    case False
    with Cons.prems obtain ks where "probe_named p c previous is s = Some (ks, s')" "js = i # ks"
      by (auto simp: bind_eq_Some_conv)
    with Cons.IH [OF this(1)] Cons.prems show ?thesis by (simp add: pass_ok_Cons)
  qed
qed (simp add: pass_ok_Nil)

lemma probe_required_ok:
  "probe_required p c previous is s = Some (js, s') \<Longrightarrow> ps_chosen s = None \<Longrightarrow> set is \<subseteq> {..<length (ps_encoders s)}
    \<Longrightarrow> pass_ok s js s'"
proof (induction "is" arbitrary: s js s')
  case (Cons i "is")
  from Cons.prems obtain ok s1 where v: "validate_at p c previous i s = Some (ok, s1)"
    and r: "(if \<not> ok then probe_required p c previous is s1
      else if meets_requirements s1 (ps_encoders s1 ! i) then Some (i # is, s1\<lparr> ps_chosen := Some i \<rparr>)
      else do { (js, s2) \<leftarrow> probe_required p c previous is s1; Some (i # js, s2) }) = Some (js, s')"
    by (auto simp: bind_eq_Some_conv)
  from Cons.prems have b: "i < length (ps_encoders s)" "set is \<subseteq> {..<length (ps_encoders s)}" by auto
  note V = validate_at_Some [OF v b(1)] and P = pass_ok_validate [OF v b(1) Cons.prems(2) b(2)]
  have I: "pass_ok s ks s'" if "probe_required p c previous is s1 = Some (ks, s')" for ks
    using Cons.IH [OF that] V Cons.prems(2) b(2) P(1) by (auto intro: pass_ok_trans)
  from r I P b(1) show ?case by (auto simp: bind_eq_Some_conv intro: pass_ok_Cons split: if_splits)
qed (simp add: pass_ok_Nil)

lemma probe_any_ok:
  "probe_any p c previous is s = Some (js, s') \<Longrightarrow> ps_chosen s = None \<Longrightarrow> set is \<subseteq> {..<length (ps_encoders s)}
    \<Longrightarrow> pass_ok s js s'"
proof (induction "is" arbitrary: s js s')
  case (Cons i "is")
  from Cons.prems obtain ok s1 where v: "validate_at p c previous i s = Some (ok, s1)"
    and r: "(if \<not> ok then probe_any p c previous is s1 else Some (i # is, choose_adjusted i s1)) = Some (js, s')"
    by (auto simp: bind_eq_Some_conv)
  from Cons.prems have b: "i < length (ps_encoders s)" "set is \<subseteq> {..<length (ps_encoders s)}" by auto
  note V = validate_at_Some [OF v b(1)] and P = pass_ok_validate [OF v b(1) Cons.prems(2) b(2)]
  have "pass_ok s js s'" if "probe_any p c previous is s1 = Some (js, s')"
    using Cons.IH [OF that] V Cons.prems(2) b(2) P(1) by (auto intro: pass_ok_trans)
  with r P show ?case by (auto split: if_splits)
qed (simp add: pass_ok_Nil)

text \<open>A further pass, if it runs at all.\<close>

lemma pass_ok_next:
  assumes "pass_ok s js s1" "(if ps_chosen s1 = None \<and> b then f js s1 else Some (js, s1)) = Some (ks, s2)"
    and "f js s1 = Some (ks, s2) \<Longrightarrow> ps_chosen s1 = None \<Longrightarrow> set js \<subseteq> {..<length (ps_encoders s1)} \<Longrightarrow> pass_ok s1 ks s2"
  shows "pass_ok s ks s2"
proof (cases "ps_chosen s1 = None \<and> b")
  case True
  moreover have "set js \<subseteq> {..<length (ps_encoders s1)}" using assms(1) unfolding pass_ok_def by blast
  ultimately have "pass_ok s1 ks s2" using assms(2,3) by simp
  with assms(1) show ?thesis by (rule pass_ok_trans)
next
  case False
  with assms(1,2) show ?thesis by auto
qed

lemma probe_passes_ok:
  assumes "probe_passes p c previous s = Some s'" "ps_chosen s = None"
  shows "\<exists>js. pass_ok s js s'"
proof -
  have start: "pass_ok s [0..<length (ps_encoders s)] s" using assms(2) by (auto simp: pass_ok_def chosen_works_def)
  from assms obtain is1 s1 is2 s2 is3 where
    1: "(if vi_encoder (cf_video c) \<noteq> [] then probe_named p c previous [0..<length (ps_encoders s)] s
         else Some ([0..<length (ps_encoders s)], s)) = Some (is1, s1)" and
    2: "(if ps_chosen s1 = None \<and> (ps_hevc_mode s1 \<ge> 2 \<or> ps_av1_mode s1 \<ge> 2)
         then probe_required p c previous is1 s1 else Some (is1, s1)) = Some (is2, s2)" and
    3: "(if ps_chosen s2 = None then probe_any p c previous is2 s2 else Some (is2, s2)) = Some (is3, s')"
    by (auto simp: probe_passes_def bind_eq_Some_conv simp del: upt_Suc)
  from 1 start have p1: "pass_ok s is1 s1" using assms(2) by (auto dest: probe_named_ok split: if_splits)
  from p1 2 have p2: "pass_ok s is2 s2" by (rule pass_ok_next) (rule probe_required_ok)
  from 3 have "(if ps_chosen s2 = None \<and> True then probe_any p c previous is2 s2 else Some (is2, s2)) = Some (is3, s')" by simp
  with p2 have "pass_ok s is3 s'" by (rule pass_ok_next) (rule probe_any_ok)
  then show ?thesis ..
qed

section \<open>Properties of the probe\<close>

text \<open>
  A probe that finishes chose an encoder or failed. The encoder it chose streams H.264, without HDR; what the
  host remembers of it are its own flags; and where the configuration left the modes of HEVC or AV1 open, they say
  exactly what the tests of the encoder found.
\<close>
theorem probe_result_sound:
  assumes "probe_encoders p c s = Some (r, s')" "allow_encoder_probing p" "\<not> keeps_encoder p s"
  shows "r = - 1 \<and> ps_chosen s' = None \<and> \<not> ps_ref_invalidation s' \<or>
    (\<exists>i. r = 0 \<and> ps_chosen s' = Some i \<and> i < length (ps_encoders s) \<and>
      PASSED \<in> capabilities 0 (ps_encoders s' ! i) \<and> DYNAMIC_RANGE \<notin> capabilities 0 (ps_encoders s' ! i) \<and>
      ps_ref_invalidation s' = (REF_FRAMES_INVALIDATION \<in> en_flags (ps_encoders s' ! i)) \<and>
      (\<forall>k < 3. ps_yuv444 s' k = ({PASSED, YUV444} \<subseteq> capabilities k (ps_encoders s' ! i))) \<and>
      (vi_hevc_mode (cf_video c) = 0 \<longrightarrow> ps_hevc_mode s' = detected_mode (cd_capabilities (en_hevc (ps_encoders s' ! i)))) \<and>
      (vi_av1_mode (cf_video c) = 0 \<longrightarrow> ps_av1_mode s' = detected_mode (cd_capabilities (en_av1 (ps_encoders s' ! i)))))"
proof -
  from assms obtain s1 where s1: "probe_passes p c (ps_chosen s) (probe_started c s) = Some s1"
    and r: "(r, s') = (case ps_chosen s1 of None \<Rightarrow> (- 1, s1) | Some i \<Rightarrow> (0, probe_result i s1))"
    by (auto simp: probe_encoders_def bind_eq_Some_conv)
  have "ps_chosen (probe_started c s) = None" by (simp add: probe_started_def)
  from probe_passes_ok [OF s1 this] obtain js where P: "pass_ok (probe_started c s) js s1" ..
  show ?thesis
  proof (cases "ps_chosen s1")
    case None
    with r P show ?thesis by (simp add: pass_ok_def probe_started_def)
  next
    case (Some i)
    with r have "r = 0" "s' = probe_result i s1" by simp_all
    with Some P show ?thesis
      by (auto simp: pass_ok_def probe_started_def chosen_works_def probe_result_def Let_def)
  qed
qed

text \<open>
  A mode 3 or 4 of AV1 that the configuration asks for is never withdrawn, whatever the tests of the chosen
  encoder found: the branches for it look at HEVC.
\<close>
theorem av1_mode_never_withdrawn:
  assumes "probe_encoders p c s = Some (0, s')" "allow_encoder_probing p" "\<not> keeps_encoder p s"
    and "vi_av1_mode (cf_video c) \<in> {3, 4}"
  shows "ps_av1_mode s' = vi_av1_mode (cf_video c)"
proof -
  from assms(1-3) obtain s1 i where s1: "probe_passes p c (ps_chosen s) (probe_started c s) = Some s1"
    and r: "s' = probe_result i s1"
    by (auto simp: probe_encoders_def bind_eq_Some_conv split: option.splits)
  have "ps_chosen (probe_started c s) = None" by (simp add: probe_started_def)
  from probe_passes_ok [OF s1 this] obtain js where "pass_ok (probe_started c s) js s1" ..
  with r assms(4) show ?thesis
    by (auto simp: pass_ok_def probe_started_def probe_result_def Let_def)
qed

subsection \<open>What failed tests leave\<close>

text \<open>The flags of a codec whose tests fail stay set, but for those the tests write.\<close>

lemma failed_codec_keeps_flags:
  assumes "test_codec p c d w r k e = Some e'" "k < 3" "PASSED \<notin> capabilities k e'" "capabilities k e' \<noteq> {}"
    and "capabilities k e = UNIV"
  shows "{DYNAMIC_RANGE, YUV444, DYNAMIC_RANGE_YUV444} \<subseteq> capabilities k e'"
  using assms by (auto simp: test_codec_def judged_iff bind_eq_Some_conv split: if_splits)

text \<open>... and no later test looks at them.\<close>

lemma failed_codec_not_tested:
  assumes "test_feature p c k f m (e, n) = Some (e', n')" "PASSED \<notin> capabilities k e"
  shows "e' = e"
  using assms by (auto simp: test_feature_def Let_def split: option.splits prod.splits if_splits)

lemma test_feature_failed:
  assumes "test_feature p c j f m (e, n) = Some (e', n')" "j < 3" "k < 3" "f \<noteq> PASSED"
    and "PASSED \<notin> capabilities k e"
  shows "capabilities k e' = capabilities k e"
proof (cases "j = k")
  case True
  with failed_codec_not_tested [OF assms(1)] assms(5) show ?thesis by simp
next
  case False
  then show ?thesis using test_feature_other [OF assms(1) assms(3,2)] by auto
qed

lemma mask_vui_iff: "k < 3 \<Longrightarrow> j < 3 \<Longrightarrow> g \<noteq> VUI_PARAMETERS \<Longrightarrow> g \<in> capabilities j (mask_vui c k e) \<longleftrightarrow> g \<in> capabilities j e"
  by (simp add: mask_vui_def)

lemma test_features_failed:
  assumes "test_features p c (e, n) = Some (e', n')" "PASSED \<notin> capabilities 1 e"
  shows "capabilities 1 e' = capabilities 1 e"
  using assms by (auto simp: test_features_def Let_def bind_eq_Some_conv test_feature_failed test_feature_other set_flag_def)

text \<open>
  An encoder whose codec for HEVC is known to the display but fails its tests keeps the flags of HDR, so a
  configured mode of HEVC with HDR or 4:4:4 is not withdrawn for it.
\<close>
theorem failed_hevc_stays_advertised:
  assumes "validate_encoder p c hm am e0 x n = Some (True, e', n')"
    and "PASSED \<notin> cd_capabilities (en_hevc e')" "cd_capabilities (en_hevc e') \<noteq> {}"
    and "ps_hevc_mode s \<in> {3, 4, 5}"
  shows "adjust_constraints_hevc e' s = s"
proof -
  have hevc: "cd_capabilities (en_hevc e') = capabilities 1 e'" by (simp add: codec_of_def)
  from assms(1) obtain d r e1 e2 e3 e4 n1 where H: "test_h264 p c d x (all_capabilities e0) = Some (Some (r, e1))"
    and C: "test_codec p c d (mode_tested hm e1) r 1 e1 = Some e2" "test_codec p c d (mode_tested am e1) r 2 e2 = Some e3"
    and F: "test_features p c (e3, n1) = Some (e4, n')" and e': "e' = mask_vui c 1 (mask_vui c 0 e4)"
    by (fastforce simp: validate_encoder_def Let_def bind_eq_Some_conv split: option.splits prod.splits if_splits)
  from H have all: "capabilities 1 e1 = UNIV"
    by (auto simp: test_h264_def judged_iff bind_eq_Some_conv all_capabilities_def split: if_splits)
  have 23: "capabilities 1 e3 = capabilities 1 e2" using test_codec_other [OF C(2)] by auto
  from assms(2) have "PASSED \<notin> capabilities 1 e'" unfolding hevc .
  then have p4: "PASSED \<notin> capabilities 1 e4" unfolding e' by (simp add: mask_vui_iff)
  have p3: "PASSED \<notin> capabilities 1 e3" using p4 F by (simp add: test_features_other)
  have 34: "capabilities 1 e4 = capabilities 1 e3" by (rule test_features_failed [OF F p3])
  have "capabilities 1 e2 \<noteq> {}"
  proof
    assume "capabilities 1 e2 = {}"
    with 23 34 have none: "capabilities 1 e4 = {}" by simp
    have "g \<notin> capabilities 1 e'" for g using none by (auto simp: e' mask_vui_def)
    with assms(3) hevc show False by auto
  qed
  with failed_codec_keeps_flags [OF C(1)] all p3 23 34 have "DYNAMIC_RANGE \<in> capabilities 1 e4 \<and> DYNAMIC_RANGE_YUV444 \<in> capabilities 1 e4"
    by simp
  then have "DYNAMIC_RANGE \<in> capabilities 1 e' \<and> DYNAMIC_RANGE_YUV444 \<in> capabilities 1 e'"
    unfolding e' by (simp add: mask_vui_iff)
  with assms(4) show ?thesis unfolding hevc [symmetric] by (auto simp: adjust_constraints_hevc_def Let_def)
qed

text \<open>
  When the display is lost after the first tests, the encoder is accepted with all the features that were not
  tested: 4:4:4 for H.264, and HDR for an HEVC codec that passed.
\<close>
theorem lost_display_claims_features:
  assumes "validate_encoder p c hm am e0 x n = Some (True, e', n')"
    and "\<And>i t o' g. i > n \<Longrightarrow> pe_display p i t o' g = None"
  shows "YUV444 \<in> capabilities 0 e'" "PASSED \<in> capabilities 1 e' \<Longrightarrow> DYNAMIC_RANGE \<in> capabilities 1 e'"
proof -
  from assms(1) obtain d r e1 e2 e3 e4 n1 where D: "reset_display (open_display p (all_capabilities e0) (config_autoselect 0)) n = (Some d, n1)"
    and H: "test_h264 p c d x (all_capabilities e0) = Some (Some (r, e1))"
    and C: "test_codec p c d (mode_tested hm e1) r 1 e1 = Some e2" "test_codec p c d (mode_tested am e1) r 2 e2 = Some e3"
    and F: "test_features p c (e3, n1) = Some (e4, n')" and e': "e' = mask_vui c 1 (mask_vui c 0 e4)"
    by (fastforce simp: validate_encoder_def Let_def bind_eq_Some_conv split: option.splits prod.splits if_splits)
  from D assms(2) have "n < n1" by (auto simp: reset_display_def split: option.splits)
  have lost: "test_feature p c k f m (e, i) = Some (e, i + 2)" if "i > n" for k f m e i
    using assms(2) that by (simp add: test_feature_def reset_display_def open_display_def)
  from F \<open>n < n1\<close> have e4: "e4 = set_flag 0 DYNAMIC_RANGE_YUV444 False (set_flag 0 DYNAMIC_RANGE False e3)"
    by (auto simp: test_features_def lost Let_def)
  from H have 1: "YUV444 \<in> capabilities 0 e1" "capabilities 1 e1 = UNIV"
    by (auto simp: test_h264_def judged_iff bind_eq_Some_conv all_capabilities_def split: if_splits)
  from 1(1) C show "YUV444 \<in> capabilities 0 e'" unfolding e' e4 by (simp add: mask_vui_iff test_codec_other)
  assume "PASSED \<in> capabilities 1 e'"
  then have "PASSED \<in> capabilities 1 e2" unfolding e' e4 using C(2) by (simp add: mask_vui_iff test_codec_other)
  with C(1) 1(2) have "DYNAMIC_RANGE \<in> capabilities 1 e2"
    by (auto simp: test_codec_def judged_iff bind_eq_Some_conv split: if_splits)
  with C(2) show "DYNAMIC_RANGE \<in> capabilities 1 e'" unfolding e' e4 by (simp add: mask_vui_iff test_codec_other)
qed

section \<open>The probe returns\<close>

definition devices_answer :: "probe_env \<Rightarrow> bool" where
  "devices_answer p \<longleftrightarrow>
     (\<forall>n t o' g d. pe_display p n t o' g = Some d \<longrightarrow>
       (\<forall>fmt v m. di_avcodec_device d fmt = Some v \<or> di_nvenc_device d fmt = Some v \<longrightarrow> (\<exists>k. dv_answers v m k \<noteq> No_Packet)))"

definition returns :: "'a option \<Rightarrow> bool" where "returns x \<longleftrightarrow> x \<noteq> None"

lemma returns_Some [simp, intro!]: "returns (Some x)"
  by (simp add: returns_def)

lemma returns_intros [intro!]:
  "returns x \<Longrightarrow> (\<And>y. x = Some y \<Longrightarrow> returns (f y)) \<Longrightarrow> returns (x \<bind> f)"
  "(b \<Longrightarrow> returns x) \<Longrightarrow> (\<not> b \<Longrightarrow> returns y) \<Longrightarrow> returns (if b then x else y)"
  "(\<And>u w. p = (u, w) \<Longrightarrow> returns (g u w)) \<Longrightarrow> returns (case p of (u, w) \<Rightarrow> g u w)"
  "returns x \<Longrightarrow> returns (map_option h x)"
  by (auto simp: returns_def split: prod.splits)

lemma first_packet_returns: "a (n + i) \<noteq> No_Packet \<Longrightarrow> returns (first_packet a n)"
proof (induction i arbitrary: n)
  case 0
  then show ?case by (subst first_packet.simps) (auto simp: returns_def split: encode_answer.split)
next
  case (Suc i)
  then have "returns (first_packet a (n + 1))" by simp
  then show ?case by (subst first_packet.simps) (auto simp: returns_def split: encode_answer.split)
qed

lemma never_packet: "(\<And>k. a k = No_Packet) \<Longrightarrow> first_packet a n = None"
proof (rule ccontr)
  assume never: "\<And>k. a k = No_Packet" and "first_packet a n \<noteq> None"
  then obtain r where r: "first_packet a n = Some r" by blast
  have "(\<forall>k. a k = No_Packet) \<longrightarrow> False"
    by (rule first_packet.raw_induct [OF _ r, where P = "\<lambda>a n r. (\<forall>k. a k = No_Packet) \<longrightarrow> False"]) (auto split: encode_answer.splits, metis encode_answer.distinct(5))
  with never show False by blast
qed

lemma made_device:
  assumes "make_encode_device d e m = Some v"
  shows "dv_colorspace v = colorspace_from_client_config m (di_is_hdr d)"
    "\<exists>fmt v'. (di_avcodec_device d fmt = Some v' \<or> di_nvenc_device d fmt = Some v') \<and> dv_answers v = dv_answers v'"
proof -
  from assms obtain fmt v' where v': "di_avcodec_device d fmt = Some v' \<or> di_nvenc_device d fmt = Some v'"
    and v: "v = v'\<lparr> dv_colorspace := colorspace_from_client_config m (di_is_hdr d) \<rparr>"
    by (auto simp: make_encode_device_def Let_def split: if_splits option.splits)
  show "dv_colorspace v = colorspace_from_client_config m (di_is_hdr d)" by (simp add: v)
  from v have "dv_answers v = dv_answers v'" by simp
  with v' show "\<exists>fmt v'. (di_avcodec_device d fmt = Some v' \<or> di_nvenc_device d fmt = Some v') \<and> dv_answers v = dv_answers v'"
    by blast
qed

text \<open>The configurations of the probe divide by nothing and pass all assertions.\<close>

definition probe_safe :: "monitor_config \<Rightarrow> bool" where
  "probe_safe m \<longleftrightarrow> mo_framerate m = 60 \<and> (mo_videoFormat m = 0 \<longrightarrow> mo_dynamicRange m = 0)"

lemma probe_configs_safe [simp]:
  "probe_safe (config_max_ref_frames k)" "probe_safe (config_autoselect k)" "probe_safe (yuv444_config k)"
  "k \<noteq> 0 \<Longrightarrow> probe_safe (hdr_config k)" "k \<noteq> 0 \<Longrightarrow> probe_safe (hdr444_config k)"
  by (simp_all add: probe_safe_def config_max_ref_frames_def config_autoselect_def yuv444_config_def hdr_config_def
      hdr444_config_def probe_config_def)

lemma context_not_trapped:
  assumes "probe_safe m" "dv_colorspace v = colorspace_from_client_config m hdr"
  shows "codec_context_of l c e f v m retry \<noteq> Trapped"
proof -
  obtain color where "avcodec_colorspace_from_sunshine_colorspace (dv_colorspace v) = Some color"
    using colorspace_assertions_hold [of m hdr] assms(2) by auto
  moreover have "\<exists>z. rc_buffer_size c e h i b m = Some z" for h i b
  proof (rule ccontr)
    assume "\<not> ?thesis"
    then have "rc_buffer_size c e h i b m = None" by simp
    then show False unfolding rc_buffer_size_None using assms(1)
      by (simp add: to_int_id INT_MIN_def INT_MAX_def probe_safe_def split: if_splits)
  qed
  then obtain z where "\<And>h i b. rc_buffer_size c e h i b m = Some (z h i b)" by metis
  ultimately show ?thesis using assms(1) by (simp add: codec_context_of_def probe_safe_def Let_def)
qed

lemma session_not_trapped:
  assumes "probe_safe m" "make_encode_device d e m = Some v"
  shows "make_encode_session l c d e m w h v \<noteq> Trapped"
proof -
  note T = context_not_trapped [OF assms(1) made_device(1) [OF assms(2)]]
  have "open_codec l c e f v m \<noteq> Trapped" for f
    using T [of l c e f] by (auto simp: open_codec_def Let_def split: created.splits)
  then show ?thesis
    by (auto simp: make_encode_session_def make_avcodec_encode_session_def make_nvenc_encode_session_def Let_def
        split: device_kind.splits option.splits created.splits)
qed

lemma validate_config_returns:
  assumes "devices_answer p" "open_display p e0 g n = Some d" "probe_safe m"
  shows "returns (validate_config p c d e m)"
proof (cases "make_encode_device d e m")
  case (Some v)
  from made_device(2) [OF this] assms(1,2) obtain k where "dv_answers v m k \<noteq> No_Packet"
    unfolding devices_answer_def open_display_def by metis
  then have "returns (first_packet (dv_answers v m) 0)" using first_packet_returns [of _ 0] by simp
  with session_not_trapped [OF assms(3) Some] show ?thesis
    by (auto simp: validate_config_def Some split: created.split)
qed (auto simp: validate_config_def)

lemma reset_display_Some: "reset_display a n = (Some d, n') \<Longrightarrow> \<exists>i. a i = Some d"
  by (auto simp: reset_display_def split: option.splits)

lemma test_feature_returns:
  assumes "devices_answer p" "probe_safe m"
  shows "returns (test_feature p c k f m en)"
proof -
  obtain e n where en: "en = (e, n)" by fastforce
  obtain disp n' where D: "reset_display (open_display p e m) n = (disp, n')" by fastforce
  show ?thesis
  proof (cases disp)
    case (Some d)
    with D obtain i where "open_display p e m i = Some d" by (auto dest: reset_display_Some)
    from validate_config_returns [OF assms(1) this assms(2)] show ?thesis
      by (auto simp: test_feature_def en D Some)
  qed (auto simp: test_feature_def en D)
qed

lemma test_features_returns: "devices_answer p \<Longrightarrow> returns (test_features p c en)"
  unfolding test_features_def Let_def by (auto intro!: test_feature_returns)

lemma validate_encoder_returns:
  assumes "devices_answer p"
  shows "returns (validate_encoder p c hm am e0 x n)"
proof -
  obtain disp n1 where D: "reset_display (open_display p (all_capabilities e0) (config_autoselect 0)) n = (disp, n1)" by fastforce
  show ?thesis
  proof (cases disp)
    case (Some d)
    with D obtain i where "open_display p (all_capabilities e0) (config_autoselect 0) i = Some d" by (auto dest: reset_display_Some)
    note V = validate_config_returns [OF assms this]
    have "returns (test_h264 p c d x e)" for e
      unfolding test_h264_def by (auto intro!: V)
    moreover have "returns (test_codec p c d w r k e)" for w r k e
      unfolding test_codec_def by (auto intro!: V)
    ultimately show ?thesis
      by (auto simp: validate_encoder_def D Some Let_def intro!: test_features_returns assms split: option.split)
  qed (auto simp: validate_encoder_def D)
qed

lemma probe_encoders_returns:
  assumes "devices_answer p"
  shows "returns (probe_encoders p c s)"
proof -
  have at: "returns (validate_at p c previous i s)" for previous i s
    unfolding validate_at_def by (auto intro!: validate_encoder_returns assms)
  have named: "returns (probe_named p c previous is s)" for previous "is" s
    by (induction "is" arbitrary: s) (auto intro!: at)
  have required: "returns (probe_required p c previous is s)" for previous "is" s
    by (induction "is" arbitrary: s) (auto intro!: at)
  have any: "returns (probe_any p c previous is s)" for previous "is" s
    by (induction "is" arbitrary: s) (auto intro!: at)
  show ?thesis unfolding probe_encoders_def probe_passes_def by (auto intro!: named required any)
qed

text \<open>
  When every device eventually gives a packet or an error, the probe returns, whatever displays and codecs do.
\<close>
theorem probe_returns:
  assumes "devices_answer p"
  shows "\<exists>r s'. probe_encoders p c s = Some (r, s')"
  using probe_encoders_returns [OF assms] by (auto simp: returns_def)

section \<open>An example\<close>

text \<open>A host with the software encoder only, on a display without HDR and 4:4:4.\<close>

definition display_example :: display_io where
  "display_example = \<lparr> di_width = 1920, di_height = 1080, di_is_hdr = False,
     di_codec_supported = (\<lambda>name m. name = ''libx264'' \<and> mo_chromaSamplingType m = 0),
     di_avcodec_device = (\<lambda>_. Some software_device), di_nvenc_device = (\<lambda>_. None), di_images = True \<rparr>"

definition lib_example :: av_lib where
  "lib_example = \<lparr> lb_values = \<lparr> el_ultra_low_latency = 3, el_rc_cbr = 2, el_multipass = (\<lambda>_. 0), el_coder = (\<lambda>_. 0) \<rparr>,
     lb_d2q = (\<lambda>_ _. (60, 1)), lb_render_device = [], lb_has_encoder = (\<lambda>_. True), lb_hwdevice = (\<lambda>_ _. False),
     lb_derived = (\<lambda>_. False), lb_hwframes = (\<lambda>_ _ _ _. False), lb_open = (\<lambda>_ _. True),
     lb_software_scaler = (\<lambda>_ _ _. True) \<rparr>"

definition probe_example :: probe_env where
  "probe_example = \<lparr> pe_lib = lib_example, pe_display = (\<lambda>_ _ _ _. Some display_example), pe_output_name = [],
     pe_devices = [], pe_macos = False, pe_needs_reenumeration = False \<rparr>"

definition probe_start :: probe_state where
  "probe_start = \<lparr> ps_encoders = [software False False], ps_chosen = None, ps_hevc_mode = 0, ps_av1_mode = 0,
     ps_ref_invalidation = False, ps_yuv444 = (\<lambda>_. False), ps_attempts = 0 \<rparr>"

definition like_software :: "encoder \<Rightarrow> bool" where
  "like_software e \<longleftrightarrow> en_formats e = en_formats (software False False) \<and>
     en_flags e = {H264_ONLY, PARALLEL_ENCODING, ALWAYS_REPROBE, YUV444_SUPPORT} \<and>
     cd_name (codec_of 0 e) = ''libx264'' \<and> cd_name (codec_of 2 e) = []"

lemma like_software_keeps [simp]:
  "like_software (set_capabilities k f e) = like_software e" "like_software (set_flag k f' b e) = like_software e"
  "like_software (mask_vui c k e) = like_software e" "like_software (all_capabilities e) = like_software e"
  by (simp_all add: like_software_def mask_vui_def all_capabilities_def)

lemma like_software_software: "like_software (software False False)"
  by (simp only: like_software_def encoder_flags simp_thms) (simp add: codec_of_def software_def)

lemma software_part:
  "like_software e \<Longrightarrow> \<exists>f. ef_avcodec (en_formats e) = Some f \<and> af_base_dev_type f = AV_HWDEVICE_TYPE_NONE"
  by (simp add: like_software_def software_def avcodec_formats_def)

lemma devices_answer_example: "devices_answer probe_example"
  by (auto simp: devices_answer_def probe_example_def display_example_def software_device_def)

lemma example_config:
  assumes "like_software e" "PASSED \<in> capabilities 0 e" "m = config_max_ref_frames 0 \<or> m = config_autoselect 0"
  shows "validate_config probe_example c display_example e m = Some 1"
proof -
  from software_part [OF assms(1)] obtain f where f: "ef_avcodec (en_formats e) = Some f" "af_base_dev_type f = AV_HWDEVICE_TYPE_NONE"
    by blast
  from assms(3) have m: "probe_safe m" "mo_videoFormat m = 0" "mo_dynamicRange m = 0" "mo_chromaSamplingType m = 0"
    by (auto simp: config_max_ref_frames_def config_autoselect_def probe_config_def probe_safe_def)
  from assms(1) m(2) have k: "codec_from_config e m = codec_of 0 e" "cd_name (codec_of 0 e) = ''libx264''"
    by (simp_all add: codec_from_config_def codec_of_def like_software_def)
  define v where "v = software_device\<lparr> dv_colorspace := colorspace_from_client_config m False \<rparr>"
  have v: "make_encode_device display_example e m = Some v"
    by (simp add: make_encode_device_def Let_def m f display_example_def v_def software_device_def)
  have "codec_context_of lib_example c e f v m False \<noteq> Trapped"
    by (rule context_not_trapped [OF m(1)]) (simp add: v_def)
  moreover have "codec_context_of lib_example c e f v m False \<noteq> Not_Created"
    by (auto simp: codec_context_of_def Let_def f(2) split: option.splits)
  ultimately obtain x where "open_codec lib_example c e f v m = Created x"
    by (cases "codec_context_of lib_example c e f v m False") (auto simp: open_codec_def Let_def lib_example_def)
  then obtain s where "make_encode_session lib_example c display_example e m 1920 1080 v = Created s"
    using f k assms(2) m
    by (simp add: make_encode_session_def make_avcodec_encode_session_def v_def software_device_def codec_admits_def
        lib_example_def display_example_def)
  moreover have "first_packet (\<lambda>_. Some_Packet True True) 0 = Some (Some_Packet True True)"
    by (subst first_packet.simps) simp
  ultimately show ?thesis using v m(2)
    by (simp add: validate_config_def probe_example_def)
      (simp add: v_def software_device_def display_example_def judge_packet_def VUI_PARAMS_def)
qed

lemma example_display: "reset_display (open_display probe_example e m) n = (Some display_example, n + 1)"
  by (simp add: reset_display_def open_display_def probe_example_def)

lemma example_feature:
  assumes "like_software e" "k < 3" "PASSED \<in> capabilities k e \<Longrightarrow> k = 0 \<and> mo_chromaSamplingType m = 1"
  shows "test_feature probe_example c k f m (e, n) = Some (if PASSED \<in> capabilities k e then set_flag k f False e else e, n + 1)"
  using assms by (auto simp: test_feature_def example_display display_example_def)

lemma example_encoder:
  assumes "like_software e0" "am \<ge> 2"
  shows "\<exists>e' n'. validate_encoder probe_example c 0 am e0 False n = Some (True, e', n') \<and> like_software e' \<and>
    PASSED \<notin> capabilities 2 e'"
proof -
  let ?e = "all_capabilities e0"
  let ?e1 = "judged 1 1 True 0 ?e"
  let ?e2 = "set_capabilities 2 {} (set_capabilities 1 {} ?e1)"
  have s: "like_software ?e" "like_software ?e1" using assms(1) by (simp_all add: judged_def)
  have all: "PASSED \<in> capabilities 0 ?e" by (simp add: all_capabilities_def)
  have 1: "test_h264 probe_example c display_example False ?e = Some (Some (1, ?e1))"
    by (simp add: test_h264_def example_config [OF s(1) all])
  have 2: "test_codec probe_example c display_example (mode_tested 0 ?e1) 1 1 ?e1 = Some (set_capabilities 1 {} ?e1)"
    using s(2) by (simp add: test_codec_def mode_tested_def like_software_def)
  have 3: "test_codec probe_example c display_example (mode_tested am ?e1) 1 2 (set_capabilities 1 {} ?e1) = Some ?e2"
    using s(2) by (simp add: test_codec_def like_software_def display_example_def)
  obtain e4 n4 where 4: "test_features probe_example c (?e2, n + 1) = Some (e4, n4)"
    using test_features_returns [OF devices_answer_example] by (fastforce simp: returns_def)
  have keeps: "like_software e''" if "test_feature probe_example c k f m (e, i) = Some (e'', i')" "like_software e" for k f m e i e'' i'
    using that by (auto simp: test_feature_def Let_def bind_eq_Some_conv split: if_splits option.splits prod.splits)
  have e4: "like_software e4" using 4 s(2)
    by (auto simp: test_features_def Let_def bind_eq_Some_conv dest!: keeps)
  have "PASSED \<notin> capabilities 2 e4" using test_features_other [OF 4, of PASSED 2] by simp
  moreover have "\<not> \<not> di_codec_supported display_example (cd_name (en_h264 ?e)) (config_autoselect 0)"
    using s(1) by (simp add: like_software_def display_example_def codec_of_def config_autoselect_def probe_config_def)
  ultimately show ?thesis using e4 2 3 4
    by (simp add: validate_encoder_def example_display Let_def 1 mask_vui_iff)
qed

lemma example_at:
  assumes "ps_encoders s = [e0]" "like_software e0" "ps_hevc_mode s = 0" "ps_av1_mode s = 3"
  shows "\<exists>e' n'. validate_at probe_example c None 0 s = Some (True, s\<lparr> ps_encoders := [e'], ps_attempts := n' \<rparr>) \<and>
    like_software e' \<and> PASSED \<notin> capabilities 2 e'"
proof -
  obtain e' n' where e: "validate_encoder probe_example c 0 3 e0 False (ps_attempts s) = Some (True, e', n')"
    "like_software e'" "PASSED \<notin> capabilities 2 e'"
    using example_encoder [OF assms(2), of 3 c "ps_attempts s"] by auto
  show ?thesis by (rule exI [of _ e'], rule exI [of _ n']) (simp add: validate_at_def assms e)
qed

theorem av1_mode_never_withdrawn_witness:
  "\<forall>c. \<exists>s'. probe_encoders probe_example (c\<lparr> cf_video := video_init\<lparr> vi_av1_mode := 3 \<rparr> \<rparr>) probe_start = Some (0, s') \<and>
     ps_av1_mode s' = 3 \<and> PASSED \<notin> cd_capabilities (en_av1 (ps_encoders s' ! 0))"
proof
  fix c :: Config.config_t
  let ?c = "c\<lparr> cf_video := video_init\<lparr> vi_av1_mode := 3 \<rparr> \<rparr>"
  have v: "vi_encoder (cf_video ?c) = []" "vi_av1_mode (cf_video ?c) = 3" "vi_hevc_mode (cf_video ?c) = 0"
    and init: "vi_hevc_mode video_init = 0" "vi_encoder video_init = []"
    unfolding video_init_def by simp_all
  let ?s = "probe_started ?c probe_start"
  have s: "ps_encoders ?s = [software False False]" "ps_hevc_mode ?s = 0" "ps_av1_mode ?s = 3" "ps_chosen ?s = None"
    by (simp_all add: probe_started_def probe_start_def init)
  obtain e1 n1 where 1: "validate_at probe_example ?c None 0 ?s = Some (True, ?s\<lparr> ps_encoders := [e1], ps_attempts := n1 \<rparr>)"
    "like_software e1" "PASSED \<notin> capabilities 2 e1"
    using example_at [OF s(1) like_software_software s(2,3)] by blast
  let ?s1 = "?s\<lparr> ps_encoders := [e1], ps_attempts := n1 \<rparr>"
  have s1: "ps_encoders ?s1 = [e1]" "ps_hevc_mode ?s1 = 0" "ps_av1_mode ?s1 = 3" using s by simp_all
  obtain e2 n2 where 2: "validate_at probe_example ?c None 0 ?s1 = Some (True, ?s1\<lparr> ps_encoders := [e2], ps_attempts := n2 \<rparr>)"
    "like_software e2" "PASSED \<notin> capabilities 2 e2"
    using example_at [OF s1(1) 1(2) s1(2,3)] by blast
  let ?s2 = "?s1\<lparr> ps_encoders := [e2], ps_attempts := n2 \<rparr>"
  have no: "\<not> meets_requirements ?s1 e1"
    using 1(3) s1(3) by (simp add: meets_requirements_def meets_requirement_def codec_of_def)
  have "probe_passes probe_example ?c None ?s = Some (choose_adjusted 0 ?s2)"
    using 1(1) 2(1) no by (simp add: probe_passes_def init s)
  then have run: "probe_encoders probe_example ?c probe_start = Some (0, probe_result 0 (choose_adjusted 0 ?s2))"
    by (simp add: probe_encoders_def allow_encoder_probing_def keeps_encoder_def probe_example_def [symmetric])
      (simp add: probe_start_def probe_example_def)
  have "ps_av1_mode (probe_result 0 (choose_adjusted 0 ?s2)) = 3"
    using av1_mode_never_withdrawn [OF run] v(2)
    by (simp add: allow_encoder_probing_def keeps_encoder_def probe_example_def probe_start_def)
  moreover have "ps_encoders (probe_result 0 (choose_adjusted 0 ?s2)) = [e2]" by (simp add: probe_result_def Let_def)
  ultimately show "\<exists>s'. probe_encoders probe_example ?c probe_start = Some (0, s') \<and> ps_av1_mode s' = 3 \<and>
      PASSED \<notin> cd_capabilities (en_av1 (ps_encoders s' ! 0))"
    using run 2(3) by (simp add: codec_of_def)
qed

theorem probe_returns_witness:
  "\<forall>c. \<exists>r s'. probe_encoders probe_example c probe_start = Some (r, s')"
  using probe_returns [OF devices_answer_example] by blast

theorem probe_result_sound_witness:
  "\<forall>c. \<exists>r s'. probe_encoders probe_example c probe_start = Some (r, s') \<and> (r = - 1 \<or> r = 0 \<and> ps_chosen s' = Some 0)"
proof
  fix c
  obtain r s' where run: "probe_encoders probe_example c probe_start = Some (r, s')"
    using probe_encoders_returns [OF devices_answer_example] by (fastforce simp: returns_def)
  from probe_result_sound [OF run] have "r = - 1 \<or> r = 0 \<and> ps_chosen s' = Some 0"
    by (auto simp: allow_encoder_probing_def keeps_encoder_def probe_example_def probe_start_def)
  with run show "\<exists>r s'. probe_encoders probe_example c probe_start = Some (r, s') \<and> (r = - 1 \<or> r = 0 \<and> ps_chosen s' = Some 0)"
    by blast
qed

end
