(* ===== verification/Video_Encode.thy ===== *)
theory Video_Encode
  imports Encoder_Probe
begin

text \<open>
  Encoding of a stream in \<open>src/video.cpp\<close>: the two kinds of \<open>encode_session_t\<close>, \<open>encode_avcodec\<close>,
  \<open>encode_nvenc\<close> and \<open>encode\<close>, the loop \<open>encode_run\<close>, and the sessions it is run for by
  \<open>capture_async\<close>. What codecs, devices and events do is an input of every iteration.
\<close>

section \<open>Sessions\<close>

text \<open>A packet of FFmpeg or NVENC, and the packet that is put into the queue of the broadcast thread.\<close>

record av_packet =
  pk_pts :: int
  pk_key :: bool
  pk_data :: bytes

record raised_packet =
  ra_session :: nat
  ra_index :: int
  ra_idr :: bool
  ra_data :: bytes
  ra_replaced :: bool
  ra_after_invalidation :: bool
  ra_timestamp :: "int option"

text \<open>
  The state of a session: \<open>es_key\<close> are the flags of the frame of an FFmpeg session, and \<open>force_idr\<close> of an
  NVENC session. \<open>es_replacements\<close> is what packets of an FFmpeg session point at.
\<close>

record enc_state =
  es_id :: nat
  es_kind :: device_kind
  es_device :: bool
  es_key :: bool
  es_inject :: int
  es_replacements :: "(bytes \<times> bytes) list"

definition request_idr_frame :: "enc_state \<Rightarrow> enc_state" where
  "request_idr_frame s = (if es_kind s = Nvenc_Device \<or> es_device s then s\<lparr> es_key := True \<rparr> else s)"

definition request_normal_frame :: "enc_state \<Rightarrow> enc_state" where
  "request_normal_frame s = (if es_kind s = Nvenc_Device \<or> es_device s then s\<lparr> es_key := False \<rparr> else s)"

text \<open>\<open>device_can first last\<close> is what the NVENC encoder answers to the invalidation.\<close>

definition invalidate_ref_frames :: "(int \<Rightarrow> int \<Rightarrow> bool) \<Rightarrow> int \<Rightarrow> int \<Rightarrow> enc_state \<Rightarrow> enc_state" where
  "invalidate_ref_frames device_can first_frame last_frame s =
     (if es_kind s = Avcodec_Device then request_idr_frame s
      else if \<not> es_device s then s
      else if \<not> device_can first_frame last_frame then s\<lparr> es_key := True \<rparr> else s)"

section \<open>One frame\<close>

text \<open>
  What FFmpeg does with a frame: it refuses it, or gives packets until it wants more input (\<open>True\<close>) or fails.
  The replaced headers are those that \<open>cbs\<close> makes from the first packet.
\<close>

datatype av_answer = Send_Failed | Received "av_packet list" bool

record cbs_lib =
  cb_sps_h264 :: "av_packet \<Rightarrow> bytes \<times> bytes"
  cb_sps_hevc :: "av_packet \<Rightarrow> bytes \<times> bytes"
  cb_vps_hevc :: "av_packet \<Rightarrow> bytes \<times> bytes"

definition inject_headers :: "cbs_lib \<Rightarrow> av_packet \<Rightarrow> enc_state \<Rightarrow> enc_state" where
  "inject_headers b p s =
     (if es_inject s = 0 then s
      else if es_inject s = 1
      then s\<lparr> es_inject := 0, es_replacements := es_replacements s @ [cb_sps_h264 b p] \<rparr>
      else s\<lparr> es_inject := 0, es_replacements := es_replacements s @ [cb_vps_hevc b p, cb_sps_hevc b p] \<rparr>)"

definition avcodec_packet :: "int \<Rightarrow> int option \<Rightarrow> enc_state \<Rightarrow> av_packet \<Rightarrow> raised_packet" where
  "avcodec_packet frame_nr timestamp s p =
     \<lparr> ra_session = es_id s, ra_index = pk_pts p, ra_idr = pk_key p, ra_data = pk_data p, ra_replaced = True,
       ra_after_invalidation = False, ra_timestamp = (if pk_pts p = frame_nr then timestamp else None) \<rparr>"

fun receive_packets ::
  "cbs_lib \<Rightarrow> int \<Rightarrow> int option \<Rightarrow> av_packet list \<Rightarrow> enc_state \<Rightarrow> raised_packet list \<times> enc_state" where
  "receive_packets b frame_nr timestamp [] s = ([], s)"
| "receive_packets b frame_nr timestamp (p # ps) s =
     (let s1 = inject_headers b p s; (rs, s2) = receive_packets b frame_nr timestamp ps s1
      in (avcodec_packet frame_nr timestamp s1 p # rs, s2))"

text \<open>The packets that are raised, the state, and whether the call succeeds.\<close>

definition encode_avcodec ::
  "cbs_lib \<Rightarrow> int \<Rightarrow> av_answer \<Rightarrow> int option \<Rightarrow> enc_state \<Rightarrow> raised_packet list \<times> enc_state \<times> bool" where
  "encode_avcodec b frame_nr a timestamp s =
     (case a of
        Send_Failed \<Rightarrow> ([], s, False)
      | Received ps ok \<Rightarrow> let (rs, s1) = receive_packets b frame_nr timestamp ps s in (rs, s1, ok))"

record nvenc_frame =
  nf_data :: bytes
  nf_index :: int
  nf_idr :: bool
  nf_after_invalidation :: bool

text \<open>\<open>encoder key\<close> is the frame that the NVENC encoder makes when a key frame is or is not forced.\<close>

definition nvenc_encode_frame :: "(bool \<Rightarrow> nvenc_frame) \<Rightarrow> enc_state \<Rightarrow> nvenc_frame \<times> enc_state" where
  "nvenc_encode_frame encoder s =
     (if \<not> es_device s
      then (\<lparr> nf_data = [], nf_index = 0, nf_idr = False, nf_after_invalidation = False \<rparr>, s)
      else (encoder (es_key s), s\<lparr> es_key := False \<rparr>))"

definition encode_nvenc ::
  "int \<Rightarrow> (bool \<Rightarrow> nvenc_frame) \<Rightarrow> int option \<Rightarrow> enc_state \<Rightarrow> raised_packet list \<times> enc_state \<times> bool" where
  "encode_nvenc frame_nr encoder timestamp s =
     (let (f, s1) = nvenc_encode_frame encoder s
      in if nf_data f = [] then ([], s1, False)
         else ([\<lparr> ra_session = es_id s, ra_index = nf_index f, ra_idr = nf_idr f, ra_data = nf_data f, ra_replaced = False,
                 ra_after_invalidation = nf_after_invalidation f, ra_timestamp = timestamp \<rparr>], s1, True))"

text \<open>What a codec answers to a frame with a number and the request for a key frame.\<close>

record codec_io =
  co_cbs :: cbs_lib
  co_avcodec :: "int \<Rightarrow> bool \<Rightarrow> av_answer"
  co_nvenc :: "int \<Rightarrow> bool \<Rightarrow> nvenc_frame"
  co_invalidate :: "int \<Rightarrow> int \<Rightarrow> bool"

definition encode :: "codec_io \<Rightarrow> int \<Rightarrow> int option \<Rightarrow> enc_state \<Rightarrow> raised_packet list \<times> enc_state \<times> bool" where
  "encode io frame_nr timestamp s =
     (case es_kind s of
        Avcodec_Device \<Rightarrow> encode_avcodec (co_cbs io) frame_nr (co_avcodec io frame_nr (es_key s)) timestamp s
      | Nvenc_Device \<Rightarrow> encode_nvenc frame_nr (co_nvenc io frame_nr) timestamp s)"

section \<open>The loop\<close>

text \<open>
  What one iteration of \<open>encode_run\<close> sees: the ranges to invalidate, whether a key frame is requested, the image
  that waits or that comes before the time is up, whether the images go on, and the events that end the loop.
  An image carries its timestamp, and whether it can be converted.
\<close>

record encode_input =
  ei_invalidate :: "(int \<times> int) list"
  ei_idr :: bool
  ei_waiting :: bool
  ei_image :: "(int option \<times> bool) option"
  ei_running :: bool
  ei_shutdown :: bool
  ei_reinit :: bool

datatype run_end = Ended | Convert_Failed | Encode_Error

datatype iteration = Encoded "raised_packet list" | Over run_end "raised_packet list"

text \<open>The image of an iteration: none is taken for a key frame when none waits.\<close>

definition image_result :: "encode_input \<Rightarrow> run_end + int option" where
  "image_result i =
     (if \<not> ei_idr i \<or> ei_waiting i
      then case ei_image i of
          Some (timestamp, converts) \<Rightarrow> if converts then Inr timestamp else Inl Convert_Failed
        | None \<Rightarrow> if ei_running i then Inr None else Inl Ended
      else Inr None)"

definition prepare_session :: "codec_io \<Rightarrow> encode_input \<Rightarrow> enc_state \<Rightarrow> enc_state" where
  "prepare_session io i s =
     (let s1 = fold (\<lambda>(a, b). invalidate_ref_frames (co_invalidate io) a b) (ei_invalidate i) s
      in if ei_idr i then request_idr_frame s1 else s1)"

definition encode_iteration ::
  "codec_io \<Rightarrow> encode_input \<Rightarrow> int \<times> enc_state \<Rightarrow> iteration \<times> int \<times> enc_state" where
  "encode_iteration io i = (\<lambda>(frame_nr, s).
     let s1 = prepare_session io i s
     in case image_result i of
          Inl e \<Rightarrow> (Over e [], frame_nr, s1)
        | Inr timestamp \<Rightarrow>
            if ei_shutdown i \<or> \<not> ei_running i \<or> ei_reinit i \<and> frame_nr > 1 then (Over Ended [], frame_nr, s1)
            else
              let (rs, s2, ok) = encode io frame_nr timestamp s1
              in if \<not> ok then (Over Encode_Error rs, frame_nr + 1, s2)
                 else (Encoded rs, frame_nr + 1, request_normal_frame s2))"

text \<open>The loop over the inputs it gets; it is still running when it has seen all of them.\<close>

fun encode_loop ::
  "codec_io \<Rightarrow> encode_input list \<Rightarrow> int \<times> enc_state \<Rightarrow> run_end option \<times> raised_packet list \<times> int \<times> enc_state" where
  "encode_loop io [] (frame_nr, s) = (None, [], frame_nr, s)"
| "encode_loop io (i # is) (frame_nr, s) =
     (case encode_iteration io i (frame_nr, s) of
        (Over e rs, frame_nr', s') \<Rightarrow> (Some e, rs, frame_nr', s')
      | (Encoded rs, frame_nr', s') \<Rightarrow>
          let (e, rs', r) = encode_loop io is (frame_nr', s') in (e, rs @ rs', r))"

text \<open>
  The runs of \<open>capture_async\<close>, each with a new session and the inputs of its loop. A session that was not made
  (\<open>None\<close>) encodes nothing. The session is destroyed at the end of its run.
\<close>

fun capture_runs ::
  "codec_io \<Rightarrow> (enc_state option \<times> encode_input list) list \<Rightarrow> int \<Rightarrow> raised_packet list \<times> int" where
  "capture_runs io [] frame_nr = ([], frame_nr)"
| "capture_runs io ((None, is) # runs) frame_nr = capture_runs io runs frame_nr"
| "capture_runs io ((Some s, is) # runs) frame_nr =
     (let (e, rs, frame_nr', s') = encode_loop io is (frame_nr, s);
          (rs', n) = capture_runs io runs frame_nr'
      in (rs @ rs', n))"

section \<open>Packets and the sessions they point into\<close>

text \<open>
  The packets of an FFmpeg session hold a pointer to its list of replacements, which the broadcast thread reads. A
  session dies when its run ends, whatever is still in the queue.
\<close>

record packet_queue =
  pq_alive :: "nat set"
  pq_items :: "raised_packet list"

datatype pq_event = Session_Made nat | Packet_Raised raised_packet | Session_Gone nat | Packet_Taken

fun pq_step :: "pq_event \<Rightarrow> packet_queue \<Rightarrow> packet_queue option" where
  "pq_step (Session_Made i) q = (if i \<in> pq_alive q then None else Some (q\<lparr> pq_alive := insert i (pq_alive q) \<rparr>))"
| "pq_step (Packet_Raised p) q = (if ra_session p \<in> pq_alive q then Some (q\<lparr> pq_items := pq_items q @ [p] \<rparr>) else None)"
| "pq_step (Session_Gone i) q = Some (q\<lparr> pq_alive := pq_alive q - {i} \<rparr>)"
| "pq_step Packet_Taken q = (case pq_items q of [] \<Rightarrow> None | p # ps \<Rightarrow> Some (q\<lparr> pq_items := ps \<rparr>))"

fun pq_run :: "pq_event list \<Rightarrow> packet_queue \<Rightarrow> packet_queue option" where
  "pq_run [] q = Some q"
| "pq_run (e # es) q = (case pq_step e q of None \<Rightarrow> None | Some q' \<Rightarrow> pq_run es q')"

text \<open>The next packet that the broadcast thread takes reads the list of a session that is gone.\<close>

definition dangling :: "packet_queue \<Rightarrow> bool" where
  "dangling q \<longleftrightarrow> (case pq_items q of [] \<Rightarrow> False | p # ps \<Rightarrow> ra_replaced p \<and> ra_idr p \<and> ra_session p \<notin> pq_alive q)"

section \<open>Properties\<close>

named_theorems session_kept "what an operation leaves of an encode session"

lemma request_kept [session_kept]:
  "es_kind (request_idr_frame s) = es_kind s" "es_device (request_idr_frame s) = es_device s"
  "es_id (request_idr_frame s) = es_id s" "es_inject (request_idr_frame s) = es_inject s"
  "es_replacements (request_idr_frame s) = es_replacements s"
  "es_kind (request_normal_frame s) = es_kind s" "es_device (request_normal_frame s) = es_device s"
  "es_id (request_normal_frame s) = es_id s" "es_inject (request_normal_frame s) = es_inject s"
  "es_replacements (request_normal_frame s) = es_replacements s"
  by (simp_all add: request_idr_frame_def request_normal_frame_def)

lemma invalidate_kept [session_kept]:
  "es_kind (invalidate_ref_frames f a b s) = es_kind s" "es_device (invalidate_ref_frames f a b s) = es_device s"
  "es_id (invalidate_ref_frames f a b s) = es_id s" "es_inject (invalidate_ref_frames f a b s) = es_inject s"
  "es_replacements (invalidate_ref_frames f a b s) = es_replacements s"
  by (simp_all add: invalidate_ref_frames_def session_kept)

lemma fold_invalidate_kept [session_kept]:
  "es_kind (fold (\<lambda>(a, b). invalidate_ref_frames f a b) rs s) = es_kind s"
  "es_device (fold (\<lambda>(a, b). invalidate_ref_frames f a b) rs s) = es_device s"
  "es_id (fold (\<lambda>(a, b). invalidate_ref_frames f a b) rs s) = es_id s"
  "es_inject (fold (\<lambda>(a, b). invalidate_ref_frames f a b) rs s) = es_inject s"
  "es_replacements (fold (\<lambda>(a, b). invalidate_ref_frames f a b) rs s) = es_replacements s"
  by (induction rs arbitrary: s) (auto simp: session_kept)

lemma prepare_kept [session_kept]:
  "es_kind (prepare_session io i s) = es_kind s" "es_device (prepare_session io i s) = es_device s"
  "es_id (prepare_session io i s) = es_id s" "es_inject (prepare_session io i s) = es_inject s"
  "es_replacements (prepare_session io i s) = es_replacements s"
  by (simp_all add: prepare_session_def session_kept Let_def)

lemma inject_kept [session_kept]:
  "es_kind (inject_headers b p s) = es_kind s" "es_device (inject_headers b p s) = es_device s"
  "es_id (inject_headers b p s) = es_id s" "es_key (inject_headers b p s) = es_key s"
  by (simp_all add: inject_headers_def)

lemma receive_kept [session_kept]:
  "es_kind (snd (receive_packets b n t ps s)) = es_kind s" "es_device (snd (receive_packets b n t ps s)) = es_device s"
  "es_id (snd (receive_packets b n t ps s)) = es_id s" "es_key (snd (receive_packets b n t ps s)) = es_key s"
  by (induction ps arbitrary: s) (simp_all add: session_kept Let_def case_prod_unfold)

lemma encode_kept [session_kept]:
  "encode io n t s = (rs, s', ok) \<Longrightarrow> es_kind s' = es_kind s \<and> es_device s' = es_device s \<and> es_id s' = es_id s"
  using receive_kept
  by (auto simp: encode_def encode_avcodec_def encode_nvenc_def nvenc_encode_frame_def Let_def
      split: device_kind.splits av_answer.splits if_splits prod.splits)
    (metis snd_conv)+

lemma receive_packets_map:
  "map ra_idr (fst (receive_packets b n t ps s)) = map pk_key ps"
  "map ra_index (fst (receive_packets b n t ps s)) = map pk_pts ps"
  "\<forall>r \<in> set (fst (receive_packets b n t ps s)). ra_session r = es_id s"
  by (induction ps arbitrary: s) (simp_all add: Let_def avcodec_packet_def session_kept case_prod_unfold)

text \<open>
  A request for a key frame is served by the very next frame that is encoded: the codec is told to make a key
  frame, and afterwards the session is back to normal frames.
\<close>
theorem idr_request_served:
  assumes "encode_iteration io i (n, s) = (Encoded rs, n', s')" "ei_idr i" "es_device s"
  shows "case es_kind s of
      Avcodec_Device \<Rightarrow> \<exists>ps. co_avcodec io n True = Received ps True \<and> map ra_idr rs = map pk_key ps
    | Nvenc_Device \<Rightarrow> map ra_idr rs = [nf_idr (co_nvenc io n True)]"
    "\<not> es_key s'" "n' = n + 1"
proof -
  let ?s = "prepare_session io i s"
  have key: "es_key ?s" "es_kind ?s = es_kind s" "es_device ?s"
    using assms(2,3) by (simp_all add: prepare_session_def request_idr_frame_def session_kept)
  from assms(1) obtain t s2 where e: "encode io n t ?s = (rs, s2, True)" "s' = request_normal_frame s2" "n' = n + 1"
    by (auto simp: encode_iteration_def Let_def split: sum.splits if_splits prod.splits)
  from encode_kept [OF e(1)] key have "es_kind s2 = es_kind s" "es_device s2" by simp_all
  with e show "\<not> es_key s'" "n' = n + 1" by (simp_all add: request_normal_frame_def)
  show "case es_kind s of
      Avcodec_Device \<Rightarrow> \<exists>ps. co_avcodec io n True = Received ps True \<and> map ra_idr rs = map pk_key ps
    | Nvenc_Device \<Rightarrow> map ra_idr rs = [nf_idr (co_nvenc io n True)]"
    using e(1) key receive_packets_map(1)
    by (auto simp: encode_def encode_avcodec_def encode_nvenc_def nvenc_encode_frame_def Let_def
        split: device_kind.splits av_answer.splits if_splits prod.splits) (metis fst_conv)
qed

text \<open>The headers of a session are replaced once, by what the first packet shows.\<close>

definition first_headers :: "cbs_lib \<Rightarrow> int \<Rightarrow> av_packet list \<Rightarrow> (bytes \<times> bytes) list" where
  "first_headers b inject ps =
     (case ps of
        [] \<Rightarrow> []
      | p # _ \<Rightarrow> if inject = 0 then [] else if inject = 1 then [cb_sps_h264 b p] else [cb_vps_hevc b p, cb_sps_hevc b p])"

lemma receive_no_inject:
  "es_inject s = 0 \<Longrightarrow> snd (receive_packets b n t ps s) = s"
  by (induction ps arbitrary: s) (simp_all add: inject_headers_def Let_def case_prod_unfold)

lemma headers_injected_once:
  "es_replacements (snd (receive_packets b n t ps s)) = es_replacements s @ first_headers b (es_inject s) ps"
  "ps \<noteq> [] \<Longrightarrow> es_inject (snd (receive_packets b n t ps s)) = 0"
proof -
  have "es_replacements (snd (receive_packets b n t ps s)) = es_replacements s @ first_headers b (es_inject s) ps \<and>
    (ps \<noteq> [] \<longrightarrow> es_inject (snd (receive_packets b n t ps s)) = 0)"
  proof (cases ps)
    case (Cons p qs)
    have "es_inject (inject_headers b p s) = 0" by (simp add: inject_headers_def)
    from receive_no_inject [OF this] show ?thesis
      by (simp add: Cons Let_def case_prod_unfold) (simp add: inject_headers_def first_headers_def)
  qed (simp add: first_headers_def)
  then show "es_replacements (snd (receive_packets b n t ps s)) = es_replacements s @ first_headers b (es_inject s) ps"
    "ps \<noteq> [] \<Longrightarrow> es_inject (snd (receive_packets b n t ps s)) = 0" by simp_all
qed

subsection \<open>Frame numbers\<close>

text \<open>A codec without delay gives one packet for every frame, with its number.\<close>

definition prompt :: "codec_io \<Rightarrow> bool" where
  "prompt io \<longleftrightarrow>
     (\<forall>n key. (\<exists>p. co_avcodec io n key = Received [p] True \<and> pk_pts p = n) \<and>
       nf_data (co_nvenc io n key) \<noteq> [] \<and> nf_index (co_nvenc io n key) = n)"

lemma prompt_encode:
  assumes "prompt io" "es_device s \<or> es_kind s = Avcodec_Device"
  obtains r s' where "encode io n t s = ([r], s', True)" "ra_index r = n"
proof (cases "es_kind s")
  case Avcodec_Device
  from assms(1) obtain p where "co_avcodec io n (es_key s) = Received [p] True" "pk_pts p = n"
    unfolding prompt_def by metis
  with Avcodec_Device show ?thesis
    by (intro that) (auto simp: encode_def encode_avcodec_def avcodec_packet_def Let_def)
next
  case Nvenc_Device
  from assms(1) have "nf_data (co_nvenc io n (es_key s)) \<noteq> []" "nf_index (co_nvenc io n (es_key s)) = n"
    unfolding prompt_def by metis+
  with Nvenc_Device assms(2) show ?thesis
    by (intro that) (auto simp: encode_def encode_nvenc_def nvenc_encode_frame_def Let_def)
qed

lemma iteration_prompt:
  assumes "prompt io" "es_device s"
  shows "(\<exists>e s'. encode_iteration io i (n, s) = (Over e [], n, s')) \<or>
    (\<exists>r s'. encode_iteration io i (n, s) = (Encoded [r], n + 1, s') \<and> ra_index r = n \<and> es_device s')"
proof -
  let ?s = "prepare_session io i s"
  show ?thesis
  proof (cases "image_result i")
    case (Inr t)
    have "es_device ?s" using assms(2) by (simp add: session_kept)
    with prompt_encode [OF assms(1), of ?s n t] obtain r s' where e: "encode io n t ?s = ([r], s', True)" "ra_index r = n" by blast
    from encode_kept [OF e(1)] \<open>es_device ?s\<close> have "es_device s'" by simp
    with e Inr show ?thesis by (simp add: encode_iteration_def Let_def session_kept)
  qed (simp add: encode_iteration_def)
qed

lemma loop_prompt:
  assumes "prompt io" "es_device s" "encode_loop io is (n, s) = (e, rs, n', s')"
  shows "n \<le> n'" "map ra_index rs = [n..n' - 1]"
proof -
  have "n \<le> n' \<and> map ra_index rs = [n..n' - 1]" using assms(2,3)
  proof (induction "is" arbitrary: n s e rs)
    case (Cons i "is")
    from iteration_prompt [OF assms(1) Cons.prems(1), of i n] show ?case
    proof (elim disjE exE conjE)
      fix e0 s0 assume "encode_iteration io i (n, s) = (Over e0 [], n, s0)"
      with Cons.prems(2) show ?thesis by simp
    next
      fix r s0 assume it: "encode_iteration io i (n, s) = (Encoded [r], n + 1, s0)" "ra_index r = n" "es_device s0"
      obtain e1 rs1 n1 s1 where l: "encode_loop io is (n + 1, s0) = (e1, rs1, n1, s1)" by (metis prod_cases4)
      from Cons.prems(2) it(1) l have r: "rs = r # rs1" "encode_loop io is (n + 1, s0) = (e1, rs1, n', s')" by simp_all
      from Cons.IH [OF it(3) r(2)] have "n + 1 \<le> n'" "map ra_index rs1 = [n + 1..n' - 1]" by simp_all
      with r(1) it(2) show ?thesis by (simp add: upto_rec1 [of n])
    qed
  qed simp
  then show "n \<le> n'" "map ra_index rs = [n..n' - 1]" by simp_all
qed

text \<open>
  With a codec that has no delay, the packets of a stream are numbered without a gap, over all the sessions that
  the stream goes through when the display changes.
\<close>
theorem frame_indices_consecutive:
  assumes "prompt io" "list_all (\<lambda>(s, is). case s of None \<Rightarrow> True | Some s \<Rightarrow> es_device s) runs"
    and "capture_runs io runs n = (rs, n')"
  shows "n \<le> n' \<and> map ra_index rs = [n..n' - 1]"
  using assms(2,3)
proof (induction runs arbitrary: n rs)
  case (Cons run runs)
  obtain so "is" where run: "run = (so, is)" by fastforce
  show ?case
  proof (cases so)
    case None
    with Cons run show ?thesis by simp
  next
    case (Some s)
    obtain e rs1 n1 s1 where l: "encode_loop io is (n, s) = (e, rs1, n1, s1)" by (metis prod_cases4)
    obtain rs2 n2 where c: "capture_runs io runs n1 = (rs2, n2)" by fastforce
    from Cons.prems run Some have "es_device s" by simp
    note L = loop_prompt [OF assms(1) this l]
    from Cons.prems(2) run Some l c have r: "rs = rs1 @ rs2" "n' = n2" by simp_all
    with Cons.IH [of n1 rs2] c Cons.prems(1) have I: "n1 \<le> n2" "map ra_index rs2 = [n1..n2 - 1]" by simp_all
    with L r show ?thesis by (cases "n1 = n2") (simp_all add: upto_split1 [of n n1 "n2 - 1"])
  qed
qed simp

definition prompt_io :: codec_io where
  "prompt_io = \<lparr> co_cbs = \<lparr> cb_sps_h264 = (\<lambda>_. ([], [])), cb_sps_hevc = (\<lambda>_. ([], [])), cb_vps_hevc = (\<lambda>_. ([], [])) \<rparr>,
     co_avcodec = (\<lambda>n key. Received [\<lparr> pk_pts = n, pk_key = key, pk_data = [1] \<rparr>] True),
     co_nvenc = (\<lambda>n key. \<lparr> nf_data = [1], nf_index = n, nf_idr = key, nf_after_invalidation = False \<rparr>),
     co_invalidate = (\<lambda>_ _. False) \<rparr>"

definition session_of :: "device_kind \<Rightarrow> enc_state" where
  "session_of k = \<lparr> es_id = 0, es_kind = k, es_device = True, es_key = False, es_inject = 0, es_replacements = [] \<rparr>"

definition input_of :: "bool \<Rightarrow> bool \<Rightarrow> encode_input" where
  "input_of idr reinit = \<lparr> ei_invalidate = [], ei_idr = idr, ei_waiting = True, ei_image = Some (None, True), ei_running = True,
     ei_shutdown = False, ei_reinit = reinit \<rparr>"

lemma prompt_prompt_io: "prompt prompt_io"
  by (simp add: prompt_def prompt_io_def)

lemmas run_simps = encode_iteration_def prepare_session_def image_result_def input_of_def session_of_def encode_def
  encode_avcodec_def encode_nvenc_def nvenc_encode_frame_def prompt_io_def inject_headers_def avcodec_packet_def
  request_idr_frame_def request_normal_frame_def

theorem idr_request_served_witness:
  "\<exists>rs s'. encode_iteration prompt_io (input_of True False) (4, session_of Nvenc_Device) = (Encoded rs, 5, s') \<and>
     map ra_idr rs = [True] \<and> \<not> es_key s'"
proof -
  obtain rs s' where r: "encode_iteration prompt_io (input_of True False) (4, session_of Nvenc_Device) = (Encoded rs, 5, s')"
    by (simp add: run_simps Let_def)
  have "ei_idr (input_of True False)" "es_device (session_of Nvenc_Device)" by (simp_all add: input_of_def session_of_def)
  from idr_request_served (1,2) [OF r this] r show ?thesis by (simp add: session_of_def prompt_io_def)
qed

theorem frame_indices_consecutive_witness:
  "\<exists>rs. capture_runs prompt_io
      [(Some (session_of Avcodec_Device), [input_of True False, input_of False False, input_of False True]), (None, []),
       (Some (session_of Nvenc_Device), [input_of False False])] 1 = (rs, 4) \<and> map ra_index rs = [1, 2, 3]"
proof -
  obtain rs where r: "capture_runs prompt_io
      [(Some (session_of Avcodec_Device), [input_of True False, input_of False False, input_of False True]), (None, []),
       (Some (session_of Nvenc_Device), [input_of False False])] 1 = (rs, 4)"
    by (simp add: run_simps Let_def)
  from frame_indices_consecutive [OF prompt_prompt_io _ r] have "map ra_index rs = [1..4 - 1]" by (simp add: session_of_def)
  also have "\<dots> = [1, 2, 3]" by (simp add: upto_rec1)
  finally have "map ra_index rs = [1, 2, 3]" .
  with r show ?thesis by (intro exI [of _ rs] conjI)
qed

subsection \<open>Lifetime of the replacements\<close>

definition key_packet :: "nat \<Rightarrow> raised_packet" where
  "key_packet i = \<lparr> ra_session = i, ra_index = 1, ra_idr = True, ra_data = [], ra_replaced = True,
     ra_after_invalidation = False, ra_timestamp = None \<rparr>"

text \<open>
  The broadcast thread can take a key frame whose session is gone, and then reads its list of replacements: the
  encode loop ends, on a change of the display or with the stream, without waiting for its packets.
\<close>
theorem packet_outlives_session:
  "\<exists>q. pq_run [Session_Made 0, Packet_Raised (key_packet 0), Session_Gone 0] \<lparr> pq_alive = {}, pq_items = [] \<rparr> = Some q \<and>
    dangling q"
  by (simp add: dangling_def key_packet_def)

end
