(* ===== verification/Video_Capture.thy ===== *)
theory Video_Capture
  imports Encoder_Probe "HOL-Library.Multiset"
begin

text \<open>
  The capture thread of \<open>src/video.cpp\<close>: the list of displays (\<open>refresh_displays\<close>), the pool of images
  (\<open>trim_imgs\<close> and \<open>pull_free_image_callback\<close>), the distribution of a captured image to the sessions
  (\<open>push_captured_image_callback\<close>) and the change of the display. Times are nanoseconds.
\<close>

section \<open>Displays\<close>

text \<open>The first index of a name, or 0.\<close>

fun find_name :: "bytes \<Rightarrow> bytes list \<Rightarrow> nat option" where
  "find_name x [] = None"
| "find_name x (y # ys) = (if y = x then Some 0 else map_option Suc (find_name x ys))"

definition current_name :: "bytes list \<times> int \<Rightarrow> bytes" where
  "current_name = (\<lambda>(names, i). if 0 \<le> i \<and> i < int (length names) then names ! nat i else [])"

definition refresh_displays :: "bytes \<Rightarrow> bytes list \<Rightarrow> bytes list \<times> int \<Rightarrow> bytes list \<times> int" where
  "refresh_displays output_name found s =
     (let current = current_name s
      in if found = [] \<and> fst s \<noteq> [] then s
         else
           let names = (if found = [] then [output_name] else found);
               wanted = (if current \<noteq> [] then current else output_name)
           in (names, case find_name wanted names of Some i \<Rightarrow> int i | None \<Rightarrow> 0))"

text \<open>\<open>std::clamp\<close> of the display that was switched to.\<close>

definition switch_display :: "int option \<Rightarrow> bytes list \<times> int \<Rightarrow> bytes list \<times> int" where
  "switch_display request = (\<lambda>(names, i).
     (names, case request of None \<Rightarrow> i | Some x \<Rightarrow> max 0 (min x (int (length names) - 1))))"

section \<open>Pool of images\<close>

text \<open>
  Images are numbered as they are allocated. \<open>po_users\<close> counts who holds an image beside the pool, so
  \<open>use_count()\<close> of an image in the pool is one more. \<open>po_stamps\<close> is \<open>imgs_used_timestamps\<close>.
\<close>

record pool =
  po_imgs :: "nat option list"
  po_stamps :: "int option list"
  po_users :: "nat \<Rightarrow> nat"
  po_next :: nat

definition capture_buffer_size :: nat where "capture_buffer_size = 12"
definition trim_timeout :: int where "trim_timeout = 3000000000"

definition pool_new :: pool where
  "pool_new = \<lparr> po_imgs = replicate capture_buffer_size None, po_stamps = [], po_users = (\<lambda>_. 0), po_next = 0 \<rparr>"

definition allocated_count :: "pool \<Rightarrow> nat" where
  "allocated_count p = length (filter (\<lambda>s. s \<noteq> None) (po_imgs p))"

definition used_count :: "pool \<Rightarrow> nat" where
  "used_count p = length (filter (\<lambda>s. case s of Some i \<Rightarrow> po_users p i > 0 | None \<Rightarrow> False) (po_imgs p))"

text \<open>The counts of images in use that were seen, with the time when each was seen last.\<close>

definition resize_stamps :: "nat \<Rightarrow> int option list \<Rightarrow> int option list" where
  "resize_stamps n xs = take n xs @ replicate (n - length xs) None"

definition stamp_used :: "int \<Rightarrow> nat \<Rightarrow> int option list \<Rightarrow> int option list" where
  "stamp_used now used xs = (if length xs \<le> used then resize_stamps (used + 1) xs else xs)[used := Some now]"

definition trim_target :: "int \<Rightarrow> nat \<Rightarrow> int option list \<Rightarrow> nat" where
  "trim_target now used xs =
     fold (\<lambda>i target. case xs ! i of Some t \<Rightarrow> if now - t < trim_timeout then i else target | None \<Rightarrow> target)
       [used..<length xs] used"

text \<open>Images that only the pool holds are let go, from the back, until enough are.\<close>

fun release_images :: "(nat \<Rightarrow> nat) \<Rightarrow> nat \<Rightarrow> nat option list \<Rightarrow> nat option list" where
  "release_images users 0 xs = xs"
| "release_images users (Suc n) [] = []"
| "release_images users (Suc n) (x # xs) =
     (case x of
        Some i \<Rightarrow> if users i = 0 then None # release_images users n xs else Some i # release_images users (Suc n) xs
      | None \<Rightarrow> None # release_images users (Suc n) xs)"

definition trim_imgs :: "int \<Rightarrow> pool \<Rightarrow> pool" where
  "trim_imgs now p =
     (let used = used_count p;
          stamps = stamp_used now used (po_stamps p);
          target = trim_target now used stamps
      in if allocated_count p > target
         then p\<lparr> po_imgs := rev (release_images (po_users p) (allocated_count p - target) (rev (po_imgs p))),
                 po_stamps := resize_stamps (target + 1) stamps \<rparr>
         else p\<lparr> po_stamps := stamps \<rparr>)"

text \<open>The first position that holds a free image, or no image.\<close>

fun first_position :: "('a \<Rightarrow> bool) \<Rightarrow> 'a list \<Rightarrow> nat option" where
  "first_position P [] = None"
| "first_position P (x # xs) = (if P x then Some 0 else map_option Suc (first_position P xs))"

definition move_to_front :: "nat \<Rightarrow> 'a \<Rightarrow> 'a list \<Rightarrow> 'a list" where
  "move_to_front i x xs = x # take i xs @ drop (Suc i) xs"

text \<open>
  One round of \<open>pull_free_image_callback\<close>. The image it gives is held from then on; \<open>None\<close> is a round that
  sleeps. An allocation can fail (\<open>alloc\<close>), which leaves an empty place in front.
\<close>

definition pull_free_image :: "bool \<Rightarrow> int \<Rightarrow> pool \<Rightarrow> nat option \<times> pool" where
  "pull_free_image alloc now p =
     (case first_position (\<lambda>s. case s of Some i \<Rightarrow> po_users p i = 0 | None \<Rightarrow> False) (po_imgs p) of
        Some k \<Rightarrow>
          let i = the (po_imgs p ! k)
          in (Some i, trim_imgs now (p\<lparr> po_imgs := move_to_front k (Some i) (po_imgs p), po_users := (po_users p)(i := 1) \<rparr>))
      | None \<Rightarrow>
          (case first_position (\<lambda>s. s = None) (po_imgs p) of
             None \<Rightarrow> (None, p)
           | Some k \<Rightarrow>
               if \<not> alloc then (None, p\<lparr> po_imgs := move_to_front k None (po_imgs p) \<rparr>)
               else
                 let i = po_next p
                 in (Some i, trim_imgs now (p\<lparr> po_imgs := move_to_front k (Some i) (po_imgs p),
                       po_users := (po_users p)(i := 1), po_next := i + 1 \<rparr>))))"

text \<open>
  What happens to the pool: an image is pulled; its holder hands it on to one more; a holder drops it; the pool forgets
  all images when the display changes.
\<close>

datatype pool_event = Pull bool int | Share nat | Drop nat | Forget

fun image_pool_step :: "pool_event \<Rightarrow> pool \<Rightarrow> pool option" where
  "image_pool_step (Pull alloc now) p = Some (snd (pull_free_image alloc now p))"
| "image_pool_step (Share i) p = (if po_users p i = 0 then None else Some (p\<lparr> po_users := (po_users p)(i := po_users p i + 1) \<rparr>))"
| "image_pool_step (Drop i) p = (if po_users p i = 0 then None else Some (p\<lparr> po_users := (po_users p)(i := po_users p i - 1) \<rparr>))"
| "image_pool_step Forget p = Some (p\<lparr> po_imgs := map (\<lambda>_. None) (po_imgs p) \<rparr>)"

inductive pool_reachable :: "pool \<Rightarrow> bool" where
  new: "pool_reachable pool_new"
| step: "pool_reachable p \<Longrightarrow> image_pool_step e p = Some p' \<Longrightarrow> pool_reachable p'"

section \<open>Sessions of the capture\<close>

text \<open>
  The sessions that capture (by number), their images, the sessions that wait in the queue, whether the queue is
  running, and the display that was switched to.
\<close>

record capture =
  ca_ctxs :: "nat list"
  ca_images :: "nat \<Rightarrow> nat event_t"
  ca_queue :: "nat queue_t"
  ca_switch :: "int option"

definition push_to_sessions :: "nat option \<Rightarrow> capture \<Rightarrow> capture" where
  "push_to_sessions captured s =
     (let live = filter (\<lambda>c. event_running (ca_images s c)) (ca_ctxs s)
      in s\<lparr> ca_ctxs := live,
            ca_images := (case captured of
              Some img \<Rightarrow> (\<lambda>c. if c \<in> set live then event_raise img (ca_images s c) else ca_images s c)
            | None \<Rightarrow> ca_images s) \<rparr>)"

text \<open>Whether the capture goes on, and whether it is the switch of the display that ends it.\<close>

definition push_captured_image :: "nat option \<Rightarrow> capture \<Rightarrow> (bool \<times> bool) \<times> capture" where
  "push_captured_image captured s =
     (let s1 = push_to_sessions captured s
      in if \<not> queue_running (ca_queue s1) then ((False, False), s1)
         else
           let s2 = s1\<lparr> ca_ctxs := ca_ctxs s1 @ q_items (ca_queue s1), ca_queue := (ca_queue s1)\<lparr> q_items := [] \<rparr> \<rparr>
           in if ca_switch s2 \<noteq> None then ((False, True), s2) else ((True, False), s2))"

text \<open>One round of the wait for the old display: stopped sessions go, and the others give back their images.\<close>

definition discard_images :: "capture \<Rightarrow> capture" where
  "discard_images s =
     (let live = filter (\<lambda>c. event_running (ca_images s c)) (ca_ctxs s)
      in s\<lparr> ca_ctxs := live,
            ca_images := (\<lambda>c. if c \<in> set live then (ca_images s c)\<lparr> ev_status := None \<rparr> else ca_images s c) \<rparr>)"

text \<open>
  One round of the search for the new display, for the first session. \<open>None\<close> is \<open>front()\<close> of an empty vector;
  otherwise the session whose configuration the display is opened with, and the new list and index.
\<close>

definition reinit_round ::
  "bytes \<Rightarrow> bytes list \<Rightarrow> bytes list \<times> int \<Rightarrow> capture \<Rightarrow> ((nat \<times> bytes) \<times> (bytes list \<times> int) \<times> capture) option" where
  "reinit_round output_name found d s =
     (let d1 = switch_display (ca_switch s) (refresh_displays output_name found d)
      in case ca_ctxs s of
           [] \<Rightarrow> None
         | c # _ \<Rightarrow> Some ((c, current_name d1), d1, s\<lparr> ca_switch := None \<rparr>))"

text \<open>The end of the thread stops the queue, and the images of all sessions, also of those in the queue.\<close>

definition capture_finished :: "capture \<Rightarrow> capture" where
  "capture_finished s =
     s\<lparr> ca_queue := (ca_queue s)\<lparr> q_continue := False \<rparr>,
        ca_images := (\<lambda>c. if c \<in> set (ca_ctxs s) \<union> set (q_items (ca_queue s)) then event_stop (ca_images s c) else ca_images s c) \<rparr>"

section \<open>Displays: properties\<close>

definition display_ok :: "bytes list \<times> int \<Rightarrow> bool" where
  "display_ok d \<longleftrightarrow> fst d \<noteq> [] \<and> 0 \<le> snd d \<and> snd d < int (length (fst d))"

lemma find_name_Some: "find_name x xs = Some i \<Longrightarrow> i < length xs \<and> xs ! i = x"
  by (induction xs arbitrary: i) (auto split: if_splits)

lemma find_name_None: "find_name x xs = None \<longleftrightarrow> x \<notin> set xs"
  by (induction xs) auto

lemma current_name_pair: "current_name (names, i) = (if 0 \<le> i \<and> i < int (length names) then names ! nat i else [])"
  by (simp add: current_name_def)

lemma switch_display_ok: "display_ok d \<Longrightarrow> display_ok (switch_display r d)"
  by (auto simp: display_ok_def switch_display_def split: prod.splits option.splits)

text \<open>
  After the displays were enumerated the index of the current display is inside the list, which is not empty; and
  a display that is still there stays the current one.
\<close>
theorem refresh_keeps_display:
  assumes "fst d = [] \<or> display_ok d"
  shows "display_ok (refresh_displays output_name found d)"
    "current_name d \<noteq> [] \<Longrightarrow> current_name d \<in> set found \<Longrightarrow>
      current_name (refresh_displays output_name found d) = current_name d"
proof -
  show "display_ok (refresh_displays output_name found d)"
    using assms by (auto simp: refresh_displays_def display_ok_def Let_def split: option.split dest: find_name_Some)
  assume "current_name d \<noteq> []" and mem: "current_name d \<in> set found"
  then have "found \<noteq> []" by auto
  moreover obtain i where "find_name (current_name d) found = Some i" using mem find_name_None by fastforce
  ultimately show "current_name (refresh_displays output_name found d) = current_name d"
    using \<open>current_name d \<noteq> []\<close>
    by (auto simp: refresh_displays_def Let_def current_name_pair dest: find_name_Some)
qed

section \<open>Pool: properties\<close>
lemma first_position_Some: "first_position P xs = Some i \<Longrightarrow> i < length xs \<and> P (xs ! i)"
  by (induction xs arbitrary: i) (auto split: if_splits)

lemma first_position_None: "first_position P xs = None \<longleftrightarrow> (\<forall>x \<in> set xs. \<not> P x)"
  by (induction xs) auto

lemma length_move_to_front [simp]: "i < length xs \<Longrightarrow> length (move_to_front i x xs) = length xs"
  by (simp add: move_to_front_def)

lemma mset_move_to_front: "i < length xs \<Longrightarrow> mset (move_to_front i x xs) = add_mset x (mset xs - {#xs ! i#})"
proof -
  assume i: "i < length xs"
  then have "mset xs = add_mset (xs ! i) (mset (take i xs @ drop (Suc i) xs))"
    by (metis append_take_drop_id Cons_nth_drop_Suc mset_append mset.simps(2) union_mset_add_mset_right)
  then show ?thesis by (simp add: move_to_front_def)
qed

lemma length_release [simp]: "length (release_images users n xs) = length xs"
  by (induction users n xs rule: release_images.induct) (auto split: option.split)

text \<open>Releasing never lets go of an image in use, and invents none.\<close>

lemma release_in_use: "Some i \<in> set xs \<Longrightarrow> users i > 0 \<Longrightarrow> Some i \<in> set (release_images users n xs)"
  by (induction users n xs rule: release_images.induct) (auto split: option.splits)

lemma release_subset: "Some i \<in> set (release_images users n xs) \<Longrightarrow> Some i \<in> set xs"
  by (induction users n xs rule: release_images.induct) (auto split: option.splits if_splits)

definition image_ids :: "nat option list \<Rightarrow> nat list" where
  "image_ids xs = concat (map (\<lambda>s. case s of Some i \<Rightarrow> [i] | None \<Rightarrow> []) xs)"

lemma set_image_ids: "i \<in> set (image_ids xs) \<longleftrightarrow> Some i \<in> set xs"
  by (auto simp: image_ids_def split: option.splits)

lemma image_ids_Cons [simp]: "image_ids (x # xs) = (case x of Some i \<Rightarrow> [i] | None \<Rightarrow> []) @ image_ids xs"
  by (simp add: image_ids_def)

lemma image_ids_append [simp]: "image_ids (xs @ ys) = image_ids xs @ image_ids ys"
  by (simp add: image_ids_def)

lemma image_ids_Nil [simp]: "image_ids [] = []"
  by (simp add: image_ids_def)

lemma image_ids_rev [simp]: "image_ids (rev xs) = rev (image_ids xs)"
  by (induction xs) (auto split: option.split)

lemma distinct_release: "distinct (image_ids xs) \<Longrightarrow> distinct (image_ids (release_images users n xs))"
proof (induction users n xs rule: release_images.induct)
  case (3 users n x xs)
  then show ?case
    by (auto simp: set_image_ids split: option.splits dest: release_subset)
qed simp_all

lemma length_release_used:
  "length (filter (\<lambda>s. s \<noteq> None) (release_images users n xs)) =
    length (filter (\<lambda>s. s \<noteq> None) xs) - min n (length (filter (\<lambda>s. case s of Some i \<Rightarrow> users i = 0 | None \<Rightarrow> False) xs))"
proof (induction users n xs rule: release_images.induct)
  case (3 users n x xs)
  have le: "length (filter (\<lambda>s. case s of Some i \<Rightarrow> users i = 0 | None \<Rightarrow> False) xs) \<le> length (filter (\<lambda>s. s \<noteq> None) xs)"
    by (induction xs) (auto split: option.splits)
  from 3 le show ?case by (auto split: option.split)
qed simp_all

lemma free_count:
  fixes users :: "nat \<Rightarrow> nat"
  shows "length (filter (\<lambda>s. case s of Some i \<Rightarrow> users i = 0 | None \<Rightarrow> False) xs) =
    length (filter (\<lambda>s. s \<noteq> None) xs) - length (filter (\<lambda>s. case s of Some i \<Rightarrow> users i > 0 | None \<Rightarrow> False) xs)"
proof -
  have "length (filter (\<lambda>s. case s of Some i \<Rightarrow> users i = 0 | None \<Rightarrow> False) xs) +
      length (filter (\<lambda>s. case s of Some i \<Rightarrow> users i > 0 | None \<Rightarrow> False) xs) = length (filter (\<lambda>s. s \<noteq> None) xs)"
    by (induction xs) (auto split: option.splits)
  then show ?thesis by linarith
qed

lemma trim_target_used: "used \<le> trim_target now used xs"
proof -
  have "used \<le> fold (\<lambda>i target. case xs ! i of Some t \<Rightarrow> if now - t < trim_timeout then i else target | None \<Rightarrow> target) is t0"
    if "\<forall>i \<in> set is. used \<le> i" "used \<le> t0" for "is" t0
    using that by (induction "is" arbitrary: t0) (auto split: option.split)
  then show ?thesis by (simp add: trim_target_def)
qed

text \<open>
  Trimming lets go of exactly the images beyond the most that were in use at once lately; no image in use is let go.
\<close>
theorem trim_exact:
  "allocated_count (trim_imgs now p) =
    min (allocated_count p) (trim_target now (used_count p) (stamp_used now (used_count p) (po_stamps p)))"
proof -
  let ?t = "trim_target now (used_count p) (stamp_used now (used_count p) (po_stamps p))"
  have used: "used_count p \<le> ?t" by (rule trim_target_used)
  have rev: "length (filter P (rev xs)) = length (filter P xs)" for P :: "nat option \<Rightarrow> bool" and xs
    by (simp add: rev_filter [symmetric])
  have "length (filter (\<lambda>s. s \<noteq> None) (rev (release_images (po_users p) n (rev (po_imgs p))))) =
      allocated_count p - min n (allocated_count p - used_count p)" for n
    by (simp only: rev length_release_used free_count allocated_count_def used_count_def)
  with used show ?thesis by (auto simp: trim_imgs_def Let_def allocated_count_def)
qed

lemma trim_keeps:
  "po_users (trim_imgs now p) = po_users p" "po_next (trim_imgs now p) = po_next p"
  "length (po_imgs (trim_imgs now p)) = length (po_imgs p)"
  by (simp_all add: trim_imgs_def Let_def)

lemma trim_images:
  "Some i \<in> set (po_imgs p) \<Longrightarrow> po_users p i > 0 \<Longrightarrow> Some i \<in> set (po_imgs (trim_imgs now p))"
  "Some i \<in> set (po_imgs (trim_imgs now p)) \<Longrightarrow> Some i \<in> set (po_imgs p)"
  "distinct (image_ids (po_imgs p)) \<Longrightarrow> distinct (image_ids (po_imgs (trim_imgs now p)))"
  by (auto simp: trim_imgs_def Let_def release_in_use distinct_release split: if_splits dest: release_subset)

definition pool_ok :: "pool \<Rightarrow> bool" where
  "pool_ok p \<longleftrightarrow> length (po_imgs p) = capture_buffer_size \<and> distinct (image_ids (po_imgs p)) \<and>
     (\<forall>i. Some i \<in> set (po_imgs p) \<longrightarrow> i < po_next p) \<and> (\<forall>i \<ge> po_next p. po_users p i = 0)"

lemma image_ids_move:
  assumes "k < length xs"
  shows "mset (image_ids (move_to_front k x xs)) = mset (image_ids [x]) + (mset (image_ids xs) - mset (image_ids [xs ! k]))"
proof -
  have xs: "xs = take k xs @ xs ! k # drop (Suc k) xs" using assms by (simp add: id_take_nth_drop)
  then have "image_ids xs = image_ids (take k xs) @ image_ids [xs ! k] @ image_ids (drop (Suc k) xs)"
    by (metis append_Cons append_Nil image_ids_append)
  then show ?thesis by (simp add: move_to_front_def)
qed

lemma set_move: "k < length xs \<Longrightarrow> set (move_to_front k x xs) \<subseteq> insert x (set xs)"
  by (auto simp: move_to_front_def dest: in_set_takeD in_set_dropD)

lemma set_move_other: "k < length xs \<Longrightarrow> y \<in> set xs \<Longrightarrow> y \<noteq> xs ! k \<Longrightarrow> y \<in> set (move_to_front k x xs)"
  by (metis id_take_nth_drop in_set_conv_decomp_first move_to_front_def set_ConsD Un_iff append_Cons list.set_intros set_append)

text \<open>The two ways to find an image: a free one of the pool, and a new one.\<close>

lemma pull_cases:
  assumes "pull_free_image alloc now p = (r, p')"
  obtains
    (old) k i where "r = Some i" "k < length (po_imgs p)" "po_imgs p ! k = Some i" "po_users p i = 0"
      "p' = trim_imgs now (p\<lparr> po_imgs := move_to_front k (Some i) (po_imgs p), po_users := (po_users p)(i := 1) \<rparr>)"
  | (fresh) k i where "r = Some i" "k < length (po_imgs p)" "po_imgs p ! k = None" "i = po_next p" "alloc"
      "p' = trim_imgs now (p\<lparr> po_imgs := move_to_front k (Some i) (po_imgs p), po_users := (po_users p)(i := 1), po_next := i + 1 \<rparr>)"
  | (failed) k where "r = None" "k < length (po_imgs p)" "po_imgs p ! k = None"
      "p' = p\<lparr> po_imgs := move_to_front k None (po_imgs p) \<rparr>"
  | (busy) "r = None" "p' = p" "\<forall>s \<in> set (po_imgs p). \<exists>i. s = Some i \<and> po_users p i > 0"
proof (cases "first_position (\<lambda>s. case s of Some i \<Rightarrow> po_users p i = 0 | None \<Rightarrow> False) (po_imgs p)")
  case (Some k)
  with assms first_position_Some [OF Some] show thesis
    by (intro old [of "the (po_imgs p ! k)" k]) (auto simp: pull_free_image_def Let_def split: option.splits)
next
  case None
  note free = None
  show thesis
  proof (cases "first_position (\<lambda>s. s = None) (po_imgs p)")
    case None
    with assms free show thesis
      by (intro busy) (auto simp: pull_free_image_def first_position_None split: option.splits)
  next
    case (Some k)
    note pos = first_position_Some [OF Some]
    show thesis
    proof (cases alloc)
      case True
      with assms free Some pos show thesis
        by (intro fresh [of "po_next p" k]) (auto simp: pull_free_image_def Let_def)
    next
      case False
      with assms free Some pos show thesis by (intro failed [of k]) (auto simp: pull_free_image_def)
    qed
  qed
qed

lemma pool_ok_moved:
  assumes "pool_ok p" "k < length (po_imgs p)" "x = po_imgs p ! k \<or> po_imgs p ! k = None \<and> x = Some (po_next p)"
  shows "distinct (image_ids (move_to_front k x (po_imgs p)))"
    "Some i \<in> set (move_to_front k x (po_imgs p)) \<Longrightarrow> i < po_next p \<or> x = Some i"
proof -
  let ?ids = "image_ids (po_imgs p)"
  have new: "po_next p \<notin> set ?ids" using assms(1) by (auto simp: pool_ok_def set_image_ids)
  have sub: "mset (image_ids [po_imgs p ! k]) \<subseteq># mset ?ids"
    using assms(2) by (auto simp: set_image_ids split: option.splits) (metis nth_mem)
  have "mset (image_ids (move_to_front k x (po_imgs p))) = (if x = po_imgs p ! k then mset ?ids else add_mset (po_next p) (mset ?ids))"
    using assms(3) sub by (auto simp: image_ids_move [OF assms(2)] simp del: image_ids_Cons) (auto simp: image_ids_def)
  then have "mset (image_ids (move_to_front k x (po_imgs p))) = mset ?ids \<or>
      mset (image_ids (move_to_front k x (po_imgs p))) = mset (po_next p # ?ids)" by (auto split: if_splits)
  moreover have "distinct ?ids" "distinct (po_next p # ?ids)" using assms(1) new by (auto simp: pool_ok_def)
  ultimately show "distinct (image_ids (move_to_front k x (po_imgs p)))"
    using mset_eq_imp_distinct_iff by metis
  show "Some i \<in> set (move_to_front k x (po_imgs p)) \<Longrightarrow> i < po_next p \<or> x = Some i"
    using set_move [OF assms(2), of x] assms(1) by (auto simp: pool_ok_def)
qed

lemma pool_ok_trim: "pool_ok p \<Longrightarrow> pool_ok (trim_imgs now p)"
  using trim_images(2) [of _ now p] trim_images(3) [of p now] unfolding pool_ok_def trim_keeps by blast

lemma pool_ok_pull:
  assumes "pool_ok p" "pull_free_image alloc now p = (r, p')"
  shows "pool_ok p'"
  using assms(2)
proof (cases rule: pull_cases)
  case (old k i)
  note m = pool_ok_moved [OF assms(1) old(2), of "Some i"]
  have "po_imgs p ! k \<in> set (po_imgs p)" using old(2) by simp
  with assms(1) old(3) have "i < po_next p" by (simp add: pool_ok_def)
  moreover have "distinct (image_ids (move_to_front k (Some i) (po_imgs p)))" by (rule m(1)) (simp add: old(3))
  moreover have "j < po_next p" if "Some j \<in> set (move_to_front k (Some i) (po_imgs p))" for j
    using m(2) [of j] that \<open>i < po_next p\<close> old(3) by auto
  moreover have "length (move_to_front k (Some i) (po_imgs p)) = length (po_imgs p)"
    using old(2) by (simp add: move_to_front_def)
  ultimately show ?thesis using assms(1) unfolding old(5) by (intro pool_ok_trim) (simp add: pool_ok_def)
next
  case (fresh k i)
  note m = pool_ok_moved [OF assms(1) fresh(2), of "Some i"]
  have "distinct (image_ids (move_to_front k (Some i) (po_imgs p)))" by (rule m(1)) (simp add: fresh(3,4))
  moreover have "j < Suc (po_next p)" if "Some j \<in> set (move_to_front k (Some i) (po_imgs p))" for j
    using m(2) [of j] that fresh(3,4) by auto
  moreover have "length (move_to_front k (Some i) (po_imgs p)) = length (po_imgs p)"
    using fresh(2) by (simp add: move_to_front_def)
  ultimately show ?thesis using assms(1) unfolding fresh(6) by (intro pool_ok_trim) (simp add: pool_ok_def fresh(4))
next
  case (failed k)
  note m = pool_ok_moved [OF assms(1) failed(2), of None]
  with assms(1) failed show ?thesis by (auto simp: pool_ok_def)
next
  case busy
  with assms(1) show ?thesis by simp
qed

lemma pool_ok_step: "pool_ok p \<Longrightarrow> image_pool_step e p = Some p' \<Longrightarrow> pool_ok p'"
proof (cases e)
  case (Pull alloc now)
  then show "pool_ok p \<Longrightarrow> image_pool_step e p = Some p' \<Longrightarrow> pool_ok p'"
    by (auto intro: pool_ok_pull [of p alloc now "fst (pull_free_image alloc now p)"] simp: prod_eq_iff)
next
  case Forget
  have "image_ids (map (\<lambda>_. None) xs) = []" for xs :: "nat option list" by (induction xs) auto
  with Forget show "pool_ok p \<Longrightarrow> image_pool_step e p = Some p' \<Longrightarrow> pool_ok p'" by (auto simp: pool_ok_def)
qed (auto simp: pool_ok_def split: if_splits)

lemma pool_reachable_ok: "pool_reachable p \<Longrightarrow> pool_ok p"
proof (induction rule: pool_reachable.induct)
  case new
  have "image_ids (replicate n None) = []" for n by (induction n) auto
  then show ?case by (simp add: pool_ok_def pool_new_def)
qed (rule pool_ok_step)

text \<open>
  In every reachable state an image that the capture pulls is held by nobody else, is then held once, and stays in
  the pool; no other image that is in use leaves the pool; and the pool has twelve places, with no image in two of them.
\<close>
theorem pulled_image_exclusive:
  assumes "pool_reachable p" "pull_free_image alloc now p = (Some i, p')"
  shows "po_users p i = 0" "po_users p' i = 1" "Some i \<in> set (po_imgs p')"
    "j \<noteq> i \<Longrightarrow> Some j \<in> set (po_imgs p) \<Longrightarrow> po_users p j > 0 \<Longrightarrow> Some j \<in> set (po_imgs p') \<and> po_users p' j = po_users p j"
    "length (po_imgs p') = 12" "distinct (image_ids (po_imgs p'))"
proof -
  have ok: "pool_ok p" by (rule pool_reachable_ok [OF assms(1)])
  from pool_ok_pull [OF ok assms(2)] show "length (po_imgs p') = 12" "distinct (image_ids (po_imgs p'))"
    by (simp_all add: pool_ok_def capture_buffer_size_def)
  from assms(2) show "po_users p i = 0"
    by (cases rule: pull_cases) (use ok in \<open>auto simp: pool_ok_def\<close>)
  have front: "x \<in> set (move_to_front k x xs)" for k x and xs :: "nat option list" by (simp add: move_to_front_def)
  from assms(2) show "po_users p' i = 1" by (cases rule: pull_cases) (auto simp: trim_keeps)
  from assms(2) show "Some i \<in> set (po_imgs p')" by (cases rule: pull_cases) (auto intro!: trim_images(1) simp: front)
  show "Some j \<in> set (po_imgs p') \<and> po_users p' j = po_users p j"
    if "j \<noteq> i" "Some j \<in> set (po_imgs p)" "po_users p j > 0"
    using assms(2) by (cases rule: pull_cases) (use that in \<open>auto intro!: trim_images(1) set_move_other simp: trim_keeps\<close>)
qed

section \<open>Sessions: properties\<close>

text \<open>
  A captured image reaches exactly the running sessions that capture already; stopped sessions are dropped, and the
  sessions of the queue join, in order, after the image was handed out.
\<close>
theorem image_reaches_running_sessions:
  assumes "push_captured_image (Some img) s = ((goes_on, switched), s')" "queue_running (ca_queue s)"
  shows "ca_ctxs s' = filter (\<lambda>c. event_running (ca_images s c)) (ca_ctxs s) @ q_items (ca_queue s)"
    "c \<in> set (ca_ctxs s) \<Longrightarrow> event_running (ca_images s c) \<Longrightarrow> ev_status (ca_images s' c) = Some img"
    "c \<notin> set (ca_ctxs s) \<or> \<not> event_running (ca_images s c) \<Longrightarrow> ca_images s' c = ca_images s c"
    "q_items (ca_queue s') = []" "switched \<longleftrightarrow> ca_switch s \<noteq> None" "goes_on \<longleftrightarrow> ca_switch s = None"
  using assms
  by (auto simp: push_captured_image_def push_to_sessions_def Let_def event_defs queue_running_def split: if_splits)

text \<open>
  When the display changes while every session that captured has stopped, the thread reads the configuration of
  the first session of an empty list, even when another session waits in the queue.
\<close>
theorem reinit_without_session:
  assumes "\<And>c. c \<in> set (ca_ctxs s) \<Longrightarrow> \<not> event_running (ca_images s c)"
  shows "reinit_round output_name found d (discard_images s) = None"
  using assms by (simp add: reinit_round_def discard_images_def Let_def)

theorem reinit_without_session_witness:
  "\<exists>s. ca_queue s = \<lparr> q_continue = True, q_max = 30, q_items = [1] \<rparr> \<and>
    reinit_round [] [[65]] ([[65]], 0) (discard_images s) = None"
proof -
  let ?s = "\<lparr> ca_ctxs = [0], ca_images = (\<lambda>_. event_stop event_new), ca_queue = \<lparr> q_continue = True, q_max = 30, q_items = [1] \<rparr>,
    ca_switch = None \<rparr>"
  have "reinit_round [] [[65]] ([[65]], 0) (discard_images ?s) = None"
    by (rule reinit_without_session) (simp add: event_defs)
  then show ?thesis by (intro exI [of _ ?s]) simp
qed

text \<open>When the thread ends, no session is left that waits for an image for ever.\<close>

lemma finished_stops_all:
  "c \<in> set (ca_ctxs s) \<union> set (q_items (ca_queue s)) \<Longrightarrow> \<not> event_running (ca_images (capture_finished s) c)"
  by (simp add: capture_finished_def event_defs)

theorem refresh_keeps_display_witness:
  "current_name (refresh_displays [] [[66], [65]] ([[65], [67]], 0)) = [65]"
  using refresh_keeps_display (2) [of "([[65], [67]], 0)" "[[66], [65]]" "[]"]
  by (simp add: display_ok_def current_name_pair)

theorem pulled_image_exclusive_witness:
  "\<exists>p'. pull_free_image True 5 pool_new = (Some 0, p') \<and> po_users p' 0 = 1"
proof -
  obtain p' where p': "pull_free_image True 5 pool_new = (Some 0, p')"
    by (simp add: pull_free_image_def pool_new_def capture_buffer_size_def Let_def numeral_eq_Suc)
  from pulled_image_exclusive (2) [OF pool_reachable.new p'] p' show ?thesis by blast
qed

end
