(* ===== verification/Audio_Capture.thy ===== *)
theory Audio_Capture
  imports Rtsp_Commands Config "HOL-Library.Sublist"
begin

text \<open>
  Audio of a session in \<open>src/audio.cpp\<close>: the Opus stream, the context that sessions share with the sink of the
  host (\<open>start_audio_control\<close> and \<open>stop_audio_control\<close>), the choice of the sink, and the two threads that
  capture and encode. The backend of the platform and Opus are parameters.
\<close>

section \<open>The Opus stream\<close>

definition map_stream :: "int \<Rightarrow> bool \<Rightarrow> nat" where
  "map_stream channels quality =
     (let shift = if quality then 1 else 0
      in if channels = 2 then 0 + shift else if channels = 6 then 2 + shift else if channels = 8 then 4 + shift else 0)"

definition apply_surround_params :: "stream_params \<Rightarrow> opus_stream_config \<Rightarrow> opus_stream_config" where
  "apply_surround_params p st =
     st\<lparr> op_channelCount := nat (sp_channelCount p), op_streams := nat (sp_streams p),
         op_coupledStreams := nat (sp_coupledStreams p), op_mapping := map unat (sp_mapping p) \<rparr>"

definition audio_stream :: "audio_config \<Rightarrow> opus_stream_config" where
  "audio_stream a =
     (let st = stream_configs ! map_stream (au_channels a) (au_HIGH_QUALITY a)
      in if au_CUSTOM_SURROUND_PARAMS a then apply_surround_params (au_customStreamParams a) st else st)"

text \<open>Samples of a frame, in \<open>int\<close> and, with all channels, again in \<open>int\<close>.\<close>

definition SAMPLE_RATE :: int where "SAMPLE_RATE = 48000"

definition frame_size :: "audio_config \<Rightarrow> int" where
  "frame_size a = trunc_div (to_int (au_packetDuration a * SAMPLE_RATE)) 1000"

definition samples_per_frame :: "audio_config \<Rightarrow> int" where
  "samples_per_frame a = to_int (frame_size a * int (op_channelCount (audio_stream a)))"

section \<open>The audio context\<close>

record null_sinks =
  ns_stereo :: bytes
  ns_surround51 :: bytes
  ns_surround71 :: bytes

record sink_names =
  si_host :: bytes
  si_null :: "null_sinks option"

record audio_ctx =
  ac_sink_flag :: bool
  ac_control :: bool
  ac_restore_sink :: bool
  ac_sink :: sink_names

text \<open>\<open>control\<close>: the platform has an audio control; \<open>info\<close>: what its \<open>sink_info\<close> answers.\<close>

definition start_audio_control :: "bool \<Rightarrow> sink_names option \<Rightarrow> audio_ctx" where
  "start_audio_control control info =
     (let c = \<lparr> ac_sink_flag = False, ac_control = control, ac_restore_sink = False,
                ac_sink = \<lparr> si_host = [], si_null = None \<rparr> \<rparr>
      in if \<not> control then c
         else case info of None \<Rightarrow> c\<lparr> ac_control := False \<rparr> | Some s \<Rightarrow> c\<lparr> ac_sink := s \<rparr>)"

text \<open>The sink that is set when the context ends, if any.\<close>

definition restored_sink :: "bytes \<Rightarrow> audio_ctx \<Rightarrow> bytes" where
  "restored_sink configured c = (if si_host (ac_sink c) = [] then configured else si_host (ac_sink c))"

definition stop_audio_control :: "bytes \<Rightarrow> audio_ctx \<Rightarrow> bytes option" where
  "stop_audio_control configured c =
     (if \<not> ac_restore_sink c then None
      else if restored_sink configured c \<noteq> [] then Some (restored_sink configured c) else None)"

definition is_audio_ctx_sink_available :: "(bytes \<Rightarrow> bool) \<Rightarrow> bytes \<Rightarrow> audio_ctx \<Rightarrow> bool" where
  "is_audio_ctx_sink_available is_available configured c =
     (if \<not> ac_control c then False
      else if restored_sink configured c = [] then False else is_available (restored_sink configured c))"

definition chosen_sink :: "bytes \<Rightarrow> audio_config \<Rightarrow> sink_names \<Rightarrow> bytes" where
  "chosen_sink configured a s =
     (let sink = (if configured \<noteq> [] then configured else si_host s)
      in case si_null s of
           Some null \<Rightarrow>
             if \<not> au_HOST_AUDIO a \<or> sink = [] then
               let n = op_channelCount (audio_stream a)
               in if n = 2 then ns_stereo null else if n = 6 then ns_surround51 null
                  else if n = 8 then ns_surround71 null else sink
             else sink
         | None \<Rightarrow> sink)"

text \<open>
  The first session of a context sets the sink: whether the session goes on, the sink that is set, and the context.
  \<open>accepts\<close> is the answer of the platform.
\<close>

definition claim_sink :: "(bytes \<Rightarrow> bool) \<Rightarrow> bytes \<Rightarrow> audio_ctx \<Rightarrow> bool \<times> bytes option \<times> audio_ctx" where
  "claim_sink accepts sink c =
     (if ac_sink_flag c then (True, None, c)
      else
        let c1 = c\<lparr> ac_sink_flag := True, ac_restore_sink := si_host (ac_sink c) \<noteq> sink \<rparr>
        in if ac_restore_sink c1
           then if accepts sink then (True, Some sink, c1) else (False, None, c1)
           else (True, None, c1))"

section \<open>Sessions and the sink of the host\<close>

text \<open>
  Who holds the context (sessions, and the display settings while they wait), the context while someone does, and the
  sink that the host plays on.
\<close>

record audio_host =
  ah_holders :: "nat list"
  ah_ctx :: "audio_ctx option"
  ah_sink :: bytes

text \<open>
  The platform: whether there is a control, the virtual sinks it reports beside the sink that the host plays on, and the
  sinks it can set.
\<close>

record audio_platform =
  ap_control :: bool
  ap_null :: "null_sinks option"
  ap_accepts :: "bytes \<Rightarrow> bool"

text \<open>\<open>get_audio_ctx_ref\<close>: the context is made for its first holder.\<close>

definition hold_ctx :: "audio_platform \<Rightarrow> nat \<Rightarrow> audio_host \<Rightarrow> audio_ctx \<times> audio_host" where
  "hold_ctx p i h =
     (let c = (case ah_ctx h of
            Some c \<Rightarrow> c
          | None \<Rightarrow> start_audio_control (ap_control p) (Some \<lparr> si_host = ah_sink h, si_null = ap_null p \<rparr>))
      in (c, h\<lparr> ah_holders := i # ah_holders h, ah_ctx := Some c \<rparr>))"

text \<open>The part of \<open>capture\<close> that takes the context and sets the sink; whether it comes to the microphone.\<close>

definition begin_capture :: "audio_platform \<Rightarrow> bytes \<Rightarrow> audio_config \<Rightarrow> nat \<Rightarrow> audio_host \<Rightarrow> bool \<times> audio_host" where
  "begin_capture p configured a i h =
     (let (c, h1) = hold_ctx p i h
      in if \<not> ac_control c then (False, h1)
         else
           let (ok, call, c1) = claim_sink (ap_accepts p) (chosen_sink configured a (ac_sink c)) c
           in (ok, h1\<lparr> ah_ctx := Some c1, ah_sink := (case call of Some s \<Rightarrow> s | None \<Rightarrow> ah_sink h1) \<rparr>))"

definition drop_ctx :: "audio_platform \<Rightarrow> bytes \<Rightarrow> nat \<Rightarrow> audio_host \<Rightarrow> audio_host" where
  "drop_ctx p configured i h =
     (let left = remove1 i (ah_holders h)
      in if left \<noteq> [] then h\<lparr> ah_holders := left \<rparr>
         else h\<lparr> ah_holders := [], ah_ctx := None,
                 ah_sink := (case ah_ctx h of
                     Some c \<Rightarrow> (case stop_audio_control configured c of
                         Some s \<Rightarrow> if ap_accepts p s then s else ah_sink h
                       | None \<Rightarrow> ah_sink h)
                   | None \<Rightarrow> ah_sink h) \<rparr>)"

datatype audio_event = Session_Begins audio_config nat | Display_Holds nat | Holder_Leaves nat

fun audio_host_step :: "audio_platform \<Rightarrow> bytes \<Rightarrow> audio_event \<Rightarrow> audio_host \<Rightarrow> audio_host" where
  "audio_host_step p configured (Session_Begins a i) h = snd (begin_capture p configured a i h)"
| "audio_host_step p configured (Display_Holds i) h = snd (hold_ctx p i h)"
| "audio_host_step p configured (Holder_Leaves i) h = (if i \<in> set (ah_holders h) then drop_ctx p configured i h else h)"

definition audio_host_run :: "audio_platform \<Rightarrow> bytes \<Rightarrow> audio_event list \<Rightarrow> audio_host \<Rightarrow> audio_host" where
  "audio_host_run p configured es h = fold (audio_host_step p configured) es h"

definition audio_host_new :: "bytes \<Rightarrow> audio_host" where
  "audio_host_new sink = \<lparr> ah_holders = [], ah_ctx = None, ah_sink = sink \<rparr>"

section \<open>The threads of a session\<close>

text \<open>
  What the microphone answers: samples, nothing in time, that it has to be opened again, or an error; and, while it is
  opened again, whether it opens.
\<close>

datatype 'f mic_answer = Mic_Ok "nat \<Rightarrow> 'f" | Mic_Timeout | Mic_Reinit | Mic_Failed | Mic_Opened bool

text \<open>
  The queue of samples between the threads, the queue of packets that all sessions share, the shutdown event, and
  where the two threads are. \<open>ar_captured\<close> and \<open>ar_encoded\<close> are the buffers that the threads have seen.
\<close>

record 'f audio_run =
  ar_samples :: "'f list queue_t"
  ar_packets :: "(nat \<times> bytes) queue_t"
  ar_shutdown :: bool
  ar_mic :: bool
  ar_capturing :: bool
  ar_encoding :: bool
  ar_captured :: "'f list list"
  ar_encoded :: "'f list list"

definition audio_run_new :: "(nat \<times> bytes) queue_t \<Rightarrow> 'f audio_run" where
  "audio_run_new packets = \<lparr> ar_samples = queue_new 30, ar_packets = packets, ar_shutdown = False, ar_mic = True,
     ar_capturing = True, ar_encoding = True, ar_captured = [], ar_encoded = [] \<rparr>"

definition end_capture :: "'f audio_run \<Rightarrow> 'f audio_run" where
  "end_capture r = r\<lparr> ar_capturing := False, ar_samples := queue_stop (ar_samples r) \<rparr>"

text \<open>One round of the loop of \<open>capture\<close>, or one try to open the microphone again.\<close>

definition capture_round :: "nat \<Rightarrow> 'f mic_answer \<Rightarrow> 'f audio_run \<Rightarrow> 'f audio_run option" where
  "capture_round n answer r =
     (if \<not> ar_capturing r then None
      else if \<not> ar_mic r then
        (case answer of
           Mic_Opened True \<Rightarrow> Some (r\<lparr> ar_mic := True \<rparr>)
         | Mic_Opened False \<Rightarrow> Some (if ar_shutdown r then end_capture r else r)
         | _ \<Rightarrow> None)
      else if ar_shutdown r then Some (end_capture r)
      else
        (case answer of
           Mic_Ok f \<Rightarrow>
             let buffer = map f [0..<n]
             in Some (r\<lparr> ar_samples := queue_raise buffer (ar_samples r), ar_captured := ar_captured r @ [buffer] \<rparr>)
         | Mic_Timeout \<Rightarrow> Some r
         | Mic_Reinit \<Rightarrow> Some (r\<lparr> ar_mic := False \<rparr>)
         | Mic_Failed \<Rightarrow> Some (end_capture r)
         | Mic_Opened _ \<Rightarrow> None))"

text \<open>One round of \<open>encodeThread\<close>; \<open>None\<close> while it waits. \<open>opus\<close> gives the packet, or fails.\<close>

definition encode_round :: "('f list \<Rightarrow> bytes option) \<Rightarrow> nat \<Rightarrow> 'f audio_run \<Rightarrow> 'f audio_run option" where
  "encode_round opus chan r =
     (if \<not> ar_encoding r then None
      else
        case queue_pop (ar_samples r) of
          None \<Rightarrow> None
        | Some (None, q) \<Rightarrow> Some (r\<lparr> ar_samples := q, ar_encoding := False \<rparr>)
        | Some (Some s, q) \<Rightarrow>
            (case opus s of
               None \<Rightarrow> Some (r\<lparr> ar_samples := q, ar_packets := queue_stop (ar_packets r), ar_encoding := False \<rparr>)
             | Some packet \<Rightarrow> Some (r\<lparr> ar_samples := q, ar_packets := queue_raise (chan, packet) (ar_packets r),
                 ar_encoded := ar_encoded r @ [s] \<rparr>)))"

inductive audio_reach :: "('f list \<Rightarrow> bytes option) \<Rightarrow> nat \<Rightarrow> nat \<Rightarrow> 'f audio_run \<Rightarrow> bool"
  for opus chan n where
  start: "queue_wf packets \<Longrightarrow> audio_reach opus chan n (audio_run_new packets)"
| capture: "audio_reach opus chan n r \<Longrightarrow> capture_round n answer r = Some r' \<Longrightarrow> audio_reach opus chan n r'"
| encode: "audio_reach opus chan n r \<Longrightarrow> encode_round opus chan r = Some r' \<Longrightarrow> audio_reach opus chan n r'"
| shutdown: "audio_reach opus chan n r \<Longrightarrow> audio_reach opus chan n (r\<lparr> ar_shutdown := True \<rparr>)"
| others: "audio_reach opus chan n r \<Longrightarrow> queue_wf packets \<Longrightarrow> audio_reach opus chan n (r\<lparr> ar_packets := packets \<rparr>)"

text \<open>The buffer of a frame; \<open>None\<close> is a size that no vector can have.\<close>

definition buffer_size :: "audio_config \<Rightarrow> nat option" where
  "buffer_size a = (if samples_per_frame a < 0 then None else Some (nat (samples_per_frame a)))"

section \<open>The stream: properties\<close>

lemma speaker_mapping_valid: "speaker_mapping c ds = (ms, True) \<Longrightarrow> length ms = length ds \<and> (\<forall>m \<in> set ms. m < c)"
  by (induction c ds arbitrary: ms rule: speaker_mapping.induct) (auto split: if_splits prod.splits)

definition layout_ok :: "opus_stream_config \<Rightarrow> bool" where
  "layout_ok st \<longleftrightarrow> op_channelCount st \<in> {2, 6, 8} \<and> op_streams st + op_coupledStreams st = op_channelCount st \<and>
     length (op_mapping st) = op_channelCount st \<and> (\<forall>m \<in> set (op_mapping st). m < op_channelCount st)"

lemma standard_layout: "layout_ok (stream_configs ! map_stream channels quality)"
  by (simp add: map_stream_def Let_def layout_ok_def stream_configs_def)

lemma custom_layout:
  assumes "au_CUSTOM_SURROUND_PARAMS (custom_surround params a)"
  shows "layout_ok (apply_surround_params (au_customStreamParams (custom_surround params a)) st)"
proof -
  let ?c = "params ! 0 - 0x30" and ?n = "params ! 1 - 0x30" and ?m = "params ! 2 - 0x30"
  from assms have c: "?c = 6 \<or> ?c = 8" "uint ?n + uint ?m = uint ?c" "length params = unat ?c + 3"
    and v: "snd (speaker_mapping ?c (drop 3 params))"
    by (auto simp: custom_surround_def Let_def split: if_splits prod.splits)
  obtain ms where ms: "speaker_mapping ?c (drop 3 params) = (ms, True)" using v by (metis prod.collapse)
  from speaker_mapping_valid [OF ms] c(3) have l: "length ms = unat ?c" "\<forall>m \<in> set ms. m < ?c" by simp_all
  from assms c have "au_customStreamParams (custom_surround params a) =
      \<lparr> sp_channelCount = uint ?c, sp_streams = uint ?n, sp_coupledStreams = uint ?m, sp_mapping = ms \<rparr>"
    by (auto simp: custom_surround_def Let_def ms split: if_splits)
  moreover from c(1) have "unat ?c = 6 \<or> unat ?c = 8" by auto
  moreover have "unat ?n + unat ?m = unat ?c" using c(2) by (simp flip: nat_uint_eq add: nat_add_distrib [symmetric])
  ultimately show ?thesis using l by (auto simp: layout_ok_def apply_surround_params_def word_less_nat_alt)
qed

lemma announced_layout:
  assumes "\<not> au_CUSTOM_SURROUND_PARAMS a"
  shows "layout_ok (audio_stream (announce_audio session req a))"
  using assms standard_layout custom_layout
  by (auto simp: audio_stream_def announce_audio_def Let_def)

text \<open>
  Whatever surround parameters a client sends, Opus gets two, six or eight channels, as many streams as channels,
  and a speaker for every channel. Without host audio the sink that is chosen is the virtual sink of those channels.
\<close>
theorem announced_stream_fits:
  assumes "\<not> au_CUSTOM_SURROUND_PARAMS a"
  shows "layout_ok (audio_stream (announce_audio session req a))"
    "\<not> au_HOST_AUDIO a \<Longrightarrow> si_null s = Some null \<Longrightarrow>
      chosen_sink configured (announce_audio session req a) s =
        (let n = op_channelCount (audio_stream (announce_audio session req a))
         in if n = 2 then ns_stereo null else if n = 6 then ns_surround51 null else ns_surround71 null)"
proof -
  let ?st = "audio_stream (announce_audio session req a)"
  show l: "layout_ok ?st" by (rule announced_layout [OF assms])
  assume "\<not> au_HOST_AUDIO a" "si_null s = Some null"
  moreover have "au_HOST_AUDIO (announce_audio session req a) = au_HOST_AUDIO a"
    by (simp add: announce_audio_def custom_surround_def Let_def split: prod.split)
  ultimately show "chosen_sink configured (announce_audio session req a) s =
      (let n = op_channelCount ?st in if n = 2 then ns_stereo null else if n = 6 then ns_surround51 null else ns_surround71 null)"
    using l by (auto simp: chosen_sink_def Let_def layout_ok_def)
qed

text \<open>
  The parameters may ask for more coupled streams than streams, which Opus refuses: the encoder is null and is used.
\<close>
theorem layout_without_streams:
  "let a = custom_surround (ascii ''606012345'') (stereo\<lparr> au_channels := 6 \<rparr>)
   in au_CUSTOM_SURROUND_PARAMS a \<and> op_streams (audio_stream a) = 0 \<and> op_coupledStreams (audio_stream a) = 6"
  by (simp add: custom_surround_def ascii_def stereo_def audio_stream_def apply_surround_params_def Let_def
      word_le_nat_alt)

section \<open>The sink: properties\<close>

definition sink_inv :: "bytes \<Rightarrow> audio_host \<Rightarrow> bool" where
  "sink_inv sink h \<longleftrightarrow>
     (case ah_ctx h of
        None \<Rightarrow> ah_holders h = [] \<and> ah_sink h = sink
      | Some c \<Rightarrow> ah_holders h \<noteq> [] \<and> (ac_control c \<longrightarrow> si_host (ac_sink c) = sink) \<and>
          (if ac_restore_sink c then ac_control c \<and> ac_sink_flag c else ah_sink h = sink))"

lemma hold_inv:
  assumes "sink_inv sink h" "hold_ctx p i h = (c, h')"
  shows "sink_inv sink h'" "ah_ctx h' = Some c" "ah_sink h' = ah_sink h" "ah_holders h' = i # ah_holders h"
  using assms by (auto simp: sink_inv_def hold_ctx_def start_audio_control_def Let_def split: option.splits if_splits)

lemma begin_inv:
  assumes "sink_inv sink h"
  shows "sink_inv sink (snd (begin_capture p configured a i h))"
proof -
  obtain c h1 where h: "hold_ctx p i h = (c, h1)" by fastforce
  from hold_inv [OF assms h] show ?thesis
    by (auto simp: begin_capture_def h sink_inv_def claim_sink_def Let_def split: prod.splits)
qed

lemma drop_inv:
  assumes "sink_inv sink h" "sink \<noteq> []" "ap_accepts p sink"
  shows "sink_inv sink (drop_ctx p configured i h)"
  using assms by (auto simp: sink_inv_def drop_ctx_def stop_audio_control_def restored_sink_def Let_def split: option.splits if_splits)

lemma host_run_inv:
  assumes "sink_inv sink h" "sink \<noteq> []" "ap_accepts p sink"
  shows "sink_inv sink (audio_host_run p configured es h)"
  using assms(1)
proof (induction es arbitrary: h)
  case (Cons e es)
  have "sink_inv sink (audio_host_step p configured e h)"
    using begin_inv [OF Cons.prems] hold_inv(1) [OF Cons.prems prod.collapse [symmetric]] drop_inv [OF Cons.prems assms(2,3)] Cons.prems
    by (cases e) simp_all
  from Cons.IH [OF this] show ?case by (simp add: audio_host_run_def)
qed (simp add: audio_host_run_def)

text \<open>
  Whatever sessions begin and end in whatever order: when nobody holds the audio context any more, the host plays
  on the sink it played on before, provided that the platform can set that sink.
\<close>
theorem host_sink_restored:
  assumes "sink \<noteq> []" "ap_accepts p sink"
    and "ah_holders (audio_host_run p configured es (audio_host_new sink)) = []"
  shows "ah_sink (audio_host_run p configured es (audio_host_new sink)) = sink"
proof -
  have "sink_inv sink (audio_host_new sink)" by (simp add: sink_inv_def audio_host_new_def)
  from host_run_inv [OF this assms(1,2), of configured es] assms(3) show ?thesis
    by (auto simp: sink_inv_def split: option.splits)
qed

text \<open>
  When the platform cannot set the sink for the first session, the flag stays set: the sessions that come while the
  context lives go on with the wrong sink.
\<close>
theorem failed_sink_not_retried:
  assumes "ah_ctx h = None" "ap_control p"
    and "chosen_sink configured a \<lparr> si_host = ah_sink h, si_null = ap_null p \<rparr> \<noteq> ah_sink h"
    and "\<not> ap_accepts p (chosen_sink configured a \<lparr> si_host = ah_sink h, si_null = ap_null p \<rparr>)"
  shows "\<exists>h1 h2. begin_capture p configured a i h = (False, h1) \<and> begin_capture p' configured a' j h1 = (True, h2) \<and>
    ah_sink h2 = ah_sink h"
  using assms by (auto simp: begin_capture_def hold_ctx_def start_audio_control_def claim_sink_def Let_def)

section \<open>The threads: properties\<close>

definition run_inv :: "nat \<Rightarrow> 'f audio_run \<Rightarrow> bool" where
  "run_inv n r \<longleftrightarrow>
     q_max (ar_samples r) = 30 \<and> length (q_items (ar_samples r)) \<le> 30 \<and>
     q_continue (ar_samples r) = ar_capturing r \<and>
     subseq (ar_encoded r @ q_items (ar_samples r)) (ar_captured r) \<and> (\<forall>s \<in> set (ar_captured r). length s = n)"

lemma subseq_skip: "subseq (xs @ y # ys) zs \<Longrightarrow> subseq (xs @ ys) zs"
  by (rule subseq_order.order_trans [of _ "xs @ y # ys"]) (simp_all add: subseq_append' list_emb_Cons)

lemma subseq_front: "subseq (xs @ ys) zs \<Longrightarrow> subseq xs zs"
  by (metis subseq_order.order_trans subseq_rev_drop_many subseq_order.order_refl)

lemma subseq_put: "subseq (xs @ ys) zs \<Longrightarrow> subseq (xs @ [y]) (zs @ [y])" "subseq (xs @ ys) zs \<Longrightarrow> subseq (xs @ ys @ [y]) (zs @ [y])"
proof -
  assume a: "subseq (xs @ ys) zs"
  have "subseq xs (xs @ ys)" by (simp add: subseq_rev_drop_many)
  with a have "subseq xs zs" by (metis subseq_order.order_trans)
  then show "subseq (xs @ [y]) (zs @ [y])" by simp
  from a show "subseq (xs @ ys @ [y]) (zs @ [y])" using subseq_append [of "xs @ ys" "[y]" zs] by simp
qed

lemma capture_inv: "run_inv n r \<Longrightarrow> capture_round n answer r = Some r' \<Longrightarrow> run_inv n r'"
  by (auto simp: run_inv_def capture_round_def end_capture_def queue_defs Let_def
      intro: subseq_put subseq_front split: mic_answer.splits if_splits bool.splits)

lemma encode_inv: "run_inv n r \<Longrightarrow> encode_round opus chan r = Some r' \<Longrightarrow> run_inv n r'"
  by (auto simp: run_inv_def encode_round_def queue_defs split: option.splits if_splits list.splits
      elim!: subseq_skip)

lemma audio_reach_inv: "audio_reach opus chan n r \<Longrightarrow> run_inv n r"
proof (induction rule: audio_reach.induct)
  case (start packets)
  then show ?case by (simp add: run_inv_def audio_run_new_def queue_new_def)
next
  case (capture r answer r')
  then show ?case by (blast intro: capture_inv)
next
  case (encode r r')
  then show ?case by (blast intro: encode_inv)
qed (simp_all add: run_inv_def)

text \<open>
  In every reachable state the buffers that were encoded, and those that wait, are captured ones in the order of
  their capture, none twice; every one has the size of a frame, and at most thirty wait.
\<close>
theorem audio_samples_in_order:
  assumes "audio_reach opus chan n r"
  shows "subseq (ar_encoded r @ q_items (ar_samples r)) (ar_captured r)" "\<forall>s \<in> set (ar_captured r). length s = n"
    "length (q_items (ar_samples r)) \<le> 30"
  using audio_reach_inv [OF assms] by (simp_all add: run_inv_def)

text \<open>
  After the shutdown both threads end: a round of the capture brings it nearer to its end (twice when it has just
  opened the microphone), whatever the microphone answers; and when it has ended the encoder ends in its next round.
\<close>
theorem audio_threads_end:
  assumes "audio_reach opus chan n r"
  shows "ar_shutdown r \<Longrightarrow> capture_round n answer r = Some r' \<Longrightarrow>
      ar_shutdown r' \<and> (\<not> ar_capturing r' \<or> \<not> ar_mic r \<and> ar_mic r')"
    "\<not> ar_capturing r \<Longrightarrow> ar_encoding r \<Longrightarrow> \<exists>r'. encode_round opus chan r = Some r' \<and> \<not> ar_encoding r'"
  using audio_reach_inv [OF assms]
  by (auto simp: capture_round_def end_capture_def encode_round_def queue_pop_def run_inv_def Let_def
      split: mic_answer.splits bool.splits if_splits)

text \<open>
  When Opus fails for one session the queue of packets of all sessions is stopped: nothing that any session raises
  comes through, and the thread that sends audio ends.
\<close>
theorem encode_failure_stops_all:
  assumes "encode_round opus chan r = Some r'" "ar_encoding r" "queue_pop (ar_samples r) = Some (Some s, q)" "opus s = None"
  shows "\<not> ar_encoding r'" "queue_raise x (ar_packets r') = ar_packets r'" "queue_pop (ar_packets r') = Some (None, ar_packets r')"
  using assms by (auto simp: encode_round_def queue_defs)

text \<open>A negative duration makes a negative size, which \<open>resize\<close> takes for a huge one.\<close>

lemma negative_duration:
  assumes "- 1000 \<le> au_packetDuration a" "au_packetDuration a < 0" "layout_ok (audio_stream a)"
  shows "buffer_size a = None"
proof -
  let ?d = "au_packetDuration a"
  have small: "to_int x = x" if "- 100000000 \<le> x" "x \<le> 100000000" for x
    using that by (simp add: to_int_def sint_sbintrunc' signed_take_bit_int_eq_self)
  have "to_int (?d * SAMPLE_RATE) = ?d * 48000" using assms(1,2) by (simp add: SAMPLE_RATE_def small)
  then have fs: "frame_size a = ?d * 48" using assms(2) by (simp add: frame_size_def trunc_div_def)
  from assms(3) have "int (op_channelCount (audio_stream a)) \<in> {2, 6, 8}" by (auto simp: layout_ok_def)
  with fs assms(1,2) show ?thesis by (auto simp: buffer_size_def samples_per_frame_def small)
qed

section \<open>Witnesses\<close>

definition one_sink :: audio_platform where
  "one_sink = \<lparr> ap_control = True, ap_null = Some \<lparr> ns_stereo = [1], ns_surround51 = [2], ns_surround71 = [3] \<rparr>,
     ap_accepts = (\<lambda>s. s \<noteq> [2]) \<rparr>"

definition surround_audio :: audio_config where
  "surround_audio = stereo\<lparr> au_channels := 6, au_HOST_AUDIO := False \<rparr>"

definition quiet_stereo :: audio_config where
  "quiet_stereo = stereo\<lparr> au_HOST_AUDIO := False \<rparr>"

lemmas sink_sample_defs = one_sink_def surround_audio_def quiet_stereo_def stereo_def audio_stream_def map_stream_def
  stream_configs_def chosen_sink_def begin_capture_def hold_ctx_def start_audio_control_def claim_sink_def
  audio_host_run_def audio_host_new_def drop_ctx_def stop_audio_control_def restored_sink_def Let_def

theorem announced_stream_fits_witness:
  "\<forall>session req. layout_ok (audio_stream (announce_audio session req surround_audio))"
  by (intro allI announced_stream_fits(1)) (simp add: surround_audio_def stereo_def)

theorem host_sink_restored_witness:
  "let es = [Display_Holds 9, Session_Begins quiet_stereo 1, Session_Begins surround_audio 2, Holder_Leaves 9]
   in ah_sink (audio_host_run one_sink [] es (audio_host_new [7])) = [1] \<and>
     ah_sink (audio_host_run one_sink [] (es @ [Holder_Leaves 1, Holder_Leaves 2]) (audio_host_new [7])) = [7]"
proof -
  let ?es = "[Display_Holds 9, Session_Begins quiet_stereo 1, Session_Begins surround_audio 2, Holder_Leaves 9]"
  have a: "ah_sink (audio_host_run one_sink [] ?es (audio_host_new [7])) = [1]"
    by (simp add: sink_sample_defs)
  have "ah_holders (audio_host_run one_sink [] (?es @ [Holder_Leaves 1, Holder_Leaves 2]) (audio_host_new [7])) = []"
    by (simp add: sink_sample_defs)
  from host_sink_restored [OF _ _ this] have
    "ah_sink (audio_host_run one_sink [] (?es @ [Holder_Leaves 1, Holder_Leaves 2]) (audio_host_new [7])) = [7]"
    by (simp add: one_sink_def)
  with a show ?thesis by (simp only: Let_def)
qed

theorem failed_sink_not_retried_witness:
  "\<exists>h1 h2. begin_capture one_sink [] surround_audio 1 (audio_host_new [7]) = (False, h1) \<and>
     begin_capture one_sink [] quiet_stereo 2 h1 = (True, h2) \<and> ah_sink h2 = [7]"
proof -
  have "ah_ctx (audio_host_new [7]) = None" "ah_sink (audio_host_new [7]) = [7]" "ap_control one_sink"
    by (simp_all add: audio_host_new_def one_sink_def)
  moreover have "chosen_sink [] surround_audio \<lparr> si_host = [7], si_null = ap_null one_sink \<rparr> = [2]" "\<not> ap_accepts one_sink [2]"
    by (simp_all add: sink_sample_defs)
  ultimately show ?thesis using failed_sink_not_retried [of "audio_host_new [7]" one_sink "[]" surround_audio 1 one_sink quiet_stereo 2]
    by simp
qed

definition buffers :: "nat list list \<Rightarrow> nat audio_run" where
  "buffers ss = \<lparr> ar_samples = \<lparr> q_continue = True, q_max = 30, q_items = ss \<rparr>, ar_packets = queue_new 32,
     ar_shutdown = False, ar_mic = True, ar_capturing = True, ar_encoding = True, ar_captured = ss, ar_encoded = [] \<rparr>"

lemma buffers_reach: "audio_reach opus chan 2 (buffers [])" "audio_reach opus chan 2 (buffers [[0, 1], [5, 6]])"
proof -
  have "buffers [] = audio_run_new (queue_new 32)" by (simp add: buffers_def audio_run_new_def queue_new_def)
  then show start: "audio_reach opus chan 2 (buffers [])" by (simp add: audio_reach.start queue_wf_def queue_new_def)
  have put: "capture_round 2 (Mic_Ok f) (buffers ss) = Some (buffers (ss @ [[f 0, f 1]]))" if "length ss < 30" for f ss
    using that by (simp add: capture_round_def buffers_def queue_raise_def Let_def numeral_2_eq_2)
  have "audio_reach opus chan 2 (buffers [[0, 1]])"
    using put [of "[]" id] by (intro audio_reach.capture [OF start, of "Mic_Ok id"]) simp
  then show "audio_reach opus chan 2 (buffers [[0, 1], [5, 6]])"
    using put [of "[[0, 1]]" "\<lambda>i. i + 5"] by (elim audio_reach.capture [where answer = "Mic_Ok (\<lambda>i. i + 5)"]) simp
qed

theorem audio_samples_in_order_witness:
  "\<forall>opus chan. audio_reach opus chan 2 (buffers [[0, 1], [5, 6]]) \<and> (\<forall>s \<in> set (ar_captured (buffers [[0, 1], [5, 6]])). length s = 2)"
  using audio_samples_in_order (2) [OF buffers_reach(2)] buffers_reach(2) by blast

theorem audio_threads_end_witness:
  "\<exists>r'. capture_round 2 Mic_Timeout (buffers []\<lparr> ar_shutdown := True \<rparr>) = Some r' \<and> \<not> ar_capturing r'"
proof -
  let ?r = "buffers []\<lparr> ar_shutdown := True \<rparr>"
  have r: "ar_capturing ?r" "ar_mic ?r" "ar_shutdown ?r" by (simp_all add: buffers_def)
  then obtain r' where c: "capture_round 2 Mic_Timeout ?r = Some r'" by (simp add: capture_round_def)
  from audio_threads_end (1) [OF audio_reach.shutdown [OF buffers_reach(1)] r(3) c] r(2) c show ?thesis by blast
qed

theorem encode_failure_stops_all_witness:
  "\<exists>r'. encode_round (\<lambda>_. None) 0 (buffers [[0, 1]]) = Some r' \<and> \<not> ar_encoding r'"
proof -
  obtain r' where c: "encode_round (\<lambda>_. None) 0 (buffers [[0, 1]]) = Some r'"
    by (simp add: buffers_def encode_round_def queue_defs)
  have "ar_encoding (buffers [[0, 1]])" "\<exists>s q. queue_pop (ar_samples (buffers [[0, 1]])) = Some (Some s, q)"
    by (simp_all add: buffers_def queue_defs)
  with encode_failure_stops_all (1) [OF c] c show ?thesis by auto
qed

end
