(* ===== verification/Virtual_Hid.thy ===== *)
theory Virtual_Hid
  imports Input_Gamepads Touch_Port Control_Codec Rtsp_Commands Config
begin

text \<open>
  The virtual devices of \<open>src/platform/virtualhid_input.cpp\<close>, which Linux, macOS and Windows share: the choice of
  the gamepad, the feedback of games, the touch pads, the mouse and the keyboard, and the touch screen and the pen of a
  client. The library of devices is a parameter, and what it is told is a list of calls. Floating point is exact, and
  the axes of a tilted pen are a parameter.
\<close>

section \<open>Gamepads\<close>

datatype pad_profile = Pad_Generic | Pad_X360 | Pad_Xone | Pad_Xseries | Pad_Ds4 | Pad_Ds5 | Pad_Switch

definition gamepad_profiles :: "(bytes \<times> pad_profile) list" where
  "gamepad_profiles =
     [(ascii ''generic'', Pad_Generic), (ascii ''x360'', Pad_X360), (ascii ''xone'', Pad_Xone),
      (ascii ''xseries'', Pad_Xseries), (ascii ''ds4'', Pad_Ds4), (ascii ''ds5'', Pad_Ds5), (ascii ''switch'', Pad_Switch)]"

record pad_support =
  su_motion :: bool
  su_touchpad :: bool
  su_rgb_led :: bool
  su_misc1_button :: bool
  su_touchpad_button :: bool

text \<open>What the library says of a profile: its kind and what it supports.\<close>

record hid_lib =
  hl_kind :: "pad_profile \<Rightarrow> pad_profile"
  hl_support :: "pad_profile \<Rightarrow> pad_support"

datatype ctrl_type = CT_Unknown | CT_Xbox | CT_Ps | CT_Nintendo

record pad_arrival_info =
  pv_type :: ctrl_type
  pv_accel :: bool
  pv_gyro :: bool
  pv_touchpad :: bool
  pv_rgb_led :: bool
  pv_battery :: bool

definition normalize_axis :: "u16 \<Rightarrow> rat" where
  "normalize_axis w =
     (let v = sint w in if v < 0 then max (- 1) (of_int v / 32768) else min 1 (of_int v / 32767))"

definition normalize_trigger :: "u8 \<Rightarrow> rat" where
  "normalize_trigger v = of_int (uint v) / 255"

definition profile_for_name :: "bytes \<Rightarrow> pad_profile" where
  "profile_for_name name = (case map_of gamepad_profiles name of Some p \<Rightarrow> p | None \<Rightarrow> Pad_Xseries)"

definition profile_for_metadata :: "input_t \<Rightarrow> pad_arrival_info \<Rightarrow> pad_profile" where
  "profile_for_metadata cf a =
     (if it_gamepad cf \<noteq> ascii ''auto'' then profile_for_name (it_gamepad cf)
      else if pv_type a = CT_Ps then profile_for_name (ascii ''ds5'')
      else if pv_type a = CT_Nintendo then profile_for_name (ascii ''switch'')
      else if pv_type a = CT_Xbox then profile_for_name (ascii ''xseries'')
      else if it_motion_as_ds4 cf \<and> (pv_accel a \<or> pv_gyro a) then profile_for_name (ascii ''ds5'')
      else if it_touchpad_as_ds4 cf \<and> pv_touchpad a then profile_for_name (ascii ''ds5'')
      else profile_for_name (ascii ''xseries''))"

text \<open>\<open>{:02x}\<close> of a byte.\<close>

definition hex_digit :: "nat \<Rightarrow> u8" where
  "hex_digit d = (if d < 10 then 0x30 + word_of_nat d else 0x57 + word_of_nat d)"

definition hex2 :: "nat \<Rightarrow> bytes" where
  "hex2 n = [hex_digit (n div 16 mod 16), hex_digit (n mod 16)]"

definition random_private_mac :: "nat \<times> nat \<times> nat \<times> nat \<Rightarrow> bytes" where
  "random_private_mac = (\<lambda>(a, b, c, d).
     ascii ''02:00:'' @ hex2 (a mod 256) @ ascii '':'' @ hex2 (b mod 256) @ ascii '':'' @ hex2 (c mod 256) @ ascii '':'' @ hex2 (d mod 256))"

definition gamepad_stable_id :: "input_t \<Rightarrow> nat \<times> nat \<times> nat \<times> nat \<Rightarrow> int \<Rightarrow> pad_profile \<Rightarrow> bytes" where
  "gamepad_stable_id cf random i kind =
     (if kind \<noteq> Pad_Ds4 \<and> kind \<noteq> Pad_Ds5 then ascii ''sunshine-gamepad-'' @ to_text i
      else if it_virtualhid_randomize_mac cf \<or> i < 0 \<or> i > 255 then random_private_mac random
      else ascii ''02:00:00:00:00:'' @ hex2 (nat i))"

record pad_metadata =
  pm_global_index :: int
  pm_client_index :: u8
  pm_type :: ctrl_type
  pm_motion :: bool
  pm_touchpad :: bool
  pm_rgb_led :: bool
  pm_battery :: bool
  pm_stable_id :: bytes

definition gamepad_metadata ::
  "input_t \<Rightarrow> nat \<times> nat \<times> nat \<times> nat \<Rightarrow> int \<Rightarrow> u8 \<Rightarrow> pad_arrival_info \<Rightarrow> pad_profile \<Rightarrow> pad_metadata" where
  "gamepad_metadata cf random i c a kind =
     \<lparr> pm_global_index = i, pm_client_index = c, pm_type = pv_type a, pm_motion = (pv_accel a \<or> pv_gyro a),
       pm_touchpad = pv_touchpad a, pm_rgb_led = pv_rgb_led a, pm_battery = pv_battery a,
       pm_stable_id = gamepad_stable_id cf random i kind \<rparr>"

definition configured_gamepad_supports_touchpad :: "hid_lib \<Rightarrow> input_t \<Rightarrow> bool" where
  "configured_gamepad_supports_touchpad l cf =
     (if it_gamepad cf = ascii ''auto'' then True
      else su_touchpad (hl_support l (profile_for_name (it_gamepad cf))))"

subsection \<open>State of the buttons\<close>

datatype pad_button =
    Dpad_Up | Dpad_Down | Dpad_Left | Dpad_Right | Start | Back | Left_Stick | Right_Stick | Left_Shoulder
  | Right_Shoulder | Guide | Button_A | Button_B | Button_X | Button_Y | Misc1 | Touchpad

definition button_bits :: "(pad_button \<times> u32) list" where
  "button_bits =
     [(Dpad_Up, 0x0001), (Dpad_Down, 0x0002), (Dpad_Left, 0x0004), (Dpad_Right, 0x0008), (Start, 0x0010), (Back, BACK),
      (Left_Stick, 0x0040), (Right_Stick, 0x0080), (Left_Shoulder, 0x0100), (Right_Shoulder, 0x0200), (Guide, HOME),
      (Button_A, 0x1000), (Button_B, 0x2000), (Button_X, 0x4000), (Button_Y, 0x8000)]"

definition TOUCHPAD_BUTTON :: u32 where "TOUCHPAD_BUTTON = 0x100000"
definition MISC_BUTTON :: u32 where "MISC_BUTTON = 0x200000"

record vh_state =
  vs_buttons :: "pad_button set"
  vs_left_stick :: "rat \<times> rat"
  vs_right_stick :: "rat \<times> rat"
  vs_left_trigger :: rat
  vs_right_trigger :: rat

definition make_gamepad_state :: "hid_lib \<Rightarrow> input_t \<Rightarrow> gamepad_state \<Rightarrow> pad_support \<Rightarrow> vh_state" where
  "make_gamepad_state l cf st su =
     (let flags = gs_buttonFlags st;
          base = set (map fst (filter (\<lambda>(b, bit). flags AND bit \<noteq> 0) button_bits));
          misc = (if su_misc1_button su \<and> flags AND MISC_BUTTON \<noteq> 0 then {Misc1} else {});
          pad = (if su_touchpad_button su \<and> flags AND TOUCHPAD_BUTTON \<noteq> 0 then {Touchpad} else {});
          click = (if su_touchpad_button su \<and> it_ds4_back_as_touchpad_click cf \<and> configured_gamepad_supports_touchpad l cf \<and>
              flags AND BACK \<noteq> 0 then {Touchpad} else {})
      in \<lparr> vs_buttons = base \<union> misc \<union> pad \<union> click,
           vs_left_stick = (normalize_axis (gs_lsX st), normalize_axis (gs_lsY st)),
           vs_right_stick = (normalize_axis (gs_rsX st), normalize_axis (gs_rsY st)),
           vs_left_trigger = normalize_trigger (gs_lt st), vs_right_trigger = normalize_trigger (gs_rt st) \<rparr>)"

subsection \<open>Feedback\<close>

datatype pad_output =
    Out_Rumble u16 u16
  | Out_Triggers u16 u16
  | Out_Rgb u8 u8 u8
  | Out_Adaptive u8 u8 u8 bytes bytes
  | Out_Raw_Report

text \<open>
  The state of a gamepad. \<open>gx_queue\<close> is the session whose queue gets the feedback; the last values that were sent
  are \<open>None\<close> until there are any.
\<close>

record gamepad_context =
  gx_support :: pad_support
  gx_queue :: "nat option"
  gx_touch_ids :: "u32 option list"
  gx_index :: u8
  gx_rumble :: "(u16 \<times> u16) option"
  gx_triggers :: "(u16 \<times> u16) option"
  gx_rgb :: "(u8 \<times> u8 \<times> u8) option"

definition raise_feedback :: "gamepad_context \<Rightarrow> gamepad_feedback \<Rightarrow> (nat \<times> gamepad_feedback) list" where
  "raise_feedback g msg = (case gx_queue g of Some q \<Rightarrow> [(q, msg)] | None \<Rightarrow> [])"

fun handle_output :: "gamepad_context \<Rightarrow> pad_output \<Rightarrow> (nat \<times> gamepad_feedback) list \<times> gamepad_context" where
  "handle_output g (Out_Rumble low high) =
     (if gx_rumble g = Some (low, high) then ([], g)
      else (raise_feedback g (Rumble (ucast (gx_index g)) low high), g\<lparr> gx_rumble := Some (low, high) \<rparr>))"
| "handle_output g (Out_Triggers left right) =
     (if gx_triggers g = Some (left, right) then ([], g)
      else (raise_feedback g (Rumble_Triggers (ucast (gx_index g)) left right), g\<lparr> gx_triggers := Some (left, right) \<rparr>))"
| "handle_output g (Out_Rgb red green blue) =
     (if gx_rgb g = Some (red, green, blue) then ([], g)
      else (raise_feedback g (Set_Rgb_Led (ucast (gx_index g)) red green blue), g\<lparr> gx_rgb := Some (red, green, blue) \<rparr>))"
| "handle_output g (Out_Adaptive flags ltype rtype left right) =
     (raise_feedback g (Set_Adaptive_Triggers (ucast (gx_index g)) flags ltype rtype left right), g)"
| "handle_output g Out_Raw_Report = ([], g)"

text \<open>The numbers of the two motion sensors are the protocol's.\<close>

record motion_types =
  mt_accel :: u8
  mt_gyro :: u8

definition motion_requests :: "motion_types \<Rightarrow> u8 \<Rightarrow> gamepad_context \<Rightarrow> (nat \<times> gamepad_feedback) list" where
  "motion_requests mt c g =
     (if su_motion (gx_support g)
      then raise_feedback g (Set_Motion_Event_State (ucast c) 100 (mt_accel mt)) @
           raise_feedback g (Set_Motion_Event_State (ucast c) 100 (mt_gyro mt))
      else [])"

subsection \<open>The table of gamepads\<close>

record hid_caps =
  hc_gamepad :: bool
  hc_keyboard :: bool
  hc_mouse :: bool
  hc_touchscreen :: bool
  hc_pen_tablet :: bool

record touch_contact =
  tc_id :: nat
  tc_active :: bool
  tc_x :: rat
  tc_y :: rat

datatype battery_st = Bat_Unknown | Bat_Not_Present | Bat_Not_Charging | Bat_Discharging | Bat_Charging | Bat_Full
datatype hid_battery = Hid_Unknown | Hid_Charging_Error | Hid_Discharging | Hid_Charging | Hid_Full

text \<open>What the adapter keeps beside the buttons and sticks.\<close>

record pad_cache =
  ph_acceleration :: "rat \<times> rat \<times> rat"
  ph_gyroscope :: "rat \<times> rat \<times> rat"
  ph_battery :: "(hid_battery \<times> nat) option"
  ph_contacts :: "touch_contact list"

datatype mouse_btn = Mouse_Left | Mouse_Middle | Mouse_Right | Mouse_Side | Mouse_Extra

datatype hid_call =
    Create_Keyboard
  | Create_Mouse
  | Create_Gamepad nat pad_profile pad_metadata
  | Destroy_Gamepad nat
  | Set_State nat vh_state pad_cache
  | Set_Contact nat nat touch_contact
  | Clear_Contact nat nat
  | Set_Acceleration nat "rat \<times> rat \<times> rat"
  | Set_Gyroscope nat "rat \<times> rat \<times> rat"
  | Set_Battery nat hid_battery nat
  | Clear_Battery nat
  | Move_Relative int int
  | Move_Absolute int int int int
  | Mouse_Button_Set mouse_btn bool
  | Vertical_Scroll int
  | Horizontal_Scroll int
  | Submit_Key u16 bool
  | Type_Text bytes

record input_context =
  ic_runtime :: "hid_caps option"
  ic_keyboard :: bool
  ic_mouse :: bool
  ic_gamepads :: "gamepad_context option list"
  ic_calls :: "hid_call list"
  ic_feedback :: "(nat \<times> gamepad_feedback) list"

definition hid_emit :: "hid_call list \<Rightarrow> input_context \<Rightarrow> input_context" where
  "hid_emit cs c = c\<lparr> ic_calls := ic_calls c @ cs \<rparr>"

definition hid_feedback :: "(nat \<times> gamepad_feedback) list \<Rightarrow> input_context \<Rightarrow> input_context" where
  "hid_feedback ms c = c\<lparr> ic_feedback := ic_feedback c @ ms \<rparr>"

text \<open>\<open>created\<close> are the answers of the library.\<close>

definition refresh_mouse :: "bool \<Rightarrow> input_context \<Rightarrow> input_context" where
  "refresh_mouse created c =
     (case ic_runtime c of
        Some caps \<Rightarrow> if hc_mouse caps then hid_emit [Create_Mouse] (c\<lparr> ic_mouse := created \<rparr>) else c\<lparr> ic_mouse := False \<rparr>
      | None \<Rightarrow> c\<lparr> ic_mouse := False \<rparr>)"

definition input_context_new :: "hid_caps option \<Rightarrow> bool \<Rightarrow> bool \<Rightarrow> input_context" where
  "input_context_new runtime keyboard_created mouse_created =
     (let c = \<lparr> ic_runtime = runtime, ic_keyboard = False, ic_mouse = False,
                ic_gamepads = replicate MAX_GAMEPADS None, ic_calls = [], ic_feedback = [] \<rparr>
      in case runtime of
           None \<Rightarrow> c
         | Some caps \<Rightarrow>
             let c1 = (if hc_keyboard caps then hid_emit [Create_Keyboard] (c\<lparr> ic_keyboard := keyboard_created \<rparr>) else c)
             in refresh_mouse mouse_created c1)"

definition has_gamepad :: "int \<Rightarrow> input_context \<Rightarrow> bool" where
  "has_gamepad nr c \<longleftrightarrow> 0 \<le> nr \<and> nr < int (length (ic_gamepads c)) \<and> ic_gamepads c ! nat nr \<noteq> None"

definition set_pad_context :: "int \<Rightarrow> gamepad_context option \<Rightarrow> input_context \<Rightarrow> input_context" where
  "set_pad_context nr g c = c\<lparr> ic_gamepads := (ic_gamepads c)[nat nr := g] \<rparr>"

text \<open>
  \<open>created\<close> is what the adapter that the library makes supports, or nothing when it makes none. A gamepad that had
  the index before is destroyed when the new one takes its place.
\<close>

definition vh_alloc_gamepad ::
  "hid_lib \<Rightarrow> motion_types \<Rightarrow> input_t \<Rightarrow> nat \<times> nat \<times> nat \<times> nat \<Rightarrow> (pad_profile \<Rightarrow> pad_support option) \<Rightarrow> int \<Rightarrow> u8 \<Rightarrow>
     pad_arrival_info \<Rightarrow> nat option \<Rightarrow> input_context \<Rightarrow> int \<times> input_context" where
  "vh_alloc_gamepad l mt cf random created i ci a queue c =
     (case ic_runtime c of
        None \<Rightarrow> (- 1, c)
      | Some caps \<Rightarrow>
          if \<not> hc_gamepad caps then (- 1, c)
          else if i < 0 \<or> i \<ge> int (length (ic_gamepads c)) then (- 1, c)
          else
            let p = profile_for_metadata cf a
            in case created p of
                 None \<Rightarrow> (- 1, c)
               | Some su \<Rightarrow>
                   let g = \<lparr> gx_support = su, gx_queue = queue, gx_touch_ids = [None, None], gx_index = ci,
                             gx_rumble = None, gx_triggers = None, gx_rgb = None \<rparr>;
                       old = (if has_gamepad i c then [Destroy_Gamepad (nat i)] else []);
                       c1 = hid_feedback (motion_requests mt ci g)
                              (hid_emit (Create_Gamepad (nat i) p (gamepad_metadata cf random i ci a (hl_kind l p)) # old) c)
                   in (0, set_pad_context i (Some g) c1))"

definition vh_rebind_gamepad :: "motion_types \<Rightarrow> int \<Rightarrow> u8 \<Rightarrow> nat option \<Rightarrow> input_context \<Rightarrow> int \<times> input_context" where
  "vh_rebind_gamepad mt i ci queue c =
     (if \<not> has_gamepad i c then (- 1, c)
      else
        let g = (the (ic_gamepads c ! nat i))\<lparr> gx_queue := queue, gx_index := ci, gx_rumble := None, gx_triggers := None,
                  gx_rgb := None \<rparr>
        in (0, hid_feedback (motion_requests mt ci g) (set_pad_context i (Some g) c)))"

definition vh_free_gamepad :: "int \<Rightarrow> input_context \<Rightarrow> input_context" where
  "vh_free_gamepad nr c =
     (if has_gamepad nr c then hid_emit [Destroy_Gamepad (nat nr)] (set_pad_context nr None c) else c)"

text \<open>The callback of the adapter: it does nothing once the gamepad is gone.\<close>

definition vh_output :: "int \<Rightarrow> pad_output \<Rightarrow> input_context \<Rightarrow> input_context" where
  "vh_output nr out c =
     (if has_gamepad nr c
      then let (ms, g) = handle_output (the (ic_gamepads c ! nat nr)) out
           in hid_feedback ms (set_pad_context nr (Some g) c)
      else c)"

text \<open>\<open>cached\<close> is what the adapter keeps.\<close>

definition vh_gamepad_update :: "hid_lib \<Rightarrow> input_t \<Rightarrow> pad_cache \<Rightarrow> int \<Rightarrow> gamepad_state \<Rightarrow> input_context \<Rightarrow> input_context" where
  "vh_gamepad_update l cf cached nr st c =
     (if has_gamepad nr c
      then hid_emit [Set_State (nat nr) (make_gamepad_state l cf st (gx_support (the (ic_gamepads c ! nat nr)))) cached] c
      else c)"

subsection \<open>Touch pad, motion and battery\<close>

datatype touch_ev = TE_Hover | TE_Down | TE_Up | TE_Move | TE_Cancel | TE_Hover_Leave | TE_Cancel_All | TE_Other

record pad_touch_input =
  pt_event :: touch_ev
  pt_pointer :: u32
  pt_x :: rat
  pt_y :: rat
  pt_pressure :: rat

fun slot_of :: "u32 option \<Rightarrow> u32 option list \<Rightarrow> nat option" where
  "slot_of x [] = None"
| "slot_of x (y # ys) = (if y = x then Some 0 else map_option Suc (slot_of x ys))"

text \<open>The contacts of the gamepad \<open>nr\<close> after an event: the slots, and what the adapter is told.\<close>

definition touch_slots :: "nat \<Rightarrow> pad_touch_input \<Rightarrow> u32 option list \<Rightarrow> u32 option list \<times> hid_call list" where
  "touch_slots nr t ids =
     (if pt_event t = TE_Cancel_All
      then (map (\<lambda>_. None) ids, map (Clear_Contact nr) (filter (\<lambda>i. ids ! i \<noteq> None) [0..<length ids]))
      else
        let (slot, ids1) =
              (case slot_of (Some (pt_pointer t)) ids of
                 Some i \<Rightarrow> (Some i, ids)
               | None \<Rightarrow>
                   if pt_event t = TE_Down
                   then (case slot_of None ids of
                           None \<Rightarrow> (None, ids)
                         | Some i \<Rightarrow> (Some i, ids[i := Some (pt_pointer t)]))
                   else (None, ids))
        in case slot of
             None \<Rightarrow> (ids1, [])
           | Some i \<Rightarrow>
               if pt_event t = TE_Up \<or> pt_event t = TE_Cancel then (ids1[i := None], [Clear_Contact nr i])
               else if pt_event t \<noteq> TE_Down \<and> pt_event t \<noteq> TE_Move then (ids1, [])
               else (ids1, [Set_Contact nr i \<lparr> tc_id = i, tc_active = (pt_pressure t > 1 / 2),
                       tc_x = clamp (pt_x t) 0 1, tc_y = clamp (pt_y t) 0 1 \<rparr>]))"

definition vh_gamepad_touch :: "int \<Rightarrow> pad_touch_input \<Rightarrow> input_context \<Rightarrow> input_context" where
  "vh_gamepad_touch nr t c =
     (if \<not> has_gamepad nr c then c
      else
        let g = the (ic_gamepads c ! nat nr)
        in if \<not> su_touchpad (gx_support g) then c
           else
             let (ids, calls) = touch_slots (nat nr) t (gx_touch_ids g)
             in hid_emit calls (set_pad_context nr (Some (g\<lparr> gx_touch_ids := ids \<rparr>)) c))"

datatype motion_type = Motion_Accel | Motion_Gyro | Motion_Other

definition vh_gamepad_motion :: "int \<Rightarrow> motion_type \<Rightarrow> rat \<times> rat \<times> rat \<Rightarrow> input_context \<Rightarrow> input_context" where
  "vh_gamepad_motion nr m v c =
     (if \<not> has_gamepad nr c then c
      else case m of
        Motion_Accel \<Rightarrow> hid_emit [Set_Acceleration (nat nr) v] c
      | Motion_Gyro \<Rightarrow> hid_emit [Set_Gyroscope (nat nr) v] c
      | Motion_Other \<Rightarrow> c)"

fun battery_state :: "battery_st \<Rightarrow> hid_battery" where
  "battery_state Bat_Discharging = Hid_Discharging"
| "battery_state Bat_Charging = Hid_Charging"
| "battery_state Bat_Full = Hid_Full"
| "battery_state Bat_Not_Present = Hid_Charging_Error"
| "battery_state Bat_Not_Charging = Hid_Charging_Error"
| "battery_state Bat_Unknown = Hid_Unknown"

text \<open>A percentage that the client does not know is \<open>None\<close>.\<close>

definition vh_gamepad_battery :: "int \<Rightarrow> battery_st \<Rightarrow> nat option \<Rightarrow> input_context \<Rightarrow> input_context" where
  "vh_gamepad_battery nr st percentage c =
     (if \<not> has_gamepad nr c then c
      else if st = Bat_Unknown \<or> st = Bat_Not_Present then hid_emit [Clear_Battery (nat nr)] c
      else hid_emit [Set_Battery (nat nr) (battery_state st) (case percentage of None \<Rightarrow> 100 | Some p \<Rightarrow> min p 100)] c)"

section \<open>Mouse and keyboard\<close>

definition lround :: "rat \<Rightarrow> int" where
  "lround x = (if x \<ge> 0 then \<lfloor>x + 1 / 2\<rfloor> else - \<lfloor>- x + 1 / 2\<rfloor>)"

definition vh_move_mouse :: "int \<Rightarrow> int \<Rightarrow> input_context \<Rightarrow> input_context" where
  "vh_move_mouse dx dy c = (if ic_mouse c then hid_emit [Move_Relative dx dy] c else c)"

text \<open>The width and height are those of the touch port.\<close>

definition vh_abs_mouse :: "int \<Rightarrow> int \<Rightarrow> rat \<Rightarrow> rat \<Rightarrow> input_context \<Rightarrow> input_context" where
  "vh_abs_mouse w h x y c = (if ic_mouse c then hid_emit [Move_Absolute (lround x) (lround y) w h] c else c)"

text \<open>The numbers of the buttons are the protocol's.\<close>

record li_mouse =
  LB_LEFT :: int
  LB_MIDDLE :: int
  LB_RIGHT :: int
  LB_X1 :: int
  LB_X2 :: int

definition mouse_button :: "li_mouse \<Rightarrow> int \<Rightarrow> mouse_btn option" where
  "mouse_button li b =
     (if b = LB_LEFT li then Some Mouse_Left else if b = LB_MIDDLE li then Some Mouse_Middle
      else if b = LB_RIGHT li then Some Mouse_Right else if b = LB_X1 li then Some Mouse_Side
      else if b = LB_X2 li then Some Mouse_Extra else None)"

definition vh_button_mouse :: "li_mouse \<Rightarrow> int \<Rightarrow> bool \<Rightarrow> input_context \<Rightarrow> input_context" where
  "vh_button_mouse li b release c =
     (if \<not> ic_mouse c then c
      else case mouse_button li b of
        None \<Rightarrow> c
      | Some m \<Rightarrow> hid_emit [Mouse_Button_Set m (\<not> release)] c)"

definition vh_scroll :: "int \<Rightarrow> input_context \<Rightarrow> input_context" where
  "vh_scroll d c = (if ic_mouse c then hid_emit [Vertical_Scroll d] c else c)"

definition vh_hscroll :: "int \<Rightarrow> input_context \<Rightarrow> input_context" where
  "vh_hscroll d c = (if ic_mouse c then hid_emit [Horizontal_Scroll d] c else c)"

text \<open>The flags of a key are for Windows only.\<close>

definition vh_keyboard_update :: "u16 \<Rightarrow> bool \<Rightarrow> input_context \<Rightarrow> input_context" where
  "vh_keyboard_update modcode release c = (if ic_keyboard c then hid_emit [Submit_Key modcode (\<not> release)] c else c)"

definition vh_unicode :: "bytes \<Rightarrow> input_context \<Rightarrow> input_context" where
  "vh_unicode utf8 c = (if ic_keyboard c \<and> length utf8 > 0 then hid_emit [Type_Text utf8] c else c)"

section \<open>Touch screen and pen of a client\<close>

datatype pen_button = Pen_Primary | Pen_Secondary | Pen_Tertiary
datatype pen_tool = Tool_Pen | Tool_Eraser | Tool_Unchanged
datatype transition = Tr_Update | Tr_Cancel | Tr_Release | Tr_Leave

record touch_screen_contact =
  sc_id :: int
  sc_x :: rat
  sc_y :: rat
  sc_pressure :: rat
  sc_orientation :: int
  sc_touching :: bool
  sc_viewport :: "int \<times> int \<times> int \<times> int"
  sc_major :: rat
  sc_minor :: rat

record pen_state =
  ps_tool :: pen_tool
  ps_x :: rat
  ps_y :: rat
  ps_pressure :: rat
  ps_distance :: rat
  ps_tilt :: "rat \<times> rat"
  ps_transition :: transition
  ps_viewport :: "int \<times> int \<times> int \<times> int"

datatype client_call =
    Create_Touchscreen
  | Create_Pen
  | Place_Contact touch_screen_contact
  | Release_Contact int
  | Cancel_Contact int
  | Leave_Contact int
  | Pen_Button_Set pen_button bool
  | Place_Tool pen_state

record client_context =
  cc_touch :: bool
  cc_pen :: bool
  cc_active :: "int set"
  cc_buttons :: "pen_button set"
  cc_calls :: "client_call list"

definition client_context_new :: "hid_caps option \<Rightarrow> bool \<Rightarrow> bool \<Rightarrow> client_context" where
  "client_context_new runtime touch_created pen_created =
     (let c = \<lparr> cc_touch = False, cc_pen = False, cc_active = {}, cc_buttons = {}, cc_calls = [] \<rparr>
      in case runtime of
           None \<Rightarrow> c
         | Some caps \<Rightarrow>
             let c1 = (if hc_touchscreen caps then c\<lparr> cc_touch := touch_created, cc_calls := [Create_Touchscreen] \<rparr> else c)
             in if hc_pen_tablet caps then c1\<lparr> cc_pen := pen_created, cc_calls := cc_calls c1 @ [Create_Pen] \<rparr> else c1)"

definition client_emit :: "client_call list \<Rightarrow> client_context \<Rightarrow> client_context" where
  "client_emit cs c = c\<lparr> cc_calls := cc_calls c @ cs \<rparr>"

text \<open>A set of the library is walked in its order.\<close>

definition cancel_all_touches :: "client_context \<Rightarrow> client_context" where
  "cancel_all_touches c =
     (if \<not> cc_touch c then c
      else (client_emit (map Cancel_Contact (sorted_list_of_set (cc_active c))) c)\<lparr> cc_active := {} \<rparr>)"

record touch_in =
  ti_event :: touch_ev
  ti_rotation :: "u16 option"
  ti_pointer :: u32
  ti_x :: rat
  ti_y :: rat
  ti_pressure :: rat
  ti_major :: rat
  ti_minor :: rat

text \<open>An unknown rotation is \<open>None\<close>.\<close>

definition touch_orientation :: "u16 option \<Rightarrow> int" where
  "touch_orientation rotation =
     (case rotation of
        None \<Rightarrow> 0
      | Some r \<Rightarrow>
          let a = uint r;
              b = (if a > 90 \<and> a < 270 then 180 - a else a)
          in if b > 90 then b - 360 else if b < - 90 then b + 360 else b)"

definition vh_touch_update :: "int \<times> int \<times> int \<times> int \<Rightarrow> touch_in \<Rightarrow> client_context \<Rightarrow> client_context" where
  "vh_touch_update viewport t c =
     (if \<not> cc_touch c then c
      else
        let i = sint (ti_pointer t)
        in case ti_event t of
             TE_Cancel_All \<Rightarrow> cancel_all_touches c
           | TE_Up \<Rightarrow> (client_emit [Release_Contact i] c)\<lparr> cc_active := cc_active c - {i} \<rparr>
           | TE_Cancel \<Rightarrow> (client_emit [Cancel_Contact i] c)\<lparr> cc_active := cc_active c - {i} \<rparr>
           | TE_Hover_Leave \<Rightarrow> (client_emit [Leave_Contact i] c)\<lparr> cc_active := cc_active c - {i} \<rparr>
           | TE_Other \<Rightarrow> c
           | _ \<Rightarrow> (client_emit [Place_Contact
                 \<lparr> sc_id = i, sc_x = clamp (ti_x t) 0 1, sc_y = clamp (ti_y t) 0 1, sc_pressure = clamp (ti_pressure t) 0 1,
                   sc_orientation = touch_orientation (ti_rotation t), sc_touching = (ti_event t \<noteq> TE_Hover),
                   sc_viewport = viewport, sc_major = ti_major t, sc_minor = ti_minor t \<rparr>] c)
                 \<lparr> cc_active := insert i (cc_active c) \<rparr>)"

record pen_in =
  pi_event :: touch_ev
  pi_tool :: pen_tool
  pi_buttons :: "pen_button set"
  pi_tilt :: "nat option"
  pi_rotation :: "nat option"
  pi_x :: rat
  pi_y :: rat
  pi_pressure :: rat

definition pen_button_order :: "pen_button list" where
  "pen_button_order = [Pen_Primary, Pen_Secondary, Pen_Tertiary]"

definition update_pen_buttons :: "pen_button set \<Rightarrow> client_context \<Rightarrow> client_context" where
  "update_pen_buttons wanted c =
     fold (\<lambda>b c. if (b \<in> wanted) = (b \<in> cc_buttons c) then c
                else (client_emit [Pen_Button_Set b (b \<in> wanted)] c)
                  \<lparr> cc_buttons := (if b \<in> wanted then insert b (cc_buttons c) else cc_buttons c - {b}) \<rparr>)
       pen_button_order c"

definition release_pen_buttons :: "client_context \<Rightarrow> client_context" where
  "release_pen_buttons c =
     (client_emit (map (\<lambda>b. Pen_Button_Set b False) (filter (\<lambda>b. b \<in> cc_buttons c) pen_button_order)) c)
       \<lparr> cc_buttons := {} \<rparr>"

fun pen_transition :: "touch_ev \<Rightarrow> transition" where
  "pen_transition TE_Cancel = Tr_Cancel"
| "pen_transition TE_Cancel_All = Tr_Cancel"
| "pen_transition TE_Up = Tr_Release"
| "pen_transition TE_Hover_Leave = Tr_Leave"
| "pen_transition _ = Tr_Update"

text \<open>\<open>axes\<close> turns a rotation and a tilt, in degrees, into the two axes of the tilt.\<close>

definition vh_pen_update ::
  "(nat \<Rightarrow> nat \<Rightarrow> rat \<times> rat) \<Rightarrow> int \<times> int \<times> int \<times> int \<Rightarrow> pen_in \<Rightarrow> client_context \<Rightarrow> client_context" where
  "vh_pen_update axes viewport p c =
     (if \<not> cc_pen c then c
      else
        let c1 = update_pen_buttons (pi_buttons p) c;
            c2 = (if pi_event p = TE_Cancel_All then release_pen_buttons c1 else c1);
            tr = pen_transition (pi_event p);
            tilt = (case (pi_tilt p, pi_rotation p) of
                (Some t, Some r) \<Rightarrow> axes (r mod 360) t
              | _ \<Rightarrow> (0, 0));
            touching = (tr = Tr_Update \<and> (pi_event p = TE_Down \<or> pi_event p = TE_Move))
        in client_emit [Place_Tool
             \<lparr> ps_tool = pi_tool p, ps_x = clamp (pi_x p) 0 1, ps_y = clamp (pi_y p) 0 1,
               ps_pressure = (if touching then clamp (pi_pressure p) 0 1 else - 1),
               ps_distance = (if touching then - 1 else clamp (pi_pressure p) 0 1),
               ps_tilt = tilt, ps_transition = tr, ps_viewport = viewport \<rparr>] c2)"

section \<open>What the host offers\<close>

definition static_supported_gamepads :: "(bytes \<times> bool \<times> bytes) list" where
  "static_supported_gamepads = (ascii ''auto'', True, []) # map (\<lambda>(n, p). (n, False, [])) gamepad_profiles"

definition supported_gamepads :: "hid_caps option \<Rightarrow> bool \<Rightarrow> (bytes \<times> bool \<times> bytes) list" where
  "supported_gamepads runtime vigem =
     (case runtime of
        None \<Rightarrow> static_supported_gamepads
      | Some caps \<Rightarrow>
          let reason = (if hc_gamepad caps then [] else ascii ''gamepads.virtualhid-not-available'');
              auto = (hc_gamepad caps \<or> vigem)
          in (ascii ''auto'', auto, if auto then [] else reason) #
             map (\<lambda>(n, p).
               let enabled = (hc_gamepad caps \<or> vigem \<and> (n = ascii ''x360'' \<or> n = ascii ''ds4''))
               in (n, enabled, if enabled then [] else reason)) gamepad_profiles)"

text \<open>\<open>probe_gamepads\<close> of \<open>src/input.cpp\<close>: whether no gamepad can be made.\<close>

definition probe_gamepads :: "(bytes \<times> bool \<times> bytes) list \<Rightarrow> bool" where
  "probe_gamepads gs \<longleftrightarrow> \<not> (\<exists>(n, enabled, reason) \<in> set gs. enabled \<and> n \<noteq> ascii ''auto'')"

text \<open>\<open>get_capabilities\<close> on Linux: pen and touch, and touch pads of gamepads.\<close>

definition get_capabilities :: "hid_lib \<Rightarrow> input_t \<Rightarrow> hid_caps option \<Rightarrow> bool \<times> bool" where
  "get_capabilities l cf runtime =
     (case runtime of
        None \<Rightarrow> (False, False)
      | Some caps \<Rightarrow> (it_native_pen_touch cf \<and> (hc_touchscreen caps \<or> hc_pen_tablet caps),
          configured_gamepad_supports_touchpad l cf))"

section \<open>What is held down\<close>

text \<open>What a list of calls leaves held, when every call presses and releases some things.\<close>

definition held_by :: "('c \<Rightarrow> 'k set) \<Rightarrow> ('c \<Rightarrow> 'k set) \<Rightarrow> 'c list \<Rightarrow> 'k set" where
  "held_by presses releases cs = fold (\<lambda>c H. (H - releases c) \<union> presses c) cs {}"

lemma held_Nil [simp]: "held_by presses releases [] = {}"
  by (simp add: held_by_def)

lemma held_snoc [simp]: "held_by presses releases (cs @ [c]) = (held_by presses releases cs - releases c) \<union> presses c"
  by (simp add: held_by_def)

lemma held_snoc2 [simp]:
  "held_by presses releases (cs @ [c, d]) = ((held_by presses releases cs - releases c) \<union> presses c - releases d) \<union> presses d"
  by (simp add: held_by_def)

lemma held_releasing:
  "(\<And>c. c \<in> set ds \<Longrightarrow> presses c = {}) \<Longrightarrow> held_by presses releases (cs @ ds) = held_by presses releases cs - (\<Union>c \<in> set ds. releases c)"
proof (induction ds arbitrary: cs)
  case (Cons d ds)
  from Cons.IH [of "cs @ [d]"] Cons.prems show ?case by auto
qed simp

subsection \<open>Contacts of the touch pads\<close>

fun contact_set :: "hid_call \<Rightarrow> (nat \<times> nat) set" where
  "contact_set (Set_Contact nr i t) = {(nr, i)}"
| "contact_set _ = {}"

text \<open>A gamepad that is made or destroyed has no contacts.\<close>

fun contact_cleared :: "hid_call \<Rightarrow> (nat \<times> nat) set" where
  "contact_cleared (Clear_Contact nr i) = {(nr, i)}"
| "contact_cleared (Create_Gamepad nr p m) = {nr} \<times> UNIV"
| "contact_cleared (Destroy_Gamepad nr) = {nr} \<times> UNIV"
| "contact_cleared _ = {}"

definition contacts_held :: "hid_call list \<Rightarrow> (nat \<times> nat) set" where
  "contacts_held = held_by contact_set contact_cleared"

definition ids_ok :: "u32 option list \<Rightarrow> bool" where
  "ids_ok ids \<longleftrightarrow> length ids = 2 \<and> (ids ! 0 = None \<or> ids ! 0 \<noteq> ids ! 1)"

definition slots_of :: "nat \<Rightarrow> input_context \<Rightarrow> nat set" where
  "slots_of nr c =
     (if nr < length (ic_gamepads c)
      then case ic_gamepads c ! nr of None \<Rightarrow> {} | Some g \<Rightarrow> {i. i < 2 \<and> gx_touch_ids g ! i \<noteq> None} else {})"

definition hid_ok :: "input_context \<Rightarrow> bool" where
  "hid_ok c \<longleftrightarrow> length (ic_gamepads c) = MAX_GAMEPADS \<and>
     (\<forall>g. Some g \<in> set (ic_gamepads c) \<longrightarrow> ids_ok (gx_touch_ids g)) \<and>
     (\<forall>nr i. (nr, i) \<in> contacts_held (ic_calls c) \<longleftrightarrow> i \<in> slots_of nr c)"

inductive hid_step :: "input_context \<Rightarrow> input_context \<Rightarrow> bool" where
  alloc: "hid_step c (snd (vh_alloc_gamepad l mt cf random created i ci a queue c))"
| rebind: "hid_step c (snd (vh_rebind_gamepad mt i ci queue c))"
| free: "hid_step c (vh_free_gamepad nr c)"
| out: "hid_step c (vh_output nr res c)"
| update: "hid_step c (vh_gamepad_update l cf cached nr st c)"
| touch: "hid_step c (vh_gamepad_touch nr t c)"
| motion: "hid_step c (vh_gamepad_motion nr m v c)"
| battery: "hid_step c (vh_gamepad_battery nr bs percentage c)"
| move: "hid_step c (vh_move_mouse dx dy c)"
| abs: "hid_step c (vh_abs_mouse w h x y c)"
| button: "hid_step c (vh_button_mouse li b release c)"
| vscroll: "hid_step c (vh_scroll d c)"
| hscroll: "hid_step c (vh_hscroll d c)"
| key: "hid_step c (vh_keyboard_update k release c)"
| unicode: "hid_step c (vh_unicode utf8 c)"
| refresh: "hid_step c (refresh_mouse made c)"

inductive hid_reach :: "input_context \<Rightarrow> bool" where
  start: "hid_reach (input_context_new runtime k m)"
| step: "hid_reach c \<Longrightarrow> hid_step c c' \<Longrightarrow> hid_reach c'"

lemma slot_of_Some: "slot_of x xs = Some i \<Longrightarrow> i < length xs \<and> xs ! i = x"
  by (induction xs arbitrary: i) (auto split: if_splits)

lemma slot_of_None: "slot_of x xs = None \<longleftrightarrow> x \<notin> set xs"
  by (induction xs) auto

lemma ids_ok_iff: "ids_ok ids \<longleftrightarrow> (\<exists>a b. ids = [a, b] \<and> (a = None \<or> a \<noteq> b))"
  by (auto simp: ids_ok_def length_Suc_conv numeral_2_eq_2)

text \<open>The slots after an event, and the contacts that its calls leave.\<close>

lemma slot_of_two: "slot_of x [a, b] = (if a = x then Some 0 else if b = x then Some 1 else None)"
  by simp

lemma less_two: "i < 2 \<longleftrightarrow> i = 0 \<or> i = (1 :: nat)"
  by auto

text \<open>What an event can do: release everything, nothing, place one contact, or release one.\<close>

lemma touch_slots_cases:
  assumes "touch_slots nr t ids = (ids', cs)" "ids_ok ids"
  obtains
    (all) "ids' = [None, None]" "cs = map (Clear_Contact nr) (filter (\<lambda>i. ids ! i \<noteq> None) [0, 1])"
  | (none) "ids' = ids" "cs = []"
  | (place) j p c where "j < 2" "ids' = ids[j := Some p]" "cs = [Set_Contact nr j c]" "ids_ok ids'"
  | (lift) j where "j < 2" "ids' = ids[j := None]" "cs = [Clear_Contact nr j]"
proof -
  from assms(2) have two: "length ids = 2" by (simp add: ids_ok_def)
  show thesis
  proof (cases "pt_event t = TE_Cancel_All")
    case True
    have "ids' = [None, None]" using assms(1) two True by (auto simp: touch_slots_def length_Suc_conv numeral_2_eq_2)
    with assms(1) two True show thesis by (intro all) (auto simp: touch_slots_def numeral_2_eq_2)
  next
    case False
    show thesis
    proof (cases "slot_of (Some (pt_pointer t)) ids")
      case (Some j)
      from slot_of_Some [OF this] two have j: "j < 2" "ids ! j = Some (pt_pointer t)" by simp_all
      then have same: "ids[j := Some (pt_pointer t)] = ids" by (metis list_update_id)
      from assms(1) False Some same j(1) assms(2) show thesis
        by (auto simp: touch_slots_def Let_def split: if_splits intro: none lift place [of j "pt_pointer t"])
    next
      case None
      note fresh = None
      show thesis
      proof (cases "pt_event t = TE_Down \<and> slot_of None ids \<noteq> None")
        case True
        then obtain j where slot: "slot_of None ids = Some j" by blast
        from slot_of_Some [OF slot] two have j: "j < 2" "ids ! j = None" by simp_all
        have "ids_ok (ids[j := Some (pt_pointer t)])"
          using fresh j assms(2) by (auto simp: ids_ok_iff slot_of_None less_two nth_Cons')
        with assms(1) False None True slot j(1) show thesis
          by (auto simp: touch_slots_def Let_def intro: place [of j "pt_pointer t"])
      next
        case False
        with assms(1) \<open>pt_event t \<noteq> TE_Cancel_All\<close> None show thesis
          by (auto simp: touch_slots_def Let_def split: if_splits option.splits intro: none)
      qed
    qed
  qed
qed

lemma touch_slots_held:
  assumes "touch_slots nr t ids = (ids', cs)" "ids_ok ids"
    and "\<And>i. (nr, i) \<in> held_by contact_set contact_cleared calls \<longleftrightarrow> i < 2 \<and> ids ! i \<noteq> None"
  shows "ids_ok ids'"
    "(n, i) \<in> held_by contact_set contact_cleared (calls @ cs) \<longleftrightarrow>
      (if n = nr then i < 2 \<and> ids' ! i \<noteq> None else (n, i) \<in> held_by contact_set contact_cleared calls)"
proof -
  from assms(2) have two: "length ids = 2" by (simp add: ids_ok_def)
  have "ids_ok ids' \<and> ((n, i) \<in> held_by contact_set contact_cleared (calls @ cs) \<longleftrightarrow>
      (if n = nr then i < 2 \<and> ids' ! i \<noteq> None else (n, i) \<in> held_by contact_set contact_cleared calls))"
    using assms(1,2)
  proof (cases rule: touch_slots_cases)
    case all
    have "held_by contact_set contact_cleared (calls @ cs) = held_by contact_set contact_cleared calls - (\<Union>c \<in> set cs. contact_cleared c)"
      by (rule held_releasing) (auto simp: all)
    with assms(3) [of i] show ?thesis by (auto simp: all ids_ok_iff less_two)
  next
    case none
    with assms(2,3) show ?thesis by simp
  next
    case (place j p c)
    with assms(3) [of i] two show ?thesis by (auto simp: nth_list_update)
  next
    case (lift j)
    with assms(2) have "ids_ok ids'" by (auto simp: ids_ok_iff less_two)
    with lift assms(3) [of i] two show ?thesis by (auto simp: nth_list_update)
  qed
  then show "ids_ok ids'"
    "(n, i) \<in> held_by contact_set contact_cleared (calls @ cs) \<longleftrightarrow>
      (if n = nr then i < 2 \<and> ids' ! i \<noteq> None else (n, i) \<in> held_by contact_set contact_cleared calls)" by simp_all
qed

lemma contacts_snoc [simp]: "contacts_held (cs @ [c]) = (contacts_held cs - contact_cleared c) \<union> contact_set c"
  by (simp add: contacts_held_def)

lemma contacts_neutral:
  "list_all (\<lambda>c. contact_set c = {} \<and> contact_cleared c = {}) ds \<Longrightarrow> contacts_held (cs @ ds) = contacts_held cs"
  unfolding contacts_held_def by (subst held_releasing) (auto simp: list_all_iff)

lemma hid_ok_call: "list_all (\<lambda>c. contact_set c = {} \<and> contact_cleared c = {}) cs \<Longrightarrow> hid_ok (hid_emit cs c) = hid_ok c"
  by (simp add: hid_ok_def hid_emit_def contacts_neutral slots_of_def)

lemma hid_ok_feedback: "hid_ok (hid_feedback ms c) = hid_ok c"
  by (simp add: hid_ok_def hid_feedback_def slots_of_def)

lemma hid_ok_mouse: "hid_ok (c\<lparr> ic_mouse := b \<rparr>) = hid_ok c"
  by (simp add: hid_ok_def slots_of_def)

lemma slots_of_call [simp]: "slots_of n (hid_emit cs c) = slots_of n c" "slots_of n (hid_feedback ms c) = slots_of n c"
  by (simp_all add: slots_of_def hid_emit_def hid_feedback_def)

lemma slots_of_set_pad:
  "length (ic_gamepads c) = MAX_GAMEPADS \<Longrightarrow> 0 \<le> nr \<Longrightarrow> nr < int MAX_GAMEPADS \<Longrightarrow>
    slots_of n (set_pad_context nr (Some g) c) = (if n = nat nr then {i. i < 2 \<and> gx_touch_ids g ! i \<noteq> None} else slots_of n c)"
  "length (ic_gamepads c) = MAX_GAMEPADS \<Longrightarrow> 0 \<le> nr \<Longrightarrow> nr < int MAX_GAMEPADS \<Longrightarrow>
    slots_of n (set_pad_context nr None c) = (if n = nat nr then {} else slots_of n c)"
  by (auto simp: slots_of_def set_pad_context_def nth_list_update split: option.splits)

lemma slots_of_pad:
  "has_gamepad nr c \<Longrightarrow> slots_of (nat nr) c = {i. i < 2 \<and> gx_touch_ids (the (ic_gamepads c ! nat nr)) ! i \<noteq> None}"
  by (auto simp: slots_of_def has_gamepad_def)

lemma pads_set_pad [simp]:
  "length (ic_gamepads (set_pad_context nr g c)) = length (ic_gamepads c)" "ic_calls (set_pad_context nr g c) = ic_calls c"
  "Some h \<in> set (ic_gamepads (set_pad_context nr g c)) \<Longrightarrow> Some h \<in> set (ic_gamepads c) \<or> g = Some h"
  by (auto simp: set_pad_context_def dest: set_update_subset_insert [THEN subsetD])

lemma pad_member: "has_gamepad nr c \<Longrightarrow> Some (the (ic_gamepads c ! nat nr)) \<in> set (ic_gamepads c)"
  by (auto simp: has_gamepad_def) (metis nth_mem nat_less_iff)

text \<open>A gamepad whose slots are those it had.\<close>

lemma hid_ok_same_slots:
  assumes "hid_ok c" "has_gamepad nr c" "gx_touch_ids g = gx_touch_ids (the (ic_gamepads c ! nat nr))"
  shows "hid_ok (set_pad_context nr (Some g) c)"
proof -
  from assms(2) assms(1) have nr: "0 \<le> nr" "nr < int MAX_GAMEPADS" "length (ic_gamepads c) = MAX_GAMEPADS"
    by (auto simp: has_gamepad_def hid_ok_def)
  have "ids_ok (gx_touch_ids g)" using assms pad_member [OF assms(2)] by (auto simp: hid_ok_def)
  moreover have "slots_of n (set_pad_context nr (Some g) c) = slots_of n c" for n
    using slots_of_set_pad(1) [OF nr(3,1,2)] slots_of_pad [OF assms(2)] assms(3) by simp
  ultimately show ?thesis using assms(1) by (auto simp: hid_ok_def dest: pads_set_pad(3))
qed

lemma hid_ok_touch: "hid_ok c \<Longrightarrow> hid_ok (vh_gamepad_touch nr t c)"
proof (cases "has_gamepad nr c \<and> su_touchpad (gx_support (the (ic_gamepads c ! nat nr)))")
  case True
  assume ok: "hid_ok c"
  let ?g = "the (ic_gamepads c ! nat nr)"
  from True ok have nr: "0 \<le> nr" "nr < int MAX_GAMEPADS" "length (ic_gamepads c) = MAX_GAMEPADS"
    by (auto simp: has_gamepad_def hid_ok_def)
  obtain ids cs where t: "touch_slots (nat nr) t (gx_touch_ids ?g) = (ids, cs)" by fastforce
  from pad_member True ok have g: "ids_ok (gx_touch_ids ?g)" by (auto simp: hid_ok_def)
  have "(nat nr, i) \<in> contacts_held (ic_calls c) \<longleftrightarrow> i < 2 \<and> gx_touch_ids ?g ! i \<noteq> None" for i
    using ok slots_of_pad [of nr c] True by (simp add: hid_ok_def)
  note held = touch_slots_held [OF t g this [unfolded contacts_held_def], folded contacts_held_def]
  let ?c = "hid_emit cs (set_pad_context nr (Some (?g\<lparr> gx_touch_ids := ids \<rparr>)) c)"
  have "slots_of n ?c = (if n = nat nr then {i. i < 2 \<and> ids ! i \<noteq> None} else slots_of n c)" for n
    using slots_of_set_pad(1) [OF nr(3,1,2)] by simp
  moreover have "ic_calls ?c = ic_calls c @ cs" by (simp add: hid_emit_def)
  ultimately have "hid_ok ?c"
    using ok held by (auto simp: hid_ok_def hid_emit_def dest!: pads_set_pad(3))
  with True t show ?thesis by (simp add: vh_gamepad_touch_def)
qed (auto simp: vh_gamepad_touch_def)

lemma hid_ok_free: "hid_ok c \<Longrightarrow> hid_ok (vh_free_gamepad nr c)"
proof (cases "has_gamepad nr c")
  case True
  assume ok: "hid_ok c"
  from True ok have nr: "0 \<le> nr" "nr < int MAX_GAMEPADS" "length (ic_gamepads c) = MAX_GAMEPADS"
    by (auto simp: has_gamepad_def hid_ok_def)
  have "slots_of n (hid_emit [Destroy_Gamepad (nat nr)] (set_pad_context nr None c)) = (if n = nat nr then {} else slots_of n c)" for n
    using slots_of_set_pad(2) [OF nr(3,1,2)] by simp
  with True ok show ?thesis
    by (auto simp: vh_free_gamepad_def hid_ok_def hid_emit_def dest!: pads_set_pad(3))
qed (simp add: vh_free_gamepad_def)

lemma no_slots: "{i. i < 2 \<and> [None, None :: u32 option] ! i \<noteq> None} = {}"
proof (rule equals0I)
  fix i :: nat
  assume i: "i \<in> {i. i < 2 \<and> [None, None :: u32 option] ! i \<noteq> None}"
  then have "i = 0 \<or> i = 1" by auto
  with i show False by (elim disjE) auto
qed

lemma hid_ok_alloc: "hid_ok c \<Longrightarrow> hid_ok (snd (vh_alloc_gamepad l mt cf random created i ci a queue c))"
proof -
  assume ok: "hid_ok c"
  have "hid_ok (set_pad_context i (Some g) (hid_feedback ms (hid_emit (Create_Gamepad (nat i) p m # old) c)))"
    if "0 \<le> i" "i < int (length (ic_gamepads c))" "gx_touch_ids g = [None, None]" "old = [] \<or> old = [Destroy_Gamepad (nat i)]"
    for g ms p m old
  proof -
    let ?c = "hid_feedback ms (hid_emit (Create_Gamepad (nat i) p m # old) c)"
    from ok that(1,2) have len: "length (ic_gamepads ?c) = MAX_GAMEPADS" "i < int MAX_GAMEPADS"
      by (simp_all add: hid_ok_def hid_feedback_def hid_emit_def)
    have "slots_of n (set_pad_context i (Some g) ?c) = (if n = nat i then {} else slots_of n c)" for n
      using slots_of_set_pad(1) [OF len(1) that(1) len(2), of n g, unfolded that(3) no_slots] by simp
    moreover have "contacts_held (ic_calls ?c) = contacts_held (ic_calls c) - {nat i} \<times> UNIV"
      using that(4) by (auto simp: hid_feedback_def hid_emit_def contacts_held_def)
    moreover have "ids_ok (gx_touch_ids h)" if "Some h \<in> set (ic_gamepads (set_pad_context i (Some g) ?c))" for h
      using pads_set_pad(3) [OF that] ok \<open>gx_touch_ids g = _\<close> by (auto simp: hid_ok_def ids_ok_def hid_feedback_def hid_emit_def)
    ultimately show ?thesis using ok len(1) unfolding hid_ok_def by simp
  qed
  with ok show ?thesis
    by (auto simp: vh_alloc_gamepad_def Let_def split: option.splits)
qed

lemma handle_output_ids: "gx_touch_ids (snd (handle_output g out)) = gx_touch_ids g"
  by (cases out) simp_all

lemma hid_ok_step: "hid_step c c' \<Longrightarrow> hid_ok c \<Longrightarrow> hid_ok c'"
proof (induction rule: hid_step.induct)
  case (rebind c mt i ci queue)
  then show ?case
    by (auto simp: vh_rebind_gamepad_def Let_def hid_ok_feedback intro: hid_ok_same_slots)
next
  case (out c nr res)
  then show ?case
    using handle_output_ids [of "the (ic_gamepads c ! nat nr)" res]
    by (auto simp: vh_output_def hid_ok_feedback split: prod.split intro!: hid_ok_same_slots)
qed (auto simp: vh_gamepad_update_def vh_gamepad_motion_def vh_gamepad_battery_def vh_move_mouse_def vh_abs_mouse_def
    vh_button_mouse_def vh_scroll_def vh_hscroll_def vh_keyboard_update_def vh_unicode_def refresh_mouse_def hid_ok_call
    hid_ok_mouse hid_ok_touch hid_ok_free hid_ok_alloc split: motion_type.splits option.splits)

lemma hid_ok_new: "hid_ok (input_context_new runtime k m)"
proof -
  have "hid_ok \<lparr> ic_runtime = runtime, ic_keyboard = b, ic_mouse = b', ic_gamepads = replicate MAX_GAMEPADS None,
      ic_calls = cs, ic_feedback = [] \<rparr>" if "cs \<in> {[], [Create_Keyboard], [Create_Mouse], [Create_Keyboard, Create_Mouse]}" for b b' cs
    using that by (auto simp: hid_ok_def slots_of_def contacts_held_def held_by_def)
  then show ?thesis
    by (auto simp: input_context_new_def refresh_mouse_def Let_def hid_emit_def split: option.split)
qed

lemma hid_reach_ok: "hid_reach c \<Longrightarrow> hid_ok c"
  by (induction rule: hid_reach.induct) (auto intro: hid_ok_new hid_ok_step)

text \<open>
  In every reachable state, every contact that a virtual gamepad holds belongs to one of its two slots, and the
  slots hold different pointers of the client: no contact is left on a device that no later event can release.
\<close>
theorem touchpad_contacts_owned:
  assumes "hid_reach c"
  shows "contacts_held (ic_calls c) = {(nr, i). i \<in> slots_of nr c}"
    "Some g \<in> set (ic_gamepads c) \<Longrightarrow> length (gx_touch_ids g) = 2"
    "Some g \<in> set (ic_gamepads c) \<Longrightarrow> gx_touch_ids g ! 0 = Some p \<Longrightarrow> gx_touch_ids g ! 1 \<noteq> Some p"
  using hid_reach_ok [OF assms] by (auto simp: hid_ok_def ids_ok_def)

section \<open>Feedback: properties\<close>

definition outputs_of :: "gamepad_context \<Rightarrow> pad_output list \<Rightarrow> (nat \<times> gamepad_feedback) list \<times> gamepad_context" where
  "outputs_of g outs =
     fold (\<lambda>out (ms, g). let (ms', g') = handle_output g out in (ms @ ms', g')) outs ([], g)"

fun rumble_of :: "pad_output \<Rightarrow> (u16 \<times> u16) list" where
  "rumble_of (Out_Rumble low high) = [(low, high)]"
| "rumble_of _ = []"

fun rumble_sent :: "gamepad_feedback \<Rightarrow> (u16 \<times> u16 \<times> u16) list" where
  "rumble_sent (Rumble i low high) = [(i, low, high)]"
| "rumble_sent _ = []"

lemma outputs_fold:
  "fold (\<lambda>out (ms, g). let (ms', g') = handle_output g out in (ms @ ms', g')) outs (ms, g) =
    (ms @ fst (outputs_of g outs), snd (outputs_of g outs))"
proof (induction outs arbitrary: ms g)
  case (Cons out outs)
  obtain ms' g' where h: "handle_output g out = (ms', g')" by fastforce
  show ?case using Cons.IH [of "ms @ ms'" g'] Cons.IH [of ms' g'] by (simp add: outputs_of_def h)
qed (simp add: outputs_of_def)

lemma outputs_Nil [simp]: "outputs_of g [] = ([], g)"
  by (simp add: outputs_of_def)

lemma outputs_Cons [simp]:
  "outputs_of g (out # outs) =
    (let (ms, g') = handle_output g out; (ms', g'') = outputs_of g' outs in (ms @ ms', g''))"
proof -
  obtain ms g' where h: "handle_output g out = (ms, g')" by fastforce
  have "outputs_of g (out # outs) = (ms @ fst (outputs_of g' outs), snd (outputs_of g' outs))"
    using outputs_fold [of outs ms g'] by (simp add: outputs_of_def h)
  then show ?thesis by (simp add: h case_prod_unfold Let_def)
qed

lemma handle_output_keeps:
  "gx_queue (snd (handle_output g out)) = gx_queue g" "gx_index (snd (handle_output g out)) = gx_index g"
  by (cases out; simp)+

text \<open>Rumble values, each once until it changes; \<open>prev\<close> is what was sent before.\<close>

fun changes :: "'a option \<Rightarrow> 'a list \<Rightarrow> 'a list" where
  "changes prev [] = []"
| "changes prev (x # xs) = (if prev = Some x then changes prev xs else x # changes (Some x) xs)"

lemma changes_Some: "changes (Some x) xs = tl (remdups_adj (x # xs))"
  by (induction xs arbitrary: x) (auto simp: remdups_adj_Cons split: list.split)

lemma changes_None: "changes None xs = remdups_adj xs"
  by (cases xs) (simp_all add: changes_Some)

lemma rumble_changes:
  "gx_queue g = Some q \<Longrightarrow>
    concat (map (\<lambda>(q, m). rumble_sent m) (fst (outputs_of g outs))) =
      map (\<lambda>(low, high). (ucast (gx_index g), low, high)) (changes (gx_rumble g) (concat (map rumble_of outs)))"
proof (induction outs arbitrary: g)
  case (Cons out outs)
  from Cons.IH [of "snd (handle_output g out)"] Cons.prems show ?case
    by (cases out) (auto simp: handle_output_keeps raise_feedback_def case_prod_unfold Let_def)
qed simp

text \<open>
  A client gets every change of the rumble of its gamepad, in order and once each, under its own number of the
  gamepad; repeated values are not sent.
\<close>
theorem rumble_reaches_client:
  assumes "gx_queue g = Some q" "gx_rumble g = None"
  shows "concat (map (\<lambda>(q, m). rumble_sent m) (fst (outputs_of g outs))) =
      map (\<lambda>(low, high). (ucast (gx_index g), low, high)) (remdups_adj (concat (map rumble_of outs)))"
    "\<forall>(q', m) \<in> set (fst (outputs_of g outs)). q' = q \<and> fb_id m = ucast (gx_index g)"
proof -
  show "concat (map (\<lambda>(q, m). rumble_sent m) (fst (outputs_of g outs))) =
      map (\<lambda>(low, high). (ucast (gx_index g), low, high)) (remdups_adj (concat (map rumble_of outs)))"
    using rumble_changes [OF assms(1)] assms(2) by (simp add: changes_None)
  have "\<forall>(q', m) \<in> set (fst (outputs_of g outs)). q' = q \<and> fb_id m = ucast (gx_index g)"
    using assms(1)
  proof (induction outs arbitrary: g)
    case (Cons out outs)
    from Cons.IH [of "snd (handle_output g out)"] Cons.prems show ?case
      by (cases out) (auto simp: handle_output_keeps raise_feedback_def case_prod_unfold Let_def)
  qed simp
  then show "\<forall>(q', m) \<in> set (fst (outputs_of g outs)). q' = q \<and> fb_id m = ucast (gx_index g)" .
qed

text \<open>
  After a gamepad was bound to another client, whatever the game does with it goes to that client alone, under the
  number that client has for it.
\<close>
theorem rebound_feedback:
  assumes "vh_rebind_gamepad mt i ci (Some q) c = (0, c')"
  shows "\<exists>ms. ic_feedback (fold (vh_output i) outs c') = ic_feedback c @ ms \<and> (\<forall>(q', m) \<in> set ms. q' = q \<and> fb_id m = ucast ci)"
proof -
  have keep: "\<exists>ms. ic_feedback (fold (vh_output i) outs d) = ic_feedback d @ ms \<and> (\<forall>(q', m) \<in> set ms. q' = q \<and> fb_id m = ucast ci)"
    if "has_gamepad i d" "gx_queue (the (ic_gamepads d ! nat i)) = Some q" "gx_index (the (ic_gamepads d ! nat i)) = ci" for d
    using that
  proof (induction outs arbitrary: d)
    case (Cons out outs)
    let ?g = "the (ic_gamepads d ! nat i)"
    obtain ms g where h: "handle_output ?g out = (ms, g)" by fastforce
    have g: "gx_queue g = Some q" "gx_index g = ci" using handle_output_keeps [of ?g out] Cons.prems by (simp_all add: h)
    have ms: "\<forall>(q', m) \<in> set ms. q' = q \<and> fb_id m = ucast ci"
      using h Cons.prems by (cases out) (auto simp: raise_feedback_def split: if_splits)
    let ?d = "hid_feedback ms (set_pad_context i (Some g) d)"
    have "has_gamepad i ?d" "the (ic_gamepads ?d ! nat i) = g"
      using Cons.prems(1) by (auto simp: has_gamepad_def hid_feedback_def set_pad_context_def)
    with Cons.IH [of ?d] g obtain ms' where ms': "ic_feedback (fold (vh_output i) outs ?d) = ic_feedback ?d @ ms'"
      "\<forall>(q', m) \<in> set ms'. q' = q \<and> fb_id m = ucast ci" by auto
    have "ic_feedback ?d = ic_feedback d @ ms" by (simp add: hid_feedback_def set_pad_context_def)
    moreover have "vh_output i out d = ?d" using Cons.prems(1) by (simp add: vh_output_def h)
    ultimately show ?case using ms ms' by (intro exI [of _ "ms @ ms'"]) auto
  qed simp
  let ?g = "(the (ic_gamepads c ! nat i))\<lparr> gx_queue := Some q, gx_index := ci, gx_rumble := None, gx_triggers := None, gx_rgb := None \<rparr>"
  from assms have has: "has_gamepad i c" and c': "c' = hid_feedback (motion_requests mt ci ?g) (set_pad_context i (Some ?g) c)"
    by (auto simp: vh_rebind_gamepad_def Let_def split: if_splits)
  then have "has_gamepad i c'" "the (ic_gamepads c' ! nat i) = ?g"
    by (auto simp: has_gamepad_def hid_feedback_def set_pad_context_def)
  with keep [of c'] obtain ms where ms: "ic_feedback (fold (vh_output i) outs c') = ic_feedback c' @ ms"
    "\<forall>(q', m) \<in> set ms. q' = q \<and> fb_id m = ucast ci" by auto
  have "ic_feedback c' = ic_feedback c @ motion_requests mt ci ?g" by (simp add: c' hid_feedback_def set_pad_context_def)
  moreover have "\<forall>(q', m) \<in> set (motion_requests mt ci ?g). q' = q \<and> fb_id m = ucast ci"
    by (auto simp: motion_requests_def raise_feedback_def)
  ultimately show ?thesis using ms by (intro exI [of _ "motion_requests mt ci ?g @ ms"]) auto
qed

section \<open>Touch screen and pen: properties\<close>

fun screen_set :: "client_call \<Rightarrow> int set" where
  "screen_set (Place_Contact t) = {sc_id t}"
| "screen_set _ = {}"

fun screen_cleared :: "client_call \<Rightarrow> int set" where
  "screen_cleared (Release_Contact i) = {i}"
| "screen_cleared (Cancel_Contact i) = {i}"
| "screen_cleared (Leave_Contact i) = {i}"
| "screen_cleared _ = {}"

fun pen_pressed :: "client_call \<Rightarrow> pen_button set" where
  "pen_pressed (Pen_Button_Set b True) = {b}"
| "pen_pressed _ = {}"

fun pen_released :: "client_call \<Rightarrow> pen_button set" where
  "pen_released (Pen_Button_Set b False) = {b}"
| "pen_released _ = {}"

definition client_ok :: "client_context \<Rightarrow> bool" where
  "client_ok c \<longleftrightarrow> finite (cc_active c) \<and> held_by screen_set screen_cleared (cc_calls c) = cc_active c \<and>
     held_by pen_pressed pen_released (cc_calls c) = cc_buttons c"

inductive client_reach :: "client_context \<Rightarrow> bool" where
  start: "client_reach (client_context_new runtime t p)"
| touch: "client_reach c \<Longrightarrow> client_reach (vh_touch_update viewport t c)"
| pen: "client_reach c \<Longrightarrow> client_reach (vh_pen_update axes viewport p c)"

lemma client_ok_new: "client_ok (client_context_new runtime t p)"
  by (auto simp: client_ok_def client_context_new_def Let_def held_by_def split: option.split)

lemma pen_buttons_all: "set pen_button_order = UNIV"
  by (auto simp: pen_button_order_def) (metis pen_button.exhaust)

lemma cancel_all_ok:
  assumes "client_ok c"
  shows "client_ok (cancel_all_touches c)" "cc_touch c \<Longrightarrow> cc_active (cancel_all_touches c) = {}"
proof -
  let ?cs = "map Cancel_Contact (sorted_list_of_set (cc_active c))"
  have "held_by screen_set screen_cleared (cc_calls c @ ?cs) = held_by screen_set screen_cleared (cc_calls c) - (\<Union>d \<in> set ?cs. screen_cleared d)"
    by (rule held_releasing) auto
  also have "\<dots> = {}" using assms by (auto simp: client_ok_def)
  finally have screen: "held_by screen_set screen_cleared (cc_calls c @ ?cs) = {}" .
  have "held_by pen_pressed pen_released (cc_calls c @ ?cs) = held_by pen_pressed pen_released (cc_calls c) - (\<Union>d \<in> set ?cs. pen_released d)"
    by (rule held_releasing) auto
  with screen assms show "client_ok (cancel_all_touches c)" "cc_touch c \<Longrightarrow> cc_active (cancel_all_touches c) = {}"
    by (auto simp: cancel_all_touches_def client_ok_def client_emit_def)
qed

lemma touch_update_ok: "client_ok c \<Longrightarrow> client_ok (vh_touch_update viewport t c)"
  using cancel_all_ok [of c]
  by (cases "ti_event t") (auto simp: vh_touch_update_def Let_def client_ok_def client_emit_def)

lemma update_buttons_ok:
  assumes "client_ok c"
  shows "client_ok (update_pen_buttons wanted c)" "cc_buttons (update_pen_buttons wanted c) = wanted"
proof -
  have one: "client_ok d'" "cc_buttons d' = (if b \<in> wanted then insert b (cc_buttons d) else cc_buttons d - {b})"
    if "client_ok d" "d' = (if (b \<in> wanted) = (b \<in> cc_buttons d) then d
        else (client_emit [Pen_Button_Set b (b \<in> wanted)] d)
          \<lparr> cc_buttons := (if b \<in> wanted then insert b (cc_buttons d) else cc_buttons d - {b}) \<rparr>)" for d d' b
    using that by (cases "b \<in> wanted"; auto simp: client_ok_def client_emit_def)+
  have "client_ok (update_pen_buttons wanted c) \<and> cc_buttons (update_pen_buttons wanted c) = wanted"
  proof -
    let ?step = "\<lambda>b c. if (b \<in> wanted) = (b \<in> cc_buttons c) then c
                else (client_emit [Pen_Button_Set b (b \<in> wanted)] c)
                  \<lparr> cc_buttons := (if b \<in> wanted then insert b (cc_buttons c) else cc_buttons c - {b}) \<rparr>"
    have "client_ok (fold ?step bs d) \<and> cc_buttons (fold ?step bs d) = (cc_buttons d - set bs) \<union> (wanted \<inter> set bs)"
      if "client_ok d" for bs d
      using that
    proof (induction bs arbitrary: d)
      case (Cons b bs)
      note o = one [OF Cons.prems refl, of b]
      from Cons.IH [OF o(1)] o(2) show ?case by auto
    qed simp
    from this [OF assms, of pen_button_order] show ?thesis by (simp add: update_pen_buttons_def pen_buttons_all)
  qed
  then show "client_ok (update_pen_buttons wanted c)" "cc_buttons (update_pen_buttons wanted c) = wanted" by simp_all
qed

lemma release_buttons_ok:
  assumes "client_ok c"
  shows "client_ok (release_pen_buttons c)" "cc_buttons (release_pen_buttons c) = {}"
proof -
  let ?cs = "map (\<lambda>b. Pen_Button_Set b False) (filter (\<lambda>b. b \<in> cc_buttons c) pen_button_order)"
  have "held_by pen_pressed pen_released (cc_calls c @ ?cs) = held_by pen_pressed pen_released (cc_calls c) - (\<Union>d \<in> set ?cs. pen_released d)"
    by (rule held_releasing) auto
  also have "\<dots> = {}" using assms by (auto simp: client_ok_def pen_buttons_all)
  finally have pen: "held_by pen_pressed pen_released (cc_calls c @ ?cs) = {}" .
  have "held_by screen_set screen_cleared (cc_calls c @ ?cs) = held_by screen_set screen_cleared (cc_calls c) - (\<Union>d \<in> set ?cs. screen_cleared d)"
    by (rule held_releasing) auto
  with pen assms show "client_ok (release_pen_buttons c)" "cc_buttons (release_pen_buttons c) = {}"
    by (auto simp: release_pen_buttons_def client_ok_def client_emit_def)
qed

lemma pen_update_ok: "client_ok c \<Longrightarrow> client_ok (vh_pen_update axes viewport p c)"
proof -
  have place: "client_ok (client_emit [Place_Tool st] d) = client_ok d" for st d
    by (auto simp: client_ok_def client_emit_def)
  assume "client_ok c"
  then show ?thesis
    using update_buttons_ok(1) release_buttons_ok(1) by (simp add: vh_pen_update_def Let_def place)
qed

lemma client_reach_ok: "client_reach c \<Longrightarrow> client_ok c"
  by (induction rule: client_reach.induct) (auto intro: client_ok_new touch_update_ok pen_update_ok)

text \<open>
  In every reachable state the host knows exactly the contacts on the touch screen and the pressed buttons of the
  pen of a client; a cancel of everything leaves none of them, and after any other event of the pen the pressed buttons
  are those the client reports.
\<close>
theorem client_pointers_tracked:
  assumes "client_reach c"
  shows "held_by screen_set screen_cleared (cc_calls c) = cc_active c" "held_by pen_pressed pen_released (cc_calls c) = cc_buttons c"
    "cc_touch c \<Longrightarrow> ti_event t = TE_Cancel_All \<Longrightarrow>
      held_by screen_set screen_cleared (cc_calls (vh_touch_update viewport t c)) = {}"
    "cc_pen c \<Longrightarrow> held_by pen_pressed pen_released (cc_calls (vh_pen_update axes viewport p c)) =
      (if pi_event p = TE_Cancel_All then {} else pi_buttons p)"
proof -
  note ok = client_reach_ok [OF assms]
  then show "held_by screen_set screen_cleared (cc_calls c) = cc_active c" "held_by pen_pressed pen_released (cc_calls c) = cc_buttons c"
    by (simp_all add: client_ok_def)
  show "held_by screen_set screen_cleared (cc_calls (vh_touch_update viewport t c)) = {}" if "cc_touch c" "ti_event t = TE_Cancel_All"
    using cancel_all_ok [OF ok] that by (simp add: vh_touch_update_def Let_def client_ok_def)
  show "held_by pen_pressed pen_released (cc_calls (vh_pen_update axes viewport p c)) =
      (if pi_event p = TE_Cancel_All then {} else pi_buttons p)" if "cc_pen c"
  proof -
    note u = update_buttons_ok [OF ok, of "pi_buttons p"]
    have "cc_buttons (vh_pen_update axes viewport p c) = (if pi_event p = TE_Cancel_All then {} else pi_buttons p)"
      using that u(2) release_buttons_ok(2) [OF u(1)] by (simp add: vh_pen_update_def Let_def client_emit_def)
    with pen_update_ok [OF ok, of axes viewport p] show ?thesis by (simp add: client_ok_def)
  qed
qed

section \<open>Values: properties\<close>

text \<open>
  Sticks map to \<open>[-1, 1]\<close> with both ends and the centre exact and in order, triggers to \<open>[0, 1]\<close>; a rotation of at
  most a full turn becomes an orientation within a quarter turn.
\<close>
theorem axes_normalized:
  "- 1 \<le> normalize_axis w \<and> normalize_axis w \<le> 1"
  "normalize_axis 0x8000 = - 1" "normalize_axis 0 = 0" "normalize_axis 0x7FFF = 1"
  "sint w \<le> sint w' \<Longrightarrow> normalize_axis w \<le> normalize_axis w'"
  "0 \<le> normalize_trigger v \<and> normalize_trigger v \<le> 1"
  "r \<le> 360 \<Longrightarrow> - 90 \<le> touch_orientation (Some r) \<and> touch_orientation (Some r) \<le> 90"
proof -
  have lo: "sint v \<ge> - 32768" and hi: "sint v \<le> 32767" for v :: u16
    using sint_ge [of v] sint_lt [of v] by simp_all
  have neg: "normalize_axis v = of_int (sint v) / 32768" if "sint v < 0" for v
  proof -
    have "(of_int (sint v) :: rat) \<ge> of_int (- 32768)" using lo [of v] by (simp only: of_int_le_iff)
    then show ?thesis using that by (simp add: normalize_axis_def Let_def)
  qed
  have pos: "normalize_axis v = of_int (sint v) / 32767" if "\<not> sint v < 0" for v
  proof -
    have "(of_int (sint v) :: rat) \<le> of_int 32767" using hi [of v] by (simp only: of_int_le_iff)
    then show ?thesis using that by (simp add: normalize_axis_def Let_def)
  qed
  have "(of_int (sint w) :: rat) / 32768 \<le> 0" if "sint w < 0" using that by (simp add: divide_le_0_iff del: of_int_sint)
  moreover have "(0 :: rat) \<le> of_int (sint w) / 32767" if "\<not> sint w < 0" using that by (simp del: of_int_sint)
  ultimately show "- 1 \<le> normalize_axis w \<and> normalize_axis w \<le> 1"
    unfolding normalize_axis_def Let_def by (auto intro: order_trans [of _ 0] simp del: of_int_sint)
  show "normalize_axis 0x8000 = - 1" "normalize_axis 0 = 0" "normalize_axis 0x7FFF = 1"
    by (simp_all add: normalize_axis_def)
  show "normalize_axis w \<le> normalize_axis w'" if "sint w \<le> sint w'"
  proof -
    have le: "(of_int (sint w) :: rat) \<le> of_int (sint w')" using that by (simp only: of_int_le_iff)
    consider "sint w' < 0" | "sint w < 0" "\<not> sint w' < 0" | "\<not> sint w < 0" "\<not> sint w' < 0" using that by linarith
    then show ?thesis
    proof cases
      case 1
      with that have w: "sint w < 0" by simp
      show ?thesis unfolding neg [OF 1] neg [OF w] using le by (rule divide_right_mono) simp
    next
      case 2
      have "normalize_axis w \<le> 0" unfolding neg [OF 2(1)] using 2(1) by (simp add: divide_le_0_iff del: of_int_sint)
      also have "0 \<le> normalize_axis w'" unfolding pos [OF 2(2)] using 2(2) by (simp del: of_int_sint)
      finally show ?thesis .
    next
      case 3
      show ?thesis unfolding pos [OF 3(1)] pos [OF 3(2)] using le by (rule divide_right_mono) simp
    qed
  qed
  have "uint v \<le> 255" using uint_bounded [of v] by simp
  then have "(of_int (uint v) :: rat) \<le> of_int 255" by (simp only: of_int_le_iff)
  then show "0 \<le> normalize_trigger v \<and> normalize_trigger v \<le> 1" by (simp add: normalize_trigger_def del: of_int_uint)
  have turn: "- 90 \<le> (let b = (if a > 90 \<and> a < 270 then 180 - a else a) in if b > 90 then b - 360 else if b < - 90 then b + 360 else b) \<and>
      (let b = (if a > 90 \<and> a < 270 then 180 - a else a) in if b > 90 then b - 360 else if b < - 90 then b + 360 else b) \<le> (90 :: int)"
    if "0 \<le> a" "a \<le> 360" for a using that by (auto simp: Let_def)
  show "- 90 \<le> touch_orientation (Some r) \<and> touch_orientation (Some r) \<le> 90" if "r \<le> 360"
  proof -
    from that have "uint r \<le> 360" by (simp add: word_le_def)
    from turn [OF uint_ge_0 this] show ?thesis by (simp only: touch_orientation_def option.case Let_def)
  qed
qed

lemma orientation_of_large_rotation: "touch_orientation (Some 500) = 140"
  by (simp add: touch_orientation_def)

text \<open>
  The buttons of the virtual gamepad are those of the client's state, bit by bit; the extra ones need a profile
  that has them.
\<close>
theorem buttons_exact:
  assumes "st' = make_gamepad_state l cf st su"
  shows "(b, k) \<in> set button_bits \<Longrightarrow> b \<in> vs_buttons st' \<longleftrightarrow> gs_buttonFlags st AND k \<noteq> 0"
    "Misc1 \<in> vs_buttons st' \<longleftrightarrow> su_misc1_button su \<and> gs_buttonFlags st AND MISC_BUTTON \<noteq> 0"
    "Touchpad \<in> vs_buttons st' \<longleftrightarrow> su_touchpad_button su \<and>
      (gs_buttonFlags st AND TOUCHPAD_BUTTON \<noteq> 0 \<or>
       it_ds4_back_as_touchpad_click cf \<and> configured_gamepad_supports_touchpad l cf \<and> gs_buttonFlags st AND BACK \<noteq> 0)"
proof -
  have "distinct (map fst button_bits)" "Misc1 \<notin> set (map fst button_bits)" "Touchpad \<notin> set (map fst button_bits)"
    by (simp_all add: button_bits_def)
  then show "(b, k) \<in> set button_bits \<Longrightarrow> b \<in> vs_buttons st' \<longleftrightarrow> gs_buttonFlags st AND k \<noteq> 0"
    "Misc1 \<in> vs_buttons st' \<longleftrightarrow> su_misc1_button su \<and> gs_buttonFlags st AND MISC_BUTTON \<noteq> 0"
    "Touchpad \<in> vs_buttons st' \<longleftrightarrow> su_touchpad_button su \<and>
      (gs_buttonFlags st AND TOUCHPAD_BUTTON \<noteq> 0 \<or>
       it_ds4_back_as_touchpad_click cf \<and> configured_gamepad_supports_touchpad l cf \<and> gs_buttonFlags st AND BACK \<noteq> 0)"
    unfolding assms make_gamepad_state_def Let_def
    by (auto simp: image_iff dest: eq_key_imp_eq_value)
qed

text \<open>
  An id that the host has for a gamepad is an index of the table of devices, so that the device is made whenever
  the library makes one; and the devices of different ids are told apart by their stable ids when these are not random.
\<close>
theorem gamepad_ids_are_indices:
  assumes "alloc_id ids = Some (x, ids')" "length ids = MAX_GAMEPADS" "hid_reach c"
    and "ic_runtime c = Some caps" "hc_gamepad caps" "created (profile_for_metadata cf a) = Some su"
  shows "fst (vh_alloc_gamepad l mt cf random created (int x) ci a queue c) = 0"
    "has_gamepad (int x) (snd (vh_alloc_gamepad l mt cf random created (int x) ci a queue c))"
proof -
  have "x < length ids" using assms(1)
    by (induction ids arbitrary: x ids') (auto split: if_splits)
  moreover have "length (ic_gamepads c) = MAX_GAMEPADS" using hid_reach_ok [OF assms(3)] by (simp add: hid_ok_def)
  ultimately have "int x < int (length (ic_gamepads c))" using assms(2) by simp
  with assms(4-6) show "fst (vh_alloc_gamepad l mt cf random created (int x) ci a queue c) = 0"
    "has_gamepad (int x) (snd (vh_alloc_gamepad l mt cf random created (int x) ci a queue c))"
    by (auto simp: vh_alloc_gamepad_def Let_def has_gamepad_def set_pad_context_def hid_feedback_def hid_emit_def)
qed

lemma hex2_inj: "i < 256 \<Longrightarrow> j < 256 \<Longrightarrow> hex2 i = hex2 j \<Longrightarrow> i = j"
proof -
  assume ij: "i < 256" "j < 256" "hex2 i = hex2 j"
  have digits: "distinct (map hex_digit [0..<16])" by code_simp
  have digit: "d = e" if "hex_digit d = hex_digit e" "d < 16" "e < 16" for d e
    using that nth_eq_iff_index_eq [OF digits, of d e] by simp
  from ij(3) have "i div 16 mod 16 = j div 16 mod 16" "i mod 16 = j mod 16"
    by (auto simp: hex2_def intro!: digit)
  moreover have "i div 16 mod 16 = i div 16" "j div 16 mod 16 = j div 16" using ij(1,2) by auto
  ultimately show "i = j" by (metis div_mult_mod_eq)
qed

lemma stable_mac_unique:
  assumes "\<not> it_virtualhid_randomize_mac cf" "kind \<in> {Pad_Ds4, Pad_Ds5}" "kind' \<in> {Pad_Ds4, Pad_Ds5}"
    and "i \<in> {0..255}" "j \<in> {0..255}" "gamepad_stable_id cf r i kind = gamepad_stable_id cf r' j kind'"
  shows "i = j"
  using assms hex2_inj [of "nat i" "nat j"] by (auto simp: gamepad_stable_id_def nat_less_iff nat_eq_iff2)

text \<open>
  The host has a gamepad to offer exactly when the library has, or the old driver on Windows; the automatic choice
  is then enabled too, and it never chooses one that is not offered.
\<close>
theorem offered_gamepads:
  "probe_gamepads (supported_gamepads (Some caps) vigem) \<longleftrightarrow> \<not> hc_gamepad caps \<and> \<not> vigem"
  "(ascii ''auto'', True, []) \<in> set (supported_gamepads (Some caps) vigem) \<longleftrightarrow> \<not> probe_gamepads (supported_gamepads (Some caps) vigem)"
  "hc_gamepad caps \<Longrightarrow> \<exists>n. (n, True, []) \<in> set (supported_gamepads (Some caps) vigem) \<and> n \<noteq> ascii ''auto'' \<and>
     (n, profile_for_metadata cf a) \<in> set gamepad_profiles"
proof -
  have auto: "ascii ''auto'' \<noteq> n" if "(n, p) \<in> set gamepad_profiles" for n p
    using that by (auto simp: gamepad_profiles_def ascii_def)
  show probe: "probe_gamepads (supported_gamepads (Some caps) vigem) \<longleftrightarrow> \<not> hc_gamepad caps \<and> \<not> vigem"
    by (cases "hc_gamepad caps"; cases vigem)
      (simp_all add: probe_gamepads_def supported_gamepads_def gamepad_profiles_def ascii_def Let_def)
  show "(ascii ''auto'', True, []) \<in> set (supported_gamepads (Some caps) vigem) \<longleftrightarrow> \<not> probe_gamepads (supported_gamepads (Some caps) vigem)"
    unfolding probe by (auto simp: supported_gamepads_def Let_def dest: auto)
  show "\<exists>n. (n, True, []) \<in> set (supported_gamepads (Some caps) vigem) \<and> n \<noteq> ascii ''auto'' \<and>
     (n, profile_for_metadata cf a) \<in> set gamepad_profiles" if "hc_gamepad caps"
  proof -
    obtain n where n: "(n, profile_for_metadata cf a) \<in> set gamepad_profiles"
      by (cases "profile_for_metadata cf a") (auto simp: gamepad_profiles_def)
    have "(n, True, []) \<in> set (supported_gamepads (Some caps) vigem)"
      using that by (auto simp: supported_gamepads_def Let_def intro!: rev_image_eqI [OF n])
    with n auto show ?thesis by metis
  qed
qed

section \<open>Witnesses\<close>

definition full_support :: pad_support where
  "full_support = \<lparr> su_motion = True, su_touchpad = True, su_rgb_led = True, su_misc1_button = True, su_touchpad_button = True \<rparr>"

definition full_caps :: hid_caps where
  "full_caps = \<lparr> hc_gamepad = True, hc_keyboard = True, hc_mouse = True, hc_touchscreen = True, hc_pen_tablet = True \<rparr>"

definition sample_pad :: gamepad_context where
  "sample_pad = \<lparr> gx_support = full_support, gx_queue = Some 4, gx_touch_ids = [None, None], gx_index = 1,
     gx_rumble = None, gx_triggers = None, gx_rgb = None \<rparr>"

definition touch_at :: "touch_ev \<Rightarrow> u32 \<Rightarrow> pad_touch_input" where
  "touch_at e p = \<lparr> pt_event = e, pt_pointer = p, pt_x = 1 / 2, pt_y = 1 / 2, pt_pressure = 1 \<rparr>"

definition sample_lib :: hid_lib where
  "sample_lib = \<lparr> hl_kind = id, hl_support = (\<lambda>_. full_support) \<rparr>"

definition unknown_pad :: pad_arrival_info where
  "unknown_pad = \<lparr> pv_type = CT_Unknown, pv_accel = False, pv_gyro = False, pv_touchpad = True, pv_rgb_led = False, pv_battery = False \<rparr>"

text \<open>A gamepad with index 3 of a client, and two fingers on its touch pad.\<close>

definition one_pad :: "input_t \<Rightarrow> input_context" where
  "one_pad cf = snd (vh_alloc_gamepad sample_lib \<lparr> mt_accel = 1, mt_gyro = 2 \<rparr> cf (0, 0, 0, 0) (\<lambda>_. Some full_support) 3 1 unknown_pad
     (Some 4) (input_context_new (Some full_caps) True True))"

lemma one_pad_reach: "hid_reach (one_pad cf)"
  unfolding one_pad_def by (rule hid_reach.step [OF hid_reach.start hid_step.alloc])

lemma one_pad_has: "has_gamepad 3 (one_pad cf)" "ic_runtime (one_pad cf) = Some full_caps"
  by (simp_all add: one_pad_def vh_alloc_gamepad_def input_context_new_def full_caps_def refresh_mouse_def hid_emit_def
      hid_feedback_def set_pad_context_def has_gamepad_def MAX_GAMEPADS_def Let_def)

theorem touchpad_contacts_owned_witness:
  "\<forall>cf. contacts_held (ic_calls (vh_gamepad_touch 3 (touch_at TE_Down 7) (one_pad cf))) =
     {(nr, i). i \<in> slots_of nr (vh_gamepad_touch 3 (touch_at TE_Down 7) (one_pad cf))}"
  by (intro allI touchpad_contacts_owned(1) hid_reach.step [OF one_pad_reach hid_step.touch])

theorem rumble_reaches_client_witness:
  "concat (map (\<lambda>(q, m). rumble_sent m) (fst (outputs_of sample_pad
     [Out_Rumble 5 6, Out_Rumble 5 6, Out_Raw_Report, Out_Rumble 0 0, Out_Rumble 5 6]))) = [(1, 5, 6), (1, 0, 0), (1, 5, 6)]"
  using rumble_reaches_client(1) [of sample_pad 4 "[Out_Rumble 5 6, Out_Rumble 5 6, Out_Raw_Report, Out_Rumble 0 0, Out_Rumble 5 6]"]
  by (simp add: sample_pad_def del: outputs_Cons)

theorem rebound_feedback_witness:
  "\<forall>cf. \<exists>c' ms. vh_rebind_gamepad \<lparr> mt_accel = 1, mt_gyro = 2 \<rparr> 3 0 (Some 9) (one_pad cf) = (0, c') \<and>
     ic_feedback (vh_output 3 (Out_Rumble 1 1) c') = ic_feedback (one_pad cf) @ ms \<and> (\<forall>(q, m) \<in> set ms. q = 9 \<and> fb_id m = 0)"
proof
  fix cf
  obtain c' where c: "vh_rebind_gamepad \<lparr> mt_accel = 1, mt_gyro = 2 \<rparr> 3 0 (Some 9) (one_pad cf) = (0, c')"
    using one_pad_has(1) by (simp add: vh_rebind_gamepad_def Let_def)
  from rebound_feedback [OF c, of "[Out_Rumble 1 1]"] c show "\<exists>c' ms. vh_rebind_gamepad \<lparr> mt_accel = 1, mt_gyro = 2 \<rparr> 3 0 (Some 9) (one_pad cf) = (0, c') \<and>
     ic_feedback (vh_output 3 (Out_Rumble 1 1) c') = ic_feedback (one_pad cf) @ ms \<and> (\<forall>(q, m) \<in> set ms. q = 9 \<and> fb_id m = 0)"
    by auto
qed

definition pen_at :: "touch_ev \<Rightarrow> pen_button set \<Rightarrow> pen_in" where
  "pen_at e bs = \<lparr> pi_event = e, pi_tool = Tool_Pen, pi_buttons = bs, pi_tilt = None, pi_rotation = None, pi_x = 0, pi_y = 0,
     pi_pressure = 1 \<rparr>"

theorem client_pointers_tracked_witness:
  "held_by pen_pressed pen_released (cc_calls (vh_pen_update (\<lambda>_ _. (0, 0)) (0, 0, 1, 1) (pen_at TE_Down {Pen_Secondary})
     (client_context_new (Some full_caps) True True))) = {Pen_Secondary}"
  using client_pointers_tracked(4) [OF client_reach.start [of "Some full_caps" True True], of "(\<lambda>_ _. (0, 0))" "(0, 0, 1, 1)" "pen_at TE_Down {Pen_Secondary}"]
  by (simp add: client_context_new_def full_caps_def pen_at_def)

theorem axes_normalized_witness:
  "- 90 \<le> touch_orientation (Some 181) \<and> touch_orientation (Some 181) \<le> 90 \<and> normalize_axis 3 \<le> normalize_axis 4"
  using axes_normalized(7) [of 181] axes_normalized(5) [of 3 4] by simp

theorem buttons_exact_witness:
  "\<forall>cf. Dpad_Left \<in> vs_buttons (make_gamepad_state sample_lib cf (gamepad_state_zero\<lparr> gs_buttonFlags := 4 \<rparr>) full_support)"
proof
  fix cf
  show "Dpad_Left \<in> vs_buttons (make_gamepad_state sample_lib cf (gamepad_state_zero\<lparr> gs_buttonFlags := 4 \<rparr>) full_support)"
    using buttons_exact(1) [OF refl, of Dpad_Left 4 sample_lib cf "gamepad_state_zero\<lparr> gs_buttonFlags := 4 \<rparr>" full_support]
    by (simp add: button_bits_def)
qed

theorem gamepad_ids_are_indices_witness:
  "\<forall>cf. fst (vh_alloc_gamepad sample_lib \<lparr> mt_accel = 1, mt_gyro = 2 \<rparr> cf (0, 0, 0, 0) (\<lambda>_. Some full_support) (int 0) 1 unknown_pad
     (Some 4) (one_pad cf)) = 0"
  by (intro allI gamepad_ids_are_indices(1) [where ids = "replicate MAX_GAMEPADS False" and ids' = "True # replicate 15 False" and caps = full_caps]
      one_pad_reach one_pad_has(2))
    (simp_all add: MAX_GAMEPADS_def full_caps_def numeral_eq_Suc)

theorem offered_gamepads_witness:
  "\<forall>cf. \<exists>n. (n, True, []) \<in> set (supported_gamepads (Some full_caps) False) \<and> n \<noteq> ascii ''auto'' \<and>
     (n, profile_for_metadata cf unknown_pad) \<in> set gamepad_profiles"
  by (intro allI offered_gamepads(3)) (simp add: full_caps_def)

end
