(* ===== verification/Spec2Isabelle.thy ===== *)
theory Spec2Isabelle
  imports Alarm Mailbox Thread_Pool Video_Frames Audio_Packets Session_Life Codec Crypto Pairing
    Input_Devices Input_Gamepads Launch Display_Device Config_Facts Web_Facts Video_Encode Video_Capture Audio_Capture Virtual_Hid
begin

text \<open>
  Verification library of Solari, the game-stream host. (Header to follow the components.)
\<close>

end
